(* ===== verification/Itc_Prelude.thy ===== *)
theory Itc_Prelude
  imports Main "HOL-Library.Word"
begin

text \<open>
  Shared ground of the development: the outcome of a C computation (a value, or the reason why
  the C program has no defined continuation), a heap of explicitly allocated cells, blocks that
  are owned by a single pointer variable, and the outcomes the operating system hands to the
  code. Nothing here models a file of the repository; the component theories build on it.
\<close>

unbundle bit_operations_syntax

named_theorems outcome_simps
  \<open>elimination of successful outcomes: what a computation that returned went through\<close>

named_theorems heap_simps
  \<open>cells of a heap after reads, writes, allocations and releases\<close>

section \<open>Types of the model\<close>

type_synonym u8 = "8 word"
type_synonym u16 = "16 word"
type_synonym u32 = "32 word"
type_synonym u64 = "64 word"

text \<open>A pointer into a heap; \<open>None\<close> is \<open>NULL\<close>.\<close>

type_synonym ptr = "nat option"

section \<open>Outcomes of C computations\<close>

text \<open>
  Why a C computation has no defined continuation. \<open>Blocked\<close> is a call that waits for an event
  that the modelled run never delivers; \<open>Diverges\<close> is a loop that does not terminate.
\<close>

datatype fault =
    NullDeref
  | UseAfterFree
  | DoubleFree
  | OutOfBounds
  | Undefined
  | Blocked
  | Diverges

type_synonym 'a outcome = "fault + 'a"

fun bindE :: "'a outcome \<Rightarrow> ('a \<Rightarrow> 'b outcome) \<Rightarrow> 'b outcome" where
  "bindE (Inl e) f = Inl e"
| "bindE (Inr a) f = f a"

text \<open>The simplifier runs the first computation before it looks at the continuation.\<close>

lemma bindE_cong [cong]: "m = m' \<Longrightarrow> bindE m f = bindE m' f"
  by simp

lemma bindE_eq_Inr [outcome_simps]: "bindE m f = Inr b \<longleftrightarrow> (\<exists>a. m = Inr a \<and> f a = Inr b)"
  by (cases m) auto

lemma bindE_eq_Inl: "bindE m f = Inl e \<longleftrightarrow> m = Inl e \<or> (\<exists>a. m = Inr a \<and> f a = Inl e)"
  by (cases m) auto

lemma bindE_assoc: "bindE (bindE m f) g = bindE m (\<lambda>a. bindE (f a) g)"
  by (cases m) auto

lemma case_prod_eq_iff [outcome_simps]:
  "(case z of (a, b) \<Rightarrow> f a b) = y \<longleftrightarrow> (\<exists>a b. z = (a, b) \<and> f a b = y)"
  by (cases z) auto

section \<open>Blocks owned by one pointer variable\<close>

text \<open>
  A pointer variable that owns the block it points to: never allocated (\<open>NULL\<close>), allocated, or
  still holding the address of a block that was released.
\<close>

datatype 'a block = BNull | BLive 'a | BFreed

fun bread :: "'a block \<Rightarrow> 'a outcome" where
  "bread BNull = Inl NullDeref"
| "bread (BLive a) = Inr a"
| "bread BFreed = Inl UseAfterFree"

fun bwrite :: "('a \<Rightarrow> 'a) \<Rightarrow> 'a block \<Rightarrow> 'a block outcome" where
  "bwrite f BNull = Inl NullDeref"
| "bwrite f (BLive a) = Inr (BLive (f a))"
| "bwrite f BFreed = Inl UseAfterFree"

text \<open>\<open>free\<close> of a null pointer does nothing.\<close>

fun bfree :: "'a block \<Rightarrow> 'a block outcome" where
  "bfree BNull = Inr BNull"
| "bfree (BLive a) = Inr BFreed"
| "bfree BFreed = Inl DoubleFree"

lemma bread_eq_Inr [outcome_simps]: "bread b = Inr a \<longleftrightarrow> b = BLive a"
  by (cases b) auto

lemma bwrite_eq_Inr [outcome_simps]:
  "bwrite f b = Inr b' \<longleftrightarrow> (\<exists>a. b = BLive a \<and> b' = BLive (f a))"
  by (cases b) auto

section \<open>Heaps\<close>

text \<open>
  A heap of cells of one type. Addresses are never handed out twice, so that an access through
  a dangling pointer is always recognised. \<open>malloc_results\<close> are the outcomes of the coming
  allocations (\<open>False\<close>: out of memory); when the list is used up allocations succeed.
\<close>

record 'a heap =
  cells :: "nat \<Rightarrow> 'a option"
  fresh :: nat
  malloc_results :: "bool list"

definition empty_heap :: "bool list \<Rightarrow> 'a heap" where
  "empty_heap rs = \<lparr>cells = (\<lambda>_. None), fresh = 0, malloc_results = rs\<rparr>"

definition heap_ok :: "'a heap \<Rightarrow> bool" where
  "heap_ok h \<longleftrightarrow> (\<forall>p. fresh h \<le> p \<longrightarrow> cells h p = None)"

definition can_alloc :: "'a heap \<Rightarrow> bool" where
  "can_alloc h \<longleftrightarrow> (case malloc_results h of [] \<Rightarrow> True | b # _ \<Rightarrow> b)"

text \<open>\<open>malloc\<close>: the new cell's address, or \<open>None\<close> when memory is exhausted.\<close>

definition hmalloc :: "'a \<Rightarrow> 'a heap \<Rightarrow> ptr \<times> 'a heap" where
  "hmalloc v h =
     (if can_alloc h
      then (Some (fresh h),
            h\<lparr>cells := (cells h)(fresh h \<mapsto> v), fresh := Suc (fresh h),
              malloc_results := tl (malloc_results h)\<rparr>)
      else (None, h\<lparr>malloc_results := tl (malloc_results h)\<rparr>))"

definition hread :: "ptr \<Rightarrow> 'a heap \<Rightarrow> 'a outcome" where
  "hread p h =
     (case p of None \<Rightarrow> Inl NullDeref
      | Some a \<Rightarrow> (case cells h a of None \<Rightarrow> Inl UseAfterFree | Some v \<Rightarrow> Inr v))"

definition hupd :: "ptr \<Rightarrow> ('a \<Rightarrow> 'a) \<Rightarrow> 'a heap \<Rightarrow> 'a heap outcome" where
  "hupd p f h =
     (case p of None \<Rightarrow> Inl NullDeref
      | Some a \<Rightarrow> (case cells h a of None \<Rightarrow> Inl UseAfterFree
                   | Some v \<Rightarrow> Inr (h\<lparr>cells := (cells h)(a \<mapsto> f v)\<rparr>)))"

definition hfree :: "ptr \<Rightarrow> 'a heap \<Rightarrow> 'a heap outcome" where
  "hfree p h =
     (case p of None \<Rightarrow> Inr h
      | Some a \<Rightarrow> (case cells h a of None \<Rightarrow> Inl DoubleFree
                   | Some _ \<Rightarrow> Inr (h\<lparr>cells := (cells h)(a := None)\<rparr>)))"

lemma hread_Some [simp]: "cells h a = Some v \<Longrightarrow> hread (Some a) h = Inr v"
  by (simp add: hread_def)

lemma hread_None [simp]: "hread None h = Inl NullDeref"
  by (simp add: hread_def)

lemma hread_dangling [simp]: "cells h a = None \<Longrightarrow> hread (Some a) h = Inl UseAfterFree"
  by (simp add: hread_def)

lemma hread_eq_Inr [outcome_simps]:
  "hread p h = Inr v \<longleftrightarrow> (\<exists>a. p = Some a \<and> cells h a = Some v)"
  by (auto simp: hread_def split: option.splits)

lemma hupd_Some [simp]:
  "cells h a = Some v \<Longrightarrow> hupd (Some a) f h = Inr (h\<lparr>cells := (cells h)(a \<mapsto> f v)\<rparr>)"
  by (simp add: hupd_def)

lemma hupd_None [simp]: "hupd None f h = Inl NullDeref"
  by (simp add: hupd_def)

lemma hupd_dangling [simp]: "cells h a = None \<Longrightarrow> hupd (Some a) f h = Inl UseAfterFree"
  by (simp add: hupd_def)

lemma hupd_eq_Inr [outcome_simps]:
  "hupd p f h = Inr h' \<longleftrightarrow>
     (\<exists>a v. p = Some a \<and> cells h a = Some v \<and> h' = h\<lparr>cells := (cells h)(a \<mapsto> f v)\<rparr>)"
  by (auto simp: hupd_def split: option.splits)

lemma hfree_Some [simp]:
  "cells h a = Some v \<Longrightarrow> hfree (Some a) h = Inr (h\<lparr>cells := (cells h)(a := None)\<rparr>)"
  by (simp add: hfree_def)

lemma hfree_None [simp]: "hfree None h = Inr h"
  by (simp add: hfree_def)

lemma hfree_dangling [simp]: "cells h a = None \<Longrightarrow> hfree (Some a) h = Inl DoubleFree"
  by (simp add: hfree_def)

lemma hmalloc_ok [simp]:
  "can_alloc h \<Longrightarrow> hmalloc v h =
     (Some (fresh h), h\<lparr>cells := (cells h)(fresh h \<mapsto> v), fresh := Suc (fresh h),
                        malloc_results := tl (malloc_results h)\<rparr>)"
  by (simp add: hmalloc_def)

lemma hmalloc_oom [simp]:
  "\<not> can_alloc h \<Longrightarrow> hmalloc v h = (None, h\<lparr>malloc_results := tl (malloc_results h)\<rparr>)"
  by (simp add: hmalloc_def)

lemma heap_ok_fresh [heap_simps]: "heap_ok h \<Longrightarrow> cells h (fresh h) = None"
  by (simp add: heap_ok_def)

lemma heap_ok_less: "heap_ok h \<Longrightarrow> cells h a = Some v \<Longrightarrow> a < fresh h"
  by (metis heap_ok_def linorder_not_le option.distinct(1))

lemma heap_ok_empty [simp]: "heap_ok (empty_heap rs)"
  by (simp add: heap_ok_def empty_heap_def)

lemma empty_heap_simps [simp]:
  "cells (empty_heap rs) = (\<lambda>_. None)" "fresh (empty_heap rs) = 0"
  "malloc_results (empty_heap rs) = rs"
  by (simp_all add: empty_heap_def)

lemma can_alloc_empty [simp]: "can_alloc (empty_heap [])"
  by (simp add: can_alloc_def empty_heap_def)

lemma heap_ok_update [simp]:
  "heap_ok h \<Longrightarrow> a < fresh h \<Longrightarrow> heap_ok (h\<lparr>cells := (cells h)(a := v)\<rparr>)"
  by (auto simp: heap_ok_def)

lemma heap_ok_remove [simp]: "heap_ok h \<Longrightarrow> heap_ok (h\<lparr>cells := (cells h)(a := None)\<rparr>)"
  by (auto simp: heap_ok_def)

lemma heap_ok_alloc [simp]:
  "heap_ok h \<Longrightarrow>
     heap_ok (h\<lparr>cells := (cells h)(fresh h := v), fresh := Suc (fresh h)\<rparr>)"
  by (auto simp: heap_ok_def)

lemma heap_ok_malloc_results [simp]:
  "heap_ok (h\<lparr>malloc_results := rs\<rparr>) = heap_ok h"
  by (auto simp: heap_ok_def)

text \<open>
  A heap whose allocations all succeed, whatever is allocated later: the case in which the
  machine never runs out of memory.
\<close>

definition never_oom :: "'a heap \<Rightarrow> bool" where
  "never_oom h \<longleftrightarrow> (\<forall>b \<in> set (malloc_results h). b)"

lemma never_oom_can_alloc: "never_oom h \<Longrightarrow> can_alloc h"
  by (cases "malloc_results h") (auto simp: never_oom_def can_alloc_def)

lemma never_oom_tl [simp]:
  "never_oom h \<Longrightarrow> never_oom (h\<lparr>cells := c, fresh := f, malloc_results := tl (malloc_results h)\<rparr>)"
  by (cases "malloc_results h") (auto simp: never_oom_def)

lemma never_oom_cells [simp]: "never_oom (h\<lparr>cells := c\<rparr>) = never_oom h"
  by (simp add: never_oom_def)

section \<open>System calls\<close>

text \<open>
  The outcomes the operating system gives to the coming system calls, in the order in which
  they are made: the returned integer and, where it signals an error, \<open>errno\<close>. A call beyond
  the end of the list succeeds with the value 0.
\<close>

datatype errno =
    EINTR | EINVAL | EIDRM | ENOENT | EEXIST | EPIPE | EBADF | ECONNABORTED | ESRCH | EDEADLK
  | ETIMEDOUT | EAGAIN | EOTHER

type_synonym sysret = "int \<times> errno"

fun syscall :: "sysret list \<Rightarrow> sysret \<times> sysret list" where
  "syscall [] = ((0, EOTHER), [])"
| "syscall (r # rs) = (r, rs)"

end
