(* ===== verification/Itc_Dll.thy ===== *)
theory Itc_Dll
  imports Itc_Prelude
begin

text \<open>
  Doubly linked lists in a heap: the node type that \<open>itc_queue.c\<close> and the receive queues of
  \<open>itc_local.c\<close> both use, the predicate that a heap holds a given list, and how it behaves when
  nodes are appended, unlinked or released elsewhere in the heap.
\<close>

record 'd dnode =
  next_ptr :: ptr
  prev_ptr :: ptr
  node_data :: 'd

section \<open>Segments\<close>

text \<open>
  \<open>dseg c pv nx ps xs\<close>: in the cells \<open>c\<close> the nodes at the addresses \<open>ps\<close>, in this order, hold
  the data \<open>xs\<close>; the first node's \<open>prev\<close> is \<open>pv\<close>, the last node's \<open>next\<close> is \<open>nx\<close>.
\<close>

definition hdp :: "ptr \<Rightarrow> nat list \<Rightarrow> ptr" where
  "hdp nx ps = (case ps of [] \<Rightarrow> nx | p # _ \<Rightarrow> Some p)"

definition lastp :: "ptr \<Rightarrow> nat list \<Rightarrow> ptr" where
  "lastp pv ps = (if ps = [] then pv else Some (last ps))"

lemma hdp_simps [simp]: "hdp nx [] = nx" "hdp nx (p # ps) = Some p"
  by (simp_all add: hdp_def)

lemma lastp_simps [simp]: "lastp pv [] = pv" "lastp pv (ps @ [p]) = Some p"
  "lastp pv (p # ps) = lastp (Some p) ps"
  by (simp_all add: lastp_def)

lemma hdp_append [simp]: "hdp nx (ps @ qs) = hdp (hdp nx qs) ps"
  by (cases ps) simp_all

lemma lastp_append [simp]: "lastp pv (ps @ qs) = lastp (lastp pv ps) qs"
  by (simp add: lastp_def)

lemma hdp_eq_None [simp]: "hdp None ps = None \<longleftrightarrow> ps = []"
  by (cases ps) simp_all

lemma lastp_eq_None [simp]: "lastp None ps = None \<longleftrightarrow> ps = []"
  by (simp add: lastp_def)

fun dseg :: "(nat \<Rightarrow> 'd dnode option) \<Rightarrow> ptr \<Rightarrow> ptr \<Rightarrow> nat list \<Rightarrow> 'd list \<Rightarrow> bool" where
  "dseg c pv nx [] [] = True"
| "dseg c pv nx (p # ps) (x # xs) =
     (c p = Some \<lparr>next_ptr = hdp nx ps, prev_ptr = pv, node_data = x\<rparr> \<and> dseg c (Some p) nx ps xs)"
| "dseg c pv nx _ _ = False"

lemma dseg_length: "dseg c pv nx ps xs \<Longrightarrow> length ps = length xs"
  by (induction c pv nx ps xs rule: dseg.induct) auto

lemma dseg_Nil [simp]: "dseg c pv nx [] xs \<longleftrightarrow> xs = []" "dseg c pv nx ps [] \<longleftrightarrow> ps = []"
  by (cases xs; simp) (cases ps; simp)

lemma dseg_Cons1: "dseg c pv nx (p # ps) ys \<longleftrightarrow>
    (\<exists>x xs. ys = x # xs \<and> c p = Some \<lparr>next_ptr = hdp nx ps, prev_ptr = pv, node_data = x\<rparr> \<and>
            dseg c (Some p) nx ps xs)"
  by (cases ys) auto

lemma dseg_append:
  "length ps = length xs \<Longrightarrow>
     dseg c pv nx (ps @ qs) (xs @ ys) \<longleftrightarrow>
       dseg c pv (hdp nx qs) ps xs \<and> dseg c (lastp pv ps) nx qs ys"
  by (induction ps xs arbitrary: pv rule: list_induct2) auto

lemma dseg_upd_other [simp]:
  "p \<notin> set ps \<Longrightarrow> dseg (c(p := v)) pv nx ps xs = dseg c pv nx ps xs"
  by (induction c pv nx ps xs rule: dseg.induct) auto

lemma dseg_cong:
  "(\<And>p. p \<in> set ps \<Longrightarrow> c p = c' p) \<Longrightarrow> dseg c pv nx ps xs = dseg c' pv nx ps xs"
  by (induction c pv nx ps xs rule: dseg.induct) auto

lemma dseg_alloc: "dseg c pv nx ps xs \<Longrightarrow> p \<in> set ps \<Longrightarrow> \<exists>n. c p = Some n"
  by (induction c pv nx ps xs rule: dseg.induct) auto

lemma dseg_nth:
  "dseg c pv nx ps xs \<Longrightarrow> i < length ps \<Longrightarrow> \<exists>n. c (ps ! i) = Some n \<and> node_data n = xs ! i"
proof (induction c pv nx ps xs arbitrary: i rule: dseg.induct)
  case (2 c pv nx p ps x xs)
  then show ?case by (cases i) auto
qed auto

section \<open>Whole lists\<close>

text \<open>
  A list reached from its first node. The \<open>prev\<close> pointer of the first node is not constrained:
  neither of the two queues ever follows it.
\<close>

definition dlist :: "(nat \<Rightarrow> 'd dnode option) \<Rightarrow> ptr \<Rightarrow> ptr \<Rightarrow> nat list \<Rightarrow> 'd list \<Rightarrow> bool" where
  "dlist c h0 t0 ps xs \<longleftrightarrow>
     (\<exists>pv. dseg c pv None ps xs) \<and> distinct ps \<and> h0 = hdp None ps \<and> t0 = lastp None ps"

lemma dlist_Nil [simp]: "dlist c h0 t0 ps [] \<longleftrightarrow> ps = [] \<and> h0 = None \<and> t0 = None"
  by (auto simp: dlist_def)

lemma dlist_Nil_ptrs [simp]: "dlist c h0 t0 [] xs \<longleftrightarrow> xs = [] \<and> h0 = None \<and> t0 = None"
  by (auto simp: dlist_def)

lemma dlist_length: "dlist c h0 t0 ps xs \<Longrightarrow> length ps = length xs"
  by (auto simp: dlist_def dseg_length)

lemma dlist_distinct: "dlist c h0 t0 ps xs \<Longrightarrow> distinct ps"
  by (simp add: dlist_def)

lemma dlist_hd_None: "dlist c h0 t0 ps xs \<Longrightarrow> h0 = None \<longleftrightarrow> xs = []"
  by (auto simp: dlist_def dest: dseg_length)

lemma dlist_tl_None: "dlist c h0 t0 ps xs \<Longrightarrow> t0 = None \<longleftrightarrow> xs = []"
  by (auto simp: dlist_def dest: dseg_length)

lemma dlist_alloc: "dlist c h0 t0 ps xs \<Longrightarrow> p \<in> set ps \<Longrightarrow> \<exists>n. c p = Some n"
  by (auto simp: dlist_def dest: dseg_alloc)

lemma dlist_upd_other:
  "dlist c h0 t0 ps xs \<Longrightarrow> p \<notin> set ps \<Longrightarrow> dlist (c(p := v)) h0 t0 ps xs"
  by (auto simp: dlist_def)

lemma dlist_cong:
  "(\<And>p. p \<in> set ps \<Longrightarrow> c p = c' p) \<Longrightarrow> dlist c h0 t0 ps xs = dlist c' h0 t0 ps xs"
  unfolding dlist_def using dseg_cong by blast

subsection \<open>Enqueueing at the tail\<close>

lemma dlist_first:
  "c p = Some \<lparr>next_ptr = None, prev_ptr = pv, node_data = x\<rparr> \<Longrightarrow>
     dlist c (Some p) (Some p) [p] [x]"
  by (auto simp: dlist_def)

lemma dlist_last_node:
  assumes "dlist c h0 (Some t) ps xs"
  shows "\<exists>n. c t = Some n \<and> next_ptr n = None \<and> t = last ps \<and> ps \<noteq> []"
proof -
  obtain pv where seg: "dseg c pv None ps xs" and t: "Some t = lastp None ps"
    using assms by (auto simp: dlist_def)
  then have "ps \<noteq> []" by auto
  then obtain qs where ps: "ps = qs @ [t]"
    using t by (cases ps rule: rev_cases) auto
  obtain ys y where xs: "xs = ys @ [y]" and "length qs = length ys"
    using dseg_length [OF seg] ps by (cases xs rule: rev_cases) auto
  then show ?thesis
    using seg ps by (auto simp: dseg_append)
qed

lemma dlist_snoc:
  assumes d: "dlist c h0 (Some t) ps xs" and t: "c t = Some n" and p: "p \<notin> set ps"
  shows "dlist (c(t \<mapsto> n\<lparr>next_ptr := Some p\<rparr>,
                  p \<mapsto> \<lparr>next_ptr = None, prev_ptr = Some t, node_data = x\<rparr>))
               h0 (Some p) (ps @ [p]) (xs @ [x])"
proof -
  obtain pv where seg: "dseg c pv None ps xs" and dist: "distinct ps"
    and h0: "h0 = hdp None ps" and t0: "Some t = lastp None ps"
    using d by (auto simp: dlist_def)
  from t0 obtain qs where ps: "ps = qs @ [t]"
    by (cases ps rule: rev_cases) auto
  obtain ys y where xs: "xs = ys @ [y]" and len: "length qs = length ys"
    using dseg_length [OF seg] ps by (cases xs rule: rev_cases) auto
  have n: "n = \<lparr>next_ptr = None, prev_ptr = lastp pv qs, node_data = y\<rparr>"
    and pre: "dseg c pv (Some t) qs ys"
    using seg t ps xs len by (auto simp: dseg_append)
  have "p \<noteq> t" "p \<notin> set qs" "t \<notin> set qs"
    using p dist ps by auto
  moreover have "length (qs @ [t]) = length (ys @ [y])" using len by simp
  ultimately show ?thesis
    using dist p h0 ps xs pre n len
    by (auto simp: dlist_def dseg_append intro!: exI [of _ pv])
qed

subsection \<open>Unlinking\<close>

lemma dlist_Cons_node:
  assumes "dlist c (Some p) t0 ps (x # xs)"
  shows "\<exists>n qs. ps = p # qs \<and> c p = Some n \<and> node_data n = x \<and> next_ptr n = hdp None qs"
  using assms by (cases ps) (auto simp: dlist_def)

lemma dlist_single:
  assumes "dlist c (Some p) (Some p) ps xs"
  shows "ps = [p] \<and> length xs = 1"
proof -
  have h: "hdp None ps = Some p" and l: "lastp None ps = Some p" and d: "distinct ps"
    and len: "length ps = length xs"
    using assms by (auto simp: dlist_def dseg_length)
  from h obtain qs where ps: "ps = p # qs"
    by (cases ps) auto
  have "qs = []"
  proof (rule ccontr)
    assume "qs \<noteq> []"
    with l ps have "p \<in> set qs" by (auto simp: lastp_def split: if_splits)
    with d ps show False by simp
  qed
  with ps len show ?thesis by simp
qed

lemma dlist_two_nodes:
  assumes "dlist c (Some p) (Some t) ps xs" and "p \<noteq> t"
  shows "\<exists>q qs x y ys n m. ps = p # q # qs \<and> xs = x # y # ys \<and> c p = Some n \<and> c q = Some m \<and>
           node_data n = x \<and> next_ptr n = Some q \<and> prev_ptr m = Some p \<and>
           m = \<lparr>next_ptr = hdp None qs, prev_ptr = Some p, node_data = y\<rparr> \<and>
           dseg c (Some q) None qs ys"
proof -
  obtain pv where seg: "dseg c pv None ps xs" and h: "Some p = hdp None ps"
    and l: "Some t = lastp None ps"
    using assms(1) by (auto simp: dlist_def)
  from h obtain ps' where ps: "ps = p # ps'" by (cases ps) auto
  with l assms(2) obtain q qs where "ps' = q # qs" by (cases ps') auto
  with ps seg show ?thesis
    by (auto simp: dseg_Cons1)
qed

lemma dlist_tail:
  assumes d: "dlist c (Some p) t0 (p # q # qs) (x # y # ys)"
  shows "dlist (c(p := None, q := Some \<lparr>next_ptr = hdp None qs, prev_ptr = pv, node_data = y\<rparr>))
               (Some q) t0 (q # qs) (y # ys)"
  using assms by (auto simp: dlist_def)

text \<open>
  Taking a node out of the middle: its neighbours are linked to each other in both directions.
\<close>

lemma dseg_middle_nodes:
  assumes "dseg c pv None (as @ p # bs) (xs @ x # ys)" and "length as = length xs"
  shows "c p = Some \<lparr>next_ptr = hdp None bs, prev_ptr = lastp pv as, node_data = x\<rparr>"
  using assms by (simp add: dseg_append)

lemma dlist_remove_middle:
  assumes d: "dlist c h0 t0 (as @ [a] @ [p] @ [b] @ bs) (xs @ [u] @ [x] @ [w] @ ys)"
    and len: "length as = length xs"
    and na: "c a = Some na" and nb: "c b = Some nb"
  shows "dlist (c(a \<mapsto> na\<lparr>next_ptr := Some b\<rparr>, b \<mapsto> nb\<lparr>prev_ptr := Some a\<rparr>, p := None))
               h0 t0 (as @ [a] @ [b] @ bs) (xs @ [u] @ [w] @ ys)"
proof -
  obtain pv where seg: "dseg c pv None (as @ a # p # b # bs) (xs @ u # x # w # ys)"
    and dist: "distinct (as @ a # p # b # bs)"
    and h0: "h0 = hdp None (as @ a # p # b # bs)"
    and t0: "t0 = lastp None (as @ a # p # b # bs)"
    using d by (auto simp: dlist_def)
  show ?thesis
    using seg dist h0 t0 len na nb
    by (auto simp: dlist_def dseg_append intro!: exI [of _ pv])
qed

lemma dlist_remove_last:
  assumes d: "dlist c h0 t0 (as @ [a] @ [p]) (xs @ [u] @ [x])"
    and len: "length as = length xs" and na: "c a = Some na"
  shows "dlist (c(a \<mapsto> na\<lparr>next_ptr := None\<rparr>, p := None)) h0 (Some a) (as @ [a]) (xs @ [u])"
proof -
  obtain pv where seg: "dseg c pv None (as @ a # [p]) (xs @ u # [x])"
    and dist: "distinct (as @ a # [p])" and h0: "h0 = hdp None (as @ a # [p])"
    using d by (auto simp: dlist_def)
  show ?thesis
    using seg dist h0 len na
    by (auto simp: dlist_def dseg_append intro!: exI [of _ pv])
qed

lemma dlist_remove_first:
  assumes d: "dlist c h0 t0 (p # q # qs) (x # y # ys)" and nq: "c q = Some nq"
  shows "dlist (c(q \<mapsto> nq\<lparr>prev_ptr := pv\<rparr>, p := None)) (Some q) t0 (q # qs) (y # ys)"
  using d nq by (auto simp: dlist_def)

lemma dlist_remove_first_weak:
  assumes d: "dlist c h0 t0 (p # q # qs) (x # y # ys)"
  shows "dlist (c(p := None)) (Some q) t0 (q # qs) (y # ys)"
  using d by (auto simp: dlist_def)

end
