(* ===== verification/Itc_Types.thy ===== *)
theory Itc_Types
  imports Itc_Prelude
begin

text \<open>
  The constants and enumerations of \<open>itc.h\<close> and \<open>itc_impl.h\<close>. The result codes are the bits of
  the \<open>flags\<close> word of \<open>struct result_code\<close>.
\<close>

section \<open>Result codes (\<open>result_code_e\<close>)\<close>

definition ITC_OK :: u32 where [simp]: "ITC_OK = 0"
definition ITC_ALREADY_USED :: u32 where [simp]: "ITC_ALREADY_USED = 1"
definition ITC_ALREADY_INIT :: u32 where [simp]: "ITC_ALREADY_INIT = 2"
definition ITC_NOT_INIT_YET :: u32 where [simp]: "ITC_NOT_INIT_YET = 4"
definition ITC_QUEUE_NULL :: u32 where [simp]: "ITC_QUEUE_NULL = 8"
definition ITC_QUEUE_EMPTY :: u32 where [simp]: "ITC_QUEUE_EMPTY = 16"
definition ITC_NOT_THIS_PROC :: u32 where [simp]: "ITC_NOT_THIS_PROC = 32"
definition ITC_OUT_OF_RANGE :: u32 where [simp]: "ITC_OUT_OF_RANGE = 64"
definition ITC_NOT_DEL_ALL_MBOX :: u32 where [simp]: "ITC_NOT_DEL_ALL_MBOX = 128"
definition ITC_FREE_NULL_PTR :: u32 where [simp]: "ITC_FREE_NULL_PTR = 512"
definition ITC_INVALID_ARGUMENTS :: u32 where [simp]: "ITC_INVALID_ARGUMENTS = 1024"
definition ITC_SYSCALL_ERROR :: u32 where [simp]: "ITC_SYSCALL_ERROR = 2048"
definition ITC_INVALID_MSG_SIZE :: u32 where [simp]: "ITC_INVALID_MSG_SIZE = 4096"
definition ITC_INVALID_RESPONSE :: u32 where [simp]: "ITC_INVALID_RESPONSE = 8192"

section \<open>Identifiers, sizes and flags\<close>

type_synonym itc_mbox_id = u32

definition ITC_MAX_NAME_LENGTH :: nat where [simp]: "ITC_MAX_NAME_LENGTH = 255"
definition ITC_MAX_MAILBOXES :: u32 where [simp]: "ITC_MAX_MAILBOXES = 65534"
definition ITC_NO_MBOX_ID :: itc_mbox_id where [simp]: "ITC_NO_MBOX_ID = 0xFFFFFFFF"
definition ITC_MY_MBOX_ID :: itc_mbox_id where [simp]: "ITC_MY_MBOX_ID = 0xFFF00000"
definition ITC_NO_WAIT :: int where [simp]: "ITC_NO_WAIT = 0"
definition ITC_WAIT_FOREVER :: int where [simp]: "ITC_WAIT_FOREVER = -1"

definition ITC_COORD_MASK :: u32 where [simp]: "ITC_COORD_MASK = 0xFFF00000"
definition ITC_COORD_SHIFT :: nat where [simp]: "ITC_COORD_SHIFT = 20"
definition ITC_MAX_MSGSIZE :: int where [simp]: "ITC_MAX_MSGSIZE = 10 * 1024 * 1024"
definition ITC_HEADER_SIZE :: nat where [simp]: "ITC_HEADER_SIZE = 16"
definition ENDPOINT :: u8 where [simp]: "ENDPOINT = 0xAA"
definition MAX_SUPPORTED_PROCESSES :: nat where [simp]: "MAX_SUPPORTED_PROCESSES = 255"
definition ITC_NR_INTERNAL_USED_MBOXES :: nat where [simp]: "ITC_NR_INTERNAL_USED_MBOXES = 1"

definition ITC_FLAGS_I_AM_ITC_COORD :: u32 where [simp]: "ITC_FLAGS_I_AM_ITC_COORD = 0x00000001"
definition ITC_FLAGS_FORCE_REINIT :: u32 where [simp]: "ITC_FLAGS_FORCE_REINIT = 0x00000100"
definition ITC_FLAGS_MSG_INRXQUEUE :: u32 where [simp]: "ITC_FLAGS_MSG_INRXQUEUE = 0x0001"
definition ITC_NO_NAMESPACE :: u32 where [simp]: "ITC_NO_NAMESPACE = 0x00000100"

datatype mbox_state = MBOX_UNUSED | MBOX_INUSE

section \<open>Bit lemmas on 32-bit words\<close>

lemma unat_of_nat_small: "n < 2 ^ LENGTH('a) \<Longrightarrow> unat (of_nat n :: 'a::len word) = n"
  by (simp add: unat_of_nat take_bit_nat_eq_self)

lemma word_or_eq_0 [simp]: "(a OR b = 0) \<longleftrightarrow> (a = 0 \<and> b = 0)" for a b :: "'a::len word"
  by (metis bit.disj_zero_right or.right_idem or.left_commute or_eq_0_iff)

end
