(* ===== verification/Itc_Fifo.thy ===== *)
theory Itc_Fifo
  imports Itc_Prelude
begin

text \<open>
  The contract of a first-in first-out queue. \<open>itc_queue.c\<close> and the receive queues of
  \<open>itc_local.c\<close> each implement it with pointers of their own; what a client can rely on is proved
  here once, from the laws alone.
\<close>

text \<open>A client's sequence of operations, and what the abstract queue answers to it.\<close>

datatype 'x qop = Enq 'x | Deq

fun spec_run :: "'x qop list \<Rightarrow> 'x list \<Rightarrow> 'x option list \<times> 'x list" where
  "spec_run [] xs = ([], xs)"
| "spec_run (Enq x # ops) xs = spec_run ops (xs @ [x])"
| "spec_run (Deq # ops) [] = (case spec_run ops [] of (rs, ys) \<Rightarrow> (None # rs, ys))"
| "spec_run (Deq # ops) (x # xs) = (case spec_run ops xs of (rs, ys) \<Rightarrow> (Some x # rs, ys))"

fun run_ops ::
  "('x \<Rightarrow> 's \<Rightarrow> 's outcome) \<Rightarrow> ('s \<Rightarrow> ('x option \<times> 's) outcome) \<Rightarrow> 'x qop list \<Rightarrow> 's \<Rightarrow>
     ('x option list \<times> 's) outcome" where
  "run_ops enq deq [] s = Inr ([], s)"
| "run_ops enq deq (Enq x # ops) s = bindE (enq x s) (\<lambda>s. run_ops enq deq ops s)"
| "run_ops enq deq (Deq # ops) s =
     bindE (deq s) (\<lambda>(r, s). bindE (run_ops enq deq ops s) (\<lambda>(rs, s). Inr (r # rs, s)))"

fun n_enqs :: "'x qop list \<Rightarrow> nat" where
  "n_enqs [] = 0"
| "n_enqs (Enq x # ops) = Suc (n_enqs ops)"
| "n_enqs (Deq # ops) = n_enqs ops"

fun enq_args :: "'x qop list \<Rightarrow> 'x set" where
  "enq_args [] = {}"
| "enq_args (Enq x # ops) = insert x (enq_args ops)"
| "enq_args (Deq # ops) = enq_args ops"

text \<open>
  \<open>content s xs\<close>: the state \<open>s\<close> represents the queue \<open>xs\<close>; \<open>room n s\<close>: the next \<open>n\<close> insertions
  find the memory they need; \<open>ok s x\<close>: \<open>x\<close> may be inserted.
\<close>

locale fifo =
  fixes enq :: "'x \<Rightarrow> 's \<Rightarrow> 's outcome"
    and deq :: "'s \<Rightarrow> ('x option \<times> 's) outcome"
    and content :: "'s \<Rightarrow> 'x list \<Rightarrow> bool"
    and room :: "nat \<Rightarrow> 's \<Rightarrow> bool"
    and ok :: "'s \<Rightarrow> 'x \<Rightarrow> bool"
  assumes enq_law: "content s xs \<Longrightarrow> room (Suc n) s \<Longrightarrow> ok s x \<Longrightarrow>
      \<exists>s'. enq x s = Inr s' \<and> content s' (xs @ [x]) \<and> room n s' \<and> (\<forall>y. ok s y \<longrightarrow> ok s' y)"
    and deq_law: "content s (x # xs) \<Longrightarrow> room n s \<Longrightarrow>
      \<exists>s'. deq s = Inr (Some x, s') \<and> content s' xs \<and> room n s' \<and> (\<forall>y. ok s y \<longrightarrow> ok s' y)"
    and deq_empty_law: "content s [] \<Longrightarrow> room n s \<Longrightarrow>
      \<exists>s'. deq s = Inr (None, s') \<and> content s' [] \<and> room n s' \<and> (\<forall>y. ok s y \<longrightarrow> ok s' y)"
begin

text \<open>
  Every run of operations gives exactly the answers of the abstract queue: nothing is lost,
  duplicated or reordered, and no operation faults.
\<close>

lemma run_refines_spec:
  assumes "content s xs" and "room (n_enqs ops) s" and "\<forall>x \<in> enq_args ops. ok s x"
  shows "\<exists>s'. run_ops enq deq ops s = Inr (fst (spec_run ops xs), s') \<and>
              content s' (snd (spec_run ops xs))"
  using assms
proof (induction ops xs arbitrary: s rule: spec_run.induct)
  case (1 xs)
  then show ?case by auto
next
  case (2 x ops xs)
  then obtain s1 where s1: "enq x s = Inr s1" "content s1 (xs @ [x])" "room (n_enqs ops) s1"
    "\<forall>y. ok s y \<longrightarrow> ok s1 y"
    using enq_law [of s xs "n_enqs ops" x] by auto
  moreover have "\<forall>y \<in> enq_args ops. ok s1 y" using 2 s1(4) by simp
  ultimately show ?case using "2.IH" [OF s1(2,3)] by simp
next
  case (3 ops)
  then obtain s1 where s1: "deq s = Inr (None, s1)" "content s1 []" "room (n_enqs ops) s1"
    "\<forall>y. ok s y \<longrightarrow> ok s1 y"
    using deq_empty_law [of s "n_enqs ops"] by auto
  moreover have "\<forall>y \<in> enq_args ops. ok s1 y" using 3 s1(4) by simp
  ultimately show ?case using "3.IH" [OF s1(2,3)] by (auto simp: case_prod_beta)
next
  case (4 ops x xs)
  then obtain s1 where s1: "deq s = Inr (Some x, s1)" "content s1 xs" "room (n_enqs ops) s1"
    "\<forall>y. ok s y \<longrightarrow> ok s1 y"
    using deq_law [of s x xs "n_enqs ops"] by auto
  moreover have "\<forall>y \<in> enq_args ops. ok s1 y" using 4 s1(4) by simp
  ultimately show ?case using "4.IH" [OF s1(2,3)] by (auto simp: case_prod_beta)
qed

end

text \<open>Putting in a list and taking out as many elements gives the list back.\<close>

lemma spec_run_enqs: "spec_run (map Enq xs @ ops) ys = spec_run ops (ys @ xs)"
  by (induction xs arbitrary: ys) auto

lemma spec_run_deqs: "spec_run (replicate (length xs) Deq) xs = (map Some xs, [])"
  by (induction xs) auto

end
