(* ===== verification/Itc_Queue.thy ===== *)
theory Itc_Queue
  imports Itc_Dll Itc_Types Itc_Fifo
begin

text \<open>
  \<open>sw/itc/src/helpers/itc_queue.c\<close>: the generic queue that holds the free mailboxes of a process
  and the process slots of the coordinator. Nodes live in a heap that several queues may share;
  every operation takes and returns the result-code word of its \<open>rc\<close> argument. The queue's own
  mutex is held from the first to the last access of each operation except \<open>q_remove\<close>, so every
  operation is one atomic step of the model.
\<close>

unbundle bit_operations_syntax

section \<open>Data (\<open>itc_queue.h\<close>)\<close>

text \<open>The user data of a node is an untyped pointer: \<open>None\<close> is a null pointer.\<close>

type_synonym 'd itcq_node = "'d option dnode"
type_synonym 'd qheap = "'d itcq_node heap"

record itc_queue =
  q_head :: ptr
  q_tail :: ptr
  q_search :: ptr
  q_size :: u32

section \<open>Operations\<close>

definition q_createnode :: "u32 \<Rightarrow> 'd option \<Rightarrow> 'd qheap \<Rightarrow> ptr \<times> u32 \<times> 'd qheap" where
  "q_createnode rc data h =
     (case hmalloc \<lparr>next_ptr = None, prev_ptr = None, node_data = data\<rparr> h of
        (None, h) \<Rightarrow> (None, rc OR ITC_SYSCALL_ERROR, h)
      | (Some p, h) \<Rightarrow> (Some p, rc, h))"

text \<open>
  \<open>q_removenode\<close> gets the address of a pointer variable, frees what it points to and sets the
  variable to \<open>NULL\<close>. The model takes the variable's value; the callers store the \<open>NULL\<close>.
\<close>

definition q_removenode :: "u32 \<Rightarrow> ptr \<Rightarrow> 'd qheap \<Rightarrow> (u32 \<times> 'd qheap) outcome" where
  "q_removenode rc node h =
     (if node = None then Inr (rc OR ITC_FREE_NULL_PTR, h)
      else bindE (hfree node h) (\<lambda>h. Inr (rc, h)))"

text \<open>
  \<open>q_init\<close> allocates the queue and its mutex and initialises the mutex; \<open>m1\<close>, \<open>m2\<close> say whether
  the two allocations succeed and \<open>ret\<close> is what \<open>pthread_mutex_init\<close> returns.
\<close>

definition q_init :: "u32 \<Rightarrow> bool \<Rightarrow> bool \<Rightarrow> int \<Rightarrow> itc_queue option \<times> u32" where
  "q_init rc m1 m2 ret =
     (if \<not> m1 then (None, rc OR ITC_SYSCALL_ERROR)
      else if \<not> m2 then (None, rc OR ITC_SYSCALL_ERROR)
      else if ret \<noteq> 0 then (None, rc OR ITC_SYSCALL_ERROR)
      else (Some \<lparr>q_head = None, q_tail = None, q_search = None, q_size = 0\<rparr>, rc))"

definition q_enqueue ::
  "u32 \<Rightarrow> 'd option \<Rightarrow> itc_queue \<Rightarrow> 'd qheap \<Rightarrow> (u32 \<times> itc_queue \<times> 'd qheap) outcome" where
  "q_enqueue rc data q h =
     (let (new_node, rc, h) = q_createnode rc data h in
      if rc \<noteq> ITC_OK then Inr (rc, q, h)
      else if q_tail q = None then
        Inr (rc, q\<lparr>q_head := new_node, q_tail := new_node, q_size := q_size q + 1\<rparr>, h)
      else
        bindE (hupd (q_tail q) (\<lambda>n. n\<lparr>next_ptr := new_node\<rparr>) h) (\<lambda>h.
        bindE (hupd new_node (\<lambda>n. n\<lparr>prev_ptr := q_tail q\<rparr>) h) (\<lambda>h.
        Inr (rc, q\<lparr>q_tail := new_node, q_size := q_size q + 1\<rparr>, h))))"

definition q_dequeue ::
  "u32 \<Rightarrow> itc_queue \<Rightarrow> 'd qheap \<Rightarrow> ('d option \<times> u32 \<times> itc_queue \<times> 'd qheap) outcome" where
  "q_dequeue rc q h =
     (if q_head q = None then Inr (None, rc OR ITC_QUEUE_EMPTY, q, h)
      else
        bindE (hread (q_head q) h) (\<lambda>hn.
        if q_head q = q_tail q then
          bindE (q_removenode rc (q_head q) h) (\<lambda>(rc, h).
          Inr (node_data hn, rc, q\<lparr>q_head := None, q_tail := None, q_size := q_size q - 1\<rparr>, h))
        else
          bindE (hread (next_ptr hn) h) (\<lambda>nn.
          bindE (q_removenode rc (prev_ptr nn) h) (\<lambda>(rc, h).
          bindE (hupd (next_ptr hn) (\<lambda>n. n\<lparr>prev_ptr := None\<rparr>) h) (\<lambda>h.
          Inr (node_data hn, rc, q\<lparr>q_head := next_ptr hn, q_size := q_size q - 1\<rparr>, h))))))"

text \<open>
  The search loop of \<open>q_remove\<close>. A list without a cycle has at most \<open>fresh h\<close> nodes, so the fuel
  that \<open>q_remove\<close> passes runs out exactly when the loop would run forever.
\<close>

fun q_find :: "nat \<Rightarrow> 'd option \<Rightarrow> ptr \<Rightarrow> 'd qheap \<Rightarrow> ptr outcome" where
  "q_find 0 data iter h = Inl Diverges"
| "q_find (Suc n) data iter h =
     (if iter = None then Inr None
      else bindE (hread iter h) (\<lambda>node.
           if node_data node = data then Inr iter
           else q_find n data (next_ptr node) h))"

definition q_remove ::
  "u32 \<Rightarrow> itc_queue \<Rightarrow> 'd option \<Rightarrow> 'd qheap \<Rightarrow> (u32 \<times> itc_queue \<times> 'd qheap) outcome" where
  "q_remove rc q data h =
     bindE (q_find (Suc (fresh h)) data (q_head q) h) (\<lambda>iter.
     if iter = None then Inr (rc, q, h)
     else
       bindE (hread iter h) (\<lambda>node.
       bindE
         (if iter = q_head q then
            (if q_size q = 1 then Inr (q\<lparr>q_head := None, q_tail := None\<rparr>, h)
             else bindE (hupd (next_ptr node) (\<lambda>n. n\<lparr>prev_ptr := None\<rparr>) h) (\<lambda>h.
                  Inr (q\<lparr>q_head := next_ptr node\<rparr>, h)))
          else if iter = q_tail q then
            bindE (hupd (prev_ptr node) (\<lambda>n. n\<lparr>next_ptr := None\<rparr>) h) (\<lambda>h.
            Inr (q\<lparr>q_tail := prev_ptr node\<rparr>, h))
          else
            bindE (hupd (prev_ptr node) (\<lambda>n. n\<lparr>next_ptr := next_ptr node\<rparr>) h) (\<lambda>h.
            bindE (hupd (next_ptr node) (\<lambda>n. n\<lparr>prev_ptr := prev_ptr node\<rparr>) h) (\<lambda>h.
            Inr (q, h))))
         (\<lambda>(q, h).
       bindE (q_removenode rc iter h) (\<lambda>(rc, h).
       Inr (rc, q\<lparr>q_size := q_size q - 1\<rparr>, h)))))"

text \<open>
  The loop that discards the content, in \<open>q_exit\<close> and \<open>q_clear\<close>. Each round that does not end the
  loop frees a node, and there are at most \<open>fresh h\<close> of them.
\<close>

fun q_drain :: "nat \<Rightarrow> u32 \<Rightarrow> itc_queue \<Rightarrow> 'd qheap \<Rightarrow> (u32 \<times> itc_queue \<times> 'd qheap) outcome" where
  "q_drain 0 rc q h = Inl Diverges"
| "q_drain (Suc n) rc q h =
     bindE (q_dequeue rc q h) (\<lambda>(data, rc, q, h).
     if data = None then Inr (rc, q, h) else q_drain n rc q h)"

text \<open>\<open>ret\<close> is what \<open>pthread_mutex_destroy\<close> returns; the queue itself is released.\<close>

definition q_exit :: "u32 \<Rightarrow> itc_queue option \<Rightarrow> int \<Rightarrow> 'd qheap \<Rightarrow> (u32 \<times> 'd qheap) outcome" where
  "q_exit rc qo ret h =
     (case qo of
        None \<Rightarrow> Inr (rc OR ITC_QUEUE_NULL, h)
      | Some q \<Rightarrow>
          bindE (if 0 < q_size q then q_drain (Suc (fresh h)) rc q h else Inr (rc, q, h))
            (\<lambda>(rc, q, h).
          let rc = rc AND NOT ITC_QUEUE_EMPTY in
          Inr (if ret \<noteq> 0 then rc OR ITC_SYSCALL_ERROR else rc, h)))"

definition q_clear ::
  "u32 \<Rightarrow> itc_queue option \<Rightarrow> 'd qheap \<Rightarrow> (u32 \<times> itc_queue option \<times> 'd qheap) outcome" where
  "q_clear rc qo h =
     (case qo of
        None \<Rightarrow> Inr (rc OR ITC_QUEUE_NULL, None, h)
      | Some q \<Rightarrow>
          bindE (if 0 < q_size q then q_drain (Suc (fresh h)) rc q h else Inr (rc, q, h))
            (\<lambda>(rc, q, h). Inr (rc, Some q, h)))"

section \<open>Representation\<close>

text \<open>
  \<open>qrep h q ps xs\<close>: the queue \<open>q\<close> holds the data \<open>xs\<close> in the nodes at the addresses \<open>ps\<close>, and its
  size field counts them without having wrapped around.
\<close>

definition qrep :: "'d qheap \<Rightarrow> itc_queue \<Rightarrow> nat list \<Rightarrow> 'd option list \<Rightarrow> bool" where
  "qrep h q ps xs \<longleftrightarrow>
     heap_ok h \<and> dlist (cells h) (q_head q) (q_tail q) ps xs \<and>
     q_size q = of_nat (length xs) \<and> length xs < 2 ^ 32"

definition empty_queue :: itc_queue where
  "empty_queue = \<lparr>q_head = None, q_tail = None, q_search = None, q_size = 0\<rparr>"

text \<open>Two heaps agree outside a set of addresses: what a queue operation leaves alone.\<close>

definition same_outside :: "nat set \<Rightarrow> 'a heap \<Rightarrow> 'a heap \<Rightarrow> bool" where
  "same_outside A h h' \<longleftrightarrow> (\<forall>p. p \<notin> A \<longrightarrow> cells h' p = cells h p)"

lemma same_outside_refl [simp]: "same_outside A h h"
  by (simp add: same_outside_def)

lemma same_outside_trans:
  "same_outside A h h' \<Longrightarrow> same_outside B h' h'' \<Longrightarrow> same_outside (A \<union> B) h h''"
  by (simp add: same_outside_def)

lemma qrep_empty: "heap_ok h \<Longrightarrow> qrep h empty_queue [] []"
  by (simp add: qrep_def empty_queue_def)

lemma qrep_heap_ok: "qrep h q ps xs \<Longrightarrow> heap_ok h"
  by (simp add: qrep_def)

lemma qrep_length: "qrep h q ps xs \<Longrightarrow> length ps = length xs"
  by (auto simp: qrep_def dest: dlist_length)

lemma qrep_alloc: "qrep h q ps xs \<Longrightarrow> p \<in> set ps \<Longrightarrow> \<exists>n. cells h p = Some n"
  by (auto simp: qrep_def dest: dlist_alloc)

lemma qrep_fresh: "qrep h q ps xs \<Longrightarrow> fresh h \<notin> set ps"
  using qrep_alloc heap_ok_fresh qrep_heap_ok by (metis option.distinct(1))

lemma qrep_below_fresh: "qrep h q ps xs \<Longrightarrow> p \<in> set ps \<Longrightarrow> p < fresh h"
  using qrep_alloc heap_ok_less qrep_heap_ok by metis

lemma qrep_length_le_fresh: "qrep h q ps xs \<Longrightarrow> length xs \<le> fresh h"
proof -
  assume q: "qrep h q ps xs"
  then have "set ps \<subseteq> {..<fresh h}" using qrep_below_fresh by fastforce
  then have "card (set ps) \<le> fresh h" using card_mono [of "{..<fresh h}" "set ps"] by simp
  moreover have "distinct ps" using q by (auto simp: qrep_def dlist_distinct)
  ultimately show ?thesis using qrep_length [OF q] by (simp add: distinct_card)
qed

lemma qrep_size_pos: "qrep h q ps xs \<Longrightarrow> 0 < q_size q \<longleftrightarrow> xs \<noteq> []"
proof -
  assume q: "qrep h q ps xs"
  then have "unat (q_size q) = length xs"
    by (simp add: qrep_def unat_of_nat take_bit_nat_eq_self)
  then have "q_size q = 0 \<longleftrightarrow> xs = []" by (simp flip: unat_eq_zero)
  then show ?thesis by (simp add: word_gt_0)
qed

lemma qrep_size_one: "qrep h q ps xs \<Longrightarrow> q_size q = 1 \<longleftrightarrow> length xs = 1"
proof -
  assume q: "qrep h q ps xs"
  then have "unat (q_size q) = length xs"
    by (simp add: qrep_def unat_of_nat take_bit_nat_eq_self)
  then show ?thesis by (metis unat_1 word_unat_eq_iff)
qed

text \<open>A queue whose nodes are untouched by changes elsewhere is still represented.\<close>

lemma qrep_frame:
  assumes "qrep h q ps xs" and "same_outside A h h'" and "A \<inter> set ps = {}" and "heap_ok h'"
  shows "qrep h' q ps xs"
proof -
  have "\<And>p. p \<in> set ps \<Longrightarrow> cells h p = cells h' p"
    using assms(2,3) by (auto simp: same_outside_def)
  then show ?thesis
    using assms(1,4) dlist_cong [of ps "cells h" "cells h'"] by (simp add: qrep_def)
qed

section \<open>Behaviour of the operations\<close>

subsection \<open>\<open>q_enqueue\<close>\<close>

lemma q_enqueue_spec:
  assumes q: "qrep h q ps xs" and alloc: "can_alloc h" and small: "Suc (length xs) < 2 ^ 32"
  shows "\<exists>q' h'. q_enqueue ITC_OK x q h = Inr (ITC_OK, q', h') \<and>
           qrep h' q' (ps @ [fresh h]) (xs @ [x]) \<and> same_outside (insert (fresh h) (set ps)) h h' \<and>
           fresh h' = Suc (fresh h) \<and> malloc_results h' = tl (malloc_results h)"
proof (cases "q_tail q")
  case None
  then have "xs = []"
    using q dlist_tl_None by (fastforce simp: qrep_def)
  then have "xs = []" "ps = []" "q_head q = None"
    using q by (simp_all add: qrep_def)
  then show ?thesis
    using q alloc None small
    by (auto simp: q_enqueue_def q_createnode_def qrep_def same_outside_def intro!: dlist_first)
next
  case (Some t)
  have d: "dlist (cells h) (q_head q) (Some t) ps xs" using q Some by (simp add: qrep_def)
  then obtain n where n: "cells h t = Some n" and t: "t \<in> set ps"
    using dlist_last_node by fastforce
  have fr: "fresh h \<notin> set ps" by (rule qrep_fresh [OF q])
  with t have ne: "fresh h \<noteq> t" by auto
  have t_less: "t < fresh h" using qrep_below_fresh [OF q t] .
  note d' = dlist_snoc [OF d n fr, of x]
  have tw: "(cells h)(fresh h \<mapsto> a, t \<mapsto> n', fresh h \<mapsto> b) = (cells h)(t \<mapsto> n', fresh h \<mapsto> b)" for a b n'
    using ne by (auto simp: fun_eq_iff)
  have ok: "heap_ok h" using q by (simp add: qrep_def)
  show ?thesis
    using q alloc Some n d' small ne t t_less
    by (auto simp: q_enqueue_def q_createnode_def qrep_def same_outside_def tw heap_ok_def)
qed

lemma q_enqueue_oom:
  "\<not> can_alloc h \<Longrightarrow>
     q_enqueue ITC_OK x q h =
       Inr (ITC_SYSCALL_ERROR, q, h\<lparr>malloc_results := tl (malloc_results h)\<rparr>)"
  by (simp add: q_enqueue_def q_createnode_def)

subsection \<open>\<open>q_dequeue\<close>\<close>

lemma q_dequeue_empty:
  "qrep h q ps [] \<Longrightarrow> q_dequeue rc q h = Inr (None, rc OR ITC_QUEUE_EMPTY, q, h)"
  by (auto simp: q_dequeue_def qrep_def)

lemma of_nat_length_Cons_minus [simp]: "(1 + of_nat n) - 1 = (of_nat n :: 'a::len word)"
  by simp

lemma q_dequeue_spec:
  assumes q: "qrep h q ps (x # xs)"
  shows "\<exists>q' h'. q_dequeue rc q h = Inr (x, rc, q', h') \<and> qrep h' q' (tl ps) xs \<and>
           same_outside (set ps) h h' \<and> cells h' (hd ps) = None \<and>
           fresh h' = fresh h \<and> malloc_results h' = malloc_results h"
proof -
  have d: "dlist (cells h) (q_head q) (q_tail q) ps (x # xs)" using q by (simp add: qrep_def)
  obtain p where p: "q_head q = Some p"
    using dlist_hd_None [OF d] by (cases "q_head q") auto
  then obtain n qs where n: "ps = p # qs" "cells h p = Some n" "node_data n = x"
    using dlist_Cons_node [of "cells h" p "q_tail q" ps x xs] d by auto
  show ?thesis
  proof (cases "q_head q = q_tail q")
    case True
    then have "ps = [p]" "xs = []"
      using dlist_single [of "cells h" p ps "x # xs"] d p by auto
    then show ?thesis
      using True [symmetric] p n q by (auto simp: q_dequeue_def q_removenode_def qrep_def same_outside_def)
  next
    case False
    obtain t where t: "q_tail q = Some t"
      using dlist_tl_None [OF d] by (cases "q_tail q") auto
    obtain r rs y ys m where r: "ps = p # r # rs" "xs = y # ys" "cells h r = Some m"
      "next_ptr n = Some r" "m = \<lparr>next_ptr = hdp None rs, prev_ptr = Some p, node_data = y\<rparr>"
      using dlist_two_nodes [of "cells h" p t ps "x # xs"] d p t False n by auto
    have ne: "p \<noteq> r" using d r by (auto simp: dlist_def)
    have "dlist ((cells h)(p := None, r \<mapsto> \<lparr>next_ptr = hdp None rs, prev_ptr = None, node_data = y\<rparr>))
                (Some r) (Some t) (r # rs) (y # ys)"
      using dlist_tail [of "cells h" p "Some t" r rs x y ys None] d p t r by simp
    moreover have "r < fresh h" using qrep_below_fresh [OF q, of r] r by simp
    ultimately show ?thesis
      using False p n q r t ne
      by (auto simp: q_dequeue_def q_removenode_def qrep_def same_outside_def heap_ok_def)
  qed
qed

subsection \<open>\<open>q_remove\<close>\<close>

lemma q_find_seg:
  assumes "dseg (cells h) pv None ps xs" and "length ps < fuel"
  shows "q_find fuel x (hdp None ps) h =
           Inr (if x \<in> set xs then Some (ps ! length (takeWhile (\<lambda>y. y \<noteq> x) xs)) else None)"
  using assms
proof (induction ps arbitrary: fuel pv xs)
  case Nil
  then show ?case by (cases fuel) auto
next
  case (Cons p ps)
  then obtain n where "fuel = Suc n" by (cases fuel) auto
  with Cons show ?case by (auto simp: dseg_Cons1)
qed

text \<open>Where the first occurrence of an element splits a list and the addresses of its nodes.\<close>

lemma split_at_first:
  assumes "x \<in> set xs" and "length ps = length xs"
  obtains as ys zs p bs where "xs = ys @ x # zs" "x \<notin> set ys" "ps = as @ p # bs"
    "length as = length ys" "ps ! length (takeWhile (\<lambda>y. y \<noteq> x) xs) = p"
proof -
  obtain ys zs where xs: "xs = ys @ x # zs" and x: "x \<notin> set ys"
    using split_list_first [OF assms(1)] by blast
  then have tw: "takeWhile (\<lambda>y. y \<noteq> x) xs = ys"
    by (metis (mono_tags, lifting) takeWhile_eq_all_conv takeWhile_tail append_Nil2)
  let ?k = "length ys"
  have k: "?k < length ps" using assms(2) xs by simp
  have "ps = take ?k ps @ ps ! ?k # drop (Suc ?k) ps"
    using k by (simp add: id_take_nth_drop)
  then show thesis using that [OF xs x] tw k by simp
qed

lemma q_find_spec:
  assumes q: "qrep h q ps xs"
  shows "q_find (Suc (fresh h)) x (q_head q) h =
           Inr (if x \<in> set xs then Some (ps ! length (takeWhile (\<lambda>y. y \<noteq> x) xs)) else None)"
proof -
  obtain pv where "dseg (cells h) pv None ps xs" "q_head q = hdp None ps"
    using q by (auto simp: qrep_def dlist_def)
  moreover have "length ps < Suc (fresh h)"
    using qrep_length [OF q] qrep_length_le_fresh [OF q] by simp
  ultimately show ?thesis using q_find_seg by fastforce
qed

lemma q_remove_absent:
  "qrep h q ps xs \<Longrightarrow> x \<notin> set xs \<Longrightarrow> q_remove rc q x h = Inr (rc, q, h)"
  by (simp add: q_remove_def q_find_spec del: q_find.simps)

text \<open>The three positions in which \<open>q_remove\<close> can find the element.\<close>

lemma q_remove_at:
  assumes q: "qrep h q (as @ p # bs) (ys @ x # zs)" and len: "length as = length ys"
    and found: "q_find (Suc (fresh h)) x (q_head q) h = Inr (Some p)"
  shows "\<exists>q' h'. q_remove rc q x h = Inr (rc, q', h') \<and> qrep h' q' (as @ bs) (ys @ zs) \<and>
           same_outside (set (as @ p # bs)) h h' \<and> cells h' p = None \<and>
           fresh h' = fresh h \<and> malloc_results h' = malloc_results h"
proof -
  let ?c = "cells h"
  have d: "dlist ?c (q_head q) (q_tail q) (as @ p # bs) (ys @ x # zs)" and ok: "heap_ok h"
    using q by (auto simp: qrep_def)
  obtain pv where seg: "dseg ?c pv None (as @ p # bs) (ys @ x # zs)"
    and dist: "distinct (as @ p # bs)" and hd: "q_head q = hdp None (as @ p # bs)"
    and tl: "q_tail q = lastp None (as @ p # bs)"
    using d by (auto simp: dlist_def)
  have np: "?c p = Some \<lparr>next_ptr = hdp None bs, prev_ptr = lastp pv as, node_data = x\<rparr>"
    using dseg_middle_nodes [OF seg len] .
  have lenb: "length bs = length zs" using dseg_length [OF seg] len by simp
  have less: "\<And>r. r \<in> set (as @ p # bs) \<Longrightarrow> r < fresh h" using qrep_below_fresh [OF q] .
  consider (only) "as = []" "bs = []" | (first) b bs' where "as = []" "bs = b # bs'"
    | (last) as' a where "as = as' @ [a]" "bs = []"
    | (mid) as' a b bs' where "as = as' @ [a]" "bs = b # bs'"
    by (metis append_butlast_last_id neq_Nil_conv)
  then show ?thesis
  proof cases
    case only
    then show ?thesis
      using q found np hd tl qrep_size_one [OF q] len lenb
      by (auto simp: q_remove_def q_removenode_def qrep_def same_outside_def)
  next
    case first
    then obtain z zs' where z: "zs = z # zs'" "length bs' = length zs'" "ys = []"
      using lenb len by (cases zs) auto
    obtain nb where nb: "?c b = Some nb" using seg first z by auto
    have "p \<noteq> b" using dist first by simp
    moreover have "dlist (?c(b \<mapsto> nb\<lparr>prev_ptr := None\<rparr>, p := None)) (Some b) (q_tail q) (b # bs') (z # zs')"
      using dlist_remove_first [of ?c "q_head q" "q_tail q" p b bs' x z zs' nb None] d first z nb by simp
    moreover have "q_size q \<noteq> 1" using qrep_size_one [OF q] z by simp
    ultimately show ?thesis
      using q found np hd first nb z less ok
      by (auto simp: q_remove_def q_removenode_def qrep_def same_outside_def heap_ok_def)
  next
    case last
    then obtain ys' u where u: "ys = ys' @ [u]" "length as' = length ys'" "zs = []"
      using lenb len by (cases ys rule: rev_cases) auto
    obtain na where na: "?c a = Some na" using seg last u by (auto simp: dseg_append)
    have "dlist (?c(a \<mapsto> na\<lparr>next_ptr := None\<rparr>, p := None)) (q_head q) (Some a) (as' @ [a]) (ys' @ [u])"
      using dlist_remove_last [of ?c "q_head q" "q_tail q" as' a p ys' u x na] d last u na by simp
    moreover have "Some p \<noteq> q_head q" "q_tail q = Some p" using dist last hd tl by (cases as'; auto)+
    moreover have "a \<noteq> p" using dist last by auto
    ultimately show ?thesis
      using q found np last na u less ok
      by (auto simp: q_remove_def q_removenode_def qrep_def same_outside_def heap_ok_def)
  next
    case mid
    then obtain ys' u z zs' where u: "ys = ys' @ [u]" "length as' = length ys'" "zs = z # zs'"
      using lenb len by (cases ys rule: rev_cases; cases zs) auto
    obtain na where na: "?c a = Some na" using seg mid u by (auto simp: dseg_append)
    obtain nb where nb: "?c b = Some nb" using seg mid u by (auto simp: dseg_append)
    have "dlist (?c(a \<mapsto> na\<lparr>next_ptr := Some b\<rparr>, b \<mapsto> nb\<lparr>prev_ptr := Some a\<rparr>, p := None))
            (q_head q) (q_tail q) (as' @ [a] @ [b] @ bs') (ys' @ [u] @ [z] @ zs')"
      using dlist_remove_middle [of ?c "q_head q" "q_tail q" as' a p b bs' ys' u x z zs' na nb]
        d mid u na nb by simp
    moreover have "Some p \<noteq> q_head q" using dist mid hd by (cases as'; auto)
    moreover have "Some p \<noteq> q_tail q" using dist mid tl by (auto simp: lastp_def split: if_splits)
    moreover have "a \<noteq> p" "b \<noteq> p" "a \<noteq> b" using dist mid by auto
    ultimately show ?thesis
      using q found np mid na nb u less ok
      by (auto simp: q_remove_def q_removenode_def qrep_def same_outside_def heap_ok_def)
  qed
qed

lemma q_remove_spec:
  assumes q: "qrep h q ps xs" and x: "x \<in> set xs"
  shows "\<exists>q' h' ps'. q_remove rc q x h = Inr (rc, q', h') \<and> qrep h' q' ps' (remove1 x xs) \<and>
           set ps' \<subseteq> set ps \<and> same_outside (set ps) h h' \<and>
           fresh h' = fresh h \<and> malloc_results h' = malloc_results h"
proof -
  obtain as ys zs p bs where *: "xs = ys @ x # zs" "x \<notin> set ys" "ps = as @ p # bs"
    "length as = length ys" "ps ! length (takeWhile (\<lambda>y. y \<noteq> x) xs) = p"
    using split_at_first [OF x qrep_length [OF q]] by metis
  then have "q_find (Suc (fresh h)) x (q_head q) h = Inr (Some p)"
    using q_find_spec [OF q, of x] x by simp
  moreover have "remove1 x xs = ys @ zs" using * by (simp add: remove1_append)
  ultimately show ?thesis
    using q_remove_at [of h q as p bs ys x zs rc] q * by fastforce
qed

subsection \<open>\<open>q_exit\<close> and \<open>q_clear\<close>\<close>

lemma q_drain_spec:
  assumes "qrep h q ps xs" and "None \<notin> set xs" and "length xs < fuel"
  shows "\<exists>q' h'. q_drain fuel rc q h = Inr (rc OR ITC_QUEUE_EMPTY, q', h') \<and> qrep h' q' [] [] \<and>
           same_outside (set ps) h h' \<and> (\<forall>p \<in> set ps. cells h' p = None) \<and> fresh h' = fresh h"
  using assms
proof (induction xs arbitrary: q h ps fuel)
  case Nil
  then have "ps = []" using qrep_length by fastforce
  moreover obtain m where "fuel = Suc m" using Nil by (cases fuel) auto
  ultimately show ?case using Nil by (auto simp: q_dequeue_empty)
next
  case (Cons x xs)
  then obtain m where fuel: "fuel = Suc m" by (cases fuel) auto
  obtain q1 h1 where 1: "q_dequeue rc q h = Inr (x, rc, q1, h1)" "qrep h1 q1 (tl ps) xs"
    "same_outside (set ps) h h1" "cells h1 (hd ps) = None" "fresh h1 = fresh h"
    using q_dequeue_spec [OF Cons.prems(1), of rc] by auto
  obtain q2 h2 where 2: "q_drain m rc q1 h1 = Inr (rc OR ITC_QUEUE_EMPTY, q2, h2)" "qrep h2 q2 [] []"
    "same_outside (set (tl ps)) h1 h2" "\<forall>p \<in> set (tl ps). cells h2 p = None" "fresh h2 = fresh h1"
    using Cons.IH [OF 1(2), of m] Cons.prems fuel by auto
  have "ps \<noteq> []" using qrep_length [OF Cons.prems(1)] by auto
  then obtain p ps' where ps: "ps = p # ps'" by (cases ps) auto
  have "p \<notin> set (tl ps)"
    using Cons.prems(1) ps by (auto simp: qrep_def dlist_def)
  then have "\<forall>p \<in> set ps. cells h2 p = None"
    using 2(3,4) 1(4) ps by (auto simp: same_outside_def)
  moreover have "same_outside (set ps) h h2"
    using same_outside_trans [OF 1(3) 2(3)] ps by (simp add: same_outside_def)
  moreover obtain y where "x = Some y" using Cons.prems(2) by (cases x) auto
  ultimately show ?case using 1 2 fuel by auto
qed

lemma rc_clear_empty [simp]:
  "(rc OR 16) AND - 17 = rc AND - 17" for rc :: u32
  by (simp add: bit.conj_disj_distrib2)

lemma q_drain_total:
  assumes "qrep h q ps xs" and "None \<notin> set xs"
  shows "\<exists>q' h'. (if 0 < q_size q then q_drain (Suc (fresh h)) rc q h else Inr (rc, q, h)) =
             Inr (if xs = [] then rc else rc OR ITC_QUEUE_EMPTY, q', h') \<and> qrep h' q' [] [] \<and>
           same_outside (set ps) h h' \<and> (\<forall>p \<in> set ps. cells h' p = None) \<and> fresh h' = fresh h"
proof (cases "xs = []")
  case True
  then show ?thesis using assms qrep_size_pos [OF assms(1)] qrep_length [OF assms(1)] by auto
next
  case False
  then show ?thesis
    using q_drain_spec [OF assms, of "Suc (fresh h)" rc] qrep_length_le_fresh [OF assms(1)]
      qrep_size_pos [OF assms(1)] by auto
qed

section \<open>The queue implements the FIFO contract\<close>

definition q_room :: "nat \<Rightarrow> itc_queue \<times> 'd qheap \<Rightarrow> bool" where
  "q_room n s \<longleftrightarrow> list_all (\<lambda>b. b) (take n (malloc_results (snd s))) \<and>
     unat (q_size (fst s)) + n < 2 ^ 32"

definition q_content :: "itc_queue \<times> 'd qheap \<Rightarrow> 'd list \<Rightarrow> bool" where
  "q_content s xs \<longleftrightarrow> (\<exists>ps. qrep (snd s) (fst s) ps (map Some xs))"

definition q_enq :: "'d \<Rightarrow> itc_queue \<times> 'd qheap \<Rightarrow> (itc_queue \<times> 'd qheap) outcome" where
  "q_enq x s = bindE (q_enqueue ITC_OK (Some x) (fst s) (snd s)) (\<lambda>(rc, q, h). Inr (q, h))"

definition q_deq :: "itc_queue \<times> 'd qheap \<Rightarrow> ('d option \<times> (itc_queue \<times> 'd qheap)) outcome" where
  "q_deq s = bindE (q_dequeue ITC_OK (fst s) (snd s)) (\<lambda>(d, rc, q, h). Inr (d, q, h))"

lemma qrep_unat_size: "qrep h q ps xs \<Longrightarrow> unat (q_size q) = length xs"
  by (simp add: qrep_def unat_of_nat take_bit_nat_eq_self)

lemma q_room_can_alloc: "q_room (Suc n) (q, h) \<Longrightarrow> can_alloc h"
  by (cases "malloc_results h") (auto simp: q_room_def can_alloc_def)

lemma take_tl_all: "list_all P (take (Suc n) xs) \<Longrightarrow> list_all P (take n (tl xs))"
  by (cases xs) auto

interpretation itcq: fifo q_enq q_deq q_content q_room "\<lambda>_ _. True"
proof (unfold_locales, goal_cases)
  case (1 s xs n x)
  obtain q h where s: "s = (q, h)" by (cases s)
  from 1 obtain ps where q: "qrep h q ps (map Some xs)" by (auto simp: q_content_def s)
  have small: "Suc (length (map Some xs)) < 2 ^ 32"
    using 1(2) qrep_unat_size [OF q] by (simp add: q_room_def s)
  have ca: "can_alloc h" using 1(2) q_room_can_alloc s by blast
  obtain q' h' where e: "q_enqueue ITC_OK (Some x) q h = Inr (ITC_OK, q', h')"
    "qrep h' q' (ps @ [fresh h]) (map Some xs @ [Some x])" "malloc_results h' = tl (malloc_results h)"
    using q_enqueue_spec [OF q ca small, where x = "Some x"] by auto
  have "q_room n (q', h')"
    using 1(2) qrep_unat_size [OF q] qrep_unat_size [OF e(2)] e(3)
    by (auto simp: q_room_def s intro: take_tl_all)
  then show ?case using e by (auto simp: q_enq_def q_content_def s)
next
  case (2 s x xs n)
  obtain q h where s: "s = (q, h)" by (cases s)
  from 2 obtain ps where q: "qrep h q ps (Some x # map Some xs)" by (auto simp: q_content_def s)
  obtain q' h' where e: "q_dequeue ITC_OK q h = Inr (Some x, ITC_OK, q', h')"
    "qrep h' q' (tl ps) (map Some xs)" "malloc_results h' = malloc_results h"
    using q_dequeue_spec [OF q, of ITC_OK] by auto
  have "q_room n (q', h')"
    using 2(2) qrep_unat_size [OF q] qrep_unat_size [OF e(2)] e(3) by (auto simp: q_room_def s)
  then show ?case using e by (auto simp: q_deq_def q_content_def s)
next
  case (3 s n)
  then show ?case by (cases s) (auto simp: q_deq_def q_content_def q_dequeue_empty)
qed

section \<open>Properties\<close>

text \<open>
  C20. Any sequence of \<open>q_enqueue\<close> and \<open>q_dequeue\<close> calls on a queue gives exactly the answers of a
  mathematical first-in first-out queue, with no memory fault on the way, as long as the
  allocations it makes succeed and the 32-bit size counter does not wrap around.
\<close>

theorem itc_queue_is_fifo:
  assumes "qrep h q ps (map Some xs)"
    and "list_all (\<lambda>b. b) (take (n_enqs ops) (malloc_results h))"
    and "length xs + n_enqs ops < 2 ^ 32"
  shows "\<exists>q' h' ps'. run_ops q_enq q_deq ops (q, h) = Inr (fst (spec_run ops xs), (q', h')) \<and>
           qrep h' q' ps' (map Some (snd (spec_run ops xs)))"
proof -
  have "q_content (q, h) xs" using assms(1) by (auto simp: q_content_def)
  moreover have "q_room (n_enqs ops) (q, h)"
    using assms qrep_unat_size [OF assms(1)] by (simp add: q_room_def)
  ultimately show ?thesis
    using itcq.run_refines_spec [of "(q, h)" xs ops] by (auto simp: q_content_def)
qed

theorem itc_queue_is_fifo_witness:
  "\<exists>q' h' ps'. run_ops q_enq q_deq [Enq (7::nat), Enq 8, Deq, Deq, Deq] (empty_queue, empty_heap []) =
      Inr ([Some 7, Some 8, None], (q', h')) \<and> qrep h' q' ps' []"
  using itc_queue_is_fifo [of "empty_heap []" empty_queue "[]" "[]" "[Enq (7::nat), Enq 8, Deq, Deq, Deq]"]
  by (simp add: qrep_empty)

text \<open>
  \<open>q_remove\<close> takes out the first node that points to the given data, wherever it is in the
  queue, and leaves the order of the other elements, every other cell of the heap and the result
  code unchanged; when no node points to the data it changes nothing.
\<close>

theorem q_remove_removes_first:
  assumes "qrep h q ps xs"
  shows "\<exists>q' h' ps'. q_remove rc q x h = Inr (rc, q', h') \<and> qrep h' q' ps' (remove1 x xs) \<and>
           set ps' \<subseteq> set ps \<and> same_outside (set ps) h h' \<and> (x \<notin> set xs \<longrightarrow> q' = q \<and> h' = h)"
proof (cases "x \<in> set xs")
  case True
  then show ?thesis using q_remove_spec [OF assms True, of rc] by blast
next
  case False
  then show ?thesis using assms by (auto simp: q_remove_absent remove1_idem)
qed

theorem q_remove_removes_first_witness:
  "\<exists>q' h' ps'. q_remove ITC_OK \<lparr>q_head = Some 0, q_tail = Some 1, q_search = None, q_size = 2\<rparr> (Some (8::nat))
       \<lparr>cells = [0 \<mapsto> \<lparr>next_ptr = Some 1, prev_ptr = None, node_data = Some 7\<rparr>,
                 1 \<mapsto> \<lparr>next_ptr = None, prev_ptr = Some 0, node_data = Some 8\<rparr>],
        fresh = 2, malloc_results = []\<rparr> = Inr (ITC_OK, q', h') \<and> qrep h' q' ps' [Some 7]"
  using q_remove_removes_first
    [of "\<lparr>cells = [0 \<mapsto> \<lparr>next_ptr = Some 1, prev_ptr = None, node_data = Some (7::nat)\<rparr>,
                   1 \<mapsto> \<lparr>next_ptr = None, prev_ptr = Some 0, node_data = Some 8\<rparr>],
          fresh = 2, malloc_results = []\<rparr>"
        "\<lparr>q_head = Some 0, q_tail = Some 1, q_search = None, q_size = 2\<rparr>"
        "[0, 1]" "[Some 7, Some 8]" ITC_OK "Some 8"]
  by (auto simp: qrep_def heap_ok_def dlist_def)

text \<open>
  \<open>q_exit\<close> terminates and releases every node of the queue and nothing else, and its result
  code does not report the empty queue that ends its own loop.
\<close>

theorem q_exit_releases_all:
  assumes "qrep h q ps xs" and "None \<notin> set xs"
  shows "\<exists>h'. q_exit rc (Some q) 0 h = Inr (rc AND NOT ITC_QUEUE_EMPTY, h') \<and>
           (\<forall>p. cells h' p = (if p \<in> set ps then None else cells h p))"
  using q_drain_total [OF assms, of rc] by (auto simp: q_exit_def same_outside_def)

theorem q_exit_releases_all_witness:
  "\<exists>h'. q_exit ITC_OK (Some \<lparr>q_head = Some 0, q_tail = Some 0, q_search = None, q_size = 1\<rparr>) 0
       \<lparr>cells = [0 \<mapsto> \<lparr>next_ptr = None, prev_ptr = None, node_data = Some (7::nat)\<rparr>],
        fresh = 1, malloc_results = []\<rparr> = Inr (0, h') \<and> (\<forall>p. cells h' p = None)"
  using q_exit_releases_all
    [of "\<lparr>cells = [0 \<mapsto> \<lparr>next_ptr = None, prev_ptr = None, node_data = Some (7::nat)\<rparr>],
          fresh = 1, malloc_results = []\<rparr>"
        "\<lparr>q_head = Some 0, q_tail = Some 0, q_search = None, q_size = 1\<rparr>" "[0]" "[Some 7]" ITC_OK]
  by (auto simp: qrep_def heap_ok_def dlist_def)

end
