(* ===== verification/Itc_Message.thy ===== *)
theory Itc_Message
  imports Itc_Types
begin

text \<open>
  Byte buffers and the layout of \<open>struct itc_message\<close> (\<open>itc_impl.h\<close>): four 32-bit header fields,
  the message number that starts the part users see, the user data, and the end marker byte
  behind it. Messages are kept as the bytes that the transports copy, in little-endian order.
\<close>

unbundle bit_operations_syntax

type_synonym bytes = "u8 list"

section \<open>Reading and writing a buffer\<close>

definition blit :: "nat \<Rightarrow> bytes \<Rightarrow> bytes \<Rightarrow> bytes" where
  "blit off d bs = take off bs @ d @ drop (off + length d) bs"

definition slice :: "nat \<Rightarrow> nat \<Rightarrow> bytes \<Rightarrow> bytes" where
  "slice off n bs = take n (drop off bs)"

text \<open>The two accesses of the C code; both fault beyond the end of the buffer.\<close>

definition put_bytes :: "nat \<Rightarrow> bytes \<Rightarrow> bytes \<Rightarrow> bytes outcome" where
  "put_bytes off d bs = (if off + length d \<le> length bs then Inr (blit off d bs) else Inl OutOfBounds)"

definition get_bytes :: "nat \<Rightarrow> nat \<Rightarrow> bytes \<Rightarrow> bytes outcome" where
  "get_bytes off n bs = (if off + n \<le> length bs then Inr (slice off n bs) else Inl OutOfBounds)"

lemma length_blit [simp]: "off + length d \<le> length bs \<Longrightarrow> length (blit off d bs) = length bs"
  by (simp add: blit_def)

lemma length_slice [simp]: "off + n \<le> length bs \<Longrightarrow> length (slice off n bs) = n"
  by (simp add: slice_def)

lemma nth_blit:
  "off + length d \<le> length bs \<Longrightarrow> i < length bs \<Longrightarrow>
     blit off d bs ! i = (if off \<le> i \<and> i < off + length d then d ! (i - off) else bs ! i)"
  by (auto simp: blit_def nth_append min_def)

lemma slice_blit_same [simp]: "off + length d \<le> length bs \<Longrightarrow> n = length d \<Longrightarrow> slice off n (blit off d bs) = d"
  by (simp add: blit_def slice_def)

lemma slice_blit_other:
  assumes "off + length d \<le> length bs" and "o2 + n \<le> length bs" and "o2 + n \<le> off \<or> off + length d \<le> o2"
  shows "slice o2 n (blit off d bs) = slice o2 n bs"
proof (rule nth_equalityI)
  show "length (slice o2 n (blit off d bs)) = length (slice o2 n bs)" using assms by simp
next
  fix i assume "i < length (slice o2 n (blit off d bs))"
  then have "i < n" using assms by simp
  then show "slice o2 n (blit off d bs) ! i = slice o2 n bs ! i"
    using assms by (auto simp: slice_def nth_blit)
qed

section \<open>32-bit fields\<close>

definition enc32 :: "u32 \<Rightarrow> bytes" where
  "enc32 w = [ucast w, ucast (drop_bit 8 w), ucast (drop_bit 16 w), ucast (drop_bit 24 w)]"

definition dec32 :: "bytes \<Rightarrow> u32" where
  "dec32 bs = ucast (bs ! 0) OR push_bit 8 (ucast (bs ! 1)) OR push_bit 16 (ucast (bs ! 2))
              OR push_bit 24 (ucast (bs ! 3))"

lemma length_enc32 [simp]: "length (enc32 w) = 4"
  by (simp add: enc32_def)

lemma dec32_enc32 [simp]: "dec32 (enc32 w) = w"
proof (rule bit_word_eqI)
  fix n assume "n < LENGTH(32)"
  then have "n < 8 \<or> (8 \<le> n \<and> n < 16) \<or> (16 \<le> n \<and> n < 24) \<or> (24 \<le> n \<and> n < 32)" by auto
  then show "bit (dec32 (enc32 w)) n = bit w n"
    by (auto simp: dec32_def enc32_def bit_simps)
qed

definition get32 :: "nat \<Rightarrow> bytes \<Rightarrow> u32 outcome" where
  "get32 off bs = bindE (get_bytes off 4 bs) (\<lambda>d. Inr (dec32 d))"

definition put32 :: "nat \<Rightarrow> u32 \<Rightarrow> bytes \<Rightarrow> bytes outcome" where
  "put32 off w bs = put_bytes off (enc32 w) bs"

text \<open>The value of a field, where it lies inside the buffer.\<close>

definition fld :: "nat \<Rightarrow> bytes \<Rightarrow> u32" where
  "fld off bs = dec32 (slice off 4 bs)"

lemma get32_in [simp]: "off + 4 \<le> length bs \<Longrightarrow> get32 off bs = Inr (fld off bs)"
  by (simp add: get32_def get_bytes_def fld_def)

lemma get32_out [simp]: "length bs < off + 4 \<Longrightarrow> get32 off bs = Inl OutOfBounds"
  by (simp add: get32_def get_bytes_def)

lemma put32_in [simp]: "off + 4 \<le> length bs \<Longrightarrow> put32 off w bs = Inr (blit off (enc32 w) bs)"
  by (simp add: put32_def put_bytes_def)

lemma put32_out [simp]: "length bs < off + 4 \<Longrightarrow> put32 off w bs = Inl OutOfBounds"
  by (simp add: put32_def put_bytes_def)

lemma fld_blit_same [simp]: "off + 4 \<le> length bs \<Longrightarrow> fld off (blit off (enc32 w) bs) = w"
  by (simp add: fld_def)

lemma fld_blit_other:
  "off + length d \<le> length bs \<Longrightarrow> o2 + 4 \<le> length bs \<Longrightarrow> o2 + 4 \<le> off \<or> off + length d \<le> o2 \<Longrightarrow>
     fld o2 (blit off d bs) = fld o2 bs"
  by (simp add: fld_def slice_blit_other)

section \<open>C strings\<close>

text \<open>A C string is the bytes before its terminator. \<open>strcpy\<close> copies the terminator too.\<close>

type_synonym cstr = bytes

definition ascii :: "string \<Rightarrow> cstr" where
  "ascii s = map (\<lambda>c. of_nat (of_char c)) s"

definition strcpy_to :: "nat \<Rightarrow> cstr \<Rightarrow> bytes \<Rightarrow> bytes outcome" where
  "strcpy_to off s bs = put_bytes off (s @ [0]) bs"

definition cstr_at :: "nat \<Rightarrow> bytes \<Rightarrow> cstr outcome" where
  "cstr_at off bs =
     (if 0 \<in> set (drop off bs) then Inr (takeWhile (\<lambda>b. b \<noteq> 0) (drop off bs)) else Inl OutOfBounds)"

definition is_cstr :: "cstr \<Rightarrow> bool" where
  "is_cstr s \<longleftrightarrow> 0 \<notin> set s"

lemma cstr_at_blit:
  assumes "is_cstr s" and "off + length s < length bs"
  shows "cstr_at off (blit off (s @ [0]) bs) = Inr s"
proof -
  have "takeWhile (\<lambda>b. b \<noteq> 0) (s @ 0 # rest) = s" for rest
    using assms(1) by (subst takeWhile_append2) (auto simp: is_cstr_def)
  then show ?thesis using assms(2) by (auto simp: cstr_at_def blit_def)
qed

text \<open>\<open>strcmp\<close>: bytes are compared as unsigned values, the terminator is smaller than any byte.\<close>

fun strcmp :: "cstr \<Rightarrow> cstr \<Rightarrow> int" where
  "strcmp [] [] = 0"
| "strcmp [] (b # _) = - uint b"
| "strcmp (a # _) [] = uint a"
| "strcmp (a # as) (b # bs) = (if a = b then strcmp as bs else uint a - uint b)"

lemma strcmp_refl [simp]: "strcmp a a = 0"
  by (induction a) auto

lemma strcmp_eq_0: "is_cstr a \<Longrightarrow> is_cstr b \<Longrightarrow> strcmp a b = 0 \<longleftrightarrow> a = b"
  by (induction a b rule: strcmp.induct) (auto simp: is_cstr_def uint_0_iff dest: word_uint_eqI)

section \<open>\<open>struct itc_message\<close>\<close>

text \<open>Offsets of the fields; \<open>msgno\<close> is where the user's view of the message begins.\<close>

definition OFF_FLAGS :: nat where [simp]: "OFF_FLAGS = 0"
definition OFF_RECEIVER :: nat where [simp]: "OFF_RECEIVER = 4"
definition OFF_SENDER :: nat where [simp]: "OFF_SENDER = 8"
definition OFF_SIZE :: nat where [simp]: "OFF_SIZE = 12"
definition OFF_MSGNO :: nat where [simp]: "OFF_MSGNO = 16"

type_synonym mheap = "bytes heap"

definition msg_get :: "nat \<Rightarrow> ptr \<Rightarrow> mheap \<Rightarrow> u32 outcome" where
  "msg_get off p mh = bindE (hread p mh) (\<lambda>bs. get32 off bs)"

definition msg_put :: "nat \<Rightarrow> u32 \<Rightarrow> ptr \<Rightarrow> mheap \<Rightarrow> mheap outcome" where
  "msg_put off w p mh =
     bindE (hread p mh) (\<lambda>bs. bindE (put32 off w bs) (\<lambda>bs. hupd p (\<lambda>_. bs) mh))"

text \<open>
  \<open>wf_msg bs\<close>: the block of a message as \<open>itc_alloc\<close> makes it. It is as long as its size field
  says, and the byte behind the user data is the end marker.
\<close>

definition wf_msg :: "bytes \<Rightarrow> bool" where
  "wf_msg bs \<longleftrightarrow>
     20 < length bs \<and> length bs = unat (fld OFF_SIZE bs) + ITC_HEADER_SIZE + 1 \<and>
     bs ! (length bs - 1) = ENDPOINT"

lemma wf_msg_length: "wf_msg bs \<Longrightarrow> 21 \<le> length bs"
  by (simp add: wf_msg_def)

text \<open>Writing one of the header fields other than the size, or the message number, keeps the form.\<close>

lemma wf_msg_blit_header:
  assumes "wf_msg bs" and "off + 4 \<le> 12 \<or> off = 16"
  shows "wf_msg (blit off (enc32 w) bs)"
  using assms by (auto simp: wf_msg_def fld_blit_other nth_blit)

lemma msg_get_ok [simp]:
  "cells mh a = Some bs \<Longrightarrow> off + 4 \<le> length bs \<Longrightarrow> msg_get off (Some a) mh = Inr (fld off bs)"
  by (simp add: msg_get_def)

lemma msg_put_ok [simp]:
  "cells mh a = Some bs \<Longrightarrow> off + 4 \<le> length bs \<Longrightarrow>
     msg_put off w (Some a) mh = Inr (mh\<lparr>cells := (cells mh)(a \<mapsto> blit off (enc32 w) bs)\<rparr>)"
  by (simp add: msg_put_def)

text \<open>The mark that a message is in a receive queue.\<close>

definition set_inrx :: "bytes \<Rightarrow> bytes" where
  "set_inrx bs = blit OFF_FLAGS (enc32 (fld OFF_FLAGS bs OR ITC_FLAGS_MSG_INRXQUEUE)) bs"

definition clear_inrx :: "bytes \<Rightarrow> bytes" where
  "clear_inrx bs = blit OFF_FLAGS (enc32 (fld OFF_FLAGS bs AND NOT ITC_FLAGS_MSG_INRXQUEUE)) bs"

definition inrx :: "bytes \<Rightarrow> bool" where
  "inrx bs \<longleftrightarrow> fld OFF_FLAGS bs AND ITC_FLAGS_MSG_INRXQUEUE \<noteq> 0"

lemma length_set_inrx [simp]: "4 \<le> length bs \<Longrightarrow> length (set_inrx bs) = length bs"
  by (simp add: set_inrx_def)

lemma length_clear_inrx [simp]: "4 \<le> length bs \<Longrightarrow> length (clear_inrx bs) = length bs"
  by (simp add: clear_inrx_def)

lemma wf_set_inrx [simp]: "wf_msg bs \<Longrightarrow> wf_msg (set_inrx bs)"
  by (simp add: set_inrx_def wf_msg_blit_header)

lemma wf_clear_inrx [simp]: "wf_msg bs \<Longrightarrow> wf_msg (clear_inrx bs)"
  by (simp add: clear_inrx_def wf_msg_blit_header)

lemma inrx_set [simp]: "4 \<le> length bs \<Longrightarrow> inrx (set_inrx bs)"
  by (simp add: inrx_def set_inrx_def bit.conj_disj_distrib2)

lemma inrx_clear [simp]: "4 \<le> length bs \<Longrightarrow> \<not> inrx (clear_inrx bs)"
  by (simp add: inrx_def clear_inrx_def and.assoc)

lemma blit_blit_same [simp]:
  "off + length d \<le> length bs \<Longrightarrow> length d' = length d \<Longrightarrow> blit off d' (blit off d bs) = blit off d' bs"
  by (simp add: blit_def)

text \<open>Taking a message out of a queue undoes putting it in, when it was in none before.\<close>

lemma blit_slice_id [simp]: "off + n \<le> length bs \<Longrightarrow> blit off (slice off n bs) bs = bs"
  by (simp add: blit_def slice_def) (metis append_assoc append_take_drop_id take_add)

lemma byte_high_bits [simp]: "8 \<le> n \<Longrightarrow> bit (b :: u8) n = False"
  using bit_imp_le_length [of b n] by auto

lemma enc32_dec32: "length d = 4 \<Longrightarrow> enc32 (dec32 d) = d"
proof -
  assume "length d = 4"
  then obtain a b c e where d: "d = [a, b, c, e]"
    by (auto simp: numeral_eq_Suc length_Suc_conv)
  have "ucast (dec32 d) = a" "ucast (drop_bit 8 (dec32 d)) = b"
    "ucast (drop_bit 16 (dec32 d)) = c" "ucast (drop_bit 24 (dec32 d)) = e"
    by (auto simp: d dec32_def bit_simps intro!: bit_word_eqI)
  then show ?thesis by (simp add: enc32_def d)
qed

lemma and_not_absorb: "w AND m = 0 \<Longrightarrow> w AND NOT m = w" for w m :: "'a::len word"
  by (metis bit.conj_cancel_right bit.conj_disj_distrib bit.conj_one_right bit.disj_cancel_right
      or.left_neutral)

lemma clear_set_inrx:
  assumes "4 \<le> length bs" and "\<not> inrx bs"
  shows "clear_inrx (set_inrx bs) = bs"
proof -
  have "(fld 0 bs OR 1) AND NOT 1 = fld 0 bs AND NOT 1"
    by (simp add: bit.conj_disj_distrib2)
  also have "\<dots> = fld 0 bs"
    using assms(2) by (intro and_not_absorb) (simp add: inrx_def)
  finally have "clear_inrx (set_inrx bs) = blit 0 (enc32 (fld 0 bs)) bs"
    using assms(1) by (simp add: clear_inrx_def set_inrx_def)
  then show ?thesis using assms(1) by (simp add: fld_def enc32_dec32)
qed

end
