(* ===== verification/Itc_Process.thy ===== *)
theory Itc_Process
  imports Itc_Queue Itc_Message
begin

text \<open>
  The state of one process that uses the framework: the global variables of \<open>itc.c\<close>,
  \<open>itc_local.c\<close>, \<open>itc_sysvmq.c\<close>, \<open>itc_lsocket.c\<close>, \<open>itc_malloc.c\<close> and \<open>itc_threadmanager.c\<close>, the
  thread-local variables of \<open>itc.c\<close>, and the memory the process has allocated.
\<close>

unbundle bit_operations_syntax

section \<open>Data\<close>

text \<open>
  \<open>struct itc_mailbox\<close> with its \<open>struct mbox_rxq_info\<close>. The mutex is represented by its owner,
  \<open>p_rxq_info\<close> by whether it is set (it only ever points to the mailbox's own \<open>rxq_info\<close>), the
  name by its characters; \<open>evfd_count\<close> is the kernel's counter behind the event descriptor.
\<close>

record itc_mailbox =
  mb_flags :: u32
  rxq_mtx :: "nat option"
  rxq_fd :: int
  is_fd_created :: bool
  rxq_len :: int
  is_in_rx :: bool
  p_rxq_info :: bool
  mb_id :: itc_mbox_id
  mb_state :: mbox_state
  mb_tid :: nat
  mb_name :: cstr
  evfd_count :: nat

record itc_instance =
  free_mboxes_queue :: "itc_queue block"
  ii_my_mbox_id_in_itccoord :: itc_mbox_id
  ii_itccoord_mask :: itc_mbox_id
  ii_itccoord_mbox_id :: itc_mbox_id
  local_locating_mbox_tree :: "nat list"
  ii_pid :: int
  nr_mboxes :: u32
  ii_local_mbox_mask :: u32
  mboxes :: "itc_mailbox list block"
  itcgw_mboxid :: itc_mbox_id
  ii_namespace :: cstr

text \<open>\<open>struct rxqueue\<close>, \<open>struct local_mbox_data\<close>, \<open>struct local_instance\<close>.\<close>

record rxqueue =
  rx_head :: ptr
  rx_tail :: ptr
  rx_find :: ptr

type_synonym llqueue_item = "nat dnode"
type_synonym lheap = "llqueue_item heap"

record local_mbox_data =
  lmd_mbox_id :: itc_mbox_id
  lmd_flags :: u32
  lmd_rxq :: "rxqueue block"

record local_instance =
  li_my_mbox_id_in_itccoord :: itc_mbox_id
  li_itccoord_mask :: itc_mbox_id
  li_local_mbox_mask :: itc_mbox_id
  nr_localmbx_datas :: u32
  localmbx_data :: "local_mbox_data list block"

text \<open>\<open>struct sysvmq_contactlist\<close>, \<open>struct sysvmq_instance\<close>.\<close>

record sysvmq_contactlist =
  cl_mbox_id_in_itccoord :: itc_mbox_id
  cl_sysvmq_id :: int

record sysvmq_instance =
  sv_my_mbox_id_in_itccoord :: itc_mbox_id
  sv_itccoord_mask :: itc_mbox_id
  sv_itccoord_shift :: nat
  sv_my_mbox_id :: itc_mbox_id
  my_sysvmq_id :: int
  sv_pid :: int
  sv_is_initialized :: bool
  sv_is_terminated :: bool
  sv_max_msgsize :: int
  rx_buffer :: "bytes block"
  sysvmq_cl :: "sysvmq_contactlist list"

text \<open>\<open>struct lsock_instance\<close>.\<close>

record lsock_instance =
  ls_sd :: int
  is_coord_running :: bool
  is_path_created :: bool

text \<open>
  \<open>struct itc_threads\<close> and the variables of the thread manager. A worker function is represented
  by a number; \<open>mtx_locked\<close> is the state of the start mutexes, by address.
\<close>

record itc_thread =
  th_next :: ptr
  th_worker :: nat
  th_tid :: nat
  use_highest_prio :: bool
  start_mtx :: ptr
  is_running :: bool

record thrman =
  thread_list :: ptr
  th_heap :: "itc_thread heap"
  m_sched_policy :: int
  m_sched_priority :: int
  m_sched_selflimit_prio :: int
  next_tid :: nat
  mtx_locked :: "nat \<Rightarrow> bool"

text \<open>
  The whole process. \<open>rcs\<close> and \<open>my_threadlocal_mbox\<close> are the thread-local variables \<open>rc\<close> and
  \<open>my_threadlocal_mbox\<close> of \<open>itc.c\<close>, by thread, \<open>destruct_data\<close> what a thread has associated with
  \<open>destruct_key\<close>; a mailbox pointer is the index of the mailbox in
  \<open>itc_inst.mboxes\<close>. \<open>sys\<close> are the outcomes of the coming system calls, \<open>rx_data\<close> the
  data that the coming calls of \<open>recv\<close> and \<open>msgrcv\<close> put into the caller's buffer, \<open>msginfo\<close> the
  kernel's limits \<open>msgmax\<close> and \<open>msgmnb\<close>, \<open>mallocs\<close> the outcomes of the allocations that are not
  modelled as heap cells; \<open>mq_sent\<close> is what the process has handed to
  System V message queues, with the queue's identifier.
\<close>

record proc =
  itc_inst :: itc_instance
  local_inst :: local_instance
  sysvmq_inst :: sysvmq_instance
  lsock_inst :: lsock_instance
  thrman_inst :: thrman
  max_mallocsize :: int
  alloc_ready :: bool
  rcs :: "nat \<Rightarrow> u32 block"
  my_threadlocal_mbox :: "nat \<Rightarrow> nat option"
  destruct_data :: "nat \<Rightarrow> nat option"
  msgs :: mheap
  qnodes :: "nat qheap"
  litems :: lheap
  sys :: "sysret list"
  rx_data :: "bytes list"
  msginfo :: "int \<times> int"
  mallocs :: "bool list"
  cur_pid :: int
  mq_sent :: "(int \<times> bytes) list"

section \<open>The state before \<open>itc_init\<close>: static storage is zero\<close>

definition local_instance0 :: local_instance where
  "local_instance0 = \<lparr>li_my_mbox_id_in_itccoord = 0, li_itccoord_mask = 0, li_local_mbox_mask = 0,
     nr_localmbx_datas = 0, localmbx_data = BNull\<rparr>"

definition sysvmq_instance0 :: sysvmq_instance where
  "sysvmq_instance0 = \<lparr>sv_my_mbox_id_in_itccoord = 0, sv_itccoord_mask = 0, sv_itccoord_shift = 0,
     sv_my_mbox_id = 0, my_sysvmq_id = 0, sv_pid = 0, sv_is_initialized = False,
     sv_is_terminated = False, sv_max_msgsize = 0, rx_buffer = BNull,
     sysvmq_cl = replicate MAX_SUPPORTED_PROCESSES \<lparr>cl_mbox_id_in_itccoord = 0, cl_sysvmq_id = 0\<rparr>\<rparr>"

definition lsock_instance0 :: lsock_instance where
  "lsock_instance0 = \<lparr>ls_sd = 0, is_coord_running = False, is_path_created = False\<rparr>"

definition itc_instance0 :: itc_instance where
  "itc_instance0 = \<lparr>free_mboxes_queue = BNull, ii_my_mbox_id_in_itccoord = 0, ii_itccoord_mask = 0,
     ii_itccoord_mbox_id = 0, local_locating_mbox_tree = [], ii_pid = 0, nr_mboxes = 0,
     ii_local_mbox_mask = 0, mboxes = BNull, itcgw_mboxid = 0, ii_namespace = []\<rparr>"

definition itc_mailbox0 :: itc_mailbox where
  "itc_mailbox0 = \<lparr>mb_flags = 0, rxq_mtx = None, rxq_fd = 0, is_fd_created = False, rxq_len = 0,
     is_in_rx = False, p_rxq_info = False, mb_id = 0, mb_state = MBOX_UNUSED, mb_tid = 0, mb_name = [],
     evfd_count = 0\<rparr>"

definition thrman0 :: thrman where
  "thrman0 = \<lparr>thread_list = None, th_heap = empty_heap [], m_sched_policy = 0, m_sched_priority = 0,
     m_sched_selflimit_prio = 0, next_tid = 1, mtx_locked = (\<lambda>_. False)\<rparr>"

definition proc0 :: "int \<Rightarrow> sysret list \<Rightarrow> proc" where
  "proc0 pid script = \<lparr>itc_inst = itc_instance0, local_inst = local_instance0,
     sysvmq_inst = sysvmq_instance0, lsock_inst = lsock_instance0, thrman_inst = thrman0,
     max_mallocsize = 0, alloc_ready = False, rcs = (\<lambda>_. BNull), my_threadlocal_mbox = (\<lambda>_. None),
     destruct_data = (\<lambda>_. None),
     msgs = empty_heap [], qnodes = empty_heap [], litems = empty_heap [], sys = script,
     rx_data = [], msginfo = (8192, 16384), mallocs = [], cur_pid = pid, mq_sent = []\<rparr>"

section \<open>Access to the state\<close>

definition sys_next :: "proc \<Rightarrow> sysret \<times> proc" where
  "sys_next s = (case syscall (sys s) of (r, rs) \<Rightarrow> (r, s\<lparr>sys := rs\<rparr>))"

text \<open>A call whose result is only compared with 0, and the data that a receiving call delivers.\<close>

definition sys_zero :: "proc \<Rightarrow> bool \<times> proc" where
  "sys_zero s = (case sys_next s of ((r, _), s) \<Rightarrow> (r = 0, s))"

definition rx_next :: "proc \<Rightarrow> bytes \<times> proc" where
  "rx_next s = (case rx_data s of [] \<Rightarrow> ([], s) | d # ds \<Rightarrow> (d, s\<lparr>rx_data := ds\<rparr>))"

definition malloc_ok :: "proc \<Rightarrow> bool \<times> proc" where
  "malloc_ok s = (case mallocs s of [] \<Rightarrow> (True, s) | b # bs \<Rightarrow> (b, s\<lparr>mallocs := bs\<rparr>))"

text \<open>The thread's own result code.\<close>

definition rc_get :: "nat \<Rightarrow> proc \<Rightarrow> u32 outcome" where
  "rc_get t s = bread (rcs s t)"

definition rc_upd :: "nat \<Rightarrow> (u32 \<Rightarrow> u32) \<Rightarrow> proc \<Rightarrow> proc outcome" where
  "rc_upd t f s = bindE (bwrite f (rcs s t)) (\<lambda>b. Inr (s\<lparr>rcs := (rcs s)(t := b)\<rparr>))"

definition rc_set :: "nat \<Rightarrow> u32 \<Rightarrow> proc \<Rightarrow> proc outcome" where
  "rc_set t w s = rc_upd t (\<lambda>_. w) s"

definition rc_or :: "nat \<Rightarrow> u32 \<Rightarrow> proc \<Rightarrow> proc outcome" where
  "rc_or t w s = rc_upd t (\<lambda>f. f OR w) s"

definition rc_free :: "nat \<Rightarrow> proc \<Rightarrow> proc outcome" where
  "rc_free t s = bindE (bfree (rcs s t)) (\<lambda>b. Inr (s\<lparr>rcs := (rcs s)(t := b)\<rparr>))"

text \<open>
  The opening of every operation of \<open>itc.c\<close>: allocate the thread's result code when it has none.
  The boolean says whether there is one afterwards; its content is indeterminate until it is set,
  which every caller does next.
\<close>

definition rc_ensure :: "nat \<Rightarrow> proc \<Rightarrow> bool \<times> proc" where
  "rc_ensure t s =
     (case rcs s t of
        BNull \<Rightarrow> (case malloc_ok s of (True, s) \<Rightarrow> (True, s\<lparr>rcs := (rcs s)(t := BLive 0)\<rparr>)
                                | (False, s) \<Rightarrow> (False, s))
      | _ \<Rightarrow> (True, s))"

text \<open>A mailbox by its index, and the mutex of its receive queue (error-checking type).\<close>

definition mbox_at :: "nat \<Rightarrow> proc \<Rightarrow> itc_mailbox outcome" where
  "mbox_at i s =
     bindE (bread (mboxes (itc_inst s))) (\<lambda>ms. if i < length ms then Inr (ms ! i) else Inl OutOfBounds)"

definition mbox_upd :: "nat \<Rightarrow> (itc_mailbox \<Rightarrow> itc_mailbox) \<Rightarrow> proc \<Rightarrow> proc outcome" where
  "mbox_upd i f s =
     bindE (bread (mboxes (itc_inst s))) (\<lambda>ms.
     if i < length ms
     then Inr (s\<lparr>itc_inst := (itc_inst s)\<lparr>mboxes := BLive (ms[i := f (ms ! i)])\<rparr>\<rparr>)
     else Inl OutOfBounds)"

text \<open>
  \<open>MUTEX_LOCK\<close>: taking a free mutex makes the caller its owner; an error-checking mutex answers a
  second attempt by its owner with \<open>EDEADLK\<close>, which the macro ignores; otherwise the call waits.
  \<open>MUTEX_UNLOCK\<close> by a thread that is not the owner fails and changes nothing.
\<close>

definition mutex_lock :: "nat \<Rightarrow> nat \<Rightarrow> proc \<Rightarrow> proc outcome" where
  "mutex_lock t i s =
     bindE (mbox_at i s) (\<lambda>m.
     case rxq_mtx m of
       None \<Rightarrow> mbox_upd i (\<lambda>m. m\<lparr>rxq_mtx := Some t\<rparr>) s
     | Some t' \<Rightarrow> if t' = t then Inr s else Inl Blocked)"

definition mutex_unlock :: "nat \<Rightarrow> nat \<Rightarrow> proc \<Rightarrow> proc outcome" where
  "mutex_unlock t i s =
     bindE (mbox_at i s) (\<lambda>m.
     if rxq_mtx m = Some t then mbox_upd i (\<lambda>m. m\<lparr>rxq_mtx := None\<rparr>) s else Inr s)"

section \<open>The transport interface (\<open>itci_trans.h\<close>)\<close>

text \<open>A table of function pointers; \<open>None\<close> is a null entry.\<close>

record transport_apis =
  tr_locate :: "(nat \<Rightarrow> proc \<Rightarrow> (bool \<times> proc) outcome) option"
  tr_init :: "(nat \<Rightarrow> itc_mbox_id \<Rightarrow> itc_mbox_id \<Rightarrow> u32 \<Rightarrow> u32 \<Rightarrow> proc \<Rightarrow> proc outcome) option"
  tr_exit :: "(nat \<Rightarrow> proc \<Rightarrow> proc outcome) option"
  tr_create :: "(nat \<Rightarrow> nat \<Rightarrow> u32 \<Rightarrow> proc \<Rightarrow> proc outcome) option"
  tr_delete :: "(nat \<Rightarrow> nat \<Rightarrow> proc \<Rightarrow> proc outcome) option"
  tr_send :: "(nat \<Rightarrow> nat \<Rightarrow> itc_mbox_id \<Rightarrow> proc \<Rightarrow> proc outcome) option"
  tr_receive :: "(nat \<Rightarrow> nat \<Rightarrow> proc \<Rightarrow> (ptr \<times> proc) outcome) option"
  tr_remove :: "(nat \<Rightarrow> nat \<Rightarrow> nat \<Rightarrow> proc \<Rightarrow> (ptr \<times> proc) outcome) option"
  tr_maxmsgsize :: "(nat \<Rightarrow> proc \<Rightarrow> (int \<times> proc) outcome) option"

section \<open>Lemmas\<close>

lemma rc_get_live [simp]: "rcs s t = BLive w \<Longrightarrow> rc_get t s = Inr w"
  by (simp add: rc_get_def)

lemma rc_upd_live [simp]: "rcs s t = BLive w \<Longrightarrow> rc_upd t f s = Inr (s\<lparr>rcs := (rcs s)(t := BLive (f w))\<rparr>)"
  by (simp add: rc_upd_def)

lemma rc_upd_freed [simp]: "rcs s t = BFreed \<Longrightarrow> rc_upd t f s = Inl UseAfterFree"
  by (simp add: rc_upd_def)

lemma rc_set_live [simp]: "rcs s t = BLive w \<Longrightarrow> rc_set t v s = Inr (s\<lparr>rcs := (rcs s)(t := BLive v)\<rparr>)"
  by (simp add: rc_set_def)

lemma rc_set_freed [simp]: "rcs s t = BFreed \<Longrightarrow> rc_set t v s = Inl UseAfterFree"
  by (simp add: rc_set_def)

lemma rc_or_live [simp]: "rcs s t = BLive w \<Longrightarrow> rc_or t v s = Inr (s\<lparr>rcs := (rcs s)(t := BLive (w OR v))\<rparr>)"
  by (simp add: rc_or_def)

lemma rc_ensure_live [simp]: "rcs s t = BLive w \<Longrightarrow> rc_ensure t s = (True, s)"
  by (simp add: rc_ensure_def)

lemma rc_ensure_freed [simp]: "rcs s t = BFreed \<Longrightarrow> rc_ensure t s = (True, s)"
  by (simp add: rc_ensure_def)

lemma rc_ensure_null [simp]:
  "rcs s t = BNull \<Longrightarrow> mallocs s = [] \<Longrightarrow> rc_ensure t s = (True, s\<lparr>rcs := (rcs s)(t := BLive 0)\<rparr>)"
  by (simp add: rc_ensure_def malloc_ok_def)

lemma mbox_at_live [simp]:
  "mboxes (itc_inst s) = BLive ms \<Longrightarrow> i < length ms \<Longrightarrow> mbox_at i s = Inr (ms ! i)"
  by (simp add: mbox_at_def)

lemma mbox_upd_live [simp]:
  "mboxes (itc_inst s) = BLive ms \<Longrightarrow> i < length ms \<Longrightarrow>
     mbox_upd i f s = Inr (s\<lparr>itc_inst := (itc_inst s)\<lparr>mboxes := BLive (ms[i := f (ms ! i)])\<rparr>\<rparr>)"
  by (simp add: mbox_upd_def)

lemma sys_next_Nil [simp]: "sys s = [] \<Longrightarrow> sys_next s = ((0, EOTHER), s)"
  by (simp add: sys_next_def)

lemma sys_next_Cons [simp]: "sys s = r # rs \<Longrightarrow> sys_next s = (r, s\<lparr>sys := rs\<rparr>)"
  by (simp add: sys_next_def)

lemma sys_zero_Nil [simp]: "sys s = [] \<Longrightarrow> sys_zero s = (True, s)"
  by (simp add: sys_zero_def)

lemma sys_zero_Cons [simp]: "sys s = (r, e) # rs \<Longrightarrow> sys_zero s = (r = 0, s\<lparr>sys := rs\<rparr>)"
  by (simp add: sys_zero_def)

lemma rx_next_Cons [simp]: "rx_data s = d # ds \<Longrightarrow> rx_next s = (d, s\<lparr>rx_data := ds\<rparr>)"
  by (simp add: rx_next_def)

lemma malloc_ok_Nil [simp]: "mallocs s = [] \<Longrightarrow> malloc_ok s = (True, s)"
  by (simp add: malloc_ok_def)

end
