(* ===== verification/Itc_Alloc.thy ===== *)
theory Itc_Alloc
  imports Itc_Process
begin

text \<open>
  \<open>sw/itc/src/allocators/itc_malloc.c\<close> and the two operations of \<open>itc.c\<close> that create and destroy
  messages, \<open>itc_alloc_zz\<close> and \<open>itc_free_zz\<close>. Sizes are 64-bit words, so the additions of the code
  wrap around as they do in C.
\<close>

unbundle bit_operations_syntax

section \<open>The malloc allocator\<close>

definition malloc_init :: "nat \<Rightarrow> int \<Rightarrow> proc \<Rightarrow> proc outcome" where
  "malloc_init t max_msgsize s =
     (if max_msgsize < 0 then rc_or t ITC_INVALID_ARGUMENTS s
      else Inr (s\<lparr>max_mallocsize := max_msgsize\<rparr>))"

definition malloc_exit :: "nat \<Rightarrow> proc \<Rightarrow> proc outcome" where
  "malloc_exit t s = Inr s"

definition malloc_alloc :: "nat \<Rightarrow> u64 \<Rightarrow> proc \<Rightarrow> (ptr \<times> proc) outcome" where
  "malloc_alloc t sz s =
     (if word_of_int (max_mallocsize s) < sz
      then bindE (rc_or t ITC_INVALID_ARGUMENTS s) (\<lambda>s. Inr (None, s))
      else
        (case hmalloc (replicate (unat sz) 0) (msgs s) of
           (None, mh) \<Rightarrow> bindE (rc_or t ITC_SYSCALL_ERROR (s\<lparr>msgs := mh\<rparr>)) (\<lambda>s. Inr (None, s))
         | (Some p, mh) \<Rightarrow> Inr (Some p, s\<lparr>msgs := mh\<rparr>)))"

definition malloc_free :: "nat \<Rightarrow> ptr \<Rightarrow> proc \<Rightarrow> proc outcome" where
  "malloc_free t message s =
     (if message = None then rc_or t ITC_FREE_NULL_PTR s
      else bindE (hfree message (msgs s)) (\<lambda>mh. Inr (s\<lparr>msgs := mh\<rparr>)))"

definition malloc_getinfo :: "proc \<Rightarrow> int" where
  "malloc_getinfo s = max_mallocsize s - int ITC_HEADER_SIZE - 1"

section \<open>\<open>itc_alloc\<close> and \<open>itc_free\<close>\<close>

text \<open>The stores into the new block, in the order of the code.\<close>

definition init_message :: "u64 \<Rightarrow> u32 \<Rightarrow> ptr \<Rightarrow> mheap \<Rightarrow> mheap outcome" where
  "init_message sz msgno message mh =
     bindE (msg_put OFF_MSGNO msgno message mh) (\<lambda>mh.
     bindE (msg_put OFF_SENDER ITC_NO_MBOX_ID message mh) (\<lambda>mh.
     bindE (msg_put OFF_RECEIVER ITC_NO_MBOX_ID message mh) (\<lambda>mh.
     bindE (msg_put OFF_SIZE (ucast sz) message mh) (\<lambda>mh.
     bindE (msg_put OFF_FLAGS 0 message mh) (\<lambda>mh.
     bindE (hread message mh) (\<lambda>bs.
     bindE (put_bytes (OFF_MSGNO + unat sz) [ENDPOINT] bs) (\<lambda>bs.
     hupd message (\<lambda>_. bs) mh)))))))"

definition itc_alloc :: "nat \<Rightarrow> u64 \<Rightarrow> u32 \<Rightarrow> proc \<Rightarrow> (ptr \<times> proc) outcome" where
  "itc_alloc t sz msgno s =
     (let sz = (if sz < 4 then 4 else sz) in
      if mboxes (itc_inst s) = BNull then Inr (None, s)
      else
        (case rc_ensure t s of (have_rc, s) \<Rightarrow>
         if \<not> have_rc then Inr (None, s)
         else
           bindE (rc_set t ITC_OK s) (\<lambda>s.
           if \<not> alloc_ready s then Inl NullDeref else
           bindE (malloc_alloc t (sz + of_nat ITC_HEADER_SIZE + 1) s) (\<lambda>(message, s).
           bindE (rc_set t ITC_OK s) (\<lambda>s.
           if message = None then Inr (None, s)
           else bindE (init_message sz msgno message (msgs s)) (\<lambda>mh.
                Inr (message, s\<lparr>msgs := mh\<rparr>)))))))"

text \<open>
  \<open>itc_free\<close> gets the address of the caller's pointer and sets that pointer to \<open>NULL\<close> when it
  succeeds; the model takes the pointer's value and returns whether it succeeded.
\<close>

definition itc_free :: "nat \<Rightarrow> ptr \<Rightarrow> proc \<Rightarrow> (bool \<times> proc) outcome" where
  "itc_free t msg s =
     (if mboxes (itc_inst s) = BNull then Inr (False, s)
      else if msg = None then Inr (False, s)
      else
        bindE (msg_get OFF_SIZE msg (msgs s)) (\<lambda>sz.
        bindE (msg_get OFF_FLAGS msg (msgs s)) (\<lambda>flags.
        if flags AND ITC_FLAGS_MSG_INRXQUEUE \<noteq> 0 then Inr (False, s)
        else
          bindE (hread msg (msgs s)) (\<lambda>bs.
          bindE (get_bytes (OFF_MSGNO + unat sz) 1 bs) (\<lambda>endpoint.
          if endpoint \<noteq> [ENDPOINT] then Inr (False, s)
          else
            (case rc_ensure t s of (have_rc, s) \<Rightarrow>
             if \<not> have_rc then Inr (False, s)
             else
               bindE (rc_set t ITC_OK s) (\<lambda>s.
               if \<not> alloc_ready s then Inl NullDeref else
               bindE (malloc_free t msg s) (\<lambda>s.
               bindE (rc_get t s) (\<lambda>rc.
               Inr (rc = ITC_OK, s))))))))))"

section \<open>Behaviour\<close>

text \<open>
  The block that \<open>itc_alloc\<close> makes for a message number and a size of \<open>n\<close> bytes.
\<close>

definition new_message :: "nat \<Rightarrow> u32 \<Rightarrow> bytes" where
  "new_message n msgno =
     enc32 0 @ enc32 ITC_NO_MBOX_ID @ enc32 ITC_NO_MBOX_ID @ enc32 (of_nat n) @ enc32 msgno @
     replicate (n - 4) 0 @ [ENDPOINT]"

lemma length_new_message [simp]: "4 \<le> n \<Longrightarrow> length (new_message n msgno) = n + 17"
  by (simp add: new_message_def)

lemma fld_new_message:
  assumes "4 \<le> n"
  shows "fld 0 (new_message n k) = 0" "fld 4 (new_message n k) = 0xFFFFFFFF"
    "fld 8 (new_message n k) = 0xFFFFFFFF" "fld 12 (new_message n k) = of_nat n"
    "fld 16 (new_message n k) = k"
  by (simp_all add: fld_def slice_def new_message_def)

lemma wf_new_message: "4 \<le> n \<Longrightarrow> n < 2 ^ 32 \<Longrightarrow> wf_msg (new_message n k)"
  using fld_new_message [of n k]
  by (simp add: wf_msg_def unat_of_nat take_bit_nat_eq_self) (simp add: new_message_def nth_append)

lemma blit_mid:
  "off = length pre \<Longrightarrow> length d = length mid \<Longrightarrow> blit off d (pre @ mid @ post) = pre @ d @ post"
  by (simp add: blit_def)

lemma init_message_ok:
  assumes c: "cells mh p = Some (replicate (n + 17) 0)" and n: "4 \<le> n" "n < 2 ^ 32"
  shows "init_message (of_nat n) k (Some p) mh = Inr (mh\<lparr>cells := (cells mh)(p \<mapsto> new_message n k)\<rparr>)"
proof -
  have un: "unat (of_nat n :: u64) = n" and cast: "ucast (of_nat n :: u64) = (of_nat n :: u32)"
    using n by (simp_all add: unat_of_nat unsigned_of_nat take_bit_nat_eq_self)
  define z :: bytes where "z = replicate 4 0"
  define r :: bytes where "r = replicate (n - 4) 0"
  have lz [simp]: "length z = 4" and lr [simp]: "length r = n - 4" by (simp_all add: z_def r_def)
  have split: "replicate (n + 17) (0::u8) = (z @ z @ z @ z) @ z @ r @ [0]"
  proof -
    have "n + 17 = 4 + (4 + (4 + (4 + (4 + ((n - 4) + 1)))))" using n by simp
    then show ?thesis by (simp only: replicate_add z_def r_def append_assoc) simp
  qed
  let ?e = "enc32 (of_nat n)" and ?f = "enc32 0xFFFFFFFF" and ?k = "enc32 k"
  have 1: "blit 16 ?k (replicate (n + 17) 0) = (z @ z) @ z @ z @ ?k @ r @ [0]"
    using blit_mid [of 16 "z @ z @ z @ z" ?k z "r @ [0]"] split by simp
  have 2: "blit 8 ?f ((z @ z) @ z @ z @ ?k @ r @ [0]) = z @ z @ ?f @ z @ ?k @ r @ [0]"
    by (subst blit_mid) simp_all
  have 3: "blit 4 ?f (z @ z @ ?f @ z @ ?k @ r @ [0]) = (z @ ?f @ ?f) @ z @ ?k @ r @ [0]"
    by (subst blit_mid) simp_all
  have 4: "blit 12 ?e ((z @ ?f @ ?f) @ z @ ?k @ r @ [0]) = [] @ z @ ?f @ ?f @ ?e @ ?k @ r @ [0]"
    by (subst blit_mid) simp_all
  have 5: "blit 0 (enc32 0) ([] @ z @ ?f @ ?f @ ?e @ ?k @ r @ [0]) =
      (enc32 0 @ ?f @ ?f @ ?e @ ?k @ r) @ [0] @ []"
    by (subst blit_mid) simp_all
  have 6: "blit (16 + n) [0xAA] ((enc32 0 @ ?f @ ?f @ ?e @ ?k @ r) @ [0] @ []) =
      (enc32 0 @ ?f @ ?f @ ?e @ ?k @ r) @ [0xAA] @ []"
    using n by (subst blit_mid) simp_all
  have "blit (16 + n) [0xAA] (blit 0 (enc32 0) (blit 12 ?e (blit 4 ?f (blit 8 ?f
          (blit 16 ?k (replicate (n + 17) 0)))))) = new_message n k"
    by (simp only: 1 2 3 4 5 6) (simp add: new_message_def r_def)
  then show ?thesis
    using c n un cast by (simp add: init_message_def put_bytes_def)
qed

text \<open>The state in which a thread may allocate and free messages.\<close>

definition alloc_state :: "nat \<Rightarrow> proc \<Rightarrow> bool" where
  "alloc_state t s \<longleftrightarrow>
     (\<exists>ms. mboxes (itc_inst s) = BLive ms) \<and> alloc_ready s \<and> heap_ok (msgs s) \<and>
     (\<exists>w. rcs s t = BLive w) \<and> 0 \<le> max_mallocsize s \<and> max_mallocsize s < 2 ^ 32"

lemma size_fits:
  assumes "k + 17 \<le> nat m" and "0 \<le> m" and "m < 2 ^ 32"
  shows "\<not> word_of_int m < (of_nat k + 16 + 1 :: u64)"
    "unat (of_nat k + 16 + 1 :: u64) = k + 17" "k < 2 ^ 32"
proof -
  have m32: "nat m < 2 ^ 32" using assms(3) by (simp add: nat_less_iff)
  have "k + 17 < 2 ^ LENGTH(64)" using assms(1) m32 by simp
  then have "unat (of_nat (k + 17) :: u64) = k + 17" by (rule unat_of_nat_small)
  then show u: "unat (of_nat k + 16 + 1 :: u64) = k + 17" by (simp add: add.assoc)
  have "unat (word_of_int m :: u64) = nat m"
    using assms(2,3) unat_of_nat_small [of "nat m", where 'a = 64] m32 by simp
  then show "\<not> word_of_int m < (of_nat k + 16 + 1 :: u64)"
    using assms(1) u by (simp only: word_less_nat_alt)
  show "k < 2 ^ 32" using assms(1) m32 by simp
qed

lemma max4_word:
  assumes "n < 2 ^ 64"
  shows "(if (of_nat n :: u64) < 4 then 4 else of_nat n) = (of_nat (max 4 n) :: u64)"
proof -
  have "unat (of_nat n :: u64) = n" using assms by (simp add: unat_of_nat take_bit_nat_eq_self)
  then have "(of_nat n :: u64) < 4 \<longleftrightarrow> n < 4" by (simp add: word_less_nat_alt)
  then show ?thesis by (cases "n < 4") (simp_all add: max_def)
qed

lemma itc_alloc_ok:
  assumes st: "alloc_state t s" and fits: "max 4 n + 17 \<le> nat (max_mallocsize s)"
    and mem: "can_alloc (msgs s)"
  shows "itc_alloc t (of_nat n) k s =
     Inr (Some (fresh (msgs s)),
          s\<lparr>rcs := (rcs s)(t := BLive ITC_OK),
            msgs := (msgs s)\<lparr>cells := (cells (msgs s))(fresh (msgs s) \<mapsto> new_message (max 4 n) k),
                             fresh := Suc (fresh (msgs s)),
                             malloc_results := tl (malloc_results (msgs s))\<rparr>\<rparr>)"
proof -
  obtain ms w where l: "mboxes (itc_inst s) = BLive ms" "rcs s t = BLive w" "alloc_ready s"
    using st by (auto simp: alloc_state_def)
  have m: "0 \<le> max_mallocsize s" "max_mallocsize s < 2 ^ 32" using st by (auto simp: alloc_state_def)
  note f = size_fits [OF fits m]
  have "n < 2 ^ 64" using f(3) by simp
  then have sz: "(if (of_nat n :: u64) < 4 then 4 else of_nat n) = (of_nat (max 4 n) :: u64)"
    by (rule max4_word)
  define h' where "h' = (msgs s)\<lparr>cells := (cells (msgs s))(fresh (msgs s) \<mapsto> replicate (max 4 n + 17) 0),
     fresh := Suc (fresh (msgs s)), malloc_results := tl (malloc_results (msgs s))\<rparr>"
  have "cells h' (fresh (msgs s)) = Some (replicate (max 4 n + 17) 0)" by (simp add: h'_def)
  note i = init_message_ok [OF this _ f(3), of k]
  show ?thesis
    using l f(1,2) mem i
    by (simp add: itc_alloc_def sz Let_def malloc_alloc_def h'_def)
qed

lemma itc_free_ok:
  assumes st: "alloc_state t s" and m: "cells (msgs s) p = Some bs" "wf_msg bs" "\<not> inrx bs"
  shows "itc_free t (Some p) s =
     Inr (True, s\<lparr>rcs := (rcs s)(t := BLive ITC_OK),
                  msgs := (msgs s)\<lparr>cells := (cells (msgs s))(p := None)\<rparr>\<rparr>)"
proof -
  obtain ms w where l: "mboxes (itc_inst s) = BLive ms" "rcs s t = BLive w" "alloc_ready s"
    using st by (auto simp: alloc_state_def)
  have len: "length bs = unat (fld 12 bs) + 17" "20 < length bs" and e: "bs ! (length bs - 1) = 0xAA"
    using m(2) by (auto simp: wf_msg_def)
  have "slice (16 + unat (fld 12 bs)) 1 bs = [0xAA]"
    using len e by (simp add: slice_def flip: Cons_nth_drop_Suc)
  then show ?thesis
    using l m len by (simp add: itc_free_def get_bytes_def malloc_free_def inrx_def)
qed

section \<open>Properties\<close>

text \<open>The smallest process that has been initialised for the allocation operations of thread 0.\<close>

definition alloc_example :: proc where
  "alloc_example = (proc0 1 [])\<lparr>itc_inst := itc_instance0\<lparr>mboxes := BLive []\<rparr>, alloc_ready := True,
     max_mallocsize := 100, rcs := (\<lambda>_. BLive 0)\<rparr>"

lemma alloc_example_state: "alloc_state 0 alloc_example"
  by (simp add: alloc_state_def alloc_example_def proc0_def)

text \<open>
  A message that \<open>itc_alloc\<close> returns has the requested message number and size, no sender and
  receiver, is in no queue, and carries the end marker right behind its user data; \<open>itc_free\<close>
  accepts it, and gives back exactly the memory that was taken.
\<close>

theorem alloc_free_roundtrip:
  assumes "alloc_state t s" and "max 4 n + 17 \<le> nat (max_mallocsize s)" and "can_alloc (msgs s)"
  shows "\<exists>p s' bs s''. itc_alloc t (of_nat n) k s = Inr (Some p, s') \<and>
           cells (msgs s) p = None \<and> cells (msgs s') p = Some bs \<and> wf_msg bs \<and> \<not> inrx bs \<and>
           fld OFF_MSGNO bs = k \<and> fld OFF_SIZE bs = of_nat (max 4 n) \<and>
           fld OFF_SENDER bs = ITC_NO_MBOX_ID \<and> fld OFF_RECEIVER bs = ITC_NO_MBOX_ID \<and>
           itc_free t (Some p) s' = Inr (True, s'') \<and> cells (msgs s'') = cells (msgs s)"
proof -
  let ?p = "fresh (msgs s)" and ?bs = "new_message (max 4 n) k"
  note a = itc_alloc_ok [OF assms, of k]
  have m: "max 4 n < 2 ^ 32"
    using size_fits(3) [OF assms(2)] assms(1) by (simp add: alloc_state_def)
  have f: "cells (msgs s) ?p = None" using assms(1) by (simp add: alloc_state_def heap_ok_fresh)
  define s' where "s' = s\<lparr>rcs := (rcs s)(t := BLive ITC_OK),
            msgs := (msgs s)\<lparr>cells := (cells (msgs s))(?p \<mapsto> ?bs), fresh := Suc ?p,
                             malloc_results := tl (malloc_results (msgs s))\<rparr>\<rparr>"
  have st: "alloc_state t s'" using assms(1) by (auto simp: alloc_state_def s'_def)
  have w: "wf_msg ?bs" and i: "\<not> inrx ?bs" and c: "cells (msgs s') ?p = Some ?bs"
    using m wf_new_message fld_new_message(1) [of "max 4 n"] by (simp_all add: inrx_def s'_def)
  have "(cells (msgs s))(?p := None) = cells (msgs s)" using f by auto
  then show ?thesis
    using a itc_free_ok [OF st c w i] f w i c fld_new_message [of "max 4 n" k]
    by (auto simp: s'_def)
qed

theorem alloc_free_roundtrip_witness:
  "\<exists>p s' bs s''. itc_alloc 0 (of_nat 8) 42 alloc_example = Inr (Some p, s') \<and>
           cells (msgs s') p = Some bs \<and> fld OFF_MSGNO bs = 42 \<and> fld OFF_SIZE bs = 8 \<and>
           itc_free 0 (Some p) s' = Inr (True, s'') \<and> cells (msgs s'') p = None"
proof -
  have "max 4 8 + 17 \<le> nat (max_mallocsize alloc_example)" "can_alloc (msgs alloc_example)"
    by (simp_all add: alloc_example_def proc0_def)
  from alloc_free_roundtrip [OF alloc_example_state this, of 42] show ?thesis
    by (auto simp: alloc_example_def proc0_def)
qed

text \<open>
  \<open>itc_free\<close> refuses, without releasing anything or touching any state, a message that is
  still in a receive queue and a message whose end marker has been overwritten.
\<close>

theorem itc_free_refuses:
  assumes "mboxes (itc_inst s) = BLive ms" and "cells (msgs s) p = Some bs"
    and "20 < length bs" and "length bs = unat (fld OFF_SIZE bs) + 17"
    and "inrx bs \<or> bs ! (length bs - 1) \<noteq> ENDPOINT"
  shows "itc_free t (Some p) s = Inr (False, s)"
proof -
  have "slice (16 + unat (fld 12 bs)) 1 bs = [bs ! (length bs - 1)]"
    using assms(3,4) by (simp add: slice_def flip: Cons_nth_drop_Suc)
  then show ?thesis
    using assms by (auto simp: itc_free_def get_bytes_def inrx_def)
qed

theorem itc_free_refuses_witness:
  "itc_free 0 (Some 0) (alloc_example\<lparr>msgs := \<lparr>cells = [0 \<mapsto> (new_message 4 9)[20 := 0xAB]],
       fresh = 1, malloc_results = []\<rparr>\<rparr>) =
   Inr (False, alloc_example\<lparr>msgs := \<lparr>cells = [0 \<mapsto> (new_message 4 9)[20 := 0xAB]],
       fresh = 1, malloc_results = []\<rparr>\<rparr>)"
proof -
  let ?bs = "(new_message 4 9)[20 := 0xAB]"
  have f: "fld OFF_SIZE ?bs = 4"
    by (simp add: fld_def slice_def new_message_def enc32_def dec32_def)
  show ?thesis
    by (rule itc_free_refuses [where ms = "[]" and bs = ?bs])
       (simp_all add: f [simplified] alloc_example_def)
qed

text \<open>
  The size that \<open>malloc_getinfo\<close> reports to users is exact: as long as memory is available,
  \<open>itc_alloc\<close> of \<open>n\<close> bytes gives a message if and only if the size it rounds \<open>n\<close> up to is not
  larger than the reported one.
\<close>

theorem malloc_getinfo_exact:
  assumes "alloc_state t s" and "can_alloc (msgs s)" and "n < 2 ^ 64 - 17"
  shows "\<exists>p s'. itc_alloc t (of_nat n) k s = Inr (p, s') \<and>
           (p \<noteq> None \<longleftrightarrow> int (max 4 n) \<le> malloc_getinfo s)"
proof (cases "int (max 4 n) \<le> malloc_getinfo s")
  case True
  then have "max 4 n + 17 \<le> nat (max_mallocsize s)" by (simp add: malloc_getinfo_def)
  then show ?thesis using itc_alloc_ok [OF assms(1) _ assms(2), of n k] True by auto
next
  case False
  obtain ms w where l: "mboxes (itc_inst s) = BLive ms" "rcs s t = BLive w" "alloc_ready s"
    using assms(1) by (auto simp: alloc_state_def)
  have m: "0 \<le> max_mallocsize s" "max_mallocsize s < 2 ^ 32"
    using assms(1) by (auto simp: alloc_state_def)
  have small: "max 4 n + 17 < 2 ^ LENGTH(64)" using assms(3) by simp
  have "unat (of_nat (max 4 n) + 16 + 1 :: u64) = max 4 n + 17"
    using unat_of_nat_small [OF small] by (simp add: add.assoc)
  moreover have "unat (word_of_int (max_mallocsize s) :: u64) = nat (max_mallocsize s)"
    using m unat_of_nat_small [of "nat (max_mallocsize s)", where 'a = 64] by simp
  moreover have "nat (max_mallocsize s) < max 4 n + 17"
    using False m by (simp add: malloc_getinfo_def)
  ultimately have big: "word_of_int (max_mallocsize s) < (of_nat (max 4 n) + 16 + 1 :: u64)"
    by (simp only: word_less_nat_alt)
  have "n < 2 ^ 64" using assms(3) by simp
  note sz = max4_word [OF this]
  show ?thesis
    using l big False by (simp add: itc_alloc_def sz Let_def malloc_alloc_def)
qed

theorem malloc_getinfo_exact_witness:
  "\<exists>p s'. itc_alloc 0 (of_nat 84) 1 alloc_example = Inr (p, s') \<and> p = None"
proof -
  have "can_alloc (msgs alloc_example)" by (simp add: alloc_example_def proc0_def)
  from malloc_getinfo_exact [OF alloc_example_state this, of 84 1] show ?thesis
    by (auto simp: malloc_getinfo_def alloc_example_def)
qed

text \<open>
  The size computation of \<open>itc_alloc\<close> wraps around: a request within 17 bytes of the largest
  64-bit size passes the allocator's limit as a tiny block, and the store of the message number
  then runs over the end of that block.
\<close>

theorem itc_alloc_overflows:
  assumes "alloc_state t s" and "17 \<le> max_mallocsize s" and "can_alloc (msgs s)"
    and "d < 16"
  shows "itc_alloc t (- 1 - of_nat d) k s = Inl OutOfBounds"
proof -
  obtain ms w where l: "mboxes (itc_inst s) = BLive ms" "rcs s t = BLive w" "alloc_ready s"
    using assms(1) by (auto simp: alloc_state_def)
  have m: "max_mallocsize s < 2 ^ 32" using assms(1) by (auto simp: alloc_state_def)
  have eq: "(- 1 - of_nat d) + of_nat 16 + 1 = (of_nat (16 - d) :: u64)"
    using assms(4) by (simp add: of_nat_diff)
  have u: "unat (of_nat (16 - d) :: u64) = 16 - d"
    by (rule unat_of_nat_small) simp
  have "unat (word_of_int (max_mallocsize s) :: u64) = nat (max_mallocsize s)"
    using m assms(2) unat_of_nat_small [of "nat (max_mallocsize s)", where 'a = 64] by simp
  then have fits: "\<not> word_of_int (max_mallocsize s) < (of_nat (16 - d) :: u64)"
    using u assms(2) by (simp add: word_less_nat_alt)
  have "d = 0 \<or> d = 1 \<or> d = 2 \<or> d = 3 \<or> d = 4 \<or> d = 5 \<or> d = 6 \<or> d = 7 \<or> d = 8 \<or> d = 9 \<or> d = 10 \<or>
        d = 11 \<or> d = 12 \<or> d = 13 \<or> d = 14 \<or> d = 15" using assms(4) by arith
  then have big: "\<not> (- 1 - of_nat d :: u64) < 4" by (elim disjE) simp_all
  show ?thesis
    using l big assms(3) fits u unfolding itc_alloc_def ITC_HEADER_SIZE_def eq malloc_alloc_def
    by (simp add: Let_def eq [simplified] init_message_def msg_put_def)
qed

theorem itc_alloc_overflows_witness: "itc_alloc 0 (- 1) 7 alloc_example = Inl OutOfBounds"
proof -
  have "17 \<le> max_mallocsize alloc_example" "can_alloc (msgs alloc_example)"
    by (simp_all add: alloc_example_def proc0_def)
  from itc_alloc_overflows [OF alloc_example_state this, of 0 7] show ?thesis by simp
qed

end
