(* ===== verification/Itc_Local.thy ===== *)
theory Itc_Local
  imports Itc_Alloc
begin

text \<open>
  \<open>sw/itc/src/transporters/itc_local.c\<close>: the transport between the threads of one process. Every
  mailbox has a slot in \<open>local_inst.localmbx_data\<close>; a slot in use owns a receive queue, a doubly
  linked list of items that point to messages. The result code is the calling thread's \<open>rc\<close>.
\<close>

unbundle bit_operations_syntax

section \<open>Receive queues\<close>

text \<open>The messages' own queue mark.\<close>

definition mark_inrx :: "nat \<Rightarrow> proc \<Rightarrow> proc outcome" where
  "mark_inrx message s =
     bindE (msg_get OFF_FLAGS (Some message) (msgs s)) (\<lambda>flags.
     bindE (msg_put OFF_FLAGS (flags OR ITC_FLAGS_MSG_INRXQUEUE) (Some message) (msgs s)) (\<lambda>mh.
     Inr (s\<lparr>msgs := mh\<rparr>)))"

definition unmark_inrx :: "nat \<Rightarrow> proc \<Rightarrow> proc outcome" where
  "unmark_inrx message s =
     bindE (msg_get OFF_FLAGS (Some message) (msgs s)) (\<lambda>flags.
     bindE (msg_put OFF_FLAGS (flags AND NOT ITC_FLAGS_MSG_INRXQUEUE) (Some message) (msgs s)) (\<lambda>mh.
     Inr (s\<lparr>msgs := mh\<rparr>)))"

definition create_qitem :: "nat \<Rightarrow> nat \<Rightarrow> proc \<Rightarrow> (ptr \<times> proc) outcome" where
  "create_qitem t message s =
     (case hmalloc \<lparr>next_ptr = None, prev_ptr = None, node_data = message\<rparr> (litems s) of
        (None, h) \<Rightarrow> bindE (rc_or t ITC_SYSCALL_ERROR (s\<lparr>litems := h\<rparr>)) (\<lambda>s. Inr (None, s))
      | (Some p, h) \<Rightarrow> Inr (Some p, s\<lparr>litems := h\<rparr>))"

text \<open>
  \<open>remove_qitem\<close> gets the address of a pointer variable; the model takes its value, and the
  callers store the \<open>NULL\<close>.
\<close>

definition remove_qitem :: "nat \<Rightarrow> ptr \<Rightarrow> proc \<Rightarrow> proc outcome" where
  "remove_qitem t qitem s =
     (if qitem = None then rc_or t ITC_FREE_NULL_PTR s
      else bindE (hfree qitem (litems s)) (\<lambda>h. Inr (s\<lparr>litems := h\<rparr>)))"

definition init_queue :: "nat \<Rightarrow> proc \<Rightarrow> (rxqueue block \<times> proc) outcome" where
  "init_queue t s =
     (case malloc_ok s of
        (False, s) \<Rightarrow> bindE (rc_or t ITC_SYSCALL_ERROR s) (\<lambda>s. Inr (BNull, s))
      | (True, s) \<Rightarrow> Inr (BLive \<lparr>rx_head = None, rx_tail = None, rx_find = None\<rparr>, s))"

definition enqueue_message :: "nat \<Rightarrow> rxqueue \<Rightarrow> nat \<Rightarrow> proc \<Rightarrow> (rxqueue \<times> proc) outcome" where
  "enqueue_message t q message s =
     bindE (create_qitem t message s) (\<lambda>(new_qitem, s).
     bindE (rc_get t s) (\<lambda>rc.
     if rc \<noteq> ITC_OK then Inr (q, s)
     else
       bindE
         (if rx_tail q = None then Inr (q\<lparr>rx_head := new_qitem, rx_tail := new_qitem\<rparr>, s)
          else
            bindE (hupd (rx_tail q) (\<lambda>n. n\<lparr>next_ptr := new_qitem\<rparr>) (litems s)) (\<lambda>h.
            bindE (hupd new_qitem (\<lambda>n. n\<lparr>prev_ptr := rx_tail q\<rparr>) h) (\<lambda>h.
            Inr (q\<lparr>rx_tail := new_qitem\<rparr>, s\<lparr>litems := h\<rparr>))))
         (\<lambda>(q, s).
       bindE (mark_inrx message s) (\<lambda>s. Inr (q, s)))))"

definition dequeue_message :: "nat \<Rightarrow> rxqueue \<Rightarrow> proc \<Rightarrow> (ptr \<times> rxqueue \<times> proc) outcome" where
  "dequeue_message t q s =
     (if rx_head q = None then bindE (rc_or t ITC_QUEUE_EMPTY s) (\<lambda>s. Inr (None, q, s))
      else
        bindE (hread (rx_head q) (litems s)) (\<lambda>item.
        bindE
          (if rx_head q = rx_tail q then
             bindE (remove_qitem t (rx_head q) s) (\<lambda>s.
             Inr (q\<lparr>rx_head := None, rx_tail := None\<rparr>, s))
           else
             bindE (hread (next_ptr item) (litems s)) (\<lambda>second.
             bindE (remove_qitem t (prev_ptr second) s) (\<lambda>s.
             bindE (hupd (next_ptr item) (\<lambda>n. n\<lparr>prev_ptr := None\<rparr>) (litems s)) (\<lambda>h.
             Inr (q\<lparr>rx_head := next_ptr item\<rparr>, s\<lparr>litems := h\<rparr>)))))
          (\<lambda>(q, s).
        bindE (unmark_inrx (node_data item) s) (\<lambda>s.
        Inr (Some (node_data item), q, s)))))"

text \<open>
  The search of \<open>remove_message_fromqueue\<close>: the item that holds the message and the one before
  it. A list without a cycle has at most as many items as were ever allocated.
\<close>

fun find_qitem :: "nat \<Rightarrow> nat \<Rightarrow> ptr \<Rightarrow> ptr \<Rightarrow> lheap \<Rightarrow> (ptr \<times> ptr) outcome" where
  "find_qitem 0 message iter prev h = Inl Diverges"
| "find_qitem (Suc n) message iter prev h =
     (if iter = None then Inr (None, prev)
      else bindE (hread iter h) (\<lambda>item.
           if node_data item = message then Inr (iter, prev)
           else find_qitem n message (next_ptr item) iter h))"

definition remove_message_fromqueue ::
  "nat \<Rightarrow> rxqueue \<Rightarrow> nat \<Rightarrow> proc \<Rightarrow> (ptr \<times> rxqueue \<times> proc) outcome" where
  "remove_message_fromqueue t q message s =
     bindE (find_qitem (Suc (fresh (litems s))) message (rx_head q) None (litems s)) (\<lambda>(iter, prev).
     if iter = None then bindE (rc_or t ITC_QUEUE_EMPTY s) (\<lambda>s. Inr (None, q, s))
     else
       bindE (hread iter (litems s)) (\<lambda>item.
       bindE
         (if iter = rx_head q then
            Inr (if next_ptr item = None then q\<lparr>rx_head := None, rx_tail := None\<rparr>
                 else q\<lparr>rx_head := next_ptr item\<rparr>, s)
          else
            bindE (hupd prev (\<lambda>n. n\<lparr>next_ptr := next_ptr item\<rparr>) (litems s)) (\<lambda>h.
            Inr (if rx_tail q = iter then q\<lparr>rx_tail := prev\<rparr> else q, s\<lparr>litems := h\<rparr>)))
         (\<lambda>(q, s).
       bindE (unmark_inrx (node_data item) s) (\<lambda>s.
       bindE (remove_qitem t iter s) (\<lambda>s.
       Inr (Some (node_data item), q, s))))))"

section \<open>Mailbox slots\<close>

definition lmd_at :: "nat option \<Rightarrow> proc \<Rightarrow> local_mbox_data outcome" where
  "lmd_at d s =
     bindE (bread (localmbx_data (local_inst s))) (\<lambda>ds.
     case d of None \<Rightarrow> Inl NullDeref
     | Some i \<Rightarrow> if i < length ds then Inr (ds ! i) else Inl OutOfBounds)"

definition lmd_upd :: "nat option \<Rightarrow> (local_mbox_data \<Rightarrow> local_mbox_data) \<Rightarrow> proc \<Rightarrow> proc outcome" where
  "lmd_upd d f s =
     bindE (bread (localmbx_data (local_inst s))) (\<lambda>ds.
     case d of None \<Rightarrow> Inl NullDeref
     | Some i \<Rightarrow>
         if i < length ds
         then Inr (s\<lparr>local_inst := (local_inst s)\<lparr>localmbx_data := BLive (ds[i := f (ds ! i)])\<rparr>\<rparr>)
         else Inl OutOfBounds)"

text \<open>The slot of a mailbox identifier, as an index.\<close>

definition find_localmbx_data :: "nat \<Rightarrow> itc_mbox_id \<Rightarrow> proc \<Rightarrow> (nat option \<times> proc) outcome" where
  "find_localmbx_data t mbox_id s =
     (let li = local_inst s in
      if localmbx_data li = BNull then
        bindE (rc_or t ITC_NOT_INIT_YET s) (\<lambda>s. Inr (None, s))
      else if mbox_id AND li_itccoord_mask li \<noteq> li_my_mbox_id_in_itccoord li then
        bindE (rc_or t ITC_NOT_THIS_PROC s) (\<lambda>s. Inr (None, s))
      else if nr_localmbx_datas li \<le> mbox_id AND ITC_MAX_MAILBOXES then
        bindE (rc_or t ITC_OUT_OF_RANGE s) (\<lambda>s. Inr (None, s))
      else Inr (Some (unat (mbox_id AND li_local_mbox_mask li)), s))"

text \<open>
  The loop that discards what is left in a receive queue; each round that does not end it frees
  an item.
\<close>

fun discard_messages :: "nat \<Rightarrow> nat \<Rightarrow> rxqueue \<Rightarrow> proc \<Rightarrow> (rxqueue \<times> proc) outcome" where
  "discard_messages t 0 q s = Inl Diverges"
| "discard_messages t (Suc n) q s =
     bindE (dequeue_message t q s) (\<lambda>(message, q, s).
     if message = None then Inr (q, s)
     else bindE (itc_free t message s) (\<lambda>(freed, s). discard_messages t n q s))"

text \<open>The loop of \<open>release_localmbx_resources\<close> over the slots, then the release of the table.\<close>

fun release_slots :: "nat \<Rightarrow> nat list \<Rightarrow> proc \<Rightarrow> proc outcome" where
  "release_slots t [] s = Inr s"
| "release_slots t (i # is) s =
     bindE (find_localmbx_data t (li_my_mbox_id_in_itccoord (local_inst s) OR of_nat i) s) (\<lambda>(d, s).
     bindE (lmd_at d s) (\<lambda>lmd.
     if lmd_rxq lmd = BNull then release_slots t is s
     else
       bindE (bread (lmd_rxq lmd)) (\<lambda>q.
       bindE (discard_messages t (Suc (fresh (litems s))) q s) (\<lambda>(q, s).
       bindE (lmd_upd d (\<lambda>l. l\<lparr>lmd_rxq := BNull\<rparr>) s) (\<lambda>s.
       release_slots t is s)))))"

definition release_localmbx_resources :: "nat \<Rightarrow> proc \<Rightarrow> proc outcome" where
  "release_localmbx_resources t s =
     bindE (release_slots t [0..<unat (nr_localmbx_datas (local_inst s))] s) (\<lambda>s.
     Inr (s\<lparr>local_inst := local_instance0\<rparr>))"

section \<open>The transport interface\<close>

text \<open>\<open>CLZ\<close>, the compiler's count of leading zero bits; its result is undefined for 0.\<close>

definition clz32 :: "u32 \<Rightarrow> nat" where
  "clz32 w = length (takeWhile (\<lambda>i. \<not> bit w i) (rev [0..<32]))"

definition local_mbox_data0 :: local_mbox_data where
  "local_mbox_data0 = \<lparr>lmd_mbox_id = 0, lmd_flags = 0, lmd_rxq = BNull\<rparr>"

definition local_init ::
  "nat \<Rightarrow> itc_mbox_id \<Rightarrow> itc_mbox_id \<Rightarrow> u32 \<Rightarrow> u32 \<Rightarrow> proc \<Rightarrow> proc outcome" where
  "local_init t my_mbox_id_in_itccoord itccoord_mask nr flags s =
     (if localmbx_data (local_inst s) \<noteq> BNull \<and> flags AND ITC_FLAGS_FORCE_REINIT = 0
      then rc_or t ITC_ALREADY_INIT s
      else
        bindE (if localmbx_data (local_inst s) \<noteq> BNull then release_localmbx_resources t s else Inr s) (\<lambda>s.
        if nr = 0 then Inl Undefined
        else
          let mask = drop_bit (clz32 nr) 0xFFFFFFFF;
              nr_localmb_data = mask + 1;
              s = s\<lparr>local_inst := (local_inst s)\<lparr>li_my_mbox_id_in_itccoord := my_mbox_id_in_itccoord,
                      li_itccoord_mask := itccoord_mask, li_local_mbox_mask := mask\<rparr>\<rparr>
          in (case malloc_ok s of
                (False, s) \<Rightarrow> rc_or t ITC_SYSCALL_ERROR s
              | (True, s) \<Rightarrow>
                  Inr (s\<lparr>local_inst := (local_inst s)
                           \<lparr>localmbx_data := BLive (replicate (unat nr_localmb_data) local_mbox_data0),
                            nr_localmbx_datas := nr_localmb_data\<rparr>\<rparr>))))"

text \<open>
  The loop of \<open>local_exit\<close>: it returns early, with a result code, when a slot cannot be found or
  more mailboxes are open than the framework itself uses; otherwise it comes to its end.
\<close>

fun local_exit_scan :: "nat \<Rightarrow> nat list \<Rightarrow> nat \<Rightarrow> proc \<Rightarrow> (bool \<times> proc) outcome" where
  "local_exit_scan t [] running s = Inr (True, s)"
| "local_exit_scan t (i # is) running s =
     bindE (find_localmbx_data t (li_my_mbox_id_in_itccoord (local_inst s) OR of_nat i) s) (\<lambda>(d, s).
     bindE (rc_get t s) (\<lambda>rc.
     if rc \<noteq> ITC_OK then Inr (False, s)
     else
       bindE (lmd_at d s) (\<lambda>lmd.
       let running = (if lmd_rxq lmd \<noteq> BNull then Suc running else running) in
       if ITC_NR_INTERNAL_USED_MBOXES < running
       then bindE (rc_or t ITC_NOT_DEL_ALL_MBOX s) (\<lambda>s. Inr (False, s))
       else local_exit_scan t is running s)))"

definition local_exit :: "nat \<Rightarrow> proc \<Rightarrow> proc outcome" where
  "local_exit t s =
     (if localmbx_data (local_inst s) = BNull then Inr s
      else
        bindE (local_exit_scan t [0..<unat (nr_localmbx_datas (local_inst s))] 0 s) (\<lambda>(complete, s).
        Inr (if complete then s\<lparr>local_inst := local_instance0\<rparr> else s)))"

definition local_create_mbox :: "nat \<Rightarrow> nat \<Rightarrow> u32 \<Rightarrow> proc \<Rightarrow> proc outcome" where
  "local_create_mbox t mailbox flags s =
     bindE (mbox_at mailbox s) (\<lambda>mb.
     bindE (find_localmbx_data t (mb_id mb) s) (\<lambda>(d, s).
     bindE (rc_get t s) (\<lambda>rc.
     if rc \<noteq> ITC_OK then Inr s
     else
       bindE (lmd_at d s) (\<lambda>lmd.
       if lmd_rxq lmd \<noteq> BNull then rc_or t ITC_ALREADY_USED s
       else
         bindE (init_queue t s) (\<lambda>(rxq, s).
         bindE (lmd_upd d (\<lambda>l. l\<lparr>lmd_rxq := rxq\<rparr>) s) (\<lambda>s.
         bindE (rc_get t s) (\<lambda>rc.
         if rc \<noteq> ITC_OK then Inr s
         else lmd_upd d (\<lambda>l. l\<lparr>lmd_mbox_id := mb_id mb, lmd_flags := mb_flags mb\<rparr>) s)))))))"

definition local_delete_mbox :: "nat \<Rightarrow> nat \<Rightarrow> proc \<Rightarrow> proc outcome" where
  "local_delete_mbox t mailbox s =
     bindE (mbox_at mailbox s) (\<lambda>mb.
     bindE (find_localmbx_data t (mb_id mb) s) (\<lambda>(d, s).
     bindE (rc_get t s) (\<lambda>rc.
     if rc \<noteq> ITC_OK then Inr s
     else
       bindE (lmd_at d s) (\<lambda>lmd.
       if lmd_rxq lmd = BNull then rc_or t ITC_QUEUE_NULL s
       else
         bindE (bread (lmd_rxq lmd)) (\<lambda>q.
         bindE (discard_messages t (Suc (fresh (litems s))) q s) (\<lambda>(q, s).
         bindE (rc_upd t (\<lambda>f. f AND NOT ITC_QUEUE_EMPTY) s) (\<lambda>s.
         lmd_upd d (\<lambda>_. local_mbox_data0) s)))))))"

definition local_send :: "nat \<Rightarrow> nat \<Rightarrow> itc_mbox_id \<Rightarrow> proc \<Rightarrow> proc outcome" where
  "local_send t message to s =
     bindE (find_localmbx_data t to s) (\<lambda>(d, s).
     bindE (rc_get t s) (\<lambda>rc.
     if rc \<noteq> ITC_OK then Inr s
     else
       bindE (lmd_at d s) (\<lambda>lmd.
       if lmd_rxq lmd = BNull then rc_or t ITC_QUEUE_NULL s
       else
         bindE (bread (lmd_rxq lmd)) (\<lambda>q.
         bindE (enqueue_message t q message s) (\<lambda>(q, s).
         lmd_upd d (\<lambda>l. l\<lparr>lmd_rxq := BLive q\<rparr>) s)))))"

definition local_receive :: "nat \<Rightarrow> nat \<Rightarrow> proc \<Rightarrow> (ptr \<times> proc) outcome" where
  "local_receive t my_mbox s =
     bindE (mbox_at my_mbox s) (\<lambda>mb.
     bindE (find_localmbx_data t (mb_id mb) s) (\<lambda>(d, s).
     bindE (rc_get t s) (\<lambda>rc.
     if rc \<noteq> ITC_OK then Inr (None, s)
     else
       bindE (lmd_at d s) (\<lambda>lmd.
       if lmd_rxq lmd = BNull then bindE (rc_or t ITC_QUEUE_NULL s) (\<lambda>s. Inr (None, s))
       else
         bindE (bread (lmd_rxq lmd)) (\<lambda>q.
         bindE (dequeue_message t q s) (\<lambda>(message, q, s).
         bindE (lmd_upd d (\<lambda>l. l\<lparr>lmd_rxq := BLive q\<rparr>) s) (\<lambda>s.
         Inr (message, s))))))))"

definition local_remove :: "nat \<Rightarrow> nat \<Rightarrow> nat \<Rightarrow> proc \<Rightarrow> (ptr \<times> proc) outcome" where
  "local_remove t mbox removed_message s =
     bindE (mbox_at mbox s) (\<lambda>mb.
     bindE (find_localmbx_data t (mb_id mb) s) (\<lambda>(d, s).
     bindE (rc_get t s) (\<lambda>rc.
     if rc \<noteq> ITC_OK then Inr (None, s)
     else
       bindE (lmd_at d s) (\<lambda>lmd.
       if lmd_rxq lmd = BNull then bindE (rc_or t ITC_QUEUE_NULL s) (\<lambda>s. Inr (None, s))
       else
         bindE (bread (lmd_rxq lmd)) (\<lambda>q.
         bindE (remove_message_fromqueue t q removed_message s) (\<lambda>(message, q, s).
         bindE (lmd_upd d (\<lambda>l. l\<lparr>lmd_rxq := BLive q\<rparr>) s) (\<lambda>s.
         Inr (message, s))))))))"

definition local_trans_apis :: transport_apis where
  "local_trans_apis =
     \<lparr>tr_locate = None, tr_init = Some local_init, tr_exit = Some local_exit,
      tr_create = Some local_create_mbox, tr_delete = Some local_delete_mbox,
      tr_send = Some local_send, tr_receive = Some local_receive, tr_remove = Some local_remove,
      tr_maxmsgsize = None\<rparr>"

section \<open>Receive queues as lists\<close>

text \<open>A message whose block is allocated and well formed, and the list that a queue represents.\<close>

definition wf_live :: "proc \<Rightarrow> nat \<Rightarrow> bool" where
  "wf_live s m \<longleftrightarrow> (\<exists>bs. cells (msgs s) m = Some bs \<and> wf_msg bs)"

definition rxrep :: "lheap \<Rightarrow> rxqueue \<Rightarrow> nat list \<Rightarrow> nat list \<Rightarrow> bool" where
  "rxrep h q ps xs \<longleftrightarrow> heap_ok h \<and> dlist (cells h) (rx_head q) (rx_tail q) ps xs"

lemma rxrep_alloc: "rxrep h q ps xs \<Longrightarrow> p \<in> set ps \<Longrightarrow> \<exists>n. cells h p = Some n"
  by (auto simp: rxrep_def dest: dlist_alloc)

lemma rxrep_below_fresh: "rxrep h q ps xs \<Longrightarrow> p \<in> set ps \<Longrightarrow> p < fresh h"
  using rxrep_alloc heap_ok_less rxrep_def by metis

lemma rxrep_fresh: "rxrep h q ps xs \<Longrightarrow> fresh h \<notin> set ps"
  using rxrep_below_fresh by blast

lemma rxrep_length: "rxrep h q ps xs \<Longrightarrow> length ps = length xs"
  by (auto simp: rxrep_def dest: dlist_length)

lemma rxrep_length_le_fresh: "rxrep h q ps xs \<Longrightarrow> length xs \<le> fresh h"
proof -
  assume q: "rxrep h q ps xs"
  then have "set ps \<subseteq> {..<fresh h}" using rxrep_below_fresh by fastforce
  then have "card (set ps) \<le> fresh h" using card_mono [of "{..<fresh h}" "set ps"] by simp
  moreover have "distinct ps" using q by (auto simp: rxrep_def dlist_distinct)
  ultimately show ?thesis using rxrep_length [OF q] by (simp add: distinct_card)
qed

lemma rxrep_frame:
  assumes "rxrep h q ps xs" and "same_outside A h h'" and "A \<inter> set ps = {}" and "heap_ok h'"
  shows "rxrep h' q ps xs"
proof -
  have "\<And>p. p \<in> set ps \<Longrightarrow> cells h p = cells h' p"
    using assms(2,3) by (auto simp: same_outside_def)
  then show ?thesis
    using assms(1,4) dlist_cong [of ps "cells h" "cells h'"] by (simp add: rxrep_def)
qed

lemma wf_msg_20: "wf_msg bs \<Longrightarrow> 4 \<le> length bs"
  using wf_msg_length [of bs] by simp

text \<open>A message's block after its mark is set or cleared; other messages are untouched.\<close>

definition msg_set :: "nat \<Rightarrow> bytes \<Rightarrow> mheap \<Rightarrow> mheap" where
  "msg_set m bs mh = mh\<lparr>cells := (cells mh)(m \<mapsto> bs)\<rparr>"

lemma msg_set_simps [simp]:
  "cells (msg_set m bs mh) = (cells mh)(m \<mapsto> bs)" "fresh (msg_set m bs mh) = fresh mh"
  "malloc_results (msg_set m bs mh) = malloc_results mh"
  by (simp_all add: msg_set_def)

lemma heap_ok_msg_set: "heap_ok mh \<Longrightarrow> cells mh m = Some b \<Longrightarrow> heap_ok (msg_set m bs mh)"
  unfolding msg_set_def by (rule heap_ok_update) (auto dest: heap_ok_less)

lemma mark_inrx_ok:
  "cells (msgs s) m = Some bs \<Longrightarrow> wf_msg bs \<Longrightarrow>
     mark_inrx m s = Inr (s\<lparr>msgs := msg_set m (set_inrx bs) (msgs s)\<rparr>)"
  by (simp add: mark_inrx_def wf_msg_20 set_inrx_def msg_set_def)

lemma unmark_inrx_ok:
  "cells (msgs s) m = Some bs \<Longrightarrow> wf_msg bs \<Longrightarrow>
     unmark_inrx m s = Inr (s\<lparr>msgs := msg_set m (clear_inrx bs) (msgs s)\<rparr>)"
  by (simp add: unmark_inrx_def wf_msg_20 clear_inrx_def msg_set_def)

lemma enqueue_message_spec:
  assumes q: "rxrep (litems s) q ps xs" and alloc: "can_alloc (litems s)" and rc: "rcs s t = BLive 0"
    and m: "cells (msgs s) m = Some bs" "wf_msg bs"
  shows "\<exists>q' h'. enqueue_message t q m s =
             Inr (q', s\<lparr>litems := h', msgs := msg_set m (set_inrx bs) (msgs s)\<rparr>) \<and>
           rxrep h' q' (ps @ [fresh (litems s)]) (xs @ [m]) \<and>
           same_outside (insert (fresh (litems s)) (set ps)) (litems s) h' \<and>
           fresh h' = Suc (fresh (litems s)) \<and> malloc_results h' = tl (malloc_results (litems s))"
proof (cases "rx_tail q")
  case None
  then have "xs = []"
    using q dlist_tl_None by (fastforce simp: rxrep_def)
  then have "xs = []" "ps = []" "rx_head q = None"
    using q by (simp_all add: rxrep_def)
  note empty = this
  let ?h = "litems s" and ?n = "\<lparr>next_ptr = None, prev_ptr = None, node_data = m\<rparr>"
  define h' where "h' = ?h\<lparr>cells := (cells ?h)(fresh ?h \<mapsto> ?n), fresh := Suc (fresh ?h),
      malloc_results := tl (malloc_results ?h)\<rparr>"
  have "mark_inrx m (s\<lparr>litems := h'\<rparr>) = Inr (s\<lparr>litems := h', msgs := msg_set m (set_inrx bs) (msgs s)\<rparr>)"
    using mark_inrx_ok [of "s\<lparr>litems := h'\<rparr>", OF _ m(2)] m(1) by simp
  then have "enqueue_message t q m s =
      Inr (q\<lparr>rx_head := Some (fresh ?h), rx_tail := Some (fresh ?h)\<rparr>,
           s\<lparr>litems := h', msgs := msg_set m (set_inrx bs) (msgs s)\<rparr>)"
    using alloc None rc by (simp add: enqueue_message_def create_qitem_def h'_def)
  moreover have "heap_ok h'" using q by (auto simp: rxrep_def heap_ok_def h'_def)
  moreover have "same_outside (insert (fresh ?h) (set ps)) ?h h'"
    by (auto simp: same_outside_def h'_def)
  moreover have "dlist (cells h') (Some (fresh ?h)) (Some (fresh ?h)) [fresh ?h] [m]"
    by (rule dlist_first [where pv = None]) (simp add: h'_def)
  ultimately show ?thesis using empty by (auto simp: rxrep_def h'_def)
next
  case (Some p)
  let ?h = "litems s"
  have d: "dlist (cells ?h) (rx_head q) (Some p) ps xs" using q Some by (simp add: rxrep_def)
  then obtain n where n: "cells ?h p = Some n" and p: "p \<in> set ps"
    using dlist_last_node by fastforce
  have fr: "fresh ?h \<notin> set ps" by (rule rxrep_fresh [OF q])
  with p have ne: "fresh ?h \<noteq> p" by auto
  have p_less: "p < fresh ?h" using rxrep_below_fresh [OF q p] .
  note d' = dlist_snoc [OF d n fr, of m]
  have tw: "(cells ?h)(fresh ?h \<mapsto> a, p \<mapsto> n', fresh ?h \<mapsto> b) = (cells ?h)(p \<mapsto> n', fresh ?h \<mapsto> b)" for a b n'
    using ne by (auto simp: fun_eq_iff)
  define h' where "h' = ?h\<lparr>fresh := Suc (fresh ?h), malloc_results := tl (malloc_results ?h),
      cells := (cells ?h)(p \<mapsto> n\<lparr>next_ptr := Some (fresh ?h)\<rparr>,
        fresh ?h \<mapsto> \<lparr>next_ptr = None, prev_ptr = Some p, node_data = m\<rparr>)\<rparr>"
  have "mark_inrx m (s\<lparr>litems := h'\<rparr>) = Inr (s\<lparr>litems := h', msgs := msg_set m (set_inrx bs) (msgs s)\<rparr>)"
    using mark_inrx_ok [of "s\<lparr>litems := h'\<rparr>", OF _ m(2)] m(1) by simp
  then have "enqueue_message t q m s = Inr (q\<lparr>rx_tail := Some (fresh ?h)\<rparr>,
      s\<lparr>litems := h', msgs := msg_set m (set_inrx bs) (msgs s)\<rparr>)"
    using alloc Some n ne rc by (simp add: enqueue_message_def create_qitem_def tw h'_def)
  moreover have "heap_ok h'" using q p_less by (auto simp: rxrep_def heap_ok_def h'_def)
  moreover have "same_outside (insert (fresh ?h) (set ps)) ?h h'"
    using p by (auto simp: same_outside_def h'_def)
  ultimately show ?thesis using d' by (auto simp: rxrep_def h'_def)
qed

lemma dequeue_message_empty:
  "rxrep (litems s) q ps [] \<Longrightarrow> rcs s t = BLive w \<Longrightarrow>
     dequeue_message t q s = Inr (None, q, s\<lparr>rcs := (rcs s)(t := BLive (w OR ITC_QUEUE_EMPTY))\<rparr>)"
  by (auto simp: dequeue_message_def rxrep_def)

lemma dequeue_message_spec:
  assumes q: "rxrep (litems s) q ps (m # xs)" and m: "cells (msgs s) m = Some bs" "wf_msg bs"
  shows "\<exists>q' h'. dequeue_message t q s =
             Inr (Some m, q', s\<lparr>litems := h', msgs := msg_set m (clear_inrx bs) (msgs s)\<rparr>) \<and>
           rxrep h' q' (tl ps) xs \<and> same_outside (set ps) (litems s) h' \<and> cells h' (hd ps) = None \<and>
           fresh h' = fresh (litems s) \<and> malloc_results h' = malloc_results (litems s)"
proof -
  let ?h = "litems s"
  have d: "dlist (cells ?h) (rx_head q) (rx_tail q) ps (m # xs)" using q by (simp add: rxrep_def)
  obtain p where p: "rx_head q = Some p"
    using dlist_hd_None [OF d] by (cases "rx_head q") auto
  then obtain n qs where n: "ps = p # qs" "cells ?h p = Some n" "node_data n = m"
    using dlist_Cons_node [of "cells ?h" p "rx_tail q" ps m xs] d by auto
  show ?thesis
  proof (cases "rx_head q = rx_tail q")
    case True
    then have "ps = [p]" "xs = []"
      using dlist_single [of "cells ?h" p ps "m # xs"] d p by auto
    then show ?thesis
      using True [symmetric] p n q m
      by (auto simp: dequeue_message_def remove_qitem_def rxrep_def same_outside_def unmark_inrx_ok)
  next
    case False
    obtain u where u: "rx_tail q = Some u"
      using dlist_tl_None [OF d] by (cases "rx_tail q") auto
    obtain r rs y ys k where r: "ps = p # r # rs" "xs = y # ys" "cells ?h r = Some k"
      "next_ptr n = Some r" "k = \<lparr>next_ptr = hdp None rs, prev_ptr = Some p, node_data = y\<rparr>"
      using dlist_two_nodes [of "cells ?h" p u ps "m # xs"] d p u False n by auto
    have ne: "p \<noteq> r" using d r by (auto simp: dlist_def)
    have "dlist ((cells ?h)(p := None, r \<mapsto> \<lparr>next_ptr = hdp None rs, prev_ptr = None, node_data = y\<rparr>))
                (Some r) (Some u) (r # rs) (y # ys)"
      using dlist_tail [of "cells ?h" p "Some u" r rs m y ys None] d p u r by simp
    moreover have "r < fresh ?h" using rxrep_below_fresh [OF q, of r] r by simp
    ultimately show ?thesis
      using False p n q r u ne m
      by (auto simp: dequeue_message_def remove_qitem_def rxrep_def same_outside_def heap_ok_def
          unmark_inrx_ok)
  qed
qed

section \<open>Receive queues implement the FIFO contract\<close>

text \<open>
  As for every operation of \<open>itc.c\<close>, the thread's result code is reset before the transport is
  called.
\<close>

definition rx_enq :: "nat \<Rightarrow> nat \<Rightarrow> rxqueue \<times> proc \<Rightarrow> (rxqueue \<times> proc) outcome" where
  "rx_enq t m qs = bindE (rc_set t ITC_OK (snd qs)) (\<lambda>s. enqueue_message t (fst qs) m s)"

definition rx_deq :: "nat \<Rightarrow> rxqueue \<times> proc \<Rightarrow> (nat option \<times> (rxqueue \<times> proc)) outcome" where
  "rx_deq t qs = bindE (rc_set t ITC_OK (snd qs)) (\<lambda>s. dequeue_message t (fst qs) s)"

definition rx_content :: "nat \<Rightarrow> rxqueue \<times> proc \<Rightarrow> nat list \<Rightarrow> bool" where
  "rx_content t qs xs \<longleftrightarrow>
     (\<exists>ps. rxrep (litems (snd qs)) (fst qs) ps xs) \<and> (\<forall>m \<in> set xs. wf_live (snd qs) m) \<and>
     (\<exists>w. rcs (snd qs) t = BLive w)"

definition rx_room :: "nat \<Rightarrow> rxqueue \<times> proc \<Rightarrow> bool" where
  "rx_room n qs \<longleftrightarrow> list_all (\<lambda>b. b) (take n (malloc_results (litems (snd qs))))"

lemma wf_live_msg_set:
  "wf_live s m \<Longrightarrow> wf_msg bs \<Longrightarrow> wf_live (s\<lparr>litems := h, msgs := msg_set x bs (msgs s)\<rparr>) m"
  by (auto simp: wf_live_def)

lemma wf_live_rcs [simp]: "wf_live (s\<lparr>rcs := r\<rparr>) m = wf_live s m"
  by (simp add: wf_live_def)

lemma rx_room_can_alloc: "rx_room (Suc n) (q, s) \<Longrightarrow> can_alloc (litems s)"
  by (cases "malloc_results (litems s)") (auto simp: rx_room_def can_alloc_def)

interpretation rxq: fifo "rx_enq t" "rx_deq t" "rx_content t" rx_room "\<lambda>qs. wf_live (snd qs)"
  for t
proof (unfold_locales, goal_cases)
  case (1 qs xs n m)
  obtain q s where s: "qs = (q, s)" by (cases qs)
  obtain ps w where q: "rxrep (litems s) q ps xs" "rcs s t = BLive w" "\<forall>m \<in> set xs. wf_live s m"
    using 1(1) by (auto simp: rx_content_def s)
  obtain bs where bs: "cells (msgs s) m = Some bs" "wf_msg bs" using 1(3) by (auto simp: wf_live_def s)
  define s0 where "s0 = s\<lparr>rcs := (rcs s)(t := BLive 0)\<rparr>"
  have ca: "can_alloc (litems s0)" using 1(2) rx_room_can_alloc by (simp add: s s0_def)
  obtain q' h' where e: "enqueue_message t q m s0 =
        Inr (q', s0\<lparr>litems := h', msgs := msg_set m (set_inrx bs) (msgs s0)\<rparr>)"
      "rxrep h' q' (ps @ [fresh (litems s0)]) (xs @ [m])"
      "malloc_results h' = tl (malloc_results (litems s0))"
    using enqueue_message_spec [of s0 q ps xs t m bs] q bs ca by (auto simp: s0_def)
  define s' where "s' = s0\<lparr>litems := h', msgs := msg_set m (set_inrx bs) (msgs s0)\<rparr>"
  have wf: "wf_live s y \<Longrightarrow> wf_live s' y" for y
    using wf_live_msg_set [of s0 y] bs by (simp add: s'_def s0_def)
  have "rx_enq t m qs = Inr (q', s')" using q e by (simp add: rx_enq_def s s0_def s'_def)
  moreover have "rx_content t (q', s') (xs @ [m])"
    using e(2) q wf 1(3) by (auto simp: rx_content_def s'_def s0_def s)
  moreover have "rx_room n (q', s')"
    using 1(2) e(3) by (auto simp: rx_room_def s s'_def s0_def intro: take_tl_all)
  ultimately show ?case using wf s by auto
next
  case (2 qs m xs n)
  obtain q s where s: "qs = (q, s)" by (cases qs)
  obtain ps w where q: "rxrep (litems s) q ps (m # xs)" "rcs s t = BLive w"
      "\<forall>m \<in> set (m # xs). wf_live s m"
    using 2(1) by (auto simp: rx_content_def s)
  obtain bs where bs: "cells (msgs s) m = Some bs" "wf_msg bs" using q(3) by (auto simp: wf_live_def s)
  define s0 where "s0 = s\<lparr>rcs := (rcs s)(t := BLive 0)\<rparr>"
  obtain q' h' where e: "dequeue_message t q s0 =
        Inr (Some m, q', s0\<lparr>litems := h', msgs := msg_set m (clear_inrx bs) (msgs s0)\<rparr>)"
      "rxrep h' q' (tl ps) xs" "malloc_results h' = malloc_results (litems s0)"
    using dequeue_message_spec [of s0 q ps m xs bs t] q bs by (auto simp: s0_def)
  define s' where "s' = s0\<lparr>litems := h', msgs := msg_set m (clear_inrx bs) (msgs s0)\<rparr>"
  have wf: "wf_live s y \<Longrightarrow> wf_live s' y" for y
    using wf_live_msg_set [of s0 y] bs by (simp add: s'_def s0_def)
  have "rx_deq t qs = Inr (Some m, q', s')" using q e by (simp add: rx_deq_def s s0_def s'_def)
  moreover have "rx_content t (q', s') xs"
    using e(2) q wf by (auto simp: rx_content_def s'_def s0_def s)
  moreover have "rx_room n (q', s')" using 2(2) e(3) by (simp add: rx_room_def s s'_def s0_def)
  ultimately show ?case using wf s by auto
next
  case (3 qs n)
  obtain q s where s: "qs = (q, s)" by (cases qs)
  obtain ps w where q: "rxrep (litems s) q ps []" "rcs s t = BLive w"
    using 3(1) by (auto simp: rx_content_def s)
  then show ?case
    using dequeue_message_empty [of "s\<lparr>rcs := (rcs s)(t := BLive 0)\<rparr>" q ps t 0] 3(2)
    by (auto simp: rx_deq_def s rx_content_def rx_room_def)
qed

section \<open>Identifiers and slots\<close>

text \<open>The part of an identifier that selects a slot, and the configuration \<open>local_init\<close> sets up.\<close>

definition local_index :: "itc_mbox_id \<Rightarrow> nat" where
  "local_index i = unat i mod 65536"

definition local_cfg :: "proc \<Rightarrow> nat \<Rightarrow> bool" where
  "local_cfg s k \<longleftrightarrow> 1 \<le> k \<and> k \<le> 16 \<and> nr_localmbx_datas (local_inst s) = 2 ^ k \<and>
     li_local_mbox_mask (local_inst s) = mask k \<and>
     (\<exists>ds. localmbx_data (local_inst s) = BLive ds \<and> length ds = 2 ^ k)"

definition is_local :: "itc_mbox_id \<Rightarrow> proc \<Rightarrow> bool" where
  "is_local i s \<longleftrightarrow> i AND li_itccoord_mask (local_inst s) = li_my_mbox_id_in_itccoord (local_inst s)"

lemma and_65534: "n AND 65534 = 2 * ((n mod 65536) div 2)" for n :: nat
proof -
  have e: "(65534::nat) = push_bit 1 (mask 15)" by (simp add: mask_eq_exp_minus_1 push_bit_eq_mult)
  have "n AND 65534 = push_bit 1 (drop_bit 1 (take_bit 16 n))"
    unfolding e by (rule bit_eqI)
      (auto simp only: bit_and_iff bit_push_bit_iff bit_mask_iff bit_drop_bit_eq bit_take_bit_iff o_apply
        possible_bit_nat le_add_diff_inverse)
  then show ?thesis by (simp add: push_bit_eq_mult drop_bit_eq_div take_bit_eq_mod)
qed

lemma unat_two_power: "k < 32 \<Longrightarrow> unat (2 ^ k :: u32) = 2 ^ k"
  using unat_of_nat_small [of "2 ^ k", where 'a = 32] power_strict_increasing [of k 32 "2::nat"] by simp

lemma range_check:
  fixes i :: u32
  assumes "1 \<le> k" and "k \<le> 16"
  shows "2 ^ k \<le> i AND 65534 \<longleftrightarrow> \<not> local_index i < 2 ^ k"
proof -
  have "unat (i AND 65534) = unat i AND 65534" by (simp add: unsigned_and_eq)
  also have "\<dots> = 2 * ((unat i mod 65536) div 2)" by (rule and_65534)
  finally have u: "unat (i AND 65534) = 2 * (local_index i div 2)" by (simp add: local_index_def)
  obtain j where j: "k = Suc j" using assms(1) by (cases k) auto
  have "2 ^ k \<le> i AND 65534 \<longleftrightarrow> 2 ^ k \<le> 2 * (local_index i div 2)"
    using assms(2) u by (simp add: word_le_nat_alt unat_two_power)
  also have "\<dots> \<longleftrightarrow> \<not> local_index i < 2 ^ k" unfolding j by simp linarith
  finally show ?thesis .
qed

lemma slot_of_index:
  fixes i :: u32
  assumes "k \<le> 16" and "local_index i < 2 ^ k"
  shows "unat (i AND mask k) = local_index i"
proof -
  have d: "(2::nat) ^ k dvd 65536" using assms(1) le_imp_power_dvd [of k 16 2] by simp
  have "unat (i AND mask k) = unat i mod 2 ^ k"
    by (simp only: unsigned_take_bit_eq flip: take_bit_eq_mask) (simp only: take_bit_eq_mod)
  also have "\<dots> = local_index i mod 2 ^ k" using d by (simp add: local_index_def mod_mod_cancel)
  finally show ?thesis using assms(2) by simp
qed

lemma find_localmbx_data_eq:
  assumes "local_cfg s k" and "rcs s t = BLive w"
  shows "find_localmbx_data t i s =
     (if \<not> is_local i s then Inr (None, s\<lparr>rcs := (rcs s)(t := BLive (w OR ITC_NOT_THIS_PROC))\<rparr>)
      else if local_index i < 2 ^ k then Inr (Some (local_index i), s)
      else Inr (None, s\<lparr>rcs := (rcs s)(t := BLive (w OR ITC_OUT_OF_RANGE))\<rparr>))"
proof -
  have k: "1 \<le> k" "k \<le> 16" "nr_localmbx_datas (local_inst s) = 2 ^ k"
    "li_local_mbox_mask (local_inst s) = mask k" "localmbx_data (local_inst s) \<noteq> BNull"
    using assms(1) by (auto simp: local_cfg_def)
  then show ?thesis
    using assms(2) range_check [OF k(1,2), of i] slot_of_index [OF k(2), of i]
    by (simp add: find_localmbx_data_def is_local_def Let_def)
qed

text \<open>\<open>local_init\<close> sets such a configuration up, with room for the mailboxes asked for.\<close>

lemma drop_bit_mask_u32: "m \<le> 32 \<Longrightarrow> drop_bit n (mask m :: u32) = mask (m - n)"
  by (rule bit_word_eqI) (auto simp: bit_drop_bit_eq bit_mask_iff)

lemma takeWhile_rev_upt:
  assumes "\<exists>i < n. P i" and "c = length (takeWhile (\<lambda>i. \<not> P i) (rev [0..<n]))"
  shows "c < n" "P (n - 1 - c)" "\<And>i. n - c \<le> i \<Longrightarrow> i < n \<Longrightarrow> \<not> P i"
proof -
  define xs where "xs = rev [0..<n]"
  have nth: "j < n \<Longrightarrow> xs ! j = n - 1 - j" for j by (simp add: xs_def rev_nth)
  have len: "length xs = n" and set: "set xs = {..<n}" unfolding xs_def by auto
  have cl: "c = length (takeWhile (\<lambda>i. \<not> P i) xs)" using assms(2) by (simp only: xs_def)
  have less: "length (takeWhile (\<lambda>i. \<not> P i) xs) < length xs"
  proof (rule ccontr)
    assume "\<not> ?thesis"
    then have "takeWhile (\<lambda>i. \<not> P i) xs = xs"
      using takeWhile_eq_take [of "\<lambda>i. \<not> P i" xs] take_all [of xs] by (metis linorder_not_less)
    then have "\<forall>i \<in> set xs. \<not> P i" by (simp only: takeWhile_eq_all_conv)
    then show False using assms(1) by (auto simp: set)
  qed
  then show c: "c < n" by (simp add: cl len)
  show "P (n - 1 - c)" using nth_length_takeWhile [OF less] nth [of c] c by (simp add: cl)
  fix i assume i: "n - c \<le> i" "i < n"
  then have l: "n - 1 - i < length (takeWhile (\<lambda>i. \<not> P i) xs)" using c unfolding cl [symmetric] by arith
  then have "takeWhile (\<lambda>i. \<not> P i) xs ! (n - 1 - i) = xs ! (n - 1 - i)" by (rule takeWhile_nth)
  moreover have "xs ! (n - 1 - i) = i" using i nth by simp
  ultimately have "i \<in> set (takeWhile (\<lambda>i. \<not> P i) xs)" using nth_mem [OF l] by (simp only:)
  then show "\<not> P i" by (blast dest: set_takeWhileD)
qed

lemma clz32_bits:
  assumes "w \<noteq> 0"
  shows "clz32 w < 32" "bit w (31 - clz32 w)" "\<And>i. 32 - clz32 w \<le> i \<Longrightarrow> \<not> bit w i"
proof -
  obtain n where n: "bit w n" using assms by (auto simp: bit_eq_iff)
  then have "\<exists>n < 32. bit w n" using bit_imp_le_length [of w n] by auto
  note t = takeWhile_rev_upt [of 32 "bit w" "clz32 w", OF this clz32_def]
  show "clz32 w < 32" "bit w (31 - clz32 w)" using t(1,2) by simp_all
  fix i assume "32 - clz32 w \<le> i"
  then show "\<not> bit w i" using t(3) bit_imp_le_length [of w i] by (cases "i < 32") auto
qed

lemma local_mask:
  assumes "w \<noteq> 0" and "w < 65536"
  obtains k where "1 \<le> k" "k \<le> 16" "drop_bit (clz32 w) (0xFFFFFFFF :: u32) = mask k" "unat w < 2 ^ k"
proof -
  let ?k = "32 - clz32 w"
  note b = clz32_bits [OF assms(1)]
  have "\<And>n. bit w n \<Longrightarrow> n < ?k" using b(3) by (metis not_le)
  then have "take_bit ?k w = w" by (intro bit_eqI) (auto simp: bit_take_bit_iff)
  then have w: "unat w < 2 ^ ?k"
    by (metis take_bit_nat_less_exp unsigned_take_bit_eq)
  have "(0xFFFFFFFF :: u32) = mask 32" by (simp add: mask_eq_exp_minus_1)
  then have m: "drop_bit (clz32 w) (0xFFFFFFFF :: u32) = mask ?k"
    by (simp only: drop_bit_mask_u32 order_refl)
  have "31 - clz32 w < 16"
  proof (rule ccontr)
    assume "\<not> ?thesis"
    then have "(2::nat) ^ 16 \<le> 2 ^ (31 - clz32 w)" by (intro power_increasing) auto
    moreover have "unat w < 65536" using assms(2) by (simp add: word_less_nat_alt)
    ultimately have "unat w div 2 ^ (31 - clz32 w) = 0" by simp
    moreover have "bit (unat w) (31 - clz32 w)" using b(2) by (simp add: bit_unsigned_iff)
    ultimately show False by (simp add: bit_iff_odd)
  qed
  then show thesis using that [of ?k] b(1) m w by simp
qed

section \<open>Removing a message from the middle of a queue\<close>

lemma find_qitem_seg:
  assumes "dseg (cells h) pv None ps xs" and "length ps < fuel" and "xs = ys @ m # zs" and "m \<notin> set ys"
    and "ps = as @ p # bs" and "length as = length ys"
  shows "find_qitem fuel m (hdp None ps) pr h = Inr (Some p, lastp pr as)"
  using assms
proof (induction ys arbitrary: fuel pv xs ps as pr)
  case Nil
  then show ?case by (cases fuel) auto
next
  case (Cons y ys)
  then obtain n where fuel: "fuel = Suc n" by (cases fuel) auto
  from Cons.prems obtain a as' where as: "as = a # as'" "length as' = length ys" by (cases as) auto
  have seg: "dseg (cells h) (Some a) None (as' @ p # bs) (ys @ m # zs)"
    "cells h a = Some \<lparr>next_ptr = hdp None (as' @ p # bs), prev_ptr = pv, node_data = y\<rparr>"
    using Cons.prems as by auto
  have "find_qitem n m (hdp None (as' @ p # bs)) (Some a) h = Inr (Some p, lastp (Some a) as')"
    using Cons.IH [OF seg(1), of n as' "Some a"] Cons.prems fuel as by auto
  then show ?case using Cons.prems as fuel seg(2) by auto
qed

lemma find_qitem_rep:
  assumes "rxrep h q (as @ p # bs) (ys @ m # zs)" and "length as = length ys" and "m \<notin> set ys"
  shows "find_qitem (Suc (fresh h)) m (rx_head q) None h = Inr (Some p, lastp None as)"
proof -
  obtain pv where "dseg (cells h) pv None (as @ p # bs) (ys @ m # zs)"
      "rx_head q = hdp None (as @ p # bs)"
    using assms(1) by (auto simp: rxrep_def dlist_def)
  moreover have "length (as @ p # bs) < Suc (fresh h)"
    using rxrep_length [OF assms(1)] rxrep_length_le_fresh [OF assms(1)] by simp
  ultimately show ?thesis using find_qitem_seg assms(2,3) by metis
qed

lemma remove_first_spec:
  assumes q: "rxrep (litems s) q (p # ps) (m # xs)" and m: "cells (msgs s) m = Some bs" "wf_msg bs"
  shows "\<exists>q' h'. remove_message_fromqueue t q m s =
             Inr (Some m, q', s\<lparr>msgs := msg_set m (clear_inrx bs) (msgs s), litems := h'\<rparr>) \<and>
           rxrep h' q' ps xs \<and> same_outside {p} (litems s) h' \<and> cells h' p = None"
proof -
  let ?h = "litems s"
  have d: "dlist (cells ?h) (rx_head q) (rx_tail q) (p # ps) (m # xs)" and ok: "heap_ok ?h"
    using q by (simp_all add: rxrep_def)
  then have hd: "rx_head q = Some p" by (simp add: dlist_def)
  obtain n where n: "cells ?h p = Some n" "next_ptr n = hdp None ps" "node_data n = m"
    using d by (auto simp: dlist_def)
  have u: "unmark_inrx m s = Inr (s\<lparr>msgs := msg_set m (clear_inrx bs) (msgs s)\<rparr>)"
    by (rule unmark_inrx_ok [OF m])
  have f: "find_qitem (Suc (fresh ?h)) m (Some p) None ?h = Inr (Some p, None)"
    using n by simp
  have rest: "dlist ((cells ?h)(p := None)) (hdp None ps) (if ps = [] then None else rx_tail q) ps xs"
    using d by (auto simp: dlist_def lastp_def)
  show ?thesis
    using n hd f u rest ok
    by (cases ps)
      (auto simp: remove_message_fromqueue_def remove_qitem_def rxrep_def same_outside_def simp del: find_qitem.simps)
qed

lemma remove_last_spec:
  assumes q: "rxrep (litems s) q (as @ [a] @ [p]) (ys @ [y] @ [m])" and len: "length as = length ys"
    and first: "m \<notin> set (ys @ [y])" and m: "cells (msgs s) m = Some bs" "wf_msg bs"
  shows "\<exists>q' h'. remove_message_fromqueue t q m s =
             Inr (Some m, q', s\<lparr>litems := h', msgs := msg_set m (clear_inrx bs) (msgs s)\<rparr>) \<and>
           rxrep h' q' (as @ [a]) (ys @ [y]) \<and> same_outside {a, p} (litems s) h' \<and> cells h' p = None"
proof -
  let ?h = "litems s"
  have d: "dlist (cells ?h) (rx_head q) (rx_tail q) (as @ [a] @ [p]) (ys @ [y] @ [m])" and ok: "heap_ok ?h"
    using q by (simp_all add: rxrep_def)
  then have dist: "distinct (as @ [a] @ [p])" and hd: "rx_head q = hdp None (as @ [a] @ [p])"
    and tl: "rx_tail q = Some p" by (auto simp: dlist_def)
  have ne: "rx_head q \<noteq> Some p" using dist hd by (cases as) auto
  obtain na np where na: "cells ?h a = Some na" and np: "cells ?h p = Some np" "next_ptr np = None" "node_data np = m"
    using d len by (auto simp: dlist_def dseg_append)
  have f: "find_qitem (Suc (fresh ?h)) m (rx_head q) None ?h = Inr (Some p, Some a)"
    using find_qitem_rep [of ?h q "as @ [a]" p "[]" "ys @ [y]" m "[]"] q len first by simp
  have d': "dlist ((cells ?h)(a \<mapsto> na\<lparr>next_ptr := None\<rparr>, p := None)) (rx_head q) (Some a) (as @ [a]) (ys @ [y])"
    by (rule dlist_remove_last [OF d len na])
  have less: "a < fresh ?h" "p < fresh ?h" using rxrep_below_fresh [OF q] by simp_all
  have ap: "a \<noteq> p" using dist by auto
  have u: "unmark_inrx m (s\<lparr>litems := h\<rparr>) = Inr (s\<lparr>litems := h, msgs := msg_set m (clear_inrx bs) (msgs s)\<rparr>)" for h
    using unmark_inrx_ok [of "s\<lparr>litems := h\<rparr>", OF _ m(2)] m(1) by simp
  define h1 where "h1 = ?h\<lparr>cells := (cells ?h)(a \<mapsto> na\<lparr>next_ptr := None\<rparr>)\<rparr>"
  define h' where "h' = ?h\<lparr>cells := (cells ?h)(a \<mapsto> na\<lparr>next_ptr := None\<rparr>, p := None)\<rparr>"
  have "hfree (Some p) h1 = Inr h'" using np ap by (simp add: h1_def h'_def)
  then have "remove_message_fromqueue t q m s = Inr (Some m, q\<lparr>rx_tail := Some a\<rparr>,
      s\<lparr>litems := h', msgs := msg_set m (clear_inrx bs) (msgs s)\<rparr>)"
    using f na np ne tl u [of h1]
    by (simp add: remove_message_fromqueue_def remove_qitem_def h1_def del: find_qitem.simps)
  moreover have "heap_ok h'" using ok less by (auto simp: heap_ok_def h'_def)
  moreover have "same_outside {a, p} ?h h'" by (simp add: same_outside_def h'_def)
  ultimately show ?thesis using d' by (auto simp: rxrep_def h'_def)
qed

lemma remove_middle_spec:
  assumes q: "rxrep (litems s) q (a # p # b # bs) (x # m # y # ys)" and ne: "m \<noteq> x"
    and m: "cells (msgs s) m = Some bm" "wf_msg bm"
  shows "\<exists>s'. remove_message_fromqueue t q m s = Inr (Some m, q, s') \<and>
           dequeue_message t q s' = Inl DoubleFree"
proof -
  let ?h = "litems s"
  have d: "dlist (cells ?h) (rx_head q) (rx_tail q) (a # p # b # bs) (x # m # y # ys)"
    using q by (simp add: rxrep_def)
  then obtain pv where c: "cells ?h a = Some \<lparr>next_ptr = Some p, prev_ptr = pv, node_data = x\<rparr>"
      "cells ?h p = Some \<lparr>next_ptr = Some b, prev_ptr = Some a, node_data = m\<rparr>"
      "cells ?h b = Some \<lparr>next_ptr = hdp None bs, prev_ptr = Some p, node_data = y\<rparr>"
      "rx_head q = Some a" "rx_tail q = lastp (Some b) bs" "a \<noteq> p" "a \<noteq> b" "p \<noteq> b" "distinct (a # p # b # bs)"
    by (auto simp: dlist_def)
  then have tl: "rx_tail q \<noteq> Some a" "rx_tail q \<noteq> Some p"
    by (cases bs rule: rev_cases; auto)+
  have f: "find_qitem (Suc (fresh ?h)) m (rx_head q) None ?h = Inr (Some p, Some a)"
    using find_qitem_rep [of ?h q "[a]" p "b # bs" "[x]" m "y # ys"] q ne by simp
  define h1 where "h1 = ?h\<lparr>cells := (cells ?h)(a \<mapsto> \<lparr>next_ptr = Some b, prev_ptr = pv, node_data = x\<rparr>)\<rparr>"
  define h2 where "h2 = ?h\<lparr>cells := (cells ?h)(a \<mapsto> \<lparr>next_ptr = Some b, prev_ptr = pv, node_data = x\<rparr>, p := None)\<rparr>"
  define s' where "s' = s\<lparr>litems := h2, msgs := msg_set m (clear_inrx bm) (msgs s)\<rparr>"
  have u: "unmark_inrx m (s\<lparr>litems := h1\<rparr>) = Inr (s\<lparr>litems := h1, msgs := msg_set m (clear_inrx bm) (msgs s)\<rparr>)"
    using unmark_inrx_ok [of "s\<lparr>litems := h1\<rparr>", OF _ m(2)] m(1) by simp
  have "hfree (Some p) h1 = Inr h2" using c by (simp add: h1_def h2_def)
  then have "remove_message_fromqueue t q m s = Inr (Some m, q, s')"
    using f c tl u
    by (simp add: remove_message_fromqueue_def remove_qitem_def s'_def h1_def del: find_qitem.simps)
  moreover have "dequeue_message t q s' = Inl DoubleFree"
    using c tl by (simp add: dequeue_message_def remove_qitem_def s'_def h2_def)
  ultimately show ?thesis by blast
qed

end
