(* ===== verification/Itc_Threads.thy ===== *)
theory Itc_Threads
  imports Itc_Process
begin

text \<open>
  \<open>sw/itc/src/helpers/itc_threadmanager.c\<close>: the list of the framework's own threads. Adding a
  thread puts a node in front of the list; starting walks from the front to the first node that
  already runs; terminating cancels and joins the running threads and releases their nodes.

  What a created thread executes until it releases its start mutex is the parameter \<open>boot\<close>, and
  what its destructors execute when it is cancelled the parameter \<open>dtor\<close>; both get the worker and
  the identifier of the thread. The list mutex is held during the whole of each operation.
\<close>

unbundle bit_operations_syntax

section \<open>Scheduling parameters\<close>

definition SCHED_OTHER :: int where [simp]: "SCHED_OTHER = 0"
definition SCHED_FIFO :: int where [simp]: "SCHED_FIFO = 1"
definition SCHED_RR :: int where [simp]: "SCHED_RR = 2"

text \<open>The limits that Linux reports for its policies; -1 signals an unknown policy.\<close>

definition sched_get_priority_max :: "int \<Rightarrow> int" where
  "sched_get_priority_max policy =
     (if policy = SCHED_FIFO \<or> policy = SCHED_RR then 99
      else if policy \<in> {SCHED_OTHER, 3, 5, 6} then 0 else -1)"

definition sched_get_priority_min :: "int \<Rightarrow> int" where
  "sched_get_priority_min policy =
     (if policy = SCHED_FIFO \<or> policy = SCHED_RR then 1
      else if policy \<in> {SCHED_OTHER, 3, 5, 6} then 0 else -1)"

definition check_sched_params :: "nat \<Rightarrow> int \<Rightarrow> int \<Rightarrow> int \<Rightarrow> proc \<Rightarrow> proc outcome" where
  "check_sched_params t policy selflimit_prio priority s =
     (let max_prio = sched_get_priority_max policy; min_prio = sched_get_priority_min policy in
      if priority < min_prio \<or> max_prio < priority \<or> selflimit_prio < min_prio \<or> max_prio < selflimit_prio
      then rc_or t ITC_INVALID_ARGUMENTS s
      else Inr s)"

definition set_sched_params :: "nat \<Rightarrow> int \<Rightarrow> int \<Rightarrow> int \<Rightarrow> proc \<Rightarrow> proc outcome" where
  "set_sched_params t policy selflimit_prio priority s =
     (if policy = SCHED_OTHER then
        Inr (s\<lparr>thrman_inst := (thrman_inst s)
                 \<lparr>m_sched_policy := SCHED_OTHER,
                  m_sched_selflimit_prio := sched_get_priority_max SCHED_OTHER,
                  m_sched_priority := sched_get_priority_min SCHED_OTHER\<rparr>\<rparr>)
      else
        bindE (check_sched_params t policy selflimit_prio priority s) (\<lambda>s.
        bindE (rc_get t s) (\<lambda>rc.
        if rc \<noteq> ITC_OK then Inr s
        else
          Inr (s\<lparr>thrman_inst := (thrman_inst s)
                   \<lparr>m_sched_policy := policy, m_sched_selflimit_prio := selflimit_prio,
                    m_sched_priority := (if selflimit_prio < priority then selflimit_prio else priority)\<rparr>\<rparr>))))"

section \<open>The list of threads\<close>

definition th_heap_set :: "itc_thread heap \<Rightarrow> proc \<Rightarrow> proc" where
  "th_heap_set h s = s\<lparr>thrman_inst := (thrman_inst s)\<lparr>th_heap := h\<rparr>\<rparr>"

definition th_upd :: "ptr \<Rightarrow> (itc_thread \<Rightarrow> itc_thread) \<Rightarrow> proc \<Rightarrow> proc outcome" where
  "th_upd thr f s = bindE (hupd thr f (th_heap (thrman_inst s))) (\<lambda>h. Inr (th_heap_set h s))"

definition add_itcthread :: "nat \<Rightarrow> nat \<Rightarrow> bool \<Rightarrow> ptr \<Rightarrow> proc \<Rightarrow> proc outcome" where
  "add_itcthread t worker highest mtx s =
     (case hmalloc \<lparr>th_next = thread_list (thrman_inst s), th_worker = worker, th_tid = 0,
                    use_highest_prio = highest, start_mtx = mtx, is_running = False\<rparr>
             (th_heap (thrman_inst s)) of
        (None, h) \<Rightarrow> rc_or t ITC_SYSCALL_ERROR (th_heap_set h s)
      | (Some p, h) \<Rightarrow>
          Inr (s\<lparr>thrman_inst := (thrman_inst s)\<lparr>th_heap := h, thread_list := Some p\<rparr>\<rparr>))"

text \<open>
  The five calls that prepare and create a thread; each failure ends the sequence. The last one
  gives the thread its identifier.
\<close>

definition config_itcthread :: "u32 \<Rightarrow> nat \<Rightarrow> int \<Rightarrow> int \<Rightarrow> proc \<Rightarrow> u32 \<times> nat \<times> proc" where
  "config_itcthread rc worker policy priority s =
     (case sys_zero s of (attr_init, s) \<Rightarrow>
      if \<not> attr_init then (rc OR ITC_SYSCALL_ERROR, 0, s)
      else case sys_zero s of (setschedpolicy, s) \<Rightarrow>
      if \<not> setschedpolicy then (rc OR ITC_SYSCALL_ERROR, 0, s)
      else case sys_zero s of (setschedparam, s) \<Rightarrow>
      if \<not> setschedparam then (rc OR ITC_SYSCALL_ERROR, 0, s)
      else case sys_zero s of (setinheritsched, s) \<Rightarrow>
      if \<not> setinheritsched then (rc OR ITC_SYSCALL_ERROR, 0, s)
      else case sys_zero s of (created, s) \<Rightarrow>
      if \<not> created then (rc OR ITC_SYSCALL_ERROR, 0, s)
      else (rc, next_tid (thrman_inst s),
            s\<lparr>thrman_inst := (thrman_inst s)\<lparr>next_tid := Suc (next_tid (thrman_inst s))\<rparr>\<rparr>))"

text \<open>The start mutex is of the default type: locking it a second time waits for its release.\<close>

definition start_mtx_lock :: "ptr \<Rightarrow> proc \<Rightarrow> proc outcome" where
  "start_mtx_lock m s =
     (case m of None \<Rightarrow> Inr s
      | Some a \<Rightarrow>
          if mtx_locked (thrman_inst s) a then Inl Blocked
          else Inr (s\<lparr>thrman_inst := (thrman_inst s)\<lparr>mtx_locked := (mtx_locked (thrman_inst s))(a := True)\<rparr>\<rparr>))"

definition start_mtx_unlock :: "ptr \<Rightarrow> proc \<Rightarrow> proc" where
  "start_mtx_unlock m s =
     (case m of None \<Rightarrow> s
      | Some a \<Rightarrow> s\<lparr>thrman_inst := (thrman_inst s)\<lparr>mtx_locked := (mtx_locked (thrman_inst s))(a := False)\<rparr>\<rparr>)"

type_synonym boot = "nat \<Rightarrow> nat \<Rightarrow> proc \<Rightarrow> proc outcome"

text \<open>
  The loop of \<open>start_itcthreads\<close>; \<open>rc_tmp_ok\<close> says whether the result code it allocates for itself
  exists, which it does not check. A list without a cycle has at most as many nodes as were ever
  allocated.
\<close>

fun start_loop :: "nat \<Rightarrow> boot \<Rightarrow> nat \<Rightarrow> bool \<Rightarrow> ptr \<Rightarrow> proc \<Rightarrow> proc outcome" where
  "start_loop 0 boot t rc_tmp_ok thr s = Inl Diverges"
| "start_loop (Suc n) boot t rc_tmp_ok thr s =
     (if thr = None then Inr s
      else
        bindE (hread thr (th_heap (thrman_inst s))) (\<lambda>th.
        if is_running th then Inr s
        else
          bindE (start_mtx_lock (start_mtx th) s) (\<lambda>s.
          if \<not> rc_tmp_ok then Inl NullDeref
          else
            (case config_itcthread ITC_OK (th_worker th) (m_sched_policy (thrman_inst s))
                    (if use_highest_prio th then m_sched_selflimit_prio (thrman_inst s)
                     else m_sched_priority (thrman_inst s)) s of
               (rc_tmp, tid, s) \<Rightarrow>
                 if rc_tmp \<noteq> ITC_OK then rc_or t rc_tmp s
                 else
                   bindE (th_upd thr (\<lambda>th. th\<lparr>th_tid := tid\<rparr>) s) (\<lambda>s.
                   bindE (boot (th_worker th) tid s) (\<lambda>s.
                   bindE (start_mtx_lock (start_mtx th) s) (\<lambda>s.
                   bindE (th_upd thr (\<lambda>th. th\<lparr>is_running := True\<rparr>) (start_mtx_unlock (start_mtx th) s)) (\<lambda>s.
                   bindE (hread thr (th_heap (thrman_inst s))) (\<lambda>th.
                   start_loop n boot t rc_tmp_ok (th_next th) s)))))))))"

definition start_itcthreads :: "boot \<Rightarrow> nat \<Rightarrow> proc \<Rightarrow> proc outcome" where
  "start_itcthreads boot t s =
     (case malloc_ok s of (rc_tmp_ok, s) \<Rightarrow>
      start_loop (Suc (fresh (th_heap (thrman_inst s)))) boot t rc_tmp_ok (thread_list (thrman_inst s)) s)"

text \<open>
  The loop of \<open>terminate_itcthreads\<close>: each running thread is cancelled and joined, and its
  destructors have run when the join returns. The head of the list keeps its value.
\<close>

fun terminate_loop :: "nat \<Rightarrow> boot \<Rightarrow> nat \<Rightarrow> ptr \<Rightarrow> proc \<Rightarrow> proc outcome" where
  "terminate_loop 0 dtor t thr s = Inl Diverges"
| "terminate_loop (Suc n) dtor t thr s =
     (if thr = None then Inr s
      else
        bindE (hread thr (th_heap (thrman_inst s))) (\<lambda>th.
        if \<not> is_running th then Inr s
        else
          (case sys_zero s of (cancelled, s) \<Rightarrow>
           if \<not> cancelled then rc_or t ITC_SYSCALL_ERROR s
           else
             bindE (dtor (th_worker th) (th_tid th) s) (\<lambda>s.
             (case sys_zero s of (joined, s) \<Rightarrow>
              if \<not> joined then rc_or t ITC_SYSCALL_ERROR s
              else
                bindE (th_upd thr (\<lambda>th. th\<lparr>is_running := False\<rparr>) s) (\<lambda>s.
                bindE (hread thr (th_heap (thrman_inst s))) (\<lambda>th.
                bindE (hfree thr (th_heap (thrman_inst s))) (\<lambda>h.
                terminate_loop n dtor t (th_next th) (th_heap_set h s)))))))))"

definition terminate_itcthreads :: "boot \<Rightarrow> nat \<Rightarrow> proc \<Rightarrow> proc outcome" where
  "terminate_itcthreads dtor t s =
     terminate_loop (Suc (fresh (th_heap (thrman_inst s)))) dtor t (thread_list (thrman_inst s)) s"

section \<open>Lemmas\<close>

text \<open>The nodes of a list of threads, from a pointer to its end.\<close>

fun thchain :: "itc_thread heap \<Rightarrow> ptr \<Rightarrow> nat list \<Rightarrow> bool" where
  "thchain h p [] \<longleftrightarrow> p = None"
| "thchain h p (a # as) \<longleftrightarrow> p = Some a \<and> (\<exists>th. cells h a = Some th \<and> thchain h (th_next th) as)"

lemma thchain_cong:
  "thchain h p as \<Longrightarrow> (\<And>a. a \<in> set as \<Longrightarrow> \<exists>th th'. cells h a = Some th \<and> cells h' a = Some th' \<and>
     th_next th' = th_next th) \<Longrightarrow> thchain h' p as"
  by (induction as arbitrary: p) fastforce+

lemma thchain_alloc: "thchain h p as \<Longrightarrow> a \<in> set as \<Longrightarrow> \<exists>th. cells h a = Some th"
  by (induction as arbitrary: p) auto

lemma thchain_upd_other:
  "thchain h p as \<Longrightarrow> a \<notin> set as \<Longrightarrow> thchain (h\<lparr>cells := (cells h)(a := v)\<rparr>) p as"
  by (induction as arbitrary: p) auto

lemma thchain_length_le:
  assumes "thchain h p as" and "distinct as" and "heap_ok h"
  shows "length as \<le> fresh h"
proof -
  have "set as \<subseteq> {..<fresh h}"
    using thchain_alloc [OF assms(1)] heap_ok_less [OF assms(3)] by fastforce
  then show ?thesis using card_mono [of "{..<fresh h}" "set as"] assms(2) by (simp add: distinct_card)
qed

lemma config_itcthread_ok [simp]:
  "sys s = [] \<Longrightarrow> config_itcthread rc w pol pr s =
     (rc, next_tid (thrman_inst s), s\<lparr>thrman_inst := (thrman_inst s)\<lparr>next_tid := Suc (next_tid (thrman_inst s))\<rparr>\<rparr>)"
  by (simp add: config_itcthread_def)

text \<open>A worker that reaches the release of its start mutex and leaves the thread manager alone.\<close>

definition boot_releases :: "boot \<Rightarrow> bool" where
  "boot_releases boot \<longleftrightarrow>
     (\<forall>w tid s. sys s = [] \<longrightarrow> (\<exists>s'. boot w tid s = Inr s' \<and> sys s' = [] \<and>
        thrman_inst s' = (thrman_inst s)\<lparr>mtx_locked := (\<lambda>_. False)\<rparr>))"

lemma start_loop_ok:
  assumes "boot_releases boot" and "sys s = []" and "mtx_locked (thrman_inst s) = (\<lambda>_. False)"
    and "thchain (th_heap (thrman_inst s)) p as" and "distinct as" and "length as < fuel"
    and "\<forall>a \<in> set as. \<forall>th. cells (th_heap (thrman_inst s)) a = Some th \<longrightarrow> \<not> is_running th"
  shows "\<exists>s'. start_loop fuel boot t True p s = Inr s' \<and>
           thread_list (thrman_inst s') = thread_list (thrman_inst s) \<and>
           next_tid (thrman_inst s') = next_tid (thrman_inst s) + length as \<and>
           (\<forall>a. a \<notin> set as \<longrightarrow> cells (th_heap (thrman_inst s')) a = cells (th_heap (thrman_inst s)) a) \<and>
           (\<forall>i < length as. \<exists>th. cells (th_heap (thrman_inst s)) (as ! i) = Some th \<and>
              cells (th_heap (thrman_inst s')) (as ! i) =
                Some (th\<lparr>th_tid := next_tid (thrman_inst s) + i, is_running := True\<rparr>))"
  using assms
proof (induction as arbitrary: fuel p s)
  case Nil
  then show ?case by (cases fuel) auto
next
  case (Cons a as)
  obtain n where fuel: "fuel = Suc n" using Cons.prems(6) by (cases fuel) auto
  let ?h = "th_heap (thrman_inst s)" and ?m = "thrman_inst s"
  obtain th where p: "p = Some a" and th: "cells ?h a = Some th" and ch: "thchain ?h (th_next th) as"
    using Cons.prems(4) by auto
  have nr: "\<not> is_running th" using Cons.prems(7) th by simp
  obtain sl where sl: "start_mtx_lock (start_mtx th) s = Inr sl" "sys sl = []" "th_heap (thrman_inst sl) = ?h"
      "next_tid (thrman_inst sl) = next_tid ?m" "thread_list (thrman_inst sl) = thread_list ?m"
    using Cons.prems(2,3) by (cases "start_mtx th") (simp_all add: start_mtx_lock_def)
  define s1 where "s1 = sl\<lparr>thrman_inst := (thrman_inst sl)\<lparr>next_tid := Suc (next_tid ?m),
      th_heap := ?h\<lparr>cells := (cells ?h)(a \<mapsto> th\<lparr>th_tid := next_tid ?m\<rparr>)\<rparr>\<rparr>\<rparr>"
  obtain s2 where s2: "boot (th_worker th) (next_tid ?m) s1 = Inr s2" "sys s2 = []"
    "thrman_inst s2 = (thrman_inst s1)\<lparr>mtx_locked := (\<lambda>_. False)\<rparr>"
  proof -
    have "sys s1 = []" using sl(2) by (simp add: s1_def)
    then show thesis using that Cons.prems(1) unfolding boot_releases_def by blast
  qed
  define th' where "th' = th\<lparr>th_tid := next_tid ?m, is_running := True\<rparr>"
  define s3 where "s3 = s2\<lparr>thrman_inst := (thrman_inst s2)\<lparr>th_heap := ?h\<lparr>cells := (cells ?h)(a \<mapsto> th')\<rparr>\<rparr>\<rparr>"
  have lu: "start_mtx_lock m s2 = Inr u \<Longrightarrow> start_mtx_unlock m u = s2"
    and ll: "\<exists>u. start_mtx_lock m s2 = Inr u" for m u
    using s2(3) by (cases m; auto simp: start_mtx_lock_def start_mtx_unlock_def fun_upd_def)+
  obtain u where u: "start_mtx_lock (start_mtx th) s2 = Inr u" "start_mtx_unlock (start_mtx th) u = s2"
    using lu ll by blast
  have h2: "th_heap (thrman_inst s2) = ?h\<lparr>cells := (cells ?h)(a \<mapsto> th\<lparr>th_tid := next_tid ?m\<rparr>)\<rparr>"
    using s2(3) sl by (simp add: s1_def)
  have step: "start_loop fuel boot t True p s = start_loop n boot t True (th_next th) s3"
    using fuel p th nr s2(1) u h2 sl by (simp add: th_upd_def th_heap_set_def s1_def s3_def th'_def)
  have m3: "thread_list (thrman_inst s3) = thread_list ?m" "next_tid (thrman_inst s3) = Suc (next_tid ?m)"
    "mtx_locked (thrman_inst s3) = (\<lambda>_. False)" "sys s3 = []"
    "th_heap (thrman_inst s3) = ?h\<lparr>cells := (cells ?h)(a \<mapsto> th')\<rparr>"
    using s2 sl by (simp_all add: s3_def s1_def)
  have na: "a \<notin> set as" "distinct as" using Cons.prems(5) by simp_all
  have "thchain (th_heap (thrman_inst s3)) (th_next th) as"
    using thchain_upd_other [OF ch na(1)] m3(5) by simp
  moreover have "\<forall>b \<in> set as. \<forall>x. cells (th_heap (thrman_inst s3)) b = Some x \<longrightarrow> \<not> is_running x"
    using Cons.prems(7) na(1) m3(5) by auto
  moreover have "length as < n" using Cons.prems(6) fuel by simp
  ultimately obtain s' where s': "start_loop n boot t True (th_next th) s3 = Inr s'"
      "thread_list (thrman_inst s') = thread_list (thrman_inst s3)"
      "next_tid (thrman_inst s') = next_tid (thrman_inst s3) + length as"
      "\<forall>b. b \<notin> set as \<longrightarrow> cells (th_heap (thrman_inst s')) b = cells (th_heap (thrman_inst s3)) b"
      "\<forall>i < length as. \<exists>x. cells (th_heap (thrman_inst s3)) (as ! i) = Some x \<and>
         cells (th_heap (thrman_inst s')) (as ! i) =
           Some (x\<lparr>th_tid := next_tid (thrman_inst s3) + i, is_running := True\<rparr>)"
    using Cons.IH [OF Cons.prems(1) m3(4,3) _ na(2)] by blast
  have "\<exists>x. cells ?h ((a # as) ! i) = Some x \<and> cells (th_heap (thrman_inst s')) ((a # as) ! i) =
           Some (x\<lparr>th_tid := next_tid ?m + i, is_running := True\<rparr>)" if i: "i < length (a # as)" for i
  proof (cases i)
    case 0
    then show ?thesis using s'(4) na(1) m3(5) th by (simp add: th'_def)
  next
    case (Suc j)
    then have "as ! j \<noteq> a" using i na(1) by auto
    moreover have "j < length as" using Suc i by simp
    ultimately show ?thesis using s'(5) [rule_format, of j] Suc m3(2,5) by simp
  qed
  then show ?case using step s' m3 by auto
qed

lemma start_itcthreads_ok:
  assumes "boot_releases boot" and "sys s = []" and "mallocs s = []"
    and "mtx_locked (thrman_inst s) = (\<lambda>_. False)" and "heap_ok (th_heap (thrman_inst s))"
    and "thchain (th_heap (thrman_inst s)) (thread_list (thrman_inst s)) as" and "distinct as"
    and "\<forall>a \<in> set as. \<forall>th. cells (th_heap (thrman_inst s)) a = Some th \<longrightarrow> \<not> is_running th"
  shows "\<exists>s'. start_itcthreads boot t s = Inr s' \<and>
           thread_list (thrman_inst s') = thread_list (thrman_inst s) \<and>
           thchain (th_heap (thrman_inst s')) (thread_list (thrman_inst s')) as \<and>
           (\<forall>i < length as. \<exists>th. cells (th_heap (thrman_inst s')) (as ! i) = Some th \<and>
              is_running th \<and> th_tid th = next_tid (thrman_inst s) + i)"
proof -
  let ?h = "th_heap (thrman_inst s)"
  have "length as < Suc (fresh ?h)" using thchain_length_le [OF assms(6,7,5)] by simp
  from start_loop_ok [OF assms(1,2,4,6,7) this assms(8), of t] obtain s' where
    s': "start_loop (Suc (fresh ?h)) boot t True (thread_list (thrman_inst s)) s = Inr s'"
      "thread_list (thrman_inst s') = thread_list (thrman_inst s)"
      "\<forall>i < length as. \<exists>th. cells ?h (as ! i) = Some th \<and> cells (th_heap (thrman_inst s')) (as ! i) =
                Some (th\<lparr>th_tid := next_tid (thrman_inst s) + i, is_running := True\<rparr>)" by blast
  have "thchain (th_heap (thrman_inst s')) (thread_list (thrman_inst s)) as"
  proof (rule thchain_cong [OF assms(6)])
    fix a assume "a \<in> set as"
    then obtain i where "i < length as" "a = as ! i" by (auto simp: in_set_conv_nth)
    then show "\<exists>th th'. cells ?h a = Some th \<and> cells (th_heap (thrman_inst s')) a = Some th' \<and> th_next th' = th_next th"
      using s'(3) by fastforce
  qed
  then show ?thesis using s' assms(3) by (fastforce simp: start_itcthreads_def simp del: start_loop.simps)
qed

text \<open>Destructors that leave the thread manager alone.\<close>

definition dtor_ok :: "boot \<Rightarrow> bool" where
  "dtor_ok dtor \<longleftrightarrow>
     (\<forall>w tid s. sys s = [] \<longrightarrow> (\<exists>s'. dtor w tid s = Inr s' \<and> sys s' = [] \<and> thrman_inst s' = thrman_inst s))"

lemma terminate_loop_ok:
  assumes "dtor_ok dtor" and "sys s = []" and "thchain (th_heap (thrman_inst s)) p as" and "distinct as"
    and "length as < fuel"
    and "\<forall>a \<in> set as. \<forall>th. cells (th_heap (thrman_inst s)) a = Some th \<longrightarrow> is_running th"
  shows "\<exists>s'. terminate_loop fuel dtor t p s = Inr s' \<and>
           thread_list (thrman_inst s') = thread_list (thrman_inst s) \<and>
           (\<forall>a. cells (th_heap (thrman_inst s')) a = (if a \<in> set as then None else cells (th_heap (thrman_inst s)) a))"
  using assms
proof (induction as arbitrary: fuel p s)
  case Nil
  then show ?case by (cases fuel) auto
next
  case (Cons a as)
  obtain n where fuel: "fuel = Suc n" using Cons.prems(5) by (cases fuel) auto
  let ?h = "th_heap (thrman_inst s)"
  obtain th where p: "p = Some a" and th: "cells ?h a = Some th" and ch: "thchain ?h (th_next th) as"
    using Cons.prems(3) by auto
  have r: "is_running th" using Cons.prems(6) th by simp
  obtain s1 where s1: "dtor (th_worker th) (th_tid th) s = Inr s1" "sys s1 = []" "thrman_inst s1 = thrman_inst s"
    using Cons.prems(1,2) unfolding dtor_ok_def by blast
  define s2 where "s2 = th_heap_set (?h\<lparr>cells := (cells ?h)(a := None)\<rparr>) s1"
  have step: "terminate_loop fuel dtor t p s = terminate_loop n dtor t (th_next th) s2"
    using Cons.prems(2) fuel p th r s1 by (simp add: th_upd_def th_heap_set_def s2_def)
  have h2: "th_heap (thrman_inst s2) = ?h\<lparr>cells := (cells ?h)(a := None)\<rparr>" "sys s2 = []"
    "thread_list (thrman_inst s2) = thread_list (thrman_inst s)"
    using s1 by (simp_all add: s2_def th_heap_set_def)
  have na: "a \<notin> set as" "distinct as" using Cons.prems(4) by simp_all
  have "thchain (th_heap (thrman_inst s2)) (th_next th) as" using thchain_upd_other [OF ch na(1)] h2(1) by simp
  moreover have "\<forall>b \<in> set as. \<forall>x. cells (th_heap (thrman_inst s2)) b = Some x \<longrightarrow> is_running x"
    using Cons.prems(6) na(1) h2(1) by auto
  moreover have "length as < n" using Cons.prems(5) fuel by simp
  ultimately obtain s' where "terminate_loop n dtor t (th_next th) s2 = Inr s'"
      "thread_list (thrman_inst s') = thread_list (thrman_inst s2)"
      "\<forall>b. cells (th_heap (thrman_inst s')) b = (if b \<in> set as then None else cells (th_heap (thrman_inst s2)) b)"
    using Cons.IH [OF Cons.prems(1) h2(2) _ na(2)] by blast
  then show ?case using step h2 by auto
qed

section \<open>Properties\<close>


definition boot_example :: boot where
  "boot_example w tid s = Inr (s\<lparr>thrman_inst := (thrman_inst s)\<lparr>mtx_locked := (\<lambda>_. False)\<rparr>\<rparr>)"

definition threads_example :: "bool \<Rightarrow> proc" where
  "threads_example running = (proc0 1 [])\<lparr>thrman_inst := thrman0\<lparr>thread_list := Some 0,
     th_heap := \<lparr>cells = [0 \<mapsto> \<lparr>th_next = None, th_worker = 7, th_tid = 0, use_highest_prio = True,
                               start_mtx = Some 0, is_running = running\<rparr>], fresh = 1, malloc_results = []\<rparr>\<rparr>,
     rcs := (\<lambda>_. BLive 0)\<rparr>"


text \<open>
  \<open>terminate_itcthreads\<close> releases the nodes of all running threads but leaves the head of the
  list pointing to the first of them: the next \<open>start_itcthreads\<close> or \<open>terminate_itcthreads\<close> reads a
  released node, and so does \<open>start_itcthreads\<close> after another thread was added.
\<close>

theorem terminate_leaves_dangling_list:
  assumes "dtor_ok dtor" and "sys s = []" and "mallocs s = []" and "heap_ok (th_heap (thrman_inst s))"
    and "thchain (th_heap (thrman_inst s)) (thread_list (thrman_inst s)) as" and "distinct as" and "as \<noteq> []"
    and "\<forall>a \<in> set as. \<forall>th. cells (th_heap (thrman_inst s)) a = Some th \<longrightarrow> is_running th"
  shows "\<exists>s'. terminate_itcthreads dtor t s = Inr s' \<and>
           (\<forall>a. cells (th_heap (thrman_inst s')) a =
                  (if a \<in> set as then None else cells (th_heap (thrman_inst s)) a)) \<and>
           terminate_itcthreads dtor t s' = Inl UseAfterFree \<and>
           start_loop (Suc n) boot t True (thread_list (thrman_inst s')) s' = Inl UseAfterFree"
proof -
  let ?h = "th_heap (thrman_inst s)"
  have "length as < Suc (fresh ?h)" using thchain_length_le [OF assms(5,6,4)] by simp
  from terminate_loop_ok [OF assms(1,2,5,6) this assms(8), of t] obtain s' where
    s': "terminate_itcthreads dtor t s = Inr s'" "thread_list (thrman_inst s') = thread_list (thrman_inst s)"
      "\<forall>a. cells (th_heap (thrman_inst s')) a = (if a \<in> set as then None else cells ?h a)"
    unfolding terminate_itcthreads_def by blast
  obtain a where a: "thread_list (thrman_inst s) = Some a" "a \<in> set as"
    using assms(5,7) by (cases as) auto
  have "cells (th_heap (thrman_inst s')) a = None" using s'(3) a(2) by simp
  then show ?thesis using s' a(1) by (auto simp: terminate_itcthreads_def)
qed

theorem terminate_leaves_dangling_list_witness:
  "\<exists>s'. terminate_itcthreads (\<lambda>w tid s. Inr s) 0 (threads_example True) = Inr s' \<and>
        cells (th_heap (thrman_inst s')) 0 = None \<and>
        terminate_itcthreads (\<lambda>w tid s. Inr s) 0 s' = Inl UseAfterFree"
proof -
  have "dtor_ok (\<lambda>w tid s. Inr s)" by (simp add: dtor_ok_def)
  moreover have "sys (threads_example True) = []" "mallocs (threads_example True) = []"
    "heap_ok (th_heap (thrman_inst (threads_example True)))"
    "thchain (th_heap (thrman_inst (threads_example True))) (thread_list (thrman_inst (threads_example True))) [0]"
    "\<forall>a \<in> set [0]. \<forall>th. cells (th_heap (thrman_inst (threads_example True))) a = Some th \<longrightarrow> is_running th"
    by (simp_all add: threads_example_def proc0_def thrman0_def heap_ok_def)
  ultimately show ?thesis
    using terminate_leaves_dangling_list [of "\<lambda>w tid s. Inr s" "threads_example True" "[0]" 0] by fastforce
qed

text \<open>
  \<open>set_sched_params\<close> for a real-time policy accepts exactly priorities and limits from 1 to 99,
  never stores a priority above the limit the process set for itself, and otherwise changes nothing
  but the result code.
\<close>

theorem set_sched_params_bounds:
  assumes "policy = SCHED_FIFO \<or> policy = SCHED_RR" and "rcs s t = BLive ITC_OK"
  shows "set_sched_params t policy limit prio s =
     (if 1 \<le> prio \<and> prio \<le> 99 \<and> 1 \<le> limit \<and> limit \<le> 99
      then Inr (s\<lparr>thrman_inst := (thrman_inst s)\<lparr>m_sched_policy := policy, m_sched_selflimit_prio := limit,
                    m_sched_priority := min prio limit\<rparr>\<rparr>)
      else Inr (s\<lparr>rcs := (rcs s)(t := BLive ITC_INVALID_ARGUMENTS)\<rparr>))"
proof -
  have lim: "sched_get_priority_max policy = 99" "sched_get_priority_min policy = 1" "policy \<noteq> SCHED_OTHER"
    using assms(1) by (auto simp: sched_get_priority_max_def sched_get_priority_min_def)
  show ?thesis
  proof (cases "1 \<le> prio \<and> prio \<le> 99 \<and> 1 \<le> limit \<and> limit \<le> 99")
    case True
    then have "check_sched_params t policy limit prio s = Inr s"
      by (simp add: check_sched_params_def lim Let_def)
    moreover have "min prio limit = (if limit < prio then limit else prio)" by (simp add: min_def)
    ultimately show ?thesis using True assms(2) lim(3) by (simp add: set_sched_params_def)
  next
    case False
    then have "check_sched_params t policy limit prio s =
        Inr (s\<lparr>rcs := (rcs s)(t := BLive ITC_INVALID_ARGUMENTS)\<rparr>)"
      using assms(2) by (simp add: check_sched_params_def lim Let_def not_le)
    then have "set_sched_params t policy limit prio s = Inr (s\<lparr>rcs := (rcs s)(t := BLive ITC_INVALID_ARGUMENTS)\<rparr>)"
      using lim(3) by (simp add: set_sched_params_def)
    then show ?thesis by (simp only: if_not_P [OF False])
  qed
qed

theorem set_sched_params_bounds_witness:
  "set_sched_params 0 SCHED_RR 40 50 (threads_example False) =
     Inr ((threads_example False)\<lparr>thrman_inst := (thrman_inst (threads_example False))
       \<lparr>m_sched_policy := SCHED_RR, m_sched_selflimit_prio := 40, m_sched_priority := 40\<rparr>\<rparr>)"
proof -
  have "rcs (threads_example False) 0 = BLive ITC_OK" by (simp add: threads_example_def)
  from set_sched_params_bounds [OF _ this, of SCHED_RR 40 50] show ?thesis by simp
qed

end
