(* ===== verification/Itc_Sysvmq.thy ===== *)
theory Itc_Sysvmq
  imports Itc_Alloc Itc_Threads
begin

text \<open>
  \<open>sw/itc/src/transporters/itc_sysvmq.c\<close>, the part that runs in the sending thread: setting the
  transport up and down, the table of contacts (one System V message queue for every process,
  indexed by the process part of a mailbox identifier), and sending. The receiving thread is in
  \<open>Itc_Sysvmq_Rx\<close>, because it calls the operations of \<open>itc.c\<close>.
\<close>

unbundle bit_operations_syntax

text \<open>The worker function of the receiving thread and the address of \<open>sysvmq_inst.thread_mtx\<close>.\<close>

definition SYSVMQ_RX_THREAD :: nat where [simp]: "SYSVMQ_RX_THREAD = 1"
definition SYSVMQ_THREAD_MTX :: nat where [simp]: "SYSVMQ_THREAD_MTX = 0"

abbreviation sv_set :: "(sysvmq_instance \<Rightarrow> sysvmq_instance) \<Rightarrow> proc \<Rightarrow> proc" where
  "sv_set f s \<equiv> s\<lparr>sysvmq_inst := f (sysvmq_inst s)\<rparr>"

section \<open>The table of contacts\<close>

definition cl_at :: "nat \<Rightarrow> proc \<Rightarrow> sysvmq_contactlist outcome" where
  "cl_at i s = (let cls = sysvmq_cl (sysvmq_inst s) in
     if i < length cls then Inr (cls ! i) else Inl OutOfBounds)"

definition cl_set :: "nat \<Rightarrow> sysvmq_contactlist \<Rightarrow> proc \<Rightarrow> proc outcome" where
  "cl_set i c s = (let cls = sysvmq_cl (sysvmq_inst s) in
     if i < length cls then Inr (sv_set (\<lambda>v. v\<lparr>sysvmq_cl := cls[i := c]\<rparr>) s) else Inl OutOfBounds)"

definition find_cl :: "nat \<Rightarrow> itc_mbox_id \<Rightarrow> proc \<Rightarrow> (nat option \<times> proc) outcome" where
  "find_cl t mbox_id s =
     (let pid = drop_bit (sv_itccoord_shift (sysvmq_inst s)) (mbox_id AND sv_itccoord_mask (sysvmq_inst s)) in
      if pid = 0 \<or> of_nat MAX_SUPPORTED_PROCESSES \<le> pid
      then bindE (rc_or t ITC_INVALID_ARGUMENTS s) (\<lambda>s. Inr (None, s))
      else Inr (Some (unat pid), s))"

text \<open>\<open>ftok\<close> and \<open>msgget\<close>: the identifier of the queue of the process that owns a mailbox.\<close>

definition get_sysvmq_id :: "nat \<Rightarrow> itc_mbox_id \<Rightarrow> proc \<Rightarrow> (int \<times> proc) outcome" where
  "get_sysvmq_id t mbox_id s =
     (case sys_next s of ((key, _), s) \<Rightarrow>
      bindE (if key = -1 then rc_or t ITC_SYSCALL_ERROR s else Inr s) (\<lambda>s.
      case sys_next s of ((msqid, err), s) \<Rightarrow>
      if msqid = -1 then
        bindE (rc_or t ITC_SYSCALL_ERROR s) (\<lambda>s. if err = ENOENT then Inr (-1, s) else Inr (msqid, s))
      else Inr (msqid, s)))"

definition add_sysvmq_cl :: "nat \<Rightarrow> nat \<Rightarrow> itc_mbox_id \<Rightarrow> proc \<Rightarrow> proc outcome" where
  "add_sysvmq_cl t cl mbox_id s =
     bindE (get_sysvmq_id t mbox_id s) (\<lambda>(sysv_msqid, s).
     if sysv_msqid \<noteq> -1 then
       cl_set cl \<lparr>cl_mbox_id_in_itccoord = mbox_id AND sv_itccoord_mask (sysvmq_inst s), cl_sysvmq_id = sysv_msqid\<rparr> s
     else Inr s)"

definition remove_sysvmq_cl :: "nat \<Rightarrow> itc_mbox_id \<Rightarrow> proc \<Rightarrow> proc outcome" where
  "remove_sysvmq_cl t mbox_id s =
     bindE (find_cl t mbox_id s) (\<lambda>(cl, s).
     case cl of None \<Rightarrow> Inl NullDeref
     | Some i \<Rightarrow> cl_set i \<lparr>cl_mbox_id_in_itccoord = 0, cl_sysvmq_id = 0\<rparr> s)"

definition get_sysvmq_cl :: "nat \<Rightarrow> itc_mbox_id \<Rightarrow> proc \<Rightarrow> (nat option \<times> proc) outcome" where
  "get_sysvmq_cl t mbox_id s =
     bindE (find_cl t mbox_id s) (\<lambda>(cl, s).
     case cl of None \<Rightarrow> Inr (None, s)
     | Some i \<Rightarrow>
         bindE (cl_at i s) (\<lambda>c.
         if cl_mbox_id_in_itccoord c = 0
         then bindE (add_sysvmq_cl t i mbox_id s) (\<lambda>s. Inr (Some i, s))
         else Inr (Some i, s)))"

section \<open>Setting up and down\<close>

definition generate_msqfile :: "nat \<Rightarrow> proc \<Rightarrow> proc outcome" where
  "generate_msqfile t s =
     (case sys_next s of ((mkdir1, e1), s) \<Rightarrow>
      if mkdir1 < 0 \<and> e1 \<noteq> EEXIST then rc_or t ITC_SYSCALL_ERROR s
      else case sys_next s of ((mkdir2, e2), s) \<Rightarrow>
      if mkdir2 < 0 \<and> e2 \<noteq> EEXIST then rc_or t ITC_SYSCALL_ERROR s
      else case sys_next s of (chmod1, s) \<Rightarrow>
      case sys_next s of ((fopen, _), s) \<Rightarrow>
      if fopen < 0 then rc_or t ITC_SYSCALL_ERROR s
      else case sys_next s of (chmod2, s) \<Rightarrow>
      case sys_zero s of (fclose, s) \<Rightarrow>
      if \<not> fclose then rc_or t ITC_SYSCALL_ERROR s
      else Inr (sv_set (\<lambda>v. v\<lparr>sv_is_initialized := True\<rparr>) s))"

definition release_sysvmq_resources :: "nat \<Rightarrow> proc \<Rightarrow> proc outcome" where
  "release_sysvmq_resources t s =
     (case sys_zero s of (key_delete, s) \<Rightarrow>
      if \<not> key_delete then rc_or t ITC_SYSCALL_ERROR s
      else case sys_zero s of (mutex_destroy, s) \<Rightarrow>
      if \<not> mutex_destroy then rc_or t ITC_SYSCALL_ERROR s
      else Inr (s\<lparr>sysvmq_inst := sysvmq_instance0\<rparr>))"

text \<open>
  The loop that computes \<open>itccoord_shift\<close>; its mask is a signed variable, so the shift copies the
  sign bit. A set bit appears within 32 rounds, or never.
\<close>

fun shift_loop :: "nat \<Rightarrow> u32 \<Rightarrow> nat \<Rightarrow> nat outcome" where
  "shift_loop 0 tmp_mask tmp_shift = Inl Diverges"
| "shift_loop (Suc n) tmp_mask tmp_shift =
     (if tmp_mask AND 1 \<noteq> 0 then Inr tmp_shift
      else shift_loop n (signed_drop_bit 1 tmp_mask) (Suc tmp_shift))"

text \<open>
  With \<open>ITC_FLAGS_FORCE_REINIT\<close> the code compares the pointer \<open>rc\<close>, and not its flags, with
  \<open>ITC_OK\<close>, and therefore always returns after it has released the resources.
\<close>

definition sysvmq_init ::
  "nat \<Rightarrow> itc_mbox_id \<Rightarrow> itc_mbox_id \<Rightarrow> u32 \<Rightarrow> u32 \<Rightarrow> proc \<Rightarrow> proc outcome" where
  "sysvmq_init t my_mbox_id_in_itccoord itccoord_mask nr flags s =
     (if sv_is_initialized (sysvmq_inst s) then
        (if flags AND ITC_FLAGS_FORCE_REINIT \<noteq> 0 then release_sysvmq_resources t s
         else rc_or t ITC_ALREADY_INIT s)
      else
        bindE (generate_msqfile t s) (\<lambda>s.
        bindE (rc_get t s) (\<lambda>rc.
        if rc \<noteq> ITC_OK then Inr s
        else
          bindE (shift_loop 33 itccoord_mask 0) (\<lambda>shift.
          let s = sv_set (\<lambda>v. v\<lparr>my_sysvmq_id := -1, sv_pid := cur_pid s, sv_itccoord_mask := itccoord_mask,
                    sv_itccoord_shift := shift, sv_my_mbox_id_in_itccoord := my_mbox_id_in_itccoord\<rparr>) s
          in
          case sys_zero s of (key_create, s) \<Rightarrow>
          if \<not> key_create then rc_or t ITC_SYSCALL_ERROR s
          else case sys_zero s of (mutex_init, s) \<Rightarrow>
          if \<not> mutex_init then rc_or t ITC_SYSCALL_ERROR s
          else
            add_itcthread t SYSVMQ_RX_THREAD True (Some SYSVMQ_THREAD_MTX)
              (start_mtx_unlock (Some SYSVMQ_THREAD_MTX) s)))))"

definition sysvmq_exit :: "nat \<Rightarrow> proc \<Rightarrow> proc outcome" where
  "sysvmq_exit t s =
     (if \<not> sv_is_initialized (sysvmq_inst s) then rc_or t ITC_NOT_INIT_YET s
      else case sys_zero s of (mutex_destroy, s) \<Rightarrow>
      if \<not> mutex_destroy then rc_or t ITC_SYSCALL_ERROR s
      else case sys_zero s of (key_delete, s) \<Rightarrow>
      if \<not> key_delete then rc_or t ITC_SYSCALL_ERROR s
      else Inr (s\<lparr>sysvmq_inst := sysvmq_instance0\<rparr>))"

text \<open>When \<open>msgctl\<close> fails the limits are read from an uninitialised structure.\<close>

definition sysvmq_maxmsgsize :: "nat \<Rightarrow> proc \<Rightarrow> (int \<times> proc) outcome" where
  "sysvmq_maxmsgsize t s =
     (if 0 < sv_max_msgsize (sysvmq_inst s) then Inr (sv_max_msgsize (sysvmq_inst s), s)
      else case sys_next s of ((msgctl, _), s) \<Rightarrow>
      if msgctl = -1 then Inl Undefined
      else
        let tmp = (case msginfo s of (msgmax, msgmnb) \<Rightarrow> if msgmax < msgmnb then msgmax else msgmnb);
            size = (if tmp < 0 then 0 else tmp)
        in Inr (size, sv_set (\<lambda>v. v\<lparr>sv_max_msgsize := size\<rparr>) s))"

section \<open>Sending\<close>

text \<open>
  The loop around \<open>msgsnd\<close>. Every round makes a system call, and beyond the end of the modelled
  list of outcomes the call succeeds, so the fuel \<open>sysvmq_send\<close> passes is never used up.
\<close>

fun msgsnd_loop :: "nat \<Rightarrow> nat \<Rightarrow> nat \<Rightarrow> itc_mbox_id \<Rightarrow> bytes \<Rightarrow> proc \<Rightarrow> proc outcome" where
  "msgsnd_loop 0 t cl to txmsg s = Inl Diverges"
| "msgsnd_loop (Suc n) t cl to txmsg s =
     bindE (cl_at cl s) (\<lambda>c.
     case sys_next s of ((ret, errno), s) \<Rightarrow>
     if ret \<noteq> -1 then Inr (s\<lparr>mq_sent := mq_sent s @ [(cl_sysvmq_id c, txmsg)]\<rparr>)
     else if errno = EINTR then msgsnd_loop n t cl to txmsg s
     else if errno = EINVAL \<or> errno = EIDRM then
       bindE (remove_sysvmq_cl t to s) (\<lambda>s.
       bindE (add_sysvmq_cl t cl to s) (\<lambda>s.
       bindE (cl_at cl s) (\<lambda>c.
       if cl_mbox_id_in_itccoord c = 0 then Inr s else msgsnd_loop n t cl to txmsg s)))
     else
       bindE (rc_or t ITC_SYSCALL_ERROR s) (\<lambda>s. msgsnd_loop n t cl to txmsg s))"

definition sysvmq_send :: "nat \<Rightarrow> nat \<Rightarrow> itc_mbox_id \<Rightarrow> proc \<Rightarrow> proc outcome" where
  "sysvmq_send t message to s =
     (if \<not> sv_is_initialized (sysvmq_inst s) then rc_or t ITC_NOT_INIT_YET s
      else
        bindE (get_sysvmq_cl t to s) (\<lambda>(cl, s).
        bindE (case cl of None \<Rightarrow> Inr 0
               | Some i \<Rightarrow> bindE (cl_at i s) (\<lambda>c. Inr (cl_mbox_id_in_itccoord c))) (\<lambda>contact.
        case (if contact = 0 then None else cl) of
          None \<Rightarrow> rc_upd t (\<lambda>f. (f AND NOT ITC_SYSCALL_ERROR) OR ITC_QUEUE_NULL) s
        | Some i \<Rightarrow>
            bindE (msg_get OFF_SIZE (Some message) (msgs s)) (\<lambda>msize.
            let sz = msize + of_nat ITC_HEADER_SIZE + 1 in
            if 2 ^ 31 \<le> unat sz then Inl Undefined
            else case malloc_ok s of (txmsg_ok, s) \<Rightarrow>
            if \<not> txmsg_ok then Inl NullDeref
            else
              bindE (hread (Some message) (msgs s)) (\<lambda>bs.
              bindE (get_bytes 0 (unat sz) bs) (\<lambda>txmsg.
              bindE (msgsnd_loop (Suc (length (sys s))) t i to txmsg s) (\<lambda>s.
              bindE (itc_free t (Some message) s) (\<lambda>(freed, s).
              Inr s))))))))"

definition sysvmq_trans_apis :: transport_apis where
  "sysvmq_trans_apis =
     \<lparr>tr_locate = None, tr_init = Some sysvmq_init, tr_exit = Some sysvmq_exit, tr_create = None,
      tr_delete = None, tr_send = Some sysvmq_send, tr_receive = None, tr_remove = None,
      tr_maxmsgsize = Some sysvmq_maxmsgsize\<rparr>"

section \<open>Lemmas\<close>

text \<open>The configuration that \<open>sysvmq_init\<close> sets up with the coordinator's mask.\<close>

definition sv_cfg :: "proc \<Rightarrow> bool" where
  "sv_cfg s \<longleftrightarrow> sv_is_initialized (sysvmq_inst s) \<and> sv_itccoord_mask (sysvmq_inst s) = ITC_COORD_MASK \<and>
     sv_itccoord_shift (sysvmq_inst s) = ITC_COORD_SHIFT \<and>
     length (sysvmq_cl (sysvmq_inst s)) = MAX_SUPPORTED_PROCESSES"

text \<open>The process part of an identifier.\<close>

definition proc_index :: "itc_mbox_id \<Rightarrow> nat" where
  "proc_index i = unat i div 2 ^ 20"

lemma proc_index_word: "unat (drop_bit 20 (i AND 0xFFF00000 :: u32)) = proc_index i"
proof -
  have m: "(0xFFF00000 :: u32) = push_bit 20 (mask 12)" by (simp add: mask_eq_exp_minus_1 push_bit_eq_mult)
  have "drop_bit 20 (i AND 0xFFF00000) = drop_bit 20 i"
    unfolding m by (rule bit_word_eqI) (auto simp: bit_simps dest: bit_imp_le_length)
  then show ?thesis by (simp add: proc_index_def unat_drop_bit_eq) (simp add: drop_bit_eq_div)
qed

lemma find_cl_eq:
  assumes "sv_cfg s" and "rcs s t = BLive w"
  shows "find_cl t i s =
     (if 0 < proc_index i \<and> proc_index i < 255 then Inr (Some (proc_index i), s)
      else Inr (None, s\<lparr>rcs := (rcs s)(t := BLive (w OR ITC_INVALID_ARGUMENTS))\<rparr>))"
proof -
  define pid where "pid = drop_bit 20 (i AND 0xFFF00000 :: u32)"
  have u: "unat pid = proc_index i" unfolding pid_def by (rule proc_index_word)
  have z: "pid = 0 \<longleftrightarrow> proc_index i = 0" using u by (metis unat_eq_zero)
  have g: "255 \<le> pid \<longleftrightarrow> 255 \<le> proc_index i" using u by (simp add: word_le_nat_alt)
  have cfg: "sv_itccoord_mask (sysvmq_inst s) = 0xFFF00000" "sv_itccoord_shift (sysvmq_inst s) = 20"
    using assms(1) by (simp_all add: sv_cfg_def)
  have p: "drop_bit 20 i AND 4095 = pid" by (simp add: pid_def)
  show ?thesis using assms(2) z g u by (auto simp: find_cl_def cfg Let_def p)
qed

lemma msgsnd_loop_ok:
  assumes "cl_at i s = Inr c" and "sys s = replicate n (-1, EINTR) @ (r, e) # rest" and "r \<noteq> -1" and "n < fuel"
  shows "msgsnd_loop fuel t i to tx s =
     Inr (s\<lparr>sys := rest, mq_sent := mq_sent s @ [(cl_sysvmq_id c, tx)]\<rparr>)"
  using assms
proof (induction n arbitrary: fuel s)
  case 0
  then show ?case by (cases fuel) simp_all
next
  case (Suc n)
  obtain f where fuel: "fuel = Suc f" using Suc.prems(4) by (cases fuel) auto
  define s1 where "s1 = s\<lparr>sys := replicate n (-1, EINTR) @ (r, e) # rest\<rparr>"
  have "cl_at i s1 = Inr c" using Suc.prems(1) by (simp add: s1_def cl_at_def)
  then have "msgsnd_loop f t i to tx s1 = Inr (s1\<lparr>sys := rest, mq_sent := mq_sent s1 @ [(cl_sysvmq_id c, tx)]\<rparr>)"
    using Suc.IH [of s1 f] Suc.prems fuel by (simp add: s1_def)
  then show ?case using Suc.prems(1,2) fuel by (simp add: s1_def)
qed

lemma wf_msg_whole:
  assumes "wf_msg bs" and "length bs < 2 ^ 31"
  shows "unat (fld OFF_SIZE bs + 16 + 1) = length bs" "get_bytes 0 (length bs) bs = Inr bs"
proof -
  have l: "length bs = unat (fld 12 bs) + 17" using assms(1) by (simp add: wf_msg_def)
  have "unat (fld 12 bs + 17) = unat (fld 12 bs) + 17"
    using l assms(2) by (simp add: unat_word_ariths)
  then show "unat (fld OFF_SIZE bs + 16 + 1) = length bs" using l by (simp add: add.assoc)
  show "get_bytes 0 (length bs) bs = Inr bs" by (simp add: get_bytes_def slice_def)
qed

lemma cached_contact:
  assumes "sv_cfg s" and "rcs s t = BLive w" and "0 < proc_index to" and "proc_index to < 255"
    and "sysvmq_cl (sysvmq_inst s) ! proc_index to = c" and "cl_mbox_id_in_itccoord c \<noteq> 0"
  shows "get_sysvmq_cl t to s = Inr (Some (proc_index to), s)" "cl_at (proc_index to) s = Inr c"
proof -
  show c: "cl_at (proc_index to) s = Inr c" using assms(1,4,5) by (simp add: cl_at_def sv_cfg_def)
  show "get_sysvmq_cl t to s = Inr (Some (proc_index to), s)"
    using find_cl_eq [OF assms(1,2), of to] assms(3,4,6) c by (simp add: get_sysvmq_cl_def)
qed

section \<open>Properties\<close>

lemma sysvmq_send_ok:
  assumes "sv_cfg s" and "alloc_state t s" and "rcs s t = BLive 0" and "mallocs s = []"
    and "0 < proc_index to" and "proc_index to < 255"
    and "sysvmq_cl (sysvmq_inst s) ! proc_index to = c" and "cl_mbox_id_in_itccoord c \<noteq> 0"
    and "cells (msgs s) m = Some bs" and "wf_msg bs" and "\<not> inrx bs" and "length bs < 2 ^ 31"
    and "sys s = replicate n (-1, EINTR) @ (r, e) # rest" and "r \<noteq> -1"
  shows "\<exists>s'. sysvmq_send t m to s = Inr s' \<and>
           mq_sent s' = mq_sent s @ [(cl_sysvmq_id c, bs)] \<and> rcs s' t = BLive ITC_OK \<and>
           cells (msgs s') = (cells (msgs s))(m := None) \<and> sys s' = rest"
proof -
  note cc = cached_contact [OF assms(1,3,5-8)]
  note w = wf_msg_whole [OF assms(10,12)]
  have l: "n < Suc (length (sys s))" using assms(13) by simp
  have loop: "msgsnd_loop (Suc (length (sys s))) t (proc_index to) to bs s =
      Inr (s\<lparr>sys := rest, mq_sent := mq_sent s @ [(cl_sysvmq_id c, bs)]\<rparr>)" (is "_ = Inr ?s1")
    by (rule msgsnd_loop_ok [OF cc(2) assms(13,14) l])
  have "alloc_state t ?s1" using assms(2) by (auto simp: alloc_state_def)
  then have f: "itc_free t (Some m) ?s1 = Inr (True, ?s1\<lparr>rcs := (rcs ?s1)(t := BLive ITC_OK),
      msgs := (msgs ?s1)\<lparr>cells := (cells (msgs ?s1))(m := None)\<rparr>\<rparr>)"
    using itc_free_ok assms(9-11) by simp
  have i: "sv_is_initialized (sysvmq_inst s)" using assms(1) by (simp add: sv_cfg_def)
  have g: "msg_get OFF_SIZE (Some m) (msgs s) = Inr (fld OFF_SIZE bs)"
    using assms(9) wf_msg_length [OF assms(10)] by simp
  have "sysvmq_send t m to s = Inr (?s1\<lparr>rcs := (rcs s)(t := BLive ITC_OK),
      msgs := (msgs s)\<lparr>cells := (cells (msgs s))(m := None)\<rparr>\<rparr>)"
    using i cc assms(4,8,9,12) w loop f g
    by (simp add: sysvmq_send_def Let_def del: msgsnd_loop.simps OFF_SIZE_def)
  then show ?thesis by simp
qed

text \<open>
  Sending to another process over an established contact: whatever number of signals interrupt
  the call, the whole block of the message, end marker included, is handed to the message queue of
  the addressed process exactly once, the message is given back to the allocator, and the result
  code is clean.
\<close>

theorem sysvmq_send_delivers_once:
  assumes "sv_cfg s" and "alloc_state t s" and "rcs s t = BLive 0" and "mallocs s = []"
    and "0 < proc_index to" and "proc_index to < 255"
    and "sysvmq_cl (sysvmq_inst s) ! proc_index to = c" and "cl_mbox_id_in_itccoord c \<noteq> 0"
    and "cells (msgs s) m = Some bs" and "wf_msg bs" and "\<not> inrx bs" and "length bs < 2 ^ 31"
    and "sys s = replicate n (-1, EINTR) @ (r, e) # rest" and "r \<noteq> -1"
  shows "\<exists>s'. sysvmq_send t m to s = Inr s' \<and>
           mq_sent s' = mq_sent s @ [(cl_sysvmq_id c, bs)] \<and> rcs s' t = BLive ITC_OK \<and>
           cells (msgs s') = (cells (msgs s))(m := None) \<and> sys s' = rest"
  by (rule sysvmq_send_ok [OF assms])

definition sv_example :: "sysret list \<Rightarrow> proc" where
  "sv_example script = alloc_example\<lparr>sys := script,
     sysvmq_inst := sysvmq_instance0\<lparr>sv_is_initialized := True, sv_itccoord_mask := ITC_COORD_MASK,
       sv_itccoord_shift := 20,
       sysvmq_cl := (replicate 255 \<lparr>cl_mbox_id_in_itccoord = 0, cl_sysvmq_id = 0\<rparr>)
          [2 := \<lparr>cl_mbox_id_in_itccoord = 0x200000, cl_sysvmq_id = 77\<rparr>]\<rparr>,
     msgs := \<lparr>cells = [0 \<mapsto> new_message 8 7], fresh = 1, malloc_results = []\<rparr>\<rparr>"

lemma sv_example_facts:
  "sv_cfg (sv_example l)" "alloc_state 0 (sv_example l)" "rcs (sv_example l) 0 = BLive 0"
  "mallocs (sv_example l) = []"
  "sysvmq_cl (sysvmq_inst (sv_example l)) ! 2 = \<lparr>cl_mbox_id_in_itccoord = 0x200000, cl_sysvmq_id = 77\<rparr>"
  "cells (msgs (sv_example l)) 0 = Some (new_message 8 7)" "sys (sv_example l) = l" "mq_sent (sv_example l) = []"
  using alloc_example_state
  by (auto simp: sv_cfg_def sv_example_def alloc_state_def alloc_example_def proc0_def heap_ok_def)

lemma sv_example_msg:
  "wf_msg (new_message 8 7)" "\<not> inrx (new_message 8 7)" "proc_index 0x200005 = 2"
  using fld_new_message(1) [of 8 7] by (simp_all add: wf_new_message inrx_def proc_index_def)

theorem sysvmq_send_delivers_once_witness:
  "\<exists>s'. sysvmq_send 0 0 0x200005 (sv_example [(-1, EINTR), (0, EOTHER)]) = Inr s' \<and>
        mq_sent s' = [(77, new_message 8 7)] \<and> cells (msgs s') 0 = None"
proof -
  note f = sv_example_facts [of "[(-1, EINTR), (0, EOTHER)]"]
  have "sys (sv_example [(-1, EINTR), (0, EOTHER)]) = replicate 1 (-1, EINTR) @ (0, EOTHER) # []" using f(7) by simp
  from sysvmq_send_delivers_once [OF f(1-4) _ _ _ _ f(6) sv_example_msg(1,2) _ this, of "0x200005"] f(5,8) sv_example_msg(3)
  show ?thesis by auto
qed

text \<open>
  When the queue of the addressed process is gone (\<open>EIDRM\<close>) and \<open>msgget\<close> does not find a new
  one, \<open>sysvmq_send\<close> gives the message back to the allocator although it was never sent, and the
  release resets the result code: the caller is told that the message was delivered.
\<close>

theorem sysvmq_send_loses_message:
  assumes "sv_cfg s" and "alloc_state t s" and "rcs s t = BLive 0" and "mallocs s = []"
    and "0 < proc_index to" and "proc_index to < 255"
    and "cl_mbox_id_in_itccoord (sysvmq_cl (sysvmq_inst s) ! proc_index to) \<noteq> 0"
    and "cells (msgs s) m = Some bs" and "wf_msg bs" and "\<not> inrx bs" and "length bs < 2 ^ 31"
    and "sys s = (-1, EIDRM) # (key, e) # (-1, ENOENT) # rest" and "key \<noteq> -1"
  shows "\<exists>s'. sysvmq_send t m to s = Inr s' \<and> rcs s' t = BLive ITC_OK \<and> mq_sent s' = mq_sent s \<and>
           cells (msgs s') = (cells (msgs s))(m := None)"
proof -
  let ?i = "proc_index to" and ?c0 = "\<lparr>cl_mbox_id_in_itccoord = 0, cl_sysvmq_id = 0\<rparr>"
  let ?cls = "sysvmq_cl (sysvmq_inst s)"
  note cc = cached_contact [OF assms(1,3,5,6) refl assms(7)]
  note w = wf_msg_whole [OF assms(9,11)]
  have len: "length ?cls = 255" using assms(1) by (simp add: sv_cfg_def)
  have fc: "find_cl t to (s\<lparr>sys := l\<rparr>) = Inr (Some ?i, s\<lparr>sys := l\<rparr>)" for l
    using find_cl_eq [of "s\<lparr>sys := l\<rparr>" t 0 to] assms(1,3,5,6) by (simp add: sv_cfg_def)
  define sv where "sv = (sysvmq_inst s)\<lparr>sysvmq_cl := ?cls[?i := ?c0]\<rparr>"
  define s1 where "s1 = s\<lparr>sys := rest, sysvmq_inst := sv, rcs := (rcs s)(t := BLive ITC_SYSCALL_ERROR)\<rparr>"
  have loop: "msgsnd_loop (Suc (length (sys s))) t ?i to bs s = Inr s1"
    using assms(3,6,12,13) cc(2) fc len
    by (simp add: remove_sysvmq_cl_def cl_set_def add_sysvmq_cl_def get_sysvmq_id_def cl_at_def Let_def
        s1_def sv_def)
  have "alloc_state t s1" using assms(2) by (auto simp: alloc_state_def s1_def)
  then have f: "itc_free t (Some m) s1 = Inr (True, s1\<lparr>rcs := (rcs s1)(t := BLive ITC_OK),
      msgs := (msgs s1)\<lparr>cells := (cells (msgs s1))(m := None)\<rparr>\<rparr>)"
    using itc_free_ok assms(8-10) by (simp add: s1_def)
  have i: "sv_is_initialized (sysvmq_inst s)" using assms(1) by (simp add: sv_cfg_def)
  have g: "msg_get OFF_SIZE (Some m) (msgs s) = Inr (fld OFF_SIZE bs)"
    using assms(8) wf_msg_length [OF assms(9)] by simp
  have "sysvmq_send t m to s = Inr (s1\<lparr>rcs := (rcs s1)(t := BLive ITC_OK),
      msgs := (msgs s1)\<lparr>cells := (cells (msgs s1))(m := None)\<rparr>\<rparr>)"
    using i cc assms(4,7,8,11) w loop f g
    by (simp add: sysvmq_send_def Let_def del: msgsnd_loop.simps OFF_SIZE_def)
  then show ?thesis by (simp add: s1_def)
qed

theorem sysvmq_send_loses_message_witness:
  "\<exists>s'. sysvmq_send 0 0 0x200005 (sv_example [(-1, EIDRM), (5, EOTHER), (-1, ENOENT)]) = Inr s' \<and>
        rcs s' 0 = BLive ITC_OK \<and> mq_sent s' = [] \<and> cells (msgs s') 0 = None"
proof -
  note f = sv_example_facts [of "[(-1, EIDRM), (5, EOTHER), (-1, ENOENT)]"]
  from sysvmq_send_loses_message [OF f(1-4) _ _ _ f(6) sv_example_msg(1,2) _ f(7), of "0x200005"] f(5,8) sv_example_msg(3)
  show ?thesis by auto
qed

text \<open>
  The contact table is never accessed out of bounds: for every mailbox identifier and every
  outcome of the system calls the lookup returns, with an entry only for a process number from 1 to
  254, which is the entry with that number, and with a result code otherwise.
\<close>

theorem contact_lookup_in_bounds:
  assumes "sv_cfg s" and "rcs s t = BLive w"
  shows "\<exists>s'. get_sysvmq_cl t to s =
      Inr (if 0 < proc_index to \<and> proc_index to < MAX_SUPPORTED_PROCESSES then Some (proc_index to) else None, s') \<and>
      sv_cfg s' \<and> (\<exists>w'. rcs s' t = BLive w')"
proof (cases "0 < proc_index to \<and> proc_index to < 255")
  case False
  then show ?thesis
    using find_cl_eq [OF assms, of to] assms by (auto simp: get_sysvmq_cl_def sv_cfg_def)
next
  case True
  let ?i = "proc_index to"
  have len: "length (sysvmq_cl (sysvmq_inst s)) = 255" using assms(1) by (simp add: sv_cfg_def)
  obtain s' where "add_sysvmq_cl t ?i to s = Inr s'" "sv_cfg s'" "\<exists>w'. rcs s' t = BLive w'"
  proof -
    obtain k e s1 where 1: "sys_next s = ((k, e), s1)" "sysvmq_inst s1 = sysvmq_inst s" "rcs s1 = rcs s"
      by (cases "sys s") auto
    obtain s2 w2 where 2: "(if k = -1 then rc_or t ITC_SYSCALL_ERROR s1 else Inr s1) = Inr s2"
        "sysvmq_inst s2 = sysvmq_inst s" "rcs s2 t = BLive w2"
      using 1 assms(2) by (cases "k = -1") simp_all
    obtain q e2 s3 where 3: "sys_next s2 = ((q, e2), s3)" "sysvmq_inst s3 = sysvmq_inst s" "rcs s3 t = BLive w2"
      using 2 by (cases "sys s2") auto
    show thesis
      using that 1(1) 2(1) 3 assms(1) True len
      by (cases "q = -1"; cases "e2 = ENOENT")
        (simp_all add: add_sysvmq_cl_def get_sysvmq_id_def cl_set_def Let_def sv_cfg_def)
  qed
  then show ?thesis
    using find_cl_eq [OF assms, of to] True assms len by (auto simp: get_sysvmq_cl_def cl_at_def)
qed

theorem contact_lookup_in_bounds_witness:
  "\<exists>s'. get_sysvmq_cl 0 0xFFF00001 (sv_example []) = Inr (None, s')"
  using contact_lookup_in_bounds [OF sv_example_facts(1,3), of "0xFFF00001"]
  by (auto simp: proc_index_def)

end
