(* ===== verification/Itc_Proto.thy ===== *)
theory Itc_Proto
  imports Itc_Process
begin

text \<open>
  \<open>sw/itc/inc/itc_proto.h\<close>: the messages that processes, coordinator and gateway exchange. The
  offsets count from the message number, where the users' view of a message begins; a flag of type
  \<open>bool\<close> takes one byte.
\<close>

section \<open>Message numbers\<close>

definition ITC_MSG_BASE :: u32 where [simp]: "ITC_MSG_BASE = 0x90000000"
definition ITC_PROTO_MSG_BASE :: u32 where [simp]: "ITC_PROTO_MSG_BASE = ITC_MSG_BASE + 0x500"
definition ITC_LOCATE_COORD_REQUEST :: u32 where [simp]: "ITC_LOCATE_COORD_REQUEST = ITC_PROTO_MSG_BASE + 0x1"
definition ITC_LOCATE_COORD_REPLY :: u32 where [simp]: "ITC_LOCATE_COORD_REPLY = ITC_PROTO_MSG_BASE + 0x2"
definition ITC_NOTIFY_COORD_ADD_MBOX :: u32 where [simp]: "ITC_NOTIFY_COORD_ADD_MBOX = ITC_PROTO_MSG_BASE + 0x3"
definition ITC_NOTIFY_COORD_RMV_MBOX :: u32 where [simp]: "ITC_NOTIFY_COORD_RMV_MBOX = ITC_PROTO_MSG_BASE + 0x4"
definition ITC_LOCATE_MBOX_SYNC_REQUEST :: u32 where
  [simp]: "ITC_LOCATE_MBOX_SYNC_REQUEST = ITC_PROTO_MSG_BASE + 0x5"
definition ITC_LOCATE_MBOX_SYNC_REPLY :: u32 where [simp]: "ITC_LOCATE_MBOX_SYNC_REPLY = ITC_PROTO_MSG_BASE + 0x6"
definition ITC_FWD_DATA_TO_ITCGWS :: u32 where [simp]: "ITC_FWD_DATA_TO_ITCGWS = ITC_PROTO_MSG_BASE + 0x7"
definition ITC_GET_NAMESPACE_REQUEST :: u32 where [simp]: "ITC_GET_NAMESPACE_REQUEST = ITC_PROTO_MSG_BASE + 0x8"
definition ITC_GET_NAMESPACE_REPLY :: u32 where [simp]: "ITC_GET_NAMESPACE_REPLY = ITC_PROTO_MSG_BASE + 0x9"
definition ITC_LOCATE_MBOX_FROM_ITCGWS_REQUEST :: u32 where
  [simp]: "ITC_LOCATE_MBOX_FROM_ITCGWS_REQUEST = ITC_PROTO_MSG_BASE + 0xA"
definition ITC_LOCATE_MBOX_FROM_ITCGWS_REPLY :: u32 where
  [simp]: "ITC_LOCATE_MBOX_FROM_ITCGWS_REPLY = ITC_PROTO_MSG_BASE + 0xB"

section \<open>Layouts\<close>

text \<open>\<open>itc_locate_coord_request\<close> and \<open>itc_locate_coord_reply\<close>\<close>

definition LCQ_PID :: nat where [simp]: "LCQ_PID = 4"
definition LCQ_SIZE :: nat where [simp]: "LCQ_SIZE = 8"

definition LCR_MY_MBOX_ID :: nat where [simp]: "LCR_MY_MBOX_ID = 4"
definition LCR_MASK :: nat where [simp]: "LCR_MASK = 8"
definition LCR_COORD_MBOX_ID :: nat where [simp]: "LCR_COORD_MBOX_ID = 12"
definition LCR_SIZE :: nat where [simp]: "LCR_SIZE = 16"

text \<open>\<open>itc_notify_coord_add_rmv_mbox\<close>\<close>

definition NCM_MBOX_ID :: nat where [simp]: "NCM_MBOX_ID = 4"
definition NCM_NAME :: nat where [simp]: "NCM_NAME = 8"

text \<open>\<open>itc_locate_mbox_sync_request\<close>\<close>

definition LMQ_FROM_MBOX :: nat where [simp]: "LMQ_FROM_MBOX = 4"
definition LMQ_TIMEOUT :: nat where [simp]: "LMQ_TIMEOUT = 8"
definition LMQ_INTERNAL :: nat where [simp]: "LMQ_INTERNAL = 12"
definition LMQ_NAME :: nat where [simp]: "LMQ_NAME = 13"

text \<open>\<open>itc_locate_mbox_sync_reply\<close>\<close>

definition LMR_MBOX_ID :: nat where [simp]: "LMR_MBOX_ID = 4"
definition LMR_PID :: nat where [simp]: "LMR_PID = 8"
definition LMR_EXTERNAL :: nat where [simp]: "LMR_EXTERNAL = 12"
definition LMR_NAMESPACE :: nat where [simp]: "LMR_NAMESPACE = 13"

text \<open>\<open>itc_fwd_data_to_itcgws\<close>, whose name field is followed by one byte of padding\<close>

definition FWD_NAMESPACE :: nat where [simp]: "FWD_NAMESPACE = 4"
definition FWD_LENGTH :: nat where [simp]: "FWD_LENGTH = 260"
definition FWD_PAYLOAD :: nat where [simp]: "FWD_PAYLOAD = 264"

text \<open>\<open>itc_get_namespace_request\<close> and \<open>itc_get_namespace_reply\<close>\<close>

definition GNQ_MBOX_ID :: nat where [simp]: "GNQ_MBOX_ID = 4"
definition GNQ_SIZE :: nat where [simp]: "GNQ_SIZE = 8"
definition GNR_NAMESPACE :: nat where [simp]: "GNR_NAMESPACE = 4"

text \<open>\<open>itc_locate_mbox_from_itcgws_request\<close> and \<open>itc_locate_mbox_from_itcgws_reply\<close>\<close>

definition LGQ_COORD_MBOX_ID :: nat where [simp]: "LGQ_COORD_MBOX_ID = 4"
definition LGQ_NAME :: nat where [simp]: "LGQ_NAME = 8"
definition LGR_MBOX_ID :: nat where [simp]: "LGR_MBOX_ID = 4"
definition LGR_NAMESPACE :: nat where [simp]: "LGR_NAMESPACE = 8"

end
