(* ===== verification/Itc_Lsock.thy ===== *)
theory Itc_Lsock
  imports Itc_Proto Itc_Threads
begin

text \<open>
  \<open>sw/itc/src/transporters/itc_lsocket.c\<close>: the connection of a process to the coordinator. The
  process asks for its identifiers over one socket and announces itself over a second one, on which
  the coordinator answers with an acknowledgement.
\<close>

unbundle bit_operations_syntax

section \<open>Receiving on a socket\<close>

text \<open>
  \<open>recv\<close>: the number of bytes or a negative value, and the bytes themselves. What lies in the
  caller's buffer behind the received bytes is indeterminate; reading it is a fault of the model.
\<close>

definition recv_call :: "proc \<Rightarrow> sysret \<times> bytes \<times> proc" where
  "recv_call s =
     (case sys_next s of ((r, e), s) \<Rightarrow>
      if 0 < r then (case rx_next s of (d, s) \<Rightarrow> ((r, e), take (nat r) d, s)) else ((r, e), [], s))"

section \<open>Operations\<close>

definition lsock_locate_coord :: "nat \<Rightarrow> proc \<Rightarrow> (bool \<times> proc) outcome" where
  "lsock_locate_coord t s =
     (case sys_next s of ((sd, _), s) \<Rightarrow>
      if sd < 0 then bindE (rc_or t ITC_SYSCALL_ERROR s) (\<lambda>s. Inr (False, s))
      else case sys_next s of ((connect, _), s) \<Rightarrow>
      if connect < 0 then bindE (rc_or t ITC_SYSCALL_ERROR s) (\<lambda>s. Inr (False, s))
      else case malloc_ok s of (lrequest, s) \<Rightarrow>
      if \<not> lrequest then bindE (rc_or t ITC_SYSCALL_ERROR s) (\<lambda>s. Inr (False, s))
      else case sys_next s of ((send, _), s) \<Rightarrow>
      if send < 0 then bindE (rc_or t ITC_SYSCALL_ERROR s) (\<lambda>s. Inr (False, s))
      else case malloc_ok s of (lreply, s) \<Rightarrow>
      if \<not> lreply then bindE (rc_or t ITC_SYSCALL_ERROR s) (\<lambda>s. Inr (False, s))
      else case recv_call s of ((rx_len, _), lreply, s) \<Rightarrow>
      if rx_len < int LCR_SIZE then bindE (rc_or t ITC_INVALID_MSG_SIZE s) (\<lambda>s. Inr (False, s))
      else case sys_next s of (close, s) \<Rightarrow>
        bindE (get32 0 lreply) (\<lambda>msgno.
        bindE (get32 LCR_MY_MBOX_ID lreply) (\<lambda>my_mbox_id_in_itccoord.
        bindE (get32 LCR_MASK lreply) (\<lambda>itccoord_mask.
        bindE (get32 LCR_COORD_MBOX_ID lreply) (\<lambda>itccoord_mbox_id.
        if msgno = ITC_LOCATE_COORD_REPLY \<and> my_mbox_id_in_itccoord \<noteq> ITC_NO_MBOX_ID then
          Inr (True, s\<lparr>itc_inst := (itc_inst s)
                 \<lparr>ii_my_mbox_id_in_itccoord := my_mbox_id_in_itccoord, ii_itccoord_mask := itccoord_mask,
                  ii_itccoord_mbox_id := itccoord_mbox_id\<rparr>,
               lsock_inst := (lsock_inst s)\<lparr>is_coord_running := True\<rparr>\<rparr>)
        else bindE (rc_or t ITC_INVALID_ARGUMENTS s) (\<lambda>s. Inr (False, s)))))))"

definition generate_lsockpath :: "nat \<Rightarrow> proc \<Rightarrow> proc outcome" where
  "generate_lsockpath t s =
     (case sys_next s of ((mkdir, e), s) \<Rightarrow>
      if mkdir < 0 \<and> e \<noteq> EEXIST then rc_or t ITC_SYSCALL_ERROR s
      else case sys_next s of ((chmod, _), s) \<Rightarrow>
      if chmod < 0 then Inr s
      else Inr (s\<lparr>lsock_inst := (lsock_inst s)\<lparr>is_path_created := True\<rparr>\<rparr>))"

text \<open>The loop that repeats an interrupted \<open>recv\<close>; a call beyond the modelled outcomes returns.\<close>

fun recv_ack_loop :: "nat \<Rightarrow> proc \<Rightarrow> (int \<times> bytes \<times> proc) outcome" where
  "recv_ack_loop 0 s = Inl Diverges"
| "recv_ack_loop (Suc n) s =
     (case recv_call s of ((rx_len, errno), d, s) \<Rightarrow>
      if rx_len < 0 \<and> errno = EINTR then recv_ack_loop n s else Inr (rx_len, d, s))"

text \<open>\<open>strcmp(str, buffer) = 0\<close>, where only the received bytes of the buffer have a value.\<close>

fun buf_eq :: "bytes \<Rightarrow> bytes \<Rightarrow> bool outcome" where
  "buf_eq [] [] = Inl Undefined"
| "buf_eq [] (b # _) = Inr (b = 0)"
| "buf_eq (a # as) [] = Inl Undefined"
| "buf_eq (a # as) (b # bs) = (if a = b then buf_eq as bs else Inr False)"

definition lsock_init ::
  "nat \<Rightarrow> itc_mbox_id \<Rightarrow> itc_mbox_id \<Rightarrow> u32 \<Rightarrow> u32 \<Rightarrow> proc \<Rightarrow> proc outcome" where
  "lsock_init t my_mbox_id_in_itccoord itccoord_mask nr flags s =
     (if \<not> is_coord_running (lsock_inst s) then Inr s
      else
        bindE (if \<not> is_path_created (lsock_inst s) then generate_lsockpath t s else Inr s) (\<lambda>s'.
        bindE (if \<not> is_path_created (lsock_inst s) then rc_get t s' else Inr ITC_OK) (\<lambda>rc.
        if rc \<noteq> ITC_OK then Inr s'
        else case sys_next s' of ((sd, _), s) \<Rightarrow>
        if sd < 0 then rc_or t ITC_SYSCALL_ERROR s
        else case sys_next s of ((connect, _), s) \<Rightarrow>
        if connect < 0 then rc_or t ITC_SYSCALL_ERROR s
        else case malloc_ok s of (str_ack, s) \<Rightarrow>
        bindE (if str_ack then recv_ack_loop (Suc (length (sys s))) s else Inr (-1, [], s)) (\<lambda>(rx_len, d, s).
        bindE (if rx_len < 0 then rc_or t ITC_SYSCALL_ERROR s
               else if rx_len = 4 then Inr s
               else bindE (buf_eq (ascii ''ack'') d) (\<lambda>eq.
                    if eq then Inr s else rc_or t ITC_INVALID_RESPONSE s)) (\<lambda>s.
        Inr (s\<lparr>lsock_inst := (lsock_inst s)\<lparr>ls_sd := sd\<rparr>\<rparr>))))))"

definition lsock_exit :: "nat \<Rightarrow> proc \<Rightarrow> proc outcome" where
  "lsock_exit t s =
     (if is_coord_running (lsock_inst s) then
        (case sys_next s of ((close, _), s) \<Rightarrow>
         if close < 0 then rc_or t ITC_SYSCALL_ERROR s else Inr (s\<lparr>lsock_inst := lsock_instance0\<rparr>))
      else Inr (s\<lparr>lsock_inst := lsock_instance0\<rparr>))"

definition lsock_trans_apis :: transport_apis where
  "lsock_trans_apis =
     \<lparr>tr_locate = Some lsock_locate_coord, tr_init = Some lsock_init, tr_exit = Some lsock_exit,
      tr_create = None, tr_delete = None, tr_send = None, tr_receive = None, tr_remove = None,
      tr_maxmsgsize = None\<rparr>"

section \<open>Properties\<close>

text \<open>The answer of the coordinator, as bytes.\<close>

definition locate_reply :: "u32 \<Rightarrow> itc_mbox_id \<Rightarrow> itc_mbox_id \<Rightarrow> itc_mbox_id \<Rightarrow> bytes" where
  "locate_reply msgno my cmask coord = enc32 msgno @ enc32 my @ enc32 cmask @ enc32 coord"

lemma locate_reply_fields:
  "get32 0 (locate_reply n my cm co) = Inr n" "get32 4 (locate_reply n my cm co) = Inr my"
  "get32 8 (locate_reply n my cm co) = Inr cm" "get32 12 (locate_reply n my cm co) = Inr co"
  by (simp_all add: locate_reply_def get32_def get_bytes_def slice_def)

lemma length_locate_reply [simp]: "length (locate_reply n my cm co) = 16"
  by (simp add: locate_reply_def)

text \<open>
  Asking the coordinator for identifiers, when the connection works: a reply with a valid
  identifier is taken over completely and the coordinator is known to run; a reply without one and
  any other message are refused with the code for invalid arguments, and the process's identifiers
  stay as they were. The code for exhausted process numbers is never reported.
\<close>

lemma locate_coord_reply:
  assumes "rcs s t = BLive 0" and "mallocs s = []"
    and "sys s = [(sd, e1), (0, e2), (8, e3), (16, e4), (0, e5)]" and "0 \<le> sd"
    and "rx_data s = [locate_reply msgno my cmask coord]"
  shows "if msgno = ITC_LOCATE_COORD_REPLY \<and> my \<noteq> ITC_NO_MBOX_ID then
      \<exists>s'. lsock_locate_coord t s = Inr (True, s') \<and> is_coord_running (lsock_inst s') \<and> rcs s' = rcs s \<and>
        itc_inst s' = (itc_inst s)\<lparr>ii_my_mbox_id_in_itccoord := my, ii_itccoord_mask := cmask,
                                   ii_itccoord_mbox_id := coord\<rparr>
    else
      \<exists>s'. lsock_locate_coord t s = Inr (False, s') \<and> rcs s' t = BLive ITC_INVALID_ARGUMENTS \<and>
        itc_inst s' = itc_inst s \<and> lsock_inst s' = lsock_inst s"
  using assms by (simp add: lsock_locate_coord_def recv_call_def locate_reply_fields)

end
