(* ===== verification/Itc_Core.thy ===== *)
theory Itc_Core
  imports Itc_Local Itc_Sysvmq Itc_Lsock
begin

text \<open>
  \<open>sw/itc/src/itc.c\<close>: the operations that applications call, except for starting and stopping the
  framework (\<open>Itc_Init\<close>). An operation of thread \<open>t\<close> runs as one step from the state of the process
  to the next; where the code waits on a condition variable, the model takes what happened in the
  meantime from a list of wake-ups. A mailbox pointer is the index of the mailbox.
\<close>

unbundle bit_operations_syntax

section \<open>The transports, in the order in which they are tried\<close>

definition trans_mechanisms :: "transport_apis list" where
  "trans_mechanisms = [local_trans_apis, lsock_trans_apis, sysvmq_trans_apis]"

fun trans_create :: "transport_apis list \<Rightarrow> nat \<Rightarrow> nat \<Rightarrow> u32 \<Rightarrow> proc \<Rightarrow> (bool \<times> proc) outcome" where
  "trans_create [] t mbox flags s = Inr (True, s)"
| "trans_create (tr # trs) t mbox flags s =
     (case tr_create tr of
        None \<Rightarrow> trans_create trs t mbox flags s
      | Some create_mbox \<Rightarrow>
          bindE (rc_set t ITC_OK s) (\<lambda>s.
          bindE (create_mbox t mbox flags s) (\<lambda>s.
          bindE (rc_get t s) (\<lambda>rc.
          if rc \<noteq> ITC_OK then Inr (False, s) else trans_create trs t mbox flags s))))"

fun trans_delete :: "transport_apis list \<Rightarrow> nat \<Rightarrow> nat \<Rightarrow> proc \<Rightarrow> (bool \<times> proc) outcome" where
  "trans_delete [] t mbox s = Inr (True, s)"
| "trans_delete (tr # trs) t mbox s =
     (case tr_delete tr of
        None \<Rightarrow> trans_delete trs t mbox s
      | Some delete_mbox \<Rightarrow>
          bindE (rc_set t ITC_OK s) (\<lambda>s.
          bindE (delete_mbox t mbox s) (\<lambda>s.
          bindE (rc_get t s) (\<lambda>rc.
          if rc \<noteq> ITC_OK then Inr (False, s) else trans_delete trs t mbox s))))"

text \<open>\<open>MUTEX_UNLOCK(&(mbox->p_rxq_info->rxq_mtx))\<close>: the pointer must be set.\<close>

definition unlock_rxq :: "nat \<Rightarrow> nat \<Rightarrow> proc \<Rightarrow> proc outcome" where
  "unlock_rxq t mbox s =
     bindE (mbox_at mbox s) (\<lambda>m. if \<not> p_rxq_info m then Inl NullDeref else mutex_unlock t mbox s)"

definition lock_rxq :: "nat \<Rightarrow> nat \<Rightarrow> proc \<Rightarrow> proc outcome" where
  "lock_rxq t mbox s =
     bindE (mbox_at mbox s) (\<lambda>m. if \<not> p_rxq_info m then Inl NullDeref else mutex_lock t mbox s)"

text \<open>The loop of \<open>itc_send\<close> over the transports; each failure releases the receiver's mutex.\<close>

fun trans_send ::
  "transport_apis list \<Rightarrow> nat \<Rightarrow> nat \<Rightarrow> itc_mbox_id \<Rightarrow> nat option \<Rightarrow> proc \<Rightarrow> (bool \<times> proc) outcome" where
  "trans_send [] t message to to_mbox s = Inr (False, s)"
| "trans_send (tr # trs) t message to to_mbox s =
     (case tr_send tr of
        None \<Rightarrow> trans_send trs t message to to_mbox s
      | Some send \<Rightarrow>
          bindE (rc_set t ITC_OK s) (\<lambda>s.
          bindE (send t message to s) (\<lambda>s.
          bindE (rc_get t s) (\<lambda>rc.
          if rc \<noteq> ITC_OK then
            bindE (case to_mbox of None \<Rightarrow> Inr s | Some j \<Rightarrow> unlock_rxq t j s) (\<lambda>s.
            trans_send trs t message to to_mbox s)
          else Inr (True, s)))))"

fun trans_receive :: "transport_apis list \<Rightarrow> nat \<Rightarrow> nat \<Rightarrow> proc \<Rightarrow> (ptr \<times> proc) outcome" where
  "trans_receive [] t mbox s = Inr (None, s)"
| "trans_receive (tr # trs) t mbox s =
     (case tr_receive tr of
        None \<Rightarrow> trans_receive trs t mbox s
      | Some receive \<Rightarrow>
          bindE (rc_set t ITC_OK s) (\<lambda>s.
          bindE (receive t mbox s) (\<lambda>(message, s).
          if message \<noteq> None then Inr (message, s) else trans_receive trs t mbox s)))"

section \<open>Finding mailboxes\<close>

definition find_mbox :: "itc_mbox_id \<Rightarrow> proc \<Rightarrow> nat option" where
  "find_mbox mbox_id s =
     (let ii = itc_inst s in
      if mbox_id AND ii_itccoord_mask ii = ii_my_mbox_id_in_itccoord ii
         \<and> mbox_id AND ii_local_mbox_mask ii < nr_mboxes ii
      then Some (unat (mbox_id AND ii_local_mbox_mask ii)) else None)"

text \<open>
  The tree of \<open>tsearch\<close>, \<open>tfind\<close> and \<open>tdelete\<close>, compared by the names of the mailboxes it points
  to. No two of them have the same name, so the first match is the only one and the order of the
  nodes does not matter.
\<close>

fun tree_find :: "cstr \<Rightarrow> nat list \<Rightarrow> proc \<Rightarrow> nat option outcome" where
  "tree_find name [] s = Inr None"
| "tree_find name (i # is) s =
     bindE (mbox_at i s) (\<lambda>m. if strcmp name (mb_name m) = 0 then Inr (Some i) else tree_find name is s)"

definition locate_local_mbox :: "cstr \<Rightarrow> proc \<Rightarrow> nat option outcome" where
  "locate_local_mbox name s = tree_find name (local_locating_mbox_tree (itc_inst s)) s"

definition insert_mbox_to_tree :: "nat \<Rightarrow> proc \<Rightarrow> (bool \<times> proc) outcome" where
  "insert_mbox_to_tree mbox s =
     bindE (mbox_at mbox s) (\<lambda>m.
     bindE (tree_find (mb_name m) (local_locating_mbox_tree (itc_inst s)) s) (\<lambda>iter.
     if iter \<noteq> None then Inr (False, s)
     else Inr (True, s\<lparr>itc_inst := (itc_inst s)
                 \<lparr>local_locating_mbox_tree := local_locating_mbox_tree (itc_inst s) @ [mbox]\<rparr>\<rparr>)))"

definition remove_mbox_from_tree :: "nat \<Rightarrow> proc \<Rightarrow> (bool \<times> proc) outcome" where
  "remove_mbox_from_tree mbox s =
     bindE (mbox_at mbox s) (\<lambda>m.
     bindE (tree_find (mb_name m) (local_locating_mbox_tree (itc_inst s)) s) (\<lambda>iter.
     case iter of
       None \<Rightarrow> Inr (False, s)
     | Some i \<Rightarrow> Inr (True, s\<lparr>itc_inst := (itc_inst s)
                   \<lparr>local_locating_mbox_tree := remove1 i (local_locating_mbox_tree (itc_inst s))\<rparr>\<rparr>)))"

section \<open>Sending within the host\<close>

text \<open>
  What follows a successful transfer to a mailbox of this process: the first message in the queue
  makes the event descriptor readable, the length is counted, the receiver is woken.
\<close>

definition notify_receiver :: "nat \<Rightarrow> nat \<Rightarrow> proc \<Rightarrow> proc outcome" where
  "notify_receiver t j s =
     bindE (mbox_at j s) (\<lambda>m.
     if \<not> p_rxq_info m then Inr s
     else
       bindE
         (if is_fd_created m \<and> rxq_len m = 0 then
            (case sys_next s of ((write, _), s) \<Rightarrow>
             if write < 0 then Inr s else mbox_upd j (\<lambda>m. m\<lparr>evfd_count := Suc (evfd_count m)\<rparr>) s)
          else Inr s) (\<lambda>s.
       bindE (mbox_upd j (\<lambda>m. m\<lparr>rxq_len := rxq_len m + 1\<rparr>) s) (\<lambda>s.
       mutex_unlock t j s)))"

text \<open>
  \<open>itc_send\<close> without a namespace, or with the namespace of this host. The pointer to the message is
  passed by value; the boolean says whether the call succeeded, after which the code sets the
  caller's pointer to \<open>NULL\<close>.
\<close>

definition itc_send_host ::
  "nat \<Rightarrow> ptr \<Rightarrow> itc_mbox_id \<Rightarrow> itc_mbox_id \<Rightarrow> proc \<Rightarrow> (bool \<times> proc) outcome" where
  "itc_send_host t msg to from s =
     (if mboxes (itc_inst s) = BNull then Inr (False, s)
      else case my_threadlocal_mbox s t of
        None \<Rightarrow> Inr (False, s)
      | Some me \<Rightarrow>
          bindE (mbox_at me s) (\<lambda>my.
          if to = mb_id my then Inr (False, s)
          else if from \<noteq> ITC_MY_MBOX_ID \<and> from \<noteq> mb_id my then Inr (False, s)
          else case msg of
            None \<Rightarrow> Inr (False, s)
          | Some message \<Rightarrow>
              bindE (msg_put OFF_SENDER (mb_id my) (Some message) (msgs s)) (\<lambda>mh.
              bindE (msg_put OFF_RECEIVER to (Some message) mh) (\<lambda>mh.
              case rc_ensure t (s\<lparr>msgs := mh\<rparr>) of (have_rc, s) \<Rightarrow>
              if \<not> have_rc then Inr (False, s)
              else
                bindE (rc_set t ITC_OK s) (\<lambda>s.
                let to_mbox = find_mbox to s in
                bindE
                  (case to_mbox of
                     None \<Rightarrow> Inr (True, s)
                   | Some j \<Rightarrow>
                       bindE (mbox_at j s) (\<lambda>tm.
                       if mb_state tm \<noteq> MBOX_INUSE then Inr (False, s)
                       else bindE (mutex_lock t j s) (\<lambda>s. Inr (True, s)))) (\<lambda>(go, s).
                if \<not> go then Inr (False, s)
                else
                  bindE (trans_send trans_mechanisms t message to to_mbox s) (\<lambda>(sent, s).
                  if \<not> sent then
                    bindE (case to_mbox of None \<Rightarrow> Inr s | Some j \<Rightarrow> unlock_rxq t j s) (\<lambda>s.
                    Inr (False, s))
                  else
                    bindE (case to_mbox of None \<Rightarrow> Inr s | Some j \<Rightarrow> notify_receiver t j s) (\<lambda>s.
                    Inr (True, s)))))))))"

section \<open>Receiving\<close>

text \<open>
  \<open>calc_abs_time\<close> computes the deadline of a timed wait from the current time; the sums are formed in
  64 bits and stored in signed fields. The model does not pass it on: whether the wait times out is part of the list of wake-ups.
\<close>

definition calc_abs_time :: "int \<times> int \<Rightarrow> u64 \<Rightarrow> int \<times> int" where
  "calc_abs_time now tmo =
     (let tv_sec = sint (word_of_int (fst now) + tmo div 1000);
          tv_nsec = sint (word_of_int (snd now) + (tmo mod 1000) * 1000000) in
      if 1000000000 \<le> tv_nsec then (tv_sec + 1, tv_nsec - 1000000000) else (tv_sec, tv_nsec))"

definition calc_time_diff :: "int \<times> int \<Rightarrow> int \<times> int \<Rightarrow> u64" where
  "calc_time_diff t_start t_end =
     word_of_int
       (if snd t_end < snd t_start
        then (fst t_end - fst t_start) * 1000000000 - (snd t_start - snd t_end)
        else (fst t_end - fst t_start) * 1000000000 + (snd t_end - snd t_start))"

text \<open>
  A wake-up: the error number that the wait returns, or none, and what other threads did to the
  state of the process while the mutex was released.
\<close>

type_synonym wakeup = "errno option \<times> (proc \<Rightarrow> proc outcome)"

text \<open>One attempt: take the mutex and ask the transports.\<close>

definition receive_attempt :: "nat \<Rightarrow> nat \<Rightarrow> proc \<Rightarrow> (ptr \<times> proc) outcome" where
  "receive_attempt t mbox s =
     bindE (lock_rxq t mbox s) (\<lambda>s.
     bindE (mbox_upd mbox (\<lambda>m. m\<lparr>is_in_rx := True\<rparr>) s) (\<lambda>s.
     trans_receive trans_mechanisms t mbox s))"

definition leave_rx :: "nat \<Rightarrow> nat \<Rightarrow> proc \<Rightarrow> proc outcome" where
  "leave_rx t mbox s =
     bindE (mbox_upd mbox (\<lambda>m. m\<lparr>is_in_rx := False\<rparr>) s) (\<lambda>s. unlock_rxq t mbox s)"

text \<open>
  A message was found. Taking the last one empties the event descriptor; the descriptor is in
  blocking mode, so reading it waits when its counter is 0.
\<close>

definition receive_got :: "nat \<Rightarrow> nat \<Rightarrow> ptr \<Rightarrow> proc \<Rightarrow> (ptr \<times> proc) outcome" where
  "receive_got t mbox message s =
     bindE (mbox_upd mbox (\<lambda>m. m\<lparr>rxq_len := rxq_len m - 1\<rparr>) s) (\<lambda>s.
     bindE (mbox_at mbox s) (\<lambda>m.
     if is_fd_created m \<and> rxq_len m = 0 then
       (case sys_next s of ((rd, _), s) \<Rightarrow>
        if rd < 0 then bindE (unlock_rxq t mbox s) (\<lambda>s. Inr (None, s))
        else if evfd_count m = 0 then Inl Blocked
        else
          bindE (mbox_upd mbox (\<lambda>m. m\<lparr>evfd_count := 0\<rparr>) s) (\<lambda>s.
          bindE (leave_rx t mbox s) (\<lambda>s. Inr (message, s))))
     else bindE (leave_rx t mbox s) (\<lambda>s. Inr (message, s))))"

text \<open>
  The wait releases the mutex, other threads run, and it takes the mutex again before it returns.
  A negative timeout other than \<open>ITC_WAIT_FOREVER\<close> waits for a deadline that was never computed.
\<close>

definition cond_wait :: "nat \<Rightarrow> nat \<Rightarrow> (proc \<Rightarrow> proc outcome) \<Rightarrow> proc \<Rightarrow> proc outcome" where
  "cond_wait t mbox others s =
     bindE (mutex_unlock t mbox s) (\<lambda>s. bindE (others s) (\<lambda>s. mutex_lock t mbox s))"

fun receive_loop :: "nat \<Rightarrow> nat \<Rightarrow> int \<Rightarrow> wakeup list \<Rightarrow> proc \<Rightarrow> (ptr \<times> proc) outcome" where
  "receive_loop t mbox tmo evs s =
     bindE (receive_attempt t mbox s) (\<lambda>(message, s).
     if message \<noteq> None then receive_got t mbox message s
     else if tmo = ITC_NO_WAIT then bindE (leave_rx t mbox s) (\<lambda>s. Inr (None, s))
     else if tmo \<noteq> ITC_WAIT_FOREVER \<and> tmo < 0 then Inl Undefined
     else case evs of
       [] \<Rightarrow> Inl Blocked
     | (ret, others) # evs \<Rightarrow>
         if tmo = ITC_WAIT_FOREVER then
           bindE (cond_wait t mbox others s) (\<lambda>s.
           if ret \<noteq> None then bindE (unlock_rxq t mbox s) (\<lambda>s. Inr (None, s))
           else bindE (leave_rx t mbox s) (\<lambda>s. receive_loop t mbox tmo evs s))
         else
           bindE (cond_wait t mbox others s) (\<lambda>s.
           if ret = Some ETIMEDOUT then bindE (leave_rx t mbox s) (\<lambda>s. Inr (None, s))
           else if ret \<noteq> None then bindE (unlock_rxq t mbox s) (\<lambda>s. Inr (None, s))
           else bindE (leave_rx t mbox s) (\<lambda>s. receive_loop t mbox tmo evs s)))"

definition itc_receive :: "nat \<Rightarrow> int \<Rightarrow> wakeup list \<Rightarrow> proc \<Rightarrow> (ptr \<times> proc) outcome" where
  "itc_receive t tmo evs s =
     (if mboxes (itc_inst s) = BNull then Inr (None, s)
      else case my_threadlocal_mbox s t of
        None \<Rightarrow> Inr (None, s)
      | Some mbox \<Rightarrow>
          (case rc_ensure t s of (have_rc, s) \<Rightarrow>
           if \<not> have_rc then Inr (None, s)
           else bindE (rc_set t ITC_OK s) (\<lambda>s. receive_loop t mbox tmo evs s)))"

section \<open>Reading a message and the calling thread's mailbox\<close>

definition itc_sender :: "ptr \<Rightarrow> proc \<Rightarrow> itc_mbox_id outcome" where
  "itc_sender msg s = (if msg = None then Inr ITC_NO_MBOX_ID else msg_get OFF_SENDER msg (msgs s))"

definition itc_receiver :: "ptr \<Rightarrow> proc \<Rightarrow> itc_mbox_id outcome" where
  "itc_receiver msg s = (if msg = None then Inr ITC_NO_MBOX_ID else msg_get OFF_RECEIVER msg (msgs s))"

definition itc_size :: "ptr \<Rightarrow> proc \<Rightarrow> u64 outcome" where
  "itc_size msg s =
     (if msg = None then Inr 0 else bindE (msg_get OFF_SIZE msg (msgs s)) (\<lambda>sz. Inr (ucast sz)))"

definition itc_current_mbox :: "nat \<Rightarrow> proc \<Rightarrow> itc_mbox_id outcome" where
  "itc_current_mbox t s =
     (case my_threadlocal_mbox s t of
        Some i \<Rightarrow> bindE (mbox_at i s) (\<lambda>m. Inr (mb_id m))
      | None \<Rightarrow> Inr ITC_NO_MBOX_ID)"

definition itc_get_fd :: "nat \<Rightarrow> proc \<Rightarrow> (int \<times> proc) outcome" where
  "itc_get_fd t s =
     (if mboxes (itc_inst s) = BNull then Inr (-1, s)
      else case my_threadlocal_mbox s t of
        None \<Rightarrow> Inr (-1, s)
      | Some mbox \<Rightarrow>
          (case rc_ensure t s of (have_rc, s) \<Rightarrow>
           if \<not> have_rc then Inr (0, s)
           else
             bindE (rc_set t ITC_OK s) (\<lambda>s.
             bindE (lock_rxq t mbox s) (\<lambda>s.
             bindE (mbox_at mbox s) (\<lambda>m.
             if is_fd_created m then bindE (unlock_rxq t mbox s) (\<lambda>s. Inr (rxq_fd m, s))
             else
               (case sys_next s of ((fd, _), s) \<Rightarrow>
                bindE (mbox_upd mbox (\<lambda>m. m\<lparr>rxq_fd := fd\<rparr>) s) (\<lambda>s.
                if fd = -1 then bindE (unlock_rxq t mbox s) (\<lambda>s. Inr (-1, s))
                else
                  bindE (mbox_upd mbox (\<lambda>m. m\<lparr>is_fd_created := True, evfd_count := 0\<rparr>) s) (\<lambda>s.
                  if rxq_len m \<noteq> 0 then
                    (case sys_next s of ((write, _), s) \<Rightarrow>
                     if write < 0 then bindE (unlock_rxq t mbox s) (\<lambda>s. Inr (-1, s))
                     else
                       bindE (mbox_upd mbox (\<lambda>m. m\<lparr>evfd_count := Suc (evfd_count m)\<rparr>) s) (\<lambda>s.
                       bindE (unlock_rxq t mbox s) (\<lambda>s. Inr (fd, s))))
                  else bindE (unlock_rxq t mbox s) (\<lambda>s. Inr (fd, s))))))))))"

definition itc_get_name :: "nat \<Rightarrow> itc_mbox_id \<Rightarrow> proc \<Rightarrow> cstr option outcome" where
  "itc_get_name t mbox_id s =
     (if mboxes (itc_inst s) = BNull then Inr None
      else case my_threadlocal_mbox s t of
        None \<Rightarrow> Inr None
      | Some i \<Rightarrow> bindE (mbox_at i s) (\<lambda>m. Inr (if mbox_id \<noteq> mb_id m then None else Some (mb_name m))))"

section \<open>Creating and deleting mailboxes\<close>

text \<open>The queue of free mailboxes; its operations work on the thread's result code.\<close>

definition free_dequeue :: "nat \<Rightarrow> proc \<Rightarrow> (nat option \<times> proc) outcome" where
  "free_dequeue t s =
     bindE (bread (free_mboxes_queue (itc_inst s))) (\<lambda>q.
     bindE (rc_get t s) (\<lambda>rc.
     bindE (q_dequeue rc q (qnodes s)) (\<lambda>(mbox, rc, q, h).
     bindE (rc_set t rc s) (\<lambda>s.
     Inr (mbox, s\<lparr>itc_inst := (itc_inst s)\<lparr>free_mboxes_queue := BLive q\<rparr>, qnodes := h\<rparr>)))))"

definition free_enqueue :: "nat \<Rightarrow> nat \<Rightarrow> proc \<Rightarrow> proc outcome" where
  "free_enqueue t mbox s =
     bindE (bread (free_mboxes_queue (itc_inst s))) (\<lambda>q.
     bindE (rc_get t s) (\<lambda>rc.
     bindE (q_enqueue rc (Some mbox) q (qnodes s)) (\<lambda>(rc, q, h).
     bindE (rc_set t rc s) (\<lambda>s.
     Inr (s\<lparr>itc_inst := (itc_inst s)\<lparr>free_mboxes_queue := BLive q\<rparr>, qnodes := h\<rparr>)))))"

text \<open>Stores into the users' part of a message, at an offset from its message number.\<close>

definition usr_put32 :: "nat \<Rightarrow> u32 \<Rightarrow> ptr \<Rightarrow> proc \<Rightarrow> proc outcome" where
  "usr_put32 off w msg s = bindE (msg_put (OFF_MSGNO + off) w msg (msgs s)) (\<lambda>mh. Inr (s\<lparr>msgs := mh\<rparr>))"

definition usr_put :: "nat \<Rightarrow> bytes \<Rightarrow> ptr \<Rightarrow> proc \<Rightarrow> proc outcome" where
  "usr_put off d msg s =
     bindE (hread msg (msgs s)) (\<lambda>bs.
     bindE (put_bytes (OFF_MSGNO + off) d bs) (\<lambda>bs.
     bindE (hupd msg (\<lambda>_. bs) (msgs s)) (\<lambda>mh. Inr (s\<lparr>msgs := mh\<rparr>))))"

definition usr_get32 :: "nat \<Rightarrow> ptr \<Rightarrow> proc \<Rightarrow> u32 outcome" where
  "usr_get32 off msg s = msg_get (OFF_MSGNO + off) msg (msgs s)"

definition usr_get8 :: "nat \<Rightarrow> ptr \<Rightarrow> proc \<Rightarrow> u8 outcome" where
  "usr_get8 off msg s =
     bindE (hread msg (msgs s)) (\<lambda>bs. bindE (get_bytes (OFF_MSGNO + off) 1 bs) (\<lambda>d. Inr (d ! 0)))"

definition usr_cstr :: "nat \<Rightarrow> ptr \<Rightarrow> proc \<Rightarrow> cstr outcome" where
  "usr_cstr off msg s = bindE (hread msg (msgs s)) (\<lambda>bs. cstr_at (OFF_MSGNO + off) bs)"

text \<open>
  The notification of the coordinator about a new or a deleted mailbox, which every process except
  the coordinator's own sends.
\<close>

definition notify_coord :: "nat \<Rightarrow> u32 \<Rightarrow> itc_mbox_id \<Rightarrow> cstr \<Rightarrow> proc \<Rightarrow> proc outcome" where
  "notify_coord t msgno mbox_id name s =
     (if ii_my_mbox_id_in_itccoord (itc_inst s) =
           ii_itccoord_mbox_id (itc_inst s) AND ii_itccoord_mask (itc_inst s)
      then Inr s
      else
        bindE (itc_alloc t (of_nat (NCM_NAME + length name + 1)) msgno s) (\<lambda>(msg, s).
        bindE (usr_put32 NCM_MBOX_ID mbox_id msg s) (\<lambda>s.
        bindE (usr_put NCM_NAME (name @ [0]) msg s) (\<lambda>s.
        bindE (itc_send_host t msg (ii_itccoord_mbox_id (itc_inst s)) mbox_id s) (\<lambda>(res, s).
        if \<not> res then bindE (itc_free t msg s) (\<lambda>(freed, s). Inr s) else Inr s)))))"

definition itc_create_mailbox :: "nat \<Rightarrow> cstr \<Rightarrow> u32 \<Rightarrow> proc \<Rightarrow> (itc_mbox_id \<times> proc) outcome" where
  "itc_create_mailbox t name flags s =
     (if mboxes (itc_inst s) = BNull then Inr (ITC_NO_MBOX_ID, s)
      else if my_threadlocal_mbox s t \<noteq> None then Inr (ITC_NO_MBOX_ID, s)
      else case rc_ensure t s of (have_rc, s) \<Rightarrow>
      if \<not> have_rc then Inr (0, s)
      else
        bindE (rc_set t ITC_OK s) (\<lambda>s.
        bindE (free_dequeue t s) (\<lambda>(new_mbox, s).
        bindE (rc_set t ITC_OK s) (\<lambda>s.
        case new_mbox of
          None \<Rightarrow> Inr (ITC_NO_MBOX_ID, s)
        | Some i \<Rightarrow>
            if ITC_MAX_NAME_LENGTH < length name then Inr (ITC_NO_MBOX_ID, s)
            else if ITC_MAX_NAME_LENGTH < length name + 1 then Inl OutOfBounds
            else
              bindE (mbox_upd i (\<lambda>m. m\<lparr>mb_name := name, mb_flags := flags, p_rxq_info := True,
                                        rxq_len := 0, is_in_rx := False\<rparr>) s) (\<lambda>s.
              bindE (lock_rxq t i s) (\<lambda>s.
              bindE (mbox_upd i (\<lambda>m. m\<lparr>mb_state := MBOX_INUSE, mb_tid := t\<rparr>) s) (\<lambda>s.
              bindE (trans_create trans_mechanisms t i flags s) (\<lambda>(created, s).
              if \<not> created then bindE (unlock_rxq t i s) (\<lambda>s. Inr (ITC_NO_MBOX_ID, s))
              else case sys_zero s of (setspecific, s) \<Rightarrow>
              if \<not> setspecific then bindE (unlock_rxq t i s) (\<lambda>s. Inr (ITC_NO_MBOX_ID, s))
              else
                let s = s\<lparr>destruct_data := (destruct_data s)(t := Some i)\<rparr> in
                bindE (insert_mbox_to_tree i s) (\<lambda>(inserted, s).
                let s = s\<lparr>my_threadlocal_mbox := (my_threadlocal_mbox s)(t := Some i)\<rparr> in
                bindE (unlock_rxq t i s) (\<lambda>s.
                bindE (mbox_at i s) (\<lambda>m.
                bindE (notify_coord t ITC_NOTIFY_COORD_ADD_MBOX (mb_id m) name s) (\<lambda>s.
                Inr (mb_id m, s)))))))))))))"

definition itc_delete_mailbox :: "nat \<Rightarrow> itc_mbox_id \<Rightarrow> proc \<Rightarrow> (bool \<times> proc) outcome" where
  "itc_delete_mailbox t mbox_id s =
     (if mboxes (itc_inst s) = BNull then Inr (False, s)
      else case my_threadlocal_mbox s t of
        None \<Rightarrow> Inr (False, s)
      | Some i \<Rightarrow>
          bindE (mbox_at i s) (\<lambda>m.
          if mbox_id \<noteq> mb_id m then Inr (False, s)
          else
            bindE (remove_mbox_from_tree i s) (\<lambda>(removed, s).
            bindE (lock_rxq t i s) (\<lambda>s.
            bindE (mbox_upd i (\<lambda>m. m\<lparr>mb_state := MBOX_UNUSED\<rparr>) s) (\<lambda>s.
            case rc_ensure t s of (have_rc, s) \<Rightarrow>
            if \<not> have_rc then Inr (False, s)
            else
              bindE (rc_set t ITC_OK s) (\<lambda>s.
              bindE (mutex_unlock t i s) (\<lambda>s.
              bindE
                (if is_fd_created m then
                   (case sys_next s of (close, s) \<Rightarrow> mbox_upd i (\<lambda>m. m\<lparr>is_fd_created := False\<rparr>) s)
                 else Inr s) (\<lambda>s.
              bindE (mutex_lock t i s) (\<lambda>s.
              bindE (notify_coord t ITC_NOTIFY_COORD_RMV_MBOX (mb_id m) (mb_name m) s) (\<lambda>s.
              bindE (trans_delete trans_mechanisms t i s) (\<lambda>(deleted, s).
              if \<not> deleted then Inr (False, s)
              else
                bindE (mbox_upd i (\<lambda>m. m\<lparr>p_rxq_info := False, mb_name := [], mb_tid := 0\<rparr>) s) (\<lambda>s.
                bindE (rc_set t ITC_OK s) (\<lambda>s.
                bindE (free_enqueue t i s) (\<lambda>s.
                bindE (rc_get t s) (\<lambda>rc.
                if rc \<noteq> ITC_OK then Inr (False, s)
                else
                  bindE (mutex_unlock t i s) (\<lambda>s.
                  Inr (True, s\<lparr>my_threadlocal_mbox := (my_threadlocal_mbox s)(t := None)\<rparr>)))))))))))))))))"

text \<open>\<open>mailbox_destructor_at_thread_exit\<close>, called with the data that the thread has set.\<close>

definition mailbox_destructor_at_thread_exit :: "nat \<Rightarrow> nat \<Rightarrow> proc \<Rightarrow> proc outcome" where
  "mailbox_destructor_at_thread_exit t mbox s =
     bindE (mbox_at mbox s) (\<lambda>m.
     bindE
       (if mboxes (itc_inst s) \<noteq> BNull \<and> mb_state m = MBOX_INUSE \<and> my_threadlocal_mbox s t = Some mbox
        then bindE (itc_delete_mailbox t (mb_id m) s) (\<lambda>(deleted, s). Inr s)
        else Inr s) (\<lambda>s.
     if rcs s t = BNull then Inr s
     else bindE (rc_free t s) (\<lambda>s. Inr (s\<lparr>rcs := (rcs s)(t := BNull)\<rparr>))))"

section \<open>Locating mailboxes and sending across hosts\<close>

text \<open>
  \<open>itc_locate_sync\<close> returns the identifier and, unless only this host is searched, whether the
  mailbox is on another host and that host's namespace.
\<close>

definition itc_locate_sync ::
  "nat \<Rightarrow> int \<Rightarrow> cstr \<Rightarrow> bool \<Rightarrow> wakeup list \<Rightarrow> proc \<Rightarrow>
     (itc_mbox_id \<times> (bool \<times> cstr) option \<times> proc) outcome" where
  "itc_locate_sync t timeout name find_only_internal evs s =
     (if mboxes (itc_inst s) = BNull then Inr (ITC_NO_MBOX_ID, None, s)
      else case my_threadlocal_mbox s t of
        None \<Rightarrow> Inr (ITC_NO_MBOX_ID, None, s)
      | Some me \<Rightarrow>
          bindE (locate_local_mbox name s) (\<lambda>found.
          case found of
            Some i \<Rightarrow>
              bindE (mbox_at i s) (\<lambda>m.
              Inr (mb_id m, if find_only_internal then None else Some (False, []), s))
          | None \<Rightarrow>
              bindE (itc_alloc t (of_nat (LMQ_NAME + length name + 1)) ITC_LOCATE_MBOX_SYNC_REQUEST s) (\<lambda>(msg, s).
              bindE (mbox_at me s) (\<lambda>my.
              bindE (usr_put32 LMQ_FROM_MBOX (mb_id my) msg s) (\<lambda>s.
              bindE (usr_put32 LMQ_TIMEOUT (word_of_int timeout) msg s) (\<lambda>s.
              bindE (usr_put LMQ_INTERNAL [if find_only_internal then 1 else 0] msg s) (\<lambda>s.
              bindE (usr_put LMQ_NAME (name @ [0]) msg s) (\<lambda>s.
              bindE (itc_send_host t msg (ii_itccoord_mbox_id (itc_inst s)) ITC_MY_MBOX_ID s) (\<lambda>(res, s).
              if \<not> res then bindE (itc_free t msg s) (\<lambda>(freed, s). Inr (ITC_NO_MBOX_ID, None, s))
              else
                bindE (itc_receive t timeout evs s) (\<lambda>(msg, s).
                if msg = None then Inr (0, None, s)
                else
                  bindE (usr_get32 0 msg s) (\<lambda>msgno.
                  if msgno \<noteq> ITC_LOCATE_MBOX_SYNC_REPLY
                  then bindE (itc_free t msg s) (\<lambda>(freed, s). Inr (ITC_NO_MBOX_ID, None, s))
                  else
                    bindE (usr_get32 LMR_MBOX_ID msg s) (\<lambda>mbox_id.
                    bindE
                      (if find_only_internal then Inr None
                       else bindE (usr_get8 LMR_EXTERNAL msg s) (\<lambda>is_external.
                            bindE (usr_cstr LMR_NAMESPACE msg s) (\<lambda>ns.
                            Inr (Some (is_external \<noteq> 0, ns))))) (\<lambda>ext.
                    bindE (itc_free t msg s) (\<lambda>(freed, s).
                    Inr (mbox_id, ext, s)))))))))))))))"

definition ITC_GATEWAY_MBOX_UDP_NAME :: cstr where
  "ITC_GATEWAY_MBOX_UDP_NAME = ascii ''itc_gw_udp_mailbox''"

definition ITC_GATEWAY_MBOX_TCP_CLI_NAME :: cstr where
  "ITC_GATEWAY_MBOX_TCP_CLI_NAME = ascii ''itcgw_tcpclient_mailbox''"

definition ITC_GATEWAY_ETH_PACKET_SIZE :: nat where [simp]: "ITC_GATEWAY_ETH_PACKET_SIZE = 1500"

text \<open>\<open>evs1\<close> are the wake-ups of the lookup, \<open>evs2\<close> those of the wait for the gateway's reply.\<close>

definition itc_get_namespace ::
  "nat \<Rightarrow> int \<Rightarrow> wakeup list \<Rightarrow> wakeup list \<Rightarrow> proc \<Rightarrow> (cstr option \<times> proc) outcome" where
  "itc_get_namespace t timeout evs1 evs2 s =
     (if mboxes (itc_inst s) = BNull then Inr (None, s)
      else case my_threadlocal_mbox s t of
        None \<Rightarrow> Inr (None, s)
      | Some me \<Rightarrow>
          if strcmp (ii_namespace (itc_inst s)) [] \<noteq> 0 then Inr (Some (ii_namespace (itc_inst s)), s)
          else
            bindE (itc_alloc t (of_nat GNQ_SIZE) ITC_GET_NAMESPACE_REQUEST s) (\<lambda>(req, s).
            bindE (mbox_at me s) (\<lambda>my.
            bindE (usr_put32 GNQ_MBOX_ID (mb_id my) req s) (\<lambda>s.
            bindE (itc_locate_sync t timeout ITC_GATEWAY_MBOX_UDP_NAME True evs1 s) (\<lambda>(udp, ext, s).
            if udp = ITC_NO_MBOX_ID then bindE (itc_free t req s) (\<lambda>(freed, s). Inr (None, s))
            else
              bindE (itc_send_host t req udp ITC_MY_MBOX_ID s) (\<lambda>(res, s).
              if \<not> res then bindE (itc_free t req s) (\<lambda>(freed, s). Inr (None, s))
              else
                bindE (itc_receive t timeout evs2 s) (\<lambda>(rep, s).
                if rep = None then Inr (None, s)
                else
                  bindE (usr_get32 0 rep s) (\<lambda>msgno.
                  if msgno \<noteq> ITC_GET_NAMESPACE_REPLY
                  then bindE (itc_free t rep s) (\<lambda>(freed, s). Inr (None, s))
                  else
                    bindE (usr_cstr GNR_NAMESPACE rep s) (\<lambda>ns.
                    if ITC_MAX_NAME_LENGTH < length ns + 1 then Inl OutOfBounds
                    else
                      bindE (itc_free t rep (s\<lparr>itc_inst := (itc_inst s)\<lparr>ii_namespace := ns\<rparr>\<rparr>)) (\<lambda>(freed, s).
                      Inr (Some ns, s)))))))))))"

text \<open>
  \<open>handle_forward_itc_msg_to_itcgw\<close>: the message, without its end marker, becomes the payload of a
  message to the gateway. The rest of the name field is cleared.
\<close>

definition handle_forward_itc_msg_to_itcgw ::
  "nat \<Rightarrow> nat \<Rightarrow> itc_mbox_id \<Rightarrow> cstr \<Rightarrow> wakeup list \<Rightarrow> proc \<Rightarrow> (bool \<times> proc) outcome" where
  "handle_forward_itc_msg_to_itcgw t message to namespace evs s =
     (case my_threadlocal_mbox s t of
        None \<Rightarrow> Inl NullDeref
      | Some me \<Rightarrow>
          bindE (mbox_at me s) (\<lambda>my.
          bindE (msg_put OFF_SENDER (mb_id my) (Some message) (msgs s)) (\<lambda>mh.
          bindE (msg_put OFF_RECEIVER to (Some message) mh) (\<lambda>mh.
          bindE (msg_get OFF_SIZE (Some message) mh) (\<lambda>sz.
          let s = s\<lparr>msgs := mh\<rparr>; payload_len = unat (sz + of_nat ITC_HEADER_SIZE) in
          if ITC_GATEWAY_ETH_PACKET_SIZE < payload_len then Inr (False, s)
          else
            bindE (itc_alloc t (of_nat (FWD_PAYLOAD + payload_len)) ITC_FWD_DATA_TO_ITCGWS s) (\<lambda>(req, s).
            bindE (usr_put FWD_NAMESPACE (namespace @ [0]) req s) (\<lambda>s.
            bindE (if FWD_LENGTH - FWD_NAMESPACE < length namespace + 1 then Inl OutOfBounds
                   else usr_put (FWD_NAMESPACE + length namespace + 1)
                          (replicate (FWD_LENGTH - FWD_NAMESPACE - length namespace - 1) 0) req s) (\<lambda>s.
            bindE (usr_put32 FWD_LENGTH (of_nat payload_len) req s) (\<lambda>s.
            bindE (hread (Some message) (msgs s)) (\<lambda>bs.
            bindE (get_bytes 0 payload_len bs) (\<lambda>payload.
            bindE (usr_put FWD_PAYLOAD payload req s) (\<lambda>s.
            bindE
              (if itcgw_mboxid (itc_inst s) = ITC_NO_MBOX_ID then
                 bindE (itc_locate_sync t 1000 ITC_GATEWAY_MBOX_TCP_CLI_NAME True evs s) (\<lambda>(gw, ext, s).
                 Inr (s\<lparr>itc_inst := (itc_inst s)\<lparr>itcgw_mboxid := gw\<rparr>\<rparr>))
               else Inr s) (\<lambda>s.
            if itcgw_mboxid (itc_inst s) = ITC_NO_MBOX_ID
            then bindE (itc_free t req s) (\<lambda>(freed, s). Inr (False, s))
            else
              bindE (itc_send_host t req (itcgw_mboxid (itc_inst s)) ITC_MY_MBOX_ID s) (\<lambda>(res, s).
              if \<not> res then bindE (itc_free t req s) (\<lambda>(freed, s). Inr (False, s))
              else Inr (True, s)))))))))))))))"

definition itc_send ::
  "nat \<Rightarrow> ptr \<Rightarrow> itc_mbox_id \<Rightarrow> itc_mbox_id \<Rightarrow> cstr option \<Rightarrow> wakeup list \<Rightarrow> proc \<Rightarrow> (bool \<times> proc) outcome" where
  "itc_send t msg to from ns evs s =
     (case ns of
        None \<Rightarrow> itc_send_host t msg to from s
      | Some n \<Rightarrow>
          if strcmp n (ii_namespace (itc_inst s)) = 0 then itc_send_host t msg to from s
          else if mboxes (itc_inst s) = BNull then Inr (False, s)
          else case my_threadlocal_mbox s t of
            None \<Rightarrow> Inr (False, s)
          | Some me \<Rightarrow>
              bindE (mbox_at me s) (\<lambda>my.
              if from \<noteq> ITC_MY_MBOX_ID \<and> from \<noteq> mb_id my then Inr (False, s)
              else case msg of
                None \<Rightarrow> Inr (False, s)
              | Some message \<Rightarrow>
                  bindE (handle_forward_itc_msg_to_itcgw t message to n evs s) (\<lambda>(forwarded, s).
                  if \<not> forwarded then Inr (False, s)
                  else bindE (itc_free t msg s) (\<lambda>(freed, s). Inr (True, s)))))"

section \<open>Deadlines\<close>

text \<open>The reference: a time as one number of nanoseconds.\<close>

definition timespec_ns :: "int \<times> int \<Rightarrow> int" where
  "timespec_ns ts = fst ts * 1000000000 + snd ts"

definition ns_timespec :: "int \<Rightarrow> int \<times> int" where
  "ns_timespec ns = (ns div 1000000000, ns mod 1000000000)"

lemma sint_add_small:
  fixes w :: u64
  assumes "0 \<le> a" and "a + uint w < 2 ^ 63"
  shows "sint (word_of_int a + w) = a + uint w"
proof -
  have "word_of_int a + w = (word_of_int (a + uint w) :: u64)" by simp
  moreover have "0 \<le> a + uint w" using assms(1) by simp
  ultimately show ?thesis
    using assms(2) signed_take_bit_int_eq_self [of 63 "a + uint w"] by (simp only:) (simp add: signed_of_int del: of_int_add)
qed

lemma ns_timespec_carry:
  assumes "0 \<le> n" and "n < 2000000000"
  shows "ns_timespec (s * 1000000000 + n) = (if 1000000000 \<le> n then (s + 1, n - 1000000000) else (s, n))"
proof -
  have "n div 1000000000 = (if 1000000000 \<le> n then 1 else 0)" using assms by auto
  then show ?thesis using minus_div_mult_eq_mod [of n 1000000000] by (auto simp: ns_timespec_def)
qed

lemma calc_abs_time_ns:
  assumes "0 \<le> fst now" and "fst now < 2 ^ 62" and "0 \<le> snd now" and "snd now < 1000000000"
  shows "calc_abs_time now tmo = ns_timespec (timespec_ns now + uint tmo * 1000000)"
proof -
  have u: "uint (tmo div 1000) = uint tmo div 1000" "uint ((tmo mod 1000) * 1000000) = (uint tmo mod 1000) * 1000000"
    by (simp_all add: uint_div_distrib uint_mod_distrib uint_word_ariths mod_pos_pos_trivial)
  have t: "uint tmo < 2 ^ 64" using uint_bounded [of tmo] by simp
  have "sint (word_of_int (fst now) + tmo div 1000) = fst now + uint tmo div 1000"
    using sint_add_small [of "fst now" "tmo div 1000"] assms(1,2) t u(1) by simp
  moreover have "sint (word_of_int (snd now) + (tmo mod 1000) * 1000000) = snd now + uint tmo mod 1000 * 1000000"
    using sint_add_small [of "snd now" "(tmo mod 1000) * 1000000"] assms(3,4) u(2) by simp
  moreover have sum: "timespec_ns now + uint tmo * 1000000 =
      (fst now + uint tmo div 1000) * 1000000000 + (snd now + uint tmo mod 1000 * 1000000)"
  proof -
    define q r where "q = uint tmo div 1000" and "r = uint tmo mod 1000"
    have "uint tmo = q * 1000 + r" by (simp add: q_def r_def)
    then show ?thesis unfolding timespec_ns_def q_def [symmetric] r_def [symmetric] by simp
  qed
  have "0 \<le> snd now + uint tmo mod 1000 * 1000000" "snd now + uint tmo mod 1000 * 1000000 < 2000000000"
    using assms(3,4) by (simp, smt (verit) pos_mod_bound)
  moreover note ns_timespec_carry [OF this, of "fst now + uint tmo div 1000"]
  ultimately show ?thesis by (simp only: calc_abs_time_def Let_def sum)
qed

text \<open>
  The deadline of a timed wait: adding the milliseconds to the seconds and to the nanoseconds of
  the clock, with one carry, is adding them to the time as one number of nanoseconds and splitting the sum
  again; the difference of the deadline and the clock, as \<open>calc_time_diff\<close> computes it, is the wait.
\<close>

theorem deadline_is_exact:
  assumes "0 \<le> fst now" and "fst now < 2 ^ 62" and "0 \<le> snd now" and "snd now < 1000000000"
  shows "calc_abs_time now tmo = ns_timespec (timespec_ns now + uint tmo * 1000000) \<and>
           (uint tmo * 1000000 < 2 ^ 63 \<longrightarrow> uint (calc_time_diff now (calc_abs_time now tmo)) = uint tmo * 1000000)"
proof -
  have d: "calc_time_diff a b = word_of_int (timespec_ns b - timespec_ns a)" for a b
    by (simp add: calc_time_diff_def timespec_ns_def algebra_simps)
  have "timespec_ns (ns_timespec x) = x" for x by (simp add: timespec_ns_def ns_timespec_def)
  then have "calc_time_diff now (calc_abs_time now tmo) = word_of_int (uint tmo * 1000000)"
    using calc_abs_time_ns [OF assms] by (simp add: d del: of_int_mult)
  then show ?thesis
    using calc_abs_time_ns [OF assms] by (simp add: unsigned_of_int take_bit_int_eq_self del: of_int_mult)
qed

theorem deadline_is_exact_witness:
  "calc_abs_time (5, 999000000) 1002 = (7, 1000000) \<and>
     uint (calc_time_diff (5, 999000000) (calc_abs_time (5, 999000000) 1002)) = 1002000000"
  using deadline_is_exact [of "(5, 999000000)" 1002] by (auto simp: timespec_ns_def ns_timespec_def)
end
