(* ===== verification/Itc_Sysvmq_Rx.thy ===== *)
theory Itc_Sysvmq_Rx
  imports Itc_Core
begin

text \<open>
  \<open>sw/itc/src/transporters/itc_sysvmq.c\<close>, the receiving thread: it owns a mailbox of the process,
  takes messages from the process's System V message queue and sends copies of them to the local
  mailboxes they are addressed to.
\<close>

unbundle bit_operations_syntax

section \<open>Passing a message on\<close>

text \<open>
  The buffer holds the type of a System V message in its first 8 bytes and the sender's message
  block behind it.
\<close>

definition MTYPE_SIZE :: nat where [simp]: "MTYPE_SIZE = 8"

definition forward_sysvmq_msg :: "nat \<Rightarrow> bytes \<Rightarrow> proc \<Rightarrow> proc outcome" where
  "forward_sysvmq_msg t buffer s =
     bindE (get32 (MTYPE_SIZE + OFF_SIZE) buffer) (\<lambda>sz.
     bindE (get_bytes (MTYPE_SIZE + OFF_MSGNO + unat sz) 1 buffer) (\<lambda>endpoint.
     if endpoint \<noteq> [ENDPOINT] then Inr s
     else
       bindE (itc_alloc t (ucast sz) 0 s) (\<lambda>(msg, s).
       bindE (msg_get OFF_FLAGS msg (msgs s)) (\<lambda>flags.
       bindE (get_bytes MTYPE_SIZE (unat (sz + of_nat ITC_HEADER_SIZE + 1)) buffer) (\<lambda>rxmsg.
       bindE (hread msg (msgs s)) (\<lambda>bs.
       bindE (put_bytes 0 rxmsg bs) (\<lambda>bs.
       bindE (hupd msg (\<lambda>_. bs) (msgs s)) (\<lambda>mh.
       bindE (msg_put OFF_FLAGS (ucast (ucast flags :: u16)) msg mh) (\<lambda>mh.
       bindE (msg_get OFF_RECEIVER msg mh) (\<lambda>receiver.
       bindE (itc_send_host t msg receiver ITC_MY_MBOX_ID (s\<lparr>msgs := mh\<rparr>)) (\<lambda>(sent, s).
       Inr s)))))))))))"

section \<open>The thread\<close>

definition hex_digit :: "nat \<Rightarrow> u8" where
  "hex_digit n = of_nat (if n < 10 then 48 + n else 87 + n)"

definition hex32 :: "u32 \<Rightarrow> cstr" where
  "hex32 w = map (\<lambda>i. hex_digit (unat (drop_bit (4 * i) w) mod 16)) (rev [0..<8])"

definition rx_mbox_name :: "itc_mbox_id \<Rightarrow> cstr" where
  "rx_mbox_name my = ascii ''itc_rx_sysvmq_0x'' @ hex32 my"

text \<open>
  What the thread does before it releases the mutex that \<open>start_itcthreads\<close> waits for. Returning
  early leaves the mutex locked. The outcome of the call that reads the state of the queue is the
  number of messages in it, or -1, in which case the number is read from uninitialised memory.
\<close>

definition sysvmq_rx_boot :: "nat \<Rightarrow> proc \<Rightarrow> proc outcome" where
  "sysvmq_rx_boot t s =
     (case sys_next s of ((prctl, _), s) \<Rightarrow>
      if prctl = -1 then Inr s
      else
        bindE (itc_create_mailbox t (rx_mbox_name (sv_my_mbox_id_in_itccoord (sysvmq_inst s))) ITC_NO_NAMESPACE s)
          (\<lambda>(mbox_id, s).
        let s = sv_set (\<lambda>v. v\<lparr>sv_my_mbox_id := mbox_id\<rparr>) s in
        case sys_zero s of (setspecific, s) \<Rightarrow>
        if \<not> setspecific then Inr s
        else case sys_next s of (ftok, s) \<Rightarrow>
        case sys_next s of ((msgget, _), s) \<Rightarrow>
        let s = sv_set (\<lambda>v. v\<lparr>my_sysvmq_id := msgget\<rparr>) s in
        case sys_next s of ((msg_qnum, _), s) \<Rightarrow>
        if msg_qnum = -1 then Inl Undefined
        else
          let s = (if msg_qnum \<noteq> 0 then
                     (case sys_next s of (rmid, s) \<Rightarrow>
                      case sys_next s of ((msgget, _), s) \<Rightarrow> sv_set (\<lambda>v. v\<lparr>my_sysvmq_id := msgget\<rparr>) s)
                   else s)
          in
          case malloc_ok s of (rc_tmp, s) \<Rightarrow>
          bindE (sysvmq_maxmsgsize t s) (\<lambda>(size, s).
          case malloc_ok s of (buf, s) \<Rightarrow>
          if \<not> buf then Inr (sv_set (\<lambda>v. v\<lparr>rx_buffer := BNull\<rparr>) s)
          else
            Inr (start_mtx_unlock (Some SYSVMQ_THREAD_MTX)
                  (sv_set (\<lambda>v. v\<lparr>rx_buffer := BLive (replicate (nat size) 0)\<rparr>) s)))))"

text \<open>
  One round of the endless loop. \<open>repeat\<close> is the variable of that name; the result is its new
  value, or \<open>None\<close> when the loop ends. \<open>msgrcv\<close> delivers the bytes behind the type.
\<close>

definition rx_round :: "nat \<Rightarrow> bool \<Rightarrow> proc \<Rightarrow> (bool option \<times> proc) outcome" where
  "rx_round t rpt s =
     (if sv_is_terminated (sysvmq_inst s) then Inr (None, s)
      else
        bindE (bread (rx_buffer (sysvmq_inst s))) (\<lambda>buf.
        case recv_call s of ((rx_len, errno), d, s) \<Rightarrow>
        if rx_len < 0 \<and> (errno = EIDRM \<or> errno = EINVAL) \<and> \<not> rpt then Inr (Some True, s)
        else if rx_len \<le> int (MTYPE_SIZE + ITC_HEADER_SIZE) then Inr (Some rpt, s)
        else
          bindE (put_bytes MTYPE_SIZE d buf) (\<lambda>buf.
          bindE (forward_sysvmq_msg t buf (sv_set (\<lambda>v. v\<lparr>rx_buffer := BLive buf\<rparr>) s)) (\<lambda>s.
          Inr (Some False, s)))))"

fun rx_rounds :: "nat \<Rightarrow> nat \<Rightarrow> bool \<Rightarrow> proc \<Rightarrow> proc outcome" where
  "rx_rounds t 0 rpt s = Inr s"
| "rx_rounds t (Suc n) rpt s =
     bindE (rx_round t rpt s) (\<lambda>(next, s). case next of None \<Rightarrow> Inr s | Some rpt \<Rightarrow> rx_rounds t n rpt s)"

definition rxthread_destructor :: "proc \<Rightarrow> proc outcome" where
  "rxthread_destructor s =
     (let s = (if my_sysvmq_id (sysvmq_inst s) \<noteq> -1 then
                 (case sys_next s of (rmid, s) \<Rightarrow>
                  sv_set (\<lambda>v. v\<lparr>sv_is_terminated := True, my_sysvmq_id := -1\<rparr>) s)
               else s)
      in bindE (bfree (rx_buffer (sysvmq_inst s))) (\<lambda>b. Inr (sv_set (\<lambda>v. v\<lparr>rx_buffer := b\<rparr>) s)))"

end
