(* ===== verification/Itc_Init.thy ===== *)
theory Itc_Init
  imports Itc_Sysvmq_Rx
begin

text \<open>
  \<open>sw/itc/src/itc.c\<close>: starting and stopping the framework in a process. The threads it starts run
  up to the release of their start mutex while \<open>itc_init\<close> waits for them, and their destructors run
  while \<open>itc_exit\<close> joins them.
\<close>

unbundle bit_operations_syntax

section \<open>Threads of the framework\<close>

definition itc_boot :: boot where
  "itc_boot worker tid s = (if worker = SYSVMQ_RX_THREAD then sysvmq_rx_boot tid s else Inl Undefined)"

definition itc_dtor :: boot where
  "itc_dtor worker tid s =
     bindE (case destruct_data s tid of None \<Rightarrow> Inr s
            | Some mbox \<Rightarrow> mailbox_destructor_at_thread_exit tid mbox s) (\<lambda>s.
     if worker = SYSVMQ_RX_THREAD then rxthread_destructor s else Inr s)"

section \<open>Loops over the transports\<close>

fun trans_maxmsgsize :: "transport_apis list \<Rightarrow> nat \<Rightarrow> int \<Rightarrow> proc \<Rightarrow> (int \<times> proc) outcome" where
  "trans_maxmsgsize [] t max_msgsize s = Inr (max_msgsize, s)"
| "trans_maxmsgsize (tr # trs) t max_msgsize s =
     (case tr_maxmsgsize tr of
        None \<Rightarrow> trans_maxmsgsize trs t max_msgsize s
      | Some f \<Rightarrow>
          bindE (f t s) (\<lambda>(msgsize, s).
          bindE (rc_set t ITC_OK s) (\<lambda>s.
          trans_maxmsgsize trs t (if max_msgsize < msgsize then msgsize else max_msgsize) s)))"

fun trans_locate :: "transport_apis list \<Rightarrow> nat \<Rightarrow> proc \<Rightarrow> (bool \<times> proc) outcome" where
  "trans_locate [] t s = Inr (False, s)"
| "trans_locate (tr # trs) t s =
     (case tr_locate tr of
        None \<Rightarrow> trans_locate trs t s
      | Some f \<Rightarrow> bindE (f t s) (\<lambda>(found, s). if found then Inr (True, s) else trans_locate trs t s))"

fun trans_init :: "transport_apis list \<Rightarrow> nat \<Rightarrow> u32 \<Rightarrow> proc \<Rightarrow> (bool \<times> proc) outcome" where
  "trans_init [] t flags s = Inr (True, s)"
| "trans_init (tr # trs) t flags s =
     (case tr_init tr of
        None \<Rightarrow> trans_init trs t flags s
      | Some f \<Rightarrow>
          bindE (rc_set t ITC_OK s) (\<lambda>s.
          bindE (f t (ii_my_mbox_id_in_itccoord (itc_inst s)) (ii_itccoord_mask (itc_inst s))
                   (nr_mboxes (itc_inst s)) flags s) (\<lambda>s.
          bindE (rc_get t s) (\<lambda>rc.
          if rc \<noteq> ITC_OK then Inr (False, s) else trans_init trs t flags s))))"

fun trans_exit :: "transport_apis list \<Rightarrow> nat \<Rightarrow> proc \<Rightarrow> (bool \<times> proc) outcome" where
  "trans_exit [] t s = Inr (True, s)"
| "trans_exit (tr # trs) t s =
     (case tr_exit tr of
        None \<Rightarrow> trans_exit trs t s
      | Some f \<Rightarrow>
          bindE (rc_set t ITC_OK s) (\<lambda>s.
          bindE (f t s) (\<lambda>s.
          bindE (rc_get t s) (\<lambda>rc.
          if rc \<noteq> ITC_OK then Inr (False, s) else trans_exit trs t s))))"

section \<open>\<open>itc_init\<close>\<close>

text \<open>Both limits are only asked for; a failure is traced.\<close>

definition change_system_rlimit :: "proc \<Rightarrow> proc" where
  "change_system_rlimit s = (case sys_next s of (msgqueue, s) \<Rightarrow> case sys_next s of (nofile, s) \<Rightarrow> s)"

definition release_all_itc_resources :: "nat \<Rightarrow> proc \<Rightarrow> proc outcome" where
  "release_all_itc_resources t s =
     (case sys_zero s of (key_delete, s) \<Rightarrow>
      if \<not> key_delete then Inr s
      else
        bindE (bfree (mboxes (itc_inst s))) (\<lambda>b.
        bindE (rc_free t s) (\<lambda>s.
        Inr (s\<lparr>rcs := (rcs s)(t := BNull), itc_inst := itc_instance0,
               my_threadlocal_mbox := (my_threadlocal_mbox s)(t := None)\<rparr>))))"

text \<open>Calls that all have to return 0, up to the first that does not.\<close>

fun sys_zeros :: "nat \<Rightarrow> proc \<Rightarrow> bool \<times> proc" where
  "sys_zeros 0 s = (True, s)"
| "sys_zeros (Suc n) s = (case sys_zero s of (ok, s) \<Rightarrow> if ok then sys_zeros n s else (False, s))"

text \<open>
  The loop that prepares the mailboxes: six calls for the mutex and the condition variable of each,
  the queue of free mailboxes with the first one, and every mailbox goes into the queue.
\<close>

definition init_free_queue :: "nat \<Rightarrow> proc \<Rightarrow> proc outcome" where
  "init_free_queue t s =
     (case malloc_ok s of (m1, s) \<Rightarrow>
      case (if m1 then malloc_ok s else (False, s)) of (m2, s) \<Rightarrow>
      case (if m1 \<and> m2 then sys_next s else ((0, EOTHER), s)) of ((ret, _), s) \<Rightarrow>
      bindE (rc_get t s) (\<lambda>rc.
      case q_init rc m1 m2 ret of (q, rc) \<Rightarrow>
      bindE (rc_set t rc s) (\<lambda>s.
      Inr (s\<lparr>itc_inst := (itc_inst s)
               \<lparr>free_mboxes_queue := (case q of None \<Rightarrow> BNull | Some q \<Rightarrow> BLive q)\<rparr>\<rparr>))))"

fun init_mboxes :: "nat \<Rightarrow> nat list \<Rightarrow> proc \<Rightarrow> (bool \<times> proc) outcome" where
  "init_mboxes t [] s = Inr (True, s)"
| "init_mboxes t (i # is) s =
     bindE (mbox_upd i (\<lambda>m. m\<lparr>mb_id := ii_my_mbox_id_in_itccoord (itc_inst s) OR of_nat i\<rparr>) s) (\<lambda>s.
     case sys_zeros 6 s of (ok, s) \<Rightarrow>
     if \<not> ok then Inr (False, s)
     else
       bindE (if i = 0 then bindE (init_free_queue t s) (rc_set t ITC_OK) else Inr s) (\<lambda>s.
       bindE (free_enqueue t i s) (\<lambda>s.
       bindE (rc_set t ITC_OK s) (\<lambda>s.
       init_mboxes t is s))))"

text \<open>\<open>free(rc); return false;\<close>: the thread's pointer keeps the address of the released block.\<close>

definition fail_init :: "nat \<Rightarrow> proc \<Rightarrow> (bool \<times> proc) outcome" where
  "fail_init t s = bindE (rc_free t s) (\<lambda>s. Inr (False, s))"

text \<open>
  From the allocation of the mailboxes to the end. \<open>nr\<close> already counts the extra mailbox of the
  receiving thread; a negative number asks for more memory than there is.
\<close>

definition itc_init_mailboxes :: "nat \<Rightarrow> int \<Rightarrow> u32 \<Rightarrow> proc \<Rightarrow> (bool \<times> proc) outcome" where
  "itc_init_mailboxes t nr flags s =
     (case malloc_ok s of (ok, s) \<Rightarrow>
      if \<not> ok \<or> nr < 0 then fail_init t (s\<lparr>itc_inst := (itc_inst s)\<lparr>mboxes := BNull\<rparr>\<rparr>)
      else if nr = 0 then Inl Undefined
      else
        let s = s\<lparr>itc_inst := (itc_inst s)
                    \<lparr>mboxes := BLive (replicate (nat nr) itc_mailbox0),
                     ii_local_mbox_mask := drop_bit (clz32 (word_of_int nr)) 0xFFFFFFFF,
                     nr_mboxes := word_of_int nr\<rparr>\<rparr>
        in
        bindE (init_mboxes t [0..<nat nr] s) (\<lambda>(ok, s).
        if \<not> ok then fail_init t s
        else case sys_zeros 2 s of (key_and_mutex, s) \<Rightarrow>
        if \<not> key_and_mutex then fail_init t s
        else
          bindE (trans_init trans_mechanisms t flags s) (\<lambda>(ok, s).
          if \<not> ok then fail_init t s
          else
            bindE (start_itcthreads itc_boot t s) (\<lambda>s.
            bindE (rc_get t s) (\<lambda>rc.
            if rc \<noteq> ITC_OK then fail_init t s else Inr (True, s))))))"

definition itc_init :: "nat \<Rightarrow> int \<Rightarrow> bool \<Rightarrow> u32 \<Rightarrow> proc \<Rightarrow> (bool \<times> proc) outcome" where
  "itc_init t nr use_malloc init_flags s =
     (case (if rcs s t = BNull then rc_ensure t s else (True, s)) of (have_rc, s') \<Rightarrow>
      if \<not> have_rc then Inr (False, s')
      else
        bindE (if rcs s t = BNull then Inr s' else rc_set t ITC_OK s') (\<lambda>s.
        if mboxes (itc_inst s) \<noteq> BNull \<and> cur_pid s = ii_pid (itc_inst s) then fail_init t s
        else
          bindE
            (if mboxes (itc_inst s) \<noteq> BNull then
               bindE (if alloc_ready s then bindE (malloc_exit t s) (rc_set t ITC_OK) else Inr s) (\<lambda>s.
               bindE (release_all_itc_resources t s) (\<lambda>s.
               Inr (ITC_FLAGS_FORCE_REINIT, s)))
             else Inr (0, s)) (\<lambda>(flags, s).
          let s = change_system_rlimit
                    (s\<lparr>itc_inst := (itc_inst s)\<lparr>ii_pid := cur_pid s, itcgw_mboxid := ITC_NO_MBOX_ID\<rparr>\<rparr>)
          in case sys_zero s of (mutex_init, s) \<Rightarrow>
          if \<not> mutex_init then fail_init t s
          else
            let s = (if use_malloc then s\<lparr>alloc_ready := True\<rparr> else s) in
            bindE (trans_maxmsgsize trans_mechanisms t ITC_MAX_MSGSIZE s) (\<lambda>(max_msgsize, s).
            bindE (if alloc_ready s then bindE (malloc_init t max_msgsize s) (rc_set t ITC_OK) else Inr s) (\<lambda>s.
            bindE
              (if init_flags AND ITC_FLAGS_I_AM_ITC_COORD \<noteq> 0 then
                 Inr (True, s\<lparr>itc_inst := (itc_inst s)
                        \<lparr>ii_itccoord_mask := ITC_COORD_MASK,
                         ii_itccoord_mbox_id := push_bit ITC_COORD_SHIFT 1 OR 1,
                         ii_my_mbox_id_in_itccoord := push_bit ITC_COORD_SHIFT 1\<rparr>\<rparr>)
               else
                 bindE (trans_locate trans_mechanisms t s) (\<lambda>(found, s).
                 if \<not> found then Inr (False, s) else bindE (rc_set t ITC_OK s) (\<lambda>s. Inr (True, s)))) (\<lambda>(ok, s).
            if \<not> ok then fail_init t s else itc_init_mailboxes t (nr + 1) flags s))))))"

section \<open>\<open>itc_exit\<close>\<close>

text \<open>The first loop counts the mailboxes in use, holding the mutex of each while it looks.\<close>

fun exit_scan :: "nat \<Rightarrow> nat list \<Rightarrow> nat \<Rightarrow> proc \<Rightarrow> (bool \<times> proc) outcome" where
  "exit_scan t [] running s = Inr (True, s)"
| "exit_scan t (i # is) running s =
     bindE (mutex_lock t i s) (\<lambda>s.
     bindE (mbox_at i s) (\<lambda>m.
     bindE (mutex_unlock t i s) (\<lambda>s.
     let running = (if mb_state m = MBOX_INUSE then Suc running else running) in
     if ITC_NR_INTERNAL_USED_MBOXES < running then Inr (False, s)
     else exit_scan t is running s)))"

text \<open>
  \<open>itc_inst.mboxes\<close> keeps its value after the mailboxes are released; the tree is destroyed but the
  pointer to it kept.
\<close>

definition itc_exit :: "nat \<Rightarrow> proc \<Rightarrow> (bool \<times> proc) outcome" where
  "itc_exit t s =
     (if mboxes (itc_inst s) = BNull then Inr (False, s)
      else case rc_ensure t s of (have_rc, s) \<Rightarrow>
      if \<not> have_rc then Inr (False, s)
      else
        bindE (rc_set t ITC_OK s) (\<lambda>s.
        bindE (exit_scan t [0..<unat (nr_mboxes (itc_inst s))] 0 s) (\<lambda>(ok, s).
        if \<not> ok then Inr (False, s)
        else
          bindE (rc_set t ITC_OK s) (\<lambda>s.
          bindE (terminate_itcthreads itc_dtor t s) (\<lambda>s.
          bindE (rc_get t s) (\<lambda>rc.
          if rc \<noteq> ITC_OK then Inr (False, s)
          else case sys_zeros (3 * unat (nr_mboxes (itc_inst s))) s of (destroyed, s) \<Rightarrow>
          if \<not> destroyed then Inr (False, s)
          else
            bindE (trans_exit trans_mechanisms t s) (\<lambda>(ok, s).
            if \<not> ok then Inr (False, s)
            else case sys_zeros 3 s of (key_and_mutexes, s) \<Rightarrow>
            if \<not> key_and_mutexes then Inr (False, s)
            else
              bindE (if alloc_ready s then malloc_exit t s else Inr s) (\<lambda>s.
              bindE (bfree (mboxes (itc_inst s))) (\<lambda>b.
              bindE (rc_set t ITC_OK (s\<lparr>itc_inst := (itc_inst s)\<lparr>mboxes := b\<rparr>\<rparr>)) (\<lambda>s.
              bindE (bread (free_mboxes_queue (itc_inst s))) (\<lambda>q.
              case (sys_next s) of ((ret, _), s) \<Rightarrow>
              bindE (rc_get t s) (\<lambda>rc.
              bindE (q_exit rc (Some q) ret (qnodes s)) (\<lambda>(rc, h).
              bindE (rc_set t rc (s\<lparr>qnodes := h,
                       itc_inst := (itc_inst s)\<lparr>free_mboxes_queue := BFreed\<rparr>\<rparr>)) (\<lambda>s.
              if rc \<noteq> ITC_OK then Inr (False, s)
              else
                bindE (rc_free t s) (\<lambda>s.
                Inr (True, s\<lparr>rcs := (rcs s)(t := BNull)\<rparr>))))))))))))))))"

end
