(* ===== verification/Itc_Coord.thy ===== *)
theory Itc_Coord
  imports Itc_Sysvmq_Rx Itc_Init
begin

text \<open>
  \<open>sw/coord/itccoord.c\<close>: the coordinator. It hands out the slots for the processes of a host, keeps
  a socket open to each of them, and knows the names of all mailboxes.

  A process slot is represented by its index in \<open>processes\<close>. The names are kept in search trees of
  the C library (\<open>tsearch\<close>, \<open>tfind\<close>, \<open>tdelete\<close>) whose nodes point to \<open>struct itc_mbox_info\<close> blocks: one
  tree for the whole host, and one for each process that shares its blocks.
\<close>

unbundle bit_operations_syntax

section \<open>State\<close>

definition NR_PROC_ALIVENESS_CHECK_RETRIES :: int where [simp]: "NR_PROC_ALIVENESS_CHECK_RETRIES = 10"
definition FREELIST_LOW_THRESHOLD :: u32 where [simp]: "FREELIST_LOW_THRESHOLD = 10"

definition ITC_COORD_MBOX_NAME :: cstr where "ITC_COORD_MBOX_NAME = ascii ''itc_coord_mailbox''"
definition ITC_LSOCKET_FILENAME :: cstr where "ITC_LSOCKET_FILENAME = ascii ''/tmp/itc/socket/lsocket''"

datatype process_state = PROC_UNUSED | PROC_LISTENING | PROC_CONNECTED | PROC_INVALID

record itc_mbox_info =
  mi_mbox_id :: itc_mbox_id
  mi_mbox_name :: cstr

text \<open>The tree of a process is \<open>BFreed\<close> when its nodes were destroyed and the pointer to it was kept.\<close>

record itc_process =
  mbox_id_in_itccoord :: itc_mbox_id
  ip_pid :: int
  ip_sockfd :: int
  ip_sockaddr :: cstr
  ip_state :: process_state
  list_mboxes_tree :: "nat list block"

text \<open>
  \<open>struct itccoord_instance\<close>, the variable \<open>rc\<close> of the coordinator's only thread, and its memory: the
  nodes of the two queues and the mailbox records. \<open>co_proc\<close> is the coordinator as a user of the
  library (its main thread is thread 0), with the outcomes of the coming system calls; \<open>co_sent\<close> is
  what was sent on sockets.
\<close>

record itccoord =
  free_list :: "itc_queue block"
  used_list :: "itc_queue block"
  mbox_tree :: "nat list block"
  co_mbox_id :: itc_mbox_id
  co_mbox_fd :: int
  co_sockfd :: int
  freelist_count :: u32
  processes :: "itc_process list"
  co_rc :: "u32 block"
  co_nodes :: "nat qheap"
  mbox_infos :: "itc_mbox_info heap"
  co_proc :: proc
  co_sent :: "(int \<times> bytes) list"

definition itc_process0 :: itc_process where
  "itc_process0 = \<lparr>mbox_id_in_itccoord = 0, ip_pid = 0, ip_sockfd = 0, ip_sockaddr = [],
     ip_state = PROC_UNUSED, list_mboxes_tree = BNull\<rparr>"

definition itccoord0 :: "int \<Rightarrow> sysret list \<Rightarrow> itccoord" where
  "itccoord0 pid script = \<lparr>free_list = BNull, used_list = BNull, mbox_tree = BNull, co_mbox_id = 0,
     co_mbox_fd = 0, co_sockfd = 0, freelist_count = 0,
     processes = replicate MAX_SUPPORTED_PROCESSES itc_process0, co_rc = BNull,
     co_nodes = empty_heap [], mbox_infos = empty_heap [], co_proc = proc0 pid script, co_sent = []\<rparr>"

section \<open>Access to the state\<close>

definition co_sys :: "itccoord \<Rightarrow> sysret \<times> itccoord" where
  "co_sys c = (case sys_next (co_proc c) of (r, p) \<Rightarrow> (r, c\<lparr>co_proc := p\<rparr>))"

text \<open>A call of the library by the coordinator.\<close>

definition co_itc :: "(proc \<Rightarrow> ('a \<times> proc) outcome) \<Rightarrow> itccoord \<Rightarrow> ('a \<times> itccoord) outcome" where
  "co_itc f c = bindE (f (co_proc c)) (\<lambda>(r, p). Inr (r, c\<lparr>co_proc := p\<rparr>))"

definition co_put :: "(proc \<Rightarrow> proc outcome) \<Rightarrow> itccoord \<Rightarrow> itccoord outcome" where
  "co_put f c = bindE (f (co_proc c)) (\<lambda>p. Inr (c\<lparr>co_proc := p\<rparr>))"

definition proc_at :: "nat \<Rightarrow> itccoord \<Rightarrow> itc_process outcome" where
  "proc_at i c = (if i < length (processes c) then Inr (processes c ! i) else Inl OutOfBounds)"

definition proc_upd :: "nat \<Rightarrow> (itc_process \<Rightarrow> itc_process) \<Rightarrow> itccoord \<Rightarrow> itccoord outcome" where
  "proc_upd i f c =
     (if i < length (processes c) then Inr (c\<lparr>processes := (processes c)[i := f (processes c ! i)]\<rparr>)
      else Inl OutOfBounds)"

text \<open>\<open>q_enqueue\<close>, \<open>q_dequeue\<close> and \<open>q_remove\<close> with the coordinator's result code.\<close>

definition free_q :: "(u32 \<Rightarrow> itc_queue \<Rightarrow> nat qheap \<Rightarrow> (u32 \<times> itc_queue \<times> nat qheap) outcome) \<Rightarrow>
    itccoord \<Rightarrow> itccoord outcome" where
  "free_q op c =
     bindE (bread (co_rc c)) (\<lambda>rc.
     bindE (bread (free_list c)) (\<lambda>q.
     bindE (op rc q (co_nodes c)) (\<lambda>(rc, q, h).
     Inr (c\<lparr>co_rc := BLive rc, free_list := BLive q, co_nodes := h\<rparr>))))"

definition used_q :: "(u32 \<Rightarrow> itc_queue \<Rightarrow> nat qheap \<Rightarrow> (u32 \<times> itc_queue \<times> nat qheap) outcome) \<Rightarrow>
    itccoord \<Rightarrow> itccoord outcome" where
  "used_q op c =
     bindE (bread (co_rc c)) (\<lambda>rc.
     bindE (bread (used_list c)) (\<lambda>q.
     bindE (op rc q (co_nodes c)) (\<lambda>(rc, q, h).
     Inr (c\<lparr>co_rc := BLive rc, used_list := BLive q, co_nodes := h\<rparr>))))"

definition free_deq :: "itccoord \<Rightarrow> (nat option \<times> itccoord) outcome" where
  "free_deq c =
     bindE (bread (co_rc c)) (\<lambda>rc.
     bindE (bread (free_list c)) (\<lambda>q.
     bindE (q_dequeue rc q (co_nodes c)) (\<lambda>(x, rc, q, h).
     Inr (x, c\<lparr>co_rc := BLive rc, free_list := BLive q, co_nodes := h\<rparr>))))"

section \<open>The trees of names\<close>

text \<open>
  A search compares names with \<open>strcmp\<close>, which reads the record of a node. The model visits the nodes
  of a tree in the order in which they were inserted; names in a tree differ, so that the shape of
  the tree does not change what a search finds.
\<close>

fun tree_search :: "cstr \<Rightarrow> nat list \<Rightarrow> itc_mbox_info heap \<Rightarrow> nat option outcome" where
  "tree_search name [] h = Inr None"
| "tree_search name (m # ms) h =
     bindE (hread (Some m) h) (\<lambda>mi. if strcmp name (mi_mbox_name mi) = 0 then Inr (Some m) else tree_search name ms h)"

definition tree_nodes :: "nat list block \<Rightarrow> nat list outcome" where
  "tree_nodes root = (if root = BNull then Inr [] else bread root)"

definition mk_tree :: "nat list \<Rightarrow> nat list block" where
  "mk_tree ms = (if ms = [] then BNull else BLive ms)"

definition tfind :: "cstr \<Rightarrow> nat list block \<Rightarrow> itc_mbox_info heap \<Rightarrow> nat option outcome" where
  "tfind name root h = bindE (tree_nodes root) (\<lambda>ms. tree_search name ms h)"

definition tsearch :: "nat \<Rightarrow> nat list block \<Rightarrow> itc_mbox_info heap \<Rightarrow> nat list block outcome" where
  "tsearch m root h =
     bindE (tree_nodes root) (\<lambda>ms.
     bindE (hread (Some m) h) (\<lambda>mi.
     bindE (tree_search (mi_mbox_name mi) ms h) (\<lambda>found.
     Inr (case found of None \<Rightarrow> mk_tree (ms @ [m]) | Some _ \<Rightarrow> root))))"

definition tdelete :: "cstr \<Rightarrow> nat list block \<Rightarrow> itc_mbox_info heap \<Rightarrow> nat list block outcome" where
  "tdelete name root h =
     bindE (tree_nodes root) (\<lambda>ms.
     bindE (tree_search name ms h) (\<lambda>found.
     Inr (case found of None \<Rightarrow> root | Some m \<Rightarrow> mk_tree (remove1 m ms))))"

text \<open>\<open>tdestroy\<close> releases the nodes and calls \<open>free\<close> on what they point to; the caller's pointer is kept.\<close>

fun free_infos :: "nat list \<Rightarrow> itc_mbox_info heap \<Rightarrow> itc_mbox_info heap outcome" where
  "free_infos [] h = Inr h"
| "free_infos (m # ms) h = bindE (hfree (Some m) h) (free_infos ms)"

definition destroyed :: "nat list block \<Rightarrow> nat list block" where
  "destroyed root = (if root = BNull then BNull else BFreed)"

section \<open>Sockets and slots\<close>

definition lsocket_name :: "itc_mbox_id \<Rightarrow> cstr" where
  "lsocket_name i = ITC_LSOCKET_FILENAME @ ascii ''_0x'' @ hex32 i"

text \<open>The pointer that is returned may be the one behind the last slot.\<close>

definition find_process :: "itc_mbox_id \<Rightarrow> nat option" where
  "find_process mbox_id =
     (let index = unat (drop_bit ITC_COORD_SHIFT (mbox_id AND ITC_COORD_MASK)) in
      if MAX_SUPPORTED_PROCESSES < index then None else Some index)"

text \<open>
  Closing the socket, repeated while a signal interrupts it. The result is the last outcome; a call
  beyond the given outcomes succeeds, so that the number of them is enough fuel.
\<close>

fun close_loop :: "nat \<Rightarrow> itccoord \<Rightarrow> (sysret \<times> itccoord) outcome" where
  "close_loop 0 c = Inl Diverges"
| "close_loop (Suc n) c =
     (case co_sys c of ((res, errno), c) \<Rightarrow>
      if res \<noteq> 0 \<and> errno = EINTR then close_loop n c else Inr ((res, errno), c))"

definition close_socket_connection :: "nat \<Rightarrow> itccoord \<Rightarrow> (bool \<times> itccoord) outcome" where
  "close_socket_connection i c =
     bindE (proc_at i c) (\<lambda>pr.
     if ip_sockfd pr = -1 then Inr (True, c)
     else
       bindE (proc_upd i (\<lambda>pr. pr\<lparr>ip_sockfd := -1\<rparr>) c) (\<lambda>c.
       bindE (close_loop (Suc (length (sys (co_proc c)))) c) (\<lambda>((res, errno), c).
       if res \<noteq> 0 then Inr (errno = EBADF, c)
       else case co_sys c of ((unlink, errno), c) \<Rightarrow>
         Inr (\<not> (unlink = -1 \<and> errno \<noteq> ENOENT), c))))"

text \<open>
  What \<open>twalk\<close> does at each node of a process's tree: it deletes the node with the same name from the
  tree of the host.
\<close>

fun delete_counterparts :: "nat list \<Rightarrow> itccoord \<Rightarrow> itccoord outcome" where
  "delete_counterparts [] c = Inr c"
| "delete_counterparts (m # ms) c =
     bindE (hread (Some m) (mbox_infos c)) (\<lambda>mi.
     bindE (tdelete (mi_mbox_name mi) (mbox_tree c) (mbox_infos c)) (\<lambda>tree.
     delete_counterparts ms (c\<lparr>mbox_tree := tree\<rparr>)))"

text \<open>
  The second half of a disconnection: the names of the process are forgotten, its tree is destroyed,
  and the slot goes back into the free list.
\<close>

definition release_slot :: "nat \<Rightarrow> itccoord \<Rightarrow> itccoord outcome" where
  "release_slot i c =
     bindE (proc_at i c) (\<lambda>pr.
     bindE (tree_nodes (list_mboxes_tree pr)) (\<lambda>ms.
     bindE (delete_counterparts ms c) (\<lambda>c.
     bindE (free_infos ms (mbox_infos c)) (\<lambda>h.
     bindE (proc_upd i (\<lambda>pr. pr\<lparr>list_mboxes_tree := destroyed (list_mboxes_tree pr), ip_sockaddr := []\<rparr>)
              (c\<lparr>mbox_infos := h\<rparr>)) (\<lambda>c.
     bindE (free_q (\<lambda>rc q h. q_enqueue rc (Some i) q h) c) (\<lambda>c.
     Inr (c\<lparr>freelist_count := freelist_count c + 1\<rparr>)))))))"

definition disconnect_from_process :: "nat \<Rightarrow> itccoord \<Rightarrow> (bool \<times> itccoord) outcome" where
  "disconnect_from_process i c =
     bindE (used_q (\<lambda>rc q h. q_remove rc q (Some i) h) c) (\<lambda>c.
     bindE (proc_upd i (\<lambda>pr. pr\<lparr>ip_state := PROC_UNUSED, ip_pid := -1\<rparr>) c) (\<lambda>c.
     bindE (close_socket_connection i c) (\<lambda>(closed, c).
     if \<not> closed then Inr (False, c) else bindE (release_slot i c) (\<lambda>c. Inr (True, c)))))"

text \<open>Sending the acknowledgement, repeated while a signal interrupts it.\<close>

fun send_ack_loop :: "nat \<Rightarrow> int \<Rightarrow> itccoord \<Rightarrow> (sysret \<times> itccoord) outcome" where
  "send_ack_loop 0 sd c = Inl Diverges"
| "send_ack_loop (Suc n) sd c =
     (case co_sys c of ((res, errno), c) \<Rightarrow>
      if res < 0 \<and> errno = EINTR then send_ack_loop n sd c
      else Inr ((res, errno), if res < 0 then c else c\<lparr>co_sent := co_sent c @ [(sd, ascii ''ack'' @ [0])]\<rparr>))"

definition connect_to_process :: "nat \<Rightarrow> itccoord \<Rightarrow> (bool \<times> itccoord) outcome" where
  "connect_to_process i c =
     bindE (proc_at i c) (\<lambda>_.
     case co_sys c of ((tmp_sd, errno), c) \<Rightarrow>
     if tmp_sd < 0 then
       (if errno = ECONNABORTED then bindE (disconnect_from_process i c) (\<lambda>(ok, c). Inr (True, c))
        else Inr (False, c))
     else case co_sys c of (close, c) \<Rightarrow>
       bindE (proc_upd i (\<lambda>pr. pr\<lparr>ip_sockfd := tmp_sd\<rparr>) c) (\<lambda>c.
       bindE (send_ack_loop (Suc (length (sys (co_proc c)))) tmp_sd c) (\<lambda>((res, errno), c).
       if res < 0 then
         (if errno = EPIPE then bindE (disconnect_from_process i c) (\<lambda>(ok, c). Inr (True, c))
          else Inr (False, c))
       else bindE (proc_upd i (\<lambda>pr. pr\<lparr>ip_state := PROC_CONNECTED\<rparr>) c) (\<lambda>c. Inr (True, c)))))"

section \<open>A new process\<close>

text \<open>
  The four calls that make the socket of a slot ready for its process. The slot is in state
  \<open>PROC_LISTENING\<close> only when all of them succeed.
\<close>

definition open_slot :: "nat \<Rightarrow> int \<Rightarrow> itccoord \<Rightarrow> (bool \<times> itccoord) outcome" where
  "open_slot i pid c =
     bindE (proc_upd i (\<lambda>pr. pr\<lparr>ip_pid := pid\<rparr>) c) (\<lambda>c.
     case co_sys c of ((sockfd, _), c) \<Rightarrow>
     bindE (proc_upd i (\<lambda>pr. pr\<lparr>ip_sockfd := sockfd\<rparr>) c) (\<lambda>c.
     if sockfd < 0 then Inr (False, c)
     else
       bindE (proc_upd i (\<lambda>pr. pr\<lparr>ip_sockaddr := lsocket_name (mbox_id_in_itccoord pr)\<rparr>) c) (\<lambda>c.
       case co_sys c of ((bind, _), c) \<Rightarrow>
       if bind < 0 then Inr (False, c)
       else case co_sys c of ((chmod, _), c) \<Rightarrow>
       if chmod < 0 then Inr (False, c)
       else case co_sys c of ((listen, _), c) \<Rightarrow>
       if listen < 0 then Inr (False, c)
       else bindE (proc_upd i (\<lambda>pr. pr\<lparr>ip_state := PROC_LISTENING\<rparr>) c) (\<lambda>c. Inr (True, c)))))"

text \<open>
  The request is received into a buffer of 1024 bytes, and its length kept in an unsigned variable:
  a failure of \<open>recv\<close> looks like a long message whose number is then read from uninitialised memory.
  A short request is not an error, unless \<open>errno\<close>, which the call has not set, happens to hold one of
  three values. The result is the identity of the requesting process, or the value to return.
\<close>

definition read_request :: "itccoord \<Rightarrow> ((bool + int) \<times> itccoord) outcome" where
  "read_request c =
     (case recv_call (co_proc c) of ((len, errno), d, p) \<Rightarrow>
      let c = c\<lparr>co_proc := p\<rparr> in
      if len < 0 then Inl Undefined
      else if len < int LCQ_SIZE then
        (if errno = EIDRM \<or> errno = ENOENT \<or> errno = EINVAL then Inr (Inl True, c) else Inr (Inr (-1), c))
      else
        bindE (get32 0 d) (\<lambda>msgno.
        if msgno \<noteq> ITC_LOCATE_COORD_REQUEST then Inr (Inl False, c)
        else bindE (get32 LCQ_PID d) (\<lambda>pid. Inr (Inr (sint pid), c))))"

definition locate_coord_reply :: "itc_mbox_id \<Rightarrow> itc_mbox_id \<Rightarrow> bytes" where
  "locate_coord_reply my coord = enc32 ITC_LOCATE_COORD_REPLY @ enc32 my @ enc32 ITC_COORD_MASK @ enc32 coord"

definition co_malloc :: "itccoord \<Rightarrow> bool \<times> itccoord" where
  "co_malloc c = (case malloc_ok (co_proc c) of (ok, p) \<Rightarrow> (ok, c\<lparr>co_proc := p\<rparr>))"

definition send_locate_reply :: "int \<Rightarrow> nat option \<Rightarrow> itccoord \<Rightarrow> (bool \<times> itccoord) outcome" where
  "send_locate_reply tmp_sd tmp c =
     (case co_malloc c of (lreply, c) \<Rightarrow>
      if \<not> lreply then Inr (False, c)
      else
        bindE (case tmp of None \<Rightarrow> Inr ITC_NO_MBOX_ID
               | Some i \<Rightarrow> bindE (proc_at i c) (\<lambda>pr. Inr (mbox_id_in_itccoord pr))) (\<lambda>my.
        case co_sys c of ((send, errno), c) \<Rightarrow>
        if send < 0 then
          (if errno = EPIPE then
             (case tmp of None \<Rightarrow> Inl NullDeref
              | Some i \<Rightarrow> bindE (disconnect_from_process i c) (\<lambda>(ok, c). Inr (False, c)))
           else Inr (False, c))
        else case co_sys (c\<lparr>co_sent := co_sent c @ [(tmp_sd, locate_coord_reply my (co_mbox_id c))]\<rparr>) of
          ((close, _), c) \<Rightarrow> Inr (\<not> close < 0, c)))"

definition handle_locate_coord_request :: "itccoord \<Rightarrow> (bool \<times> itccoord) outcome" where
  "handle_locate_coord_request c =
     (case co_sys c of ((tmp_sd, errno), c) \<Rightarrow>
      if tmp_sd < 0 then Inr (errno = ECONNABORTED, c)
      else case co_malloc c of (lrequest, c) \<Rightarrow>
      if \<not> lrequest then Inr (False, c)
      else
        bindE (read_request c) (\<lambda>(req, c).
        case req of
          Inl res \<Rightarrow> Inr (res, c)
        | Inr pid \<Rightarrow>
            bindE (free_deq c) (\<lambda>(tmp, c).
            bindE (bread (co_rc c)) (\<lambda>rc.
            if rc \<noteq> ITC_OK then Inr (False, c)
            else case tmp of
              None \<Rightarrow> send_locate_reply tmp_sd None c
            | Some i \<Rightarrow>
                bindE (used_q (\<lambda>rc q h. q_enqueue rc (Some i) q h)
                         (c\<lparr>freelist_count := freelist_count c - 1\<rparr>)) (\<lambda>c.
                bindE (bread (co_rc c)) (\<lambda>rc.
                if rc \<noteq> ITC_OK then Inr (False, c)
                else
                  bindE (open_slot i pid c) (\<lambda>(opened, c).
                  if \<not> opened then Inr (False, c) else send_locate_reply tmp_sd (Some i) c)))))))"

section \<open>Requests by message\<close>

definition handle_add_mbox :: "itc_mbox_id \<Rightarrow> cstr \<Rightarrow> itccoord \<Rightarrow> itccoord outcome" where
  "handle_add_mbox mbox_id mbox_name c =
     (case find_process mbox_id of
        None \<Rightarrow> Inr c
      | Some i \<Rightarrow>
          bindE (proc_at i c) (\<lambda>pr.
          if ip_state pr \<noteq> PROC_CONNECTED then Inr c
          else case hmalloc \<lparr>mi_mbox_id = mbox_id, mi_mbox_name = mbox_name\<rparr> (mbox_infos c) of (mbox, h) \<Rightarrow>
            let c = c\<lparr>mbox_infos := h\<rparr> in
            case mbox of
              None \<Rightarrow> Inr c
            | Some m \<Rightarrow>
                bindE (tfind mbox_name (mbox_tree c) h) (\<lambda>iter.
                if iter \<noteq> None then Inr c
                else
                  bindE (tsearch m (mbox_tree c) h) (\<lambda>tree.
                  bindE (tsearch m (list_mboxes_tree pr) h) (\<lambda>list.
                  proc_upd i (\<lambda>pr. pr\<lparr>list_mboxes_tree := list\<rparr>) (c\<lparr>mbox_tree := tree\<rparr>))))))"

definition handle_remove_mbox :: "itc_mbox_id \<Rightarrow> cstr \<Rightarrow> itccoord \<Rightarrow> itccoord outcome" where
  "handle_remove_mbox mbox_id mbox_name c =
     (case find_process mbox_id of
        None \<Rightarrow> Inr c
      | Some i \<Rightarrow>
          bindE (proc_at i c) (\<lambda>pr.
          if ip_state pr \<noteq> PROC_CONNECTED then Inr c
          else
            bindE (tfind mbox_name (mbox_tree c) (mbox_infos c)) (\<lambda>iter.
            case iter of
              None \<Rightarrow> Inr c
            | Some m \<Rightarrow>
                bindE (tdelete mbox_name (mbox_tree c) (mbox_infos c)) (\<lambda>tree.
                bindE (tdelete mbox_name (list_mboxes_tree pr) (mbox_infos c)) (\<lambda>list.
                bindE (hfree (Some m) (mbox_infos c)) (\<lambda>h.
                proc_upd i (\<lambda>pr. pr\<lparr>list_mboxes_tree := list\<rparr>) (c\<lparr>mbox_tree := tree, mbox_infos := h\<rparr>)))))))"

text \<open>
  Asking the gateway for a name that is unknown on this host. The result is the answer, or \<open>None\<close>
  when the request is dropped without a reply.
\<close>

definition locate_outside ::
  "int \<Rightarrow> cstr \<Rightarrow> wakeup list \<Rightarrow> itccoord \<Rightarrow> ((itc_mbox_id \<times> cstr) option \<times> itccoord) outcome" where
  "locate_outside timeout mbox_name evs c =
     bindE (co_itc (itc_alloc 0 (of_nat (LGQ_NAME + length mbox_name + 1)) ITC_LOCATE_MBOX_FROM_ITCGWS_REQUEST) c)
       (\<lambda>(req, c).
     bindE (co_put (usr_put32 LGQ_COORD_MBOX_ID (co_mbox_id c) req) c) (\<lambda>c.
     bindE (co_put (usr_put LGQ_NAME (mbox_name @ [0]) req) c) (\<lambda>c.
     bindE (tfind ITC_GATEWAY_MBOX_TCP_CLI_NAME (mbox_tree c) (mbox_infos c)) (\<lambda>iter.
     case iter of
       None \<Rightarrow> bindE (co_itc (itc_free 0 req) c) (\<lambda>(freed, c). Inr (None, c))
     | Some gw \<Rightarrow>
         bindE (hread (Some gw) (mbox_infos c)) (\<lambda>gwi.
         bindE (co_itc (itc_send 0 req (mi_mbox_id gwi) ITC_MY_MBOX_ID None []) c) (\<lambda>(sent, c).
         if \<not> sent then bindE (co_itc (itc_free 0 req) c) (\<lambda>(freed, c). Inr (None, c))
         else
           bindE (co_itc (itc_receive 0 timeout evs) c) (\<lambda>(rep, c).
           if rep = None then Inr (None, c)
           else
             bindE (usr_get32 0 rep (co_proc c)) (\<lambda>msgno.
             if msgno \<noteq> ITC_LOCATE_MBOX_FROM_ITCGWS_REPLY
             then bindE (co_itc (itc_free 0 rep) c) (\<lambda>(freed, c). Inr (None, c))
             else
               bindE (usr_get32 LGR_MBOX_ID rep (co_proc c)) (\<lambda>mbox_id.
               bindE (usr_cstr LGR_NAMESPACE rep (co_proc c)) (\<lambda>ns.
               if ITC_MAX_NAME_LENGTH \<le> length ns then Inl OutOfBounds
               else bindE (co_itc (itc_free 0 rep) c) (\<lambda>(freed, c). Inr (Some (mbox_id, ns), c))))))))))))"

text \<open>
  The reply to a request for a name. \<open>pid\<close> is \<open>None\<close> while the variable is not initialised; putting
  it into the message then reads an indeterminate value.
\<close>

definition send_locate_mbox_reply ::
  "itc_mbox_id \<Rightarrow> itc_mbox_id \<Rightarrow> int option \<Rightarrow> bool \<Rightarrow> cstr \<Rightarrow> itccoord \<Rightarrow> itccoord outcome" where
  "send_locate_mbox_reply from_mbox mbox_id pid is_external ns c =
     bindE (co_itc (itc_alloc 0 (of_nat (LMR_NAMESPACE + length ns + 1)) ITC_LOCATE_MBOX_SYNC_REPLY) c) (\<lambda>(msg, c).
     bindE (co_put (usr_put32 LMR_MBOX_ID mbox_id msg) c) (\<lambda>c.
     bindE (case pid of None \<Rightarrow> Inl Undefined | Some pid \<Rightarrow> co_put (usr_put32 LMR_PID (word_of_int pid) msg) c) (\<lambda>c.
     bindE (co_put (usr_put LMR_EXTERNAL [if is_external then 1 else 0] msg) c) (\<lambda>c.
     bindE (co_put (usr_put LMR_NAMESPACE (ns @ [0]) msg) c) (\<lambda>c.
     bindE (co_itc (itc_send 0 msg from_mbox ITC_MY_MBOX_ID None []) c) (\<lambda>(sent, c).
     if \<not> sent then bindE (co_itc (itc_free 0 msg) c) (\<lambda>(freed, c). Inr c) else Inr c))))))"

definition handle_locate_mbox ::
  "itc_mbox_id \<Rightarrow> int \<Rightarrow> bool \<Rightarrow> cstr \<Rightarrow> wakeup list \<Rightarrow> itccoord \<Rightarrow> itccoord outcome" where
  "handle_locate_mbox from_mbox timeout find_only_internal mbox_name evs c =
     bindE (tfind mbox_name (mbox_tree c) (mbox_infos c)) (\<lambda>iter.
     case iter of
       None \<Rightarrow>
         if find_only_internal then send_locate_mbox_reply from_mbox ITC_NO_MBOX_ID (Some (-1)) False [] c
         else
           bindE (locate_outside timeout mbox_name evs c) (\<lambda>(found, c).
           case found of
             None \<Rightarrow> Inr c
           | Some (mbox_id, ns) \<Rightarrow> send_locate_mbox_reply from_mbox mbox_id None True ns c)
     | Some m \<Rightarrow>
         bindE (hread (Some m) (mbox_infos c)) (\<lambda>mi.
         case find_process (mi_mbox_id mi) of
           None \<Rightarrow> Inr c
         | Some i \<Rightarrow>
             bindE (proc_at i c) (\<lambda>pr.
             if ip_state pr \<noteq> PROC_CONNECTED then Inr c
             else send_locate_mbox_reply from_mbox (mi_mbox_id mi) (Some (ip_pid pr)) False [] c)))"

definition handle_incoming_request :: "wakeup list \<Rightarrow> itccoord \<Rightarrow> itccoord outcome" where
  "handle_incoming_request evs c =
     bindE (co_itc (itc_receive 0 ITC_NO_WAIT []) c) (\<lambda>(msg, c).
     bindE (usr_get32 0 msg (co_proc c)) (\<lambda>msgno.
     bindE
       (if msgno = ITC_NOTIFY_COORD_ADD_MBOX then
          bindE (usr_get32 NCM_MBOX_ID msg (co_proc c)) (\<lambda>mbox_id.
          bindE (usr_cstr NCM_NAME msg (co_proc c)) (\<lambda>name. handle_add_mbox mbox_id name c))
        else if msgno = ITC_NOTIFY_COORD_RMV_MBOX then
          bindE (usr_get32 NCM_MBOX_ID msg (co_proc c)) (\<lambda>mbox_id.
          bindE (usr_cstr NCM_NAME msg (co_proc c)) (\<lambda>name. handle_remove_mbox mbox_id name c))
        else if msgno = ITC_LOCATE_MBOX_SYNC_REQUEST then
          bindE (usr_get32 LMQ_FROM_MBOX msg (co_proc c)) (\<lambda>from_mbox.
          bindE (usr_get32 LMQ_TIMEOUT msg (co_proc c)) (\<lambda>timeout.
          bindE (usr_get8 LMQ_INTERNAL msg (co_proc c)) (\<lambda>internal.
          bindE (usr_cstr LMQ_NAME msg (co_proc c)) (\<lambda>name.
          handle_locate_mbox from_mbox (sint timeout) (internal \<noteq> 0) name evs c))))
        else Inr c) (\<lambda>c.
     bindE (co_itc (itc_free 0 msg) c) (\<lambda>(freed, c). Inr c))))"

section \<open>The main loop\<close>

text \<open>The descriptors that \<open>select\<close> is asked to watch on behalf of the processes in use.\<close>

fun used_fds :: "nat \<Rightarrow> ptr \<Rightarrow> itccoord \<Rightarrow> int list outcome" where
  "used_fds 0 iter c = Inl Diverges"
| "used_fds (Suc n) iter c =
     (if iter = None then Inr []
      else
        bindE (hread iter (co_nodes c)) (\<lambda>node.
        case node_data node of
          None \<Rightarrow> Inl NullDeref
        | Some i \<Rightarrow>
            bindE (proc_at i c) (\<lambda>pr.
            bindE (used_fds n (next_ptr node) c) (\<lambda>fds.
            Inr (if ip_sockfd pr \<noteq> -1 then ip_sockfd pr # fds else fds)))))"

text \<open>
  The loop over the processes in use. \<open>rd\<close> are the descriptors that \<open>select\<close> has reported, \<open>zc\<close> the
  counter of the checks for processes that have disappeared; the boolean is \<open>False\<close> when the
  coordinator exits. The next node is read after a node's process was served.
\<close>

fun serve_loop :: "nat \<Rightarrow> ptr \<Rightarrow> int list \<Rightarrow> int \<Rightarrow> itccoord \<Rightarrow> (bool \<times> int \<times> itccoord) outcome" where
  "serve_loop 0 iter rd zc c = Inl Diverges"
| "serve_loop (Suc n) iter rd zc c =
     (if iter = None then Inr (True, zc, c)
      else
        bindE (hread iter (co_nodes c)) (\<lambda>node.
        case node_data node of
          None \<Rightarrow> Inl NullDeref
        | Some i \<Rightarrow>
            bindE (proc_at i c) (\<lambda>pr.
            let advance = (\<lambda>c. bindE (hread iter (co_nodes c)) (\<lambda>node. serve_loop n (next_ptr node) rd zc c)) in
            if ip_sockfd pr \<noteq> -1 \<and> ip_sockfd pr \<in> set rd then
              (if ip_state pr = PROC_LISTENING then
                 bindE (connect_to_process i c) (\<lambda>(ok, c). if ok then advance c else Inr (False, zc, c))
               else if ip_state pr = PROC_CONNECTED then
                 bindE (disconnect_from_process i c) (\<lambda>(ok, c). Inr (ok, zc, c))
               else Inr (False, zc, c))
            else if (zc = NR_PROC_ALIVENESS_CHECK_RETRIES - 1 \<or> freelist_count c < FREELIST_LOW_THRESHOLD) \<and>
                ip_state pr = PROC_LISTENING \<and> 0 < ip_pid pr then
              (case co_sys c of ((kill, errno), c) \<Rightarrow>
               if kill = -1 \<and> errno = ESRCH then
                 bindE (disconnect_from_process i c) (\<lambda>(ok, c). Inr (True, zc - 1, c))
               else advance c)
            else advance c)))"

text \<open>
  What follows the reception of new processes in a round: the processes in use, then the requests by
  message. \<open>rd\<close> are the watched descriptors that have something to read.
\<close>

definition serve_ready :: "int list \<Rightarrow> wakeup list \<Rightarrow> int \<Rightarrow> itccoord \<Rightarrow> (int option \<times> itccoord) outcome" where
  "serve_ready rd evs zc c =
     bindE (bread (used_list c)) (\<lambda>uq.
     bindE (serve_loop (Suc (fresh (co_nodes c))) (q_head uq) rd zc c) (\<lambda>(ok, zc, c).
     if \<not> ok then Inr (None, c)
     else
       bindE (if co_mbox_fd c \<in> set rd then handle_incoming_request evs c else Inr c) (\<lambda>c.
       Inr (Some ((zc + 1) mod NR_PROC_ALIVENESS_CHECK_RETRIES), c))))"

text \<open>
  One round of the endless loop. \<open>ready\<close> are the descriptors with something to read. The result is
  the new value of the counter, or \<open>None\<close> when the coordinator exits.
\<close>

definition coord_round :: "int list \<Rightarrow> wakeup list \<Rightarrow> int \<Rightarrow> itccoord \<Rightarrow> (int option \<times> itccoord) outcome" where
  "coord_round ready evs zc c =
     bindE (bread (used_list c)) (\<lambda>uq.
     bindE (used_fds (Suc (fresh (co_nodes c))) (q_head uq) c) (\<lambda>fds.
     let rd = filter (\<lambda>fd. fd \<in> set ready) (co_sockfd c # co_mbox_fd c # fds) in
     case co_sys c of ((select, _), c) \<Rightarrow>
     if select < 0 then Inr (None, c)
     else
       bindE (if co_sockfd c \<in> set rd then handle_locate_coord_request c else Inr (True, c)) (\<lambda>(ok, c).
       if \<not> ok then Inr (None, c) else serve_ready rd evs zc c)))"

section \<open>Start and exit\<close>

definition setup_rc :: "itccoord \<Rightarrow> (bool \<times> itccoord) outcome" where
  "setup_rc c =
     (case (if co_rc c = BNull then co_malloc c else (True, c)) of (ok, c) \<Rightarrow>
      if \<not> ok then Inr (False, c)
      else if co_rc c = BNull then Inr (True, c\<lparr>co_rc := BLive ITC_OK\<rparr>)
      else bindE (bwrite (\<lambda>_. ITC_OK) (co_rc c)) (\<lambda>rc. Inr (True, c\<lparr>co_rc := rc\<rparr>)))"

definition is_itccoord_running :: "itccoord \<Rightarrow> bool \<times> itccoord" where
  "is_itccoord_running c = (case co_sys c of ((stat, errno), c) \<Rightarrow> (stat = 0 \<or> errno \<noteq> ENOENT, c))"

text \<open>One directory: it may already exist, but its mode has to be set.\<close>

definition make_dir :: "itccoord \<Rightarrow> bool \<times> itccoord" where
  "make_dir c =
     (case co_sys c of ((mkdir, errno), c) \<Rightarrow>
      if mkdir < 0 \<and> errno \<noteq> EEXIST then (False, c)
      else case co_sys c of ((chmod, _), c) \<Rightarrow> (\<not> chmod < 0, c))"

definition create_itccoord_dir :: "itccoord \<Rightarrow> bool \<times> itccoord" where
  "create_itccoord_dir c =
     (case make_dir c of (base, c) \<Rightarrow>
      if \<not> base then (False, c)
      else case make_dir c of (socket, c) \<Rightarrow>
      if \<not> socket then (False, c)
      else make_dir c)"

definition co_q_init :: "itccoord \<Rightarrow> (itc_queue block \<times> itccoord) outcome" where
  "co_q_init c =
     (case co_malloc c of (m1, c) \<Rightarrow>
      case (if m1 then co_malloc c else (False, c)) of (m2, c) \<Rightarrow>
      case (if m1 \<and> m2 then co_sys c else ((0, EOTHER), c)) of ((ret, _), c) \<Rightarrow>
      bindE (bread (co_rc c)) (\<lambda>rc.
      case q_init rc m1 m2 ret of (q, rc) \<Rightarrow>
      Inr (case q of None \<Rightarrow> BNull | Some q \<Rightarrow> BLive q, c\<lparr>co_rc := BLive rc\<rparr>)))"

fun init_slots :: "nat list \<Rightarrow> itccoord \<Rightarrow> (bool \<times> itccoord) outcome" where
  "init_slots [] c = Inr (True, c)"
| "init_slots (i # is) c =
     bindE (proc_upd i (\<lambda>_. itc_process0\<lparr>mbox_id_in_itccoord := push_bit ITC_COORD_SHIFT (of_nat i),
                                         ip_pid := -1, ip_sockfd := -1\<rparr>) c) (\<lambda>c.
     bindE (free_q (\<lambda>rc q h. q_enqueue rc (Some i) q h) c) (\<lambda>c.
     bindE (bread (co_rc c)) (\<lambda>rc.
     if rc \<noteq> ITC_OK then Inr (False, c)
     else init_slots is (c\<lparr>freelist_count := freelist_count c + 1\<rparr>))))"

text \<open>
  \<open>main\<close> from the queues on: the slots of the root process and of the coordinator itself, the other
  slots into the free list, and the socket that processes connect to first.
\<close>

definition start_slots :: "itccoord \<Rightarrow> (bool \<times> itccoord) outcome" where
  "start_slots c =
     bindE (co_q_init c) (\<lambda>(q, c).
     bindE (bread (co_rc c)) (\<lambda>rc.
     if rc \<noteq> ITC_OK then Inr (False, c\<lparr>free_list := q\<rparr>)
     else
       bindE (co_q_init (c\<lparr>free_list := q\<rparr>)) (\<lambda>(q, c).
       bindE (bread (co_rc c)) (\<lambda>rc.
       if rc \<noteq> ITC_OK then Inr (False, c\<lparr>used_list := q\<rparr>)
       else
         bindE (proc_upd 0 (\<lambda>pr. pr\<lparr>mbox_id_in_itccoord := ITC_NO_MBOX_ID, ip_pid := -1, ip_sockfd := -1,
                                    ip_state := PROC_INVALID\<rparr>) (c\<lparr>used_list := q\<rparr>)) (\<lambda>c.
         bindE (proc_upd 1 (\<lambda>pr. pr\<lparr>mbox_id_in_itccoord := push_bit ITC_COORD_SHIFT 1, ip_pid := cur_pid (co_proc c),
                                    ip_sockfd := -1, ip_state := PROC_CONNECTED\<rparr>) c) (\<lambda>c.
         init_slots [2..<MAX_SUPPORTED_PROCESSES] c))))))"

definition coord_listen :: "itccoord \<Rightarrow> bool \<times> itccoord" where
  "coord_listen c =
     (case co_sys c of ((sockfd, _), c) \<Rightarrow>
      let c = c\<lparr>co_sockfd := sockfd\<rparr> in
      if sockfd = -1 then (False, c)
      else case co_sys c of ((bind, _), c) \<Rightarrow>
      if bind < 0 then (False, c)
      else case co_sys c of ((chmod, _), c) \<Rightarrow>
      if chmod < 0 then (False, c)
      else case co_sys c of ((listen, _), c) \<Rightarrow> (\<not> listen < 0, c))"

definition coord_start :: "itccoord \<Rightarrow> (bool \<times> itccoord) outcome" where
  "coord_start c =
     bindE (setup_rc c) (\<lambda>(ok, c).
     if \<not> ok then Inr (False, c)
     else case is_itccoord_running c of (running, c) \<Rightarrow>
     if running then Inr (False, c)
     else case create_itccoord_dir c of (ok, c) \<Rightarrow>
     if \<not> ok then Inr (False, c)
     else
       bindE (co_itc (itc_init 0 2 True ITC_FLAGS_I_AM_ITC_COORD) c) (\<lambda>(ok, c).
       if \<not> ok then Inr (False, c)
       else
         bindE (co_itc (itc_create_mailbox 0 ITC_COORD_MBOX_NAME 0) c) (\<lambda>(mbox_id, c).
         let c = c\<lparr>co_mbox_id := mbox_id\<rparr> in
         if mbox_id = ITC_NO_MBOX_ID then Inr (False, c)
         else
           bindE (co_itc (itc_get_fd 0) c) (\<lambda>(fd, c).
           bindE (start_slots (c\<lparr>co_mbox_fd := fd\<rparr>)) (\<lambda>(ok, c).
           if \<not> ok then Inr (False, c) else Inr (coord_listen c))))))"

text \<open>
  The exit handler ignores what the calls that remove its files return; they are left out here.
  Its loop over the slots closes their sockets and destroys their trees, but not the records in them. It gives up at the first socket that cannot be closed.
\<close>

fun close_slots :: "nat list \<Rightarrow> itccoord \<Rightarrow> (bool \<times> itccoord) outcome" where
  "close_slots [] c = Inr (True, c)"
| "close_slots (i # is) c =
     (case find_process (push_bit ITC_COORD_SHIFT (of_nat i)) of
        None \<Rightarrow> Inl NullDeref
      | Some j \<Rightarrow>
          bindE (close_socket_connection j c) (\<lambda>(closed, c).
          if \<not> closed then Inr (False, c)
          else
            bindE (proc_at j c) (\<lambda>pr.
            bindE
              (if ip_pid pr \<noteq> -1 then
                 bindE (tree_nodes (list_mboxes_tree pr)) (\<lambda>_.
                 proc_upd j (\<lambda>pr. pr\<lparr>list_mboxes_tree := destroyed (list_mboxes_tree pr)\<rparr>) c)
               else Inr c) (\<lambda>c.
            close_slots is c))))"

definition queue_of :: "itc_queue block \<Rightarrow> itc_queue option outcome" where
  "queue_of b = (if b = BNull then Inr None else bindE (bread b) (\<lambda>q. Inr (Some q)))"

definition destroyed_queue :: "itc_queue block \<Rightarrow> itc_queue block" where
  "destroyed_queue b = (if b = BNull then BNull else BFreed)"

definition itccoord_exit_handler :: "itccoord \<Rightarrow> itccoord outcome" where
  "itccoord_exit_handler c =
     bindE (close_slots [0..<MAX_SUPPORTED_PROCESSES] c) (\<lambda>(ok, c).
     if \<not> ok then Inr c
     else case co_sys c of (close, c) \<Rightarrow>
       bindE (tree_nodes (mbox_tree c)) (\<lambda>ms.
       bindE (free_infos ms (mbox_infos c)) (\<lambda>h.
       let c = c\<lparr>mbox_infos := h, mbox_tree := destroyed (mbox_tree c)\<rparr> in
       bindE (bread (co_rc c)) (\<lambda>rc.
       case co_sys c of ((ret1, _), c) \<Rightarrow>
       bindE (queue_of (free_list c)) (\<lambda>q.
       bindE (q_exit rc q ret1 (co_nodes c)) (\<lambda>(rc, h).
       case co_sys (c\<lparr>co_nodes := h, free_list := destroyed_queue (free_list c)\<rparr>) of ((ret2, _), c) \<Rightarrow>
       bindE (queue_of (used_list c)) (\<lambda>q.
       bindE (q_exit rc q ret2 (co_nodes c)) (\<lambda>(rc, h).
       bindE (co_itc (itc_delete_mailbox 0 (co_mbox_id c))
                (c\<lparr>co_nodes := h, used_list := destroyed_queue (used_list c), co_rc := BLive rc\<rparr>)) (\<lambda>(deleted, c).
       bindE (co_itc (itc_exit 0) c) (\<lambda>(exited, c).
       bindE (bfree (co_rc c)) (\<lambda>rc. Inr (c\<lparr>co_rc := rc\<rparr>))))))))))))"

end
