(* ===== verification/Itc_Coord_Slots.thy ===== *)
theory Itc_Coord_Slots
  imports Itc_Coord
begin

text \<open>
  The process slots of the coordinator: its two queues, the invariant that a slot is in at most one
  of them and in the state that goes with it, and that every part of the main loop preserves it.
\<close>

unbundle bit_operations_syntax

section \<open>The two queues\<close>

definition with_lists :: "itc_queue \<Rightarrow> itc_queue \<Rightarrow> nat qheap \<Rightarrow> itccoord \<Rightarrow> itccoord" where
  "with_lists qf qu h c = c\<lparr>free_list := BLive qf, used_list := BLive qu, co_nodes := h\<rparr>"

lemma with_lists_simps [simp]:
  "free_list (with_lists qf qu h c) = BLive qf" "used_list (with_lists qf qu h c) = BLive qu"
  "co_nodes (with_lists qf qu h c) = h" "co_rc (with_lists qf qu h c) = co_rc c"
  "mbox_tree (with_lists qf qu h c) = mbox_tree c" "processes (with_lists qf qu h c) = processes c"
  "mbox_infos (with_lists qf qu h c) = mbox_infos c" "co_proc (with_lists qf qu h c) = co_proc c"
  "freelist_count (with_lists qf qu h c) = freelist_count c" "co_mbox_id (with_lists qf qu h c) = co_mbox_id c"
  "co_mbox_fd (with_lists qf qu h c) = co_mbox_fd c" "co_sockfd (with_lists qf qu h c) = co_sockfd c"
  "co_sent (with_lists qf qu h c) = co_sent c"
  by (simp_all add: with_lists_def)

text \<open>\<open>lists_ok c ps fs qs us\<close>: the free list holds the slots \<open>fs\<close>, in the nodes \<open>ps\<close>, the list of
  those in use holds \<open>us\<close>, in the nodes \<open>qs\<close>, and no slot is in them twice.\<close>

definition lists_ok :: "itccoord \<Rightarrow> nat list \<Rightarrow> nat list \<Rightarrow> nat list \<Rightarrow> nat list \<Rightarrow> bool" where
  "lists_ok c ps fs qs us \<longleftrightarrow>
     (\<exists>qf qu. free_list c = BLive qf \<and> used_list c = BLive qu \<and>
        qrep (co_nodes c) qf ps (map Some fs) \<and> qrep (co_nodes c) qu qs (map Some us)) \<and>
     set ps \<inter> set qs = {} \<and> distinct (fs @ us) \<and> set (fs @ us) \<subseteq> {2..<MAX_SUPPORTED_PROCESSES} \<and>
     co_rc c = BLive ITC_OK \<and> malloc_results (co_nodes c) = []"

lemma lists_okE:
  assumes "lists_ok c ps fs qs us"
  obtains qf qu where "free_list c = BLive qf" "used_list c = BLive qu"
    "qrep (co_nodes c) qf ps (map Some fs)" "qrep (co_nodes c) qu qs (map Some us)" "set ps \<inter> set qs = {}"
    "distinct (fs @ us)" "set (fs @ us) \<subseteq> {2..<255}" "co_rc c = BLive 0" "malloc_results (co_nodes c) = []"
    "heap_ok (co_nodes c)" "length fs \<le> 253" "length us \<le> 253"
proof -
  have s: "distinct (fs @ us)" "set (fs @ us) \<subseteq> {2..<255}" using assms by (simp_all add: lists_ok_def)
  have "length (fs @ us) = card (set (fs @ us))" using s(1) by (metis distinct_card)
  also have "\<dots> \<le> card {2..<255::nat}" by (rule card_mono [OF _ s(2)]) simp
  finally have "length fs \<le> 253" "length us \<le> 253" by simp_all
  then show thesis using assms that qrep_heap_ok unfolding lists_ok_def by fastforce
qed

lemma lists_ok_cong:
  assumes "free_list c' = free_list c" "used_list c' = used_list c" "co_nodes c' = co_nodes c" "co_rc c' = co_rc c"
  shows "lists_ok c' ps fs qs us = lists_ok c ps fs qs us"
  using assms by (simp add: lists_ok_def)

text \<open>The coordinator's queue operations, when nodes can be allocated.\<close>

lemma with_listsI:
  assumes "free_list c = BLive qf" "used_list c = BLive qu" "co_rc c = BLive rc"
  shows "c\<lparr>co_rc := BLive rc, free_list := BLive q, co_nodes := h\<rparr> = with_lists q qu h c"
    "c\<lparr>co_rc := BLive rc, used_list := BLive q, co_nodes := h\<rparr> = with_lists qf q h c"
  using assms by (simp_all add: with_lists_def)

lemma free_deq_ok:
  assumes "lists_ok c ps (i # fs) qs us"
  shows "\<exists>q qu h. free_deq c = Inr (Some i, with_lists q qu h c) \<and> lists_ok (with_lists q qu h c) (tl ps) fs qs us"
proof -
  obtain qf qu where L: "free_list c = BLive qf" "used_list c = BLive qu"
      "qrep (co_nodes c) qf ps (map Some (i # fs))" "qrep (co_nodes c) qu qs (map Some us)" "set ps \<inter> set qs = {}"
      "distinct ((i # fs) @ us)" "set ((i # fs) @ us) \<subseteq> {2..<255}" "co_rc c = BLive 0" "malloc_results (co_nodes c) = []"
    using lists_okE [OF assms] by metis
  obtain q h where q: "q_dequeue 0 qf (co_nodes c) = Inr (Some i, 0, q, h)" "qrep h q (tl ps) (map Some fs)"
      "same_outside (set ps) (co_nodes c) h" "malloc_results h = malloc_results (co_nodes c)"
    using q_dequeue_spec [of "co_nodes c" qf ps "Some i" "map Some fs" 0] L(3) by auto
  have "qrep h qu qs (map Some us)" by (rule qrep_frame [OF L(4) q(3) L(5) qrep_heap_ok [OF q(2)]])
  moreover have "set (tl ps) \<inter> set qs = {}" using L(5) by (cases ps) auto
  moreover have "free_deq c = Inr (Some i, with_lists q qu h c)"
    using L(1,8) q(1) with_listsI(1) [OF L(1,2,8)] by (simp add: free_deq_def)
  ultimately show ?thesis using L(6-9) q(2,4) by (auto simp: lists_ok_def)
qed

lemma free_deq_empty:
  assumes "lists_ok c ps [] qs us"
  shows "free_deq c = Inr (None, c\<lparr>co_rc := BLive ITC_QUEUE_EMPTY\<rparr>)"
proof -
  obtain qf qu where L: "free_list c = BLive qf" "qrep (co_nodes c) qf ps (map Some [])" "co_rc c = BLive 0"
    using lists_okE [OF assms] by metis
  have "q_dequeue 0 qf (co_nodes c) = Inr (None, ITC_QUEUE_EMPTY, qf, co_nodes c)"
    using q_dequeue_empty [of "co_nodes c" qf ps 0] L(2) by simp
  then show ?thesis using L(1,3) by (simp add: free_deq_def)
qed

lemma enq_facts:
  assumes q: "qrep h q ps (map Some xs)" and o: "qrep h q2 qs (map Some ys)" and d: "set ps \<inter> set qs = {}"
    and m: "malloc_results h = []" and l: "length xs \<le> 253"
  shows "\<exists>q' h'. q_enqueue 0 (Some i) q h = Inr (0, q', h') \<and> qrep h' q' (ps @ [fresh h]) (map Some (xs @ [i])) \<and>
           qrep h' q2 qs (map Some ys) \<and> set (ps @ [fresh h]) \<inter> set qs = {} \<and> malloc_results h' = [] \<and>
           same_outside (insert (fresh h) (set ps)) h h'"
proof -
  have "can_alloc h" "Suc (length (map Some xs)) < 2 ^ 32" using m l by (simp_all add: can_alloc_def)
  from q_enqueue_spec [OF q this, of "Some i"] obtain q' h' where q':
      "q_enqueue 0 (Some i) q h = Inr (0, q', h')" "qrep h' q' (ps @ [fresh h]) (map Some (xs @ [i]))"
      "same_outside (insert (fresh h) (set ps)) h h'" "malloc_results h' = []"
    using m by auto
  have d': "insert (fresh h) (set ps) \<inter> set qs = {}" using d qrep_fresh [OF o] by auto
  have "qrep h' q2 qs (map Some ys)" by (rule qrep_frame [OF o q'(3) d' qrep_heap_ok [OF q'(2)]])
  then show ?thesis using q' d' by auto
qed

lemma free_enq_ok:
  assumes "lists_ok c ps fs qs us" and "i \<notin> set (fs @ us)" and "2 \<le> i" and "i < 255"
  shows "\<exists>q qu h ps'. free_q (\<lambda>rc q h. q_enqueue rc (Some i) q h) c = Inr (with_lists q qu h c) \<and>
           lists_ok (with_lists q qu h c) ps' (fs @ [i]) qs us \<and>
           same_outside (insert (fresh (co_nodes c)) (set ps)) (co_nodes c) h"
proof -
  obtain qf qu where L: "free_list c = BLive qf" "used_list c = BLive qu"
      "qrep (co_nodes c) qf ps (map Some fs)" "qrep (co_nodes c) qu qs (map Some us)" "set ps \<inter> set qs = {}"
      "malloc_results (co_nodes c) = []" "length fs \<le> 253" "co_rc c = BLive 0" "distinct (fs @ us)" "set (fs @ us) \<subseteq> {2..<255}"
    using lists_okE [OF assms(1)] by metis
  obtain q h where q: "q_enqueue 0 (Some i) qf (co_nodes c) = Inr (0, q, h)"
      "qrep h q (ps @ [fresh (co_nodes c)]) (map Some (fs @ [i]))" "qrep h qu qs (map Some us)"
      "set (ps @ [fresh (co_nodes c)]) \<inter> set qs = {}" "malloc_results h = []"
      "same_outside (insert (fresh (co_nodes c)) (set ps)) (co_nodes c) h"
    using enq_facts [OF L(3-7), of i] by blast
  have "free_q (\<lambda>rc q h. q_enqueue rc (Some i) q h) c = Inr (with_lists q qu h c)"
    using L(1,8) q(1) with_listsI(1) [OF L(1,2,8)] by (simp add: free_q_def)
  moreover have "lists_ok (with_lists q qu h c) (ps @ [fresh (co_nodes c)]) (fs @ [i]) qs us"
    using q L(8-10) assms(2-4) by (auto simp: lists_ok_def)
  ultimately show ?thesis using q(6) by blast
qed

lemma used_enq_ok:
  assumes "lists_ok c ps fs qs us" and "i \<notin> set (fs @ us)" and "2 \<le> i" and "i < 255"
  shows "\<exists>qf q h qs'. used_q (\<lambda>rc q h. q_enqueue rc (Some i) q h) c = Inr (with_lists qf q h c) \<and>
           lists_ok (with_lists qf q h c) ps fs qs' (us @ [i])"
proof -
  obtain qf qu where L: "free_list c = BLive qf" "used_list c = BLive qu"
      "qrep (co_nodes c) qu qs (map Some us)" "qrep (co_nodes c) qf ps (map Some fs)" "set qs \<inter> set ps = {}"
      "malloc_results (co_nodes c) = []" "length us \<le> 253" "co_rc c = BLive 0" "distinct (fs @ us)" "set (fs @ us) \<subseteq> {2..<255}"
    using lists_okE [OF assms(1)] by (metis Int_commute)
  obtain q h where q: "q_enqueue 0 (Some i) qu (co_nodes c) = Inr (0, q, h)"
      "qrep h q (qs @ [fresh (co_nodes c)]) (map Some (us @ [i]))" "qrep h qf ps (map Some fs)"
      "set (qs @ [fresh (co_nodes c)]) \<inter> set ps = {}" "malloc_results h = []"
    using enq_facts [OF L(3-7), of i] by blast
  have "used_q (\<lambda>rc q h. q_enqueue rc (Some i) q h) c = Inr (with_lists qf q h c)"
    using L(2,8) q(1) with_listsI(2) [OF L(1,2,8)] by (simp add: used_q_def)
  moreover have "lists_ok (with_lists qf q h c) ps fs (qs @ [fresh (co_nodes c)]) (us @ [i])"
    using q L(8-10) assms(2-4) by (auto simp: lists_ok_def)
  ultimately show ?thesis by blast
qed

text \<open>The node of a slot that is taken from a list is released.\<close>

lemma dseg_node:
  "dseg c pv nx ps xs \<Longrightarrow> p \<in> set ps \<Longrightarrow>
     \<exists>n. c p = Some n \<and> node_data n \<in> set xs \<and> (next_ptr n = nx \<or> next_ptr n \<in> Some ` set ps)"
proof (induction ps arbitrary: pv xs)
  case (Cons a ps)
  then obtain x ys where xs: "xs = x # ys" by (cases xs) auto
  show ?case
  proof (cases "p = a")
    case True
    then show ?thesis using Cons.prems(1) xs by (cases ps) auto
  next
    case False
    then show ?thesis using Cons xs by fastforce
  qed
qed simp

lemma dseg_unique:
  "dseg c pv nx ps xs \<Longrightarrow> distinct xs \<Longrightarrow> p \<in> set ps \<Longrightarrow> p' \<in> set ps \<Longrightarrow>
     c p = Some n \<Longrightarrow> c p' = Some n' \<Longrightarrow> node_data n = node_data n' \<Longrightarrow> p = p'"
proof (induction ps arbitrary: pv xs)
  case (Cons a ps)
  then obtain x ys where xs: "xs = x # ys" "dseg c (Some a) nx ps ys" "c a = Some \<lparr>next_ptr = hdp nx ps, prev_ptr = pv, node_data = x\<rparr>"
    by (cases xs) auto
  have o: "node_data m \<in> set ys" if "r \<in> set ps" "c r = Some m" for r m
    using dseg_node [OF xs(2) that(1)] that(2) by auto
  show ?case using Cons xs o by auto
qed simp

lemma used_remove_ok:
  assumes "lists_ok c ps fs qs us" and "i \<in> set us"
  shows "\<exists>qf q h qs'. used_q (\<lambda>rc q h. q_remove rc q (Some i) h) c = Inr (with_lists qf q h c) \<and>
           lists_ok (with_lists qf q h c) ps fs qs' (remove1 i us) \<and>
           (\<forall>p n. p \<in> set qs \<longrightarrow> cells (co_nodes c) p = Some n \<longrightarrow> node_data n = Some i \<longrightarrow> cells h p = None) \<and>
           fresh h = fresh (co_nodes c)"
proof -
  obtain qf qu where L: "free_list c = BLive qf" "used_list c = BLive qu"
      "qrep (co_nodes c) qf ps (map Some fs)" "qrep (co_nodes c) qu qs (map Some us)" "set ps \<inter> set qs = {}"
      "distinct (fs @ us)" "set (fs @ us) \<subseteq> {2..<255}" "co_rc c = BLive 0" "malloc_results (co_nodes c) = []"
    using lists_okE [OF assms(1)] by metis
  have i: "Some i \<in> set (map Some us)" using assms(2) by simp
  obtain as ys zs p bs where S: "map Some us = ys @ Some i # zs" "Some i \<notin> set ys" "qs = as @ p # bs"
      "length as = length ys" "qs ! length (takeWhile (\<lambda>y. y \<noteq> Some i) (map Some us)) = p"
    by (rule split_at_first [OF i qrep_length [OF L(4)]])
  have found: "q_find (Suc (fresh (co_nodes c))) (Some i) (q_head qu) (co_nodes c) = Inr (Some p)"
    using q_find_spec [OF L(4), of "Some i"] i S(5) by simp
  obtain q h where q: "q_remove 0 qu (Some i) (co_nodes c) = Inr (0, q, h)" "qrep h q (as @ bs) (ys @ zs)"
      "same_outside (set qs) (co_nodes c) h" "cells h p = None" "fresh h = fresh (co_nodes c)" "malloc_results h = []"
    using q_remove_at [OF L(4) [unfolded S(1,3)] S(4) found, of 0] L(9) S(3) by auto
  have r: "ys @ zs = map Some (remove1 i us)"
  proof -
    have "map Some (remove1 i us) = remove1 (Some i) (map Some us)" by (induction us) auto
    then show ?thesis using S(1,2) by (simp add: remove1_append)
  qed
  have "qrep h qf ps (map Some fs)"
    using qrep_frame [OF L(3) q(3) _ qrep_heap_ok [OF q(2)]] L(5) by blast
  then have ok: "lists_ok (with_lists qf q h c) ps fs (as @ bs) (remove1 i us)"
    using q(2,6) L(5-8) S(3) notin_set_remove1 [of _ us i] unfolding r by (auto simp: lists_ok_def set_remove1_eq)
  have "cells h r = None" if "r \<in> set qs" "cells (co_nodes c) r = Some n" "node_data n = Some i" for r n
  proof -
    obtain pv where d: "dseg (cells (co_nodes c)) pv None qs (map Some us)" using L(4) by (auto simp: qrep_def dlist_def)
    have "\<exists>m. cells (co_nodes c) p = Some m \<and> node_data m = Some i"
    proof -
      have "dseg (cells (co_nodes c)) pv None (as @ p # bs) (ys @ Some i # zs)" using d S(1,3) by simp
      then show ?thesis using S(4) by (auto simp: dseg_append)
    qed
    then have "r = p" using dseg_unique [OF d _ that(1), of p] that(2,3) S(3) L(6) by (auto simp: distinct_map)
    then show ?thesis using q(4) by simp
  qed
  moreover have "used_q (\<lambda>rc q h. q_remove rc q (Some i) h) c = Inr (with_lists qf q h c)"
    using L(2,8) q(1) with_listsI(2) [OF L(1,2,8)] by (simp add: used_q_def)
  ultimately show ?thesis using ok q(5) by blast
qed

section \<open>The invariant\<close>

text \<open>A slot that is free has no process and no socket; one in use waits for its process or has it.\<close>

definition idle :: "itc_process \<Rightarrow> bool" where
  "idle pr \<longleftrightarrow> ip_state pr = PROC_UNUSED \<and> ip_pid pr = -1 \<and> ip_sockfd pr = -1"

definition active :: "itc_process \<Rightarrow> bool" where
  "active pr \<longleftrightarrow> ip_state pr = PROC_LISTENING \<or> ip_state pr = PROC_CONNECTED"

definition procs_ok :: "itc_process list \<Rightarrow> nat list \<Rightarrow> nat list \<Rightarrow> bool" where
  "procs_ok P fs us \<longleftrightarrow>
     length P = MAX_SUPPORTED_PROCESSES \<and>
     (\<forall>i. 0 < i \<and> i < MAX_SUPPORTED_PROCESSES \<longrightarrow> mbox_id_in_itccoord (P ! i) = push_bit ITC_COORD_SHIFT (of_nat i)) \<and>
     (\<forall>i \<in> set fs. idle (P ! i)) \<and> (\<forall>i \<in> set us. active (P ! i)) \<and>
     ip_state (P ! 1) = PROC_CONNECTED \<and> ip_state (P ! 0) = PROC_INVALID"

definition slots_ok :: "itccoord \<Rightarrow> nat list \<Rightarrow> nat list \<Rightarrow> bool" where
  "slots_ok c fs us \<longleftrightarrow>
     (\<exists>ps qs. lists_ok c ps fs qs us) \<and> procs_ok (processes c) fs us \<and> freelist_count c = of_nat (length fs)"

lemma procs_ok_upd:
  assumes "procs_ok P fs us" and "2 \<le> i" and "mbox_id_in_itccoord pr = mbox_id_in_itccoord (P ! i)"
    and "set fs' - {i} \<subseteq> set fs" and "set us' - {i} \<subseteq> set us" and "set fs' \<union> set us' \<subseteq> {..<255}"
    and "i \<in> set fs' \<Longrightarrow> idle pr" and "i \<in> set us' \<Longrightarrow> active pr"
  shows "procs_ok (P[i := pr]) fs' us'"
proof -
  have "idle (P[i := pr] ! x)" if "x \<in> set fs'" for x
    using assms(1,4,6,7) that by (cases "x = i") (auto simp: procs_ok_def)
  moreover have "active (P[i := pr] ! x)" if "x \<in> set us'" for x
    using assms(1,5,6,8) that by (cases "x = i") (auto simp: procs_ok_def)
  moreover have "mbox_id_in_itccoord (P[i := pr] ! x) = mbox_id_in_itccoord (P ! x)" for x
    using assms(3) by (cases "x = i"; cases "i < length P") (simp_all add: list_update_beyond)
  ultimately show ?thesis using assms(1,2) by (simp add: procs_ok_def)
qed

text \<open>What the invariant looks at.\<close>

definition slots_view :: "itccoord \<Rightarrow> itc_queue block \<times> itc_queue block \<times> nat qheap \<times> u32 block \<times> u32 \<times> itc_process list" where
  "slots_view c = (free_list c, used_list c, co_nodes c, co_rc c, freelist_count c,
     map (\<lambda>pr. pr\<lparr>list_mboxes_tree := BNull\<rparr>) (processes c))"

lemma procs_ok_no_trees: "procs_ok (map (\<lambda>pr. pr\<lparr>list_mboxes_tree := BNull\<rparr>) P) fs us \<longleftrightarrow> procs_ok P fs us"
  if "set fs \<union> set us \<subseteq> {..<length P}"
  using that by (auto simp: procs_ok_def idle_def active_def subset_iff)

lemma slots_ok_view:
  assumes "slots_view c' = slots_view c" and "slots_ok c fs us"
  shows "slots_ok c' fs us"
proof -
  let ?f = "\<lambda>pr. pr\<lparr>list_mboxes_tree := BNull\<rparr>"
  have v: "free_list c' = free_list c" "used_list c' = used_list c" "co_nodes c' = co_nodes c" "co_rc c' = co_rc c"
      "freelist_count c' = freelist_count c" "map ?f (processes c') = map ?f (processes c)"
    using assms(1) by (simp_all add: slots_view_def)
  obtain ps qs where l: "lists_ok c ps fs qs us" using assms(2) by (auto simp: slots_ok_def)
  have "set fs \<union> set us \<subseteq> {..<255}" using l by (auto simp: lists_ok_def)
  moreover have len: "length (processes c) = 255" "length (processes c') = length (processes c)"
    using assms(2) arg_cong [OF v(6), of length] by (simp_all add: slots_ok_def procs_ok_def)
  ultimately have "procs_ok (processes c') fs us"
    using assms(2) procs_ok_no_trees [of fs us "processes c"] procs_ok_no_trees [of fs us "processes c'"] v(6)
    by (simp add: slots_ok_def)
  then show ?thesis
    using assms(2) v(5) lists_ok_cong [OF v(1-4)] by (auto simp: slots_ok_def)
qed

lemma slots_ok_mem:
  assumes "slots_ok c fs us"
  shows "i \<in> set us \<Longrightarrow> 2 \<le> i" "i \<in> set us \<Longrightarrow> i < 255" "i \<in> set us \<Longrightarrow> i < length (processes c)" "distinct (fs @ us)"
    "co_rc c = BLive 0"
  using assms by (auto simp: slots_ok_def lists_ok_def procs_ok_def)

section \<open>Closing a socket\<close>

text \<open>States that differ only in what concerns the outside: the library's state and the data sent.\<close>

definition co_same :: "itccoord \<Rightarrow> itccoord \<Rightarrow> bool" where
  "co_same c c' \<longleftrightarrow> c'\<lparr>co_proc := co_proc c, co_sent := co_sent c\<rparr> = c"

lemma co_same_intros [simp, intro]:
  "co_same c c" "co_same c (c\<lparr>co_proc := p\<rparr>)" "co_same c (c\<lparr>co_sent := l\<rparr>)"
  by (simp_all add: co_same_def)

lemma co_sameD:
  assumes "co_same c c'"
  shows "free_list c' = free_list c" "used_list c' = used_list c" "co_nodes c' = co_nodes c" "co_rc c' = co_rc c"
    "freelist_count c' = freelist_count c" "processes c' = processes c" "mbox_tree c' = mbox_tree c"
    "mbox_infos c' = mbox_infos c" "co_mbox_id c' = co_mbox_id c" "co_mbox_fd c' = co_mbox_fd c" "co_sockfd c' = co_sockfd c"
proof -
  have c: "c = c'\<lparr>co_proc := co_proc c, co_sent := co_sent c\<rparr>" using assms by (simp add: co_same_def)
  show "free_list c' = free_list c" "used_list c' = used_list c" "co_nodes c' = co_nodes c" "co_rc c' = co_rc c"
    "freelist_count c' = freelist_count c" "processes c' = processes c" "mbox_tree c' = mbox_tree c"
    "mbox_infos c' = mbox_infos c" "co_mbox_id c' = co_mbox_id c" "co_mbox_fd c' = co_mbox_fd c" "co_sockfd c' = co_sockfd c"
    by (subst c, simp)+
qed

lemma co_same_iff:
  "co_same c c' \<longleftrightarrow> free_list c' = free_list c \<and> used_list c' = used_list c \<and> co_nodes c' = co_nodes c \<and>
     co_rc c' = co_rc c \<and> freelist_count c' = freelist_count c \<and> processes c' = processes c \<and>
     mbox_tree c' = mbox_tree c \<and> mbox_infos c' = mbox_infos c \<and> co_mbox_id c' = co_mbox_id c \<and>
     co_mbox_fd c' = co_mbox_fd c \<and> co_sockfd c' = co_sockfd c"
  (is "_ \<longleftrightarrow> ?R")
proof
  assume "co_same c c'"
  from co_sameD [OF this] show ?R by simp
next
  assume ?R
  then show "co_same c c'" unfolding co_same_def by (intro itccoord.equality) simp_all
qed

lemma co_same_trans [trans]: "co_same a b \<Longrightarrow> co_same b c \<Longrightarrow> co_same a c"
  by (simp add: co_same_iff)

lemma slots_view_same: "co_same c c' \<Longrightarrow> slots_view c' = slots_view c"
  using co_sameD by (simp add: slots_view_def)

lemma co_sys_same: "co_sys c = (r, c') \<Longrightarrow> co_same c c'"
  by (auto simp: co_sys_def split: prod.splits)

lemma co_malloc_same: "co_malloc c = (r, c') \<Longrightarrow> co_same c c'"
  by (auto simp: co_malloc_def split: prod.splits)

lemma co_sys_shorter: "co_sys c = (r, c') \<Longrightarrow> sys (co_proc c) \<noteq> [] \<Longrightarrow> length (sys (co_proc c')) < length (sys (co_proc c))"
  by (cases "sys (co_proc c)") (auto simp: co_sys_def)

lemma co_sys_done: "sys (co_proc c) = [] \<Longrightarrow> co_sys c = ((0, EOTHER), c)"
  by (simp add: co_sys_def)

lemma close_loop_ends: "length (sys (co_proc c)) < n \<Longrightarrow> \<exists>r c'. close_loop n c = Inr (r, c') \<and> co_same c c'"
proof (induction n arbitrary: c)
  case (Suc n)
  obtain r e c1 where c1: "co_sys c = ((r, e), c1)" by (metis prod.exhaust)
  note s = co_sys_same [OF c1]
  show ?case
  proof (cases "r \<noteq> 0 \<and> e = EINTR")
    case True
    then have "sys (co_proc c) \<noteq> []" using c1 co_sys_done by fastforce
    then have "length (sys (co_proc c1)) < n" using co_sys_shorter [OF c1] Suc.prems by simp
    from Suc.IH [OF this] show ?thesis using c1 True co_same_trans [OF s] by auto
  next
    case False
    then have "close_loop (Suc n) c = Inr ((r, e), c1)" using c1 by auto
    then show ?thesis using s by blast
  qed
qed simp

lemma send_ack_loop_ends:
  "length (sys (co_proc c)) < n \<Longrightarrow> \<exists>r c'. send_ack_loop n sd c = Inr (r, c') \<and> co_same c c'"
proof (induction n arbitrary: c)
  case (Suc n)
  obtain r e c1 where c1: "co_sys c = ((r, e), c1)" by (metis prod.exhaust)
  note s = co_sys_same [OF c1]
  show ?case
  proof (cases "r < 0 \<and> e = EINTR")
    case True
    then have "sys (co_proc c) \<noteq> []" using c1 co_sys_done by fastforce
    then have "length (sys (co_proc c1)) < n" using co_sys_shorter [OF c1] Suc.prems by simp
    from Suc.IH [OF this] show ?thesis using c1 True co_same_trans [OF s] by auto
  next
    case False
    then show ?thesis using c1 s co_same_trans [OF s co_same_intros(3)] by auto
  qed
qed simp

lemma close_socket_ok:
  assumes "i < length (processes c)"
  shows "\<exists>ok c'. close_socket_connection i c = Inr (ok, c') \<and> (sys (co_proc c) = [] \<longrightarrow> ok) \<and>
           co_same (c\<lparr>processes := (processes c)[i := (processes c ! i)\<lparr>ip_sockfd := -1\<rparr>]\<rparr>) c'"
proof (cases "ip_sockfd (processes c ! i) = -1")
  case True
  then have "(processes c ! i)\<lparr>ip_sockfd := -1\<rparr> = processes c ! i" by simp
  then have "(processes c)[i := (processes c ! i)\<lparr>ip_sockfd := -1\<rparr>] = processes c" by (simp only: list_update_id)
  then show ?thesis using True assms by (auto simp: close_socket_connection_def proc_at_def)
next
  case False
  define d where "d = c\<lparr>processes := (processes c)[i := (processes c ! i)\<lparr>ip_sockfd := -1\<rparr>]\<rparr>"
  have d: "proc_upd i (\<lambda>pr. pr\<lparr>ip_sockfd := -1\<rparr>) c = Inr d" "proc_at i c = Inr (processes c ! i)"
    using assms by (simp_all add: d_def proc_upd_def proc_at_def)
  obtain res e d1 where d1: "close_loop (Suc (length (sys (co_proc d)))) d = Inr ((res, e), d1)" "co_same d d1"
    using close_loop_ends [of d] by (metis lessI prod.exhaust)
  obtain u e' d2 where d2: "co_sys d1 = ((u, e'), d2)" by (metis prod.exhaust)
  have good: "res = 0 \<and> u = 0" if "sys (co_proc c) = []"
    using that d1(1) d2 co_sys_done [of d] by (simp add: d_def)
  have "close_socket_connection i c =
      Inr (if res \<noteq> 0 then (e = EBADF, d1) else (\<not> (u = -1 \<and> e' \<noteq> ENOENT), d2))"
    using False d d1(1) d2 by (simp add: close_socket_connection_def del: close_loop.simps)
  then show ?thesis using d1(2) co_same_trans [OF d1(2) co_sys_same [OF d2]] good unfolding d_def [symmetric] by (cases "res \<noteq> 0") auto
qed

section \<open>Disconnecting\<close>

definition closed_slot :: "itc_process \<Rightarrow> itc_process" where
  "closed_slot pr = pr\<lparr>ip_state := PROC_UNUSED, ip_pid := -1, ip_sockfd := -1\<rparr>"

lemma disconnect_begins:
  assumes l: "lists_ok c ps fs qs us" and i: "i \<in> set us" and len: "length (processes c) = 255"
  shows "\<exists>closed d qs'. lists_ok d ps fs qs' (remove1 i us) \<and> processes d = (processes c)[i := closed_slot (processes c ! i)] \<and>
           mbox_tree d = mbox_tree c \<and> mbox_infos d = mbox_infos c \<and> freelist_count d = freelist_count c \<and>
           (\<forall>p n. p \<in> set qs \<longrightarrow> cells (co_nodes c) p = Some n \<longrightarrow> node_data n = Some i \<longrightarrow> cells (co_nodes d) p = None) \<and>
           fresh (co_nodes d) = fresh (co_nodes c) \<and> (sys (co_proc c) = [] \<longrightarrow> closed) \<and>
           disconnect_from_process i c = (if closed then bindE (release_slot i d) (\<lambda>c. Inr (True, c)) else Inr (False, d))"
proof -
  obtain qf q h qs' where u: "used_q (\<lambda>rc q h. q_remove rc q (Some i) h) c = Inr (with_lists qf q h c)"
      "lists_ok (with_lists qf q h c) ps fs qs' (remove1 i us)"
      "\<forall>p n. p \<in> set qs \<longrightarrow> cells (co_nodes c) p = Some n \<longrightarrow> node_data n = Some i \<longrightarrow> cells h p = None"
      "fresh h = fresh (co_nodes c)"
    using used_remove_ok [OF l i] by blast
  have "i < 255" using l i by (auto simp: lists_ok_def)
  then have il: "i < length (processes c)" using len by simp
  define c2 where "c2 = (with_lists qf q h c)\<lparr>processes := (processes c)[i := (processes c ! i)\<lparr>ip_state := PROC_UNUSED, ip_pid := -1\<rparr>]\<rparr>"
  have c2: "proc_upd i (\<lambda>pr. pr\<lparr>ip_state := PROC_UNUSED, ip_pid := -1\<rparr>) (with_lists qf q h c) = Inr c2"
    using il by (simp add: proc_upd_def c2_def)
  have "i < length (processes c2)" using il by (simp add: c2_def)
  from close_socket_ok [OF this] obtain closed d where d: "close_socket_connection i c2 = Inr (closed, d)"
      "sys (co_proc c2) = [] \<longrightarrow> closed"
      "co_same (c2\<lparr>processes := (processes c2)[i := (processes c2 ! i)\<lparr>ip_sockfd := -1\<rparr>]\<rparr>) d" by blast
  note D = co_sameD [OF d(3)]
  have pr: "processes d = (processes c)[i := closed_slot (processes c ! i)]"
    using D(6) il by (simp add: c2_def closed_slot_def)
  have "lists_ok d ps fs qs' (remove1 i us)"
    using u(2) lists_ok_cong [of d "with_lists qf q h c"] D(1-4) by (simp add: c2_def)
  moreover have "disconnect_from_process i c = (if closed then bindE (release_slot i d) (\<lambda>c. Inr (True, c)) else Inr (False, d))"
    using u(1) c2 d(1) by (simp add: disconnect_from_process_def)
  moreover have "mbox_tree d = mbox_tree c" "mbox_infos d = mbox_infos c" "freelist_count d = freelist_count c"
      "co_nodes d = h"
    using D(3,5,7,8) by (simp_all add: c2_def)
  moreover have "sys (co_proc c) = [] \<longrightarrow> closed" using d(2) by (simp add: c2_def)
  ultimately show ?thesis using u(3,4) pr by blast
qed

lemma delete_counterparts_only: "delete_counterparts ms c = Inr c' \<Longrightarrow> \<exists>t. c' = c\<lparr>mbox_tree := t\<rparr>"
proof (induction ms arbitrary: c)
  case Nil
  then have "c' = c\<lparr>mbox_tree := mbox_tree c\<rparr>" by simp
  then show ?case ..
next
  case (Cons m ms)
  then obtain t where "delete_counterparts ms (c\<lparr>mbox_tree := t\<rparr>) = Inr c'" by (auto simp: outcome_simps)
  from Cons.IH [OF this] show ?case by auto
qed

text \<open>Releasing a slot whose tree can be walked; what becomes of the names is said by the tree.\<close>

lemma release_slot_only:
  assumes l: "lists_ok d ps fs qs us" and i: "i \<notin> set (fs @ us)" "2 \<le> i" "i < 255" and len: "length (processes d) = 255"
    and r: "release_slot i d = Inr c'"
  shows "\<exists>ps'. lists_ok c' ps' (fs @ [i]) qs us \<and> freelist_count c' = freelist_count d + 1 \<and>
           processes c' = (processes d)[i := (processes d ! i)
             \<lparr>list_mboxes_tree := destroyed (list_mboxes_tree (processes d ! i)), ip_sockaddr := []\<rparr>] \<and>
           (\<forall>p. p < fresh (co_nodes d) \<longrightarrow> p \<notin> set ps \<longrightarrow> cells (co_nodes c') p = cells (co_nodes d) p)"
proof -
  let ?pr = "(processes d ! i)\<lparr>list_mboxes_tree := destroyed (list_mboxes_tree (processes d ! i)), ip_sockaddr := []\<rparr>"
  have il: "i < length (processes d)" using i(3) len by simp
  obtain ms t h where s: "tree_nodes (list_mboxes_tree (processes d ! i)) = Inr ms"
      "delete_counterparts ms d = Inr (d\<lparr>mbox_tree := t\<rparr>)" "free_infos ms (mbox_infos d) = Inr h"
  proof -
    from r il obtain ms d1 h where s: "tree_nodes (list_mboxes_tree (processes d ! i)) = Inr ms"
        "delete_counterparts ms d = Inr d1" "free_infos ms (mbox_infos d1) = Inr h"
      by (auto simp: release_slot_def outcome_simps proc_at_def)
    obtain t where "d1 = d\<lparr>mbox_tree := t\<rparr>" using delete_counterparts_only [OF s(2)] by blast
    then show thesis using s that by simp
  qed
  define d2 where "d2 = d\<lparr>mbox_tree := t, mbox_infos := h, processes := (processes d)[i := ?pr]\<rparr>"
  have "lists_ok d2 ps fs qs us" using l lists_ok_cong [of d2 d] by (simp add: d2_def)
  from free_enq_ok [OF this i] obtain q qu h' ps' where f:
      "free_q (\<lambda>rc q h. q_enqueue rc (Some i) q h) d2 = Inr (with_lists q qu h' d2)"
      "lists_ok (with_lists q qu h' d2) ps' (fs @ [i]) qs us"
      "same_outside (insert (fresh (co_nodes d2)) (set ps)) (co_nodes d2) h'" by blast
  have c': "c' = (with_lists q qu h' d2)\<lparr>freelist_count := freelist_count d + 1\<rparr>"
    using r il s f(1) by (simp add: release_slot_def proc_at_def proc_upd_def d2_def)
  have "lists_ok c' ps' (fs @ [i]) qs us" using f(2) lists_ok_cong [of c' "with_lists q qu h' d2"] by (simp add: c')
  then show ?thesis using f(3) by (auto simp: c' d2_def same_outside_def)
qed

lemma disconnect_inv:
  assumes s: "slots_ok c fs us" and l: "lists_ok c ps fs qs us" and i: "i \<in> set us"
    and r: "disconnect_from_process i c = Inr (ok, c')"
  shows "slots_ok c' (if ok then fs @ [i] else fs) (remove1 i us)"
    "p \<in> set qs \<Longrightarrow> cells (co_nodes c) p = Some n \<Longrightarrow> node_data n = Some i \<Longrightarrow> cells (co_nodes c') p = None"
proof -
  let ?P = "processes c"
  have P: "procs_ok ?P fs us" "freelist_count c = of_nat (length fs)" "length ?P = 255"
    using s by (simp_all add: slots_ok_def procs_ok_def)
  have b: "2 \<le> i" "i < 255" "set us \<subseteq> {..<255}" "set fs \<subseteq> {..<255}" "distinct us" "i \<notin> set fs" "set ps \<inter> set qs = {}"
      "heap_ok (co_nodes c)"
    using l i by (auto simp: lists_ok_def dest: qrep_heap_ok)
  have ru: "set (remove1 i us) = set us - {i}" using b(5) by (rule set_remove1_eq)
  obtain closed d qs' where d: "lists_ok d ps fs qs' (remove1 i us)" "processes d = ?P[i := closed_slot (?P ! i)]"
      "freelist_count d = freelist_count c" "fresh (co_nodes d) = fresh (co_nodes c)"
      "\<forall>p n. p \<in> set qs \<longrightarrow> cells (co_nodes c) p = Some n \<longrightarrow> node_data n = Some i \<longrightarrow> cells (co_nodes d) p = None"
      "disconnect_from_process i c = (if closed then bindE (release_slot i d) (\<lambda>c. Inr (True, c)) else Inr (False, d))"
    using disconnect_begins [OF l i P(3)] by blast
  have ld: "length (processes d) = 255" using d(2) P(3) by simp
  have "slots_ok c' (if ok then fs @ [i] else fs) (remove1 i us) \<and>
      (p \<in> set qs \<longrightarrow> cells (co_nodes c) p = Some n \<longrightarrow> node_data n = Some i \<longrightarrow> cells (co_nodes c') p = None)"
  proof (cases closed)
    case False
    then have "c' = d" "\<not> ok" using r d(6) by simp_all
    moreover have "procs_ok (?P[i := closed_slot (?P ! i)]) fs (remove1 i us)"
      by (rule procs_ok_upd [OF P(1) b(1)]) (use b ru in \<open>auto simp: closed_slot_def\<close>)
    ultimately show ?thesis using d P(2) by (auto simp: slots_ok_def)
  next
    case True
    then have rs: "release_slot i d = Inr c'" "ok" using r d(6) by (auto simp: outcome_simps)
    have n: "i \<notin> set (fs @ remove1 i us)" using b(6) ru by simp
    obtain ps' where c': "lists_ok c' ps' (fs @ [i]) qs' (remove1 i us)" "freelist_count c' = freelist_count d + 1"
        "processes c' = (processes d)[i := (processes d ! i)
             \<lparr>list_mboxes_tree := destroyed (list_mboxes_tree (processes d ! i)), ip_sockaddr := []\<rparr>]"
        "\<forall>p. p < fresh (co_nodes d) \<longrightarrow> p \<notin> set ps \<longrightarrow> cells (co_nodes c') p = cells (co_nodes d) p"
      using release_slot_only [OF d(1) n b(1,2) ld rs(1)] by blast
    have "processes c' = ?P[i := (closed_slot (?P ! i))\<lparr>list_mboxes_tree := destroyed (list_mboxes_tree (?P ! i)), ip_sockaddr := []\<rparr>]"
      using c'(3) d(2) b(2) P(3) by (simp add: closed_slot_def)
    moreover have "procs_ok (?P[i := (closed_slot (?P ! i))\<lparr>list_mboxes_tree := destroyed (list_mboxes_tree (?P ! i)), ip_sockaddr := []\<rparr>])
        (fs @ [i]) (remove1 i us)"
      by (rule procs_ok_upd [OF P(1) b(1)]) (use b ru in \<open>auto simp: closed_slot_def idle_def\<close>)
    moreover have "p < fresh (co_nodes c)" if "cells (co_nodes c) p = Some n" using heap_ok_less [OF b(8) that] .
    ultimately show ?thesis using c'(1,2,4) d(3-5) P(2) rs(2) b(7) unfolding slots_ok_def by auto
  qed
  then show "slots_ok c' (if ok then fs @ [i] else fs) (remove1 i us)"
    "p \<in> set qs \<Longrightarrow> cells (co_nodes c) p = Some n \<Longrightarrow> node_data n = Some i \<Longrightarrow> cells (co_nodes c') p = None"
    by blast+
qed

section \<open>Connecting\<close>

lemma slots_ok_upd:
  assumes s: "slots_ok c fs us" and i: "i \<in> set us" and pr: "mbox_id_in_itccoord pr = mbox_id_in_itccoord (processes c ! i)" "active pr"
    and c': "processes c' = (processes c)[i := pr]" "free_list c' = free_list c" "used_list c' = used_list c"
      "co_nodes c' = co_nodes c" "co_rc c' = co_rc c" "freelist_count c' = freelist_count c"
  shows "slots_ok c' fs us"
proof -
  obtain ps qs where l: "lists_ok c ps fs qs us" using s by (auto simp: slots_ok_def)
  have b: "2 \<le> i" "set us \<subseteq> {..<255}" "set fs \<subseteq> {..<255}" "i \<notin> set fs" using l i by (auto simp: lists_ok_def)
  have "procs_ok (processes c') fs us"
    unfolding c'(1) by (rule procs_ok_upd) (use s i b pr in \<open>auto simp: slots_ok_def\<close>)
  then show ?thesis using s lists_ok_cong [OF c'(2-5)] c'(6) by (auto simp: slots_ok_def)
qed

lemma active_sockfd: "active (pr\<lparr>ip_sockfd := fd\<rparr>) = active pr"
  by (simp add: active_def)

text \<open>
  Connecting to a process: either the lists stay as they are, or the slot was given up and its node
  in the list of slots in use released.
\<close>

lemma connect_inv:
  assumes s: "slots_ok c fs us" and l: "lists_ok c ps fs qs us" and i: "i \<in> set us"
    and r: "connect_to_process i c = Inr (True, c')"
  shows "(slots_ok c' fs us \<and> lists_ok c' ps fs qs us) \<or>
    ((\<exists>fs' us'. slots_ok c' fs' us') \<and>
       (\<forall>p n. p \<in> set qs \<longrightarrow> cells (co_nodes c) p = Some n \<longrightarrow> node_data n = Some i \<longrightarrow> cells (co_nodes c') p = None))"
proof -
  have il: "i < length (processes c)" by (rule slots_ok_mem(3) [OF s i])
  obtain sd e c1 where c1: "co_sys c = ((sd, e), c1)" by (metis prod.exhaust)
  note C1 = co_sameD [OF co_sys_same [OF c1]]
  have gone: ?thesis if d: "disconnect_from_process i d = Inr (ok, c')" and "slots_ok d fs us" "lists_ok d ps fs qs us"
      "co_nodes d = co_nodes c" for d ok
    using disconnect_inv [OF that(2,3) i d] that(4) by metis
  have s1: "slots_ok c1 fs us" using s slots_ok_view slots_view_same [OF co_sys_same [OF c1]] by blast
  have l1: "lists_ok c1 ps fs qs us" using l lists_ok_cong [OF C1(1-4)] by simp
  show ?thesis
  proof (cases "sd < 0")
    case True
    then have "\<exists>ok. disconnect_from_process i c1 = Inr (ok, c')"
      using r c1 il by (auto simp: connect_to_process_def proc_at_def outcome_simps split: if_splits)
    then show ?thesis using gone s1 l1 C1(3) by blast
  next
    case False
    obtain cl c2 where c2: "co_sys c1 = (cl, c2)" by (metis prod.exhaust)
    define d where "d = c2\<lparr>processes := (processes c2)[i := (processes c2 ! i)\<lparr>ip_sockfd := sd\<rparr>]\<rparr>"
    note C2 = co_sameD [OF co_sys_same [OF c2]]
    have d: "proc_upd i (\<lambda>pr. pr\<lparr>ip_sockfd := sd\<rparr>) c2 = Inr d" using il C1(6) C2(6) by (simp add: proc_upd_def d_def)
    obtain res e' c3 where c3: "send_ack_loop (Suc (length (sys (co_proc d)))) sd d = Inr ((res, e'), c3)" "co_same d c3"
      using send_ack_loop_ends [of d _ sd] by (metis lessI prod.exhaust)
    note C3 = co_sameD [OF c3(2)]
    have f: "free_list c3 = free_list c" "used_list c3 = used_list c" "co_nodes c3 = co_nodes c" "co_rc c3 = co_rc c"
        "freelist_count c3 = freelist_count c" "processes c3 = (processes c)[i := (processes c ! i)\<lparr>ip_sockfd := sd\<rparr>]"
      using C1 C2 C3 by (simp_all add: d_def)
    have act: "active (processes c ! i)" using s i by (simp add: slots_ok_def procs_ok_def)
    have s3: "slots_ok c3 fs us"
      by (rule slots_ok_upd [OF s i _ _ f(6,1-5)]) (simp_all add: active_sockfd act)
    have l3: "lists_ok c3 ps fs qs us" using l lists_ok_cong [OF f(1-4)] by simp
    have conn: "connect_to_process i c = (if res < 0 then
         (if e' = EPIPE then bindE (disconnect_from_process i c3) (\<lambda>(ok, c). Inr (True, c)) else Inr (False, c3))
       else bindE (proc_upd i (\<lambda>pr. pr\<lparr>ip_state := PROC_CONNECTED\<rparr>) c3) (\<lambda>c. Inr (True, c)))"
      using False c1 c2 d c3(1) il by (simp add: connect_to_process_def proc_at_def del: send_ack_loop.simps)
    show ?thesis
    proof (cases "res < 0")
      case True
      then have "\<exists>ok. disconnect_from_process i c3 = Inr (ok, c')" using r conn by (auto simp: outcome_simps split: if_splits)
      then show ?thesis using gone s3 l3 f(3) by blast
    next
      case False
      then have c': "c' = c3\<lparr>processes := (processes c3)[i := (processes c3 ! i)\<lparr>ip_state := PROC_CONNECTED\<rparr>]\<rparr>"
        using r conn f(6) il by (simp add: proc_upd_def)
      have "slots_ok c' fs us" by (rule slots_ok_upd [OF s3 i]) (simp_all add: c' active_def)
      moreover have "lists_ok c' ps fs qs us" using l3 lists_ok_cong [of c' c3] by (simp add: c')
      ultimately show ?thesis by blast
    qed
  qed
qed

section \<open>The loop over the slots in use\<close>

lemma used_node:
  assumes "lists_ok c ps fs qs us" and "p \<in> set qs"
  shows "\<exists>n i. cells (co_nodes c) p = Some n \<and> node_data n = Some i \<and> i \<in> set us \<and>
           (next_ptr n = None \<or> next_ptr n \<in> Some ` set qs)"
proof -
  obtain pv where "dseg (cells (co_nodes c)) pv None qs (map Some us)"
    using assms(1) by (auto simp: lists_ok_def qrep_def dlist_def)
  from dseg_node [OF this assms(2)] show ?thesis by auto
qed

lemma serve_loop_inv:
  assumes "slots_ok c fs us" and "lists_ok c ps fs qs us" and "iter = None \<or> iter \<in> Some ` set qs"
    and "serve_loop n iter rd zc c = Inr (True, zc', c')"
  shows "\<exists>fs' us'. slots_ok c' fs' us'"
  using assms
proof (induction n arbitrary: iter c)
  case (Suc n)
  note s = Suc.prems(1) and l = Suc.prems(2) and r = Suc.prems(4)
  show ?case
  proof (cases iter)
    case None
    then show ?thesis using s r by auto
  next
    case (Some p)
    then have p: "p \<in> set qs" using Suc.prems(3) by auto
    obtain nd i where nd: "cells (co_nodes c) p = Some nd" "node_data nd = Some i" "i \<in> set us"
        "next_ptr nd = None \<or> next_ptr nd \<in> Some ` set qs"
      using used_node [OF l p] by blast
    let ?pr = "processes c ! i"
    have il: "proc_at i c = Inr ?pr" using slots_ok_mem(3) [OF s nd(3)] by (simp add: proc_at_def)
    have advance: "\<exists>fs' us'. slots_ok c' fs' us'" if "bindE (hread (Some p) (co_nodes d)) (\<lambda>nd. serve_loop n (next_ptr nd) rd zc d) = Inr (True, zc', c')"
        and "slots_ok d fs us" "lists_ok d ps fs qs us" "co_nodes d = co_nodes c" for d
      using that Suc.IH [OF that(2,3) nd(4)] nd(1) by (simp add: hread_def)
    show ?thesis
    proof (cases "ip_sockfd ?pr \<noteq> -1 \<and> ip_sockfd ?pr \<in> set rd")
      case True
      have "active ?pr" using s nd(3) by (simp add: slots_ok_def procs_ok_def)
      then consider "ip_state ?pr = PROC_LISTENING" | "ip_state ?pr = PROC_CONNECTED" by (auto simp: active_def)
      then show ?thesis
      proof cases
        case 1
        then obtain d where d: "connect_to_process i c = Inr (True, d)"
            "bindE (hread (Some p) (co_nodes d)) (\<lambda>nd. serve_loop n (next_ptr nd) rd zc d) = Inr (True, zc', c')"
          using r Some nd(1,2) il True by (auto simp: outcome_simps hread_def Let_def split: if_splits)
        show ?thesis
        proof (cases "cells (co_nodes d) p")
          case None
          then show ?thesis using d(2) by (simp add: hread_def)
        next
          case (Some nd')
          then have "slots_ok d fs us \<and> lists_ok d ps fs qs us" using connect_inv [OF s l nd(3) d(1)] p nd(1,2) by fastforce
          moreover obtain nd'' where "cells (co_nodes d) p = Some nd''" "next_ptr nd'' = None \<or> next_ptr nd'' \<in> Some ` set qs"
            using used_node [of d ps fs qs us p] calculation p by blast
          ultimately show ?thesis using Suc.IH [where c = d and iter = "next_ptr nd''"] d(2) by (simp add: hread_def)
        qed
      next
        case 2
        then have "\<exists>ok. disconnect_from_process i c = Inr (ok, c')"
          using r Some nd(1,2) il True by (auto simp: outcome_simps hread_def Let_def)
        then show ?thesis using disconnect_inv(1) [OF s l nd(3)] by blast
      qed
    next
      case False
      obtain k e d where d: "co_sys c = ((k, e), d)" by (metis prod.exhaust)
      note D = co_sameD [OF co_sys_same [OF d]]
      have sd: "slots_ok d fs us" "lists_ok d ps fs qs us"
        using s slots_ok_view slots_view_same [OF co_sys_same [OF d]] l lists_ok_cong [OF D(1-4)] by blast+
      from r Some nd(1,2) il False d
      have "(\<exists>ok. disconnect_from_process i d = Inr (ok, c')) \<or>
          bindE (hread (Some p) (co_nodes d)) (\<lambda>nd. serve_loop n (next_ptr nd) rd zc d) = Inr (True, zc', c') \<or>
          bindE (hread (Some p) (co_nodes c)) (\<lambda>nd. serve_loop n (next_ptr nd) rd zc c) = Inr (True, zc', c')"
        by (auto simp: outcome_simps hread_def Let_def split: if_splits)
      then show ?thesis using disconnect_inv(1) [OF sd nd(3)] advance sd D(3) s l by blast
    qed
  qed
qed simp

section \<open>A new process\<close>

lemma open_slot_inv:
  assumes "open_slot i pid c = Inr (True, c')"
  shows "\<exists>pr. processes c' = (processes c)[i := pr] \<and> active pr \<and> mbox_id_in_itccoord pr = mbox_id_in_itccoord (processes c ! i) \<and>
           free_list c' = free_list c \<and> used_list c' = used_list c \<and> co_nodes c' = co_nodes c \<and> co_rc c' = co_rc c \<and>
           freelist_count c' = freelist_count c"
  using assms
  by (auto simp: open_slot_def outcome_simps proc_upd_def active_def co_same_iff split: if_splits dest!: co_sys_same)

lemma send_locate_reply_same:
  assumes "send_locate_reply sd tmp c = Inr (True, c')"
  shows "co_same c c'"
  using assms
  by (auto simp: send_locate_reply_def outcome_simps co_same_iff split: if_splits option.splits
      dest!: co_sys_same co_malloc_same)

lemma read_request_same: "read_request c = Inr (r, c') \<Longrightarrow> co_same c c'"
  by (auto simp: read_request_def outcome_simps Let_def split: if_splits)

lemma locate_request_inv:
  assumes s: "slots_ok c fs us" and r: "handle_locate_coord_request c = Inr (True, c')"
  shows "slots_ok c' fs us \<or> (\<exists>i fs'. fs = i # fs' \<and> slots_ok c' fs' (us @ [i]))"
proof -
  obtain sd e c1 where c1: "co_sys c = ((sd, e), c1)" by (metis prod.exhaust)
  have s1: "co_same c c1" by (rule co_sys_same [OF c1])
  have keep: "slots_ok d fs us" if "co_same c d" for d using s slots_ok_view slots_view_same [OF that] by blast
  show ?thesis
  proof (cases "sd < 0")
    case True
    then show ?thesis using r c1 keep [OF s1] by (auto simp: handle_locate_coord_request_def)
  next
    case False
    obtain m c2 where c2: "co_malloc c1 = (m, c2)" by (metis prod.exhaust)
    have s2: "co_same c c2" by (rule co_same_trans [OF s1 co_malloc_same [OF c2]])
    have m: m using r False c1 c2 by (auto simp: handle_locate_coord_request_def split: if_splits)
    obtain req c3 where c3: "read_request c2 = Inr (req, c3)"
      using r False c1 c2 m by (auto simp: handle_locate_coord_request_def outcome_simps)
    have s3: "co_same c c3" by (rule co_same_trans [OF s2 read_request_same [OF c3]])
    show ?thesis
    proof (cases req)
      case (Inl res)
      then show ?thesis using r False c1 c2 m c3 keep [OF s3] by (auto simp: handle_locate_coord_request_def)
    next
      case (Inr pid)
      note k3 = keep [OF s3]
      obtain ps qs where l3: "lists_ok c3 ps fs qs us" using k3 by (auto simp: slots_ok_def)
      show ?thesis
      proof (cases fs)
        case Nil
        then have "free_deq c3 = Inr (None, c3\<lparr>co_rc := BLive ITC_QUEUE_EMPTY\<rparr>)" using free_deq_empty l3 by simp
        then show ?thesis using r False c1 c2 m c3 Inr by (simp add: handle_locate_coord_request_def)
      next
        case (Cons i fs')
        obtain q qu h where f: "free_deq c3 = Inr (Some i, with_lists q qu h c3)"
            "lists_ok (with_lists q qu h c3) (tl ps) fs' qs us"
          using free_deq_ok l3 Cons by blast
        let ?d = "(with_lists q qu h c3)\<lparr>freelist_count := freelist_count c3 - 1\<rparr>"
        have ld: "lists_ok ?d (tl ps) fs' qs us" using f(2) lists_ok_cong [of ?d "with_lists q qu h c3"] by simp
        have i: "i \<notin> set (fs' @ us)" "2 \<le> i" "i < 255" using l3 Cons by (auto simp: lists_ok_def)
        obtain qf q' h' qs' where u: "used_q (\<lambda>rc q h. q_enqueue rc (Some i) q h) ?d = Inr (with_lists qf q' h' ?d)"
            "lists_ok (with_lists qf q' h' ?d) (tl ps) fs' qs' (us @ [i])"
          using used_enq_ok [OF ld i] by blast
        let ?e = "with_lists qf q' h' ?d"
        have rc: "co_rc c3 = BLive 0" by (rule slots_ok_mem(5) [OF k3])
        obtain c5 where o: "open_slot i pid ?e = Inr (True, c5)" "send_locate_reply sd (Some i) c5 = Inr (True, c')"
          using r False c1 c2 m c3 Inr f(1) u(1) rc
          by (auto simp: handle_locate_coord_request_def outcome_simps split: if_splits)
        note S = co_sameD [OF send_locate_reply_same [OF o(2)]]
        obtain pr where pr: "processes c5 = (processes ?e)[i := pr]" "active pr"
            "mbox_id_in_itccoord pr = mbox_id_in_itccoord (processes ?e ! i)" "free_list c5 = free_list ?e"
            "used_list c5 = used_list ?e" "co_nodes c5 = co_nodes ?e" "co_rc c5 = co_rc ?e"
            "freelist_count c5 = freelist_count ?e"
          using open_slot_inv [OF o(1)] by blast
        have "lists_ok c' (tl ps) fs' qs' (us @ [i])" using u(2) lists_ok_cong [of c' ?e] S(1-4) pr(4-7) by simp
        moreover have "procs_ok ((processes c3)[i := pr]) fs' (us @ [i])"
        proof (rule procs_ok_upd)
          show "procs_ok (processes c3) fs us" using k3 by (simp add: slots_ok_def)
          show "mbox_id_in_itccoord pr = mbox_id_in_itccoord (processes c3 ! i)" using pr(3) by simp
        qed (use Cons i pr(2) l3 in \<open>auto simp: lists_ok_def\<close>)
        moreover have "freelist_count c' = of_nat (length fs')" using k3 Cons S(5) pr(8) by (simp add: slots_ok_def)
        ultimately show ?thesis using Cons S(6) pr(1) by (auto simp: slots_ok_def)
      qed
    qed
  qed
qed

section \<open>Requests by message\<close>

lemma upd_tree_view:
  "i < length P \<Longrightarrow> map (\<lambda>pr. pr\<lparr>list_mboxes_tree := BNull\<rparr>) (P[i := (P ! i)\<lparr>list_mboxes_tree := t\<rparr>]) =
     map (\<lambda>pr. pr\<lparr>list_mboxes_tree := BNull\<rparr>) P"
  by (simp add: map_update list_update_same_conv)

lemma handle_add_mbox_view: "handle_add_mbox i name c = Inr c' \<Longrightarrow> slots_view c' = slots_view c"
  by (auto simp: handle_add_mbox_def outcome_simps slots_view_def proc_at_def proc_upd_def Let_def upd_tree_view
      split: if_splits option.splits)

lemma handle_remove_mbox_view: "handle_remove_mbox i name c = Inr c' \<Longrightarrow> slots_view c' = slots_view c"
  by (auto simp: handle_remove_mbox_def outcome_simps slots_view_def proc_at_def proc_upd_def upd_tree_view
      split: if_splits option.splits)

lemma co_itc_same: "co_itc f c = Inr (r, c') \<Longrightarrow> co_same c c'"
  by (auto simp: co_itc_def outcome_simps)

lemma co_put_same: "co_put f c = Inr c' \<Longrightarrow> co_same c c'"
  by (auto simp: co_put_def outcome_simps)

lemma send_locate_mbox_reply_same:
  assumes "send_locate_mbox_reply from_mbox mbox_id pid ext ns c = Inr c'"
  shows "co_same c c'"
  using assms
  by (auto simp: send_locate_mbox_reply_def outcome_simps co_same_iff split: if_splits option.splits
      dest!: co_itc_same co_put_same)

lemma locate_outside_same: "locate_outside timeout name evs c = Inr (r, c') \<Longrightarrow> co_same c c'"
  by (auto simp: locate_outside_def outcome_simps co_same_iff split: if_splits option.splits
      dest!: co_itc_same co_put_same)

lemma handle_locate_mbox_same: "handle_locate_mbox from_mbox timeout internal name evs c = Inr c' \<Longrightarrow> co_same c c'"
  by (auto simp: handle_locate_mbox_def outcome_simps split: if_splits option.splits
      dest!: send_locate_mbox_reply_same locate_outside_same intro: co_same_trans)

lemma handle_incoming_view:
  assumes "handle_incoming_request evs c = Inr c'"
  shows "slots_view c' = slots_view c"
  using assms
  by (auto simp: handle_incoming_request_def outcome_simps split: if_splits
      dest!: co_itc_same [THEN slots_view_same] handle_add_mbox_view handle_remove_mbox_view
        handle_locate_mbox_same [THEN slots_view_same])

section \<open>A round of the main loop\<close>

lemma serve_ready_inv:
  assumes s: "slots_ok c fs us" and r: "serve_ready rd evs zc c = Inr (Some zc', c')"
  shows "\<exists>fs' us'. slots_ok c' fs' us'"
proof -
  obtain ps qs where l: "lists_ok c ps fs qs us" using s by (auto simp: slots_ok_def)
  then obtain uq where uq: "used_list c = BLive uq" "qrep (co_nodes c) uq qs (map Some us)"
    by (auto simp: lists_ok_def)
  have hd: "q_head uq = None \<or> q_head uq \<in> Some ` set qs"
    using uq(2) by (cases qs) (auto simp: qrep_def dlist_def)
  obtain zc2 c2 where c2: "serve_loop (Suc (fresh (co_nodes c))) (q_head uq) rd zc c = Inr (True, zc2, c2)"
      "(if co_mbox_fd c2 \<in> set rd then handle_incoming_request evs c2 else Inr c2) = Inr c'"
    using r uq(1) by (auto simp: serve_ready_def bindE_eq_Inr simp del: serve_loop.simps split: if_splits prod.splits)
  obtain fs2 us2 where s2: "slots_ok c2 fs2 us2" using serve_loop_inv [OF s l hd c2(1)] by blast
  have "slots_view c' = slots_view c2" using c2(2) handle_incoming_view by (auto split: if_splits)
  then show ?thesis using slots_ok_view s2 by blast
qed

lemma coord_round_parts:
  assumes "coord_round ready evs zc c = Inr (Some zc', c')"
  shows "\<exists>rd sel c1 c2. co_sys c = (sel, c1) \<and>
           (c2 = c1 \<or> handle_locate_coord_request c1 = Inr (True, c2)) \<and> serve_ready rd evs zc c2 = Inr (Some zc', c')"
  using assms by (auto simp: coord_round_def bindE_eq_Inr Let_def simp del: used_fds.simps split: if_splits prod.splits; metis)

lemma coord_round_inv:
  assumes s: "slots_ok c fs us" and r: "coord_round ready evs zc c = Inr (Some zc', c')"
  shows "\<exists>fs' us'. slots_ok c' fs' us'"
proof -
  obtain rd sel c1 c2 where c: "co_sys c = (sel, c1)" "c2 = c1 \<or> handle_locate_coord_request c1 = Inr (True, c2)"
      "serve_ready rd evs zc c2 = Inr (Some zc', c')"
    using coord_round_parts [OF r] by blast
  have "slots_ok c1 fs us" using s slots_ok_view slots_view_same [OF co_sys_same [OF c(1)]] by blast
  then obtain fs2 us2 where "slots_ok c2 fs2 us2" using c(2) locate_request_inv by blast
  then show ?thesis using serve_ready_inv c(3) by blast
qed

section \<open>The start\<close>

definition new_slot :: "nat \<Rightarrow> itc_process" where
  "new_slot i = itc_process0\<lparr>mbox_id_in_itccoord := push_bit ITC_COORD_SHIFT (of_nat i), ip_pid := -1, ip_sockfd := -1\<rparr>"

lemma init_slots_ok:
  assumes "lists_ok c ps fs qs us" and "distinct is" and "set is \<inter> set (fs @ us) = {}" and "set is \<subseteq> {2..<255}"
    and "length (processes c) = 255"
  shows "\<exists>c' ps'. init_slots is c = Inr (True, c') \<and> lists_ok c' ps' (fs @ is) qs us \<and> length (processes c') = 255 \<and>
           (\<forall>j < 255. processes c' ! j = (if j \<in> set is then new_slot j else processes c ! j)) \<and>
           freelist_count c' = freelist_count c + of_nat (length is) \<and> mbox_tree c' = mbox_tree c \<and>
           mbox_infos c' = mbox_infos c \<and> co_proc c' = co_proc c \<and> co_mbox_id c' = co_mbox_id c \<and> co_mbox_fd c' = co_mbox_fd c"
  using assms
proof (induction "is" arbitrary: c ps fs)
  case (Cons i "is")
  let ?d = "c\<lparr>processes := (processes c)[i := new_slot i]\<rparr>"
  have i: "i \<notin> set (fs @ us)" "2 \<le> i" "i < 255" using Cons.prems(3,4) by auto
  have d: "proc_upd i (\<lambda>_. itc_process0\<lparr>mbox_id_in_itccoord := push_bit ITC_COORD_SHIFT (of_nat i),
                                         ip_pid := -1, ip_sockfd := -1\<rparr>) c = Inr ?d"
    using i(3) Cons.prems(5) by (simp add: proc_upd_def new_slot_def)
  have "lists_ok ?d ps fs qs us" using Cons.prems(1) lists_ok_cong [of ?d c] by simp
  from free_enq_ok [OF this i] obtain q qu h ps' where f:
      "free_q (\<lambda>rc q h. q_enqueue rc (Some i) q h) ?d = Inr (with_lists q qu h ?d)"
      "lists_ok (with_lists q qu h ?d) ps' (fs @ [i]) qs us" by blast
  let ?e = "(with_lists q qu h ?d)\<lparr>freelist_count := freelist_count c + 1\<rparr>"
  have e: "lists_ok ?e ps' (fs @ [i]) qs us" using f(2) lists_ok_cong [of ?e "with_lists q qu h ?d"] by simp
  have rc: "co_rc c = BLive 0" using Cons.prems(1) by (simp add: lists_ok_def)
  obtain c' ps'' where c': "init_slots is ?e = Inr (True, c')" "lists_ok c' ps'' ((fs @ [i]) @ is) qs us"
      "length (processes c') = 255" "\<forall>j < 255. processes c' ! j = (if j \<in> set is then new_slot j else processes ?e ! j)"
      "freelist_count c' = freelist_count ?e + of_nat (length is)" "mbox_tree c' = mbox_tree ?e"
      "mbox_infos c' = mbox_infos ?e" "co_proc c' = co_proc ?e" "co_mbox_id c' = co_mbox_id ?e" "co_mbox_fd c' = co_mbox_fd ?e"
    using Cons.IH [OF e] Cons.prems(2-5) by auto
  have "init_slots (i # is) c = Inr (True, c')" using d f(1) rc c'(1) by simp
  moreover have "processes c' ! j = (if j \<in> set (i # is) then new_slot j else processes c ! j)" if "j < 255" for j
    using c'(4) that i(3) Cons.prems(5) by (auto simp: nth_list_update)
  ultimately show ?case using c'(2,3,5-10) by auto
qed auto

text \<open>The slots that go into the free list at the start.\<close>

definition all_slots :: "nat list" where
  "all_slots = [2..<MAX_SUPPORTED_PROCESSES]"

lemma all_slots_facts: "set all_slots = {2..<255}" "distinct all_slots" "length all_slots = 253"
  by (simp_all add: all_slots_def del: upt_rec_numeral)

lemma start_slots_ok:
  assumes c: "co_rc c = BLive 0" "mallocs (co_proc c) = []" "sys (co_proc c) = []" "co_nodes c = empty_heap []"
    and P: "length (processes c) = 255" "\<And>j. j < 255 \<Longrightarrow> processes c ! j = itc_process0" and n: "freelist_count c = 0"
  shows "\<exists>c'. start_slots c = Inr (True, c') \<and> slots_ok c' all_slots [] \<and> mbox_tree c' = mbox_tree c \<and>
           mbox_infos c' = mbox_infos c \<and> co_proc c' = co_proc c \<and> co_mbox_id c' = co_mbox_id c \<and>
           co_mbox_fd c' = co_mbox_fd c \<and> (\<forall>j < 255. list_mboxes_tree (processes c' ! j) = BNull)"
proof -
  define p0 where "p0 = itc_process0\<lparr>mbox_id_in_itccoord := ITC_NO_MBOX_ID, ip_pid := -1, ip_sockfd := -1, ip_state := PROC_INVALID\<rparr>"
  define p1 where "p1 = itc_process0\<lparr>mbox_id_in_itccoord := push_bit ITC_COORD_SHIFT 1, ip_pid := cur_pid (co_proc c),
      ip_sockfd := -1, ip_state := PROC_CONNECTED\<rparr>"
  define d where "d = c\<lparr>free_list := BLive empty_queue, used_list := BLive empty_queue,
      processes := ((processes c)[0 := p0])[1 := p1]\<rparr>"
  have qi: "co_q_init b = Inr (BLive empty_queue, b)"
    if "co_rc b = BLive 0" "mallocs (co_proc b) = []" "sys (co_proc b) = []" for b
    using that by (simp add: co_q_init_def co_malloc_def co_sys_def q_init_def empty_queue_def)
  have "heap_ok (co_nodes c)" using c(4) by (simp add: empty_heap_def heap_ok_def)
  then have l: "lists_ok d [] [] [] []"
    using c(1,4) by (simp add: lists_ok_def d_def qrep_empty empty_heap_def)
  have len: "length (processes d) = 255" using P(1) by (simp add: d_def)
  obtain c' ps' where c': "init_slots all_slots d = Inr (True, c')" "lists_ok c' ps' ([] @ all_slots) [] []"
      "length (processes c') = 255" "\<forall>j < 255. processes c' ! j = (if j \<in> set all_slots then new_slot j else processes d ! j)"
      "freelist_count c' = freelist_count d + of_nat (length all_slots)" "mbox_tree c' = mbox_tree d" "mbox_infos c' = mbox_infos d"
      "co_proc c' = co_proc d" "co_mbox_id c' = co_mbox_id d" "co_mbox_fd c' = co_mbox_fd d"
    using init_slots_ok [OF l all_slots_facts(2) _ _ len] all_slots_facts(1) by auto
  have e: "start_slots c = init_slots all_slots d"
    using c(1-3) P(1) P(2) [of 0] P(2) [of 1] qi [of c] qi [of "c\<lparr>free_list := BLive empty_queue\<rparr>"]
    by (simp add: start_slots_def proc_upd_def d_def p0_def p1_def all_slots_def [symmetric] del: init_slots.simps MAX_SUPPORTED_PROCESSES_def)
  have pd: "processes d ! 0 = p0" "processes d ! 1 = p1" using P(1) by (simp_all add: d_def)
  have nw: "processes c' ! j = new_slot j" if "2 \<le> j" "j < 255" for j using c'(4) that all_slots_facts(1) by simp
  have old: "processes c' ! 0 = p0" "processes c' ! 1 = p1" using c'(4) pd all_slots_facts(1) by simp_all
  have "mbox_id_in_itccoord (processes c' ! j) = push_bit 20 (of_nat j)" if "0 < j" "j < 255" for j
    using nw [of j] that old by (cases "j = 1") (auto simp: p1_def new_slot_def)
  then have "procs_ok (processes c') all_slots []"
    using nw old c'(3) all_slots_facts(1) by (auto simp: procs_ok_def p0_def p1_def new_slot_def idle_def itc_process0_def)
  then have "slots_ok c' all_slots []" using c'(2,5) n by (auto simp: slots_ok_def d_def)
  moreover have "list_mboxes_tree (processes c' ! j) = BNull" if "j < 255" for j
  proof -
    consider "j = 0" | "j = 1" | "2 \<le> j" by linarith
    then show ?thesis using nw [of j] that old by cases (simp_all add: p0_def p1_def new_slot_def itc_process0_def)
  qed
  ultimately show ?thesis using c'(1,6-10) e by (auto simp: d_def)
qed

end
