(* ===== verification/Itc_Coord_Registry.thy ===== *)
theory Itc_Coord_Registry
  imports Itc_Coord_Slots
begin

text \<open>
  The names that the coordinator knows: an abstract registry, the invariant of the coordinator's
  trees, and that adding and removing mailboxes implement the registry.
\<close>

unbundle bit_operations_syntax

section \<open>A registry of names\<close>

datatype request = Add itc_mbox_id cstr | Remove itc_mbox_id cstr

type_synonym registry = "cstr \<Rightarrow> itc_mbox_id option"

text \<open>A name that is known keeps its mailbox; what is removed is forgotten.\<close>

fun registry_step :: "request \<Rightarrow> registry \<Rightarrow> registry" where
  "registry_step (Add i n) R = (if R n = None then R(n \<mapsto> i) else R)"
| "registry_step (Remove i n) R = R(n := None)"

text \<open>Requests of processes that may make them; a process removes only names of its own mailboxes.\<close>

fun registry_legal :: "(itc_mbox_id \<Rightarrow> nat option) \<Rightarrow> request list \<Rightarrow> registry \<Rightarrow> bool" where
  "registry_legal own [] R = True"
| "registry_legal own (Add i n # rs) R =
     (own i \<noteq> None \<and> is_cstr n \<and> registry_legal own rs (registry_step (Add i n) R))"
| "registry_legal own (Remove i n # rs) R =
     (own i \<noteq> None \<and> is_cstr n \<and> (\<forall>j. R n = Some j \<longrightarrow> own j = own i) \<and>
      registry_legal own rs (registry_step (Remove i n) R))"

fun run_requests ::
  "(itc_mbox_id \<Rightarrow> cstr \<Rightarrow> 's \<Rightarrow> 's outcome) \<Rightarrow> (itc_mbox_id \<Rightarrow> cstr \<Rightarrow> 's \<Rightarrow> 's outcome) \<Rightarrow> request list \<Rightarrow> 's \<Rightarrow> 's outcome"
where
  "run_requests add rmv [] s = Inr s"
| "run_requests add rmv (Add i n # rs) s = bindE (add i n s) (run_requests add rmv rs)"
| "run_requests add rmv (Remove i n # rs) s = bindE (rmv i n s) (run_requests add rmv rs)"

text \<open>
  The laws of a name service: \<open>lookup\<close> reads the registry from a state, \<open>own\<close> the process that a
  mailbox belongs to, when that process may make requests.
\<close>

locale name_service =
  fixes add :: "itc_mbox_id \<Rightarrow> cstr \<Rightarrow> 's \<Rightarrow> 's outcome"
    and rmv :: "itc_mbox_id \<Rightarrow> cstr \<Rightarrow> 's \<Rightarrow> 's outcome"
    and lookup :: "'s \<Rightarrow> registry"
    and own :: "'s \<Rightarrow> itc_mbox_id \<Rightarrow> nat option"
    and ok :: "'s \<Rightarrow> bool"
  assumes add_new: "ok s \<Longrightarrow> own s i \<noteq> None \<Longrightarrow> is_cstr n \<Longrightarrow> lookup s n = None \<Longrightarrow>
      \<exists>s'. add i n s = Inr s' \<and> ok s' \<and> lookup s' = (lookup s)(n \<mapsto> i) \<and> own s' = own s"
    and add_known: "ok s \<Longrightarrow> own s i \<noteq> None \<Longrightarrow> is_cstr n \<Longrightarrow> lookup s n \<noteq> None \<Longrightarrow>
      \<exists>s'. add i n s = Inr s' \<and> ok s' \<and> lookup s' = lookup s \<and> own s' = own s"
    and rmv_own: "ok s \<Longrightarrow> own s i \<noteq> None \<Longrightarrow> is_cstr n \<Longrightarrow> lookup s n = Some j \<Longrightarrow> own s j = own s i \<Longrightarrow>
      \<exists>s'. rmv i n s = Inr s' \<and> ok s' \<and> lookup s' = (lookup s)(n := None) \<and> own s' = own s"
    and rmv_unknown: "ok s \<Longrightarrow> own s i \<noteq> None \<Longrightarrow> is_cstr n \<Longrightarrow> lookup s n = None \<Longrightarrow>
      \<exists>s'. rmv i n s = Inr s' \<and> ok s' \<and> lookup s' = lookup s \<and> own s' = own s"
begin

lemma add_refines:
  assumes "ok s" and "own s i \<noteq> None" and "is_cstr n"
  shows "\<exists>s'. add i n s = Inr s' \<and> ok s' \<and> lookup s' = registry_step (Add i n) (lookup s) \<and> own s' = own s"
  using add_new [OF assms] add_known [OF assms] by (cases "lookup s n") simp_all

lemma rmv_refines:
  assumes "ok s" and "own s i \<noteq> None" and "is_cstr n" and "\<forall>j. lookup s n = Some j \<longrightarrow> own s j = own s i"
  shows "\<exists>s'. rmv i n s = Inr s' \<and> ok s' \<and> lookup s' = registry_step (Remove i n) (lookup s) \<and> own s' = own s"
proof (cases "lookup s n")
  case None
  then have "(lookup s)(n := None) = lookup s" by auto
  then show ?thesis using rmv_unknown [OF assms(1-3) None] by simp
next
  case (Some j)
  then show ?thesis using rmv_own [OF assms(1-3) Some] assms(4) by simp
qed

lemma run_refines:
  assumes "ok s" and "registry_legal (own s) rs (lookup s)"
  shows "\<exists>s'. run_requests add rmv rs s = Inr s' \<and> ok s' \<and> lookup s' = fold registry_step rs (lookup s)"
  using assms
proof (induction rs arbitrary: s)
  case (Cons r rs)
  then obtain s1 where "run_requests add rmv (r # rs) s = run_requests add rmv rs s1" "ok s1"
      "lookup s1 = registry_step r (lookup s)" "own s1 = own s" "registry_legal (own s) rs (registry_step r (lookup s))"
    using add_refines [OF Cons.prems(1)] rmv_refines [OF Cons.prems(1)] by (cases r) force+
  then show ?case using Cons.IH [of s1] by auto
qed simp

end

section \<open>The trees\<close>

definition info_name :: "itc_mbox_info heap \<Rightarrow> nat \<Rightarrow> cstr" where
  "info_name h m = (case cells h m of Some mi \<Rightarrow> mi_mbox_name mi | None \<Rightarrow> [])"

definition info_id :: "itc_mbox_info heap \<Rightarrow> nat \<Rightarrow> itc_mbox_id" where
  "info_id h m = (case cells h m of Some mi \<Rightarrow> mi_mbox_id mi | None \<Rightarrow> 0)"

definition infos_ok :: "itc_mbox_info heap \<Rightarrow> nat list \<Rightarrow> bool" where
  "infos_ok h ms \<longleftrightarrow> (\<forall>m \<in> set ms. cells h m \<noteq> None \<and> is_cstr (info_name h m))"

lemma infos_ok_subset: "infos_ok h ms \<Longrightarrow> set ms' \<subseteq> set ms \<Longrightarrow> infos_ok h ms'"
  by (auto simp: infos_ok_def)

lemma tree_nodes_mk [simp]: "tree_nodes (mk_tree ms) = Inr ms"
  by (simp add: tree_nodes_def mk_tree_def)

lemma mk_tree_not_freed [simp]: "mk_tree ms \<noteq> BFreed" "BFreed \<noteq> mk_tree ms"
  by (simp_all add: mk_tree_def)

lemma hread_info:
  "cells h m \<noteq> None \<Longrightarrow> \<exists>mi. hread (Some m) h = Inr mi \<and> mi_mbox_name mi = info_name h m \<and> mi_mbox_id mi = info_id h m"
  by (auto simp: hread_def info_name_def info_id_def)

lemma tree_search_find:
  "infos_ok h ms \<Longrightarrow> is_cstr name \<Longrightarrow> tree_search name ms h = Inr (find (\<lambda>m. info_name h m = name) ms)"
proof (induction ms)
  case (Cons m ms)
  then have "cells h m \<noteq> None" "is_cstr (info_name h m)" "infos_ok h ms" by (auto simp: infos_ok_def)
  then show ?case using Cons hread_info [of h m] strcmp_eq_0 [of name "info_name h m"] by auto
qed simp

lemma tfind_mk: "infos_ok h ms \<Longrightarrow> is_cstr name \<Longrightarrow> tfind name (mk_tree ms) h = Inr (find (\<lambda>m. info_name h m = name) ms)"
  by (simp add: tfind_def tree_search_find)

lemma find_the:
  "inj_on f (set ms) \<Longrightarrow> m \<in> set ms \<Longrightarrow> find (\<lambda>x. f x = f m) ms = Some m"
  by (induction ms) (auto simp: inj_on_def)

lemma tdelete_mk:
  assumes "infos_ok h ms" and "is_cstr name"
  shows "tdelete name (mk_tree ms) h =
           Inr (mk_tree (case find (\<lambda>m. info_name h m = name) ms of None \<Rightarrow> ms | Some m \<Rightarrow> remove1 m ms))"
  using assms by (auto simp: tdelete_def tree_search_find split: option.splits)

lemma tsearch_mk:
  assumes "infos_ok h (m # ms)" and "info_name h m \<notin> info_name h ` set ms"
  shows "tsearch m (mk_tree ms) h = Inr (mk_tree (ms @ [m]))"
proof -
  have "cells h m \<noteq> None" "is_cstr (info_name h m)" "infos_ok h ms" using assms(1) by (auto simp: infos_ok_def)
  moreover have "find (\<lambda>x. info_name h x = info_name h m) ms = None" using assms(2) by (auto simp: find_None_iff image_iff)
  ultimately show ?thesis using hread_info [of h m] tree_search_find [of h ms] by (auto simp: tsearch_def)
qed

section \<open>The invariant\<close>

text \<open>
  \<open>reg_ok c T L D\<close>: the tree of the host holds the records \<open>T\<close>, with different names, and the tree of
  process \<open>i\<close> those of them that belong to it. The trees of the slots in \<open>D\<close> are dangling; no known
  mailbox belongs to these slots.
\<close>

definition reg_ok :: "itccoord \<Rightarrow> nat list \<Rightarrow> (nat \<Rightarrow> nat list) \<Rightarrow> nat set \<Rightarrow> bool" where
  "reg_ok c T L D \<longleftrightarrow>
     mbox_tree c = mk_tree T \<and> distinct T \<and> inj_on (info_name (mbox_infos c)) (set T) \<and> infos_ok (mbox_infos c) T \<and>
     heap_ok (mbox_infos c) \<and> malloc_results (mbox_infos c) = [] \<and> length (processes c) = 255 \<and>
     (\<forall>m \<in> set T. \<exists>i < 255. find_process (info_id (mbox_infos c) m) = Some i) \<and>
     (\<forall>i < 255. list_mboxes_tree (processes c ! i) = (if i \<in> D then BFreed else mk_tree (L i)) \<and> distinct (L i) \<and>
        set (L i) = {m \<in> set T. find_process (info_id (mbox_infos c) m) = Some i} \<and> (i \<in> D \<longrightarrow> L i = []))"

lemma reg_okD:
  assumes "reg_ok c T L D"
  shows "mbox_tree c = mk_tree T" "distinct T" "inj_on (info_name (mbox_infos c)) (set T)" "infos_ok (mbox_infos c) T"
    "heap_ok (mbox_infos c)" "malloc_results (mbox_infos c) = []" "length (processes c) = 255"
    "\<And>m. m \<in> set T \<Longrightarrow> \<exists>i < 255. find_process (info_id (mbox_infos c) m) = Some i"
    "\<And>i. i < 255 \<Longrightarrow> list_mboxes_tree (processes c ! i) = (if i \<in> D then BFreed else mk_tree (L i))"
    "\<And>i. i < 255 \<Longrightarrow> distinct (L i)"
    "\<And>i. i < 255 \<Longrightarrow> set (L i) = {m \<in> set T. find_process (info_id (mbox_infos c) m) = Some i}"
    "\<And>i. i < 255 \<Longrightarrow> i \<in> D \<Longrightarrow> L i = []"
  using assms unfolding reg_ok_def by blast+

text \<open>The mailbox that is known under a name.\<close>

definition registered :: "itccoord \<Rightarrow> registry" where
  "registered c name =
     (if is_cstr name then
        (case tfind name (mbox_tree c) (mbox_infos c) of
           Inr (Some m) \<Rightarrow> Some (info_id (mbox_infos c) m)
         | _ \<Rightarrow> None)
      else None)"

lemma registered_find:
  assumes "reg_ok c T L D" and "is_cstr name"
  shows "registered c name = map_option (info_id (mbox_infos c)) (find (\<lambda>m. info_name (mbox_infos c) m = name) T)"
  using tfind_mk [OF reg_okD(4) [OF assms(1)] assms(2)] reg_okD(1) [OF assms(1)] assms(2)
  by (simp add: registered_def split: option.splits)

lemma registered_iff:
  assumes r: "reg_ok c T L D"
  shows "registered c name = Some j \<longleftrightarrow>
           (\<exists>m \<in> set T. info_name (mbox_infos c) m = name \<and> info_id (mbox_infos c) m = j)"
proof
  assume a: "registered c name = Some j"
  then have "is_cstr name" by (auto simp: registered_def split: if_splits)
  with a obtain m where "find (\<lambda>m. info_name (mbox_infos c) m = name) T = Some m" "info_id (mbox_infos c) m = j"
    using registered_find [OF r] by auto
  then show "\<exists>m \<in> set T. info_name (mbox_infos c) m = name \<and> info_id (mbox_infos c) m = j"
    by (auto simp: find_Some_iff)
next
  assume "\<exists>m \<in> set T. info_name (mbox_infos c) m = name \<and> info_id (mbox_infos c) m = j"
  then obtain m where "m \<in> set T" "info_name (mbox_infos c) m = name" "info_id (mbox_infos c) m = j" by blast
  moreover from this have "is_cstr name" using reg_okD(4) [OF r] by (auto simp: infos_ok_def)
  ultimately show "registered c name = Some j"
    using registered_find [OF r] find_the [OF reg_okD(3) [OF r], of m] by simp
qed

lemma registered_eqI:
  assumes "reg_ok c T L D" and "\<And>n j. R n = Some j \<longleftrightarrow> (\<exists>m \<in> set T. info_name (mbox_infos c) m = n \<and> info_id (mbox_infos c) m = j)"
  shows "registered c = R"
proof
  fix n
  have "registered c n = Some j \<longleftrightarrow> R n = Some j" for j using registered_iff [OF assms(1)] assms(2) by blast
  then show "registered c n = R n" by (metis option.exhaust)
qed

section \<open>Adding a mailbox\<close>

text \<open>A slot that may make requests: its process is connected, and its tree is not dangling.\<close>

definition requester :: "itccoord \<Rightarrow> itc_mbox_id \<Rightarrow> nat option" where
  "requester c i =
     (case find_process i of
        None \<Rightarrow> None
      | Some k \<Rightarrow>
          if k < length (processes c) \<and> ip_state (processes c ! k) = PROC_CONNECTED \<and>
             list_mboxes_tree (processes c ! k) \<noteq> BFreed
          then Some k else None)"

lemma requesterE:
  assumes "reg_ok c T L D" and "requester c i \<noteq> None"
  obtains k where "find_process i = Some k" "k < 255" "k \<notin> D" "ip_state (processes c ! k) = PROC_CONNECTED"
    "list_mboxes_tree (processes c ! k) = mk_tree (L k)" "requester c i = Some k"
  using assms reg_okD(7,9) [OF assms(1)]
  by (auto simp: requester_def split: option.splits if_splits; metis)

lemma requester_cong:
  assumes "length (processes c') = length (processes c)" and "\<And>k. k < length (processes c) \<Longrightarrow>
      ip_state (processes c' ! k) = ip_state (processes c ! k) \<and>
      (list_mboxes_tree (processes c' ! k) = BFreed \<longleftrightarrow> list_mboxes_tree (processes c ! k) = BFreed)"
  shows "requester c' = requester c"
  using assms by (auto simp: requester_def fun_eq_iff split: option.splits)

lemma info_old:
  assumes "heap_ok h" and "infos_ok h T" and "m \<in> set T"
  shows "info_name (h\<lparr>cells := (cells h)(fresh h \<mapsto> v), fresh := f\<rparr>) m = info_name h m"
    "info_id (h\<lparr>cells := (cells h)(fresh h \<mapsto> v), fresh := f\<rparr>) m = info_id h m"
    "cells (h\<lparr>cells := (cells h)(fresh h \<mapsto> v), fresh := f\<rparr>) m = cells h m" "m \<noteq> fresh h"
proof -
  show n: "m \<noteq> fresh h" using assms by (auto simp: infos_ok_def heap_ok_def)
  then show "info_name (h\<lparr>cells := (cells h)(fresh h \<mapsto> v), fresh := f\<rparr>) m = info_name h m"
    "info_id (h\<lparr>cells := (cells h)(fresh h \<mapsto> v), fresh := f\<rparr>) m = info_id h m"
    "cells (h\<lparr>cells := (cells h)(fresh h \<mapsto> v), fresh := f\<rparr>) m = cells h m"
    by (simp_all add: info_name_def info_id_def)
qed

lemma hmalloc_info:
  assumes "malloc_results h = []"
  shows "hmalloc v h = (Some (fresh h), h\<lparr>cells := (cells h)(fresh h \<mapsto> v), fresh := Suc (fresh h)\<rparr>)"
  using assms by (simp add: hmalloc_def can_alloc_def)

lemma add_known_ok:
  assumes r: "reg_ok c T L D" and i: "requester c i \<noteq> None" and n: "is_cstr name" and k: "registered c name \<noteq> None"
  shows "\<exists>c'. handle_add_mbox i name c = Inr c' \<and> reg_ok c' T L D \<and> registered c' = registered c \<and> processes c' = processes c"
proof -
  obtain k where K: "find_process i = Some k" "k < 255" "ip_state (processes c ! k) = PROC_CONNECTED"
    using requesterE [OF r i] by metis
  note R = reg_okD [OF r]
  let ?h = "mbox_infos c" and ?mi = "\<lparr>mi_mbox_id = i, mi_mbox_name = name\<rparr>"
  define h' where "h' = ?h\<lparr>cells := (cells ?h)(fresh ?h \<mapsto> ?mi), fresh := Suc (fresh ?h)\<rparr>"
  note old = info_old(1,2,3) [OF R(5,4), where v = ?mi and f = "Suc (fresh ?h)", folded h'_def] info_old(4) [OF R(5,4)]
  have ok': "infos_ok h' T" using R(4) old by (simp add: infos_ok_def)
  obtain m where m: "m \<in> set T" "info_name ?h m = name" using k registered_iff [OF r] by fastforce
  have inj': "inj_on (info_name h') (set T)" using R(3) old(1) by (simp add: inj_on_def)
  have "tfind name (mbox_tree c) h' = Inr (Some m)"
    using tfind_mk [OF ok' n] R(1) find_the [OF inj' m(1)] m old(1) by simp
  then have a: "handle_add_mbox i name c = Inr (c\<lparr>mbox_infos := h'\<rparr>)"
    using K R(7) hmalloc_info [OF R(6)] by (simp add: handle_add_mbox_def proc_at_def h'_def Let_def)
  have ids: "{m \<in> set T. find_process (info_id h' m) = x} = {m \<in> set T. find_process (info_id ?h m) = x}" for x
    using old(2) by auto
  have "heap_ok h'" "malloc_results h' = []" using R(5,6) by (simp_all add: heap_ok_def h'_def)
  then have r': "reg_ok (c\<lparr>mbox_infos := h'\<rparr>) T L D"
    using R ok' inj' old(2) unfolding reg_ok_def by (simp add: ids)
  have "registered (c\<lparr>mbox_infos := h'\<rparr>) = registered c"
    by (rule registered_eqI [OF r']) (use registered_iff [OF r] old(1,2) in auto)
  then show ?thesis using a r' by auto
qed

lemma add_new_ok:
  assumes r: "reg_ok c T L D" and i: "requester c i \<noteq> None" and n: "is_cstr name" and k: "registered c name = None"
  shows "\<exists>c' m k. handle_add_mbox i name c = Inr c' \<and> find_process i = Some k \<and> reg_ok c' (T @ [m]) (L(k := L k @ [m])) D \<and>
           registered c' = (registered c)(name \<mapsto> i) \<and> requester c' = requester c"
proof -
  obtain k where K: "find_process i = Some k" "k < 255" "k \<notin> D" "ip_state (processes c ! k) = PROC_CONNECTED"
      "list_mboxes_tree (processes c ! k) = mk_tree (L k)"
    using requesterE [OF r i] by metis
  note R = reg_okD [OF r]
  let ?h = "mbox_infos c" and ?mi = "\<lparr>mi_mbox_id = i, mi_mbox_name = name\<rparr>"
  define m where "m = fresh ?h"
  define h' where "h' = ?h\<lparr>cells := (cells ?h)(fresh ?h \<mapsto> ?mi), fresh := Suc (fresh ?h)\<rparr>"
  note old = info_old(1,2,3) [OF R(5,4), where v = ?mi and f = "Suc (fresh ?h)", folded h'_def] info_old(4) [OF R(5,4), folded m_def]
  have new: "info_name h' m = name" "info_id h' m = i" "cells h' m \<noteq> None"
    by (simp_all add: info_name_def info_id_def h'_def m_def)
  have ok': "infos_ok h' (T @ [m])" using R(4) old new n by (auto simp: infos_ok_def)
  have fresh_name: "name \<notin> info_name h' ` set T"
    using k registered_iff [OF r] old(1) by (metis (no_types, lifting) imageE option.distinct(1))
  have Lk: "set (L k) \<subseteq> set T" using R(11) [OF K(2)] by auto
  have oT: "infos_ok h' T" "infos_ok h' (m # T)" "infos_ok h' (m # L k)" using ok' Lk by (auto simp: infos_ok_def)
  have "find (\<lambda>x. info_name h' x = name) T = None" using fresh_name by (auto simp: find_None_iff image_iff)
  then have tf: "tfind name (mbox_tree c) h' = Inr None" using tfind_mk [OF oT(1) n] R(1) by simp
  have t1: "tsearch m (mbox_tree c) h' = Inr (mk_tree (T @ [m]))"
    using tsearch_mk [OF oT(2)] fresh_name new(1) R(1) by simp
  have t2: "tsearch m (mk_tree (L k)) h' = Inr (mk_tree (L k @ [m]))"
    using tsearch_mk [OF oT(3)] fresh_name new(1) Lk by auto
  define c' where "c' = c\<lparr>mbox_infos := h', mbox_tree := mk_tree (T @ [m]),
      processes := (processes c)[k := (processes c ! k)\<lparr>list_mboxes_tree := mk_tree (L k @ [m])\<rparr>]\<rparr>"
  have "hmalloc ?mi ?h = (Some m, h')" using hmalloc_info [OF R(6)] by (simp add: h'_def m_def)
  then have a: "handle_add_mbox i name c = Inr c'"
    using K R(7) tf t1 t2 by (simp add: handle_add_mbox_def proc_at_def proc_upd_def Let_def c'_def)
  have "inj_on (info_name h') (set T)" using R(3) inj_on_cong [of "set T" "info_name h'" "info_name ?h"] old(1) by simp
  moreover have "m \<notin> set T" using old(4) by blast
  ultimately have inj': "inj_on (info_name h') (set (T @ [m]))" using fresh_name new(1) by simp
  have "list_mboxes_tree (processes c' ! x) = (if x \<in> D then BFreed else mk_tree ((L(k := L k @ [m])) x))" if "x < 255" for x
    using R(7,9) that K(2,3,5) by (auto simp: c'_def nth_list_update)
  moreover have "set ((L(k := L k @ [m])) x) = {y \<in> set (T @ [m]). find_process (info_id h' y) = Some x}" if "x < 255" for x
    using R(11) [OF that] old(2) new(2) K(1) by auto
  moreover have "distinct ((L(k := L k @ [m])) x)" if "x < 255" for x
    using R(10) [OF that] Lk old(4) by auto
  moreover have "heap_ok h'" "malloc_results h' = []" using R(5,6) by (simp_all add: heap_ok_def h'_def)
  moreover have "distinct (T @ [m])" using R(2) old(4) by auto
  moreover have "\<exists>x < 255. find_process (info_id h' y) = Some x" if "y \<in> set (T @ [m])" for y
    using R(8) that old(2) new(2) K(1,2) by (cases "y = m") auto
  ultimately have r': "reg_ok c' (T @ [m]) (L(k := L k @ [m])) D"
    using R(7,12) K(3) ok' inj' unfolding reg_ok_def by (simp add: c'_def)
  have "registered c' = (registered c)(name \<mapsto> i)"
  proof (rule registered_eqI [OF r'])
    fix x j
    have i': "mbox_infos c' = h'" by (simp add: c'_def)
    show "((registered c)(name \<mapsto> i)) x = Some j \<longleftrightarrow>
        (\<exists>y \<in> set (T @ [m]). info_name (mbox_infos c') y = x \<and> info_id (mbox_infos c') y = j)"
      unfolding i' using registered_iff [OF r, of x j] old(1,2) new(1,2) fresh_name by (cases "x = name") (auto simp: image_iff)
  qed
  moreover have "requester c' = requester c"
    by (rule requester_cong) (use K(2,5) R(7) in \<open>auto simp: c'_def nth_list_update\<close>)
  ultimately show ?thesis using a r' K(1) by blast
qed

section \<open>Removing mailboxes\<close>

lemma info_gone:
  assumes "m \<notin> A"
  shows "info_name (h\<lparr>cells := \<lambda>x. if x \<in> A then None else cells h x\<rparr>) m = info_name h m"
    "info_id (h\<lparr>cells := \<lambda>x. if x \<in> A then None else cells h x\<rparr>) m = info_id h m"
    "cells (h\<lparr>cells := \<lambda>x. if x \<in> A then None else cells h x\<rparr>) m = cells h m"
  using assms by (simp_all add: info_name_def info_id_def)

text \<open>
  The state after the records \<open>A\<close> have been taken out of the trees and released: the registry has
  lost their names.
\<close>

lemma reg_ok_removed:
  assumes r: "reg_ok c T L D"
    and c': "mbox_infos c' = (mbox_infos c)\<lparr>cells := \<lambda>x. if x \<in> A then None else cells (mbox_infos c) x\<rparr>"
      "mbox_tree c' = mk_tree (filter (\<lambda>m. m \<notin> A) T)" "length (processes c') = 255"
    and L': "\<And>i. i < 255 \<Longrightarrow> list_mboxes_tree (processes c' ! i) = (if i \<in> D' then BFreed else mk_tree (L' i))"
      "\<And>i. i < 255 \<Longrightarrow> L' i = filter (\<lambda>m. m \<notin> A) (L i)" "\<And>i. i < 255 \<Longrightarrow> i \<in> D' \<Longrightarrow> set (L i) \<subseteq> A"
  shows "reg_ok c' (filter (\<lambda>m. m \<notin> A) T) L' D'"
    "registered c' n = Some j \<longleftrightarrow>
       (\<exists>m \<in> set T - A. info_name (mbox_infos c) m = n \<and> info_id (mbox_infos c) m = j)"
proof -
  note R = reg_okD [OF r]
  let ?h = "mbox_infos c" and ?T = "filter (\<lambda>m. m \<notin> A) T"
  note g = info_gone [of _ A ?h, folded c'(1)]
  have sT: "set ?T = set T - A" by auto
  have inj': "inj_on (info_name (mbox_infos c')) (set T - A)"
    using inj_on_subset [OF R(3)] inj_on_cong [of "set T - A" "info_name (mbox_infos c')" "info_name ?h"] g(1) by simp
  have "infos_ok (mbox_infos c') ?T" using R(4) g by (simp add: infos_ok_def)
  moreover have "heap_ok (mbox_infos c')" "malloc_results (mbox_infos c') = []"
    using R(5,6) by (simp_all add: c'(1) heap_ok_def)
  moreover have "set (L' i) = {m \<in> set T - A. find_process (info_id (mbox_infos c') m) = Some i}" if "i < 255" for i
    using L'(2) [OF that] R(11) [OF that] g(2) by auto
  moreover have "distinct (L' i)" if "i < 255" for i using L'(2) [OF that] R(10) [OF that] by simp
  moreover have "L' i = []" if "i < 255" "i \<in> D'" for i using L'(2,3) that by (auto simp: filter_empty_conv)
  moreover have "\<exists>i < 255. find_process (info_id (mbox_infos c') m) = Some i" if "m \<in> set T - A" for m
    using R(8) that g(2) by auto
  ultimately show r': "reg_ok c' ?T L' D'"
    unfolding reg_ok_def sT using c'(2,3) L'(1) R(2) inj' by simp
  show "registered c' n = Some j \<longleftrightarrow>
       (\<exists>m \<in> set T - A. info_name (mbox_infos c) m = n \<and> info_id (mbox_infos c) m = j)"
    using registered_iff [OF r'] g(1,2) unfolding sT by auto
qed

lemma find_remove:
  assumes inj: "inj_on (info_name h) (set T)" and m: "m \<in> set T" and S: "distinct S" "set S \<subseteq> set T"
  shows "(case find (\<lambda>x. info_name h x = info_name h m) S of None \<Rightarrow> S | Some x \<Rightarrow> remove1 x S) =
           filter (\<lambda>x. x \<notin> {m}) S"
proof (cases "m \<in> set S")
  case True
  have i: "inj_on (info_name h) (set S)" using inj S(2) by (rule inj_on_subset)
  have "remove1 m S = filter (\<lambda>x. x \<noteq> m) S"
    using distinct_remove1_removeAll [OF S(1)] by (auto simp: removeAll_filter_not_eq intro: filter_cong)
  then show ?thesis using find_the [OF i True] by simp
next
  case False
  have "info_name h x \<noteq> info_name h m" if "x \<in> set S" for x
    using inj m S(2) that False by (auto simp: inj_on_def)
  then have "find (\<lambda>x. info_name h x = info_name h m) S = None" by (simp add: find_None_iff)
  moreover have "filter (\<lambda>x. x \<notin> {m}) S = S" using False by (intro filter_True) auto
  ultimately show ?thesis by simp
qed

lemma hfree_info:
  assumes "cells h m \<noteq> None"
  shows "hfree (Some m) h = Inr (h\<lparr>cells := \<lambda>x. if x \<in> {m} then None else cells h x\<rparr>)"
proof -
  have "(cells h)(m := None) = (\<lambda>x. if x \<in> {m} then None else cells h x)" by auto
  then show ?thesis using assms by (auto simp: hfree_def)
qed

lemma remove_own_ok:
  assumes r: "reg_ok c T L D" and i: "requester c i \<noteq> None" and n: "is_cstr name"
    and j: "registered c name = Some j" "find_process j = find_process i"
  shows "\<exists>c' T' L'. handle_remove_mbox i name c = Inr c' \<and> reg_ok c' T' L' D \<and>
           registered c' = (registered c)(name := None) \<and> requester c' = requester c"
proof -
  obtain k where K: "find_process i = Some k" "k < 255" "k \<notin> D" "ip_state (processes c ! k) = PROC_CONNECTED"
      "list_mboxes_tree (processes c ! k) = mk_tree (L k)"
    using requesterE [OF r i] by metis
  note R = reg_okD [OF r]
  let ?h = "mbox_infos c"
  obtain m where m: "m \<in> set T" "info_name ?h m = name" "info_id ?h m = j" using registered_iff [OF r] j(1) by blast
  have lm: "cells ?h m \<noteq> None" using R(4) m(1) by (simp add: infos_ok_def)
  have Lk: "set (L k) \<subseteq> set T" using R(11) [OF K(2)] by auto
  have tf: "tfind name (mbox_tree c) ?h = Inr (Some m)"
    using tfind_mk [OF R(4) n] find_the [OF R(3) m(1)] m(2) R(1) by simp
  have t1: "tdelete name (mbox_tree c) ?h = Inr (mk_tree (filter (\<lambda>x. x \<notin> {m}) T))"
    using tdelete_mk [OF R(4) n] find_remove [OF R(3) m(1) R(2) subset_refl] m(2) R(1) by simp
  have t2: "tdelete name (mk_tree (L k)) ?h = Inr (mk_tree (filter (\<lambda>x. x \<notin> {m}) (L k)))"
    using tdelete_mk [OF infos_ok_subset [OF R(4) Lk] n] find_remove [OF R(3) m(1) R(10) [OF K(2)] Lk] m(2) by simp
  define c' where "c' = c\<lparr>mbox_infos := ?h\<lparr>cells := \<lambda>x. if x \<in> {m} then None else cells ?h x\<rparr>,
      mbox_tree := mk_tree (filter (\<lambda>x. x \<notin> {m}) T),
      processes := (processes c)[k := (processes c ! k)\<lparr>list_mboxes_tree := mk_tree (filter (\<lambda>x. x \<notin> {m}) (L k))\<rparr>]\<rparr>"
  have a: "handle_remove_mbox i name c = Inr c'"
    using K R(7) tf t1 t2 hfree_info [OF lm] by (simp add: handle_remove_mbox_def proc_at_def proc_upd_def c'_def)
  define L' where "L' = (\<lambda>x. filter (\<lambda>y. y \<notin> {m}) (L x))"
  have mk: "m \<notin> set (L x)" if "x < 255" "x \<noteq> k" for x
    using R(11) [OF that(1)] m(1,3) j(2) K(1) that(2) by auto
  have "list_mboxes_tree (processes c' ! x) = (if x \<in> D then BFreed else mk_tree (L' x))" if "x < 255" for x
  proof (cases "x = k")
    case True
    then show ?thesis using K R(7) by (simp add: c'_def L'_def)
  next
    case False
    then have "L' x = L x" using mk [OF that False] unfolding L'_def by (intro filter_True) auto
    then show ?thesis using R(9) [OF that] False by (simp add: c'_def)
  qed
  moreover have "set (L x) \<subseteq> {m}" if "x < 255" "x \<in> D" for x using R(12) [OF that] by simp
  ultimately have r': "reg_ok c' (filter (\<lambda>x. x \<notin> {m}) T) L' D"
      "\<And>x y. registered c' x = Some y \<longleftrightarrow> (\<exists>z \<in> set T - {m}. info_name ?h z = x \<and> info_id ?h z = y)"
    using reg_ok_removed [OF r, of c' "{m}" D L'] R(7) by (simp_all add: c'_def L'_def)
  have "registered c' = (registered c)(name := None)"
  proof
    fix x
    have "registered c' x = Some y \<longleftrightarrow> ((registered c)(name := None)) x = Some y" for y
      using r'(2) registered_iff [OF r] m R(3) by (auto simp: inj_on_def)
    then show "registered c' x = ((registered c)(name := None)) x" by (metis option.exhaust)
  qed
  moreover have "requester c' = requester c"
    by (rule requester_cong) (use K(2,5) R(7) in \<open>auto simp: c'_def nth_list_update\<close>)
  ultimately show ?thesis using a r'(1) by blast
qed

lemma remove_unknown_ok:
  assumes r: "reg_ok c T L D" and i: "requester c i \<noteq> None" and n: "is_cstr name" and j: "registered c name = None"
  shows "handle_remove_mbox i name c = Inr c"
proof -
  obtain k where K: "find_process i = Some k" "k < 255" "ip_state (processes c ! k) = PROC_CONNECTED"
    using requesterE [OF r i] by metis
  note R = reg_okD [OF r]
  have "find (\<lambda>m. info_name (mbox_infos c) m = name) T = None"
    using j registered_find [OF r n] by simp
  then show ?thesis
    using K R(1,7) tfind_mk [OF R(4) n] by (simp add: handle_remove_mbox_def proc_at_def)
qed

section \<open>Forgetting all names of a process\<close>

lemma delete_counterparts_ok:
  assumes "infos_ok (mbox_infos c) S" and "distinct S" and "inj_on (info_name (mbox_infos c)) (set S)"
    and "distinct ms" and "set ms \<subseteq> set S" and "mbox_tree c = mk_tree S"
  shows "delete_counterparts ms c = Inr (c\<lparr>mbox_tree := mk_tree (filter (\<lambda>m. m \<notin> set ms) S)\<rparr>)"
  using assms
proof (induction ms arbitrary: c S)
  case (Cons m ms)
  let ?h = "mbox_infos c" and ?S = "filter (\<lambda>x. x \<notin> {m}) S"
  let ?c = "c\<lparr>mbox_tree := mk_tree ?S\<rparr>"
  have m: "cells ?h m \<noteq> None" "is_cstr (info_name ?h m)" "m \<in> set S" using Cons.prems(1,5) by (auto simp: infos_ok_def)
  obtain mi where mi: "hread (Some m) ?h = Inr mi" "mi_mbox_name mi = info_name ?h m" using hread_info [OF m(1)] by blast
  have "tdelete (info_name ?h m) (mbox_tree c) ?h = Inr (mk_tree ?S)"
    using tdelete_mk [OF Cons.prems(1) m(2)] find_remove [OF Cons.prems(3) m(3) Cons.prems(2) subset_refl] Cons.prems(6) by simp
  then have step: "delete_counterparts (m # ms) c = delete_counterparts ms ?c" using mi by simp
  have "infos_ok (mbox_infos ?c) ?S" "distinct ?S" "inj_on (info_name (mbox_infos ?c)) (set ?S)" "distinct ms"
      "set ms \<subseteq> set ?S" "mbox_tree ?c = mk_tree ?S"
    using Cons.prems(1-5) by (auto simp: infos_ok_def inj_on_def)
  from Cons.IH [OF this] have "delete_counterparts ms ?c = Inr (c\<lparr>mbox_tree := mk_tree (filter (\<lambda>x. x \<notin> set ms) ?S)\<rparr>)" by simp
  moreover have "filter (\<lambda>x. x \<notin> set ms) ?S = filter (\<lambda>x. x \<notin> set (m # ms)) S" by (auto intro: filter_cong)
  ultimately show ?case using step by simp
qed simp

lemma free_infos_ok:
  assumes "distinct ms" and "\<forall>m \<in> set ms. cells h m \<noteq> None"
  shows "free_infos ms h = Inr (h\<lparr>cells := \<lambda>x. if x \<in> set ms then None else cells h x\<rparr>)"
  using assms
proof (induction ms arbitrary: h)
  case (Cons m ms)
  let ?h = "h\<lparr>cells := \<lambda>x. if x \<in> {m} then None else cells h x\<rparr>"
  have "\<forall>x \<in> set ms. cells ?h x \<noteq> None" "distinct ms" using Cons.prems by auto
  from Cons.IH [OF this(2,1)]
  have "free_infos (m # ms) h = Inr (?h\<lparr>cells := \<lambda>x. if x \<in> set ms then None else cells ?h x\<rparr>)"
    using hfree_info [of h m] Cons.prems(2) by simp
  moreover have "(\<lambda>x. if x \<in> set ms then None else cells ?h x) = (\<lambda>x. if x \<in> set (m # ms) then None else cells h x)" by auto
  ultimately show ?case by simp
qed simp

lemma reg_ok_cong:
  assumes "reg_ok c T L D" and "mbox_tree c' = mbox_tree c" and "mbox_infos c' = mbox_infos c"
    and "length (processes c') = length (processes c)"
    and "\<And>i. i < length (processes c) \<Longrightarrow> list_mboxes_tree (processes c' ! i) = list_mboxes_tree (processes c ! i)"
  shows "reg_ok c' T L D"
  using assms(1) assms(5) unfolding reg_ok_def assms(2-4) by simp

lemma registered_cong:
  "mbox_tree c' = mbox_tree c \<Longrightarrow> mbox_infos c' = mbox_infos c \<Longrightarrow> registered c' = registered c"
  by (rule ext) (simp only: registered_def)

text \<open>The registry after process \<open>i\<close> is gone.\<close>

definition without_process :: "nat \<Rightarrow> registry \<Rightarrow> registry" where
  "without_process i R = (\<lambda>n. case R n of None \<Rightarrow> None | Some j \<Rightarrow> if find_process j = Some i then None else Some j)"

lemma release_slot_ok:
  assumes l: "lists_ok d ps fs qs us" and i: "i \<notin> set (fs @ us)" "2 \<le> i" "i < 255" "i \<notin> D" and r: "reg_ok d T L D"
  shows "\<exists>c' T' L'. release_slot i d = Inr c' \<and> reg_ok c' T' L' (if L i = [] then D else insert i D) \<and>
           registered c' = without_process i (registered d)"
proof -
  note R = reg_okD [OF r]
  let ?h = "mbox_infos d" and ?pr = "processes d ! i"
  have tree: "list_mboxes_tree ?pr = mk_tree (L i)" using R(9) [OF i(3)] i(4) by simp
  have Li: "set (L i) \<subseteq> set T" "distinct (L i)" "set (L i) = {m \<in> set T. find_process (info_id ?h m) = Some i}"
    using R(10,11) [OF i(3)] by auto
  let ?T = "filter (\<lambda>m. m \<notin> set (L i)) T"
  have dc: "delete_counterparts (L i) d = Inr (d\<lparr>mbox_tree := mk_tree ?T\<rparr>)"
    by (rule delete_counterparts_ok [OF R(4,2,3) Li(2,1) R(1)])
  let ?h' = "?h\<lparr>cells := \<lambda>x. if x \<in> set (L i) then None else cells ?h x\<rparr>"
  have fi: "free_infos (L i) ?h = Inr ?h'"
    using free_infos_ok [OF Li(2)] infos_ok_subset [OF R(4) Li(1)] by (simp add: infos_ok_def)
  define d2 where "d2 = d\<lparr>mbox_tree := mk_tree ?T, mbox_infos := ?h',
      processes := (processes d)[i := ?pr\<lparr>list_mboxes_tree := destroyed (list_mboxes_tree ?pr), ip_sockaddr := []\<rparr>]\<rparr>"
  have "lists_ok d2 ps fs qs us" using l lists_ok_cong [of d2 d] by (simp add: d2_def)
  from free_enq_ok [OF this i(1-3)] obtain q qu h where f:
      "free_q (\<lambda>rc q h. q_enqueue rc (Some i) q h) d2 = Inr (with_lists q qu h d2)" by blast
  define c' where "c' = (with_lists q qu h d2)\<lparr>freelist_count := freelist_count d2 + 1\<rparr>"
  have e: "release_slot i d = Inr c'"
    using tree dc fi f i(3) R(7) by (simp add: release_slot_def proc_at_def proc_upd_def d2_def c'_def)
  let ?D = "if L i = [] then D else insert i D"
  define L' where "L' = (\<lambda>x. filter (\<lambda>y. y \<notin> set (L i)) (L x))"
  have c': "mbox_infos c' = ?h'" "mbox_tree c' = mk_tree ?T" "length (processes c') = 255"
    using R(7) by (simp_all add: c'_def d2_def)
  have ds: "destroyed (mk_tree xs) = (if xs = [] then BNull else BFreed)" for xs by (simp add: destroyed_def mk_tree_def)
  have L1: "list_mboxes_tree (processes c' ! x) = (if x \<in> ?D then BFreed else mk_tree (L' x))" if "x < 255" for x
  proof (cases "x = i")
    case True
    then show ?thesis using tree i(3,4) R(7) ds by (simp add: c'_def d2_def L'_def mk_tree_def)
  next
    case False
    have "set (L x) \<inter> set (L i) = {}" using R(11) [OF that] Li(3) False by auto
    then have "L' x = L x" unfolding L'_def by (intro filter_True) auto
    then show ?thesis using R(9) [OF that] False by (auto simp: c'_def d2_def)
  qed
  have L3: "set (L x) \<subseteq> set (L i)" if "x < 255" "x \<in> ?D" for x using R(12) [OF that(1)] that(2) by (auto split: if_splits)
  have L2: "L' x = filter (\<lambda>y. y \<notin> set (L i)) (L x)" for x by (simp add: L'_def)
  note rr = reg_ok_removed [OF r c' L1 L2 L3]
  have "registered c' = without_process i (registered d)"
  proof
    fix n
    have "registered c' n = Some j \<longleftrightarrow> without_process i (registered d) n = Some j" for j
    proof -
      have "registered c' n = Some j \<longleftrightarrow> registered d n = Some j \<and> find_process j \<noteq> Some i"
        using rr(2) [of n j] registered_iff [OF r, of n j] Li(3) by auto
      then show ?thesis by (auto simp: without_process_def split: option.splits)
    qed
    then show "registered c' n = without_process i (registered d) n" by (metis option.exhaust)
  qed
  then show ?thesis using e rr(1) by blast
qed

lemma disconnect_ok:
  assumes s: "slots_ok c fs us" and r: "reg_ok c T L D" and i: "i \<in> set us" "i \<notin> D" and sys: "sys (co_proc c) = []"
  shows "\<exists>c' T' L'. disconnect_from_process i c = Inr (True, c') \<and> slots_ok c' (fs @ [i]) (remove1 i us) \<and>
           reg_ok c' T' L' (if L i = [] then D else insert i D) \<and> registered c' = without_process i (registered c)"
proof -
  obtain ps qs where l: "lists_ok c ps fs qs us" using s by (auto simp: slots_ok_def)
  have len: "length (processes c) = 255" by (rule reg_okD(7) [OF r])
  have b: "2 \<le> i" "i < 255" "distinct us" "i \<notin> set fs" using l i by (auto simp: lists_ok_def)
  obtain d qs' where d: "lists_ok d ps fs qs' (remove1 i us)" "processes d = (processes c)[i := closed_slot (processes c ! i)]"
      "mbox_tree d = mbox_tree c" "mbox_infos d = mbox_infos c"
      "disconnect_from_process i c = bindE (release_slot i d) (\<lambda>c. Inr (True, c))"
    using disconnect_begins [OF l i(1) len] sys by metis
  have rd: "reg_ok d T L D"
    by (rule reg_ok_cong [OF r d(3,4)]) (use b(2) len in \<open>auto simp: d(2) closed_slot_def nth_list_update\<close>)
  have n: "i \<notin> set (fs @ remove1 i us)" using b(3,4) by simp
  obtain c' T' L' where c': "release_slot i d = Inr c'" "reg_ok c' T' L' (if L i = [] then D else insert i D)"
      "registered c' = without_process i (registered d)"
    using release_slot_ok [OF d(1) n b(1,2) i(2) rd] by blast
  have e: "disconnect_from_process i c = Inr (True, c')" using d(5) c'(1) by simp
  have "slots_ok c' (fs @ [i]) (remove1 i us)" using disconnect_inv(1) [OF s l i(1) e] by simp
  moreover have "registered c' = without_process i (registered c)" using c'(3) registered_cong [OF d(3,4)] by simp
  ultimately show ?thesis using e c'(2) by blast
qed

section \<open>The coordinator is a name service\<close>

definition coord_registry_ok :: "itccoord \<Rightarrow> bool" where
  "coord_registry_ok c \<longleftrightarrow> (\<exists>T L D. reg_ok c T L D)"

interpretation coord: name_service handle_add_mbox handle_remove_mbox registered requester coord_registry_ok
proof (unfold_locales, goal_cases)
  case (1 s i n)
  then show ?case using add_new_ok by (fastforce simp: coord_registry_ok_def)
next
  case (2 s i n)
  then obtain T L D s' where s': "handle_add_mbox i n s = Inr s'" "reg_ok s' T L D" "registered s' = registered s"
      "processes s' = processes s"
    using add_known_ok by (metis coord_registry_ok_def)
  have "requester s' = requester s" by (rule requester_cong) (simp_all add: s'(4))
  then show ?case using s' by (auto simp: coord_registry_ok_def)
next
  case (3 s i n j)
  then obtain T L D where r: "reg_ok s T L D" by (auto simp: coord_registry_ok_def)
  have "find_process j = find_process i"
    using requesterE [OF r 3(2)] requesterE [OF r, of j] 3(2,5) by metis
  then show ?case using remove_own_ok [OF r 3(2-4)] by (auto simp: coord_registry_ok_def)
next
  case (4 s i n)
  then show ?case using remove_unknown_ok unfolding coord_registry_ok_def by metis
qed

end
