(* ===== verification/Itc_Local_Table.thy ===== *)
theory Itc_Local_Table
  imports Itc_Local
begin

text \<open>
  The local transport seen as a table: one list of messages for every mailbox slot in use. Sending
  appends to one list, receiving takes the first element of one list, and no operation on one
  mailbox touches another.
\<close>

unbundle bit_operations_syntax

section \<open>The transport as a table of message lists\<close>

text \<open>
  \<open>lrep s k P Q\<close>: slot \<open>i\<close> of the \<open>2 ^ k\<close> slots is in use exactly when \<open>Q i\<close> is a list, and its
  queue holds the messages \<open>Q i\<close> in the items at \<open>P i\<close>; no item and no message is in two queues,
  and every queued message is well formed and carries the mark. \<open>local_queues\<close> hides the items.
\<close>

definition slot_rep :: "lheap \<Rightarrow> local_mbox_data \<Rightarrow> nat list \<Rightarrow> nat list option \<Rightarrow> bool" where
  "slot_rep h d ps xo \<longleftrightarrow>
     (case lmd_rxq d of
        BNull \<Rightarrow> xo = None \<and> ps = []
      | BLive q \<Rightarrow> (\<exists>xs. xo = Some xs \<and> rxrep h q ps xs)
      | BFreed \<Rightarrow> False)"

definition queued_ok :: "proc \<Rightarrow> nat \<Rightarrow> bool" where
  "queued_ok s m \<longleftrightarrow> (\<exists>bs. cells (msgs s) m = Some bs \<and> wf_msg bs \<and> inrx bs)"

definition elems :: "nat list option \<Rightarrow> nat list" where
  "elems xo = (case xo of None \<Rightarrow> [] | Some xs \<Rightarrow> xs)"

lemma elems_simps [simp]: "elems None = []" "elems (Some xs) = xs"
  by (simp_all add: elems_def)

definition slots_of :: "proc \<Rightarrow> local_mbox_data list" where
  "slots_of s = (case localmbx_data (local_inst s) of BLive ds \<Rightarrow> ds | _ \<Rightarrow> [])"

definition lrep :: "proc \<Rightarrow> nat \<Rightarrow> (nat \<Rightarrow> nat list) \<Rightarrow> (nat \<Rightarrow> nat list option) \<Rightarrow> bool" where
  "lrep s k P Q \<longleftrightarrow>
     local_cfg s k \<and> heap_ok (litems s) \<and>
     (\<forall>i < 2 ^ k. slot_rep (litems s) (slots_of s ! i) (P i) (Q i) \<and> distinct (elems (Q i)) \<and>
        (\<forall>m \<in> set (elems (Q i)). queued_ok s m)) \<and>
     (\<forall>i < 2 ^ k. \<forall>j < 2 ^ k. i \<noteq> j \<longrightarrow>
        set (P i) \<inter> set (P j) = {} \<and> set (elems (Q i)) \<inter> set (elems (Q j)) = {})"

definition local_queues :: "proc \<Rightarrow> nat \<Rightarrow> (nat \<Rightarrow> nat list option) \<Rightarrow> bool" where
  "local_queues s k Q \<longleftrightarrow> (\<exists>P. lrep s k P Q)"

lemma local_cfg_slots:
  "local_cfg s k \<Longrightarrow> localmbx_data (local_inst s) = BLive (slots_of s) \<and> length (slots_of s) = 2 ^ k"
  by (auto simp: local_cfg_def slots_of_def)

lemma lmd_at_ok [simp]:
  "local_cfg s k \<Longrightarrow> i < 2 ^ k \<Longrightarrow> lmd_at (Some i) s = Inr (slots_of s ! i)"
  using local_cfg_slots [of s k] by (simp add: lmd_at_def)

definition put_slot :: "nat \<Rightarrow> local_mbox_data \<Rightarrow> proc \<Rightarrow> local_instance" where
  "put_slot i d s = (local_inst s)\<lparr>localmbx_data := BLive ((slots_of s)[i := d])\<rparr>"

lemma lmd_upd_ok [simp]:
  "local_cfg s k \<Longrightarrow> i < 2 ^ k \<Longrightarrow> lmd_upd (Some i) f s = Inr (s\<lparr>local_inst := put_slot i (f (slots_of s ! i)) s\<rparr>)"
  using local_cfg_slots [of s k] by (simp add: lmd_upd_def put_slot_def)

lemma put_slot_id: "local_cfg s k \<Longrightarrow> d = slots_of s ! i \<Longrightarrow> put_slot i d s = local_inst s"
  using local_cfg_slots [of s k] by (cases "local_inst s") (simp add: put_slot_def)

lemma lmd_rxq_same: "lmd_rxq d = r \<Longrightarrow> d\<lparr>lmd_rxq := r\<rparr> = d"
  by (cases d) simp

lemma local_cfg_put_slot:
  "local_cfg s k \<Longrightarrow> local_inst s' = put_slot i d s \<Longrightarrow> local_cfg s' k"
  using local_cfg_slots [of s k] by (auto simp: local_cfg_def put_slot_def)

lemma slots_of_put_slot: "local_inst s' = put_slot i d s \<Longrightarrow> slots_of s' = (slots_of s)[i := d]"
  by (simp add: slots_of_def put_slot_def)

lemma is_local_put_slot: "local_inst s' = put_slot i d s \<Longrightarrow> is_local x s' = is_local x s"
  by (simp add: is_local_def put_slot_def)

lemma slot_rep_frame:
  assumes "slot_rep h d ps xo" and "same_outside A h h'" and "A \<inter> set ps = {}" and "heap_ok h'"
  shows "slot_rep h' d ps xo"
  using assms rxrep_frame [OF _ assms(2-4)]
  by (auto simp: slot_rep_def split: block.splits)

text \<open>One operation on one slot: what has to be shown for the others to be untouched.\<close>

lemma lrep_step:
  assumes r: "lrep s k P Q" and i: "i < 2 ^ k"
    and li: "local_inst s' = put_slot i d' s" and h: "litems s' = h'" "heap_ok h'"
    and out: "same_outside A (litems s) h'" "\<And>j. j < 2 ^ k \<Longrightarrow> j \<noteq> i \<Longrightarrow> A \<inter> set (P j) = {}"
    and slot: "slot_rep h' d' ps' xo'" "set ps' \<subseteq> A" "distinct (elems xo')"
    and own: "\<forall>m \<in> set (elems xo'). queued_ok s' m"
    and others: "\<And>j m. j < 2 ^ k \<Longrightarrow> j \<noteq> i \<Longrightarrow> m \<in> set (elems (Q j)) \<Longrightarrow> queued_ok s' m"
    and new: "\<And>j. j < 2 ^ k \<Longrightarrow> j \<noteq> i \<Longrightarrow> set (elems xo') \<inter> set (elems (Q j)) = {}"
  shows "lrep s' k (P(i := ps')) (Q(i := xo'))"
proof -
  have cfg: "local_cfg s k" using r by (simp add: lrep_def)
  have sl: "slots_of s' ! j = (if j = i then d' else slots_of s ! j)" if "j < 2 ^ k" for j
    using slots_of_put_slot [OF li] local_cfg_slots [OF cfg] that i by simp
  have fr: "slot_rep h' (slots_of s ! j) (P j) (Q j)" if "j < 2 ^ k" "j \<noteq> i" for j
    using slot_rep_frame [OF _ out(1) out(2) [OF that] h(2)] r that by (auto simp: lrep_def)
  have "local_cfg s' k" by (rule local_cfg_put_slot [OF cfg li])
  moreover have "set ps' \<inter> set (P j) = {}" if "j < 2 ^ k" "j \<noteq> i" for j
    using out(2) [OF that] slot(2) by auto
  ultimately show ?thesis
    using r h slot own sl fr others new unfolding lrep_def
    by (auto simp: Int_commute)
qed

subsection \<open>Sending and receiving\<close>

lemma lrepD:
  assumes "lrep s k P Q"
  shows "local_cfg s k" "heap_ok (litems s)"
    "\<And>i. i < 2 ^ k \<Longrightarrow> slot_rep (litems s) (slots_of s ! i) (P i) (Q i)"
    "\<And>i. i < 2 ^ k \<Longrightarrow> distinct (elems (Q i))"
    "\<And>i m. i < 2 ^ k \<Longrightarrow> m \<in> set (elems (Q i)) \<Longrightarrow> queued_ok s m"
    "\<And>i j. i < 2 ^ k \<Longrightarrow> j < 2 ^ k \<Longrightarrow> i \<noteq> j \<Longrightarrow> set (P i) \<inter> set (P j) = {}"
    "\<And>i j. i < 2 ^ k \<Longrightarrow> j < 2 ^ k \<Longrightarrow> i \<noteq> j \<Longrightarrow> set (elems (Q i)) \<inter> set (elems (Q j)) = {}"
  using assms unfolding lrep_def by blast+

lemma slot_rep_used: "slot_rep h d ps (Some xs) \<Longrightarrow> \<exists>q. lmd_rxq d = BLive q \<and> rxrep h q ps xs"
  by (cases "lmd_rxq d") (simp_all add: slot_rep_def)

lemma slot_rep_unused: "slot_rep h d ps None \<Longrightarrow> lmd_rxq d = BNull \<and> ps = []"
  by (cases "lmd_rxq d") (simp_all add: slot_rep_def)

lemma lrep_slot_used:
  assumes "lrep s k P Q" and "i < 2 ^ k" and "Q i = Some xs"
  obtains q where "lmd_rxq (slots_of s ! i) = BLive q" "rxrep (litems s) q (P i) xs"
    "distinct xs" "\<forall>m \<in> set xs. queued_ok s m"
proof -
  obtain q where "lmd_rxq (slots_of s ! i) = BLive q" "rxrep (litems s) q (P i) xs"
    using slot_rep_used lrepD(3) [OF assms(1,2)] assms(3) by metis
  then show thesis using that lrepD(4,5) [OF assms(1,2)] assms(3) by simp
qed

lemma lrep_slot_free:
  assumes "lrep s k P Q" and "i < 2 ^ k" and "Q i = None"
  shows "lmd_rxq (slots_of s ! i) = BNull"
  using slot_rep_unused lrepD(3) [OF assms(1,2)] assms(3) by metis

lemma lrep_below_fresh:
  assumes "lrep s k P Q" and "i < 2 ^ k" and "p \<in> set (P i)"
  shows "p < fresh (litems s)"
proof (cases "Q i")
  case None
  then show ?thesis using slot_rep_unused lrepD(3) [OF assms(1,2)] assms(3) by fastforce
next
  case (Some xs)
  then obtain q where "rxrep (litems s) q (P i) xs" using lrep_slot_used [OF assms(1,2)] by metis
  then show ?thesis using rxrep_below_fresh assms(3) by blast
qed

lemma queued_ok_msg_set:
  "queued_ok s m \<Longrightarrow> msgs s' = msg_set x bs (msgs s) \<Longrightarrow> m \<noteq> x \<or> (wf_msg bs \<and> inrx bs) \<Longrightarrow> queued_ok s' m"
  by (auto simp: queued_ok_def)

lemma local_send_spec:
  assumes r: "local_queues s k Q" and to: "is_local to s" "local_index to = i" "i < 2 ^ k" "Q i = Some xs"
    and m: "cells (msgs s) m = Some bs" "wf_msg bs" "\<not> inrx bs"
    and mem: "can_alloc (litems s)" and rc: "rcs s t = BLive 0"
  shows "\<exists>s' h' d'. local_send t m to s = Inr s' \<and> local_queues s' k (Q(i \<mapsto> xs @ [m])) \<and>
           s' = s\<lparr>litems := h', msgs := msg_set m (set_inrx bs) (msgs s), local_inst := put_slot i d' s\<rparr> \<and>
           malloc_results h' = tl (malloc_results (litems s))"
proof -
  obtain P where P: "lrep s k P Q" using r by (auto simp: local_queues_def)
  then have cfg: "local_cfg s k" by (simp add: lrep_def)
  obtain q where q: "lmd_rxq (slots_of s ! i) = BLive q" "rxrep (litems s) q (P i) xs" "distinct xs"
      "\<forall>m \<in> set xs. queued_ok s m"
    by (rule lrep_slot_used [OF P to(3,4)])
  obtain q' h' where e: "enqueue_message t q m s =
        Inr (q', s\<lparr>litems := h', msgs := msg_set m (set_inrx bs) (msgs s)\<rparr>)"
      "rxrep h' q' (P i @ [fresh (litems s)]) (xs @ [m])"
      "same_outside (insert (fresh (litems s)) (set (P i))) (litems s) h'"
      "malloc_results h' = tl (malloc_results (litems s))"
    using enqueue_message_spec [OF q(2) mem rc m(1,2)] by auto
  define s1 where "s1 = s\<lparr>litems := h', msgs := msg_set m (set_inrx bs) (msgs s)\<rparr>"
  define d' where "d' = (slots_of s ! i)\<lparr>lmd_rxq := BLive q'\<rparr>"
  define s' where "s' = s1\<lparr>local_inst := put_slot i d' s\<rparr>"
  have same: "local_cfg s1 k" "slots_of s1 = slots_of s" "put_slot i d' s1 = put_slot i d' s"
    using cfg by (simp_all add: s1_def local_cfg_def slots_of_def put_slot_def)
  have 4: "4 \<le> length bs" using m(2) by (rule wf_msg_20)
  have fresh_m: "\<And>j. j < 2 ^ k \<Longrightarrow> m \<notin> set (elems (Q j))"
    using lrepD(5) [OF P] m unfolding queued_ok_def by fastforce
  have send: "local_send t m to s = Inr s'"
    using find_localmbx_data_eq [OF cfg rc, of to] to rc q(1) cfg same e(1)
    by (simp add: local_send_def s'_def s1_def d'_def)
  have "lrep s' k (P(i := P i @ [fresh (litems s)])) (Q(i := Some (xs @ [m])))"
  proof (rule lrep_step [OF P to(3), where d' = d' and A = "insert (fresh (litems s)) (set (P i))"])
    show "heap_ok h'" using e(2) by (simp add: rxrep_def)
    show "slot_rep h' d' (P i @ [fresh (litems s)]) (Some (xs @ [m]))"
      using e(2) by (simp add: slot_rep_def d'_def)
    show "insert (fresh (litems s)) (set (P i)) \<inter> set (P j) = {}" if "j < 2 ^ k" "j \<noteq> i" for j
      using lrepD(6) [OF P to(3) that(1)] that(2) lrep_below_fresh [OF P that(1)] by blast
    show "distinct (elems (Some (xs @ [m])))" using q(3) fresh_m [OF to(3)] to(4) by simp
    show "\<forall>m \<in> set (elems (Some (xs @ [m]))). queued_ok s' m"
      using q(4) m 4 by (auto simp: queued_ok_def s'_def s1_def)
    show "queued_ok s' y" if "j < 2 ^ k" "j \<noteq> i" "y \<in> set (elems (Q j))" for j y
      using lrepD(5) [OF P that(1,3)] m 4 queued_ok_msg_set [of s y s' m "set_inrx bs"]
      by (simp add: s'_def s1_def)
    show "set (elems (Some (xs @ [m]))) \<inter> set (elems (Q j)) = {}" if "j < 2 ^ k" "j \<noteq> i" for j
      using lrepD(7) [OF P to(3) that(1)] that(2) fresh_m [OF that(1)] to(4) by simp
  qed (use e(3) in \<open>simp_all add: s'_def s1_def\<close>)
  then have "local_queues s' k (Q(i \<mapsto> xs @ [m]))" by (auto simp: local_queues_def)
  then show ?thesis using send e(4) unfolding s'_def s1_def by blast
qed

lemma local_receive_spec:
  assumes r: "local_queues s k Q" and mb: "mbox_at b s = Inr mb" "is_local (mb_id mb) s"
    "local_index (mb_id mb) = i" "i < 2 ^ k" "Q i = Some (m # xs)" and rc: "rcs s t = BLive 0"
  shows "\<exists>s' h' d' bs. local_receive t b s = Inr (Some m, s') \<and> local_queues s' k (Q(i \<mapsto> xs)) \<and>
           cells (msgs s) m = Some bs \<and> wf_msg bs \<and> inrx bs \<and>
           s' = s\<lparr>litems := h', msgs := msg_set m (clear_inrx bs) (msgs s), local_inst := put_slot i d' s\<rparr> \<and>
           malloc_results h' = malloc_results (litems s)"
proof -
  obtain P where P: "lrep s k P Q" using r by (auto simp: local_queues_def)
  then have cfg: "local_cfg s k" by (simp add: lrep_def)
  obtain q where q: "lmd_rxq (slots_of s ! i) = BLive q" "rxrep (litems s) q (P i) (m # xs)"
      "distinct (m # xs)" "\<forall>m \<in> set (m # xs). queued_ok s m"
    by (rule lrep_slot_used [OF P mb(4,5)])
  obtain bs where bs: "cells (msgs s) m = Some bs" "wf_msg bs" "inrx bs"
    using q(4) by (auto simp: queued_ok_def)
  obtain q' h' where e: "dequeue_message t q s =
        Inr (Some m, q', s\<lparr>litems := h', msgs := msg_set m (clear_inrx bs) (msgs s)\<rparr>)"
      "rxrep h' q' (tl (P i)) xs" "same_outside (set (P i)) (litems s) h'"
      "malloc_results h' = malloc_results (litems s)"
    using dequeue_message_spec [OF q(2) bs(1,2), of t] by auto
  define s1 where "s1 = s\<lparr>litems := h', msgs := msg_set m (clear_inrx bs) (msgs s)\<rparr>"
  define d' where "d' = (slots_of s ! i)\<lparr>lmd_rxq := BLive q'\<rparr>"
  define s' where "s' = s1\<lparr>local_inst := put_slot i d' s\<rparr>"
  have same: "local_cfg s1 k" "slots_of s1 = slots_of s" "put_slot i d' s1 = put_slot i d' s"
    using cfg by (simp_all add: s1_def local_cfg_def slots_of_def put_slot_def)
  have recv: "local_receive t b s = Inr (Some m, s')"
    using find_localmbx_data_eq [OF cfg rc, of "mb_id mb"] mb rc q(1) cfg same e(1)
    by (simp add: local_receive_def s'_def s1_def d'_def)
  have not_m: "m \<notin> set (elems (Q j))" if "j < 2 ^ k" "j \<noteq> i" for j
    using lrepD(7) [OF P mb(4) that(1)] that(2) mb(5) by auto
  have "lrep s' k (P(i := tl (P i))) (Q(i := Some xs))"
  proof (rule lrep_step [OF P mb(4), where d' = d' and A = "set (P i)"])
    show "heap_ok h'" using e(2) by (simp add: rxrep_def)
    show "slot_rep h' d' (tl (P i)) (Some xs)" using e(2) by (simp add: slot_rep_def d'_def)
    show "set (P i) \<inter> set (P j) = {}" if "j < 2 ^ k" "j \<noteq> i" for j
      using lrepD(6) [OF P mb(4) that(1)] that(2) by simp
    show "set (tl (P i)) \<subseteq> set (P i)" by (cases "P i") auto
    show "distinct (elems (Some xs))" using q(3) by simp
    show "\<forall>y \<in> set (elems (Some xs)). queued_ok s' y"
      using q(3,4) queued_ok_msg_set [of s _ s' m "clear_inrx bs"] by (auto simp: s'_def s1_def)
    show "queued_ok s' y" if "j < 2 ^ k" "j \<noteq> i" "y \<in> set (elems (Q j))" for j y
      using lrepD(5) [OF P that(1,3)] that(3) not_m [OF that(1,2)]
        queued_ok_msg_set [of s y s' m "clear_inrx bs"] by (auto simp: s'_def s1_def)
    show "set (elems (Some xs)) \<inter> set (elems (Q j)) = {}" if "j < 2 ^ k" "j \<noteq> i" for j
      using lrepD(7) [OF P mb(4) that(1)] that(2) mb(5) by auto
  qed (use e(3) in \<open>simp_all add: s'_def s1_def\<close>)
  then have "local_queues s' k (Q(i \<mapsto> xs))" by (auto simp: local_queues_def)
  then show ?thesis using recv e(4) bs unfolding s'_def s1_def by blast
qed

lemma local_receive_empty:
  assumes r: "local_queues s k Q" and mb: "mbox_at b s = Inr mb" "is_local (mb_id mb) s"
    "local_index (mb_id mb) = i" "i < 2 ^ k" "Q i = Some []" and rc: "rcs s t = BLive 0"
  shows "local_receive t b s = Inr (None, s\<lparr>rcs := (rcs s)(t := BLive ITC_QUEUE_EMPTY)\<rparr>)"
proof -
  obtain P where P: "lrep s k P Q" using r by (auto simp: local_queues_def)
  then have cfg: "local_cfg s k" by (simp add: lrep_def)
  obtain q where q: "lmd_rxq (slots_of s ! i) = BLive q" "rxrep (litems s) q (P i) []"
    by (rule lrep_slot_used [OF P mb(4,5)])
  define s1 where "s1 = s\<lparr>rcs := (rcs s)(t := BLive ITC_QUEUE_EMPTY)\<rparr>"
  have same: "local_cfg s1 k" "slots_of s1 = slots_of s" "put_slot i d s1 = put_slot i d s" for d
    using cfg by (simp_all add: s1_def local_cfg_def slots_of_def put_slot_def)
  have "put_slot i ((slots_of s ! i)\<lparr>lmd_rxq := BLive q\<rparr>) s = local_inst s"
    using put_slot_id [OF cfg lmd_rxq_same [OF q(1)]] .
  then show ?thesis
    using find_localmbx_data_eq [OF cfg rc, of "mb_id mb"] mb rc q(1) cfg same
      dequeue_message_empty [OF q(2), of t 0]
    by (simp add: local_receive_def s1_def)
qed

subsection \<open>Creating and deleting mailboxes\<close>

text \<open>Only the thread's result code and the memory of the local transport and the messages change.\<close>

definition only_queues :: "proc \<Rightarrow> proc \<Rightarrow> bool" where
  "only_queues s s' \<longleftrightarrow> s' = s\<lparr>rcs := rcs s', litems := litems s', msgs := msgs s'\<rparr>"

lemma only_queues_trans: "only_queues s s1 \<Longrightarrow> only_queues s1 s2 \<Longrightarrow> only_queues s s2"
  unfolding only_queues_def by (cases s; cases s1; cases s2) simp

lemma only_queues_rcs: "only_queues s s' \<Longrightarrow> only_queues s (s'\<lparr>rcs := r\<rparr>)"
  unfolding only_queues_def by (cases s; cases s') simp

lemma only_queues_same:
  assumes "only_queues s s'"
  shows "local_inst s' = local_inst s" "itc_inst s' = itc_inst s" "alloc_ready s' = alloc_ready s"
    "max_mallocsize s' = max_mallocsize s" "sys s' = sys s" "mallocs s' = mallocs s" "qnodes s' = qnodes s"
    "my_threadlocal_mbox s' = my_threadlocal_mbox s" "sysvmq_inst s' = sysvmq_inst s"
    "lsock_inst s' = lsock_inst s" "thrman_inst s' = thrman_inst s" "cur_pid s' = cur_pid s"
    "mq_sent s' = mq_sent s"
  using assms unfolding only_queues_def by (cases s; cases s'; simp)+

lemma discard_messages_spec:
  assumes "rxrep (litems s) q ps xs" and "distinct xs" and "\<forall>m \<in> set xs. queued_ok s m"
    and "alloc_state t s" and "rcs s t = BLive 0" and "length xs < fuel"
  shows "\<exists>q' s'. discard_messages t fuel q s = Inr (q', s') \<and> only_queues s s' \<and>
           rcs s' = (rcs s)(t := BLive ITC_QUEUE_EMPTY) \<and>
           heap_ok (litems s') \<and> same_outside (set ps) (litems s) (litems s') \<and>
           (\<forall>p \<in> set ps. cells (litems s') p = None) \<and>
           malloc_results (litems s') = malloc_results (litems s) \<and> fresh (litems s') = fresh (litems s) \<and>
           malloc_results (msgs s') = malloc_results (msgs s) \<and> fresh (msgs s') = fresh (msgs s) \<and>
           (\<forall>m. cells (msgs s') m = (if m \<in> set xs then None else cells (msgs s) m))"
  using assms
proof (induction xs arbitrary: s q ps fuel)
  case Nil
  then obtain n where "fuel = Suc n" by (cases fuel) auto
  moreover have "ps = []" "heap_ok (litems s)" using Nil by (auto simp: rxrep_def)
  ultimately show ?case
    using dequeue_message_empty [OF Nil.prems(1) Nil.prems(5)] by (simp add: only_queues_def fun_upd_def)
next
  case (Cons m xs)
  obtain n where fuel: "fuel = Suc n" using Cons.prems(6) by (cases fuel) auto
  obtain bs where bs: "cells (msgs s) m = Some bs" "wf_msg bs" "inrx bs"
    using Cons.prems(3) by (auto simp: queued_ok_def)
  obtain q1 h1 where d: "dequeue_message t q s =
        Inr (Some m, q1, s\<lparr>litems := h1, msgs := msg_set m (clear_inrx bs) (msgs s)\<rparr>)"
      "rxrep h1 q1 (tl ps) xs" "same_outside (set ps) (litems s) h1" "cells h1 (hd ps) = None"
      "fresh h1 = fresh (litems s)" "malloc_results h1 = malloc_results (litems s)"
    using dequeue_message_spec [OF Cons.prems(1) bs(1,2), of t] by auto
  define s1 where "s1 = s\<lparr>litems := h1, msgs := msg_set m (clear_inrx bs) (msgs s)\<rparr>"
  have "alloc_state t s1"
    using Cons.prems(4) bs(1) heap_ok_msg_set [of "msgs s" m bs] by (auto simp: alloc_state_def s1_def)
  moreover have "cells (msgs s1) m = Some (clear_inrx bs)" by (simp add: s1_def)
  ultimately have f: "itc_free t (Some m) s1 = Inr (True, s1\<lparr>rcs := (rcs s1)(t := BLive ITC_OK),
        msgs := (msgs s1)\<lparr>cells := (cells (msgs s1))(m := None)\<rparr>\<rparr>)"
    using itc_free_ok bs(2) wf_msg_20 [OF bs(2)] by simp
  define s2 where "s2 = s1\<lparr>rcs := (rcs s1)(t := BLive ITC_OK),
        msgs := (msgs s1)\<lparr>cells := (cells (msgs s1))(m := None)\<rparr>\<rparr>"
  have c2: "cells (msgs s2) = (cells (msgs s))(m := None)" by (auto simp: s2_def s1_def)
  have "only_queues s s2" by (simp add: only_queues_def s2_def s1_def)
  have "alloc_state t s2"
    using Cons.prems(4) by (auto simp: alloc_state_def s2_def s1_def heap_ok_def)
  moreover have "\<forall>y \<in> set xs. queued_ok s2 y"
    using Cons.prems(2,3) by (auto simp: queued_ok_def c2)
  moreover have "rxrep (litems s2) q1 (tl ps) xs" using d(2) by (simp add: s2_def s1_def)
  moreover have "distinct xs" "rcs s2 t = BLive 0" "length xs < n"
    using Cons.prems(2,6) fuel by (simp_all add: s2_def)
  ultimately obtain q' s' where r: "discard_messages t n q1 s2 = Inr (q', s')" "only_queues s2 s'"
      "rcs s' = (rcs s2)(t := BLive ITC_QUEUE_EMPTY)" "heap_ok (litems s')"
      "same_outside (set (tl ps)) (litems s2) (litems s')" "\<forall>p \<in> set (tl ps). cells (litems s') p = None"
      "malloc_results (litems s') = malloc_results (litems s2)" "fresh (litems s') = fresh (litems s2)"
      "malloc_results (msgs s') = malloc_results (msgs s2)" "fresh (msgs s') = fresh (msgs s2)"
      "\<forall>y. cells (msgs s') y = (if y \<in> set xs then None else cells (msgs s2) y)"
    using Cons.IH [of s2 q1 "tl ps" n] by blast
  have same2: "litems s2 = h1" "rcs s2 = (rcs s)(t := BLive 0)"
    "malloc_results (msgs s2) = malloc_results (msgs s)" "fresh (msgs s2) = fresh (msgs s)"
    by (simp_all add: s2_def s1_def)
  obtain p ps' where ps: "ps = p # ps'" using rxrep_length [OF Cons.prems(1)] by (cases ps) auto
  have "distinct ps" using Cons.prems(1) by (simp add: rxrep_def dlist_def)
  then have "\<forall>p \<in> set ps. cells (litems s') p = None"
    using r(5,6) d(4) ps same2(1) by (auto simp: same_outside_def)
  moreover have "same_outside (set ps) (litems s) (litems s')"
    using same_outside_trans [OF d(3), of "set (tl ps)" "litems s'"] r(5) same2(1) ps
    by (simp add: insert_absorb Un_absorb2 same_outside_def)
  moreover have "discard_messages t fuel q s = Inr (q', s')"
    using d(1) f r(1) by (simp add: fuel s1_def s2_def)
  moreover have "\<forall>y. cells (msgs s') y = (if y \<in> set (m # xs) then None else cells (msgs s) y)"
    using r(11) c2 by auto
  moreover have "rcs s' = (rcs s)(t := BLive ITC_QUEUE_EMPTY)" using r(3) same2(2) by simp
  moreover have "malloc_results (litems s') = malloc_results (litems s)"
    "fresh (litems s') = fresh (litems s)" "malloc_results (msgs s') = malloc_results (msgs s)"
    "fresh (msgs s') = fresh (msgs s)"
    using r(7-10) same2 d(5,6) by simp_all
  ultimately show ?case using r(4) only_queues_trans [OF \<open>only_queues s s2\<close> r(2)] by blast
qed

lemma alloc_state_same:
  "alloc_state t s \<Longrightarrow> itc_inst s' = itc_inst s \<Longrightarrow> alloc_ready s' = alloc_ready s \<Longrightarrow>
     max_mallocsize s' = max_mallocsize s \<Longrightarrow> heap_ok (msgs s') \<Longrightarrow> rcs s' t = BLive w \<Longrightarrow> alloc_state t s'"
  by (auto simp: alloc_state_def)

lemma local_create_mbox_spec:
  assumes r: "local_queues s k Q" and mb: "mbox_at b s = Inr mb" "is_local (mb_id mb) s"
    "local_index (mb_id mb) = i" "i < 2 ^ k" "Q i = None" and rc: "rcs s t = BLive 0"
    and mem: "mallocs s = []"
  shows "\<exists>d'. local_create_mbox t b flags s = Inr (s\<lparr>local_inst := put_slot i d' s\<rparr>) \<and>
           local_queues (s\<lparr>local_inst := put_slot i d' s\<rparr>) k (Q(i \<mapsto> []))"
proof -
  obtain P where P: "lrep s k P Q" using r by (auto simp: local_queues_def)
  then have cfg: "local_cfg s k" by (simp add: lrep_def)
  have free: "lmd_rxq (slots_of s ! i) = BNull" by (rule lrep_slot_free [OF P mb(4,5)])
  define q where "q = \<lparr>rx_head = None, rx_tail = None, rx_find = None\<rparr>"
  define d1 where "d1 = (slots_of s ! i)\<lparr>lmd_rxq := BLive q\<rparr>"
  define d' where "d' = d1\<lparr>lmd_mbox_id := mb_id mb, lmd_flags := mb_flags mb\<rparr>"
  define s1 where "s1 = s\<lparr>local_inst := put_slot i d1 s\<rparr>"
  have 1: "local_cfg s1 k" using local_cfg_put_slot [OF cfg, of s1 i d1] by (simp add: s1_def)
  have 2: "slots_of s1 = (slots_of s)[i := d1]" by (rule slots_of_put_slot) (simp add: s1_def)
  have 3: "put_slot i d' s1 = put_slot i d' s" by (simp add: put_slot_def 2) (simp add: s1_def put_slot_def)
  have eq: "local_create_mbox t b flags s = Inr (s\<lparr>local_inst := put_slot i d' s\<rparr>)"
    using find_localmbx_data_eq [OF cfg rc, of "mb_id mb"] mb rc cfg free mem 1 2 3 local_cfg_slots [OF cfg]
    by (simp add: local_create_mbox_def init_queue_def s1_def d1_def d'_def q_def)
  have "lrep (s\<lparr>local_inst := put_slot i d' s\<rparr>) k (P(i := [])) (Q(i := Some []))"
  proof (rule lrep_step [OF P mb(4), where d' = d' and A = "{}"])
    show "slot_rep (litems s) d' [] (Some [])"
      using lrepD(2) [OF P] by (simp add: slot_rep_def d'_def d1_def q_def rxrep_def)
    show "queued_ok (s\<lparr>local_inst := put_slot i d' s\<rparr>) y" if "j < 2 ^ k" "j \<noteq> i" "y \<in> set (elems (Q j))" for j y
      using lrepD(5) [OF P that(1,3)] by (simp add: queued_ok_def)
  qed (use lrepD(2) [OF P] in \<open>simp_all\<close>)
  then show ?thesis using eq by (auto simp: local_queues_def)
qed

lemma local_delete_mbox_spec:
  assumes r: "local_queues s k Q" and mb: "mbox_at b s = Inr mb" "is_local (mb_id mb) s"
    "local_index (mb_id mb) = i" "i < 2 ^ k" "Q i = Some xs" and rc: "rcs s t = BLive 0"
    and st: "alloc_state t s"
  shows "\<exists>s' s1. local_delete_mbox t b s = Inr s' \<and> local_queues s' k (Q(i := None)) \<and>
           only_queues s s1 \<and> s' = s1\<lparr>local_inst := put_slot i local_mbox_data0 s\<rparr> \<and> rcs s' = rcs s \<and>
           malloc_results (litems s') = malloc_results (litems s) \<and>
           malloc_results (msgs s') = malloc_results (msgs s) \<and> fresh (msgs s') = fresh (msgs s) \<and>
           (\<forall>m. cells (msgs s') m = (if m \<in> set xs then None else cells (msgs s) m))"
proof -
  obtain P where P: "lrep s k P Q" using r by (auto simp: local_queues_def)
  then have cfg: "local_cfg s k" by (simp add: lrep_def)
  obtain q where q: "lmd_rxq (slots_of s ! i) = BLive q" "rxrep (litems s) q (P i) xs"
      "distinct xs" "\<forall>m \<in> set xs. queued_ok s m"
    by (rule lrep_slot_used [OF P mb(4,5)])
  have "length xs < Suc (fresh (litems s))" using rxrep_length_le_fresh [OF q(2)] by simp
  from discard_messages_spec [OF q(2-4) st rc this] obtain q' sd where
    d: "discard_messages t (Suc (fresh (litems s))) q s = Inr (q', sd)" "only_queues s sd"
      "rcs sd = (rcs s)(t := BLive ITC_QUEUE_EMPTY)" "heap_ok (litems sd)"
      "same_outside (set (P i)) (litems s) (litems sd)"
      "malloc_results (litems sd) = malloc_results (litems s)"
      "malloc_results (msgs sd) = malloc_results (msgs s)" "fresh (msgs sd) = fresh (msgs s)"
      "\<forall>m. cells (msgs sd) m = (if m \<in> set xs then None else cells (msgs s) m)" by blast
  define s1 where "s1 = sd\<lparr>rcs := rcs s\<rparr>"
  have li: "local_inst sd = local_inst s" "local_inst s1 = local_inst s"
    using only_queues_same(1) [OF d(2)] by (simp_all add: s1_def)
  have same: "local_cfg s1 k" "slots_of s1 = slots_of s" "put_slot i x s1 = put_slot i x s" for x
    using cfg li by (simp_all add: local_cfg_def slots_of_def put_slot_def)
  define s' where "s' = s1\<lparr>local_inst := put_slot i local_mbox_data0 s\<rparr>"
  have oq: "only_queues s s1" using only_queues_rcs [OF d(2)] by (simp add: s1_def)
  have "(rcs s)(t := BLive 0) = rcs s" using rc by auto
  then have eq: "local_delete_mbox t b s = Inr s'"
    using find_localmbx_data_eq [OF cfg rc, of "mb_id mb"] mb rc q(1) cfg d(1,3) same
    by (simp add: local_delete_mbox_def s'_def s1_def del: discard_messages.simps)
  have "lrep s' k (P(i := [])) (Q(i := None))"
  proof (rule lrep_step [OF P mb(4), where d' = local_mbox_data0 and A = "set (P i)"])
    show "slot_rep (litems sd) local_mbox_data0 [] None"
      by (simp add: slot_rep_def local_mbox_data0_def)
    show "set (P i) \<inter> set (P j) = {}" if "j < 2 ^ k" "j \<noteq> i" for j
      using lrepD(6) [OF P mb(4) that(1)] that(2) by simp
    show "queued_ok s' y" if "j < 2 ^ k" "j \<noteq> i" "y \<in> set (elems (Q j))" for j y
    proof -
      have "y \<notin> set xs" using lrepD(7) [OF P mb(4) that(1)] that(2,3) mb(5) by auto
      then have "cells (msgs s') y = cells (msgs s) y" using d(9) by (simp add: s'_def s1_def)
      then show ?thesis using lrepD(5) [OF P that(1,3)] by (simp add: queued_ok_def)
    qed
  qed (use d(4,5) in \<open>simp_all add: s'_def s1_def\<close>)
  then have "local_queues s' k (Q(i := None))" by (auto simp: local_queues_def)
  moreover have "rcs s' = rcs s" "litems s' = litems sd" "msgs s' = msgs sd" by (simp_all add: s'_def s1_def)
  ultimately show ?thesis using eq oq d(6-9) s'_def by metis
qed

section \<open>Initialisation\<close>

lemma local_init_spec:
  assumes "localmbx_data (local_inst s) = BNull" and "nr \<noteq> 0" and "nr < 65536" and "mallocs s = []"
    and "heap_ok (litems s)" and "my AND cm = my"
  shows "\<exists>k li. local_init t my cm nr flags s = Inr (s\<lparr>local_inst := li\<rparr>) \<and>
           unat nr < 2 ^ k \<and> local_queues (s\<lparr>local_inst := li\<rparr>) k (\<lambda>_. None) \<and>
           li_my_mbox_id_in_itccoord li = my \<and> li_itccoord_mask li = cm \<and>
           drop_bit (clz32 nr) (0xFFFFFFFF :: u32) = mask k"
proof -
  obtain k where k: "1 \<le> k" "k \<le> 16" "drop_bit (clz32 nr) (0xFFFFFFFF :: u32) = mask k" "unat nr < 2 ^ k"
    by (rule local_mask [OF assms(2,3)])
  have n: "mask k + 1 = (2 ^ k :: u32)" by (simp add: mask_eq_exp_minus_1)
  have u: "unat (2 ^ k :: u32) = 2 ^ k" using k(2) by (simp add: unat_two_power)
  define li where "li = (local_inst s)\<lparr>li_my_mbox_id_in_itccoord := my, li_itccoord_mask := cm,
     li_local_mbox_mask := mask k, localmbx_data := BLive (replicate (2 ^ k) local_mbox_data0),
     nr_localmbx_datas := 2 ^ k\<rparr>"
  have eq: "local_init t my cm nr flags s = Inr (s\<lparr>local_inst := li\<rparr>)"
    using assms(1,2,4) by (simp add: local_init_def k(3) [simplified] Let_def n u li_def)
  have "lrep (s\<lparr>local_inst := li\<rparr>) k (\<lambda>_. []) (\<lambda>_. None)"
    using k(1,2) assms(5)
    by (simp add: lrep_def local_cfg_def slots_of_def slot_rep_def li_def local_mbox_data0_def)
  then have "local_queues (s\<lparr>local_inst := li\<rparr>) k (\<lambda>_. None)" by (auto simp: local_queues_def)
  moreover have "li_my_mbox_id_in_itccoord li = my" "li_itccoord_mask li = cm" by (simp_all add: li_def)
  ultimately show ?thesis using eq k(3,4) by blast
qed

section \<open>Properties\<close>

text \<open>
  A process with two slots: the first mailbox is not in use, the second one is, and its queue is
  empty or holds one message.
\<close>

definition local_example :: "rxqueue \<Rightarrow> lheap \<Rightarrow> mheap \<Rightarrow> proc" where
  "local_example q lh mh = alloc_example\<lparr>
     itc_inst := itc_instance0\<lparr>mboxes := BLive [itc_mailbox0\<lparr>mb_id := 0x100000\<rparr>, itc_mailbox0\<lparr>mb_id := 0x100001\<rparr>]\<rparr>,
     local_inst := \<lparr>li_my_mbox_id_in_itccoord = 0x100000, li_itccoord_mask = ITC_COORD_MASK,
       li_local_mbox_mask = 1, nr_localmbx_datas = 2,
       localmbx_data = BLive [local_mbox_data0, \<lparr>lmd_mbox_id = 0x100001, lmd_flags = 0, lmd_rxq = BLive q\<rparr>]\<rparr>,
     litems := lh, msgs := mh\<rparr>"

definition local_empty :: proc where
  "local_empty = local_example \<lparr>rx_head = None, rx_tail = None, rx_find = None\<rparr> (empty_heap [])
     \<lparr>cells = [0 \<mapsto> new_message 4 7], fresh = 1, malloc_results = []\<rparr>"

definition local_one :: proc where
  "local_one = local_example \<lparr>rx_head = Some 0, rx_tail = Some 0, rx_find = None\<rparr>
     \<lparr>cells = [0 \<mapsto> \<lparr>next_ptr = None, prev_ptr = None, node_data = 0\<rparr>], fresh = 1, malloc_results = []\<rparr>
     \<lparr>cells = [0 \<mapsto> set_inrx (new_message 4 7)], fresh = 1, malloc_results = []\<rparr>"

lemma local_example_cfg: "local_cfg (local_example q lh mh) 1"
  by (simp add: local_cfg_def local_example_def mask_eq_exp_minus_1)

lemma local_example_slots: "slots_of (local_example q lh mh) =
   [local_mbox_data0, \<lparr>lmd_mbox_id = 0x100001, lmd_flags = 0, lmd_rxq = BLive q\<rparr>]"
  by (simp add: local_example_def slots_of_def)

lemma local_example_queues:
  assumes "rxrep lh q ps xs" and "distinct xs"
    and "\<forall>m \<in> set xs. \<exists>bs. cells mh m = Some bs \<and> wf_msg bs \<and> inrx bs"
  shows "local_queues (local_example q lh mh) 1 [1 \<mapsto> xs]"
proof -
  let ?s = "local_example q lh mh"
  have h: "litems ?s = lh" "msgs ?s = mh" by (simp_all add: local_example_def)
  have "slot_rep lh (slots_of ?s ! i) (if i = 1 then ps else []) ([1 \<mapsto> xs] i)" if "i < 2 ^ 1" for i
    using that assms(1) by (cases i) (simp_all add: local_example_slots slot_rep_def local_mbox_data0_def)
  moreover have "heap_ok lh" using assms(1) by (simp add: rxrep_def)
  ultimately have "lrep ?s 1 (\<lambda>i. if i = 1 then ps else []) [1 \<mapsto> xs]"
    unfolding lrep_def using local_example_cfg [of q lh mh] assms(2,3) h by (auto simp: queued_ok_def)
  then show ?thesis by (auto simp: local_queues_def)
qed

lemma local_empty_queues: "local_queues local_empty 1 [1 \<mapsto> []]"
  unfolding local_empty_def by (rule local_example_queues [where ps = "[]"]) (simp_all add: rxrep_def)

lemma local_one_queues: "local_queues local_one 1 [1 \<mapsto> [0]]"
  unfolding local_one_def
  by (rule local_example_queues [where ps = "[0]"]) (simp_all add: rxrep_def heap_ok_def dlist_def wf_new_message)

lemma local_example_alloc: "heap_ok mh \<Longrightarrow> alloc_state 0 (local_example q lh mh)"
  using alloc_example_state by (auto simp: alloc_state_def local_example_def)

text \<open>
  Sending inside the process, for every destination: an identifier of another process, one
  beyond the table and one whose mailbox does not exist are refused with their result code and
  without any other effect; a message to an existing mailbox is appended to that mailbox's queue
  and marked as queued, while every other queue and every other message stays as it was.
\<close>

theorem local_send_cases:
  assumes "local_queues s k Q" and "rcs s t = BLive 0" and "can_alloc (litems s)"
    and "cells (msgs s) m = Some bs" and "wf_msg bs" and "\<not> inrx bs"
  shows "if \<not> is_local to s then
      local_send t m to s = Inr (s\<lparr>rcs := (rcs s)(t := BLive ITC_NOT_THIS_PROC)\<rparr>)
    else if \<not> local_index to < 2 ^ k then
      local_send t m to s = Inr (s\<lparr>rcs := (rcs s)(t := BLive ITC_OUT_OF_RANGE)\<rparr>)
    else case Q (local_index to) of
      None \<Rightarrow> local_send t m to s = Inr (s\<lparr>rcs := (rcs s)(t := BLive ITC_QUEUE_NULL)\<rparr>)
    | Some xs \<Rightarrow> \<exists>s'. local_send t m to s = Inr s' \<and>
        local_queues s' k (Q(local_index to \<mapsto> xs @ [m])) \<and> rcs s' = rcs s \<and>
        cells (msgs s') = (cells (msgs s))(m \<mapsto> set_inrx bs)"
proof -
  obtain P where P: "lrep s k P Q" using assms(1) by (auto simp: local_queues_def)
  note cfg = lrepD(1) [OF P]
  note f = find_localmbx_data_eq [OF cfg assms(2), of to]
  show ?thesis
  proof (cases "is_local to s \<and> local_index to < 2 ^ k")
    case False
    then show ?thesis using f by (auto simp: local_send_def)
  next
    case True
    show ?thesis
    proof (cases "Q (local_index to)")
      case None
      then show ?thesis
        using True f cfg assms(2) lrep_slot_free [OF P, of "local_index to"] by (simp add: local_send_def)
    next
      case (Some xs)
      then show ?thesis
        using True local_send_spec [OF assms(1) _ refl _ Some assms(4-6,3,2)] by auto
    qed
  qed
qed

theorem local_send_cases_witness:
  "\<exists>s'. local_send 0 0 0x100001 local_empty = Inr s' \<and> local_queues s' 1 [1 \<mapsto> [0]] \<and>
        cells (msgs s') 0 = Some (set_inrx (new_message 4 7))"
proof -
  have "rcs local_empty 0 = BLive 0" "can_alloc (litems local_empty)"
    "cells (msgs local_empty) 0 = Some (new_message 4 7)" "is_local 0x100001 local_empty"
    by (simp_all add: local_empty_def local_example_def alloc_example_def is_local_def)
  moreover have "local_index 0x100001 = 1" by (simp add: local_index_def)
  moreover have "\<not> inrx (new_message 4 7)" using fld_new_message(1) [of 4 7] by (simp add: inrx_def)
  ultimately show ?thesis
    using local_send_cases [OF local_empty_queues _ _ _ wf_new_message [of 4 7], of 0 0 "0x100001"] by auto
qed

text \<open>
  Receiving from an existing mailbox: an empty queue gives no message and the result code for
  it; otherwise the oldest message is taken out, comes back unmarked and otherwise as it was sent,
  and every other queue and message stays as it was.
\<close>

theorem local_receive_oldest:
  assumes "local_queues s k Q" and "mbox_at b s = Inr mb" and "is_local (mb_id mb) s"
    and "local_index (mb_id mb) = i" and "i < 2 ^ k" and "Q i = Some xs" and "rcs s t = BLive 0"
  shows "case xs of
      [] \<Rightarrow> local_receive t b s = Inr (None, s\<lparr>rcs := (rcs s)(t := BLive ITC_QUEUE_EMPTY)\<rparr>)
    | m # ys \<Rightarrow> \<exists>s' bs. local_receive t b s = Inr (Some m, s') \<and> local_queues s' k (Q(i \<mapsto> ys)) \<and>
        rcs s' = rcs s \<and> cells (msgs s) m = Some bs \<and>
        cells (msgs s') = (cells (msgs s))(m \<mapsto> clear_inrx bs)"
proof (cases xs)
  case Nil
  then show ?thesis using local_receive_empty [OF assms(1-5) _ assms(7)] assms(6) by simp
next
  case (Cons m ys)
  then show ?thesis
    using local_receive_spec [OF assms(1-5) _ assms(7), of m ys] assms(6) by auto
qed

theorem local_receive_oldest_witness:
  "\<exists>s'. local_receive 0 1 local_one = Inr (Some 0, s') \<and> local_queues s' 1 [1 \<mapsto> []]"
proof -
  have "mbox_at 1 local_one = Inr (itc_mailbox0\<lparr>mb_id := 0x100001\<rparr>)" "is_local 0x100001 local_one"
    "rcs local_one 0 = BLive 0"
    by (simp_all add: local_one_def local_example_def alloc_example_def is_local_def mbox_at_def)
  moreover have "local_index 0x100001 = 1" by (simp add: local_index_def)
  ultimately show ?thesis
    using local_receive_oldest [OF local_one_queues, of 1 "itc_mailbox0\<lparr>mb_id := 0x100001\<rparr>" 1 "[0]" 0] by auto
qed

text \<open>
  Deleting a mailbox terminates whatever is queued: every message in its queue is given back to
  the allocator, every other message stays allocated and unchanged, the slot becomes free, the other
  mailboxes keep their queues, and the result code stays clean.
\<close>

theorem local_delete_discards:
  assumes "local_queues s k Q" and "mbox_at b s = Inr mb" and "is_local (mb_id mb) s"
    and "local_index (mb_id mb) = i" and "i < 2 ^ k" and "Q i = Some xs" and "rcs s t = BLive 0"
    and "alloc_state t s"
  shows "\<exists>s'. local_delete_mbox t b s = Inr s' \<and> local_queues s' k (Q(i := None)) \<and> rcs s' = rcs s \<and>
           (\<forall>m. cells (msgs s') m = (if m \<in> set xs then None else cells (msgs s) m))"
  using local_delete_mbox_spec [OF assms] by blast

theorem local_delete_discards_witness:
  "\<exists>s'. local_delete_mbox 0 1 local_one = Inr s' \<and> local_queues s' 1 (\<lambda>_. None) \<and> cells (msgs s') 0 = None"
proof -
  have "mbox_at 1 local_one = Inr (itc_mailbox0\<lparr>mb_id := 0x100001\<rparr>)" "is_local 0x100001 local_one"
    "rcs local_one 0 = BLive 0" "alloc_state 0 local_one"
    by (simp_all add: local_one_def local_example_alloc heap_ok_def)
      (simp_all add: local_example_def alloc_example_def is_local_def mbox_at_def)
  moreover have "local_index 0x100001 = 1" by (simp add: local_index_def)
  ultimately show ?thesis
    using local_delete_discards [OF local_one_queues, of 1 "itc_mailbox0\<lparr>mb_id := 0x100001\<rparr>" 1 "[0]" 0] by auto
qed

text \<open>
  \<open>local_init\<close> for up to 65535 mailboxes sets up a table with a slot for each of them, all
  unused, and the range check of \<open>find_localmbx_data\<close>, which masks an identifier with the even
  number 65534, then accepts exactly the identifiers of this process whose lower 16 bits are below
  the size of the table and maps them to the slot with that number.
\<close>

theorem local_init_and_lookup:
  assumes "localmbx_data (local_inst s) = BNull" and "nr \<noteq> 0" and "nr < 65536" and "mallocs s = []"
    and "heap_ok (litems s)" and "my AND ITC_COORD_MASK = my" and "rcs s t = BLive 0"
  shows "\<exists>k s'. local_init t my ITC_COORD_MASK nr flags s = Inr s' \<and> unat nr < 2 ^ k \<and>
           local_queues s' k (\<lambda>_. None) \<and>
           (\<forall>i d. (\<exists>s''. find_localmbx_data t i s' = Inr (Some d, s'')) \<longleftrightarrow>
              i AND ITC_COORD_MASK = my \<and> d = unat i mod 65536 \<and> d < 2 ^ k)"
proof -
  obtain k li where k: "local_init t my ITC_COORD_MASK nr flags s = Inr (s\<lparr>local_inst := li\<rparr>)"
      "unat nr < 2 ^ k" "local_queues (s\<lparr>local_inst := li\<rparr>) k (\<lambda>_. None)"
      "li_my_mbox_id_in_itccoord li = my" "li_itccoord_mask li = ITC_COORD_MASK"
    using local_init_spec [OF assms(1-6)] by blast
  define s' where "s' = s\<lparr>local_inst := li\<rparr>"
  have "local_cfg s' k" using k(3) by (auto simp: local_queues_def lrep_def s'_def)
  moreover have "rcs s' t = BLive 0" using assms(7) by (simp add: s'_def)
  ultimately have f: "find_localmbx_data t i s' =
     (if \<not> is_local i s' then Inr (None, s'\<lparr>rcs := (rcs s')(t := BLive (0 OR ITC_NOT_THIS_PROC))\<rparr>)
      else if local_index i < 2 ^ k then Inr (Some (local_index i), s')
      else Inr (None, s'\<lparr>rcs := (rcs s')(t := BLive (0 OR ITC_OUT_OF_RANGE))\<rparr>))" for i
    by (rule find_localmbx_data_eq)
  have "is_local i s' \<longleftrightarrow> i AND ITC_COORD_MASK = my" for i using k(4,5) by (simp add: is_local_def s'_def)
  then have "(\<exists>s''. find_localmbx_data t i s' = Inr (Some d, s'')) \<longleftrightarrow>
      i AND ITC_COORD_MASK = my \<and> d = unat i mod 65536 \<and> d < 2 ^ k" for i d
    by (auto simp: f local_index_def)
  then show ?thesis using k(1-3) unfolding s'_def by blast
qed

theorem local_init_and_lookup_witness:
  "\<exists>k s'. local_init 0 0x100000 ITC_COORD_MASK 10 0 alloc_example = Inr s' \<and> 10 < (2::nat) ^ k \<and>
      (\<exists>s''. find_localmbx_data 0 0x100003 s' = Inr (Some 3, s'')) \<and>
      \<not> (\<exists>d s''. find_localmbx_data 0 0x200003 s' = Inr (Some d, s''))"
proof -
  have "(10::u32) \<noteq> 0" "(10::u32) < 65536" "(0x100000::u32) AND ITC_COORD_MASK = 0x100000" by simp_all
  moreover have "localmbx_data (local_inst alloc_example) = BNull" "mallocs alloc_example = []"
    "heap_ok (litems alloc_example)" "rcs alloc_example 0 = BLive 0"
    by (simp_all add: alloc_example_def proc0_def local_instance0_def)
  ultimately obtain k s' where r: "local_init 0 0x100000 ITC_COORD_MASK 10 0 alloc_example = Inr s'"
      "unat (10::u32) < 2 ^ k"
      "\<And>i d. (\<exists>s''. find_localmbx_data 0 i s' = Inr (Some d, s'')) \<longleftrightarrow>
              i AND ITC_COORD_MASK = 0x100000 \<and> d = unat i mod 65536 \<and> d < 2 ^ k"
    using local_init_and_lookup [of alloc_example 10 "0x100000" 0 0] by blast
  have "\<not> (\<exists>s''. find_localmbx_data 0 0x200003 s' = Inr (Some d, s''))" for d
    unfolding r(3) by simp
  moreover have "\<exists>s''. find_localmbx_data 0 0x100003 s' = Inr (Some 3, s'')"
    unfolding r(3) using r(2) by simp
  ultimately show ?thesis using r(1,2) by auto
qed

text \<open>
  \<open>remove_message_fromqueue\<close> is correct at both ends of a queue: taking out the first or the
  last message leaves exactly the other messages, in order, in a sound queue.
\<close>

theorem remove_at_ends:
  assumes "rxrep (litems s) q ps xs" and "distinct xs" and "xs \<noteq> []" and "m = hd xs \<or> m = last xs"
    and "cells (msgs s) m = Some bs" and "wf_msg bs"
  shows "\<exists>q' s' ps'. remove_message_fromqueue t q m s = Inr (Some m, q', s') \<and>
           rxrep (litems s') q' ps' (remove1 m xs) \<and> set ps' \<subseteq> set ps \<and>
           cells (msgs s') = (cells (msgs s))(m \<mapsto> clear_inrx bs)"
proof (cases "m = hd xs")
  case True
  then obtain ys where xs: "xs = m # ys" using assms(3) by (cases xs) auto
  moreover obtain p ps' where ps: "ps = p # ps'" using rxrep_length [OF assms(1)] xs by (cases ps) auto
  ultimately show ?thesis
    using remove_first_spec [of s q p ps' m ys bs t] assms by fastforce
next
  case False
  then have "m = last xs" using assms(4) by simp
  then obtain us where us: "xs = us @ [m]" using assms(3) by (metis append_butlast_last_id)
  have "us \<noteq> []" using False us by auto
  then obtain ys y where ys: "us = ys @ [y]" by (metis rev_exhaust)
  have "length ps = length ys + 2" using rxrep_length [OF assms(1)] us ys by simp
  then obtain as a p where ps: "ps = as @ [a] @ [p]" and len: "length as = length ys"
    by (cases ps rule: rev_cases; simp) (metis append_assoc length_append_singleton nat.inject rev_exhaust
        length_0_conv nat.distinct(1))
  have "m \<notin> set (ys @ [y])" "remove1 m xs = ys @ [y]" using assms(2) us ys by (auto simp: remove1_append)
  then show ?thesis
    using remove_last_spec [of s q as a p ys y m bs t] assms(1,5,6) us ys ps len by fastforce
qed

theorem remove_at_ends_witness:
  "\<exists>q' s' ps'. remove_message_fromqueue 0 \<lparr>rx_head = Some 0, rx_tail = Some 0, rx_find = None\<rparr> 0 local_one =
     Inr (Some 0, q', s') \<and> rxrep (litems s') q' ps' []"
proof -
  have "rxrep (litems local_one) \<lparr>rx_head = Some 0, rx_tail = Some 0, rx_find = None\<rparr> [0] [0]"
    "cells (msgs local_one) 0 = Some (set_inrx (new_message 4 7))"
    by (simp_all add: local_one_def local_example_def rxrep_def heap_ok_def dlist_def)
  then show ?thesis
    using remove_at_ends [of local_one "\<lparr>rx_head = Some 0, rx_tail = Some 0, rx_find = None\<rparr>" "[0]" "[0]" 0
        "set_inrx (new_message 4 7)" 0]
    by (auto simp: wf_new_message)
qed

text \<open>
  C40. Removing the second of three or more messages leaves the item behind it with a pointer to the
  released item, and the next \<open>dequeue_message\<close> on that queue releases it a second time.
\<close>

theorem remove_second_then_dequeue_double_frees:
  assumes "rxrep (litems s) q (a # p # b # ps) (x # m # y # xs)" and "m \<noteq> x"
    and "cells (msgs s) m = Some bs" and "wf_msg bs"
  shows "\<exists>q' s'. remove_message_fromqueue t q m s = Inr (Some m, q', s') \<and>
           dequeue_message t q' s' = Inl DoubleFree"
  using remove_middle_spec [OF assms] by blast

theorem remove_second_then_dequeue_double_frees_witness:
  "\<exists>s q' s'. remove_message_fromqueue 0 \<lparr>rx_head = Some 0, rx_tail = Some 2, rx_find = None\<rparr> 8 s =
       Inr (Some 8, q', s') \<and> dequeue_message 0 q' s' = Inl DoubleFree"
proof -
  let ?s = "alloc_example\<lparr>msgs := \<lparr>cells = [8 \<mapsto> new_message 4 1], fresh = 10, malloc_results = []\<rparr>,
     litems := \<lparr>cells = [0 \<mapsto> \<lparr>next_ptr = Some 1, prev_ptr = None, node_data = 7\<rparr>,
                         1 \<mapsto> \<lparr>next_ptr = Some 2, prev_ptr = Some 0, node_data = 8\<rparr>,
                         2 \<mapsto> \<lparr>next_ptr = None, prev_ptr = Some 1, node_data = 9\<rparr>],
                fresh = 3, malloc_results = []\<rparr>\<rparr>"
  have "rxrep (litems ?s) \<lparr>rx_head = Some 0, rx_tail = Some 2, rx_find = None\<rparr> [0, 1, 2] [7, 8, 9]"
    by (simp add: rxrep_def heap_ok_def dlist_def)
  from remove_second_then_dequeue_double_frees [OF this, of "new_message 4 1" 0] show ?thesis
    by (auto simp: wf_new_message)
qed

text \<open>
  The receive queue of a mailbox, at the level of its items and pointers, answers any sequence
  of enqueue and dequeue calls like a first-in first-out queue, without a memory fault, as long as
  the items it needs can be allocated.
\<close>

theorem local_queue_is_fifo:
  assumes "rxrep (litems s) q ps xs" and "rcs s t = BLive w"
    and "\<forall>m \<in> set xs \<union> enq_args ops. wf_live s m"
    and "list_all (\<lambda>b. b) (take (n_enqs ops) (malloc_results (litems s)))"
  shows "\<exists>q' s' ps'. run_ops (rx_enq t) (rx_deq t) ops (q, s) = Inr (fst (spec_run ops xs), (q', s')) \<and>
           rxrep (litems s') q' ps' (snd (spec_run ops xs))"
proof -
  have "rx_content t (q, s) xs" "rx_room (n_enqs ops) (q, s)" "\<forall>m \<in> enq_args ops. wf_live (snd (q, s)) m"
    using assms by (auto simp: rx_content_def rx_room_def)
  from rxq.run_refines_spec [OF this] show ?thesis by (auto simp: rx_content_def)
qed

theorem local_queue_is_fifo_witness:
  "\<exists>q' s' ps'. run_ops (rx_enq 0) (rx_deq 0) [Deq, Enq 0, Deq, Deq]
       (\<lparr>rx_head = None, rx_tail = None, rx_find = None\<rparr>, local_empty) = Inr ([None, Some 0, None], (q', s')) \<and>
     rxrep (litems s') q' ps' []"
proof -
  have "rxrep (litems local_empty) \<lparr>rx_head = None, rx_tail = None, rx_find = None\<rparr> [] []"
    "rcs local_empty 0 = BLive 0" "wf_live local_empty 0"
    by (simp_all add: local_empty_def local_example_def rxrep_def alloc_example_def wf_live_def wf_new_message)
  then show ?thesis
    using local_queue_is_fifo [of local_empty _ "[]" "[]" 0 0 "[Deq, Enq 0, Deq, Deq]"]
    by (simp add: local_empty_def local_example_def)
qed

end
