(* ===== verification/Itc_Core_Inv.thy ===== *)
theory Itc_Core_Inv
  imports Itc_Local_Table Itc_Core
begin

text \<open>
  The invariant of a process that uses the framework: the mailboxes of \<open>itc.c\<close> agree with the
  receive queues of the local transport, in number, in length and in the state of their event
  descriptors; and what the operations of \<open>itc.c\<close> do to it.
\<close>

unbundle bit_operations_syntax

section \<open>The invariant\<close>

definition mboxes_of :: "proc \<Rightarrow> itc_mailbox list" where
  "mboxes_of s = (case mboxes (itc_inst s) of BLive ms \<Rightarrow> ms | _ \<Rightarrow> [])"

text \<open>
  The mailbox at index \<open>i\<close> of a process with the identifier \<open>my\<close>: it is in use exactly when the
  transport has a queue for it, its length is the number of queued messages, and its descriptor is
  readable exactly when there are some; a mailbox that is not in use has no descriptor. Between two operations nobody holds its mutex.
\<close>

definition mbox_ok :: "itc_mbox_id \<Rightarrow> nat \<Rightarrow> itc_mailbox \<Rightarrow> nat list option \<Rightarrow> bool" where
  "mbox_ok my i m xo \<longleftrightarrow>
     mb_id m = my OR of_nat i \<and> rxq_mtx m = None \<and>
     (case xo of
        None \<Rightarrow> mb_state m = MBOX_UNUSED \<and> \<not> is_fd_created m
      | Some xs \<Rightarrow> mb_state m = MBOX_INUSE \<and> p_rxq_info m \<and> rxq_len m = int (length xs) \<and>
                   (is_fd_created m \<longrightarrow> (0 < evfd_count m \<longleftrightarrow> xs \<noteq> [])))"

definition core_cfg :: "proc \<Rightarrow> nat \<Rightarrow> bool" where
  "core_cfg s k \<longleftrightarrow>
     (\<exists>ms. mboxes (itc_inst s) = BLive ms \<and> length ms \<le> 2 ^ k \<and> nr_mboxes (itc_inst s) = of_nat (length ms)) \<and>
     ii_local_mbox_mask (itc_inst s) = mask k \<and> ii_itccoord_mask (itc_inst s) = ITC_COORD_MASK \<and>
     li_itccoord_mask (local_inst s) = ITC_COORD_MASK \<and>
     ii_my_mbox_id_in_itccoord (itc_inst s) = li_my_mbox_id_in_itccoord (local_inst s) \<and>
     li_my_mbox_id_in_itccoord (local_inst s) AND ITC_COORD_MASK = li_my_mbox_id_in_itccoord (local_inst s)"

definition core_ok :: "proc \<Rightarrow> nat \<Rightarrow> (nat \<Rightarrow> nat list option) \<Rightarrow> bool" where
  "core_ok s k Q \<longleftrightarrow>
     local_queues s k Q \<and> core_cfg s k \<and>
     (\<forall>i < length (mboxes_of s).
        mbox_ok (ii_my_mbox_id_in_itccoord (itc_inst s)) i (mboxes_of s ! i) (Q i)) \<and>
     (\<forall>i. length (mboxes_of s) \<le> i \<longrightarrow> Q i = None)"

section \<open>Identifiers\<close>

lemma low_bits_or:
  fixes my :: u32
  assumes "my AND 0xFFF00000 = my" and "i < 65536"
  shows "local_index (my OR of_nat i) = i" "(my OR of_nat i) AND 0xFFF00000 = my"
proof -
  have m: "(0xFFF00000 :: u32) = NOT (mask 20)" by (simp add: mask_eq_exp_minus_1)
  have my: "\<not> bit my n" if "n < 20" for n
    using assms(1) that unfolding m by (metis bit_and_iff bit_mask_iff bit_not_iff)
  have u: "unat (of_nat i :: u32) = i" using assms(2) by (simp add: unat_of_nat_small)
  have ibit: "\<not> bit (of_nat i :: u32) n" if "16 \<le> n" for n
  proof -
    have "(2::nat) ^ 16 \<le> 2 ^ n" using that by (intro power_increasing) auto
    then have "i div 2 ^ n = 0" using assms(2) by simp
    then have "\<not> bit i n" by (simp add: bit_iff_odd)
    then show ?thesis by (simp add: bit_simps)
  qed
  have "take_bit 16 (my OR of_nat i) = of_nat i"
    by (rule bit_word_eqI) (use ibit my in \<open>force simp: bit_take_bit_iff bit_or_iff\<close>)
  then have "take_bit 16 (unat (my OR of_nat i)) = i"
    by (metis u unsigned_take_bit_eq)
  then show "local_index (my OR of_nat i) = i" by (simp add: local_index_def take_bit_eq_mod)
  show "(my OR of_nat i) AND 0xFFF00000 = my"
    unfolding m by (rule bit_word_eqI) (use ibit my in \<open>force simp: bit_and_iff bit_or_iff bit_not_iff bit_mask_iff\<close>)
qed
lemma core_cfg_mboxes:
  assumes "core_cfg s k"
  shows "mboxes (itc_inst s) = BLive (mboxes_of s)" "length (mboxes_of s) \<le> 2 ^ k"
    "nr_mboxes (itc_inst s) = of_nat (length (mboxes_of s))"
  using assms by (auto simp: core_cfg_def mboxes_of_def)

text \<open>The identifiers that the process gives to its mailboxes lead back to them, in both tables.\<close>

lemma own_ids:
  assumes "core_cfg s k" and "k \<le> 16" and "i < length (mboxes_of s)"
  defines "x \<equiv> ii_my_mbox_id_in_itccoord (itc_inst s) OR of_nat i"
  shows "local_index x = i" "is_local x s" "find_mbox x s = Some i"
proof -
  let ?my = "ii_my_mbox_id_in_itccoord (itc_inst s)"
  note ms = core_cfg_mboxes [OF assms(1)]
  have my: "?my AND 0xFFF00000 = ?my" using assms(1) by (simp add: core_cfg_def)
  have k: "(2::nat) ^ k \<le> 2 ^ 16" using assms(2) by (intro power_increasing) auto
  then have i: "i < 65536" using assms(3) ms(2) by simp
  show li: "local_index x = i" and "is_local x s"
    using low_bits_or [OF my i] assms(1) by (simp_all add: x_def is_local_def core_cfg_def)
  have "i < 2 ^ k" using assms(3) ms(2) by simp
  then have s: "unat (x AND mask k) = i" using slot_of_index [OF assms(2), of x] li by simp
  have n: "unat (nr_mboxes (itc_inst s)) = length (mboxes_of s)"
    using ms(2,3) k by (simp add: unat_of_nat_small)
  have "x AND mask k < nr_mboxes (itc_inst s)" using s n assms(3) by (simp add: word_less_nat_alt)
  then show "find_mbox x s = Some i"
    using low_bits_or(2) [OF my i] assms(1) s by (simp add: find_mbox_def Let_def core_cfg_def x_def)
qed

lemma core_okD:
  assumes "core_ok s k Q"
  shows "local_queues s k Q" "core_cfg s k" "k \<le> 16"
    "\<And>i. i < length (mboxes_of s) \<Longrightarrow>
       mbox_ok (ii_my_mbox_id_in_itccoord (itc_inst s)) i (mboxes_of s ! i) (Q i)"
    "\<And>i xs. Q i = Some xs \<Longrightarrow> i < length (mboxes_of s)"
proof -
  show "local_queues s k Q" "core_cfg s k"
    "\<And>i. i < length (mboxes_of s) \<Longrightarrow>
       mbox_ok (ii_my_mbox_id_in_itccoord (itc_inst s)) i (mboxes_of s ! i) (Q i)"
    using assms by (simp_all add: core_ok_def)
  show "\<And>i xs. Q i = Some xs \<Longrightarrow> i < length (mboxes_of s)"
    using assms unfolding core_ok_def by (metis not_le option.distinct(1))
  obtain P where "lrep s k P Q" using assms by (auto simp: core_ok_def local_queues_def)
  then show "k \<le> 16" by (simp add: lrep_def local_cfg_def)
qed

section \<open>What leaves the queues alone\<close>

lemma local_queues_cong:
  "local_inst s' = local_inst s \<Longrightarrow> litems s' = litems s \<Longrightarrow> msgs s' = msgs s \<Longrightarrow>
     local_queues s' k Q = local_queues s k Q"
  by (simp add: local_queues_def lrep_def local_cfg_def slots_of_def queued_ok_def)

lemma core_ok_cong:
  assumes "itc_inst s' = itc_inst s" and "local_inst s' = local_inst s" and "local_queues s' k Q = local_queues s k Q"
  shows "core_ok s' k Q = core_ok s k Q"
proof -
  have "core_cfg s' k = core_cfg s k" "mboxes_of s' = mboxes_of s"
    using assms(1,2) by (simp_all add: core_cfg_def mboxes_of_def)
  then show ?thesis using assms(1,3) unfolding core_ok_def by metis
qed

lemma local_queues_unmarked:
  assumes "local_queues s k Q" and "cells (msgs s) m = Some bs" and "\<not> inrx bs"
    and "local_inst s' = local_inst s" "litems s' = litems s" "msgs s' = msg_set m bs' (msgs s)"
  shows "local_queues s' k Q"
proof -
  obtain P where P: "lrep s k P Q" using assms(1) by (auto simp: local_queues_def)
  have "queued_ok s' x" if "i < 2 ^ k" "x \<in> set (elems (Q i))" for i x
  proof -
    have "x \<noteq> m" using lrepD(5) [OF P that] assms(2,3) by (auto simp: queued_ok_def)
    then show ?thesis using lrepD(5) [OF P that] queued_ok_msg_set assms(6) by blast
  qed
  then have "lrep s' k P Q"
    using P assms(4,5) by (simp add: lrep_def local_cfg_def slots_of_def)
  then show ?thesis by (auto simp: local_queues_def)
qed

text \<open>Replacing one mailbox.\<close>

definition set_mbox :: "nat \<Rightarrow> itc_mailbox \<Rightarrow> proc \<Rightarrow> itc_instance" where
  "set_mbox i m s = (itc_inst s)\<lparr>mboxes := BLive ((mboxes_of s)[i := m])\<rparr>"

lemma core_cfg_set_mbox:
  assumes "core_cfg s k" and "itc_inst s' = set_mbox i m s" and "local_inst s' = local_inst s \<or> local_inst s' = put_slot j d s"
  shows "core_cfg s' k" "mboxes_of s' = (mboxes_of s)[i := m]"
    "ii_my_mbox_id_in_itccoord (itc_inst s') = ii_my_mbox_id_in_itccoord (itc_inst s)"
proof -
  show m: "mboxes_of s' = (mboxes_of s)[i := m]"
    "ii_my_mbox_id_in_itccoord (itc_inst s') = ii_my_mbox_id_in_itccoord (itc_inst s)"
    using assms(2) by (simp_all add: set_mbox_def mboxes_of_def)
  have "li_itccoord_mask (local_inst s') = li_itccoord_mask (local_inst s)"
    "li_my_mbox_id_in_itccoord (local_inst s') = li_my_mbox_id_in_itccoord (local_inst s)"
    using assms(3) by (auto simp: put_slot_def)
  then show "core_cfg s' k"
    using assms(1) core_cfg_mboxes [OF assms(1)] unfolding core_cfg_def assms(2) set_mbox_def by simp
qed

lemma core_ok_step:
  assumes c: "core_ok s k Q" and i: "i < length (mboxes_of s)"
    and s': "itc_inst s' = set_mbox i m s" "local_inst s' = local_inst s \<or> local_inst s' = put_slot j d s"
    and q: "local_queues s' k (Q(i := xo))"
    and m: "mbox_ok (ii_my_mbox_id_in_itccoord (itc_inst s)) i m xo"
  shows "core_ok s' k (Q(i := xo))"
proof -
  note n = core_cfg_set_mbox [OF core_okD(2) [OF c] s']
  have "mbox_ok (ii_my_mbox_id_in_itccoord (itc_inst s')) x (mboxes_of s' ! x) ((Q(i := xo)) x)"
    if "x < length (mboxes_of s')" for x
    using core_okD(4) [OF c, of x] that n(2,3) m i by (cases "x = i") simp_all
  moreover have "(Q(i := xo)) x = None" if "length (mboxes_of s') \<le> x" for x
    using c that n(2) i by (simp add: core_ok_def)
  ultimately show ?thesis using n(1) q by (simp add: core_ok_def)
qed

lemma mbox_at_of: "core_cfg s k \<Longrightarrow> i < length (mboxes_of s) \<Longrightarrow> mbox_at i s = Inr (mboxes_of s ! i)"
  using core_cfg_mboxes(1) [of s k] by simp

section \<open>Sending to a mailbox of the process\<close>

text \<open>A message as \<open>itc_send\<close> hands it to the transports.\<close>

definition stamp :: "itc_mbox_id \<Rightarrow> itc_mbox_id \<Rightarrow> bytes \<Rightarrow> bytes" where
  "stamp sender receiver bs = blit OFF_RECEIVER (enc32 receiver) (blit OFF_SENDER (enc32 sender) bs)"

lemma stamp_props:
  assumes "wf_msg bs"
  shows "wf_msg (stamp a b bs)" "inrx (stamp a b bs) = inrx bs" "length (stamp a b bs) = length bs"
    "fld OFF_SENDER (stamp a b bs) = a" "fld OFF_RECEIVER (stamp a b bs) = b"
    "fld OFF_SIZE (stamp a b bs) = fld OFF_SIZE bs" "fld OFF_MSGNO (stamp a b bs) = fld OFF_MSGNO bs"
  using wf_msg_length [OF assms] assms
  by (auto simp: stamp_def wf_msg_blit_header inrx_def fld_blit_other)

lemma stamp_ok:
  assumes "cells mh m = Some bs" and "wf_msg bs"
  shows "bindE (msg_put OFF_SENDER a (Some m) mh) (\<lambda>mh. bindE (msg_put OFF_RECEIVER b (Some m) mh) f) =
           f (msg_set m (stamp a b bs) mh)"
  using assms wf_msg_length [OF assms(2)] by (simp add: stamp_def msg_set_def)

lemma mutex_lock_free:
  assumes "core_cfg s k" and "j < length (mboxes_of s)" and "rxq_mtx (mboxes_of s ! j) = None"
  shows "mutex_lock t j s = Inr (s\<lparr>itc_inst := set_mbox j ((mboxes_of s ! j)\<lparr>rxq_mtx := Some t\<rparr>) s\<rparr>)"
  using assms core_cfg_mboxes(1) [OF assms(1)] by (simp add: mutex_lock_def set_mbox_def)

text \<open>The state with other mailboxes, so that a run of updates of mailboxes stays small.\<close>

definition with_mboxes :: "itc_mailbox list \<Rightarrow> proc \<Rightarrow> proc" where
  "with_mboxes ms s = s\<lparr>itc_inst := (itc_inst s)\<lparr>mboxes := BLive ms\<rparr>\<rparr>"

lemma with_mboxes_simps [simp]:
  "mboxes (itc_inst (with_mboxes ms s)) = BLive ms"
  "with_mboxes ms (with_mboxes ms' s) = with_mboxes ms s"
  "sys (with_mboxes ms s) = sys s" "rcs (with_mboxes ms s) = rcs s"
  "my_threadlocal_mbox (with_mboxes ms s) = my_threadlocal_mbox s"
  by (simp_all add: with_mboxes_def)

lemma mbox_upd_with:
  "mboxes (itc_inst s) = BLive ms \<Longrightarrow> i < length ms \<Longrightarrow> mbox_upd i f s = Inr (with_mboxes (ms[i := f (ms ! i)]) s)"
  by (simp add: with_mboxes_def)

lemma with_mboxes_same: "mboxes (itc_inst s) = BLive ms \<Longrightarrow> with_mboxes ms s = s"
  by (simp add: with_mboxes_def)

lemma mutex_with:
  assumes "mboxes (itc_inst s) = BLive ms" and "i < length ms"
  shows "rxq_mtx (ms ! i) = None \<Longrightarrow> mutex_lock t i s = Inr (with_mboxes (ms[i := (ms ! i)\<lparr>rxq_mtx := Some t\<rparr>]) s)"
    "rxq_mtx (ms ! i) = Some t \<Longrightarrow> mutex_unlock t i s = Inr (with_mboxes (ms[i := (ms ! i)\<lparr>rxq_mtx := None\<rparr>]) s)"
  using assms by (simp_all add: mutex_lock_def mutex_unlock_def with_mboxes_def)

lemmas mbox_step = mbox_upd_with mutex_with

text \<open>The last part of \<open>itc_send\<close>, on a mailbox whose mutex the caller holds.\<close>

lemma notify_receiver_ok:
  assumes ms: "mboxes (itc_inst s) = BLive ms" "j < length ms" and "p_rxq_info (ms ! j)"
    and "rxq_mtx (ms ! j) = Some t" and "sys s = []"
  shows "notify_receiver t j s = Inr (with_mboxes (ms[j := (ms ! j)
      \<lparr>evfd_count := (if is_fd_created (ms ! j) \<and> rxq_len (ms ! j) = 0 then Suc (evfd_count (ms ! j))
                      else evfd_count (ms ! j)), rxq_len := rxq_len (ms ! j) + 1, rxq_mtx := None\<rparr>]) s)"
proof (cases "is_fd_created (ms ! j) \<and> rxq_len (ms ! j) = 0")
  case True
  then show ?thesis using assms by (simp add: notify_receiver_def mbox_step del: mbox_upd_live)
next
  case False
  show ?thesis
    using assms unfolding if_not_P [OF False] by (simp add: notify_receiver_def mbox_step if_not_P [OF False] del: mbox_upd_live)
qed

lemma trans_send_local:
  assumes "rcs s t = BLive w" and "local_send t m to (s\<lparr>rcs := (rcs s)(t := BLive 0)\<rparr>) = Inr s'" and "rcs s' t = BLive 0"
  shows "trans_send trans_mechanisms t m to d s = Inr (True, s')"
  using assms by (simp add: trans_mechanisms_def local_trans_apis_def)

lemma mbox_ok_used:
  assumes "mbox_ok my i m (Some xs)"
  shows "mb_id m = my OR of_nat i" "rxq_mtx m = None" "mb_state m = MBOX_INUSE" "p_rxq_info m"
    "rxq_len m = int (length xs)" "is_fd_created m \<longrightarrow> (0 < evfd_count m \<longleftrightarrow> xs \<noteq> [])"
  using assms by (simp_all add: mbox_ok_def)

text \<open>What an operation of thread \<open>t\<close> on the queues of its process leaves unchanged.\<close>

definition same_rest :: "nat \<Rightarrow> proc \<Rightarrow> proc \<Rightarrow> bool" where
  "same_rest t s s' \<longleftrightarrow>
     my_threadlocal_mbox s' = my_threadlocal_mbox s \<and> sys s' = sys s \<and> mallocs s' = mallocs s \<and>
     qnodes s' = qnodes s \<and> sysvmq_inst s' = sysvmq_inst s \<and> lsock_inst s' = lsock_inst s \<and>
     thrman_inst s' = thrman_inst s \<and> mq_sent s' = mq_sent s \<and> alloc_ready s' = alloc_ready s \<and>
     max_mallocsize s' = max_mallocsize s \<and> (\<forall>u. u \<noteq> t \<longrightarrow> rcs s' u = rcs s u) \<and>
     (\<exists>w. rcs s' t = BLive w) \<and>
     itc_inst s' = (itc_inst s)\<lparr>mboxes := mboxes (itc_inst s')\<rparr> \<and>
     fresh (msgs s') = fresh (msgs s) \<and> malloc_results (msgs s') = malloc_results (msgs s) \<and>
     map mb_name (mboxes_of s') = map mb_name (mboxes_of s)"

lemma names_same:
  "j < length ms \<Longrightarrow> mb_name m = mb_name (ms ! j) \<Longrightarrow> map mb_name (ms[j := m]) = map mb_name ms"
  by (simp add: map_update list_update_same_conv)

lemma itc_send_local_spec:
  assumes c: "core_ok s k Q" and me: "my_threadlocal_mbox s t = Some me" "me < length (mboxes_of s)"
    and rc: "rcs s t = BLive w" and sys: "sys s = []" and mem: "can_alloc (litems s)"
    and to: "Q j = Some xs" "j \<noteq> me" "to = mb_id (mboxes_of s ! j)"
    and fr: "from = ITC_MY_MBOX_ID \<or> from = mb_id (mboxes_of s ! me)"
    and m: "cells (msgs s) m = Some bs" "wf_msg bs" "\<not> inrx bs"
  shows "\<exists>s'. itc_send_host t (Some m) to from s = Inr (True, s') \<and> core_ok s' k (Q(j \<mapsto> xs @ [m])) \<and>
           cells (msgs s') = (cells (msgs s))(m \<mapsto> set_inrx (stamp (mb_id (mboxes_of s ! me)) to bs)) \<and>
           same_rest t s s' \<and> malloc_results (litems s') = tl (malloc_results (litems s))"
proof -
  let ?ms = "mboxes_of s" and ?my = "ii_my_mbox_id_in_itccoord (itc_inst s)"
  let ?mj = "mboxes_of s ! j" and ?bs = "stamp (mb_id (mboxes_of s ! me)) to bs"
  note D = core_okD [OF c]
  note ms = core_cfg_mboxes [OF D(2)]
  have j: "j < length ?ms" by (rule D(5) [OF to(1)])
  have mj: "mbox_ok ?my j ?mj (Some xs)" using D(4) [OF j] to(1) by simp
  note mj' = mbox_ok_used [OF mj]
  have id_me: "mb_id (?ms ! me) = ?my OR of_nat me" using D(4) [OF me(2)] by (simp add: mbox_ok_def)
  have ids: "local_index to = j" "is_local to s" "find_mbox to s = Some j"
    using own_ids [OF D(2,3) j] to(3) mj'(1) by simp_all
  have not_me: "to \<noteq> mb_id (?ms ! me)"
    using own_ids(1) [OF D(2,3) me(2)] ids(1) to(2) unfolding id_me by blast
  have sp: "wf_msg ?bs" "\<not> inrx ?bs" using stamp_props [OF m(2)] m(3) by simp_all
  define ii where "ii = set_mbox j (?mj\<lparr>rxq_mtx := Some t\<rparr>) s"
  define s1 where "s1 = s\<lparr>msgs := msg_set m ?bs (msgs s), rcs := (rcs s)(t := BLive 0), itc_inst := ii\<rparr>"
  have fm: "find_mbox to (s\<lparr>msgs := a, rcs := b\<rparr>) = Some j" for a b
    using ids(3) by (simp add: find_mbox_def)
  have s1: "cells (msgs s1) m = Some ?bs" "litems s1 = litems s" "rcs s1 t = BLive 0"
      "rcs s1 = (rcs s)(t := BLive 0)" "local_inst s1 = local_inst s" "msgs s1 = msg_set m ?bs (msgs s)"
    by (simp_all add: s1_def)
  have lq: "local_queues s1 k Q"
    by (rule local_queues_unmarked [OF D(1) m(1,3) s1(5,2,6)])
  have il: "is_local to s1" using ids(2) by (simp add: is_local_def s1(5))
  have jk: "j < 2 ^ k" using j ms(2) by simp
  have mem1: "can_alloc (litems s1)" using mem by (simp only: s1(2))
  obtain s2 h' d' where s2: "local_send t m to s1 = Inr s2" "local_queues s2 k (Q(j \<mapsto> xs @ [m]))"
      "s2 = s1\<lparr>litems := h', msgs := msg_set m (set_inrx ?bs) (msgs s1), local_inst := put_slot j d' s1\<rparr>"
      "malloc_results h' = tl (malloc_results (litems s1))"
    using local_send_spec [OF lq il ids(1) jk to(1) s1(1) sp mem1 s1(3)] by blast
  define mj2 where "mj2 = ?mj\<lparr>evfd_count := (if is_fd_created ?mj \<and> rxq_len ?mj = 0 then Suc (evfd_count ?mj)
      else evfd_count ?mj), rxq_len := rxq_len ?mj + 1, rxq_mtx := None\<rparr>"
  define s' where "s' = s2\<lparr>itc_inst := set_mbox j mj2 s\<rparr>"
  have notify: "notify_receiver t j s2 = Inr s'"
    using notify_receiver_ok [of s2 "?ms[j := ?mj\<lparr>rxq_mtx := Some t\<rparr>]" j t] j mj'(2,4) s2(3) sys
    by (simp add: s'_def mj2_def s1_def ii_def set_mbox_def with_mboxes_def)
  have lock: "mutex_lock t j (s\<lparr>msgs := a, rcs := b\<rparr>) = Inr (s\<lparr>msgs := a, rcs := b, itc_inst := ii\<rparr>)" for a b
    using ms(1) j mj'(2) by (simp add: mutex_lock_def ii_def set_mbox_def)
  have "(rcs s)(t := BLive 0, t := BLive 0) = (rcs s)(t := BLive 0)" by simp
  then have same: "s1\<lparr>rcs := (rcs s1)(t := BLive 0)\<rparr> = s1" by (simp add: s1_def)
  have "rcs s2 t = BLive 0" using s2(3) by (simp add: s1_def)
  then have ts: "trans_send trans_mechanisms t m to (Some j) s1 = Inr (True, s2)"
    by (intro trans_send_local [OF s1(3)]) (simp_all only: same s2(1))
  have fr': "(from \<noteq> ITC_MY_MBOX_ID \<and> from \<noteq> mb_id (?ms ! me)) = False" using fr by blast
  have send: "itc_send_host t (Some m) to from s = Inr (True, s')"
    by (simp add: itc_send_host_def Let_def stamp_ok [OF m(1,2)] ms(1) me j not_me rc mj'(3) notify
          ts [unfolded s1_def] lock fm fr' del: OFF_SENDER_def OFF_RECEIVER_def ITC_MY_MBOX_ID_def)
  have "core_ok s' k (Q(j := Some (xs @ [m])))"
  proof (rule core_ok_step [OF c j])
    show "itc_inst s' = set_mbox j mj2 s" by (simp add: s'_def)
    show "local_inst s' = local_inst s \<or> local_inst s' = put_slot j d' s"
      using s2(3) by (simp add: s'_def s1_def put_slot_def slots_of_def)
    show "local_queues s' k (Q(j \<mapsto> xs @ [m]))"
      using s2(2) local_queues_cong [of s' s2] by (simp add: s'_def)
    show "mbox_ok ?my j mj2 (Some (xs @ [m]))"
      using mj by (auto simp: mbox_ok_def mj2_def)
  qed
  moreover have "mboxes_of s' = ?ms[j := mj2]" by (simp add: s'_def set_mbox_def mboxes_of_def)
  then have "same_rest t s s'"
    using s2(3) names_same [OF j, of mj2] by (simp add: same_rest_def s'_def s1_def set_mbox_def mj2_def)
  moreover have "cells (msgs s') = (cells (msgs s))(m \<mapsto> set_inrx ?bs)" "litems s' = h'"
    using s2(3) by (simp_all add: s'_def s1_def)
  moreover have "malloc_results (litems s') = tl (malloc_results (litems s))"
    using s2(3,4) by (simp add: s'_def s1_def)
  ultimately show ?thesis using send by blast
qed

section \<open>Receiving\<close>

lemma trans_receive_local:
  assumes "rcs s t = BLive w" and "local_receive t i (s\<lparr>rcs := (rcs s)(t := BLive 0)\<rparr>) = Inr (p, s')"
  shows "trans_receive trans_mechanisms t i s = Inr (p, s')"
  using assms by (simp add: trans_mechanisms_def local_trans_apis_def lsock_trans_apis_def sysvmq_trans_apis_def)

lemma rxq_with:
  assumes "mboxes (itc_inst s) = BLive ms" and "i < length ms" and "p_rxq_info (ms ! i)"
  shows "rxq_mtx (ms ! i) = None \<Longrightarrow> lock_rxq t i s = Inr (with_mboxes (ms[i := (ms ! i)\<lparr>rxq_mtx := Some t\<rparr>]) s)"
    "rxq_mtx (ms ! i) = Some t \<Longrightarrow> unlock_rxq t i s = Inr (with_mboxes (ms[i := (ms ! i)\<lparr>rxq_mtx := None\<rparr>]) s)"
    "rxq_mtx (ms ! i) = Some t \<Longrightarrow>
       leave_rx t i s = Inr (with_mboxes (ms[i := (ms ! i)\<lparr>is_in_rx := False, rxq_mtx := None\<rparr>]) s)"
  using assms by (simp_all add: lock_rxq_def unlock_rxq_def leave_rx_def mbox_step del: mbox_upd_live)

text \<open>The mailbox inside \<open>itc_receive\<close>, between taking and releasing the mutex.\<close>

abbreviation in_rx :: "nat \<Rightarrow> itc_mailbox \<Rightarrow> itc_mailbox" where
  "in_rx t m \<equiv> m\<lparr>rxq_mtx := Some t, is_in_rx := True\<rparr>"

lemma receive_attempt_with:
  assumes "mboxes (itc_inst s) = BLive ms" and "i < length ms" and "p_rxq_info (ms ! i)" and "rxq_mtx (ms ! i) = None"
  shows "receive_attempt t i s = trans_receive trans_mechanisms t i (with_mboxes (ms[i := in_rx t (ms ! i)]) s)"
  using assms by (simp add: receive_attempt_def rxq_with mbox_step del: mbox_upd_live)

lemma receive_got_with:
  assumes "mboxes (itc_inst s) = BLive ms" and "i < length ms" and "p_rxq_info (ms ! i)" and "rxq_mtx (ms ! i) = Some t"
    and "sys s = []" and "is_fd_created (ms ! i) \<Longrightarrow> 0 < evfd_count (ms ! i)"
  shows "receive_got t i p s = Inr (p, with_mboxes (ms[i := (ms ! i)
      \<lparr>rxq_len := rxq_len (ms ! i) - 1,
        evfd_count := (if is_fd_created (ms ! i) \<and> rxq_len (ms ! i) = 1 then 0 else evfd_count (ms ! i)),
        is_in_rx := False, rxq_mtx := None\<rparr>]) s)"
proof (cases "is_fd_created (ms ! i) \<and> rxq_len (ms ! i) = 1")
  case True
  then show ?thesis using assms by (simp add: receive_got_def rxq_with mbox_step del: mbox_upd_live)
next
  case False
  show ?thesis
    using assms False unfolding if_not_P [OF False]
    by (auto simp: receive_got_def rxq_with mbox_step simp del: mbox_upd_live)
qed

lemma itc_receive_open:
  assumes "mboxes (itc_inst s) = BLive ms" and "my_threadlocal_mbox s t = Some me" and "rcs s t = BLive w"
  shows "itc_receive t tmo evs s = receive_loop t me tmo evs (s\<lparr>rcs := (rcs s)(t := BLive 0)\<rparr>)"
  using assms by (simp add: itc_receive_def del: receive_loop.simps)

text \<open>The state in which \<open>itc_receive\<close> asks the transports.\<close>

lemma core_ok_in_rx:
  fixes t :: nat
  assumes c: "core_ok s k Q" and me: "Q me = Some xs"
  defines "s1 \<equiv> with_mboxes ((mboxes_of s)[me := in_rx t (mboxes_of s ! me)]) (s\<lparr>rcs := (rcs s)(t := BLive 0)\<rparr>)"
  shows "local_queues s1 k Q" "mbox_at me s1 = Inr (in_rx t (mboxes_of s ! me))"
    "is_local (mb_id (in_rx t (mboxes_of s ! me))) s1" "local_index (mb_id (in_rx t (mboxes_of s ! me))) = me"
    "me < 2 ^ k" "rcs s1 t = BLive 0"
proof -
  note D = core_okD [OF c]
  have j: "me < length (mboxes_of s)" by (rule D(5) [OF me])
  have id: "mb_id (mboxes_of s ! me) = ii_my_mbox_id_in_itccoord (itc_inst s) OR of_nat me"
    using D(4) [OF j] by (simp add: mbox_ok_def)
  show "local_queues s1 k Q"
    using D(1) local_queues_cong [of s1 s] by (simp add: s1_def with_mboxes_def)
  show "mbox_at me s1 = Inr (in_rx t (mboxes_of s ! me))" "rcs s1 t = BLive 0"
    using j by (simp_all add: s1_def)
  show "is_local (mb_id (in_rx t (mboxes_of s ! me))) s1" "local_index (mb_id (in_rx t (mboxes_of s ! me))) = me"
    using own_ids(1,2) [OF D(2,3) j] by (simp_all add: id s1_def is_local_def with_mboxes_def)
  show "me < 2 ^ k" using j core_cfg_mboxes(2) [OF D(2)] by simp
qed

lemma itc_receive_local_spec:
  assumes c: "core_ok s k Q" and me: "my_threadlocal_mbox s t = Some me" "Q me = Some (m # xs)"
    and rc: "rcs s t = BLive w" and sys: "sys s = []"
  shows "\<exists>s' bs. itc_receive t tmo evs s = Inr (Some m, s') \<and> core_ok s' k (Q(me \<mapsto> xs)) \<and>
           cells (msgs s) m = Some bs \<and> wf_msg bs \<and> inrx bs \<and>
           cells (msgs s') = (cells (msgs s))(m \<mapsto> clear_inrx bs) \<and>
           same_rest t s s' \<and> malloc_results (litems s') = malloc_results (litems s)"
proof -
  let ?ms = "mboxes_of s" and ?my = "ii_my_mbox_id_in_itccoord (itc_inst s)"
  let ?m = "mboxes_of s ! me"
  note D = core_okD [OF c]
  note ms = core_cfg_mboxes [OF D(2)]
  have j: "me < length ?ms" by (rule D(5) [OF me(2)])
  have mm: "mbox_ok ?my me ?m (Some (m # xs))" using D(4) [OF j] me(2) by simp
  note mm' = mbox_ok_used [OF mm]
  define s0 where "s0 = s\<lparr>rcs := (rcs s)(t := BLive 0)\<rparr>"
  define s1 where "s1 = with_mboxes (?ms[me := in_rx t ?m]) s0"
  note R = core_ok_in_rx(1,2,3,4,6) [OF c me(2), of t, folded s0_def, folded s1_def]
  note lt = core_ok_in_rx(5) [OF c me(2)]
  obtain s2 h' d' bs where s2: "local_receive t me s1 = Inr (Some m, s2)" "local_queues s2 k (Q(me \<mapsto> xs))"
      "cells (msgs s1) m = Some bs" "wf_msg bs" "inrx bs"
      "s2 = s1\<lparr>litems := h', msgs := msg_set m (clear_inrx bs) (msgs s1), local_inst := put_slot me d' s1\<rparr>"
      "malloc_results h' = malloc_results (litems s1)"
    using local_receive_spec [OF R(1,2,3,4) lt me(2) R(5)] by blast
  have same: "s1\<lparr>rcs := (rcs s1)(t := BLive 0)\<rparr> = s1"
    by (simp add: s1_def s0_def with_mboxes_def)
  have att: "receive_attempt t me s0 = Inr (Some m, s2)"
  proof -
    have "receive_attempt t me s0 = trans_receive trans_mechanisms t me s1"
      unfolding s1_def by (rule receive_attempt_with) (use ms(1) j mm'(2,4) in \<open>simp_all add: s0_def\<close>)
    also have "\<dots> = Inr (Some m, s2)"
      by (rule trans_receive_local [OF R(5)]) (simp only: same s2(1))
    finally show ?thesis .
  qed
  define m2 where "m2 = (in_rx t ?m)\<lparr>rxq_len := rxq_len ?m - 1,
      evfd_count := (if is_fd_created ?m \<and> rxq_len ?m = 1 then 0 else evfd_count ?m),
      is_in_rx := False, rxq_mtx := None\<rparr>"
  define s' where "s' = with_mboxes (?ms[me := m2]) s2"
  have ms2: "mboxes (itc_inst s2) = BLive (?ms[me := in_rx t ?m])" "sys s2 = []"
    using sys by (simp_all add: s2(6) s1_def s0_def)
  have got: "receive_got t me (Some m) s2 = Inr (Some m, s')"
    using receive_got_with [OF ms2(1), of me t "Some m"] ms2(2) j mm'(4,6) by (simp add: s'_def m2_def)
  have "itc_receive t tmo evs s = Inr (Some m, s')"
    using itc_receive_open [OF ms(1) me(1) rc, of tmo evs] att got unfolding s0_def [symmetric] by simp
  moreover have "core_ok s' k (Q(me := Some xs))"
  proof (rule core_ok_step [OF c j])
    show "itc_inst s' = set_mbox me m2 s"
      by (simp add: s'_def s2(6) s1_def s0_def with_mboxes_def set_mbox_def)
    show "local_inst s' = local_inst s \<or> local_inst s' = put_slot me d' s"
      by (simp add: s'_def s2(6) s1_def s0_def with_mboxes_def put_slot_def slots_of_def)
    show "local_queues s' k (Q(me \<mapsto> xs))"
      using s2(2) local_queues_cong [of s' s2] by (simp add: s'_def with_mboxes_def)
    show "mbox_ok ?my me m2 (Some xs)"
      using mm by (auto simp: mbox_ok_def m2_def)
  qed
  moreover have "mboxes_of s' = ?ms[me := m2]" by (simp add: s'_def with_mboxes_def mboxes_of_def)
  then have "same_rest t s s'"
    using names_same [OF j, of m2] by (simp add: same_rest_def s'_def s2(6) s1_def s0_def with_mboxes_def m2_def)
  moreover have "cells (msgs s') = (cells (msgs s))(m \<mapsto> clear_inrx bs)" "cells (msgs s) m = Some bs"
      "malloc_results (litems s') = malloc_results (litems s)"
    using s2(3,7) by (simp_all add: s'_def s2(6) s1_def s0_def with_mboxes_def)
  ultimately show ?thesis using s2(4,5) by blast
qed

lemma itc_receive_nothing_spec:
  assumes c: "core_ok s k Q" and me: "my_threadlocal_mbox s t = Some me" "Q me = Some []"
    and rc: "rcs s t = BLive w"
  shows "\<exists>s'. itc_receive t ITC_NO_WAIT evs s = Inr (None, s') \<and> core_ok s' k Q \<and> same_rest t s s' \<and>
           msgs s' = msgs s \<and> litems s' = litems s"
proof -
  let ?ms = "mboxes_of s" and ?my = "ii_my_mbox_id_in_itccoord (itc_inst s)"
  let ?m = "mboxes_of s ! me"
  note D = core_okD [OF c]
  note ms = core_cfg_mboxes [OF D(2)]
  have j: "me < length ?ms" by (rule D(5) [OF me(2)])
  have mm: "mbox_ok ?my me ?m (Some [])" using D(4) [OF j] me(2) by simp
  note mm' = mbox_ok_used [OF mm]
  define s0 where "s0 = s\<lparr>rcs := (rcs s)(t := BLive 0)\<rparr>"
  define s1 where "s1 = with_mboxes (?ms[me := in_rx t ?m]) s0"
  note R = core_ok_in_rx(1,2,3,4,6) [OF c me(2), of t, folded s0_def, folded s1_def]
  note lt = core_ok_in_rx(5) [OF c me(2)]
  define s2 where "s2 = s1\<lparr>rcs := (rcs s1)(t := BLive ITC_QUEUE_EMPTY)\<rparr>"
  have same: "s1\<lparr>rcs := (rcs s1)(t := BLive 0)\<rparr> = s1"
    by (simp add: s1_def s0_def with_mboxes_def)
  have att: "receive_attempt t me s0 = Inr (None, s2)"
  proof -
    have "receive_attempt t me s0 = trans_receive trans_mechanisms t me s1"
      unfolding s1_def by (rule receive_attempt_with) (use ms(1) j mm'(2,4) in \<open>simp_all add: s0_def\<close>)
    also have "\<dots> = Inr (None, s2)"
      by (rule trans_receive_local [OF R(5)])
        (simp only: same s2_def local_receive_empty [OF R(1,2,3,4) lt me(2) R(5)])
    finally show ?thesis .
  qed
  define m2 where "m2 = (in_rx t ?m)\<lparr>is_in_rx := False, rxq_mtx := None\<rparr>"
  define s' where "s' = with_mboxes (?ms[me := m2]) s2"
  have ms2: "mboxes (itc_inst s2) = BLive (?ms[me := in_rx t ?m])"
    by (simp add: s2_def s1_def s0_def)
  have leave: "leave_rx t me s2 = Inr s'"
    using rxq_with(3) [OF ms2, of me t] j mm'(4) by (simp add: s'_def m2_def)
  have "itc_receive t ITC_NO_WAIT evs s = Inr (None, s')"
    using itc_receive_open [OF ms(1) me(1) rc, of ITC_NO_WAIT evs] att leave unfolding s0_def [symmetric] by simp
  moreover have "core_ok s' k (Q(me := Some []))"
  proof (rule core_ok_step [OF c j])
    show "itc_inst s' = set_mbox me m2 s"
      by (simp add: s'_def s2_def s1_def s0_def with_mboxes_def set_mbox_def)
    show "local_inst s' = local_inst s \<or> local_inst s' = put_slot me undefined s"
      by (simp add: s'_def s2_def s1_def s0_def with_mboxes_def)
    show "local_queues s' k (Q(me \<mapsto> []))"
      using D(1) local_queues_cong [of s' s] me(2)
      by (simp add: s'_def s2_def s1_def s0_def with_mboxes_def fun_upd_idem)
    show "mbox_ok ?my me m2 (Some [])"
      using mm by (auto simp: mbox_ok_def m2_def)
  qed
  moreover have "Q(me := Some []) = Q" using me(2) by (simp add: fun_upd_idem)
  moreover have "mboxes_of s' = ?ms[me := m2]" by (simp add: s'_def with_mboxes_def mboxes_of_def)
  then have "same_rest t s s'" "msgs s' = msgs s" "litems s' = litems s"
    using names_same [OF j, of m2]
    by (simp_all add: same_rest_def s'_def s2_def s1_def s0_def with_mboxes_def m2_def)
  ultimately show ?thesis by metis
qed

end
