(* ===== verification/Itc_Mailbox_Spec.thy ===== *)
theory Itc_Mailbox_Spec
  imports Itc_Prelude
begin

text \<open>
  What a program may expect of mailboxes: a table of message lists, where an actor sends to the
  mailbox of another one and takes the oldest message of its own. The contract is a locale; that
  every run of operations then behaves like the table, and that each mailbox is a first-in
  first-out channel, is proved from the contract alone.
\<close>

section \<open>The abstract mailboxes\<close>

datatype 'm action = Send nat nat 'm | Receive nat

datatype 'm answer = Sent bool | Got "'m option"

text \<open>
  An actor without a mailbox cannot send or receive, nobody can send to itself, and a mailbox that
  does not exist takes no message; otherwise sending appends and receiving takes from the front.
\<close>

fun mb_step ::
  "(nat \<Rightarrow> nat option) \<Rightarrow> 'm action \<Rightarrow> (nat \<Rightarrow> 'm list option) \<Rightarrow> 'm answer \<times> (nat \<Rightarrow> 'm list option)" where
  "mb_step own (Send a k m) Q =
     (case Q k of
        None \<Rightarrow> (Sent False, Q)
      | Some xs \<Rightarrow> if own a = None \<or> own a = Some k then (Sent False, Q) else (Sent True, Q(k \<mapsto> xs @ [m])))"
| "mb_step own (Receive a) Q =
     (case own a of
        None \<Rightarrow> (Got None, Q)
      | Some k \<Rightarrow> (case Q k of Some (x # xs) \<Rightarrow> (Got (Some x), Q(k \<mapsto> xs)) | _ \<Rightarrow> (Got None, Q)))"

fun mb_run ::
  "(nat \<Rightarrow> nat option) \<Rightarrow> 'm action list \<Rightarrow> (nat \<Rightarrow> 'm list option) \<Rightarrow>
     'm answer list \<times> (nat \<Rightarrow> 'm list option)" where
  "mb_run own [] Q = ([], Q)"
| "mb_run own (a # as) Q =
     (case mb_step own a Q of (r, Q) \<Rightarrow> case mb_run own as Q of (rs, Q) \<Rightarrow> (r # rs, Q))"

text \<open>
  Which runs a careful client may ask for: \<open>S\<close> are the messages it holds. A message that was sent
  is gone, one that was received may be sent again.
\<close>

fun held_after :: "'m action \<Rightarrow> 'm answer \<Rightarrow> 'm set \<Rightarrow> 'm set" where
  "held_after (Send a k m) (Sent True) S = S - {m}"
| "held_after (Receive a) (Got (Some m)) S = insert m S"
| "held_after _ _ S = S"

fun mb_legal ::
  "(nat \<Rightarrow> nat option) \<Rightarrow> (nat \<Rightarrow> bool) \<Rightarrow> 'm action list \<Rightarrow> (nat \<Rightarrow> 'm list option) \<Rightarrow> 'm set \<Rightarrow> bool" where
  "mb_legal own valid [] Q S = True"
| "mb_legal own valid (a # as) Q S =
     ((case a of Send _ k m \<Rightarrow> valid k \<and> m \<in> S | Receive _ \<Rightarrow> True) \<and>
      (case mb_step own a Q of (r, Q) \<Rightarrow> mb_legal own valid as Q (held_after a r S)))"

section \<open>Each mailbox is a channel\<close>

text \<open>The messages that a run put into mailbox \<open>k\<close>, and those that were taken out of it.\<close>

fun put_into :: "nat \<Rightarrow> 'm action list \<Rightarrow> 'm answer list \<Rightarrow> 'm list" where
  "put_into k (Send a j m # as) (Sent True # rs) = (if j = k then m # put_into k as rs else put_into k as rs)"
| "put_into k (a # as) (r # rs) = put_into k as rs"
| "put_into k _ _ = []"

fun taken_from :: "(nat \<Rightarrow> nat option) \<Rightarrow> nat \<Rightarrow> 'm action list \<Rightarrow> 'm answer list \<Rightarrow> 'm list" where
  "taken_from own k (Receive a # as) (Got (Some m) # rs) =
     (if own a = Some k then m # taken_from own k as rs else taken_from own k as rs)"
| "taken_from own k (a # as) (r # rs) = taken_from own k as rs"
| "taken_from own k _ _ = []"

lemma channel_step:
  assumes "Q k = Some xs" and "mb_step own a Q = (r, Q1)"
  shows "\<exists>ys. Q1 k = Some ys \<and> xs @ put_into k [a] [r] = taken_from own k [a] [r] @ ys"
proof (cases a)
  case (Send b j m)
  then show ?thesis using assms by (auto split: option.splits if_splits)
next
  case (Receive b)
  then show ?thesis using assms by (auto split: option.splits list.splits if_splits)
qed

lemma channel_Cons:
  "put_into k (a # as) (r # rs) = put_into k [a] [r] @ put_into k as rs"
  "taken_from own k (a # as) (r # rs) = taken_from own k [a] [r] @ taken_from own k as rs"
proof -
  show "put_into k (a # as) (r # rs) = put_into k [a] [r] @ put_into k as rs"
    by (cases "(k, a # as, r # rs)" rule: put_into.cases) simp_all
  show "taken_from own k (a # as) (r # rs) = taken_from own k [a] [r] @ taken_from own k as rs"
    by (cases "(own, k, a # as, r # rs)" rule: taken_from.cases) simp_all
qed

lemma mailbox_is_channel:
  assumes "Q k = Some xs" and "mb_run own as Q = (rs, Q')"
  shows "\<exists>ys. Q' k = Some ys \<and> xs @ put_into k as rs = taken_from own k as rs @ ys"
  using assms
proof (induction as arbitrary: Q xs rs)
  case Nil
  then show ?case by simp
next
  case (Cons a as)
  obtain r Q1 where st: "mb_step own a Q = (r, Q1)" by (rule prod.exhaust)
  obtain rs1 Q2 where run1: "mb_run own as Q1 = (rs1, Q2)" by (rule prod.exhaust)
  then have run: "mb_run own as Q1 = (rs1, Q')" "rs = r # rs1"
    using Cons.prems(2) by (simp_all add: st)
  obtain zs where zs: "Q1 k = Some zs" "xs @ put_into k [a] [r] = taken_from own k [a] [r] @ zs"
    using channel_step [OF Cons.prems(1) st] by blast
  obtain ys where ys: "Q' k = Some ys" "zs @ put_into k as rs1 = taken_from own k as rs1 @ ys"
    using Cons.IH [OF zs(1) run(1)] by blast
  have "xs @ put_into k (a # as) rs = (xs @ put_into k [a] [r]) @ put_into k as rs1"
    by (simp only: run(2) channel_Cons(1) [of k a as r rs1] append_assoc)
  also have "\<dots> = taken_from own k (a # as) rs @ ys"
    unfolding zs(2) by (simp only: append_assoc ys(2) run(2) channel_Cons(2) [of own k a as r rs1])
  finally show ?case using ys(1) by blast
qed

section \<open>The contract\<close>

text \<open>
  \<open>rep s Q\<close>: the state represents the mailboxes \<open>Q\<close>; \<open>own\<close>: the mailbox of an actor; \<open>valid\<close>: the
  numbers that can be addressed; \<open>held s m\<close>: \<open>m\<close> is a message that is in no mailbox.
\<close>

fun run_actions ::
  "(nat \<Rightarrow> nat \<Rightarrow> 'm \<Rightarrow> 's \<Rightarrow> (bool \<times> 's) outcome) \<Rightarrow> (nat \<Rightarrow> 's \<Rightarrow> ('m option \<times> 's) outcome) \<Rightarrow>
     'm action list \<Rightarrow> 's \<Rightarrow> ('m answer list \<times> 's) outcome" where
  "run_actions send recv [] s = Inr ([], s)"
| "run_actions send recv (Send a k m # as) s =
     bindE (send a k m s) (\<lambda>(b, s).
     bindE (run_actions send recv as s) (\<lambda>(rs, s). Inr (Sent b # rs, s)))"
| "run_actions send recv (Receive a # as) s =
     bindE (recv a s) (\<lambda>(m, s).
     bindE (run_actions send recv as s) (\<lambda>(rs, s). Inr (Got m # rs, s)))"

locale mailboxes =
  fixes send :: "nat \<Rightarrow> nat \<Rightarrow> 'm \<Rightarrow> 's \<Rightarrow> (bool \<times> 's) outcome"
    and recv :: "nat \<Rightarrow> 's \<Rightarrow> ('m option \<times> 's) outcome"
    and rep :: "'s \<Rightarrow> (nat \<Rightarrow> 'm list option) \<Rightarrow> bool"
    and own :: "'s \<Rightarrow> nat \<Rightarrow> nat option"
    and valid :: "'s \<Rightarrow> nat \<Rightarrow> bool"
    and held :: "'s \<Rightarrow> 'm \<Rightarrow> bool"
  assumes send_law: "rep s Q \<Longrightarrow> own s a = Some i \<Longrightarrow> i \<noteq> k \<Longrightarrow> Q k = Some xs \<Longrightarrow> held s m \<Longrightarrow>
      \<exists>s'. send a k m s = Inr (True, s') \<and> rep s' (Q(k \<mapsto> xs @ [m])) \<and> own s' = own s \<and>
           valid s' = valid s \<and> (\<forall>x. x \<noteq> m \<longrightarrow> held s x \<longrightarrow> held s' x)"
    and send_refused_law: "rep s Q \<Longrightarrow> own s a = None \<or> own s a = Some k \<or> Q k = None \<Longrightarrow>
      valid s k \<Longrightarrow> held s m \<Longrightarrow>
      \<exists>s'. send a k m s = Inr (False, s') \<and> rep s' Q \<and> own s' = own s \<and>
           valid s' = valid s \<and> (\<forall>x. held s x \<longrightarrow> held s' x)"
    and recv_law: "rep s Q \<Longrightarrow> own s a = Some k \<Longrightarrow> Q k = Some (m # xs) \<Longrightarrow>
      \<exists>s'. recv a s = Inr (Some m, s') \<and> rep s' (Q(k \<mapsto> xs)) \<and> own s' = own s \<and>
           valid s' = valid s \<and> held s' m \<and> (\<forall>x. held s x \<longrightarrow> held s' x)"
    and recv_nothing_law: "rep s Q \<Longrightarrow> own s a = None \<or> (own s a = Some k \<and> Q k = Some []) \<Longrightarrow>
      \<exists>s'. recv a s = Inr (None, s') \<and> rep s' Q \<and> own s' = own s \<and>
           valid s' = valid s \<and> (\<forall>x. held s x \<longrightarrow> held s' x)"
    and own_law: "rep s Q \<Longrightarrow> own s a = Some k \<Longrightarrow> \<exists>xs. Q k = Some xs"
begin

lemma send_step:
  assumes "rep s Q" and "valid s k" and "m \<in> S" and "\<forall>x \<in> S. held s x"
    and "mb_step (own s) (Send a k m) Q = (r, Q1)"
  shows "\<exists>b s'. send a k m s = Inr (b, s') \<and> r = Sent b \<and> rep s' Q1 \<and> own s' = own s \<and> valid s' = valid s \<and>
           (\<forall>x \<in> held_after (Send a k m) r S. held s' x)"
proof (cases "own s a = None \<or> own s a = Some k \<or> Q k = None")
  case True
  then have r: "r = Sent False" "Q1 = Q" using assms(5) by (auto split: option.splits)
  obtain s' where "send a k m s = Inr (False, s')" "rep s' Q" "own s' = own s" "valid s' = valid s"
      "\<forall>x. held s x \<longrightarrow> held s' x"
    using send_refused_law [OF assms(1) True assms(2)] assms(3,4) by blast
  then show ?thesis using r assms(4) by auto
next
  case False
  then obtain i xs where i: "own s a = Some i" "i \<noteq> k" "Q k = Some xs" by auto
  have r: "r = Sent True" "Q1 = Q(k \<mapsto> xs @ [m])" using assms(5) i by simp_all
  obtain s' where "send a k m s = Inr (True, s')" "rep s' (Q(k \<mapsto> xs @ [m]))" "own s' = own s"
      "valid s' = valid s" "\<forall>x. x \<noteq> m \<longrightarrow> held s x \<longrightarrow> held s' x"
    using send_law [OF assms(1) i] assms(3,4) by blast
  then show ?thesis using r assms(4) by auto
qed

lemma recv_step:
  assumes "rep s Q" and "\<forall>x \<in> S. held s x" and "mb_step (own s) (Receive a) Q = (r, Q1)"
  shows "\<exists>m s'. recv a s = Inr (m, s') \<and> r = Got m \<and> rep s' Q1 \<and> own s' = own s \<and> valid s' = valid s \<and>
           (\<forall>x \<in> held_after (Receive a) r S. held s' x)"
proof -
  have idle: ?thesis if n: "own s a = None \<or> (own s a = Some k \<and> Q k = Some [])" for k
  proof -
    obtain s' where "recv a s = Inr (None, s')" "rep s' Q" "own s' = own s" "valid s' = valid s"
        "\<forall>x. held s x \<longrightarrow> held s' x"
      using recv_nothing_law [OF assms(1) n] by blast
    moreover have "r = Got None" "Q1 = Q" using assms(3) n by auto
    ultimately show ?thesis using assms(2) by simp
  qed
  show ?thesis
  proof (cases "own s a")
    case None
    then have "own s a = None \<or> (own s a = Some 0 \<and> Q 0 = Some [])" by simp
    then show ?thesis by (rule idle)
  next
    case (Some k)
    then obtain xs where xs: "Q k = Some xs" using own_law [OF assms(1)] by blast
    show ?thesis
    proof (cases xs)
      case Nil
      then show ?thesis using idle [of k] Some xs by simp
    next
      case (Cons m ys)
      then obtain s' where "recv a s = Inr (Some m, s')" "rep s' (Q(k \<mapsto> ys))" "own s' = own s"
          "valid s' = valid s" "held s' m" "\<forall>x. held s x \<longrightarrow> held s' x"
        using recv_law [OF assms(1) Some] xs by blast
      moreover have "r = Got (Some m)" "Q1 = Q(k \<mapsto> ys)" using assms(3) Some xs Cons by simp_all
      ultimately show ?thesis using assms(2) by simp
    qed
  qed
qed

lemma run_refines:
  assumes "rep s Q" and "mb_legal (own s) (valid s) as Q S" and "\<forall>x \<in> S. held s x"
  shows "\<exists>s'. run_actions send recv as s = Inr (fst (mb_run (own s) as Q), s') \<and>
              rep s' (snd (mb_run (own s) as Q)) \<and> own s' = own s"
  using assms
proof (induction as arbitrary: s Q S)
  case Nil
  then show ?case by auto
next
  case (Cons a as)
  obtain r Q1 where st: "mb_step (own s) a Q = (r, Q1)" by (rule prod.exhaust)
  have leg: "mb_legal (own s) (valid s) as Q1 (held_after a r S)" using Cons.prems(2) st by simp
  show ?case
  proof (cases a)
    case (Send b k m)
    then obtain c s1 where s1: "send b k m s = Inr (c, s1)" "r = Sent c" "rep s1 Q1" "own s1 = own s"
        "valid s1 = valid s" "\<forall>x \<in> held_after a r S. held s1 x"
      using send_step [OF Cons.prems(1) _ _ Cons.prems(3), of k m b r Q1] Cons.prems(2) st by auto
    then show ?thesis
      using Cons.IH [OF s1(3), of "held_after a r S"] leg st Send by (auto simp: case_prod_beta)
  next
    case (Receive b)
    then obtain c s1 where s1: "recv b s = Inr (c, s1)" "r = Got c" "rep s1 Q1" "own s1 = own s"
        "valid s1 = valid s" "\<forall>x \<in> held_after a r S. held s1 x"
      using recv_step [OF Cons.prems(1,3), of b r Q1] st by auto
    then show ?thesis
      using Cons.IH [OF s1(3), of "held_after a r S"] leg st Receive by (auto simp: case_prod_beta)
  qed
qed

end

end
