(* ===== verification/Itc_Mailboxes.thy ===== *)
theory Itc_Mailboxes
  imports Itc_Core_Inv Itc_Mailbox_Spec
begin

text \<open>
  The mailboxes that the threads of one process see: \<open>itc_send\<close> and \<open>itc_receive\<close> implement the
  contract of \<open>Itc_Mailbox_Spec\<close>.
\<close>

unbundle bit_operations_syntax

section \<open>The state between two operations\<close>

text \<open>
  Every thread that has a mailbox has a result code and its mailbox is in use; no system call and
  no allocation fails.
\<close>

definition mbx_rep :: "nat \<Rightarrow> proc \<Rightarrow> (nat \<Rightarrow> nat list option) \<Rightarrow> bool" where
  "mbx_rep k s Q \<longleftrightarrow> core_ok s k Q \<and> sys s = [] \<and> malloc_results (litems s) = [] \<and>
     (\<forall>t i. my_threadlocal_mbox s t = Some i \<longrightarrow> (\<exists>w. rcs s t = BLive w) \<and> (\<exists>xs. Q i = Some xs))"

definition mbx_valid :: "proc \<Rightarrow> nat \<Rightarrow> bool" where
  "mbx_valid s j \<longleftrightarrow> j < unat (nr_mboxes (itc_inst s))"

definition mbx_held :: "proc \<Rightarrow> nat \<Rightarrow> bool" where
  "mbx_held s m \<longleftrightarrow> (\<exists>bs. cells (msgs s) m = Some bs \<and> wf_msg bs \<and> \<not> inrx bs)"

text \<open>Sending to mailbox \<open>j\<close> of the same process, and looking for a message without waiting.\<close>

definition mbx_id :: "nat \<Rightarrow> proc \<Rightarrow> itc_mbox_id" where
  "mbx_id j s = ii_my_mbox_id_in_itccoord (itc_inst s) OR of_nat j"

definition mbx_send :: "nat \<Rightarrow> nat \<Rightarrow> nat \<Rightarrow> proc \<Rightarrow> (bool \<times> proc) outcome" where
  "mbx_send t j m s = itc_send t (Some m) (mbx_id j s) ITC_MY_MBOX_ID None [] s"

definition mbx_recv :: "nat \<Rightarrow> proc \<Rightarrow> (ptr \<times> proc) outcome" where
  "mbx_recv t s = itc_receive t ITC_NO_WAIT [] s"

lemma mbx_repD:
  assumes "mbx_rep k s Q"
  shows "core_ok s k Q" "sys s = []" "malloc_results (litems s) = []"
    "\<And>t i. my_threadlocal_mbox s t = Some i \<Longrightarrow> \<exists>w. rcs s t = BLive w"
    "\<And>t i. my_threadlocal_mbox s t = Some i \<Longrightarrow> \<exists>xs. Q i = Some xs"
  using assms unfolding mbx_rep_def by blast+

lemma nr_mboxes_length: "core_ok s k Q \<Longrightarrow> unat (nr_mboxes (itc_inst s)) = length (mboxes_of s)"
proof -
  assume c: "core_ok s k Q"
  note ms = core_cfg_mboxes [OF core_okD(2) [OF c]]
  have "(2::nat) ^ k \<le> 2 ^ 16" using core_okD(3) [OF c] by (intro power_increasing) auto
  then show ?thesis using ms(2,3) by (simp add: unat_of_nat_small)
qed

lemma mbox_id_at:
  assumes "core_ok s k Q" and "j < length (mboxes_of s)"
  shows "mb_id (mboxes_of s ! j) = mbx_id j s"
  using core_okD(4) [OF assms] by (simp add: mbox_ok_def mbx_id_def)

lemma mbx_rep_step:
  assumes r: "mbx_rep k s Q" and c: "core_ok s' k Q'" and same: "same_rest t s s'"
    and "malloc_results (litems s') = []" and "\<And>i xs. Q i = Some xs \<Longrightarrow> \<exists>ys. Q' i = Some ys"
  shows "mbx_rep k s' Q'" "my_threadlocal_mbox s' = my_threadlocal_mbox s" "mbx_valid s' = mbx_valid s"
proof -
  have 1: "my_threadlocal_mbox s' = my_threadlocal_mbox s" "sys s' = sys s" "\<And>u. u \<noteq> t \<Longrightarrow> rcs s' u = rcs s u"
      "\<exists>w. rcs s' t = BLive w" "itc_inst s' = (itc_inst s)\<lparr>mboxes := mboxes (itc_inst s')\<rparr>"
    using same by (simp_all add: same_rest_def)
  show "my_threadlocal_mbox s' = my_threadlocal_mbox s" by (rule 1)
  have "nr_mboxes (itc_inst s') = nr_mboxes (itc_inst s)" by (subst 1(5)) simp
  then show "mbx_valid s' = mbx_valid s" by (simp add: mbx_valid_def fun_eq_iff)
  have "\<exists>w. rcs s' u = BLive w" if "my_threadlocal_mbox s u = Some i" for u i
    using mbx_repD(4) [OF r that] 1(3,4) by (cases "u = t") simp_all
  then show "mbx_rep k s' Q'"
    using c assms(4) 1(1,2) mbx_repD(2,5) [OF r] assms(5) unfolding mbx_rep_def by metis
qed

lemma mbx_held_upd:
  assumes "cells (msgs s') = (cells (msgs s))(m \<mapsto> bs)"
  shows "x \<noteq> m \<Longrightarrow> mbx_held s' x = mbx_held s x" "mbx_held s' m \<longleftrightarrow> wf_msg bs \<and> \<not> inrx bs"
  using assms by (simp_all add: mbx_held_def)

text \<open>What an operation on the queues leaves alone, seen from the rest of the process.\<close>

definition keeps :: "nat \<Rightarrow> proc \<Rightarrow> proc \<Rightarrow> bool" where
  "keeps t s s' \<longleftrightarrow> s' = s \<or> (same_rest t s s' \<and> (heap_ok (msgs s) \<longrightarrow> heap_ok (msgs s')))"

lemma keeps_refl [simp]: "keeps t s s"
  by (simp add: keeps_def)

lemma keepsI:
  assumes "same_rest t s s'" and "cells (msgs s) m = Some bs" and "cells (msgs s') = (cells (msgs s))(m \<mapsto> bs')"
  shows "keeps t s s'"
proof -
  have "m < fresh (msgs s)" if "heap_ok (msgs s)" using heap_ok_less [OF that assms(2)] .
  then have "heap_ok (msgs s')" if "heap_ok (msgs s)"
    using that assms(1,3) by (auto simp: heap_ok_def same_rest_def)
  then show ?thesis using assms(1) by (simp add: keeps_def)
qed

section \<open>The laws of the contract\<close>

lemma mbx_send_law:
  assumes r: "mbx_rep k s Q" and a: "my_threadlocal_mbox s a = Some i" "i \<noteq> j" "Q j = Some xs" and "mbx_held s m"
  shows "\<exists>s'. mbx_send a j m s = Inr (True, s') \<and> mbx_rep k s' (Q(j \<mapsto> xs @ [m])) \<and>
           my_threadlocal_mbox s' = my_threadlocal_mbox s \<and> mbx_valid s' = mbx_valid s \<and>
           (\<forall>x. x \<noteq> m \<longrightarrow> mbx_held s x \<longrightarrow> mbx_held s' x) \<and> keeps a s s'"
proof -
  note R = mbx_repD [OF r]
  obtain bs where m: "cells (msgs s) m = Some bs" "wf_msg bs" "\<not> inrx bs" using assms(5) by (auto simp: mbx_held_def)
  obtain w where w: "rcs s a = BLive w" using R(4) a(1) by blast
  obtain ys where "Q i = Some ys" using R(5) a(1) by blast
  then have i: "i < length (mboxes_of s)" by (rule core_okD(5) [OF R(1)])
  have id: "mbx_id j s = mb_id (mboxes_of s ! j)"
    using mbox_id_at [OF R(1) core_okD(5) [OF R(1) a(3)]] by simp
  have mem: "can_alloc (litems s)" using R(3) by (simp add: can_alloc_def)
  have ne: "j \<noteq> i" using a(2) by simp
  obtain s' where s': "itc_send_host a (Some m) (mbx_id j s) ITC_MY_MBOX_ID s = Inr (True, s')"
      "core_ok s' k (Q(j \<mapsto> xs @ [m]))"
      "cells (msgs s') = (cells (msgs s))(m \<mapsto> set_inrx (stamp (mb_id (mboxes_of s ! i)) (mbx_id j s) bs))"
      "same_rest a s s'" "malloc_results (litems s') = tl (malloc_results (litems s))"
    using itc_send_local_spec [OF R(1) a(1) i w R(2) mem a(3) ne id disjI1 [OF refl] m] by blast
  have "mbx_rep k s' (Q(j \<mapsto> xs @ [m]))" "my_threadlocal_mbox s' = my_threadlocal_mbox s" "mbx_valid s' = mbx_valid s"
    by (rule mbx_rep_step [OF r s'(2,4)]; use s'(5) R(3) in simp)+
  then show ?thesis
    using s'(1) mbx_held_upd [OF s'(3)] keepsI [OF s'(4) m(1) s'(3)] by (simp add: mbx_send_def itc_send_def)
qed

text \<open>A call that only prepared the message and the result code.\<close>

lemma core_ok_prepared:
  assumes "core_ok s k Q" and "cells (msgs s) m = Some bs" and "\<not> inrx bs"
  shows "core_ok (s\<lparr>msgs := msg_set m bs' (msgs s), rcs := rr\<rparr>) k Q"
proof -
  let ?s = "s\<lparr>msgs := msg_set m bs' (msgs s), rcs := rr\<rparr>"
  have "local_queues ?s k Q"
    by (rule local_queues_unmarked [OF core_okD(1) [OF assms(1)] assms(2,3)]) simp_all
  then show ?thesis using assms(1) core_okD(1) [OF assms(1)] core_ok_cong [of ?s s k Q] by simp
qed

lemma itc_send_unused:
  assumes c: "core_ok s k Q" and me: "my_threadlocal_mbox s t = Some i" "i < length (mboxes_of s)" "i \<noteq> j"
    and rc: "rcs s t = BLive w" and j: "j < length (mboxes_of s)" "Q j = None"
    and m: "cells (msgs s) m = Some bs" "wf_msg bs"
  shows "itc_send_host t (Some m) (mbx_id j s) ITC_MY_MBOX_ID s =
           Inr (False, s\<lparr>msgs := msg_set m (stamp (mbx_id i s) (mbx_id j s) bs) (msgs s), rcs := (rcs s)(t := BLive 0)\<rparr>)"
proof -
  note D = core_okD [OF c]
  note ms = core_cfg_mboxes(1) [OF D(2)]
  have ids: "local_index (mbx_id j s) = j" "find_mbox (mbx_id j s) s = Some j"
    using own_ids [OF D(2,3) j(1)] by (simp_all add: mbx_id_def)
  have ne: "mbx_id j s \<noteq> mbx_id i s"
    using own_ids(1) [OF D(2,3) me(2)] ids(1) me(3) unfolding mbx_id_def by metis
  have fm: "find_mbox (mbx_id j s) (s\<lparr>msgs := a, rcs := b\<rparr>) = Some j" for a b
    using ids(2) by (simp add: find_mbox_def)
  have st: "mb_state (mboxes_of s ! j) = MBOX_UNUSED" using D(4) [OF j(1)] j(2) by (simp add: mbox_ok_def)
  show ?thesis
    by (simp add: itc_send_host_def Let_def ms me j ne rc st fm stamp_ok [OF m] mbox_id_at [OF c me(2)]
        del: OFF_SENDER_def OFF_RECEIVER_def ITC_MY_MBOX_ID_def)
qed

lemma mbx_send_refused_law:
  assumes r: "mbx_rep k s Q" and a: "my_threadlocal_mbox s a = None \<or> my_threadlocal_mbox s a = Some j \<or> Q j = None"
    and v: "mbx_valid s j" and h: "mbx_held s m"
  shows "\<exists>s'. mbx_send a j m s = Inr (False, s') \<and> mbx_rep k s' Q \<and>
           my_threadlocal_mbox s' = my_threadlocal_mbox s \<and> mbx_valid s' = mbx_valid s \<and>
           (\<forall>x. mbx_held s x \<longrightarrow> mbx_held s' x) \<and> keeps a s s'"
proof -
  note R = mbx_repD [OF r]
  note ms = core_cfg_mboxes(1) [OF core_okD(2) [OF R(1)]]
  obtain bs where m: "cells (msgs s) m = Some bs" "wf_msg bs" "\<not> inrx bs" using h by (auto simp: mbx_held_def)
  have j: "j < length (mboxes_of s)" using v nr_mboxes_length [OF R(1)] by (simp add: mbx_valid_def)
  show ?thesis
  proof (cases "my_threadlocal_mbox s a")
    case None
    then have "mbx_send a j m s = Inr (False, s)" using ms by (simp add: mbx_send_def itc_send_def itc_send_host_def)
    then show ?thesis using r by simp
  next
    case (Some i)
    have i: "i < length (mboxes_of s)" using R(5) [OF Some] core_okD(5) [OF R(1)] by blast
    obtain w where w: "rcs s a = BLive w" using R(4) [OF Some] by blast
    show ?thesis
    proof (cases "i = j")
      case True
      then have "mbx_send a j m s = Inr (False, s)"
        using ms Some i mbox_id_at [OF R(1) i] by (simp add: mbx_send_def itc_send_def itc_send_host_def)
      then show ?thesis using r by simp
    next
      case False
      then have "Q j = None" using a Some by simp
      then have e: "mbx_send a j m s = Inr (False, s\<lparr>msgs := msg_set m (stamp (mbx_id i s) (mbx_id j s) bs) (msgs s),
          rcs := (rcs s)(a := BLive 0)\<rparr>)" (is "_ = Inr (False, ?s')")
        using itc_send_unused [OF R(1) Some i False w j _ m(1,2)] by (simp add: mbx_send_def itc_send_def)
      have c: "core_ok ?s' k Q" by (rule core_ok_prepared [OF R(1) m(1,3)])
      have sr: "same_rest a s ?s'" by (simp add: same_rest_def mboxes_of_def)
      then have "mbx_rep k ?s' Q" "my_threadlocal_mbox ?s' = my_threadlocal_mbox s" "mbx_valid ?s' = mbx_valid s"
        by (rule mbx_rep_step [OF r c]; use R(3) in simp)+
      moreover have "mbx_held ?s' x" if "mbx_held s x" for x
        using that m stamp_props(1,2) [OF m(2)] by (cases "x = m") (simp_all add: mbx_held_def)
      moreover have "keeps a s ?s'" by (rule keepsI [OF sr m(1)]) simp
      ultimately show ?thesis using e by blast
    qed
  qed
qed

lemma mbx_recv_law:
  assumes r: "mbx_rep k s Q" and a: "my_threadlocal_mbox s a = Some j" "Q j = Some (m # xs)"
  shows "\<exists>s'. mbx_recv a s = Inr (Some m, s') \<and> mbx_rep k s' (Q(j \<mapsto> xs)) \<and>
           my_threadlocal_mbox s' = my_threadlocal_mbox s \<and> mbx_valid s' = mbx_valid s \<and> mbx_held s' m \<and>
           (\<forall>x. mbx_held s x \<longrightarrow> mbx_held s' x) \<and> keeps a s s'"
proof -
  note R = mbx_repD [OF r]
  obtain w where w: "rcs s a = BLive w" using R(4) a(1) by blast
  obtain s' bs where s': "mbx_recv a s = Inr (Some m, s')" "core_ok s' k (Q(j \<mapsto> xs))"
      "cells (msgs s) m = Some bs" "wf_msg bs" "inrx bs" "cells (msgs s') = (cells (msgs s))(m \<mapsto> clear_inrx bs)"
      "same_rest a s s'" "malloc_results (litems s') = malloc_results (litems s)"
    using itc_receive_local_spec [OF R(1) a w R(2), of ITC_NO_WAIT "[]"] unfolding mbx_recv_def by blast
  have "mbx_rep k s' (Q(j \<mapsto> xs))" "my_threadlocal_mbox s' = my_threadlocal_mbox s" "mbx_valid s' = mbx_valid s"
    by (rule mbx_rep_step [OF r s'(2,7)]; use s'(8) R(3) in simp)+
  moreover have h: "mbx_held s' m" using s'(4) wf_msg_length [OF s'(4)] mbx_held_upd(2) [OF s'(6)] by simp
  moreover have "mbx_held s' x" if "mbx_held s x" for x
    using that h mbx_held_upd(1) [OF s'(6)] by (cases "x = m") simp_all
  ultimately show ?thesis using s'(1) keepsI [OF s'(7,3,6)] by blast
qed

lemma mbx_recv_nothing_law:
  assumes r: "mbx_rep k s Q"
    and a: "my_threadlocal_mbox s a = None \<or> (my_threadlocal_mbox s a = Some j \<and> Q j = Some [])"
  shows "\<exists>s'. mbx_recv a s = Inr (None, s') \<and> mbx_rep k s' Q \<and>
           my_threadlocal_mbox s' = my_threadlocal_mbox s \<and> mbx_valid s' = mbx_valid s \<and>
           (\<forall>x. mbx_held s x \<longrightarrow> mbx_held s' x) \<and> keeps a s s'"
proof (cases "my_threadlocal_mbox s a")
  case None
  then have "mbx_recv a s = Inr (None, s)"
    using core_cfg_mboxes(1) [OF core_okD(2) [OF mbx_repD(1) [OF r]]] by (simp add: mbx_recv_def itc_receive_def)
  then show ?thesis using r by simp
next
  case (Some i)
  note R = mbx_repD [OF r]
  obtain w where w: "rcs s a = BLive w" using R(4) Some by blast
  have q: "Q i = Some []" using a Some by simp
  obtain s' where s': "mbx_recv a s = Inr (None, s')" "core_ok s' k Q" "same_rest a s s'" "msgs s' = msgs s"
      "litems s' = litems s"
    using itc_receive_nothing_spec [OF R(1) Some q w, of "[]"] unfolding mbx_recv_def by blast
  have "mbx_rep k s' Q" "my_threadlocal_mbox s' = my_threadlocal_mbox s" "mbx_valid s' = mbx_valid s"
    by (rule mbx_rep_step [OF r s'(2,3)]; use s'(5) R(3) in simp)+
  then show ?thesis using s'(1,3,4) by (simp add: mbx_held_def keeps_def)
qed

interpretation mbx: mailboxes mbx_send mbx_recv "mbx_rep k" my_threadlocal_mbox mbx_valid mbx_held for k
proof (unfold_locales, goal_cases)
  case (1 s Q a i j xs m)
  then show ?case using mbx_send_law by blast
next
  case (2 s Q a j m)
  then show ?case using mbx_send_refused_law by blast
next
  case (3 s Q a j m xs)
  then show ?case using mbx_recv_law by blast
next
  case (4 s Q a j)
  then show ?case using mbx_recv_nothing_law by blast
next
  case (5 s Q a j)
  then show ?case by (rule mbx_repD(5))
qed

end
