(* ===== verification/Itc_Lifecycle.thy ===== *)
theory Itc_Lifecycle
  imports Itc_Mailboxes
begin

text \<open>
  Creating and deleting mailboxes: the invariant of a process over its whole life, with the queue
  of free mailboxes, the owners and the tree of names. The process is the coordinator's own, so
  that no other process has to be told.
\<close>

unbundle bit_operations_syntax

section \<open>The invariant\<close>

text \<open>
  The free mailboxes are exactly those that are not in use, each of them once; no two threads have
  the same mailbox; the tree of names leads to mailboxes in use, with different names.
\<close>

definition free_rep :: "proc \<Rightarrow> nat list \<Rightarrow> bool" where
  "free_rep s F \<longleftrightarrow> malloc_results (qnodes s) = [] \<and>
     (\<exists>q ps. free_mboxes_queue (itc_inst s) = BLive q \<and> qrep (qnodes s) q ps (map Some F))"

definition tree_ok :: "proc \<Rightarrow> (nat \<Rightarrow> nat list option) \<Rightarrow> bool" where
  "tree_ok s Q \<longleftrightarrow>
     (\<forall>i \<in> set (local_locating_mbox_tree (itc_inst s)). \<exists>xs. Q i = Some xs) \<and>
     (\<forall>i < length (mboxes_of s). is_cstr (mb_name (mboxes_of s ! i))) \<and>
     distinct (local_locating_mbox_tree (itc_inst s)) \<and>
     distinct (map (\<lambda>i. mb_name (mboxes_of s ! i)) (local_locating_mbox_tree (itc_inst s)))"

definition is_coord :: "proc \<Rightarrow> bool" where
  "is_coord s \<longleftrightarrow>
     ii_my_mbox_id_in_itccoord (itc_inst s) = ii_itccoord_mbox_id (itc_inst s) AND ii_itccoord_mask (itc_inst s)"

definition proc_ok :: "nat \<Rightarrow> proc \<Rightarrow> (nat \<Rightarrow> nat list option) \<Rightarrow> nat list \<Rightarrow> bool" where
  "proc_ok k s Q F \<longleftrightarrow>
     mbx_rep k s Q \<and> free_rep s F \<and> distinct F \<and> set F = {i. i < length (mboxes_of s) \<and> Q i = None} \<and>
     tree_ok s Q \<and> is_coord s \<and> mallocs s = [] \<and> alloc_ready s \<and> heap_ok (msgs s) \<and>
     0 \<le> max_mallocsize s \<and> max_mallocsize s < 2 ^ 32 \<and>
     (\<forall>t u i. my_threadlocal_mbox s t = Some i \<longrightarrow> my_threadlocal_mbox s u = Some i \<longrightarrow> t = u)"

lemma proc_okD:
  assumes "proc_ok k s Q F"
  shows "mbx_rep k s Q" "core_ok s k Q" "free_rep s F" "distinct F"
    "set F = {i. i < length (mboxes_of s) \<and> Q i = None}" "tree_ok s Q" "is_coord s" "mallocs s = []"
    "alloc_ready s" "heap_ok (msgs s)"
    "\<And>t u i. my_threadlocal_mbox s t = Some i \<Longrightarrow> my_threadlocal_mbox s u = Some i \<Longrightarrow> t = u"
    "0 \<le> max_mallocsize s" "max_mallocsize s < 2 ^ 32"
  using assms mbx_repD(1) unfolding proc_ok_def by blast+

section \<open>The parts of \<open>itc_create_mailbox\<close> and \<open>itc_delete_mailbox\<close>\<close>

lemma core_ok_step_gen:
  assumes c: "core_ok s k Q" and i: "i < length (mboxes_of s)"
    and ii: "mboxes (itc_inst s') = BLive ((mboxes_of s)[i := m])" "nr_mboxes (itc_inst s') = nr_mboxes (itc_inst s)"
      "ii_local_mbox_mask (itc_inst s') = ii_local_mbox_mask (itc_inst s)"
      "ii_itccoord_mask (itc_inst s') = ii_itccoord_mask (itc_inst s)"
      "ii_my_mbox_id_in_itccoord (itc_inst s') = ii_my_mbox_id_in_itccoord (itc_inst s)"
    and li: "local_inst s' = put_slot j d s"
    and q: "local_queues s' k (Q(i := xo))"
    and m: "mbox_ok (ii_my_mbox_id_in_itccoord (itc_inst s)) i m xo"
  shows "core_ok s' k (Q(i := xo))" "mboxes_of s' = (mboxes_of s)[i := m]"
proof -
  let ?u = "s'\<lparr>itc_inst := set_mbox i m s\<rparr>"
  show ms: "mboxes_of s' = (mboxes_of s)[i := m]" using ii(1) by (simp add: mboxes_of_def)
  have "local_queues ?u k (Q(i := xo))" using q local_queues_cong [of ?u s'] by simp
  then have u: "core_ok ?u k (Q(i := xo))"
    using core_ok_step [OF c i, of ?u m j d xo] li m by simp
  have "mboxes_of ?u = mboxes_of s'" using ms by (simp add: mboxes_of_def set_mbox_def)
  moreover have "core_cfg ?u k = core_cfg s' k"
    using ii by (simp add: core_cfg_def set_mbox_def)
  moreover have "ii_my_mbox_id_in_itccoord (itc_inst ?u) = ii_my_mbox_id_in_itccoord (itc_inst s')"
    using ii(5) by (simp add: set_mbox_def)
  ultimately show "core_ok s' k (Q(i := xo))"
    using u q unfolding core_ok_def by metis
qed

lemma free_dequeue_ok:
  assumes "free_rep s (i # F)" and "rcs s t = BLive w"
  shows "\<exists>q' h'. free_dequeue t s = Inr (Some i, s\<lparr>itc_inst := (itc_inst s)\<lparr>free_mboxes_queue := BLive q'\<rparr>, qnodes := h'\<rparr>) \<and>
           free_rep (s\<lparr>itc_inst := (itc_inst s)\<lparr>free_mboxes_queue := BLive q'\<rparr>, qnodes := h'\<rparr>) F"
proof -
  obtain q ps where q: "free_mboxes_queue (itc_inst s) = BLive q" "qrep (qnodes s) q ps (map Some (i # F))"
    "malloc_results (qnodes s) = []"
    using assms(1) by (auto simp: free_rep_def)
  obtain q' h' where d: "q_dequeue w q (qnodes s) = Inr (Some i, w, q', h')" "qrep h' q' (tl ps) (map Some F)"
      "malloc_results h' = malloc_results (qnodes s)"
    using q_dequeue_spec [of "qnodes s" q ps "Some i" "map Some F" w] q(2) by auto
  have "s\<lparr>rcs := (rcs s)(t := BLive w)\<rparr> = s" using assms(2) by (simp add: fun_upd_idem)
  then have "free_dequeue t s = Inr (Some i, s\<lparr>itc_inst := (itc_inst s)\<lparr>free_mboxes_queue := BLive q'\<rparr>, qnodes := h'\<rparr>)"
    using q(1) assms(2) d(1) by (simp add: free_dequeue_def)
  then show ?thesis using d(2,3) q(3) by (auto simp: free_rep_def)
qed

lemma free_dequeue_none:
  assumes "free_rep s []" and "rcs s t = BLive w"
  shows "free_dequeue t s = Inr (None, s\<lparr>rcs := (rcs s)(t := BLive (w OR ITC_QUEUE_EMPTY))\<rparr>)"
proof -
  obtain q ps where q: "free_mboxes_queue (itc_inst s) = BLive q" "qrep (qnodes s) q ps []"
    using assms(1) by (auto simp: free_rep_def)
  have "(itc_inst s)\<lparr>free_mboxes_queue := BLive q\<rparr> = itc_inst s" using q(1) by simp
  then show ?thesis using q assms(2) q_dequeue_empty [OF q(2)] by (simp add: free_dequeue_def)
qed

lemma free_enqueue_ok:
  assumes "free_rep s F" and "rcs s t = BLive 0" and "Suc (length F) < 2 ^ 32"
  shows "\<exists>q' h'. free_enqueue t i s = Inr (s\<lparr>itc_inst := (itc_inst s)\<lparr>free_mboxes_queue := BLive q'\<rparr>, qnodes := h'\<rparr>) \<and>
           free_rep (s\<lparr>itc_inst := (itc_inst s)\<lparr>free_mboxes_queue := BLive q'\<rparr>, qnodes := h'\<rparr>) (F @ [i])"
proof -
  obtain q ps where q: "free_mboxes_queue (itc_inst s) = BLive q" "qrep (qnodes s) q ps (map Some F)"
    "malloc_results (qnodes s) = []"
    using assms(1) by (auto simp: free_rep_def)
  have "can_alloc (qnodes s)" using q(3) by (simp add: can_alloc_def)
  then obtain q' h' where e: "q_enqueue ITC_OK (Some i) q (qnodes s) = Inr (ITC_OK, q', h')"
      "qrep h' q' (ps @ [fresh (qnodes s)]) (map Some (F @ [i]))" "malloc_results h' = tl (malloc_results (qnodes s))"
    using q_enqueue_spec [OF q(2), of "Some i"] assms(3) by auto
  have "s\<lparr>rcs := (rcs s)(t := BLive 0)\<rparr> = s" using assms(2) by (simp add: fun_upd_idem)
  then have "free_enqueue t i s = Inr (s\<lparr>itc_inst := (itc_inst s)\<lparr>free_mboxes_queue := BLive q'\<rparr>, qnodes := h'\<rparr>)"
    using q(1) assms(2) e(1) by (simp add: free_enqueue_def)
  then show ?thesis using e(2,3) q(3) by (auto simp: free_rep_def)
qed

lemma trans_create_local:
  assumes "rcs s t = BLive w" and "local_create_mbox t i flags (s\<lparr>rcs := (rcs s)(t := BLive 0)\<rparr>) = Inr s'"
    and "rcs s' t = BLive 0"
  shows "trans_create trans_mechanisms t i flags s = Inr (True, s')"
  using assms by (simp add: trans_mechanisms_def local_trans_apis_def lsock_trans_apis_def sysvmq_trans_apis_def)

lemma trans_delete_local:
  assumes "rcs s t = BLive w" and "local_delete_mbox t i (s\<lparr>rcs := (rcs s)(t := BLive 0)\<rparr>) = Inr s'"
    and "rcs s' t = BLive 0"
  shows "trans_delete trans_mechanisms t i s = Inr (True, s')"
  using assms by (simp add: trans_mechanisms_def local_trans_apis_def lsock_trans_apis_def sysvmq_trans_apis_def)

text \<open>The tree of names.\<close>

lemma tree_find_with:
  assumes "mboxes (itc_inst s) = BLive ms" and "\<forall>i \<in> set T. i < length ms"
  shows "tree_find name T s = Inr (find (\<lambda>i. strcmp name (mb_name (ms ! i)) = 0) T)"
  using assms by (induction T) auto

lemma notify_coord_is_coord: "is_coord s \<Longrightarrow> notify_coord t msgno x name s = Inr s"
  by (simp add: notify_coord_def is_coord_def)


abbreviation name_tree :: "proc \<Rightarrow> nat list" where
  "name_tree s \<equiv> local_locating_mbox_tree (itc_inst s)"

lemma tree_okD:
  assumes "tree_ok s Q"
  shows "\<And>i. i \<in> set (name_tree s) \<Longrightarrow> \<exists>xs. Q i = Some xs"
    "\<And>i. i < length (mboxes_of s) \<Longrightarrow> is_cstr (mb_name (mboxes_of s ! i))"
    "distinct (name_tree s)" "distinct (map (\<lambda>i. mb_name (mboxes_of s ! i)) (name_tree s))"
  using assms unfolding tree_ok_def by blast+

text \<open>The tree after a mailbox has got its name, and after it is deleted.\<close>

definition tree_ins :: "nat \<Rightarrow> cstr \<Rightarrow> proc \<Rightarrow> nat list" where
  "tree_ins i name s =
     (if \<exists>j \<in> set (name_tree s). mb_name (mboxes_of s ! j) = name then name_tree s else name_tree s @ [i])"

definition tree_del :: "nat \<Rightarrow> proc \<Rightarrow> nat list" where
  "tree_del i s =
     (case find (\<lambda>j. mb_name (mboxes_of s ! j) = mb_name (mboxes_of s ! i)) (name_tree s) of
        None \<Rightarrow> name_tree s | Some j \<Rightarrow> remove1 j (name_tree s))"

lemma find_names:
  assumes "mboxes (itc_inst s) = BLive ms" and "is_cstr name"
    and "\<forall>j \<in> set T. j < length ms \<and> is_cstr (mb_name (ms ! j))"
  shows "tree_find name T s = Inr (find (\<lambda>j. mb_name (ms ! j) = name) T)"
proof -
  have "find (\<lambda>j. strcmp name (mb_name (ms ! j)) = 0) T = find (\<lambda>j. mb_name (ms ! j) = name) T"
    using assms(2,3) by (induction T) (auto simp: strcmp_eq_0)
  then show ?thesis using tree_find_with [OF assms(1)] assms(3) by simp
qed

lemma mem_find: "find P xs = None \<longleftrightarrow> (\<forall>x \<in> set xs. \<not> P x)" "find P xs = Some x \<Longrightarrow> x \<in> set xs \<and> P x"
  by (auto simp: find_None_iff find_Some_iff)

lemma tree_ins_ok:
  assumes "distinct (name_tree s)" and "distinct (map (\<lambda>j. mb_name (mboxes_of s ! j)) (name_tree s))"
    and "i \<notin> set (name_tree s)" and "mb_name m = name" and "\<forall>j \<in> set (name_tree s). j < length (mboxes_of s)"
    and "i < length (mboxes_of s)"
  shows "distinct (tree_ins i name s)" "distinct (map (\<lambda>j. mb_name ((mboxes_of s)[i := m] ! j)) (tree_ins i name s))"
    "set (tree_ins i name s) \<subseteq> insert i (set (name_tree s))"
proof -
  have e: "map (\<lambda>j. mb_name ((mboxes_of s)[i := m] ! j)) (name_tree s) = map (\<lambda>j. mb_name (mboxes_of s ! j)) (name_tree s)"
    using assms(3) by (intro map_cong refl) (metis nth_list_update_neq)
  show "distinct (tree_ins i name s)" using assms(1,3) by (simp add: tree_ins_def)
  show "distinct (map (\<lambda>j. mb_name ((mboxes_of s)[i := m] ! j)) (tree_ins i name s))"
    using assms(2,4,6) by (auto simp: tree_ins_def e)
  show "set (tree_ins i name s) \<subseteq> insert i (set (name_tree s))" by (auto simp: tree_ins_def)
qed

lemma tree_del_ok:
  assumes "distinct (name_tree s)" and "distinct (map (\<lambda>j. mb_name (mboxes_of s ! j)) (name_tree s))"
  shows "i \<notin> set (tree_del i s)" "set (tree_del i s) \<subseteq> set (name_tree s)" "distinct (tree_del i s)"
    "distinct (map (\<lambda>j. mb_name ((mboxes_of s)[i := m] ! j)) (tree_del i s))"
proof -
  have own: "find (\<lambda>j. mb_name (mboxes_of s ! j) = mb_name (mboxes_of s ! i)) (name_tree s) = Some i"
    if "i \<in> set (name_tree s)"
  proof -
    let ?f = "find (\<lambda>j. mb_name (mboxes_of s ! j) = mb_name (mboxes_of s ! i)) (name_tree s)"
    have "?f \<noteq> None" using that by (auto simp: find_None_iff)
    then obtain j where j: "?f = Some j" by blast
    have "inj_on (\<lambda>j. mb_name (mboxes_of s ! j)) (set (name_tree s))" using assms(2) by (simp add: distinct_map)
    then have "j = i" using mem_find(2) [OF j] that by (auto dest: inj_onD)
    then show ?thesis using j by simp
  qed
  show i: "i \<notin> set (tree_del i s)"
  proof (cases "i \<in> set (name_tree s)")
    case True
    then show ?thesis using own assms(1) by (simp add: tree_del_def)
  next
    case False
    then show ?thesis by (auto simp: tree_del_def split: option.splits dest: notin_set_remove1)
  qed
  show sub: "set (tree_del i s) \<subseteq> set (name_tree s)"
    by (simp add: tree_del_def set_remove1_subset split: option.splits)
  show d: "distinct (tree_del i s)" using assms(1) by (simp add: tree_del_def split: option.splits)
  have e: "map (\<lambda>j. mb_name ((mboxes_of s)[i := m] ! j)) (tree_del i s) = map (\<lambda>j. mb_name (mboxes_of s ! j)) (tree_del i s)"
    using i by (intro map_cong refl) (metis nth_list_update_neq)
  show "distinct (map (\<lambda>j. mb_name ((mboxes_of s)[i := m] ! j)) (tree_del i s))"
    unfolding e using assms(2) d sub by (auto simp: distinct_map intro: inj_on_subset)
qed


section \<open>\<open>itc_create_mailbox\<close>\<close>

text \<open>The opening of an operation: afterwards the thread has a result code with no error.\<close>

definition has_rc :: "nat \<Rightarrow> proc \<Rightarrow> bool" where
  "has_rc t s \<longleftrightarrow> (\<exists>w. rcs s t = BLive w) \<or> (rcs s t = BNull \<and> mallocs s = [])"

lemma rc_open:
  assumes "has_rc t s"
  shows "\<exists>u. rc_ensure t s = (True, u) \<and> rc_set t ITC_OK u = Inr (s\<lparr>rcs := (rcs s)(t := BLive 0)\<rparr>)"
  using assms by (auto simp: has_rc_def)

text \<open>The new mailbox while its creator holds the mutex.\<close>

definition created :: "nat \<Rightarrow> cstr \<Rightarrow> u32 \<Rightarrow> itc_mailbox \<Rightarrow> itc_mailbox" where
  "created t name flags m = m\<lparr>mb_name := name, mb_flags := flags, p_rxq_info := True, rxq_len := 0,
     is_in_rx := False, rxq_mtx := Some t, mb_state := MBOX_INUSE, mb_tid := t\<rparr>"

lemma create_prepare:
  assumes "mboxes (itc_inst s) = BLive ms" and "i < length ms" and "rxq_mtx (ms ! i) = None"
  shows "bindE (mbox_upd i (\<lambda>m. m\<lparr>mb_name := name, mb_flags := flags, p_rxq_info := True,
                   rxq_len := 0, is_in_rx := False\<rparr>) s) (\<lambda>s.
         bindE (lock_rxq t i s) (\<lambda>s.
         bindE (mbox_upd i (\<lambda>m. m\<lparr>mb_state := MBOX_INUSE, mb_tid := t\<rparr>) s) f)) =
         f (with_mboxes (ms[i := created t name flags (ms ! i)]) s)"
  using assms by (simp add: mbox_step rxq_with created_def del: mbox_upd_live)

lemma with_mboxes_other [simp]:
  "local_inst (with_mboxes ms s) = local_inst s" "litems (with_mboxes ms s) = litems s"
  "msgs (with_mboxes ms s) = msgs s" "mallocs (with_mboxes ms s) = mallocs s"
  "qnodes (with_mboxes ms s) = qnodes s" "alloc_ready (with_mboxes ms s) = alloc_ready s"
  "free_mboxes_queue (itc_inst (with_mboxes ms s)) = free_mboxes_queue (itc_inst s)"
  "local_locating_mbox_tree (itc_inst (with_mboxes ms s)) = local_locating_mbox_tree (itc_inst s)"
  "nr_mboxes (itc_inst (with_mboxes ms s)) = nr_mboxes (itc_inst s)"
  "ii_local_mbox_mask (itc_inst (with_mboxes ms s)) = ii_local_mbox_mask (itc_inst s)"
  "ii_itccoord_mask (itc_inst (with_mboxes ms s)) = ii_itccoord_mask (itc_inst s)"
  "ii_itccoord_mbox_id (itc_inst (with_mboxes ms s)) = ii_itccoord_mbox_id (itc_inst s)"
  "ii_my_mbox_id_in_itccoord (itc_inst (with_mboxes ms s)) = ii_my_mbox_id_in_itccoord (itc_inst s)"
  "mboxes_of (with_mboxes ms s) = ms" "max_mallocsize (with_mboxes ms s) = max_mallocsize s"
  "thrman_inst (with_mboxes ms s) = thrman_inst s" "sysvmq_inst (with_mboxes ms s) = sysvmq_inst s"
  by (simp_all add: with_mboxes_def mboxes_of_def)

lemma insert_mbox_with:
  assumes "mboxes (itc_inst s) = BLive ms" and "i < length ms" and "is_cstr (mb_name (ms ! i))"
    and "\<forall>j \<in> set (name_tree s). j < length ms \<and> is_cstr (mb_name (ms ! j))"
  shows "\<exists>b. insert_mbox_to_tree i s = Inr (b, s\<lparr>itc_inst := (itc_inst s)\<lparr>local_locating_mbox_tree :=
      (if \<exists>j \<in> set (name_tree s). mb_name (ms ! j) = mb_name (ms ! i) then name_tree s else name_tree s @ [i])\<rparr>\<rparr>)"
proof -
  have f: "tree_find (mb_name (ms ! i)) (name_tree s) s =
      Inr (find (\<lambda>j. mb_name (ms ! j) = mb_name (ms ! i)) (name_tree s))" (is "_ = Inr ?f")
    by (rule find_names [OF assms(1,3,4)])
  show ?thesis
  proof (cases ?f)
    case None
    then have "\<not> (\<exists>j \<in> set (name_tree s). mb_name (ms ! j) = mb_name (ms ! i))" by (simp add: find_None_iff)
    then show ?thesis using None f assms(1,2) by (auto simp: insert_mbox_to_tree_def)
  next
    case (Some j)
    then have "\<exists>j \<in> set (name_tree s). mb_name (ms ! j) = mb_name (ms ! i)" by (auto dest: mem_find(2))
    then show ?thesis using Some f assms(1,2) by (auto simp: insert_mbox_to_tree_def)
  qed
qed


text \<open>A free mailbox comes into use: what keeps the invariant.\<close>

lemma proc_ok_use:
  assumes p: "proc_ok k s Q (i # F)"
    and f': "my_threadlocal_mbox s' = (my_threadlocal_mbox s)(t \<mapsto> i)" "rcs s' = (rcs s)(t := BLive 0)" "sys s' = []"
      "litems s' = litems s" "msgs s' = msgs s" "mallocs s' = mallocs s" "alloc_ready s' = alloc_ready s"
      "free_rep s' F" "is_coord s'" "name_tree s' = tree_ins i name s" "max_mallocsize s' = max_mallocsize s"
    and ii: "mboxes (itc_inst s') = BLive ((mboxes_of s)[i := m])" "nr_mboxes (itc_inst s') = nr_mboxes (itc_inst s)"
      "ii_local_mbox_mask (itc_inst s') = ii_local_mbox_mask (itc_inst s)"
      "ii_itccoord_mask (itc_inst s') = ii_itccoord_mask (itc_inst s)"
      "ii_my_mbox_id_in_itccoord (itc_inst s') = ii_my_mbox_id_in_itccoord (itc_inst s)" "local_inst s' = put_slot i d s"
    and lq: "local_queues s' k (Q(i \<mapsto> []))"
    and m: "mbox_ok (ii_my_mbox_id_in_itccoord (itc_inst s)) i m (Some [])" "mb_name m = name" and name: "is_cstr name"
  shows "proc_ok k s' (Q(i \<mapsto> [])) F" "mboxes_of s' = (mboxes_of s)[i := m]"
proof -
  note P = proc_okD [OF p]
  note R = mbx_repD [OF P(1)]
  note T = tree_okD [OF P(6)]
  let ?ms = "mboxes_of s"
  have i: "i < length ?ms" "Q i = None" "i \<notin> set F" using P(4,5) by auto
  have iT: "i \<notin> set (name_tree s)" using T(1) i(2) by force
  have Tlt: "\<forall>j \<in> set (name_tree s). j < length ?ms" using T(1) core_okD(5) [OF P(2)] by blast
  note c' = core_ok_step_gen [OF P(2) i(1) ii lq m(1)]
  show "mboxes_of s' = ?ms[i := m]" by (rule c'(2))
  have "mbx_rep k s' (Q(i \<mapsto> []))"
    using c'(1) f'(1-4) R(3,4,5) i(2) by (auto simp: mbx_rep_def)
  moreover have "set F = {j. j < length (mboxes_of s') \<and> (Q(i \<mapsto> [])) j = None}"
    using P(4,5) i by (auto simp: c'(2))
  moreover have "tree_ok s' (Q(i \<mapsto> []))"
  proof -
    note I = tree_ins_ok [OF T(3,4) iT m(2) Tlt i(1)]
    have "is_cstr (mb_name (mboxes_of s' ! j))" if "j < length ?ms" for j
      using T(2) [OF that] name m(2) i(1) by (simp add: c'(2) nth_list_update)
    then show ?thesis using I T(1) unfolding tree_ok_def f'(10) c'(2) by (auto simp: subset_iff)
  qed
  moreover have "\<forall>u v j. my_threadlocal_mbox s' u = Some j \<longrightarrow> my_threadlocal_mbox s' v = Some j \<longrightarrow> u = v"
    using P(11) R(5) i(2) unfolding f'(1) by (metis fun_upd_apply option.distinct(1) option.inject)
  ultimately show "proc_ok k s' (Q(i \<mapsto> [])) F"
    using P(4,8,9,10,12,13) f'(5-9,11) by (simp add: proc_ok_def)
qed

lemma itc_create_mailbox_spec:
  assumes p: "proc_ok k s Q (i # F)" and t: "my_threadlocal_mbox s t = None" "has_rc t s"
    and name: "is_cstr name" "length name < ITC_MAX_NAME_LENGTH"
  shows "\<exists>s'. itc_create_mailbox t name flags s = Inr (mbx_id i s, s') \<and> proc_ok k s' (Q(i \<mapsto> [])) F \<and>
           my_threadlocal_mbox s' = (my_threadlocal_mbox s)(t \<mapsto> i) \<and> name_tree s' = tree_ins i name s \<and>
           mb_name (mboxes_of s' ! i) = name \<and> (\<forall>x. x \<noteq> i \<longrightarrow> mboxes_of s' ! x = mboxes_of s ! x) \<and> msgs s' = msgs s \<and> rcs s' = (rcs s)(t := BLive 0) \<and>
           ii_my_mbox_id_in_itccoord (itc_inst s') = ii_my_mbox_id_in_itccoord (itc_inst s) \<and>
           thrman_inst s' = thrman_inst s \<and> sysvmq_inst s' = sysvmq_inst s \<and> max_mallocsize s' = max_mallocsize s"
proof -
  note P = proc_okD [OF p]
  note R = mbx_repD [OF P(1)]
  note T = tree_okD [OF P(6)]
  note ms = core_cfg_mboxes(1) [OF core_okD(2) [OF P(2)]]
  let ?ms = "mboxes_of s" and ?my = "ii_my_mbox_id_in_itccoord (itc_inst s)"
  have i: "i < length ?ms" "Q i = None" "i \<notin> set F" using P(4,5) by auto
  have mi: "mbox_ok ?my i (?ms ! i) None" using core_okD(4) [OF P(2) i(1)] i(2) by simp
  then have mi': "rxq_mtx (?ms ! i) = None" "mb_id (?ms ! i) = mbx_id i s" "\<not> is_fd_created (?ms ! i)"
    by (simp_all add: mbox_ok_def mbx_id_def)
  have iT: "i \<notin> set (name_tree s)" using T(1) i(2) by force
  have Tlt: "\<forall>j \<in> set (name_tree s). j < length ?ms" using T(1) core_okD(5) [OF P(2)] by blast
  obtain u where u: "rc_ensure t s = (True, u)" "rc_set t ITC_OK u = Inr (s\<lparr>rcs := (rcs s)(t := BLive 0)\<rparr>)"
    using rc_open [OF t(2)] by blast
  define s0 where "s0 = s\<lparr>rcs := (rcs s)(t := BLive 0)\<rparr>"
  have "free_rep s0 (i # F)" using P(3) by (simp add: free_rep_def s0_def)
  then obtain q' h' where dq: "free_dequeue t s0 = Inr (Some i, s0\<lparr>itc_inst := (itc_inst s0)\<lparr>free_mboxes_queue := BLive q'\<rparr>, qnodes := h'\<rparr>)"
      "free_rep (s0\<lparr>itc_inst := (itc_inst s0)\<lparr>free_mboxes_queue := BLive q'\<rparr>, qnodes := h'\<rparr>) F"
    using free_dequeue_ok [of s0 i F t 0] by (auto simp: s0_def)
  define s1 where "s1 = s0\<lparr>itc_inst := (itc_inst s0)\<lparr>free_mboxes_queue := BLive q'\<rparr>, qnodes := h'\<rparr>"
  have rc1: "rc_set t ITC_OK s1 = Inr s1" by (simp add: s1_def s0_def)
  have ms1: "mboxes (itc_inst s1) = BLive ?ms" using ms by (simp add: s1_def s0_def)
  define m3 where "m3 = created t name flags (?ms ! i)"
  define s2 where "s2 = with_mboxes (?ms[i := m3]) s1"
  have id3: "mb_id m3 = mbx_id i s" using mi'(2) by (simp add: m3_def created_def)
  have lq2: "local_queues s2 k Q"
    using core_okD(1) [OF P(2)] local_queues_cong [of s2 s] by (simp add: s2_def s1_def s0_def)
  have at2: "mbox_at i s2 = Inr m3" using i(1) by (simp add: s2_def)
  have idx: "local_index (mb_id m3) = i" "is_local (mb_id m3) s2"
    using own_ids(1,2) [OF core_okD(2,3) [OF P(2)] i(1)] id3
    by (simp_all add: is_local_def mbx_id_def s2_def s1_def s0_def)
  have ik: "i < 2 ^ k" using i(1) core_cfg_mboxes(2) [OF core_okD(2) [OF P(2)]] by simp
  have rc2: "rcs s2 t = BLive 0" "mallocs s2 = []" using P(8) by (simp_all add: s2_def s1_def s0_def)
  obtain d' where d': "local_create_mbox t i flags s2 = Inr (s2\<lparr>local_inst := put_slot i d' s2\<rparr>)"
      "local_queues (s2\<lparr>local_inst := put_slot i d' s2\<rparr>) k (Q(i \<mapsto> []))"
    using local_create_mbox_spec [OF lq2 at2 idx(2,1) ik i(2) rc2] by blast
  define s3 where "s3 = s2\<lparr>local_inst := put_slot i d' s2, destruct_data := (destruct_data s2)(t := Some i)\<rparr>"
  have same2: "s2\<lparr>rcs := (rcs s2)(t := BLive 0)\<rparr> = s2" by (simp add: s2_def s1_def s0_def with_mboxes_def)
  have tc: "trans_create trans_mechanisms t i flags s2 = Inr (True, s2\<lparr>local_inst := put_slot i d' s2\<rparr>)"
    by (rule trans_create_local [OF rc2(1)]) (simp_all add: same2 d'(1) rc2(1))
  have ms3: "mboxes (itc_inst s3) = BLive (?ms[i := m3])" "name_tree s3 = name_tree s"
    by (simp_all add: s3_def s2_def s1_def s0_def)
  have nm: "mb_name (?ms[i := m3] ! j) = (if j = i then name else mb_name (?ms ! j))" if "j < length ?ms" for j
    using that by (simp add: m3_def created_def nth_list_update)
  have cs: "\<forall>j \<in> set (name_tree s3). j < length (?ms[i := m3]) \<and> is_cstr (mb_name (?ms[i := m3] ! j))"
    using Tlt T(2) nm name(1) ms3(2) by simp
  have ins_eq: "(if \<exists>j \<in> set (name_tree s3). mb_name (?ms[i := m3] ! j) = mb_name (?ms[i := m3] ! i)
      then name_tree s3 else name_tree s3 @ [i]) = tree_ins i name s"
  proof -
    have "mb_name (?ms[i := m3] ! j) = mb_name (?ms ! j)" if "j \<in> set (name_tree s)" for j
      using nm [of j] Tlt iT that by metis
    moreover have "mb_name (?ms[i := m3] ! i) = name" using nm [OF i(1)] by simp
    ultimately show ?thesis unfolding tree_ins_def ms3(2) by (simp cong: bex_cong)
  qed
  have li3: "i < length (?ms[i := m3])" "is_cstr (mb_name (?ms[i := m3] ! i))" using i(1) nm [OF i(1)] name(1) by simp_all
  obtain b where ins: "insert_mbox_to_tree i s3 = Inr (b, s3\<lparr>itc_inst := (itc_inst s3)\<lparr>local_locating_mbox_tree := tree_ins i name s\<rparr>\<rparr>)"
    using insert_mbox_with [OF ms3(1) li3 cs] unfolding ins_eq by blast
  define s4 where "s4 = s3\<lparr>itc_inst := (itc_inst s3)\<lparr>local_locating_mbox_tree := tree_ins i name s\<rparr>,
      my_threadlocal_mbox := (my_threadlocal_mbox s3)(t := Some i)\<rparr>"
  define m4 where "m4 = m3\<lparr>rxq_mtx := None\<rparr>"
  define s' where "s' = with_mboxes (?ms[i := m4]) s4"
  have ms4: "mboxes (itc_inst s4) = BLive (?ms[i := m3])" using ms3(1) by (simp add: s4_def)
  have ul: "unlock_rxq t i s4 = Inr s'"
    using rxq_with(2) [OF ms4, of i t] i(1) by (simp add: s'_def m4_def m3_def created_def)
  have fs: "sys s3 = []" using R(2) by (simp add: s3_def s2_def s1_def s0_def)
  have coord: "is_coord s'" using P(7) by (simp add: is_coord_def s'_def s4_def s3_def s2_def s1_def s0_def)
  have at': "mbox_at i s' = Inr m4" using i(1) by (simp add: s'_def)
  have sys2: "sys_zero (s2\<lparr>local_inst := put_slot i d' s2\<rparr>) = (True, s2\<lparr>local_inst := put_slot i d' s2\<rparr>)"
    using R(2) by (simp add: s2_def s1_def s0_def)
  have run: "itc_create_mailbox t name flags s = Inr (mbx_id i s, s')"
    unfolding itc_create_mailbox_def
    using ms t(1) u(1) name(2)
    by (simp add: u(2) s0_def [symmetric] dq(1) s1_def [symmetric] rc1 create_prepare [OF ms1 i(1) mi'(1)]
        m3_def [symmetric] s2_def [symmetric] tc sys2 s3_def [symmetric] ins s4_def [symmetric] ul at'
        notify_coord_is_coord [OF coord] del: ITC_OK_def ITC_NO_MBOX_ID_def)
      (simp add: m4_def id3)
  have f': "my_threadlocal_mbox s' = (my_threadlocal_mbox s)(t \<mapsto> i)" "rcs s' = (rcs s)(t := BLive 0)" "sys s' = []"
      "litems s' = litems s" "msgs s' = msgs s" "mallocs s' = mallocs s" "alloc_ready s' = alloc_ready s"
      "qnodes s' = h'" "free_mboxes_queue (itc_inst s') = BLive q'" "name_tree s' = tree_ins i name s"
      "ii_my_mbox_id_in_itccoord (itc_inst s') = ii_my_mbox_id_in_itccoord (itc_inst s)"
      "max_mallocsize s' = max_mallocsize s" "thrman_inst s' = thrman_inst s" "sysvmq_inst s' = sysvmq_inst s"
    using R(2) by (simp_all add: s'_def s4_def s3_def s2_def s1_def s0_def)
  have m4: "mbox_ok ?my i m4 (Some [])" "mb_name m4 = name"
    using mi by (simp_all add: mbox_ok_def m4_def m3_def created_def)
  have lq': "local_queues s' k (Q(i \<mapsto> []))"
    using d'(2) local_queues_cong [of s' "s2\<lparr>local_inst := put_slot i d' s2\<rparr>"]
    by (simp add: s'_def s4_def s3_def)
  have ii: "mboxes (itc_inst s') = BLive (?ms[i := m4])" "nr_mboxes (itc_inst s') = nr_mboxes (itc_inst s)"
      "ii_local_mbox_mask (itc_inst s') = ii_local_mbox_mask (itc_inst s)"
      "ii_itccoord_mask (itc_inst s') = ii_itccoord_mask (itc_inst s)" "local_inst s' = put_slot i d' s"
    by (simp_all add: s'_def s4_def s3_def s2_def s1_def s0_def put_slot_def slots_of_def)
  have fr: "free_rep s' F" using dq(2) f'(8,9) by (simp add: free_rep_def)
  note ok = proc_ok_use [OF p f'(1-7) fr coord f'(10,12) ii(1-4) f'(11) ii(5) lq' m4 name(1)]
  show ?thesis using run f' ok m4(2) i(1) by auto
qed


section \<open>\<open>itc_delete_mailbox\<close>\<close>

lemma remove_mbox_with:
  assumes "mboxes (itc_inst s) = BLive (mboxes_of s)" and "i < length (mboxes_of s)"
    and "is_cstr (mb_name (mboxes_of s ! i))"
    and "\<forall>j \<in> set (name_tree s). j < length (mboxes_of s) \<and> is_cstr (mb_name (mboxes_of s ! j))"
  shows "\<exists>b. remove_mbox_from_tree i s = Inr (b, s\<lparr>itc_inst := (itc_inst s)\<lparr>local_locating_mbox_tree := tree_del i s\<rparr>\<rparr>)"
proof -
  have f: "tree_find (mb_name (mboxes_of s ! i)) (name_tree s) s =
      Inr (find (\<lambda>j. mb_name (mboxes_of s ! j) = mb_name (mboxes_of s ! i)) (name_tree s))" (is "_ = Inr ?f")
    by (rule find_names [OF assms(1,3,4)])
  show ?thesis
  proof (cases ?f)
    case None
    then show ?thesis using f assms(1,2) by (auto simp: remove_mbox_from_tree_def tree_del_def)
  next
    case (Some j)
    then show ?thesis using f assms(1,2) by (auto simp: remove_mbox_from_tree_def tree_del_def)
  qed
qed

text \<open>
  From taking the mutex to the notification of the coordinator: the mailbox is marked as unused and
  its descriptor, if it has one, is closed.
\<close>

definition closing :: "nat \<Rightarrow> itc_mailbox \<Rightarrow> itc_mailbox" where
  "closing t m = m\<lparr>mb_state := MBOX_UNUSED, is_fd_created := False, rxq_mtx := Some t\<rparr>"

lemma delete_prepare:
  assumes ms: "mboxes (itc_inst s) = BLive ms" "i < length ms" and m: "p_rxq_info (ms ! i)" "rxq_mtx (ms ! i) = None"
    and rc: "rcs s t = BLive w" and sys: "sys s = []"
  shows "bindE (lock_rxq t i s) (\<lambda>s.
         bindE (mbox_upd i (\<lambda>m. m\<lparr>mb_state := MBOX_UNUSED\<rparr>) s) (\<lambda>s.
         case rc_ensure t s of (have_rc, s) \<Rightarrow>
         if \<not> have_rc then Inr (False, s)
         else
           bindE (rc_set t ITC_OK s) (\<lambda>s.
           bindE (mutex_unlock t i s) (\<lambda>s.
           bindE
             (if is_fd_created (ms ! i) then
                (case sys_next s of (close, s) \<Rightarrow> mbox_upd i (\<lambda>m. m\<lparr>is_fd_created := False\<rparr>) s)
              else Inr s) (\<lambda>s.
           bindE (mutex_lock t i s) f))))) =
         f (with_mboxes (ms[i := closing t (ms ! i)]) (s\<lparr>rcs := (rcs s)(t := BLive 0)\<rparr>))"
proof -
  have wr: "(with_mboxes xs s)\<lparr>rcs := r\<rparr> = with_mboxes xs (s\<lparr>rcs := r\<rparr>)" for xs r
    by (simp add: with_mboxes_def)
  show ?thesis
  proof (cases "is_fd_created (ms ! i)")
    case True
    then show ?thesis
      using assms by (simp add: mbox_step rxq_with closing_def wr del: mbox_upd_live)
  next
    case False
    then have "(ms ! i)\<lparr>is_fd_created := False\<rparr> = ms ! i" by simp
    then have "closing t (ms ! i) = (ms ! i)\<lparr>mb_state := MBOX_UNUSED, rxq_mtx := Some t\<rparr>"
      by (cases "ms ! i") (simp add: closing_def)
    then show ?thesis
      using False assms by (simp add: mbox_step rxq_with wr del: mbox_upd_live)
  qed
qed


text \<open>A mailbox goes out of use: what keeps the invariant.\<close>

lemma proc_ok_unuse:
  assumes p: "proc_ok k s Q F" and t: "my_threadlocal_mbox s t = Some i"
    and f': "my_threadlocal_mbox s' = (my_threadlocal_mbox s)(t := None)" "rcs s' = (rcs s)(t := BLive 0)" "sys s' = []"
      "malloc_results (litems s') = []" "heap_ok (msgs s')" "mallocs s' = mallocs s" "alloc_ready s' = alloc_ready s"
      "free_rep s' (F @ [i])" "is_coord s'" "name_tree s' = tree_del i s" "max_mallocsize s' = max_mallocsize s"
    and ii: "mboxes (itc_inst s') = BLive ((mboxes_of s)[i := m])" "nr_mboxes (itc_inst s') = nr_mboxes (itc_inst s)"
      "ii_local_mbox_mask (itc_inst s') = ii_local_mbox_mask (itc_inst s)"
      "ii_itccoord_mask (itc_inst s') = ii_itccoord_mask (itc_inst s)"
      "ii_my_mbox_id_in_itccoord (itc_inst s') = ii_my_mbox_id_in_itccoord (itc_inst s)" "local_inst s' = put_slot i d s"
    and lq: "local_queues s' k (Q(i := None))"
    and m: "mbox_ok (ii_my_mbox_id_in_itccoord (itc_inst s)) i m None" "mb_name m = []"
  shows "proc_ok k s' (Q(i := None)) (F @ [i])"
proof -
  note P = proc_okD [OF p]
  note R = mbx_repD [OF P(1)]
  note T = tree_okD [OF P(6)]
  let ?ms = "mboxes_of s"
  obtain xs where xs: "Q i = Some xs" using R(5) [OF t] by blast
  have i: "i < length ?ms" by (rule core_okD(5) [OF P(2) xs])
  note c' = core_ok_step_gen [OF P(2) i ii lq m(1)]
  note I = tree_del_ok [OF T(3,4)]
  have "\<exists>w. rcs s' u = BLive w" "\<exists>xs. (Q(i := None)) j = Some xs" if "my_threadlocal_mbox s' u = Some j" for u j
  proof -
    have u: "u \<noteq> t" "my_threadlocal_mbox s u = Some j" using that by (auto simp: f'(1) split: if_splits)
    then have "j \<noteq> i" using P(11) [OF t, of u] by auto
    then show "\<exists>w. rcs s' u = BLive w" "\<exists>xs. (Q(i := None)) j = Some xs"
      using R(4,5) [OF u(2)] u(1) f'(2) by simp_all
  qed
  then have "mbx_rep k s' (Q(i := None))"
    using c'(1) f'(3,4) unfolding mbx_rep_def by blast
  moreover have "set (F @ [i]) = {j. j < length (mboxes_of s') \<and> (Q(i := None)) j = None}" "distinct (F @ [i])"
    using P(4,5) i xs by (auto simp: c'(2))
  moreover have "tree_ok s' (Q(i := None))"
  proof -
    have "is_cstr (mb_name (mboxes_of s' ! j))" if "j < length ?ms" for j
      using T(2) [OF that] m(2) i by (simp add: c'(2) nth_list_update is_cstr_def)
    then show ?thesis using I(1,2,3) I(4) [of i m] T(1) unfolding tree_ok_def f'(10) c'(2) by (auto simp: subset_iff)
  qed
  moreover have "\<forall>u v j. my_threadlocal_mbox s' u = Some j \<longrightarrow> my_threadlocal_mbox s' v = Some j \<longrightarrow> u = v"
    using P(11) unfolding f'(1) by (metis fun_upd_apply option.distinct(1))
  ultimately show ?thesis
    using P(8,9,12,13) f'(5-9,11) by (simp add: proc_ok_def)
qed

definition deleted :: "itc_mailbox \<Rightarrow> itc_mailbox" where
  "deleted m = m\<lparr>mb_state := MBOX_UNUSED, is_fd_created := False, p_rxq_info := False, mb_name := [], mb_tid := 0,
     rxq_mtx := None\<rparr>"

lemma itc_delete_mailbox_spec:
  assumes p: "proc_ok k s Q F" and t: "my_threadlocal_mbox s t = Some i" and xs: "Q i = Some xs"
  shows "\<exists>s'. itc_delete_mailbox t (mbx_id i s) s = Inr (True, s') \<and> proc_ok k s' (Q(i := None)) (F @ [i]) \<and>
           my_threadlocal_mbox s' = (my_threadlocal_mbox s)(t := None) \<and> name_tree s' = tree_del i s \<and>
           rcs s' = (rcs s)(t := BLive 0) \<and> malloc_results (msgs s') = malloc_results (msgs s) \<and>
           (\<forall>x. x \<noteq> i \<longrightarrow> mboxes_of s' ! x = mboxes_of s ! x) \<and>
           (\<forall>m. cells (msgs s') m = (if m \<in> set xs then None else cells (msgs s) m))"
proof -
  note P = proc_okD [OF p]
  note R = mbx_repD [OF P(1)]
  note T = tree_okD [OF P(6)]
  note ms = core_cfg_mboxes [OF core_okD(2) [OF P(2)]]
  let ?ms = "mboxes_of s" and ?my = "ii_my_mbox_id_in_itccoord (itc_inst s)"
  have i: "i < length ?ms" by (rule core_okD(5) [OF P(2) xs])
  have mi: "mbox_ok ?my i (?ms ! i) (Some xs)" using core_okD(4) [OF P(2) i] xs by simp
  note mi' = mbox_ok_used [OF mi]
  have id: "mb_id (?ms ! i) = mbx_id i s" by (rule mbox_id_at [OF P(2) i])
  have Tlt: "\<forall>j \<in> set (name_tree s). j < length ?ms \<and> is_cstr (mb_name (?ms ! j))"
    using T(1,2) core_okD(5) [OF P(2)] by blast
  obtain w where w: "rcs s t = BLive w" using R(4) [OF t] by blast
  define sA where "sA = s\<lparr>itc_inst := (itc_inst s)\<lparr>local_locating_mbox_tree := tree_del i s\<rparr>\<rparr>"
  obtain b where rm: "remove_mbox_from_tree i s = Inr (b, sA)"
    using remove_mbox_with [OF ms(1) i T(2) [OF i] Tlt] by (auto simp: sA_def)
  have A: "mboxes (itc_inst sA) = BLive ?ms" "rcs sA = rcs s" "sys sA = []" using ms(1) R(2) by (simp_all add: sA_def)
  define m1 where "m1 = closing t (?ms ! i)"
  define s1 where "s1 = with_mboxes (?ms[i := m1]) (sA\<lparr>rcs := (rcs sA)(t := BLive 0)\<rparr>)"
  have coord: "is_coord s1" using P(7) by (simp add: is_coord_def s1_def sA_def)
  have lq1: "local_queues s1 k Q"
    using core_okD(1) [OF P(2)] local_queues_cong [of s1 s] by (simp add: s1_def sA_def)
  have at1: "mbox_at i s1 = Inr m1" using i by (simp add: s1_def)
  have idx: "is_local (mb_id m1) s1" "local_index (mb_id m1) = i"
    using own_ids(1,2) [OF core_okD(2,3) [OF P(2)] i] id
    by (simp_all add: is_local_def mbx_id_def s1_def sA_def m1_def closing_def)
  have ik: "i < 2 ^ k" using i ms(2) by simp
  have rc1: "rcs s1 t = BLive 0" by (simp add: s1_def)
  have al1: "alloc_state t s1" using P(9,10,12,13) by (simp add: alloc_state_def s1_def sA_def)
  obtain s2 sx where d: "local_delete_mbox t i s1 = Inr s2" "local_queues s2 k (Q(i := None))" "only_queues s1 sx"
      "s2 = sx\<lparr>local_inst := put_slot i local_mbox_data0 s1\<rparr>" "rcs s2 = rcs s1"
      "malloc_results (litems s2) = malloc_results (litems s1)" "fresh (msgs s2) = fresh (msgs s1)"
      "malloc_results (msgs s2) = malloc_results (msgs s1)"
      "\<forall>m. cells (msgs s2) m = (if m \<in> set xs then None else cells (msgs s1) m)"
    using local_delete_mbox_spec [OF lq1 at1 idx ik xs rc1 al1] by blast
  note O = only_queues_same [OF d(3)]
  have ms2: "mboxes (itc_inst s2) = BLive (?ms[i := m1])" using O(2) by (simp add: d(4) s1_def)
  define m2 where "m2 = m1\<lparr>p_rxq_info := False, mb_name := [], mb_tid := 0\<rparr>"
  define s3 where "s3 = with_mboxes (?ms[i := m2]) s2"
  have rc3: "rcs s3 t = BLive 0" "rc_set t ITC_OK s3 = Inr s3"
    using d(5) rc1 by (simp_all add: s3_def with_mboxes_def fun_upd_idem)
  have "length F < 2 ^ 32 - 1"
  proof -
    have "length F \<le> length ?ms" using P(4,5) card_mono [of "{..<length ?ms}" "set F"]
      by (auto simp: distinct_card [symmetric] lessThan_def)
    moreover have "(2::nat) ^ k \<le> 2 ^ 16" using core_okD(3) [OF P(2)] by (intro power_increasing) auto
    ultimately show ?thesis using ms(2) by simp
  qed
  moreover have "free_rep s3 F" using P(3) O(2,7) by (simp add: free_rep_def s3_def d(4) s1_def sA_def)
  ultimately obtain q' h' where e: "free_enqueue t i s3 = Inr (s3\<lparr>itc_inst := (itc_inst s3)\<lparr>free_mboxes_queue := BLive q'\<rparr>, qnodes := h'\<rparr>)"
      "free_rep (s3\<lparr>itc_inst := (itc_inst s3)\<lparr>free_mboxes_queue := BLive q'\<rparr>, qnodes := h'\<rparr>) (F @ [i])"
    using free_enqueue_ok [of s3 F t i] rc3(1) by auto
  define s4 where "s4 = s3\<lparr>itc_inst := (itc_inst s3)\<lparr>free_mboxes_queue := BLive q'\<rparr>, qnodes := h'\<rparr>"
  define s5 where "s5 = with_mboxes (?ms[i := deleted (?ms ! i)]) s4"
  have ms4: "mboxes (itc_inst s4) = BLive (?ms[i := m2])" "rcs s4 t = BLive 0"
    using rc3(1) by (simp_all add: s4_def s3_def)
  have ul: "mutex_unlock t i s4 = Inr s5"
    using mutex_with(2) [OF ms4(1), of i t] i by (simp add: s5_def m2_def m1_def closing_def deleted_def)
  define s' where "s' = s5\<lparr>my_threadlocal_mbox := (my_threadlocal_mbox s5)(t := None)\<rparr>"
  have same1: "s1\<lparr>rcs := (rcs s1)(t := BLive 0)\<rparr> = s1" by (simp add: s1_def with_mboxes_def)
  have td: "trans_delete trans_mechanisms t i s1 = Inr (True, s2)"
    by (rule trans_delete_local [OF rc1]) (simp_all only: same1 d(1,5) rc1)
  have up: "mbox_upd i (\<lambda>m. m\<lparr>p_rxq_info := False, mb_name := [], mb_tid := 0\<rparr>) s2 = Inr s3"
    using mbox_upd_with [OF ms2] i by (simp add: s3_def m2_def)
  have run: "itc_delete_mailbox t (mbx_id i s) s = Inr (True, s')"
    unfolding itc_delete_mailbox_def
    using ms(1) t i id w
    by (simp add: rm delete_prepare [OF A(1) i mi'(4,2) w [folded A(2)] A(3)] m1_def [symmetric]
        s1_def [symmetric] notify_coord_is_coord [OF coord] td up rc3 e(1) s4_def [symmetric] ms4(2) ul
        s'_def [symmetric] del: mbox_upd_live ITC_OK_def) simp
  have f': "my_threadlocal_mbox s' = (my_threadlocal_mbox s)(t := None)" "rcs s' = (rcs s)(t := BLive 0)" "sys s' = []"
      "malloc_results (litems s') = []" "mallocs s' = mallocs s" "alloc_ready s' = alloc_ready s"
      "name_tree s' = tree_del i s" "max_mallocsize s' = max_mallocsize s" "msgs s' = msgs s2"
    using O d(4,5,6) R(2,3) A(3)
    by (simp_all add: s'_def s5_def s4_def s3_def s1_def sA_def)
  have hp: "heap_ok (msgs s')"
    using P(10) d(7,9) unfolding f'(9) by (simp add: heap_ok_def s1_def sA_def)
  have fr: "free_rep s' (F @ [i])" "is_coord s'"
    using e(2) coord O(2) by (simp_all add: free_rep_def s'_def s5_def s4_def is_coord_def s3_def d(4))
  have ii: "mboxes (itc_inst s') = BLive (?ms[i := deleted (?ms ! i)])" "nr_mboxes (itc_inst s') = nr_mboxes (itc_inst s)"
      "ii_local_mbox_mask (itc_inst s') = ii_local_mbox_mask (itc_inst s)"
      "ii_itccoord_mask (itc_inst s') = ii_itccoord_mask (itc_inst s)"
      "ii_my_mbox_id_in_itccoord (itc_inst s') = ii_my_mbox_id_in_itccoord (itc_inst s)"
      "local_inst s' = put_slot i local_mbox_data0 s"
    using O(1,2) by (simp_all add: s'_def s5_def s4_def s3_def d(4) s1_def sA_def put_slot_def slots_of_def)
  have lq': "local_queues s' k (Q(i := None))"
    using d(2) local_queues_cong [of s' s2] by (simp add: s'_def s5_def s4_def s3_def)
  have m': "mbox_ok ?my i (deleted (?ms ! i)) None" "mb_name (deleted (?ms ! i)) = []"
    using mi by (simp_all add: mbox_ok_def deleted_def)
  note ok = proc_ok_unuse [OF p t f'(1-4) hp f'(5,6) fr f'(7,8) ii lq' m']
  have "\<forall>m. cells (msgs s') m = (if m \<in> set xs then None else cells (msgs s) m)"
    using d(9) unfolding f'(9) by (simp add: s1_def sA_def)
  moreover have "malloc_results (msgs s') = malloc_results (msgs s)"
    using d(8) unfolding f'(9) by (simp add: s1_def sA_def)
  moreover have "\<forall>x. x \<noteq> i \<longrightarrow> mboxes_of s' ! x = ?ms ! x" using ii(1) by (simp add: mboxes_of_def)
  ultimately show ?thesis using run ok f'(1,2,7) by blast
qed

end
