(* ===== verification/Itc_Api.thy ===== *)
theory Itc_Api
  imports Itc_Lifecycle
begin

text \<open>
  A process that calls the framework from any of its threads, in any order: the calls as a data
  type, their execution, and the invariant that every reachable state has.
\<close>

unbundle bit_operations_syntax

section \<open>Calls\<close>

datatype api_call =
    CreateMailbox nat cstr u32
  | DeleteMailbox nat itc_mbox_id
  | SendMessage nat nat itc_mbox_id
  | ReceiveMessage nat
  | AllocMessage nat nat u32
  | FreeMessage nat nat
  | GetFd nat

fun api_exec :: "api_call \<Rightarrow> proc \<Rightarrow> proc outcome" where
  "api_exec (CreateMailbox t name flags) s = bindE (itc_create_mailbox t name flags s) (\<lambda>(r, s). Inr s)"
| "api_exec (DeleteMailbox t x) s = bindE (itc_delete_mailbox t x s) (\<lambda>(r, s). Inr s)"
| "api_exec (SendMessage t m to) s = bindE (itc_send t (Some m) to ITC_MY_MBOX_ID None [] s) (\<lambda>(r, s). Inr s)"
| "api_exec (ReceiveMessage t) s = bindE (itc_receive t ITC_NO_WAIT [] s) (\<lambda>(r, s). Inr s)"
| "api_exec (AllocMessage t n msgno) s = bindE (itc_alloc t (of_nat n) msgno s) (\<lambda>(r, s). Inr s)"
| "api_exec (FreeMessage t m) s = bindE (itc_free t (Some m) s) (\<lambda>(r, s). Inr s)"
| "api_exec (GetFd t) s = bindE (itc_get_fd t s) (\<lambda>(r, s). Inr s)"

text \<open>
  What the caller has to respect: names are strings of a permitted length, messages that are passed
  on are the caller's and not in a queue, receivers belong to the process, and sizes are within
  what the allocator grants.
\<close>

fun api_pre :: "api_call \<Rightarrow> proc \<Rightarrow> bool" where
  "api_pre (CreateMailbox t name flags) s = (is_cstr name \<and> length name < ITC_MAX_NAME_LENGTH)"
| "api_pre (SendMessage t m to) s = (mbx_held s m \<and> (\<exists>j. mbx_valid s j \<and> to = mbx_id j s))"
| "api_pre (AllocMessage t n msgno) s = (max 4 n + 17 \<le> nat (max_mallocsize s))"
| "api_pre (FreeMessage t m) s = mbx_held s m"
| "api_pre _ s = True"

definition api_ok :: "nat \<Rightarrow> proc \<Rightarrow> bool" where
  "api_ok k s \<longleftrightarrow> (\<exists>Q F. proc_ok k s Q F) \<and> malloc_results (msgs s) = [] \<and> (\<forall>t. rcs s t \<noteq> BFreed)"

lemma api_has_rc: "proc_ok k s Q F \<Longrightarrow> rcs s t \<noteq> BFreed \<Longrightarrow> has_rc t s"
  using proc_okD(8) by (cases "rcs s t") (auto simp: has_rc_def)

section \<open>The queues\<close>

lemma tree_ok_same:
  assumes "tree_ok s Q" and "map mb_name (mboxes_of s') = map mb_name (mboxes_of s)" and "name_tree s' = name_tree s"
    and "\<And>i. Q' i = None \<longleftrightarrow> Q i = None" and "\<And>i. i \<in> set (name_tree s) \<Longrightarrow> i < length (mboxes_of s)"
  shows "tree_ok s' Q'"
proof -
  have len: "length (mboxes_of s') = length (mboxes_of s)" using assms(2) by (metis length_map)
  have n: "mb_name (mboxes_of s' ! i) = mb_name (mboxes_of s ! i)" if "i < length (mboxes_of s)" for i
    using assms(2) len that by (metis nth_map)
  have e: "map (\<lambda>i. mb_name (mboxes_of s' ! i)) (name_tree s) = map (\<lambda>i. mb_name (mboxes_of s ! i)) (name_tree s)"
    using n assms(5) by simp
  have "\<exists>xs. Q' i = Some xs" if "i \<in> set (name_tree s)" for i
    using assms(4) tree_okD(1) [OF assms(1) that] by (metis not_Some_eq)
  then show ?thesis
    using tree_okD [OF assms(1)] n len unfolding tree_ok_def assms(3) e by simp
qed

lemma proc_ok_keeps:
  assumes p: "proc_ok k s Q F" and r: "mbx_rep k s' Q'" and kp: "keeps t s s'"
    and q: "\<And>i. Q' i = None \<longleftrightarrow> Q i = None"
  shows "proc_ok k s' Q' F"
proof (cases "s' = s")
  case True
  have "i < length (mboxes_of s)" if "i \<in> set (name_tree s)" for i
    using tree_okD(1) [OF proc_okD(6) [OF p] that] core_okD(5) [OF proc_okD(2) [OF p]] by blast
  then have "tree_ok s Q'" by (intro tree_ok_same [OF proc_okD(6) [OF p] refl refl q])
  then show ?thesis using True p r q unfolding proc_ok_def by simp
next
  case False
  note P = proc_okD [OF p]
  have sr: "same_rest t s s'" "heap_ok (msgs s')" using False kp P(10) by (simp_all add: keeps_def)
  then have f: "my_threadlocal_mbox s' = my_threadlocal_mbox s" "mallocs s' = mallocs s" "qnodes s' = qnodes s"
      "alloc_ready s' = alloc_ready s" "max_mallocsize s' = max_mallocsize s"
      "map mb_name (mboxes_of s') = map mb_name (mboxes_of s)"
      "itc_inst s' = (itc_inst s)\<lparr>mboxes := mboxes (itc_inst s')\<rparr>"
    by (simp_all add: same_rest_def)
  have g: "free_mboxes_queue (itc_inst s') = free_mboxes_queue (itc_inst s)" "name_tree s' = name_tree s"
      "ii_my_mbox_id_in_itccoord (itc_inst s') = ii_my_mbox_id_in_itccoord (itc_inst s)"
      "ii_itccoord_mbox_id (itc_inst s') = ii_itccoord_mbox_id (itc_inst s)"
      "ii_itccoord_mask (itc_inst s') = ii_itccoord_mask (itc_inst s)"
    by (subst f(7); simp)+
  have "tree_ok s' Q'"
    using tree_ok_same [OF P(6) f(6) g(2) q] tree_okD(1) [OF P(6)] core_okD(5) [OF P(2)] by blast
  moreover have "free_rep s' F" "is_coord s'" using P(3,7) f(3) g by (simp_all add: free_rep_def is_coord_def)
  moreover have "length (mboxes_of s') = length (mboxes_of s)" using f(6) by (metis length_map)
  ultimately show ?thesis using P(4,5,8,9,11,12,13) f sr(2) r q by (simp add: proc_ok_def)
qed

lemma api_ok_keeps:
  assumes a: "api_ok k s" and p: "proc_ok k s Q F" and r: "mbx_rep k s' Q'" and kp: "keeps t s s'"
    and q: "\<And>i. Q' i = None \<longleftrightarrow> Q i = None"
  shows "api_ok k s'"
proof -
  have "malloc_results (msgs s') = [] \<and> (\<forall>u. rcs s' u \<noteq> BFreed)"
  proof (cases "s' = s")
    case True
    then show ?thesis using a by (simp add: api_ok_def)
  next
    case False
    then have "same_rest t s s'" using kp by (simp add: keeps_def)
    then have "malloc_results (msgs s') = malloc_results (msgs s)" "\<And>u. u \<noteq> t \<Longrightarrow> rcs s' u = rcs s u" "\<exists>w. rcs s' t = BLive w"
      by (simp_all add: same_rest_def)
    then show ?thesis using a unfolding api_ok_def by (metis block.distinct(5))
  qed
  then show ?thesis using proc_ok_keeps [OF p r kp q] by (auto simp: api_ok_def)
qed

lemma api_send:
  assumes a: "api_ok k s" and "mbx_held s m" and "mbx_valid s j"
  shows "\<exists>r s'. itc_send t (Some m) (mbx_id j s) ITC_MY_MBOX_ID None [] s = Inr (r, s') \<and> api_ok k s'"
proof -
  obtain Q F where p: "proc_ok k s Q F" using a by (auto simp: api_ok_def)
  note R = proc_okD(1) [OF p]
  show ?thesis
  proof (cases "my_threadlocal_mbox s t = None \<or> my_threadlocal_mbox s t = Some j \<or> Q j = None")
    case True
    obtain s' where "mbx_send t j m s = Inr (False, s')" "mbx_rep k s' Q" "keeps t s s'"
      using mbx_send_refused_law [OF R True assms(3,2)] by blast
    then show ?thesis using api_ok_keeps [OF a p, of s' Q t] unfolding mbx_send_def by blast
  next
    case False
    then obtain i xs where i: "my_threadlocal_mbox s t = Some i" "i \<noteq> j" "Q j = Some xs" by auto
    obtain s' where "mbx_send t j m s = Inr (True, s')" "mbx_rep k s' (Q(j \<mapsto> xs @ [m]))" "keeps t s s'"
      using mbx_send_law [OF R i assms(2)] by blast
    then show ?thesis using api_ok_keeps [OF a p, of s' "Q(j \<mapsto> xs @ [m])" t] i(3) unfolding mbx_send_def by auto
  qed
qed

lemma api_receive:
  assumes a: "api_ok k s"
  shows "\<exists>r s'. itc_receive t ITC_NO_WAIT [] s = Inr (r, s') \<and> api_ok k s'"
proof -
  obtain Q F where p: "proc_ok k s Q F" using a by (auto simp: api_ok_def)
  note R = proc_okD(1) [OF p]
  have idle: ?thesis if n: "my_threadlocal_mbox s t = None \<or> (my_threadlocal_mbox s t = Some j \<and> Q j = Some [])" for j
  proof -
    obtain s' where "mbx_recv t s = Inr (None, s')" "mbx_rep k s' Q" "keeps t s s'"
      using mbx_recv_nothing_law [OF R n] by blast
    then show ?thesis using api_ok_keeps [OF a p, of s' Q t] unfolding mbx_recv_def by blast
  qed
  show ?thesis
  proof (cases "my_threadlocal_mbox s t")
    case None
    then show ?thesis using idle by simp
  next
    case (Some j)
    then obtain xs where xs: "Q j = Some xs" using mbx_repD(5) [OF R] by blast
    show ?thesis
    proof (cases xs)
      case Nil
      then show ?thesis using idle [of j] Some xs by simp
    next
      case (Cons m ys)
      then obtain s' where "mbx_recv t s = Inr (Some m, s')" "mbx_rep k s' (Q(j \<mapsto> ys))" "keeps t s s'"
        using mbx_recv_law [OF R Some] xs by blast
      then show ?thesis using api_ok_keeps [OF a p, of s' "Q(j \<mapsto> ys)" t] xs unfolding mbx_recv_def by auto
    qed
  qed
qed

section \<open>Creating and deleting\<close>

lemma api_create:
  assumes a: "api_ok k s" and name: "is_cstr name" "length name < ITC_MAX_NAME_LENGTH"
  shows "\<exists>r s'. itc_create_mailbox t name flags s = Inr (r, s') \<and> api_ok k s'"
proof -
  obtain Q F where p: "proc_ok k s Q F" using a by (auto simp: api_ok_def)
  note P = proc_okD [OF p]
  note ms = core_cfg_mboxes(1) [OF core_okD(2) [OF P(2)]]
  have rc: "has_rc t s" "malloc_results (msgs s) = []" "\<forall>u. rcs s u \<noteq> BFreed"
    using api_has_rc [OF p] a by (simp_all add: api_ok_def)
  show ?thesis
  proof (cases "my_threadlocal_mbox s t")
    case (Some i)
    then show ?thesis using a ms by (simp add: itc_create_mailbox_def)
  next
    case None
    show ?thesis
    proof (cases F)
      case (Cons i F')
      obtain s' where "itc_create_mailbox t name flags s = Inr (mbx_id i s, s')" "proc_ok k s' (Q(i \<mapsto> [])) F'"
          "msgs s' = msgs s" "rcs s' = (rcs s)(t := BLive 0)"
        using itc_create_mailbox_spec [OF p [unfolded Cons] None rc(1) name, of flags] by blast
      then show ?thesis using rc(2,3) by (auto simp: api_ok_def)
    next
      case Nil
      let ?s = "s\<lparr>rcs := (rcs s)(t := BLive 0)\<rparr>"
      obtain u where u: "rc_ensure t s = (True, u)" "rc_set t ITC_OK u = Inr ?s" using rc_open [OF rc(1)] by blast
      have "free_rep ?s []" using P(3) Nil by (simp add: free_rep_def)
      then have d: "free_dequeue t ?s = Inr (None, ?s\<lparr>rcs := (rcs ?s)(t := BLive (0 OR ITC_QUEUE_EMPTY))\<rparr>)"
        by (rule free_dequeue_none) simp
      have run: "itc_create_mailbox t name flags s = Inr (ITC_NO_MBOX_ID, ?s)"
        using ms None u(1) by (simp add: itc_create_mailbox_def u(2) [simplified] d [simplified])
      have sr: "same_rest t s ?s" by (simp add: same_rest_def mboxes_of_def)
      have c: "core_ok ?s k Q"
        using P(2) local_queues_cong [of ?s s] core_ok_cong [of ?s s] by simp
      have "mbx_rep k ?s Q" by (rule mbx_rep_step [OF P(1) c sr]) (use mbx_repD(3) [OF P(1)] in auto)
      then show ?thesis using run api_ok_keeps [OF a p, of ?s Q t] sr by (simp add: keeps_def)
    qed
  qed
qed

lemma api_delete:
  assumes a: "api_ok k s"
  shows "\<exists>r s'. itc_delete_mailbox t x s = Inr (r, s') \<and> api_ok k s'"
proof -
  obtain Q F where p: "proc_ok k s Q F" using a by (auto simp: api_ok_def)
  note P = proc_okD [OF p]
  note ms = core_cfg_mboxes(1) [OF core_okD(2) [OF P(2)]]
  show ?thesis
  proof (cases "my_threadlocal_mbox s t")
    case None
    then show ?thesis using a ms by (auto simp: itc_delete_mailbox_def)
  next
    case (Some i)
    then obtain xs where xs: "Q i = Some xs" using mbx_repD(5) [OF P(1)] by blast
    have i: "i < length (mboxes_of s)" by (rule core_okD(5) [OF P(2) xs])
    show ?thesis
    proof (cases "x = mbx_id i s")
      case False
      then show ?thesis using a ms Some i mbox_id_at [OF P(2) i] by (auto simp: itc_delete_mailbox_def)
    next
      case True
      obtain s' where "itc_delete_mailbox t (mbx_id i s) s = Inr (True, s')" "proc_ok k s' (Q(i := None)) (F @ [i])"
          "rcs s' = (rcs s)(t := BLive 0)" "malloc_results (msgs s') = malloc_results (msgs s)"
        using itc_delete_mailbox_spec [OF p Some xs] by blast
      then show ?thesis using a True by (auto simp: api_ok_def)
    qed
  qed
qed

section \<open>Messages\<close>

text \<open>Operations on messages do not depend on whether the thread already has a result code.\<close>

lemma has_rc_live:
  assumes "has_rc t s" and "mboxes (itc_inst s) \<noteq> BNull"
  shows "itc_alloc t sz k s = itc_alloc t sz k (s\<lparr>rcs := (rcs s)(t := BLive 0)\<rparr>)"
    "cells (msgs s) m = Some bs \<Longrightarrow> wf_msg bs \<Longrightarrow> \<not> inrx bs \<Longrightarrow>
       itc_free t (Some m) s = itc_free t (Some m) (s\<lparr>rcs := (rcs s)(t := BLive 0)\<rparr>)"
proof -
  obtain u where u: "rc_ensure t s = (True, u)" "rc_set t ITC_OK u = Inr (s\<lparr>rcs := (rcs s)(t := BLive 0)\<rparr>)"
    using rc_open [OF assms(1)] by blast
  show "itc_alloc t sz k s = itc_alloc t sz k (s\<lparr>rcs := (rcs s)(t := BLive 0)\<rparr>)"
    using u assms(2) by (simp add: itc_alloc_def Let_def)
  show "itc_free t (Some m) s = itc_free t (Some m) (s\<lparr>rcs := (rcs s)(t := BLive 0)\<rparr>)"
    if "cells (msgs s) m = Some bs" "wf_msg bs" "\<not> inrx bs"
  proof -
    have "length bs = unat (fld 12 bs) + 17" "20 < length bs" using that(2) by (auto simp: wf_msg_def)
    moreover have "slice (16 + unat (fld 12 bs)) 1 bs = [0xAA]"
      using that(2) by (auto simp: wf_msg_def slice_def simp flip: Cons_nth_drop_Suc)
    ultimately show ?thesis
      using u that(1,3) assms(2) by (simp add: itc_free_def inrx_def get_bytes_def)
  qed
qed

text \<open>Messages that are in no queue can be written, added and removed.\<close>

lemma local_queues_msgs:
  assumes "local_queues s k Q" and "local_inst s' = local_inst s" and "litems s' = litems s"
    and "\<And>m bs. cells (msgs s) m = Some bs \<Longrightarrow> inrx bs \<Longrightarrow> cells (msgs s') m = Some bs"
  shows "local_queues s' k Q"
proof -
  obtain P where P: "lrep s k P Q" using assms(1) by (auto simp: local_queues_def)
  have "queued_ok s' x" if "i < 2 ^ k" "x \<in> set (elems (Q i))" for i x
    using lrepD(5) [OF P that] assms(4) unfolding queued_ok_def by blast
  then have "lrep s' k P Q"
    using P assms(2,3) by (simp add: lrep_def local_cfg_def slots_of_def)
  then show ?thesis by (auto simp: local_queues_def)
qed

lemma proc_ok_msgs:
  assumes p: "proc_ok k s Q F" and s': "s' = s\<lparr>rcs := (rcs s)(t := BLive 0), msgs := mh\<rparr>" and mh: "heap_ok mh"
    and "\<And>m bs. cells (msgs s) m = Some bs \<Longrightarrow> inrx bs \<Longrightarrow> cells mh m = Some bs"
  shows "proc_ok k s' Q F"
proof -
  note P = proc_okD [OF p]
  have "local_queues s' k Q"
    by (rule local_queues_msgs [OF core_okD(1) [OF P(2)]]) (simp_all add: s' assms(4))
  then have c: "core_ok s' k Q" using P(2) core_okD(1) [OF P(2)] core_ok_cong [of s' s k Q] by (simp add: s')
  have "mbx_rep k s' Q"
    using c mbx_repD [OF P(1)] by (auto simp: mbx_rep_def s')
  moreover have "free_rep s' F" "tree_ok s' Q" "is_coord s'" "mboxes_of s' = mboxes_of s"
    using P(3,6,7) by (simp_all add: free_rep_def tree_ok_def is_coord_def mboxes_of_def s')
  ultimately show ?thesis
    using P(4,5,8,9,11,12,13) mh by (simp add: proc_ok_def s')
qed

lemma api_ok_msgs:
  assumes a: "api_ok k s" and s': "s' = s\<lparr>rcs := (rcs s)(t := BLive 0), msgs := mh\<rparr>"
    and mh: "heap_ok mh" "malloc_results mh = []"
    and old: "\<And>m bs. cells (msgs s) m = Some bs \<Longrightarrow> inrx bs \<Longrightarrow> cells mh m = Some bs"
  shows "api_ok k s'"
proof -
  obtain Q F where "proc_ok k s Q F" using a by (auto simp: api_ok_def)
  then have "proc_ok k s' Q F" by (rule proc_ok_msgs [OF _ s' mh(1) old])
  then show ?thesis using a mh(2) by (auto simp: api_ok_def s')
qed

lemma api_alloc_state:
  assumes "api_ok k s"
  shows "alloc_state t (s\<lparr>rcs := (rcs s)(t := BLive 0)\<rparr>)" "has_rc t s" "mboxes (itc_inst s) \<noteq> BNull"
proof -
  obtain Q F where p: "proc_ok k s Q F" using assms by (auto simp: api_ok_def)
  note P = proc_okD [OF p]
  show "alloc_state t (s\<lparr>rcs := (rcs s)(t := BLive 0)\<rparr>)"
    using P(9,10,12,13) core_cfg_mboxes(1) [OF core_okD(2) [OF P(2)]] by (simp add: alloc_state_def)
  show "mboxes (itc_inst s) \<noteq> BNull" using core_cfg_mboxes(1) [OF core_okD(2) [OF P(2)]] by simp
  show "has_rc t s" using api_has_rc [OF p] assms by (simp add: api_ok_def)
qed

lemma itc_alloc_spec:
  fixes t :: nat and msgno :: u32
  assumes a: "api_ok k s" and n: "max 4 n + 17 \<le> nat (max_mallocsize s)"
  defines "s' \<equiv> s\<lparr>rcs := (rcs s)(t := BLive 0),
      msgs := (msgs s)\<lparr>cells := (cells (msgs s))(fresh (msgs s) \<mapsto> new_message (max 4 n) msgno),
        fresh := Suc (fresh (msgs s)), malloc_results := tl (malloc_results (msgs s))\<rparr>\<rparr>"
  shows "itc_alloc t (of_nat n) msgno s = Inr (Some (fresh (msgs s)), s')" "api_ok k s'"
    "proc_ok k s Q F \<Longrightarrow> proc_ok k s' Q F"
proof -
  note A = api_alloc_state(1,2) [OF a, of t] api_alloc_state(3) [OF a]
  have mr: "malloc_results (msgs s) = []" using a by (simp add: api_ok_def)
  have hp: "heap_ok (msgs s)" using A(1) by (simp add: alloc_state_def)
  show "itc_alloc t (of_nat n) msgno s = Inr (Some (fresh (msgs s)), s')"
    using itc_alloc_ok [OF A(1), of n msgno] n mr has_rc_live(1) [OF A(2,3)] by (simp add: can_alloc_def s'_def)
  let ?mh = "(msgs s)\<lparr>cells := (cells (msgs s))(fresh (msgs s) \<mapsto> new_message (max 4 n) msgno),
      fresh := Suc (fresh (msgs s)), malloc_results := tl (malloc_results (msgs s))\<rparr>"
  have mh: "heap_ok ?mh" "malloc_results ?mh = []" "\<And>m bs. cells (msgs s) m = Some bs \<Longrightarrow> inrx bs \<Longrightarrow> cells ?mh m = Some bs"
    using hp mr heap_ok_fresh [OF hp] by (auto simp: heap_ok_def)
  show "api_ok k s'" unfolding s'_def by (rule api_ok_msgs [OF a refl mh])
  show "proc_ok k s' Q F" if "proc_ok k s Q F" unfolding s'_def by (rule proc_ok_msgs [OF that refl mh(1,3)])
qed

lemma api_alloc:
  "api_ok k s \<Longrightarrow> max 4 n + 17 \<le> nat (max_mallocsize s) \<Longrightarrow>
     \<exists>r s'. itc_alloc t (of_nat n) msgno s = Inr (r, s') \<and> api_ok k s'"
  using itc_alloc_spec(1,2) by blast

lemma api_free:
  assumes a: "api_ok k s" and h: "mbx_held s m"
  shows "\<exists>r s'. itc_free t (Some m) s = Inr (r, s') \<and> api_ok k s'"
proof -
  let ?s = "s\<lparr>rcs := (rcs s)(t := BLive 0)\<rparr>" and ?mh = "(msgs s)\<lparr>cells := (cells (msgs s))(m := None)\<rparr>"
  obtain bs where m: "cells (msgs s) m = Some bs" "wf_msg bs" "\<not> inrx bs" using h by (auto simp: mbx_held_def)
  note A = api_alloc_state(1,2) [OF a, of t] api_alloc_state(3) [OF a]
  have mr: "malloc_results (msgs s) = []" using a by (simp add: api_ok_def)
  have hp: "heap_ok (msgs s)" using A(1) by (simp add: alloc_state_def)
  have e: "itc_free t (Some m) s = Inr (True, s\<lparr>rcs := (rcs s)(t := BLive 0), msgs := ?mh\<rparr>)"
    using itc_free_ok [OF A(1), of m bs] m has_rc_live(2) [OF A(2,3) m] by simp
  have "api_ok k (s\<lparr>rcs := (rcs s)(t := BLive 0), msgs := ?mh\<rparr>)"
  proof (rule api_ok_msgs [OF a refl])
    show "heap_ok ?mh" using hp by (simp add: heap_ok_def)
    show "malloc_results ?mh = []" using mr by simp
    show "cells ?mh x = Some bs'" if "cells (msgs s) x = Some bs'" "inrx bs'" for x bs'
      using that m by auto
  qed
  then show ?thesis using e by blast
qed

section \<open>The event descriptor\<close>

lemma itc_get_fd_spec:
  assumes p: "proc_ok k s Q F" and t: "my_threadlocal_mbox s t = Some i" and xs: "Q i = Some xs"
  shows "\<exists>r s'. itc_get_fd t s = Inr (r, s') \<and> mbx_rep k s' Q \<and> keeps t s s' \<and>
           is_fd_created (mboxes_of s' ! i) \<and> (0 < evfd_count (mboxes_of s' ! i) \<longleftrightarrow> xs \<noteq> [])"
proof -
  note P = proc_okD [OF p]
  note R = mbx_repD [OF P(1)]
  note ms = core_cfg_mboxes(1) [OF core_okD(2) [OF P(2)]]
  let ?ms = "mboxes_of s" and ?my = "ii_my_mbox_id_in_itccoord (itc_inst s)"
  have i: "i < length ?ms" by (rule core_okD(5) [OF P(2) xs])
  have mi: "mbox_ok ?my i (?ms ! i) (Some xs)" using core_okD(4) [OF P(2) i] xs by simp
  note mi' = mbox_ok_used [OF mi]
  obtain w where w: "rcs s t = BLive w" using R(4) [OF t] by blast
  let ?s = "s\<lparr>rcs := (rcs s)(t := BLive 0)\<rparr>"
  have S: "mboxes (itc_inst ?s) = BLive ?ms" "sys ?s = []" using ms R(2) by simp_all
  define m' where "m' = (if is_fd_created (?ms ! i) then (?ms ! i)\<lparr>rxq_mtx := None\<rparr>
     else if xs = [] then (?ms ! i)\<lparr>rxq_fd := 0, is_fd_created := True, evfd_count := 0, rxq_mtx := None\<rparr>
     else (?ms ! i)\<lparr>rxq_fd := 0, is_fd_created := True, evfd_count := Suc 0, rxq_mtx := None\<rparr>)"
  define s' where "s' = with_mboxes (?ms[i := m']) ?s"
  have "\<exists>r. itc_get_fd t s = Inr (r, s')"
  proof (cases "is_fd_created (?ms ! i)")
    case True
    then show ?thesis
      using ms t w mi'(2,4) i S
      by (simp add: itc_get_fd_def rxq_with s'_def m'_def del: mbox_upd_live)
  next
    case False
    then show ?thesis
      using ms t w mi'(2,4,5) i S
      by (simp add: itc_get_fd_def rxq_with mbox_step s'_def m'_def del: mbox_upd_live)
  qed
  then obtain r where run: "itc_get_fd t s = Inr (r, s')" by blast
  have m': "is_fd_created m'" "0 < evfd_count m' \<longleftrightarrow> xs \<noteq> []" "mb_name m' = mb_name (?ms ! i)"
      "mb_id m' = mb_id (?ms ! i)" "rxq_mtx m' = None" "mb_state m' = mb_state (?ms ! i)"
      "p_rxq_info m' = p_rxq_info (?ms ! i)" "rxq_len m' = rxq_len (?ms ! i)"
    using mi'(6) by (simp_all add: m'_def)
  have ok': "mbox_ok ?my i m' (Some xs)" using mi m' by (simp add: mbox_ok_def)
  have msx: "mboxes_of s' = ?ms[i := m']" by (simp add: s'_def)
  have c: "core_ok s' k (Q(i := Some xs))"
  proof (rule core_ok_step [OF P(2) i])
    show "itc_inst s' = set_mbox i m' s" by (simp add: s'_def with_mboxes_def set_mbox_def)
    show "local_inst s' = local_inst s \<or> local_inst s' = put_slot i undefined s" by (simp add: s'_def)
    show "local_queues s' k (Q(i \<mapsto> xs))"
      using core_okD(1) [OF P(2)] local_queues_cong [of s' s] xs by (simp add: s'_def fun_upd_idem)
  qed (rule ok')
  have sr: "same_rest t s s'"
    using names_same [OF i m'(3)] by (simp add: same_rest_def msx) (simp add: s'_def with_mboxes_def)
  have "Q(i := Some xs) = Q" using xs by (simp add: fun_upd_idem)
  then have "mbx_rep k s' Q"
    using mbx_rep_step(1) [OF P(1) c sr] R(3) by (simp add: s'_def)
  moreover have "keeps t s s'" using sr by (simp add: keeps_def s'_def)
  ultimately show ?thesis using run m'(1,2) i by (simp add: msx)
qed


lemma api_get_fd:
  assumes a: "api_ok k s"
  shows "\<exists>r s'. itc_get_fd t s = Inr (r, s') \<and> api_ok k s'"
proof -
  obtain Q F where p: "proc_ok k s Q F" using a by (auto simp: api_ok_def)
  note P = proc_okD [OF p]
  show ?thesis
  proof (cases "my_threadlocal_mbox s t")
    case None
    then show ?thesis
      using a core_cfg_mboxes(1) [OF core_okD(2) [OF P(2)]] by (simp add: itc_get_fd_def)
  next
    case (Some i)
    then obtain xs where "Q i = Some xs" using mbx_repD(5) [OF P(1)] by blast
    then obtain r s' where "itc_get_fd t s = Inr (r, s')" "mbx_rep k s' Q" "keeps t s s'"
      using itc_get_fd_spec [OF p Some] by blast
    then show ?thesis using api_ok_keeps [OF a p, of s' Q t] by blast
  qed
qed

section \<open>Every permitted call returns and keeps the invariant\<close>

lemma api_call_ok:
  assumes "api_ok k s" and "api_pre c s"
  shows "\<exists>s'. api_exec c s = Inr s' \<and> api_ok k s'"
proof (cases c)
  case (CreateMailbox t name flags)
  then show ?thesis using api_create [OF assms(1), of name t flags] assms(2) by auto
next
  case (DeleteMailbox t x)
  then show ?thesis using api_delete [OF assms(1), of t x] by auto
next
  case (SendMessage t m to)
  then show ?thesis using api_send [OF assms(1), of m _ t] assms(2) by fastforce
next
  case (ReceiveMessage t)
  then show ?thesis using api_receive [OF assms(1), of t] by auto
next
  case (AllocMessage t n msgno)
  then show ?thesis using api_alloc [OF assms(1), of n t msgno] assms(2) by auto
next
  case (FreeMessage t m)
  then show ?thesis using api_free [OF assms(1), of m t] assms(2) by auto
next
  case (GetFd t)
  then show ?thesis using api_get_fd [OF assms(1), of t] by auto
qed

text \<open>The states that a sequence of permitted calls reaches.\<close>

inductive api_reach :: "proc \<Rightarrow> proc \<Rightarrow> bool" where
  api_start: "api_reach s s"
| api_call: "api_reach s u \<Longrightarrow> api_pre c u \<Longrightarrow> api_exec c u = Inr v \<Longrightarrow> api_reach s v"

inductive_cases api_callE: "api_reach s v"

lemma api_reach_ok:
  assumes "api_reach s u" and "api_ok k s"
  shows "api_ok k u"
  using assms
proof (induction rule: api_reach.induct)
  case (api_call s u c v)
  then show ?case using api_call_ok [of k u c] by auto
qed

end
