(* ===== verification/Itc_Start.thy ===== *)
theory Itc_Start
  imports Itc_Api Itc_Init
begin

text \<open>
  Starting the framework in the coordinator's process: \<open>itc_init\<close> succeeds and leaves the process
  in a state with the invariant of \<open>Itc_Api\<close>, where the receiving thread has the first mailbox and
  all others are free.
\<close>

unbundle bit_operations_syntax

section \<open>The loop over the mailboxes\<close>

definition with_free :: "itc_queue \<Rightarrow> nat qheap \<Rightarrow> proc \<Rightarrow> proc" where
  "with_free q h s = s\<lparr>itc_inst := (itc_inst s)\<lparr>free_mboxes_queue := BLive q\<rparr>, qnodes := h\<rparr>"

definition with_ids :: "itc_mbox_id \<Rightarrow> nat \<Rightarrow> itc_mailbox list \<Rightarrow> itc_mailbox list" where
  "with_ids my j ms = map (\<lambda>i. if j \<le> i then (ms ! i)\<lparr>mb_id := my OR of_nat i\<rparr> else ms ! i) [0..<length ms]"

lemma with_ids_step:
  "j < length ms \<Longrightarrow> with_ids my (Suc j) (ms[j := (ms ! j)\<lparr>mb_id := my OR of_nat j\<rparr>]) = with_ids my j ms"
  by (intro nth_equalityI) (auto simp: with_ids_def nth_list_update le_Suc_eq not_less_eq_eq)

lemma with_ids_end: "length ms \<le> j \<Longrightarrow> with_ids my j ms = ms"
  by (auto simp: with_ids_def intro!: nth_equalityI)

lemma with_free_simps [simp]:
  "mboxes (itc_inst (with_free q h s)) = mboxes (itc_inst s)"
  "with_free q h (with_mboxes ms s) = with_mboxes ms (with_free q h s)"
  "with_free q h (with_free q' h' s) = with_free q h s"
  "sys (with_free q h s) = sys s" "rcs (with_free q h s) = rcs s" "mallocs (with_free q h s) = mallocs s"
  "ii_my_mbox_id_in_itccoord (itc_inst (with_free q h s)) = ii_my_mbox_id_in_itccoord (itc_inst s)"
  by (simp_all add: with_free_def with_mboxes_def)

lemma with_mboxes_lsock [simp]: "lsock_inst (with_mboxes ms s) = lsock_inst s"
  by (simp add: with_mboxes_def)

lemma free_rep_with_mboxes [simp]: "free_rep (with_mboxes ms s) F = free_rep s F"
  by (simp add: free_rep_def)

lemma sys_zeros_Nil [simp]: "sys s = [] \<Longrightarrow> sys_zeros n s = (True, s)"
  by (induction n) simp_all

lemma rc_set_idem: "rcs s t = BLive w \<Longrightarrow> rc_set t w s = Inr s"
  by (simp add: fun_upd_idem)

lemma init_mboxes_from:
  assumes "mboxes (itc_inst s) = BLive ms" and "free_rep s [0..<j]" and "0 < j" and "j \<le> length ms"
    and "sys s = []" and "rcs s t = BLive 0" and "length ms < 2 ^ 32 - 1"
  shows "\<exists>q h. init_mboxes t [j..<length ms] s =
             Inr (True, with_mboxes (with_ids (ii_my_mbox_id_in_itccoord (itc_inst s)) j ms) (with_free q h s)) \<and>
           free_rep (with_free q h s) [0..<length ms]"
  using assms
proof (induction "length ms - j" arbitrary: j ms s)
  case 0
  then obtain q ps where "free_mboxes_queue (itc_inst s) = BLive q" by (auto simp: free_rep_def)
  then have e: "with_free q (qnodes s) s = s" by (simp add: with_free_def)
  have j: "j = length ms" using 0 by simp
  show ?case
    by (rule exI [of _ q], rule exI [of _ "qnodes s"])
      (use 0 j e with_mboxes_same [of s ms] in \<open>simp add: with_ids_end\<close>)
next
  case (Suc n)
  let ?my = "ii_my_mbox_id_in_itccoord (itc_inst s)"
  define ms1 where "ms1 = ms[j := (ms ! j)\<lparr>mb_id := ?my OR of_nat j\<rparr>]"
  have j: "j < length ms" using Suc.hyps(2) by simp
  have l: "length ms1 = length ms" by (simp add: ms1_def)
  define s1 where "s1 = with_mboxes ms1 s"
  have s1: "sys s1 = []" "rcs s1 t = BLive 0" "free_rep s1 [0..<j]" "Suc (length [0..<j]) < 2 ^ 32"
    using Suc.prems j by (simp_all add: s1_def)
  obtain q h where q: "free_enqueue t j s1 = Inr (with_free q h s1)" "free_rep (with_free q h s1) ([0..<j] @ [j])"
    using free_enqueue_ok [OF s1(3,2,4), of j] unfolding with_free_def by blast
  define s2 where "s2 = with_free q h s1"
  have s2: "mboxes (itc_inst s2) = BLive ms1" "sys s2 = []" "rcs s2 t = BLive 0" "free_rep s2 [0..<Suc j]"
      "ii_my_mbox_id_in_itccoord (itc_inst s2) = ?my"
    using s1 q(2) by (simp_all add: s2_def s1_def)
  obtain q' h' where r: "init_mboxes t [Suc j..<length ms1] s2 =
        Inr (True, with_mboxes (with_ids ?my (Suc j) ms1) (with_free q' h' s2))"
      "free_rep (with_free q' h' s2) [0..<length ms1]"
  proof -
    have n: "n = length ms1 - Suc j" "0 < Suc j" "Suc j \<le> length ms1" "length ms1 < 2 ^ 32 - 1"
      using Suc.hyps(2) Suc.prems(7) j l by simp_all
    show thesis using Suc.hyps(1) [OF n(1) s2(1,4) n(2,3) s2(2,3) n(4)] s2(5) that by auto
  qed
  have up: "mbox_upd j (\<lambda>m. m\<lparr>mb_id := ?my OR of_nat j\<rparr>) s = Inr s1"
    using mbox_upd_with [OF Suc.prems(1) j] by (simp add: s1_def ms1_def)
  have run: "init_mboxes t [j..<length ms] s = init_mboxes t [Suc j..<length ms] s2"
    using Suc.prems(3) j s1(1,2) s2(3) up q(1) rc_set_idem [OF s2(3)]
    by (simp add: upt_conv_Cons s2_def [symmetric] del: mbox_upd_live rc_set_live)
  have "with_free q' h' s2 = with_mboxes ms1 (with_free q' h' s)" by (simp add: s2_def s1_def)
  then show ?case
    using r run l with_ids_step [OF j, of ?my] by (auto simp: ms1_def)
qed


lemma init_mboxes_all:
  assumes ms: "mboxes (itc_inst s) = BLive ms" "0 < length ms" "length ms < 2 ^ 32 - 1"
    and h: "heap_ok (qnodes s)" "malloc_results (qnodes s) = []" "mallocs s = []"
    and rc: "sys s = []" "rcs s t = BLive 0"
  shows "\<exists>q h. init_mboxes t [0..<length ms] s =
             Inr (True, with_mboxes (with_ids (ii_my_mbox_id_in_itccoord (itc_inst s)) 0 ms) (with_free q h s)) \<and>
           free_rep (with_free q h s) [0..<length ms]"
proof -
  let ?my = "ii_my_mbox_id_in_itccoord (itc_inst s)"
  define ms1 where "ms1 = ms[0 := (ms ! 0)\<lparr>mb_id := ?my OR of_nat 0\<rparr>]"
  define s1 where "s1 = with_mboxes ms1 s"
  have up: "mbox_upd 0 (\<lambda>m. m\<lparr>mb_id := ?my OR of_nat 0\<rparr>) s = Inr s1"
    using mbox_upd_with [OF ms(1,2)] by (simp add: s1_def ms1_def)
  define s2 where "s2 = with_free empty_queue (qnodes s) s1"
  have s2: "sys s2 = []" "rcs s2 t = BLive 0" "free_rep s2 []" "mboxes (itc_inst s2) = BLive ms1"
      "ii_my_mbox_id_in_itccoord (itc_inst s2) = ?my"
    using h rc qrep_empty [OF h(1)] by (auto simp: s2_def s1_def free_rep_def with_free_def)
  have iq: "init_free_queue t s1 = Inr s2"
    using h rc by (simp add: init_free_queue_def q_init_def s1_def s2_def with_free_def empty_queue_def
        with_mboxes_def fun_upd_idem)
  obtain q h where q: "free_enqueue t 0 s2 = Inr (with_free q h s2)" "free_rep (with_free q h s2) [0..<1]"
    using free_enqueue_ok [OF s2(3,2), of 0] unfolding with_free_def by auto
  define s3 where "s3 = with_free q h s2"
  have s3: "mboxes (itc_inst s3) = BLive ms1" "free_rep s3 [0..<1]" "0 < (1::nat)" "1 \<le> length ms1"
      "sys s3 = []" "rcs s3 t = BLive 0" "length ms1 < 2 ^ 32 - 1" "ii_my_mbox_id_in_itccoord (itc_inst s3) = ?my"
    using q(2) s2 ms by (simp_all add: s3_def ms1_def Suc_le_eq)
  have run: "init_mboxes t [0..<length ms] s = init_mboxes t [1..<length ms1] s3"
    using ms(2) up iq q(1) rc s2(1,2) rc_set_idem [OF s2(2)] rc_set_idem [OF s3(6)]
    by (simp add: upt_conv_Cons s3_def [symmetric] s1_def ms1_def del: mbox_upd_live rc_set_live)
  obtain q' h' where "init_mboxes t [1..<length ms1] s3 =
        Inr (True, with_mboxes (with_ids ?my 1 ms1) (with_free q' h' s3))"
      "free_rep (with_free q' h' s3) [0..<length ms1]"
    using init_mboxes_from [OF s3(1-7)] s3(8) by auto
  moreover have "with_free q' h' s3 = with_mboxes ms1 (with_free q' h' s)" by (simp add: s3_def s2_def s1_def)
  moreover have "with_ids ?my 1 ms1 = with_ids ?my 0 ms" using with_ids_step [OF ms(2), of ?my] by (simp add: ms1_def)
  ultimately show ?thesis using run by (auto simp: ms1_def)
qed

section \<open>The receiving thread\<close>

lemma is_cstr_rx_mbox_name: "is_cstr (rx_mbox_name my)" "length (rx_mbox_name my) = 24"
proof -
  have h: "hex_digit n \<noteq> 0" if "n < 16" for n
  proof -
    have "n \<in> set [0..<16]" using that by simp
    then show ?thesis by (auto simp: hex_digit_def upt_rec)
  qed
  show "is_cstr (rx_mbox_name my)"
    using h by (auto simp: rx_mbox_name_def hex32_def is_cstr_def ascii_def)
  show "length (rx_mbox_name my) = 24" by (simp add: rx_mbox_name_def hex32_def ascii_def)
qed

lemma proc_ok_other:
  assumes "proc_ok k s Q F"
  shows "proc_ok k (s\<lparr>sysvmq_inst := v, thrman_inst := th\<rparr>) Q F"
proof -
  let ?s = "s\<lparr>sysvmq_inst := v, thrman_inst := th\<rparr>"
  note P = proc_okD [OF assms]
  have "core_ok ?s k Q" using P(2) core_ok_cong [of ?s s k Q] local_queues_cong [of ?s s k Q] by simp
  then have "mbx_rep k ?s Q" using P(1) by (simp add: mbx_rep_def)
  moreover have "mboxes_of ?s = mboxes_of s" by (simp add: mboxes_of_def)
  ultimately show ?thesis using assms by (simp add: proc_ok_def free_rep_def tree_ok_def is_coord_def)
qed


lemma sysvmq_rx_boot_ok:
  assumes p: "proc_ok k s Q (i # F)" and t: "my_threadlocal_mbox s tid = None" "has_rc tid s"
    and sz: "0 < sv_max_msgsize (sysvmq_inst s)"
  shows "\<exists>s'. sysvmq_rx_boot tid s = Inr s' \<and> proc_ok k s' (Q(i \<mapsto> [])) F \<and>
           my_threadlocal_mbox s' = (my_threadlocal_mbox s)(tid \<mapsto> i) \<and> rcs s' = (rcs s)(tid := BLive 0) \<and>
           msgs s' = msgs s \<and> \<not> mtx_locked (thrman_inst s') 0 \<and> th_heap (thrman_inst s') = th_heap (thrman_inst s) \<and>
           max_mallocsize s' = max_mallocsize s \<and>
           ii_my_mbox_id_in_itccoord (itc_inst s') = ii_my_mbox_id_in_itccoord (itc_inst s)"
proof -
  let ?name = "rx_mbox_name (sv_my_mbox_id_in_itccoord (sysvmq_inst s))"
  have name: "is_cstr ?name" "length ?name < ITC_MAX_NAME_LENGTH" using is_cstr_rx_mbox_name by simp_all
  obtain s1 where s1: "itc_create_mailbox tid ?name ITC_NO_NAMESPACE s = Inr (mbx_id i s, s1)"
      "proc_ok k s1 (Q(i \<mapsto> [])) F" "my_threadlocal_mbox s1 = (my_threadlocal_mbox s)(tid \<mapsto> i)"
      "msgs s1 = msgs s" "rcs s1 = (rcs s)(tid := BLive 0)"
      "thrman_inst s1 = thrman_inst s" "sysvmq_inst s1 = sysvmq_inst s" "max_mallocsize s1 = max_mallocsize s"
      "ii_my_mbox_id_in_itccoord (itc_inst s1) = ii_my_mbox_id_in_itccoord (itc_inst s)"
    using itc_create_mailbox_spec [OF p t name, of ITC_NO_NAMESPACE] by blast
  have nil: "sys s = []" "sys s1 = []" "mallocs s1 = []"
    using mbx_repD(2) [OF proc_okD(1) [OF p]] mbx_repD(2) [OF proc_okD(1) [OF s1(2)]] proc_okD(8) [OF s1(2)] by simp_all
  let ?v = "(sysvmq_inst s)\<lparr>sv_my_mbox_id := mbx_id i s, my_sysvmq_id := 0,
      rx_buffer := BLive (replicate (nat (sv_max_msgsize (sysvmq_inst s))) 0)\<rparr>"
  let ?th = "(thrman_inst s)\<lparr>mtx_locked := (mtx_locked (thrman_inst s))(0 := False)\<rparr>"
  have "sysvmq_rx_boot tid s = Inr (s1\<lparr>sysvmq_inst := ?v, thrman_inst := ?th\<rparr>)"
    using nil s1(1,6,7) sz
    by (simp add: sysvmq_rx_boot_def Let_def sysvmq_maxmsgsize_def start_mtx_unlock_def)
  then show ?thesis using proc_ok_other [OF s1(2), where v = ?v and th = ?th] s1(3-5,8,9) by simp
qed

text \<open>\<open>start_itcthreads\<close> with the one thread that \<open>sysvmq_init\<close> has added.\<close>

lemma start_one_thread:
  assumes th: "thread_list (thrman_inst s) = Some a" "cells (th_heap (thrman_inst s)) a = Some th" "th_next th = None"
      "th_worker th = SYSVMQ_RX_THREAD" "start_mtx th = Some 0" "\<not> is_running th"
      "\<not> mtx_locked (thrman_inst s) 0" "0 < fresh (th_heap (thrman_inst s))"
    and p: "proc_ok k s Q (i # F)" and tid: "my_threadlocal_mbox s (next_tid (thrman_inst s)) = None"
      "has_rc (next_tid (thrman_inst s)) s"
    and sz: "0 < sv_max_msgsize (sysvmq_inst s)"
  shows "\<exists>s'. start_itcthreads itc_boot t s = Inr s' \<and> proc_ok k s' (Q(i \<mapsto> [])) F \<and>
           my_threadlocal_mbox s' = (my_threadlocal_mbox s)(next_tid (thrman_inst s) \<mapsto> i) \<and>
           rcs s' = (rcs s)(next_tid (thrman_inst s) := BLive 0) \<and> msgs s' = msgs s \<and>
           max_mallocsize s' = max_mallocsize s \<and>
           ii_my_mbox_id_in_itccoord (itc_inst s') = ii_my_mbox_id_in_itccoord (itc_inst s)"
proof -
  let ?tm = "thrman_inst s" and ?tid = "next_tid (thrman_inst s)"
  have nil: "sys s = []" "mallocs s = []" using mbx_repD(2) [OF proc_okD(1) [OF p]] proc_okD(8) [OF p] by simp_all
  define h1 where "h1 = (th_heap ?tm)\<lparr>cells := (cells (th_heap ?tm))(a \<mapsto> th\<lparr>th_tid := ?tid\<rparr>)\<rparr>"
  define s1 where "s1 = s\<lparr>thrman_inst := ?tm\<lparr>mtx_locked := (mtx_locked ?tm)(0 := True), next_tid := Suc ?tid, th_heap := h1\<rparr>\<rparr>"
  have p1: "proc_ok k s1 Q (i # F)"
    using proc_ok_other [OF p, where v = "sysvmq_inst s" and th = "?tm\<lparr>mtx_locked := (mtx_locked ?tm)(0 := True), next_tid := Suc ?tid, th_heap := h1\<rparr>"]
    by (simp add: s1_def)
  have t1: "my_threadlocal_mbox s1 ?tid = None" "has_rc ?tid s1" "0 < sv_max_msgsize (sysvmq_inst s1)"
    using tid sz by (simp_all add: s1_def has_rc_def)
  obtain s2 where s2: "sysvmq_rx_boot ?tid s1 = Inr s2" "proc_ok k s2 (Q(i \<mapsto> [])) F"
      "my_threadlocal_mbox s2 = (my_threadlocal_mbox s1)(?tid \<mapsto> i)" "rcs s2 = (rcs s1)(?tid := BLive 0)"
      "msgs s2 = msgs s1" "\<not> mtx_locked (thrman_inst s2) 0" "th_heap (thrman_inst s2) = th_heap (thrman_inst s1)"
      "max_mallocsize s2 = max_mallocsize s1"
      "ii_my_mbox_id_in_itccoord (itc_inst s2) = ii_my_mbox_id_in_itccoord (itc_inst s1)"
    using sysvmq_rx_boot_ok [OF p1 t1] by blast
  define th3 where "th3 = (thrman_inst s2)\<lparr>mtx_locked := (mtx_locked (thrman_inst s2))(0 := False),
      th_heap := h1\<lparr>cells := (cells h1)(a \<mapsto> th\<lparr>th_tid := ?tid, is_running := True\<rparr>)\<rparr>\<rparr>"
  obtain n where n: "fresh (th_heap ?tm) = Suc n" using th(8) by (cases "fresh (th_heap ?tm)") auto
  have "start_itcthreads itc_boot t s = Inr (s2\<lparr>thrman_inst := th3\<rparr>)"
    using th nil s2(1,6,7)
    by (simp add: start_itcthreads_def n config_itcthread_def start_mtx_lock_def start_mtx_unlock_def th_upd_def
        th_heap_set_def itc_boot_def s1_def h1_def th3_def)
  moreover have "proc_ok k (s2\<lparr>thrman_inst := th3\<rparr>) (Q(i \<mapsto> [])) F"
    using proc_ok_other [OF s2(2), where v = "sysvmq_inst s2" and th = th3] by simp
  ultimately show ?thesis using s2(3-5,8,9) by (simp add: s1_def)
qed


section \<open>The transports\<close>

lemma shift_loop_coord: "shift_loop 33 ITC_COORD_MASK 0 = Inr ITC_COORD_SHIFT"
  by code_simp

text \<open>\<open>sysvmq_init\<close> the first time, when no call fails: it registers the receiving thread.\<close>

lemma sysvmq_init_ok:
  assumes "\<not> sv_is_initialized (sysvmq_inst s)" and "sys s = []" and "rcs s t = BLive 0"
    and "thread_list (thrman_inst s) = None" and "malloc_results (th_heap (thrman_inst s)) = []"
  shows "\<exists>v th a. sysvmq_init t my ITC_COORD_MASK nr flags s = Inr (s\<lparr>sysvmq_inst := v, thrman_inst := th\<rparr>) \<and>
           sv_max_msgsize v = sv_max_msgsize (sysvmq_inst s) \<and> next_tid th = next_tid (thrman_inst s) \<and>
           thread_list th = Some a \<and> \<not> mtx_locked th 0 \<and> 0 < fresh (th_heap th) \<and>
           cells (th_heap th) a = Some \<lparr>th_next = None, th_worker = SYSVMQ_RX_THREAD, th_tid = 0,
             use_highest_prio = True, start_mtx = Some 0, is_running = False\<rparr>"
  using assms shift_loop_coord
  by (simp add: sysvmq_init_def generate_msqfile_def Let_def start_mtx_unlock_def add_itcthread_def
      can_alloc_def del: shift_loop.simps ITC_COORD_MASK_def) (intro exI, rule conjI, rule refl, simp)

text \<open>The state of a process before its mailboxes are set up.\<close>

definition fresh_proc :: "proc \<Rightarrow> bool" where
  "fresh_proc s \<longleftrightarrow>
     sys s = [] \<and> mallocs s = [] \<and> alloc_ready s \<and> 0 \<le> max_mallocsize s \<and> max_mallocsize s < 2 ^ 32 \<and>
     heap_ok (qnodes s) \<and> malloc_results (qnodes s) = [] \<and> heap_ok (litems s) \<and> malloc_results (litems s) = [] \<and>
     heap_ok (msgs s) \<and> malloc_results (msgs s) = [] \<and> localmbx_data (local_inst s) = BNull \<and>
     \<not> is_coord_running (lsock_inst s) \<and> \<not> sv_is_initialized (sysvmq_inst s) \<and> 0 < sv_max_msgsize (sysvmq_inst s) \<and>
     thread_list (thrman_inst s) = None \<and> malloc_results (th_heap (thrman_inst s)) = [] \<and>
     my_threadlocal_mbox s = (\<lambda>_. None) \<and> (\<forall>u. rcs s u \<noteq> BFreed) \<and> local_locating_mbox_tree (itc_inst s) = [] \<and>
     ii_itccoord_mask (itc_inst s) = ITC_COORD_MASK \<and> is_coord s \<and>
     ii_my_mbox_id_in_itccoord (itc_inst s) AND ITC_COORD_MASK = ii_my_mbox_id_in_itccoord (itc_inst s)"

lemma fresh_procD:
  assumes "fresh_proc s"
  shows "sys s = []" "mallocs s = []" "alloc_ready s" "0 \<le> max_mallocsize s" "max_mallocsize s < 2 ^ 32"
    "heap_ok (qnodes s)" "malloc_results (qnodes s) = []" "heap_ok (litems s)" "malloc_results (litems s) = []"
    "heap_ok (msgs s)" "malloc_results (msgs s) = []" "localmbx_data (local_inst s) = BNull"
    "\<not> is_coord_running (lsock_inst s)" "\<not> sv_is_initialized (sysvmq_inst s)" "0 < sv_max_msgsize (sysvmq_inst s)"
    "thread_list (thrman_inst s) = None" "malloc_results (th_heap (thrman_inst s)) = []"
    "my_threadlocal_mbox s = (\<lambda>_. None)" "\<And>u. rcs s u \<noteq> BFreed" "name_tree s = []"
    "ii_itccoord_mask (itc_inst s) = ITC_COORD_MASK" "is_coord s"
    "ii_my_mbox_id_in_itccoord (itc_inst s) AND ITC_COORD_MASK = ii_my_mbox_id_in_itccoord (itc_inst s)"
  using assms unfolding fresh_proc_def by blast+

text \<open>The mailboxes after the loop, and the invariant they have with an empty table of queues.\<close>

definition idle_mboxes :: "itc_mbox_id \<Rightarrow> nat \<Rightarrow> itc_mailbox list" where
  "idle_mboxes my n = with_ids my 0 (replicate n itc_mailbox0)"

lemma idle_mboxes_nth:
  "length (idle_mboxes my n) = n" "i < n \<Longrightarrow> idle_mboxes my n ! i = itc_mailbox0\<lparr>mb_id := my OR of_nat i\<rparr>"
  by (simp_all add: idle_mboxes_def with_ids_def)

lemma idle_proc_ok:
  assumes fp: "fresh_proc s" and n: "0 < n" "n < 65536"
    and lq: "local_queues s' k (\<lambda>_. None)" "n \<le> 2 ^ k"
    and s': "mboxes (itc_inst s') = BLive (idle_mboxes (ii_my_mbox_id_in_itccoord (itc_inst s)) n)"
      "ii_my_mbox_id_in_itccoord (itc_inst s') = ii_my_mbox_id_in_itccoord (itc_inst s)"
      "ii_itccoord_mask (itc_inst s') = ii_itccoord_mask (itc_inst s)" "is_coord s'"
      "ii_local_mbox_mask (itc_inst s') = mask k" "nr_mboxes (itc_inst s') = of_nat n"
      "li_itccoord_mask (local_inst s') = ITC_COORD_MASK"
      "li_my_mbox_id_in_itccoord (local_inst s') = ii_my_mbox_id_in_itccoord (itc_inst s)"
      "free_rep s' [0..<n]" "name_tree s' = []" "sys s' = []" "litems s' = litems s" "msgs s' = msgs s"
      "my_threadlocal_mbox s' = my_threadlocal_mbox s" "mallocs s' = []" "alloc_ready s'"
      "max_mallocsize s' = max_mallocsize s"
  shows "proc_ok k s' (\<lambda>_. None) [0..<n]"
proof -
  let ?my = "ii_my_mbox_id_in_itccoord (itc_inst s)"
  note f = fresh_procD [OF fp]
  have ms: "mboxes_of s' = idle_mboxes ?my n" using s'(1) by (simp add: mboxes_of_def)
  have "core_cfg s' k"
    using s'(1-8) f(21,23) lq(2) idle_mboxes_nth(1) by (simp add: core_cfg_def)
  moreover have "mbox_ok ?my i (mboxes_of s' ! i) None" if "i < n" for i
    using that by (simp add: ms idle_mboxes_nth mbox_ok_def itc_mailbox0_def)
  ultimately have c: "core_ok s' k (\<lambda>_. None)"
    using lq(1) s'(2) by (simp add: core_ok_def ms idle_mboxes_nth(1))
  have "mbx_rep k s' (\<lambda>_. None)" using c s'(11,12,14) f(9,18) by (simp add: mbx_rep_def)
  moreover have "tree_ok s' (\<lambda>_. None)"
    using s'(10) by (simp add: tree_ok_def ms idle_mboxes_nth itc_mailbox0_def is_cstr_def)
  ultimately show ?thesis
    using s'(4,9,13-17) f(4,5,10,18) by (auto simp: proc_ok_def ms idle_mboxes_nth(1))
qed


section \<open>\<open>itc_init\<close>\<close>

lemma itc_init_mailboxes_ok:
  assumes fp: "fresh_proc s" and rc: "rcs s t = BLive 0" and n: "0 < n" "n < 65536"
  shows "\<exists>s' k. itc_init_mailboxes t (int n) 0 s = Inr (True, s') \<and> api_ok k s' \<and>
           proc_ok k s' [0 \<mapsto> []] [1..<n] \<and> my_threadlocal_mbox s' = [next_tid (thrman_inst s) \<mapsto> 0] \<and>
           max_mallocsize s' = max_mallocsize s \<and>
           ii_my_mbox_id_in_itccoord (itc_inst s') = ii_my_mbox_id_in_itccoord (itc_inst s)"
proof -
  let ?my = "ii_my_mbox_id_in_itccoord (itc_inst s)"
  note f = fresh_procD [OF fp]
  define msk where "msk = drop_bit (clz32 (of_nat n)) (0xFFFFFFFF :: u32)"
  define s1 where "s1 = s\<lparr>itc_inst := (itc_inst s)\<lparr>mboxes := BLive (replicate n itc_mailbox0),
      ii_local_mbox_mask := msk, nr_mboxes := of_nat n\<rparr>\<rparr>"
  have s1: "mboxes (itc_inst s1) = BLive (replicate n itc_mailbox0)" "ii_my_mbox_id_in_itccoord (itc_inst s1) = ?my"
    by (simp_all add: s1_def)
  obtain q h where q: "init_mboxes t [0..<n] s1 = Inr (True, with_mboxes (idle_mboxes ?my n) (with_free q h s1))"
      "free_rep (with_free q h s1) [0..<n]"
    using init_mboxes_all [OF s1(1), of t] f rc n by (auto simp: idle_mboxes_def s1_def)
  define s2 where "s2 = with_mboxes (idle_mboxes ?my n) (with_free q h s1)"
  have u: "unat (of_nat n :: u32) = n" using n by (simp add: unat_of_nat_small)
  have nz: "(of_nat n :: u32) \<noteq> 0" "(of_nat n :: u32) < 65536"
    using u n by (auto simp: word_less_nat_alt simp del: of_nat_eq_0_iff)
  have ii: "ii_my_mbox_id_in_itccoord (itc_inst s2) = ?my" "ii_itccoord_mask (itc_inst s2) = ITC_COORD_MASK"
      "nr_mboxes (itc_inst s2) = of_nat n" "rcs s2 = rcs s" "sys s2 = []" "mallocs s2 = []" "litems s2 = litems s"
      "localmbx_data (local_inst s2) = BNull" "lsock_inst s2 = lsock_inst s" "sysvmq_inst s2 = sysvmq_inst s"
      "thrman_inst s2 = thrman_inst s" "my_threadlocal_mbox s2 = my_threadlocal_mbox s" "msgs s2 = msgs s"
      "alloc_ready s2" "max_mallocsize s2 = max_mallocsize s" "name_tree s2 = []" "ii_local_mbox_mask (itc_inst s2) = msk"
      "ii_itccoord_mbox_id (itc_inst s2) = ii_itccoord_mbox_id (itc_inst s)"
    using f by (simp_all add: s2_def s1_def with_free_def)
  have hl: "heap_ok (litems s2)" using f(8) ii(7) by simp
  obtain k li where li: "local_init t ?my ITC_COORD_MASK (of_nat n) 0 s2 = Inr (s2\<lparr>local_inst := li\<rparr>)"
      "unat (of_nat n :: u32) < 2 ^ k" "local_queues (s2\<lparr>local_inst := li\<rparr>) k (\<lambda>_. None)"
      "li_my_mbox_id_in_itccoord li = ?my" "li_itccoord_mask li = ITC_COORD_MASK" "msk = mask k"
    using local_init_spec [OF ii(8) nz ii(6) hl f(23), of t 0] unfolding msk_def by blast
  define s3 where "s3 = s2\<lparr>local_inst := li\<rparr>"
  have s3: "\<not> sv_is_initialized (sysvmq_inst s3)" "sys s3 = []" "rcs s3 t = BLive 0"
      "thread_list (thrman_inst s3) = None" "malloc_results (th_heap (thrman_inst s3)) = []"
    using f ii rc by (simp_all add: s3_def)
  obtain v th a where v: "sysvmq_init t ?my ITC_COORD_MASK (of_nat n) 0 s3 = Inr (s3\<lparr>sysvmq_inst := v, thrman_inst := th\<rparr>)"
      "sv_max_msgsize v = sv_max_msgsize (sysvmq_inst s3)" "next_tid th = next_tid (thrman_inst s3)"
      "thread_list th = Some a" "\<not> mtx_locked th 0" "0 < fresh (th_heap th)"
      "cells (th_heap th) a = Some \<lparr>th_next = None, th_worker = SYSVMQ_RX_THREAD, th_tid = 0,
             use_highest_prio = True, start_mtx = Some 0, is_running = False\<rparr>"
    using sysvmq_init_ok [OF s3, of ?my "of_nat n" 0] by blast
  define s4 where "s4 = s3\<lparr>sysvmq_inst := v, thrman_inst := th\<rparr>"
  have r2: "rc_set t 0 s2 = Inr s2" "rc_set t 0 s3 = Inr s3" "rcs s3 t = BLive 0" "rcs s4 t = BLive 0"
    using rc ii(4) rc_set_idem [of s2 t 0] rc_set_idem [of s3 t 0] by (simp_all add: s3_def s4_def)
  have ls: "lsock_init t ?my ITC_COORD_MASK (of_nat n) 0 s3 = Inr s3"
    using f(13) ii(9) by (simp add: lsock_init_def s3_def)
  have i3: "itc_inst s3 = itc_inst s2" by (simp add: s3_def)
  have ti: "trans_init trans_mechanisms t 0 s2 = Inr (True, s4)"
    by (simp add: trans_mechanisms_def local_trans_apis_def lsock_trans_apis_def sysvmq_trans_apis_def i3 ii(1-3)
        r2 li(1) s3_def [symmetric] ls v(1) s4_def [symmetric] del: rc_set_live ITC_COORD_MASK_def)
  have p4: "proc_ok k s4 (\<lambda>_. None) (0 # [1..<n])"
  proof -
    have "proc_ok k s3 (\<lambda>_. None) [0..<n]"
    proof (rule idle_proc_ok [OF fp n])
      show "free_rep s3 [0..<n]" using q(2) by (simp add: s3_def s2_def free_rep_def)
      show "is_coord s3" using f(21,22) ii(1,2,18) by (simp add: is_coord_def s3_def)
      show "local_queues s3 k (\<lambda>_. None)" "n \<le> 2 ^ k" using li(2,3) u by (simp_all add: s3_def)
    qed (use f ii li(4-6) in \<open>simp_all add: s3_def s2_def\<close>)
    then show ?thesis
      using n(1) proc_ok_other [where v = v and th = th] by (simp add: s4_def upt_conv_Cons)
  qed
  have tid: "my_threadlocal_mbox s4 (next_tid th) = None" "has_rc (next_tid th) s4" "thrman_inst s4 = th"
      "0 < sv_max_msgsize (sysvmq_inst s4)"
    using f(15,18) ii(10,12) v(2) api_has_rc [OF p4, of "next_tid th"] f(19) ii(4) by (simp_all add: s4_def s3_def)
  obtain s5 where s5: "start_itcthreads itc_boot t s4 = Inr s5" "proc_ok k s5 ((\<lambda>_. None)(0 \<mapsto> [])) [1..<n]"
      "my_threadlocal_mbox s5 = (my_threadlocal_mbox s4)(next_tid th \<mapsto> 0)" "rcs s5 = (rcs s4)(next_tid th := BLive 0)"
      "msgs s5 = msgs s4" "max_mallocsize s5 = max_mallocsize s4"
      "ii_my_mbox_id_in_itccoord (itc_inst s5) = ii_my_mbox_id_in_itccoord (itc_inst s4)"
    using start_one_thread [of s4 a _ k "\<lambda>_. None" 0 "[1..<n]" t] v(4-7) p4 tid by auto
  have rc5: "rcs s5 t = BLive 0" using s5(4) r2(4) by simp
  have "itc_init_mailboxes t (int n) 0 s = Inr (True, s5)"
    using n f(1,2) q(1) ti s5(1) rc5 ii(5)
    by (simp add: itc_init_mailboxes_def Let_def s1_def [unfolded msk_def, symmetric] s2_def [symmetric])
  moreover have "api_ok k s5"
    using s5(2,4,5) f(11,19) ii(4,13) by (auto simp: api_ok_def s4_def s3_def)
  ultimately show ?thesis using s5(2,3,6,7) f(18) ii(1,12,15) v(3) ii(11) by (auto simp: s4_def s3_def)
qed


lemma itc_init_ok:
  assumes "0 \<le> nr" and "nr < 65535"
  shows "\<exists>s k. itc_init 0 nr True ITC_FLAGS_I_AM_ITC_COORD (proc0 pid []) = Inr (True, s) \<and> api_ok k s \<and>
           proc_ok k s [0 \<mapsto> []] [1..<Suc (nat nr)] \<and> my_threadlocal_mbox s = [1 \<mapsto> 0] \<and>
           max_mallocsize s = ITC_MAX_MSGSIZE \<and> ii_my_mbox_id_in_itccoord (itc_inst s) = push_bit ITC_COORD_SHIFT 1"
proof -
  define s0 where "s0 = (proc0 pid [])\<lparr>itc_inst := itc_instance0\<lparr>ii_pid := pid, itcgw_mboxid := ITC_NO_MBOX_ID,
      ii_itccoord_mask := ITC_COORD_MASK, ii_itccoord_mbox_id := push_bit ITC_COORD_SHIFT 1 OR 1,
      ii_my_mbox_id_in_itccoord := push_bit ITC_COORD_SHIFT 1\<rparr>, rcs := (\<lambda>_. BNull)(0 := BLive 0),
      sysvmq_inst := sysvmq_instance0\<lparr>sv_max_msgsize := 8192\<rparr>, alloc_ready := True,
      max_mallocsize := max ITC_MAX_MSGSIZE 8192\<rparr>"
  have "fresh_proc s0"
    by (simp add: fresh_proc_def s0_def proc0_def is_coord_def local_instance0_def lsock_instance0_def
        sysvmq_instance0_def thrman0_def itc_instance0_def empty_heap_def heap_ok_def)
  moreover have "itc_init 0 nr True ITC_FLAGS_I_AM_ITC_COORD (proc0 pid []) = itc_init_mailboxes 0 (nr + 1) 0 s0"
    by (simp add: itc_init_def proc0_def Let_def change_system_rlimit_def trans_mechanisms_def local_trans_apis_def
        lsock_trans_apis_def sysvmq_trans_apis_def sysvmq_maxmsgsize_def malloc_init_def itc_instance0_def
        sysvmq_instance0_def s0_def)
  moreover have n: "int (Suc (nat nr)) = nr + 1" "0 < Suc (nat nr)" "Suc (nat nr) < 65536" using assms by simp_all
  moreover have "next_tid (thrman_inst s0) = 1" "rcs s0 0 = BLive 0" "max_mallocsize s0 = ITC_MAX_MSGSIZE"
      "ii_my_mbox_id_in_itccoord (itc_inst s0) = push_bit ITC_COORD_SHIFT 1"
    by (simp_all add: s0_def proc0_def thrman0_def itc_instance0_def)
  ultimately show ?thesis
    using itc_init_mailboxes_ok [of s0 0 "Suc (nat nr)"] unfolding n(1) by metis
qed

end
