(* ===== verification/Itc_System.thy ===== *)
theory Itc_System
  imports Itc_Start
begin

text \<open>
  What the parts give together: from \<open>itc_init\<close> on, every sequence of permitted calls of any threads
  is safe, the mailboxes are first-in first-out channels between the threads, and messages arrive
  unchanged; and where the code departs from that.
\<close>

unbundle bit_operations_syntax

section \<open>From the start of the process\<close>

text \<open>
  C19. Starting the framework in the coordinator's process succeeds for every permitted number of
  mailboxes. Afterwards the receiving thread (number 1) has the first mailbox, all others are free
  and in the order of their numbers, and the invariant of the process holds.
\<close>

theorem itc_init_coordinator:
  assumes "0 \<le> nr" and "nr < 65535"
  shows "\<exists>s k. itc_init 0 nr True ITC_FLAGS_I_AM_ITC_COORD (proc0 pid []) = Inr (True, s) \<and> api_ok k s \<and>
           proc_ok k s [0 \<mapsto> []] [1..<Suc (nat nr)] \<and> my_threadlocal_mbox s = [1 \<mapsto> 0]"
  using itc_init_ok [OF assms] by blast

theorem itc_init_coordinator_witness:
  "\<exists>s k. itc_init 0 2 True ITC_FLAGS_I_AM_ITC_COORD (proc0 77 []) = Inr (True, s) \<and> api_ok k s \<and>
           proc_ok k s [0 \<mapsto> []] [1, 2] \<and> my_threadlocal_mbox s = [1 \<mapsto> 0]"
proof -
  have "[1..<Suc (nat 2)] = [1, 2]" by (simp add: upt_rec numeral_2_eq_2)
  then show ?thesis using itc_init_coordinator [of 2 77] by simp
qed


text \<open>Two threads with mailboxes, in a process that was started with two.\<close>

definition demo_state :: "proc \<Rightarrow> nat \<Rightarrow> proc \<Rightarrow> nat \<Rightarrow> bool" where
  "demo_state s0 k s m \<longleftrightarrow>
     itc_init 0 2 True ITC_FLAGS_I_AM_ITC_COORD (proc0 77 []) = Inr (True, s0) \<and> api_reach s0 s \<and>
     proc_ok k s [0 \<mapsto> [], 1 \<mapsto> [], 2 \<mapsto> []] [] \<and> my_threadlocal_mbox s = [1 \<mapsto> 0, 0 \<mapsto> 1, 5 \<mapsto> 2] \<and>
     mbx_held s m \<and> api_ok k s"

lemma demo_exists: "\<exists>s0 k s m. demo_state s0 k s m"
proof -
  obtain s0 k where s0: "itc_init 0 2 True ITC_FLAGS_I_AM_ITC_COORD (proc0 77 []) = Inr (True, s0)" "api_ok k s0"
      "proc_ok k s0 [0 \<mapsto> []] [1, 2]" "my_threadlocal_mbox s0 = [1 \<mapsto> 0]" "max_mallocsize s0 = ITC_MAX_MSGSIZE"
  proof -
    have "[1..<Suc (nat 2)] = [1, 2]" by (simp add: upt_rec numeral_2_eq_2)
    then show thesis using itc_init_ok [of 2 77] that by auto
  qed
  have rc: "has_rc t s" if "api_ok k s" for t s using api_alloc_state(2) [OF that] .
  have nm: "is_cstr [65]" "length [65::u8] < ITC_MAX_NAME_LENGTH" "is_cstr [66]" "length [66::u8] < ITC_MAX_NAME_LENGTH"
    by (simp_all add: is_cstr_def)
  obtain s1 where s1: "itc_create_mailbox 0 [65] 0 s0 = Inr (mbx_id 1 s0, s1)" "proc_ok k s1 [0 \<mapsto> [], 1 \<mapsto> []] [2]"
      "my_threadlocal_mbox s1 = [1 \<mapsto> 0, 0 \<mapsto> 1]" "max_mallocsize s1 = max_mallocsize s0"
    using itc_create_mailbox_spec [OF s0(3) _ rc [OF s0(2)] nm(1,2), of 0 0] s0(4) by auto
  have r1: "api_reach s0 s1" using api_call [OF api_start, of "CreateMailbox 0 [65] 0" s0 s1] s1(1) nm by simp
  have a1: "api_ok k s1" by (rule api_reach_ok [OF r1 s0(2)])
  obtain s2 where s2: "itc_create_mailbox 5 [66] 0 s1 = Inr (mbx_id 2 s1, s2)"
      "proc_ok k s2 [0 \<mapsto> [], 1 \<mapsto> [], 2 \<mapsto> []] []" "my_threadlocal_mbox s2 = [1 \<mapsto> 0, 0 \<mapsto> 1, 5 \<mapsto> 2]"
      "max_mallocsize s2 = max_mallocsize s1"
    using itc_create_mailbox_spec [OF s1(2) _ rc [OF a1] nm(3,4), of 5 0] s1(3) by auto
  have r2: "api_reach s0 s2" using api_call [OF r1, of "CreateMailbox 5 [66] 0" s2] s2(1) nm by simp
  have a2: "api_ok k s2" by (rule api_reach_ok [OF r2 s0(2)])
  have sz: "max 4 8 + 17 \<le> nat (max_mallocsize s2)" using s0(5) s1(4) s2(4) by simp
  note al = itc_alloc_spec [OF a2 sz, where t = 0 and msgno = 42]
  define s3 where "s3 = s2\<lparr>rcs := (rcs s2)(0 := BLive 0),
      msgs := (msgs s2)\<lparr>cells := (cells (msgs s2))(fresh (msgs s2) \<mapsto> new_message (max 4 8) 42),
        fresh := Suc (fresh (msgs s2)), malloc_results := tl (malloc_results (msgs s2))\<rparr>\<rparr>"
  have "api_reach s0 s3"
    using api_call [OF r2, of "AllocMessage 0 8 42" s3] al(1) sz by (simp add: s3_def)
  moreover have "mbx_held s3 (fresh (msgs s2))"
    using wf_new_message [of 8 42] fld_new_message(1) [of 8 42] by (simp add: mbx_held_def s3_def inrx_def)
  moreover have "my_threadlocal_mbox s3 = my_threadlocal_mbox s2" by (simp add: s3_def)
  ultimately show ?thesis
    using s0(1) s2(3) al(2) al(3) [OF s2(2)] unfolding demo_state_def s3_def [symmetric] by metis
qed






section \<open>Mailboxes are channels\<close>

text \<open>
  C2. Any sequence of sending and receiving by any threads gives exactly the answers of the abstract
  mailboxes: a message is refused exactly when the sender has no mailbox, sends to itself or names a
  mailbox that is not in use, and what a receiver gets is the oldest message in its mailbox.
\<close>

theorem mailboxes_refine_spec:
  assumes "mbx_rep k s Q" and "mb_legal (my_threadlocal_mbox s) (mbx_valid s) as Q S" and "\<forall>m \<in> S. mbx_held s m"
  shows "\<exists>s'. run_actions mbx_send mbx_recv as s = Inr (fst (mb_run (my_threadlocal_mbox s) as Q), s') \<and>
              mbx_rep k s' (snd (mb_run (my_threadlocal_mbox s) as Q))"
  using mbx.run_refines [OF assms] by blast

lemma demo_mbx:
  assumes "demo_state s0 k s m"
  shows "mbx_rep k s [0 \<mapsto> [], 1 \<mapsto> [], 2 \<mapsto> []]" "my_threadlocal_mbox s = [1 \<mapsto> 0, 0 \<mapsto> 1, 5 \<mapsto> 2]" "mbx_held s m"
    "mbx_valid s 1" "mbx_valid s 2"
proof -
  have p: "proc_ok k s [0 \<mapsto> [], 1 \<mapsto> [], 2 \<mapsto> []] []" using assms by (simp add: demo_state_def)
  note P = proc_okD [OF p]
  show "mbx_rep k s [0 \<mapsto> [], 1 \<mapsto> [], 2 \<mapsto> []]" by (rule P(1))
  show "my_threadlocal_mbox s = [1 \<mapsto> 0, 0 \<mapsto> 1, 5 \<mapsto> 2]" "mbx_held s m" using assms by (simp_all add: demo_state_def)
  have "1 < length (mboxes_of s)" "2 < length (mboxes_of s)" using core_okD(5) [OF P(2)] by auto
  then show "mbx_valid s 1" "mbx_valid s 2" using nr_mboxes_length [OF P(2)] by (simp_all add: mbx_valid_def)
qed

theorem mailboxes_refine_spec_witness:
  "\<exists>s m s'. my_threadlocal_mbox s = [1 \<mapsto> 0, 0 \<mapsto> 1, 5 \<mapsto> 2] \<and>
     run_actions mbx_send mbx_recv
       [Receive 5, Send 0 1 m, Send 8 2 m, Send 0 2 m, Receive 5, Receive 5, Send 5 1 m, Receive 0] s =
     Inr ([Got None, Sent False, Sent False, Sent True, Got (Some m), Got None, Sent True, Got (Some m)], s')"
proof -
  obtain s0 k s m where "demo_state s0 k s m" using demo_exists by blast
  note d = demo_mbx [OF this]
  let ?as = "[Receive 5, Send 0 1 m, Send 8 2 m, Send 0 2 m, Receive 5, Receive 5, Send 5 1 m, Receive 0]"
  have "mb_legal (my_threadlocal_mbox s) (mbx_valid s) ?as [0 \<mapsto> [], 1 \<mapsto> [], 2 \<mapsto> []] {m}"
    using d(4,5) by (simp add: d(2))
  from mailboxes_refine_spec [OF d(1) this] d(3)
  have "\<exists>s'. run_actions mbx_send mbx_recv ?as s =
      Inr ([Got None, Sent False, Sent False, Sent True, Got (Some m), Got None, Sent True, Got (Some m)], s')"
    by (auto simp: d(2) simp del: run_actions.simps)
  then show ?thesis using d(2) by blast
qed

text \<open>
  C6. Each mailbox is a first-in first-out channel: over any run, the messages that were in it
  followed by those that were successfully sent to it, in the order of sending, are the messages that
  its owner received, in that order, followed by those that are still in it. Nothing is lost,
  duplicated or reordered, whatever happens at other mailboxes in between.
\<close>

theorem mailbox_delivers_in_order:
  assumes "mbx_rep k s Q" and "mb_legal (my_threadlocal_mbox s) (mbx_valid s) as Q S" and "\<forall>m \<in> S. mbx_held s m"
    and "Q j = Some xs"
  shows "\<exists>rs s' Q' ys. run_actions mbx_send mbx_recv as s = Inr (rs, s') \<and> mbx_rep k s' Q' \<and> Q' j = Some ys \<and>
           xs @ put_into j as rs = taken_from (my_threadlocal_mbox s) j as rs @ ys"
proof -
  let ?own = "my_threadlocal_mbox s"
  obtain s' where s': "run_actions mbx_send mbx_recv as s = Inr (fst (mb_run ?own as Q), s')"
      "mbx_rep k s' (snd (mb_run ?own as Q))"
    using mbx.run_refines [OF assms(1-3)] by blast
  obtain ys where "snd (mb_run ?own as Q) j = Some ys"
      "xs @ put_into j as (fst (mb_run ?own as Q)) = taken_from ?own j as (fst (mb_run ?own as Q)) @ ys"
    using mailbox_is_channel [where Q = Q and k = j and own = ?own and rs = "fst (mb_run ?own as Q)"] assms(4)
    by (metis prod.collapse)
  then show ?thesis using s' by blast
qed

theorem mailbox_delivers_in_order_witness:
  "\<exists>s m rs s'. run_actions mbx_send mbx_recv [Send 0 2 m, Receive 0, Receive 5] s = Inr (rs, s') \<and>
     [m] = taken_from (my_threadlocal_mbox s) 2 [Send 0 2 m, Receive 0, Receive 5] rs"
proof -
  obtain s0 k s m where "demo_state s0 k s m" using demo_exists by blast
  note d = demo_mbx [OF this]
  let ?as = "[Send 0 2 m, Receive 0, Receive 5]" and ?Q = "[0 \<mapsto> [], 1 \<mapsto> [], 2 \<mapsto> []]"
  have l: "mb_legal (my_threadlocal_mbox s) (mbx_valid s) ?as ?Q {m}" "\<forall>x \<in> {m}. mbx_held s x"
    using d(3-5) by (simp_all add: d(2))
  obtain s1 where "run_actions mbx_send mbx_recv ?as s = Inr ([Sent True, Got None, Got (Some m)], s1)"
    using mbx.run_refines [OF d(1) l] by (auto simp: d(2) simp del: run_actions.simps)
  moreover obtain rs s2 ys where "run_actions mbx_send mbx_recv ?as s = Inr (rs, s2)"
      "put_into 2 ?as rs = taken_from (my_threadlocal_mbox s) 2 ?as rs @ ys"
    using mailbox_delivers_in_order [OF d(1) l, of 2 "[]"] by (auto simp del: run_actions.simps)
  ultimately have "run_actions mbx_send mbx_recv ?as s = Inr (rs, s2)" "[m] = taken_from (my_threadlocal_mbox s) 2 ?as rs"
    by (auto simp: d(2) simp del: run_actions.simps)
  then show ?thesis by blast
qed

section \<open>Messages\<close>

lemma drop_blit: "off + length d \<le> n \<Longrightarrow> n \<le> length bs \<Longrightarrow> drop n (blit off d bs) = drop n bs"
  by (simp add: blit_def)

lemma drop_stamp: "wf_msg bs \<Longrightarrow> drop OFF_SIZE (stamp a b bs) = drop OFF_SIZE bs"
  using wf_msg_length [of bs] by (simp add: stamp_def drop_blit)




section \<open>Waiting for a message\<close>

lemma receive_attempt_rc:
  assumes "mboxes (itc_inst s) = BLive ms" and "i < length ms" and "p_rxq_info (ms ! i)" and "rxq_mtx (ms ! i) = None"
    and "rcs s t = BLive w"
  shows "receive_attempt t i s = receive_attempt t i (s\<lparr>rcs := (rcs s)(t := BLive 0)\<rparr>)"
proof -
  have e: "(with_mboxes ms s)\<lparr>rcs := r\<rparr> = with_mboxes ms (s\<lparr>rcs := r\<rparr>)" for ms r by (simp add: with_mboxes_def)
  have "trans_receive trans_mechanisms t i u = trans_receive trans_mechanisms t i (u\<lparr>rcs := (rcs u)(t := BLive 0)\<rparr>)"
    if "rcs u t = BLive w" for u
    using that by (simp add: trans_mechanisms_def local_trans_apis_def)
  then show ?thesis
    using receive_attempt_with [OF assms(1-4), of t] assms
      receive_attempt_with [of "s\<lparr>rcs := (rcs s)(t := BLive 0)\<rparr>" ms i t] by (simp add: e [symmetric])
qed

text \<open>An attempt on an empty mailbox, and the state in which the caller waits for a signal.\<close>

lemma receive_waits:
  assumes r: "mbx_rep k s Q" and me: "my_threadlocal_mbox s t = Some i" "Q i = Some []"
  shows "\<exists>s2 s3. itc_receive t tmo evs s = receive_loop t i tmo evs (s\<lparr>rcs := (rcs s)(t := BLive 0)\<rparr>) \<and>
           receive_attempt t i (s\<lparr>rcs := (rcs s)(t := BLive 0)\<rparr>) = Inr (None, s2) \<and>
           mutex_unlock t i s2 = Inr s3 \<and> mbx_rep k s3 Q \<and> same_rest t s s3 \<and> msgs s3 = msgs s"
proof -
  note R = mbx_repD [OF r]
  note D = core_okD [OF R(1)]
  note ms = core_cfg_mboxes [OF D(2)]
  let ?ms = "mboxes_of s" and ?m = "mboxes_of s ! i" and ?my = "ii_my_mbox_id_in_itccoord (itc_inst s)"
  obtain w where w: "rcs s t = BLive w" using R(4) [OF me(1)] by blast
  have j: "i < length ?ms" by (rule D(5) [OF me(2)])
  have mm: "mbox_ok ?my i ?m (Some [])" using D(4) [OF j] me(2) by simp
  note mm' = mbox_ok_used [OF mm]
  define s0 where "s0 = s\<lparr>rcs := (rcs s)(t := BLive 0)\<rparr>"
  define s1 where "s1 = with_mboxes (?ms[i := in_rx t ?m]) s0"
  note S = core_ok_in_rx(1,2,3,4,6) [OF R(1) me(2), of t, folded s0_def, folded s1_def]
  note lt = core_ok_in_rx(5) [OF R(1) me(2)]
  define s2 where "s2 = s1\<lparr>rcs := (rcs s1)(t := BLive ITC_QUEUE_EMPTY)\<rparr>"
  have same: "s1\<lparr>rcs := (rcs s1)(t := BLive 0)\<rparr> = s1" by (simp add: s1_def s0_def with_mboxes_def)
  have "receive_attempt t i s0 = trans_receive trans_mechanisms t i s1"
    unfolding s1_def by (rule receive_attempt_with) (use ms(1) j mm'(2,4) in \<open>simp_all add: s0_def\<close>)
  also have "\<dots> = Inr (None, s2)"
    by (rule trans_receive_local [OF S(5)]) (simp only: same s2_def local_receive_empty [OF S(1,2,3,4) lt me(2) S(5)])
  finally have att: "receive_attempt t i s0 = Inr (None, s2)" .
  define m3 where "m3 = (in_rx t ?m)\<lparr>rxq_mtx := None\<rparr>"
  define s3 where "s3 = with_mboxes (?ms[i := m3]) s2"
  have ms2: "mboxes (itc_inst s2) = BLive (?ms[i := in_rx t ?m])" by (simp add: s2_def s1_def s0_def)
  have ul: "mutex_unlock t i s2 = Inr s3"
    using mutex_with(2) [OF ms2, of i t] j by (simp add: s3_def m3_def)
  have c: "core_ok s3 k (Q(i := Some []))"
  proof (rule core_ok_step [OF R(1) j])
    show "itc_inst s3 = set_mbox i m3 s" by (simp add: s3_def s2_def s1_def s0_def with_mboxes_def set_mbox_def)
    show "local_inst s3 = local_inst s \<or> local_inst s3 = put_slot i undefined s"
      by (simp add: s3_def s2_def s1_def s0_def)
    show "local_queues s3 k (Q(i \<mapsto> []))"
      using D(1) local_queues_cong [of s3 s] me(2) by (simp add: s3_def s2_def s1_def s0_def fun_upd_idem)
    show "mbox_ok ?my i m3 (Some [])" using mm by (simp add: mbox_ok_def m3_def)
  qed
  have msx: "mboxes_of s3 = ?ms[i := m3]" by (simp add: s3_def)
  have sr: "same_rest t s s3"
    using names_same [OF j, of m3] unfolding same_rest_def msx
    by (simp add: m3_def) (simp add: s3_def s2_def s1_def s0_def with_mboxes_def)
  have "Q(i := Some []) = Q" using me(2) by (simp add: fun_upd_idem)
  then have "mbx_rep k s3 Q"
    using mbx_rep_step(1) [OF r c sr] R(3) by (simp add: s3_def s2_def s1_def s0_def)
  moreover have "msgs s3 = msgs s" by (simp add: s3_def s2_def s1_def s0_def)
  ultimately show ?thesis
    using itc_receive_open [OF ms(1) me(1) w, of tmo evs] att ul sr unfolding s0_def by blast
qed


text \<open>After the wait the caller takes the mutex, leaves the receiving state and tries again.\<close>

lemma leave_after_wait:
  assumes r: "mbx_rep k s Q" and me: "my_threadlocal_mbox s t = Some i" and q: "Q i = Some xs"
  shows "\<exists>s1 s2. mutex_lock t i s = Inr s1 \<and> leave_rx t i s1 = Inr s2 \<and> mbx_rep k s2 Q \<and> same_rest t s s2 \<and> msgs s2 = msgs s"
proof -
  note R = mbx_repD [OF r]
  note D = core_okD [OF R(1)]
  note ms = core_cfg_mboxes [OF D(2)]
  let ?ms = "mboxes_of s" and ?m = "mboxes_of s ! i" and ?my = "ii_my_mbox_id_in_itccoord (itc_inst s)"
  have j: "i < length ?ms" by (rule D(5) [OF q])
  have mm: "mbox_ok ?my i ?m (Some xs)" using D(4) [OF j] q by simp
  note mm' = mbox_ok_used [OF mm]
  define m2 where "m2 = ?m\<lparr>rxq_mtx := Some t, is_in_rx := False, rxq_mtx := None\<rparr>"
  define s1 where "s1 = with_mboxes (?ms[i := ?m\<lparr>rxq_mtx := Some t\<rparr>]) s"
  define s2 where "s2 = with_mboxes (?ms[i := m2]) s"
  have l: "mutex_lock t i s = Inr s1" using mutex_with(1) [OF ms(1) j mm'(2)] by (simp add: s1_def)
  have ms1: "mboxes (itc_inst s1) = BLive (?ms[i := ?m\<lparr>rxq_mtx := Some t\<rparr>])" by (simp add: s1_def)
  have lv: "leave_rx t i s1 = Inr s2"
    using rxq_with(3) [OF ms1, of i t] j mm'(4) by (simp add: s2_def s1_def m2_def)
  have c: "core_ok s2 k (Q(i := Some xs))"
  proof (rule core_ok_step [OF R(1) j])
    show "itc_inst s2 = set_mbox i m2 s" by (simp add: s2_def with_mboxes_def set_mbox_def)
    show "local_inst s2 = local_inst s \<or> local_inst s2 = put_slot i undefined s" by (simp add: s2_def)
    show "local_queues s2 k (Q(i \<mapsto> xs))"
      using D(1) local_queues_cong [of s2 s] q by (simp add: s2_def fun_upd_idem)
    show "mbox_ok ?my i m2 (Some xs)" using mm by (simp add: mbox_ok_def m2_def)
  qed
  have msx: "mboxes_of s2 = ?ms[i := m2]" by (simp add: s2_def)
  have sr: "same_rest t s s2"
    using names_same [OF j, of m2] R(4) [OF me] unfolding same_rest_def msx
    by (simp add: m2_def) (simp add: s2_def with_mboxes_def)
  have "Q(i := Some xs) = Q" using q by (simp add: fun_upd_idem)
  then have "mbx_rep k s2 Q" using mbx_rep_step(1) [OF r c sr] R(3) by (simp add: s2_def)
  then show ?thesis using l lv sr by (auto simp: s2_def)
qed

lemma receive_again:
  assumes r: "mbx_rep k s Q" and me: "my_threadlocal_mbox s t = Some i" and q: "Q i = Some (m # xs)"
  shows "\<exists>s'. receive_loop t i tmo evs s = Inr (Some m, s') \<and> mbx_rep k s' (Q(i \<mapsto> xs))"
proof -
  note R = mbx_repD [OF r]
  note D = core_okD [OF R(1)]
  note ms = core_cfg_mboxes [OF D(2)]
  let ?ms = "mboxes_of s"
  obtain w where w: "rcs s t = BLive w" using R(4) [OF me] by blast
  have j: "i < length ?ms" by (rule D(5) [OF q])
  note mm' = mbox_ok_used [OF D(4) [OF j, unfolded q]]
  have "receive_loop t i tmo evs s = receive_loop t i tmo evs (s\<lparr>rcs := (rcs s)(t := BLive 0)\<rparr>)"
    by (subst (1 2) receive_loop.simps) (simp only: receive_attempt_rc [OF ms(1) j mm'(4,2) w])
  then have e: "receive_loop t i tmo evs s = itc_receive t tmo evs s"
    by (simp only: itc_receive_open [OF ms(1) me w])
  obtain s' bs where "itc_receive t tmo evs s = Inr (Some m, s')" "core_ok s' k (Q(i \<mapsto> xs))" "same_rest t s s'"
      "malloc_results (litems s') = malloc_results (litems s)"
    using itc_receive_local_spec [OF R(1) me q w R(2), of tmo evs] by blast
  moreover from this have "mbx_rep k s' (Q(i \<mapsto> xs))" by (intro mbx_rep_step(1) [OF r]) (use R(3) in auto)
  ultimately show ?thesis using e by metis
qed

lemma receive_while_waiting:
  assumes "mbx_rep k s Q" and "my_threadlocal_mbox s t = Some i" and "Q i = Some []"
    and "my_threadlocal_mbox s b = Some j" and "i \<noteq> j" and "mbx_held s m" and "0 < tmo"
  shows "itc_receive t ITC_WAIT_FOREVER [] s = Inl Blocked"
    and "\<exists>s'. itc_receive t ITC_WAIT_FOREVER [(None, \<lambda>u. bindE (mbx_send b i m u) (\<lambda>(r, u). Inr u))] s = Inr (Some m, s') \<and>
           mbx_rep k s' Q"
    and "\<exists>s'. itc_receive t tmo [(Some ETIMEDOUT, Inr)] s = Inr (None, s') \<and> mbx_rep k s' Q"
proof -
  let ?s0 = "s\<lparr>rcs := (rcs s)(t := BLive 0)\<rparr>" and ?send = "\<lambda>u. bindE (mbx_send b i m u) (\<lambda>(r, u). Inr u)"
  obtain s2 s3 where w: "\<And>tmo evs. itc_receive t tmo evs s = receive_loop t i tmo evs ?s0"
      "receive_attempt t i ?s0 = Inr (None, s2)" "mutex_unlock t i s2 = Inr s3" "mbx_rep k s3 Q" "same_rest t s s3"
      "msgs s3 = msgs s"
    using receive_waits [OF assms(1-3)] itc_receive_open
    by (metis assms(1,2) core_cfg_mboxes(1) core_okD(2) mbx_repD(1,4))
  have own: "my_threadlocal_mbox s3 = my_threadlocal_mbox s" using w(5) by (simp add: same_rest_def)
  show "itc_receive t ITC_WAIT_FOREVER [] s = Inl Blocked"
    unfolding w(1) by (subst receive_loop.simps) (simp add: w(2))
  have "mbx_held s3 m" using assms(6) w(6) by (simp add: mbx_held_def)
  then obtain s4 where s4: "mbx_send b i m s3 = Inr (True, s4)" "mbx_rep k s4 (Q(i \<mapsto> [] @ [m]))"
      "my_threadlocal_mbox s4 = my_threadlocal_mbox s3"
    using mbx_send_law [OF w(4), of b j i "[]" m] own assms(3-5) by auto
  obtain s5 s6 where s6: "mutex_lock t i s4 = Inr s5" "leave_rx t i s5 = Inr s6" "mbx_rep k s6 (Q(i \<mapsto> [m]))" "same_rest t s4 s6"
    using leave_after_wait [OF s4(2), of t i "[m]"] s4(3) own assms(2) by auto
  have own6: "my_threadlocal_mbox s6 t = Some i" using s6(4) s4(3) own assms(2) by (simp add: same_rest_def)
  obtain s7 where s7: "receive_loop t i ITC_WAIT_FOREVER [] s6 = Inr (Some m, s7)" "mbx_rep k s7 (Q(i \<mapsto> [m], i \<mapsto> []))"
    using receive_again [OF s6(3) own6, of m "[]" ITC_WAIT_FOREVER "[]"] by auto
  have "Q(i \<mapsto> [m], i \<mapsto> []) = Q" using assms(3) by (simp add: fun_upd_idem)
  moreover have "itc_receive t ITC_WAIT_FOREVER [(None, ?send)] s = Inr (Some m, s7)"
    unfolding w(1) by (subst receive_loop.simps)
      (use s7(1) in \<open>simp add: w(2,3) cond_wait_def s4(1) s6(1,2) del: receive_loop.simps\<close>)
  ultimately show "\<exists>s'. itc_receive t ITC_WAIT_FOREVER [(None, ?send)] s = Inr (Some m, s') \<and> mbx_rep k s' Q"
    using s7(2) by metis
  obtain s8 s9 where "mutex_lock t i s3 = Inr s8" "leave_rx t i s8 = Inr s9" "mbx_rep k s9 Q"
    using leave_after_wait [OF w(4), of t i "[]"] own assms(2,3) by auto
  moreover from this have "itc_receive t tmo [(Some ETIMEDOUT, Inr)] s = Inr (None, s9)"
    using assms(7) unfolding w(1) by (subst receive_loop.simps) (simp add: w(2,3) cond_wait_def)
  ultimately show "\<exists>s'. itc_receive t tmo [(Some ETIMEDOUT, Inr)] s = Inr (None, s') \<and> mbx_rep k s' Q" by blast
qed



section \<open>Creating, finding and deleting\<close>

lemma find_unique:
  assumes "x \<in> set xs" and "P x" and "\<And>y. y \<in> set xs \<Longrightarrow> P y \<Longrightarrow> y = x"
  shows "find P xs = Some x"
proof (cases "find P xs")
  case None
  then show ?thesis using assms(1,2) by (simp add: find_None_iff)
next
  case (Some y)
  then show ?thesis using mem_find(2) [OF Some] assms(3) by blast
qed

lemma locate_in_tree:
  assumes p: "proc_ok k s Q F" and name: "is_cstr name"
  shows "locate_local_mbox name s = Inr (find (\<lambda>j. mb_name (mboxes_of s ! j) = name) (name_tree s))"
  unfolding locate_local_mbox_def
proof (rule find_names [OF _ name])
  note P = proc_okD [OF p]
  note T = tree_okD [OF P(6)]
  show "mboxes (itc_inst s) = BLive (mboxes_of s)" by (rule core_cfg_mboxes(1) [OF core_okD(2) [OF P(2)]])
  show "\<forall>j \<in> set (name_tree s). j < length (mboxes_of s) \<and> is_cstr (mb_name (mboxes_of s ! j))"
    using T(1,2) core_okD(5) [OF P(2)] by blast
qed

lemma locate_in_tree_unique:
  assumes p: "proc_ok k s Q F" and "i \<in> set (name_tree s)" and "mb_name (mboxes_of s ! i) = name" and "is_cstr name"
  shows "locate_local_mbox name s = Inr (Some i)"
proof -
  have "inj_on (\<lambda>j. mb_name (mboxes_of s ! j)) (set (name_tree s))"
    using tree_okD(4) [OF proc_okD(6) [OF p]] by (simp add: distinct_map)
  then have "y = i" if "y \<in> set (name_tree s)" "mb_name (mboxes_of s ! y) = name" for y
    using that assms(2,3) by (simp add: inj_on_def)
  then have "find (\<lambda>j. mb_name (mboxes_of s ! j) = name) (name_tree s) = Some i"
    using assms(2,3) by (intro find_unique)
  then show ?thesis using locate_in_tree [OF p assms(4)] by simp
qed

text \<open>
  C17. A thread without a mailbox gets the free mailbox that has waited longest, under a name that
  nobody uses; every thread that has a mailbox itself then finds it by that name without asking the
  coordinator; and deleting it puts it at the end of the free mailboxes, discards what was in it, and
  makes its name unknown again.
\<close>

theorem create_locate_delete:
  assumes "proc_ok k s Q (i # F)" and "my_threadlocal_mbox s t = None" and "has_rc t s"
    and "is_cstr name" and "length name < ITC_MAX_NAME_LENGTH" and "locate_local_mbox name s = Inr None"
    and "my_threadlocal_mbox s u = Some j"
  shows "\<exists>s1 s2. itc_create_mailbox t name flags s = Inr (mbx_id i s, s1) \<and> proc_ok k s1 (Q(i \<mapsto> [])) F \<and>
           itc_locate_sync u tmo name True evs s1 = Inr (mbx_id i s, None, s1) \<and>
           itc_delete_mailbox t (mbx_id i s) s1 = Inr (True, s2) \<and> proc_ok k s2 Q (F @ [i]) \<and>
           my_threadlocal_mbox s2 = my_threadlocal_mbox s \<and> locate_local_mbox name s2 = Inr None"
proof -
  note P = proc_okD [OF assms(1)]
  have Qi: "Q i = None" "i < length (mboxes_of s)" using P(5) by auto
  have iT: "i \<notin> set (name_tree s)" using tree_okD(1) [OF P(6), of i] Qi(1) by auto
  have nn: "\<forall>x \<in> set (name_tree s). mb_name (mboxes_of s ! x) \<noteq> name"
    using assms(6) locate_in_tree [OF assms(1,4)] by (simp add: find_None_iff)
  obtain s1 where s1: "itc_create_mailbox t name flags s = Inr (mbx_id i s, s1)" "proc_ok k s1 (Q(i \<mapsto> [])) F"
      "my_threadlocal_mbox s1 = (my_threadlocal_mbox s)(t \<mapsto> i)" "name_tree s1 = tree_ins i name s"
      "mb_name (mboxes_of s1 ! i) = name" "ii_my_mbox_id_in_itccoord (itc_inst s1) = ii_my_mbox_id_in_itccoord (itc_inst s)"
      "\<forall>x. x \<noteq> i \<longrightarrow> mboxes_of s1 ! x = mboxes_of s ! x"
    using itc_create_mailbox_spec [OF assms(1-5), of flags] by blast
  note P1 = proc_okD [OF s1(2)]
  have t1: "name_tree s1 = name_tree s @ [i]" using s1(4) nn by (simp add: tree_ins_def)
  have l1: "locate_local_mbox name s1 = Inr (Some i)"
    by (rule locate_in_tree_unique [OF s1(2) _ s1(5) assms(4)]) (simp add: t1)
  have id: "mbx_id i s1 = mbx_id i s" using s1(6) by (simp add: mbx_id_def)
  have i1: "i < length (mboxes_of s1)" by (rule core_okD(5) [OF P1(2), of i "[]"]) simp
  have ms1: "mboxes (itc_inst s1) = BLive (mboxes_of s1)" by (rule core_cfg_mboxes(1) [OF core_okD(2) [OF P1(2)]])
  have "u \<noteq> t" using assms(2,7) by auto
  then have loc: "itc_locate_sync u tmo name True evs s1 = Inr (mbx_id i s, None, s1)"
    using ms1 s1(3) assms(7) l1 i1 mbox_id_at [OF P1(2) i1] id by (simp add: itc_locate_sync_def)
  have "my_threadlocal_mbox s1 t = Some i" "(Q(i \<mapsto> [])) i = Some []" using s1(3) by simp_all
  then obtain s2 where s2: "itc_delete_mailbox t (mbx_id i s1) s1 = Inr (True, s2)" "proc_ok k s2 ((Q(i \<mapsto> []))(i := None)) (F @ [i])"
      "my_threadlocal_mbox s2 = (my_threadlocal_mbox s1)(t := None)" "name_tree s2 = tree_del i s1"
      "\<forall>x. x \<noteq> i \<longrightarrow> mboxes_of s2 ! x = mboxes_of s1 ! x"
    using itc_delete_mailbox_spec [OF s1(2)] by blast
  have q2: "(Q(i \<mapsto> []))(i := None) = Q" "(my_threadlocal_mbox s1)(t := None) = my_threadlocal_mbox s"
    using Qi(1) assms(2) s1(3) by (auto simp: fun_upd_idem)
  have "x \<in> set (name_tree s) \<and> mb_name (mboxes_of s2 ! x) = mb_name (mboxes_of s ! x)" if "x \<in> set (name_tree s2)" for x
    using that tree_del_ok(1,2) [OF tree_okD(3,4) [OF P1(6)], of i] t1 s1(7) s2(4,5) by auto
  then have "locate_local_mbox name s2 = Inr None"
    using locate_in_tree [OF s2(2) assms(4)] nn by (simp add: find_None_iff)
  then show ?thesis using s1(1,2) loc s2(1-3) unfolding id q2 by blast
qed

text \<open>A process with two free mailboxes, and a name that it does not use.\<close>

lemma started_proc:
  obtains s k name where "api_ok k s" "proc_ok k s [0 \<mapsto> []] [1, 2]" "my_threadlocal_mbox s = [1 \<mapsto> 0]"
    "is_cstr name" "length name < ITC_MAX_NAME_LENGTH" "locate_local_mbox name s = Inr None"
proof -
  obtain s k where s: "api_ok k s" "proc_ok k s [0 \<mapsto> []] [1..<Suc (nat 2)]" "my_threadlocal_mbox s = [1 \<mapsto> 0]"
    using itc_init_ok [of 2 77] by auto
  have F: "[1..<Suc (nat 2)] = [1, 2]" by (simp add: upt_rec numeral_2_eq_2)
  define name :: cstr where "name = (if mb_name (mboxes_of s ! 0) = [65] then [66] else [65])"
  have name: "is_cstr name" "length name < ITC_MAX_NAME_LENGTH" "mb_name (mboxes_of s ! 0) \<noteq> name"
    by (auto simp: name_def is_cstr_def)
  have "x = 0" if "x \<in> set (name_tree s)" for x
    using tree_okD(1) [OF proc_okD(6) [OF s(2)] that] by (auto split: if_splits)
  then have "locate_local_mbox name s = Inr None"
    using locate_in_tree [OF s(2) name(1)] name(3) by (auto simp: find_None_iff)
  then show thesis using that [OF s(1) s(2) [unfolded F] s(3) name(1,2)] by blast
qed

theorem create_locate_delete_witness:
  "\<exists>s name i s1 s2. itc_create_mailbox 0 name 0 s = Inr (i, s1) \<and> itc_locate_sync 1 100 name True [] s1 = Inr (i, None, s1) \<and>
     itc_delete_mailbox 0 i s1 = Inr (True, s2) \<and> locate_local_mbox name s2 = Inr None"
proof -
  obtain s k name where s: "api_ok k s" "proc_ok k s [0 \<mapsto> []] [1, 2]" "my_threadlocal_mbox s = [1 \<mapsto> 0]"
      "is_cstr name" "length name < ITC_MAX_NAME_LENGTH" "locate_local_mbox name s = Inr None"
    by (rule started_proc)
  from create_locate_delete [OF s(2) _ api_alloc_state(2) [OF s(1)] s(4-6), of 0 1 0 0 100 "[]"]
  show ?thesis using s(3) by auto blast
qed

text \<open>
  Two mailboxes of a process may have the same name; the second one is then not in the tree.
  Deleting it removes the entry of the first one: that mailbox is still in use, under that name, and
  nobody in the process finds it any more.
\<close>

theorem duplicate_name_hides_mailbox:
  assumes "proc_ok k s Q (i # j # F)" and "my_threadlocal_mbox s t = None" and "my_threadlocal_mbox s u = None"
    and "t \<noteq> u" and "has_rc t s" and "has_rc u s"
    and "is_cstr name" and "length name < ITC_MAX_NAME_LENGTH" and "locate_local_mbox name s = Inr None"
  shows "\<exists>s1 s2 s3. itc_create_mailbox t name 0 s = Inr (mbx_id i s, s1) \<and>
           itc_create_mailbox u name 0 s1 = Inr (mbx_id j s, s2) \<and>
           itc_delete_mailbox u (mbx_id j s) s2 = Inr (True, s3) \<and>
           my_threadlocal_mbox s3 t = Some i \<and> mb_state (mboxes_of s3 ! i) = MBOX_INUSE \<and>
           mb_name (mboxes_of s3 ! i) = name \<and> locate_local_mbox name s3 = Inr None"
proof -
  note P = proc_okD [OF assms(1)]
  have nn: "\<forall>x \<in> set (name_tree s). mb_name (mboxes_of s ! x) \<noteq> name"
    using assms(9) locate_in_tree [OF assms(1,7)] by (simp add: find_None_iff)
  have ij: "i \<noteq> j" "Q i = None" "Q j = None" using P(4,5) by auto
  then have T: "i \<notin> set (name_tree s)" "j \<notin> set (name_tree s)" using tree_okD(1) [OF P(6)] by force+
  obtain s1 where s1: "itc_create_mailbox t name 0 s = Inr (mbx_id i s, s1)" "proc_ok k s1 (Q(i \<mapsto> [])) (j # F)"
      "my_threadlocal_mbox s1 = (my_threadlocal_mbox s)(t \<mapsto> i)" "name_tree s1 = tree_ins i name s"
      "mb_name (mboxes_of s1 ! i) = name" "\<forall>x. x \<noteq> i \<longrightarrow> mboxes_of s1 ! x = mboxes_of s ! x"
      "rcs s1 = (rcs s)(t := BLive 0)" "ii_my_mbox_id_in_itccoord (itc_inst s1) = ii_my_mbox_id_in_itccoord (itc_inst s)"
    using itc_create_mailbox_spec [OF assms(1,2,5,7,8), of 0] by blast
  have t1: "name_tree s1 = name_tree s @ [i]" using s1(4) nn by (simp add: tree_ins_def)
  have u1: "my_threadlocal_mbox s1 u = None" "has_rc u s1"
    using s1(3,7) assms(3,4,6) proc_okD(8) [OF s1(2)] by (auto simp: has_rc_def)
  obtain s2 where s2: "itc_create_mailbox u name 0 s1 = Inr (mbx_id j s1, s2)" "proc_ok k s2 (Q(i \<mapsto> [], j \<mapsto> [])) F"
      "my_threadlocal_mbox s2 = (my_threadlocal_mbox s1)(u \<mapsto> j)" "name_tree s2 = tree_ins j name s1"
      "mb_name (mboxes_of s2 ! j) = name" "\<forall>x. x \<noteq> j \<longrightarrow> mboxes_of s2 ! x = mboxes_of s1 ! x"
      "ii_my_mbox_id_in_itccoord (itc_inst s2) = ii_my_mbox_id_in_itccoord (itc_inst s1)"
    using itc_create_mailbox_spec [OF s1(2) u1 assms(7,8), of 0] by blast
  have t2: "name_tree s2 = name_tree s @ [i]" using s2(4) s1(5) t1 by (auto simp: tree_ins_def)
  have m2: "mb_name (mboxes_of s2 ! x) = mb_name (mboxes_of s ! x)" if "x \<in> set (name_tree s)" for x
    using s2(6) s1(6) T that by metis
  have i2: "mb_name (mboxes_of s2 ! i) = name" using s2(6) ij(1) s1(5) by simp
  have "my_threadlocal_mbox s2 u = Some j" "(Q(i \<mapsto> [], j \<mapsto> [])) j = Some []" using s2(3) by simp_all
  then obtain s3 where s3: "itc_delete_mailbox u (mbx_id j s2) s2 = Inr (True, s3)"
      "proc_ok k s3 ((Q(i \<mapsto> [], j \<mapsto> []))(j := None)) (F @ [j])"
      "my_threadlocal_mbox s3 = (my_threadlocal_mbox s2)(u := None)" "name_tree s3 = tree_del j s2"
      "\<forall>x. x \<noteq> j \<longrightarrow> mboxes_of s3 ! x = mboxes_of s2 ! x"
    using itc_delete_mailbox_spec [OF s2(2)] by blast
  have "find (\<lambda>x. mb_name (mboxes_of s2 ! x) = name) (name_tree s @ [i]) = Some i"
    using nn m2 i2 by (intro find_unique) auto
  then have t3: "name_tree s3 = name_tree s" using s3(4) s2(5) t2 T(1) by (simp add: tree_del_def remove1_append)
  have "mb_name (mboxes_of s3 ! x) \<noteq> name" if "x \<in> set (name_tree s)" for x
    using s3(5) m2 [OF that] nn that T(2) by metis
  then have loc: "locate_local_mbox name s3 = Inr None"
    using locate_in_tree [OF s3(2) assms(7)] t3 by (simp add: find_None_iff)
  have "mb_name (mboxes_of s3 ! i) = name" using s3(5) i2 ij(1) by simp
  moreover have "mb_state (mboxes_of s3 ! i) = MBOX_INUSE"
    using core_okD(4,5) [OF proc_okD(2) [OF s3(2)], of i] ij(1) mbox_ok_used(3) by fastforce
  moreover have "my_threadlocal_mbox s3 t = Some i" using s3(3) s2(3) s1(3) assms(4) by simp
  moreover have "mbx_id j s1 = mbx_id j s" "mbx_id j s2 = mbx_id j s" using s1(8) s2(7) by (simp_all add: mbx_id_def)
  ultimately show ?thesis using s1(1) s2(1) s3(1) loc by metis
qed


theorem duplicate_name_hides_mailbox_witness:
  "\<exists>s name i j s1 s2 s3. itc_create_mailbox 0 name 0 s = Inr (i, s1) \<and> itc_create_mailbox 5 name 0 s1 = Inr (j, s2) \<and>
     itc_delete_mailbox 5 j s2 = Inr (True, s3) \<and> my_threadlocal_mbox s3 0 = Some 1 \<and>
     mb_name (mboxes_of s3 ! 1) = name \<and> locate_local_mbox name s3 = Inr None"
proof -
  obtain s k name where s: "api_ok k s" "proc_ok k s [0 \<mapsto> []] [1, 2]" "my_threadlocal_mbox s = [1 \<mapsto> 0]"
      "is_cstr name" "length name < ITC_MAX_NAME_LENGTH" "locate_local_mbox name s = Inr None"
    by (rule started_proc)
  from duplicate_name_hides_mailbox [OF s(2) _ _ _ api_alloc_state(2) [OF s(1)] api_alloc_state(2) [OF s(1)] s(4-6), of 0 5]
  show ?thesis using s(3) by auto blast
qed

section \<open>Where the code departs from its contract\<close>

text \<open>
  The length of a name is checked after the mailbox was taken from the free ones, and allows one
  character too many. A name of exactly the maximal length is written past the end of the mailbox's
  name; with a longer one the call fails and the mailbox is lost: it is neither free nor in use.
\<close>

theorem long_name_loses_mailbox:
  assumes "proc_ok k s Q (i # F)" and "my_threadlocal_mbox s t = None" and "has_rc t s"
    and "ITC_MAX_NAME_LENGTH \<le> length name"
  shows "if length name = ITC_MAX_NAME_LENGTH then itc_create_mailbox t name flags s = Inl OutOfBounds
         else \<exists>s'. itc_create_mailbox t name flags s = Inr (ITC_NO_MBOX_ID, s') \<and> free_rep s' F \<and>
                my_threadlocal_mbox s' = my_threadlocal_mbox s \<and> mb_state (mboxes_of s' ! i) = MBOX_UNUSED"
proof -
  note P = proc_okD [OF assms(1)]
  let ?s = "s\<lparr>rcs := (rcs s)(t := BLive 0)\<rparr>"
  have ms: "mboxes (itc_inst s) \<noteq> BNull" using core_cfg_mboxes(1) [OF core_okD(2) [OF P(2)]] by simp
  obtain u where u: "rc_ensure t s = (True, u)" "rc_set t ITC_OK u = Inr ?s" using rc_open [OF assms(3)] by blast
  have "free_rep ?s (i # F)" using P(3) by (simp add: free_rep_def)
  then obtain q h where q: "free_dequeue t ?s = Inr (Some i, with_free q h ?s)" "free_rep (with_free q h ?s) F"
    using free_dequeue_ok [of ?s i F t 0] unfolding with_free_def by auto
  have r: "rc_set t 0 (with_free q h ?s) = Inr (with_free q h ?s)" by (rule rc_set_idem) simp
  have i: "i < length (mboxes_of s)" "Q i = None" using P(5) by auto
  then have "mb_state (mboxes_of (with_free q h ?s) ! i) = MBOX_UNUSED"
    using core_okD(4) [OF P(2) i(1)] by (simp add: mbox_ok_def mboxes_of_def)
  moreover have "my_threadlocal_mbox (with_free q h ?s) = my_threadlocal_mbox s" by (simp add: with_free_def)
  moreover have "itc_create_mailbox t name flags s =
      (if length name = ITC_MAX_NAME_LENGTH then Inl OutOfBounds else Inr (ITC_NO_MBOX_ID, with_free q h ?s))"
    using assms(2,4) ms u(1) by (simp add: itc_create_mailbox_def u(2) [simplified] q(1) r del: rc_set_live)
  ultimately show ?thesis using q(2) by simp
qed

theorem long_name_loses_mailbox_witness:
  "\<exists>s s'. free_rep s [1, 2] \<and> itc_create_mailbox 0 (replicate 256 65) 0 s = Inr (ITC_NO_MBOX_ID, s') \<and> free_rep s' [2]"
proof -
  obtain s k name where s: "api_ok k s" "proc_ok k s [0 \<mapsto> []] [1, 2]" "my_threadlocal_mbox s = [1 \<mapsto> 0]"
    by (rule started_proc) blast
  from long_name_loses_mailbox [OF s(2) _ api_alloc_state(2) [OF s(1)], of 0 "replicate 256 65" 0] s(3)
  show ?thesis using proc_okD(3) [OF s(2)] by auto
qed

text \<open>
  Calling \<open>itc_init\<close> again. In the same process it reports an error, but frees the caller's
  result code and keeps the pointer, so that the thread's next call uses freed memory. In a process
  that was forked from an initialised one, where it is meant to start over, it dereferences the null
  pointer that releasing the old resources has left.
\<close>

theorem second_init_is_fatal:
  assumes "mboxes (itc_inst s) = BLive ms" and "rcs s t = BLive w" and "sys s = []"
  shows "if cur_pid s = ii_pid (itc_inst s)
         then \<exists>s'. itc_init t nr use_malloc flags s = Inr (False, s') \<and> itc_alloc t sz msgno s' = Inl UseAfterFree
         else itc_init t nr use_malloc flags s = Inl NullDeref"
proof (cases "cur_pid s = ii_pid (itc_inst s)")
  case True
  then show ?thesis using assms by (simp add: itc_init_def fail_init_def rc_free_def itc_alloc_def Let_def)
next
  case False
  have null: "trans_maxmsgsize trans_mechanisms t m u = Inl NullDeref" if "rcs u t = BNull" "sys u = []" for m u
    using that
    by (simp add: trans_mechanisms_def local_trans_apis_def lsock_trans_apis_def sysvmq_trans_apis_def
        sysvmq_maxmsgsize_def rc_set_def rc_upd_def Let_def)
  show ?thesis
    using False assms by (simp add: itc_init_def release_all_itc_resources_def rc_free_def malloc_exit_def Let_def
        change_system_rlimit_def null)
qed

theorem second_init_is_fatal_witness:
  "\<exists>s. \<not> (\<exists>e. itc_init 0 3 True 0 s = Inl e) \<and>
     (\<exists>s'. itc_init 0 3 True 0 s = Inr (False, s') \<and> itc_alloc 0 16 1 s' = Inl UseAfterFree)"
proof -
  let ?s = "(proc0 7 [])\<lparr>itc_inst := itc_instance0\<lparr>mboxes := BLive [itc_mailbox0], ii_pid := 7\<rparr>,
              rcs := (\<lambda>_. BNull)(0 := BLive 0)\<rparr>"
  have "mboxes (itc_inst ?s) = BLive [itc_mailbox0]" "rcs ?s 0 = BLive 0" "sys ?s = []" "cur_pid ?s = ii_pid (itc_inst ?s)"
    by (simp_all add: proc0_def)
  from second_init_is_fatal [OF this(1-3), of 3 True 0 16 1] this(4) show ?thesis by (intro exI [of _ ?s]) auto
qed

text \<open>
  The receiving thread compares the length that \<open>msgrcv\<close> reports, which does not count the type
  of the message, with the size of the header and the type. A message from another process whose
  user data is smaller than 8 bytes, for instance one that holds nothing but its message number, is
  taken from the queue and thrown away.
\<close>

theorem rx_round_drops_small_messages:
  assumes "\<not> sv_is_terminated (sysvmq_inst s)" and "rx_buffer (sysvmq_inst s) = BLive buf"
    and "wf_msg block" and "fld OFF_SIZE block < 8"
    and "rx_data s = block # rest" and "sys s = (int (length block), e) # rs"
  shows "rx_round t rpt s = Inr (Some rpt, s\<lparr>sys := rs, rx_data := rest\<rparr>)"
proof -
  have "length block \<le> 24" "block \<noteq> []" using assms(3,4) by (auto simp: wf_msg_def word_less_nat_alt)
  then show ?thesis using assms by (simp add: rx_round_def recv_call_def)
qed

theorem rx_round_drops_small_messages_witness:
  "\<exists>s. rx_data s = [replicate 12 0 @ enc32 4 @ enc32 99 @ [ENDPOINT]] \<and>
     rx_round 1 False s = Inr (Some False, s\<lparr>sys := [], rx_data := []\<rparr>)"
proof -
  let ?b = "replicate 12 0 @ enc32 4 @ enc32 99 @ [ENDPOINT] :: bytes"
  let ?s = "(proc0 7 [(int (length ?b), EOTHER)])\<lparr>sysvmq_inst := sysvmq_instance0\<lparr>rx_buffer := BLive (replicate 8192 0)\<rparr>,
              rx_data := [?b]\<rparr>"
  have "fld OFF_SIZE ?b = 4" by (simp add: fld_def slice_def)
  then have "wf_msg ?b" "fld OFF_SIZE ?b < 8" by (simp_all add: wf_msg_def nth_append)
  from rx_round_drops_small_messages [of ?s _ ?b, OF _ _ this, of _ "[]" EOTHER "[]" 1 False] show ?thesis
    by (intro exI [of _ ?s]) (simp add: proc0_def sysvmq_instance0_def)
qed

end
