(* ===== verification/Itc_Remote.thy ===== *)
theory Itc_Remote
  imports Itc_System
begin

text \<open>
  Messages between processes: the sending side (\<open>sysvmq_send\<close>) and the receiving thread
  (\<open>sysvmq_rx_thread\<close>) of two processes, joined by the message queue of the kernel.
\<close>

unbundle bit_operations_syntax

section \<open>The receiving thread\<close>

text \<open>The block of a message inside the receive buffer, behind the type of the System V message.\<close>

lemma buffer_facts:
  fixes post :: bytes
  assumes "wf_msg b" and "length pre = 8" and "length b < 2 ^ 32"
  defines "buf \<equiv> pre @ b @ post" and "sz \<equiv> fld OFF_SIZE b"
  shows "get32 (MTYPE_SIZE + OFF_SIZE) buf = Inr sz"
    "get_bytes (MTYPE_SIZE + OFF_MSGNO + unat sz) 1 buf = Inr [ENDPOINT]"
    "get_bytes MTYPE_SIZE (unat (sz + of_nat ITC_HEADER_SIZE + 1)) buf = Inr b"
    "length b = unat sz + 17" "4 \<le> unat sz"
proof -
  have l: "20 < length b" "length b = unat sz + 17" "b ! (unat sz + 16) = ENDPOINT"
    using assms(1) by (auto simp: wf_msg_def sz_def add.commute)
  then show "length b = unat sz + 17" "4 \<le> unat sz" by simp_all
  have "slice 20 4 buf = slice 12 4 b" using l assms(2) by (simp add: slice_def buf_def)
  then show "get32 (MTYPE_SIZE + OFF_SIZE) buf = Inr sz" using l assms(2) by (simp add: sz_def fld_def buf_def)
  have "drop (unat sz + 16) b = [ENDPOINT]"
    using l Cons_nth_drop_Suc [of "unat sz + 16" b] by simp
  then have "slice (24 + unat sz) 1 buf = [ENDPOINT]" using l(2) assms(2) by (simp add: slice_def buf_def add.commute)
  then show "get_bytes (MTYPE_SIZE + OFF_MSGNO + unat sz) 1 buf = Inr [ENDPOINT]"
    using l(2) assms(2) by (simp add: get_bytes_def buf_def)
  have "unat (sz + 17) = unat sz + 17" using l(2) assms(3) by (subst unat_add_lem [THEN iffD1]) simp_all
  then show "get_bytes MTYPE_SIZE (unat (sz + of_nat ITC_HEADER_SIZE + 1)) buf = Inr b"
    using l(2) assms(2) by (simp add: get_bytes_def buf_def slice_def add.assoc)
qed

lemma get_bytes_shift: "length pre = d \<Longrightarrow> get_bytes (d + off) n (pre @ b) = get_bytes off n b"
  by (simp add: get_bytes_def slice_def)

lemma get_bytes_shift0: "length pre = d \<Longrightarrow> get_bytes d n (pre @ b) = get_bytes 0 n b"
  using get_bytes_shift [of pre d 0] by simp

text \<open>The block of a message at the beginning of a buffer.\<close>

lemma block_facts:
  fixes post :: bytes
  assumes "wf_msg b" and "length b < 2 ^ 32"
  defines "buf \<equiv> b @ post" and "sz \<equiv> fld OFF_SIZE b"
  shows "get32 OFF_SIZE buf = Inr sz" "get_bytes (OFF_MSGNO + unat sz) 1 buf = Inr [ENDPOINT]"
    "get_bytes 0 (unat (sz + of_nat ITC_HEADER_SIZE + 1)) buf = Inr b" "length b = unat sz + 17" "4 \<le> unat sz"
proof -
  let ?pre = "replicate 8 0 :: bytes"
  have pre: "length ?pre = 8" by simp
  note B = buffer_facts(1-3) [OF assms(1) pre assms(2), of post, folded sz_def buf_def]
    buffer_facts(4,5) [OF assms(1) pre assms(2), folded sz_def]
  show "length b = unat sz + 17" "4 \<le> unat sz" using B(4,5) by simp_all
  have "get32 (MTYPE_SIZE + OFF_SIZE) (?pre @ buf) = get32 OFF_SIZE buf"
    unfolding get32_def by (subst get_bytes_shift) simp_all
  then show "get32 OFF_SIZE buf = Inr sz" using B(1) by simp
  have "get_bytes (MTYPE_SIZE + OFF_MSGNO + unat sz) 1 (?pre @ buf) = get_bytes (OFF_MSGNO + unat sz) 1 buf"
    unfolding add.assoc by (rule get_bytes_shift) simp
  then show "get_bytes (OFF_MSGNO + unat sz) 1 buf = Inr [ENDPOINT]" using B(2) by simp
  have "get_bytes MTYPE_SIZE (unat (sz + of_nat ITC_HEADER_SIZE + 1)) (?pre @ buf) =
      get_bytes 0 (unat (sz + of_nat ITC_HEADER_SIZE + 1)) buf"
    by (rule get_bytes_shift0) simp
  then show "get_bytes 0 (unat (sz + of_nat ITC_HEADER_SIZE + 1)) buf = Inr b" using B(3) by simp
qed

lemma forward_delivers:
  assumes r: "mbx_rep k s Q" and al: "alloc_state t s" "malloc_results (msgs s) = []"
    and me: "my_threadlocal_mbox s t = Some i" and to: "Q j = Some xs" "i \<noteq> j"
    and b: "wf_msg b" "fld OFF_RECEIVER b = mbx_id j s" "length b \<le> nat (max_mallocsize s)"
    and buf: "length pre = 8"
  shows "\<exists>s'. forward_sysvmq_msg t (pre @ b @ post) s = Inr s' \<and> core_ok s' k (Q(j \<mapsto> xs @ [fresh (msgs s)])) \<and>
           cells (msgs s') = (cells (msgs s))(fresh (msgs s) \<mapsto>
             set_inrx (stamp (mbx_id i s) (mbx_id j s) (blit OFF_FLAGS (enc32 0) b))) \<and>
           (\<forall>u. my_threadlocal_mbox s' u = my_threadlocal_mbox s u) \<and> sys s' = []"
proof -
  note R = mbx_repD [OF r]
  let ?p = "fresh (msgs s)" and ?b = "blit OFF_FLAGS (enc32 0) b"
  have mx: "0 \<le> max_mallocsize s" "max_mallocsize s < 2 ^ 32" "heap_ok (msgs s)" using al by (simp_all add: alloc_state_def)
  have lb: "length b < 2 ^ 32" using b(3) mx(1,2) by (simp add: nat_less_iff)
  note B = buffer_facts(1,2,3) [OF b(1) buf lb, of post] buffer_facts(4,5) [OF b(1) buf lb]
  have n: "max 4 (unat (fld OFF_SIZE b)) = unat (fld OFF_SIZE b)" using B(5) by simp
  define s1 where "s1 = s\<lparr>rcs := (rcs s)(t := BLive 0),
      msgs := (msgs s)\<lparr>fresh := Suc ?p, malloc_results := [], cells := (cells (msgs s))(?p \<mapsto> ?b)\<rparr>\<rparr>"
  have none: "cells (msgs s) ?p = None" using mx(3) by (simp add: heap_ok_def)
  have "local_queues s1 k Q"
    by (rule local_queues_msgs [OF core_okD(1) [OF R(1)]]) (use none in \<open>auto simp: s1_def\<close>)
  then have c1: "core_ok s1 k Q"
    using R(1) core_okD(1) [OF R(1)] core_ok_cong [of s1 s k Q] by (simp add: s1_def)
  have i: "i < length (mboxes_of s)" using R(5) [OF me] core_okD(5) [OF R(1)] by blast
  have j: "j < length (mboxes_of s)" by (rule core_okD(5) [OF R(1) to(1)])
  have same: "mboxes_of s1 = mboxes_of s" "my_threadlocal_mbox s1 = my_threadlocal_mbox s" "sys s1 = []"
      "rcs s1 t = BLive 0" "can_alloc (litems s1)" "cells (msgs s1) ?p = Some ?b"
    using R(2,3) by (simp_all add: s1_def mboxes_of_def can_alloc_def)
  have l20: "21 \<le> length b" by (rule wf_msg_length [OF b(1)])
  have wb: "wf_msg ?b" "\<not> inrx ?b" "fld OFF_RECEIVER ?b = mbx_id j s"
    using wf_msg_blit_header [OF b(1)] b(2) l20 by (simp_all add: inrx_def fld_blit_other)
  obtain s' where s': "itc_send_host t (Some ?p) (mbx_id j s) ITC_MY_MBOX_ID s1 = Inr (True, s')"
      "core_ok s' k (Q(j \<mapsto> xs @ [?p]))" "same_rest t s1 s'"
      "cells (msgs s') = (cells (msgs s1))(?p \<mapsto> set_inrx (stamp (mbx_id i s) (mbx_id j s) ?b))"
    using itc_send_local_spec [OF c1 _ _ same(4,3,5) to(1) _ _ disjI1 [OF refl] same(6) wb(1,2), of i "mbx_id j s"]
      same(1,2) me i to(2) mbox_id_at [OF R(1) i] mbox_id_at [OF R(1) j] by metis
  have a: "itc_alloc t (ucast (fld OFF_SIZE b)) 0 s =
      Inr (Some ?p, s\<lparr>rcs := (rcs s)(t := BLive ITC_OK),
        msgs := (msgs s)\<lparr>cells := (cells (msgs s))(?p \<mapsto> new_message (unat (fld OFF_SIZE b)) 0), fresh := Suc ?p,
                         malloc_results := tl (malloc_results (msgs s))\<rparr>\<rparr>)"
    using itc_alloc_ok [OF al(1), of "unat (fld OFF_SIZE b)" 0] al(2) b(3) B(4) n by (simp add: can_alloc_def del: OFF_SIZE_def)
  have nm: "length (new_message (unat (fld OFF_SIZE b)) 0) = length b" using B(4,5) by (simp del: OFF_SIZE_def)
  then have cp: "put_bytes 0 b (new_message (unat (fld OFF_SIZE b)) 0) = Inr b" by (simp add: put_bytes_def blit_def)
  have fl: "fld OFF_FLAGS (new_message (unat (fld OFF_SIZE b)) 0) = 0" using fld_new_message(1) [of "unat (fld OFF_SIZE b)" 0] B(5) by simp
  have "forward_sysvmq_msg t (pre @ b @ post) s = Inr s'"
    using l20 nm wb(3) s'(1) al(2) mx(3)
    by (simp add: forward_sysvmq_msg_def B(1-3) [simplified] a [simplified] cp [simplified] fl [simplified] s1_def)
  then show ?thesis using s' same by (auto simp: s1_def same_rest_def)
qed

lemma mbx_rep_cong:
  assumes "mbx_rep k s Q" and "itc_inst s' = itc_inst s" and "local_inst s' = local_inst s" and "litems s' = litems s"
    and "msgs s' = msgs s" and "rcs s' = rcs s" and "my_threadlocal_mbox s' = my_threadlocal_mbox s" and "sys s' = []"
  shows "mbx_rep k s' Q"
proof -
  note R = mbx_repD [OF assms(1)]
  have "local_queues s' k Q" by (rule local_queues_msgs [OF core_okD(1) [OF R(1)]]) (simp_all add: assms)
  then have "core_ok s' k Q" using core_ok_cong [of s' s k Q] assms(2,3) core_okD(1) [OF R(1)] R(1) by simp
  then show ?thesis using R assms(4-8) by (auto simp: mbx_rep_def)
qed

lemma rx_round_delivers:
  assumes r: "mbx_rep k s Q" and al: "alloc_state t s" "malloc_results (msgs s) = []"
    and me: "my_threadlocal_mbox s t = Some i" and to: "Q j = Some xs" "i \<noteq> j"
    and b: "wf_msg b" "fld OFF_RECEIVER b = mbx_id j s" "length b \<le> nat (max_mallocsize s)" "8 \<le> fld OFF_SIZE b"
    and buf: "rx_buffer (sysvmq_inst s) = BLive buf" "8 + length b \<le> length buf" "\<not> sv_is_terminated (sysvmq_inst s)"
  shows "\<exists>s'. rx_round t rpt (s\<lparr>sys := [(int (length b), e)], rx_data := b # rest\<rparr>) = Inr (Some False, s') \<and>
           core_ok s' k (Q(j \<mapsto> xs @ [fresh (msgs s)])) \<and>
           cells (msgs s') = (cells (msgs s))(fresh (msgs s) \<mapsto>
             set_inrx (stamp (mbx_id i s) (mbx_id j s) (blit OFF_FLAGS (enc32 0) b))) \<and>
           (\<forall>u. my_threadlocal_mbox s' u = my_threadlocal_mbox s u) \<and> sys s' = []"
proof -
  let ?buf = "take 8 buf @ b @ drop (8 + length b) buf"
  define u where "u = s\<lparr>sys := [], rx_data := rest, sysvmq_inst := (sysvmq_inst s)\<lparr>rx_buffer := BLive ?buf\<rparr>\<rparr>"
  have ru: "mbx_rep k u Q" by (rule mbx_rep_cong [OF r]) (simp_all add: u_def)
  have "alloc_state t u" using al(1) by (auto simp: alloc_state_def u_def)
  from forward_delivers [OF ru this, of i j xs b "take 8 buf" "drop (8 + length b) buf"]
  obtain s' where s': "forward_sysvmq_msg t ?buf u = Inr s'" "core_ok s' k (Q(j \<mapsto> xs @ [fresh (msgs s)]))"
      "cells (msgs s') = (cells (msgs s))(fresh (msgs s) \<mapsto>
             set_inrx (stamp (mbx_id i s) (mbx_id j s) (blit OFF_FLAGS (enc32 0) b)))"
      "\<forall>v. my_threadlocal_mbox s' v = my_threadlocal_mbox s v" "sys s' = []"
    using al(2) me to b(1-3) buf(2) by (auto simp: u_def mbx_id_def)
  have "24 < length b" "b \<noteq> []" using b(1,4) by (auto simp: wf_msg_def word_le_nat_alt)
  then have "rx_round t rpt (s\<lparr>sys := [(int (length b), e)], rx_data := b # rest\<rparr>) = Inr (Some False, s')"
    using buf s'(1) by (simp add: rx_round_def recv_call_def put_bytes_def blit_def u_def)
  then show ?thesis using s' by blast
qed

section \<open>From one process to another\<close>

text \<open>
  C9. A message from one process to a mailbox of another. The block that \<open>sysvmq_send\<close> hands to the
  kernel makes the receiving thread of the other process append exactly one message to the queue of
  the addressed mailbox: size, message number, data and end marker are what was sent, and the
  sender's copy is released. The sender, however, is not kept: the message claims to come from the
  receiving thread's own mailbox.
\<close>

theorem message_crosses_processes:
  assumes "sv_cfg a" and "alloc_state ta a" and "rcs a ta = BLive 0" and "mallocs a = []"
    and "0 < proc_index (mbx_id j s)" and "proc_index (mbx_id j s) < 255"
    and "sysvmq_cl (sysvmq_inst a) ! proc_index (mbx_id j s) = c" and "cl_mbox_id_in_itccoord c \<noteq> 0"
    and "cells (msgs a) m = Some bs" and "wf_msg bs" and "\<not> inrx bs" and "length bs < 2 ^ 31"
    and "fld OFF_RECEIVER bs = mbx_id j s" and "8 \<le> fld OFF_SIZE bs"
    and "sys a = replicate n (-1, EINTR) @ [(0, e)]"
    and "mbx_rep k s Q" and "alloc_state t s" and "malloc_results (msgs s) = []"
    and "my_threadlocal_mbox s t = Some i" and "Q j = Some xs" and "i \<noteq> j"
    and "rx_buffer (sysvmq_inst s) = BLive buf" and "8 + length bs \<le> length buf"
    and "\<not> sv_is_terminated (sysvmq_inst s)" and "length bs \<le> nat (max_mallocsize s)"
  shows "\<exists>a' block s' bs'. sysvmq_send ta m (mbx_id j s) a = Inr a' \<and> cells (msgs a') m = None \<and>
           mq_sent a' = mq_sent a @ [(cl_sysvmq_id c, block)] \<and>
           rx_round t rpt (s\<lparr>sys := [(int (length block), e')], rx_data := block # rest\<rparr>) = Inr (Some False, s') \<and>
           core_ok s' k (Q(j \<mapsto> xs @ [fresh (msgs s)])) \<and> cells (msgs s') (fresh (msgs s)) = Some bs' \<and>
           wf_msg bs' \<and> drop OFF_SIZE bs' = drop OFF_SIZE bs \<and>
           fld OFF_RECEIVER bs' = mbx_id j s \<and> fld OFF_SENDER bs' = mbx_id i s"
proof -
  have "(0::int) \<noteq> -1" by simp
  from sysvmq_send_ok [OF assms(1-12,15) this]
  obtain a' where a': "sysvmq_send ta m (mbx_id j s) a = Inr a'" "mq_sent a' = mq_sent a @ [(cl_sysvmq_id c, bs)]"
      "cells (msgs a') = (cells (msgs a))(m := None)" by blast
  let ?b = "blit OFF_FLAGS (enc32 0) bs"
  let ?st = "stamp (mbx_id i s) (mbx_id j s) ?b"
  obtain s' where s': "rx_round t rpt (s\<lparr>sys := [(int (length bs), e')], rx_data := bs # rest\<rparr>) = Inr (Some False, s')"
      "core_ok s' k (Q(j \<mapsto> xs @ [fresh (msgs s)]))" "cells (msgs s') (fresh (msgs s)) = Some (set_inrx ?st)"
    using rx_round_delivers [OF assms(16-21,10,13,25,14,22-24), where rpt = rpt and e = e' and rest = rest] by auto
  have l: "21 \<le> length bs" by (rule wf_msg_length [OF assms(10)])
  have b: "wf_msg ?b" using assms(10) l by (simp add: wf_msg_blit_header)
  note sp = stamp_props [OF b, of "mbx_id i s" "mbx_id j s"]
  have "wf_msg (set_inrx ?st)" "drop OFF_SIZE (set_inrx ?st) = drop OFF_SIZE bs"
      "fld OFF_RECEIVER (set_inrx ?st) = mbx_id j s" "fld OFF_SENDER (set_inrx ?st) = mbx_id i s"
    using sp drop_stamp [OF b] l wf_msg_length [OF sp(1)] by (simp_all add: set_inrx_def wf_msg_blit_header drop_blit fld_blit_other)
  then show ?thesis using a' s' by fastforce
qed


text \<open>A process with the receiving thread (thread 1, mailbox 0) and one more mailbox (thread 0, mailbox 1).\<close>

lemma receiving_proc:
  obtains s k where "mbx_rep k s [0 \<mapsto> [], 1 \<mapsto> []]" "alloc_state 1 s" "malloc_results (msgs s) = []"
    "my_threadlocal_mbox s 1 = Some 0" "mbx_id 1 s = 0x100001" "mbx_id 0 s = 0x100000"
    "rx_buffer (sysvmq_inst s) = BLive (replicate 8192 0)"
    "\<not> sv_is_terminated (sysvmq_inst s)" "max_mallocsize s = ITC_MAX_MSGSIZE"
proof -
  obtain s0 k where s0: "api_ok k s0" "proc_ok k s0 [0 \<mapsto> []] [1]" "my_threadlocal_mbox s0 = [1 \<mapsto> 0]"
      "max_mallocsize s0 = ITC_MAX_MSGSIZE" "ii_my_mbox_id_in_itccoord (itc_inst s0) = push_bit ITC_COORD_SHIFT 1"
    using itc_init_ok [of 1 77] by (auto simp: upt_rec)
  have nm: "is_cstr [65]" "length [65::u8] < ITC_MAX_NAME_LENGTH" by (simp_all add: is_cstr_def)
  obtain s1 where s1: "itc_create_mailbox 0 [65] 0 s0 = Inr (mbx_id 1 s0, s1)" "proc_ok k s1 ([0 \<mapsto> []](1 \<mapsto> [])) []"
      "my_threadlocal_mbox s1 = [1 \<mapsto> 0, 0 \<mapsto> 1]" "msgs s1 = msgs s0" "max_mallocsize s1 = max_mallocsize s0"
      "ii_my_mbox_id_in_itccoord (itc_inst s1) = ii_my_mbox_id_in_itccoord (itc_inst s0)"
    using itc_create_mailbox_spec [OF s0(2) _ api_alloc_state(2) [OF s0(1)] nm, of 0 0] s0(3) by auto
  define s where "s = s1\<lparr>sysvmq_inst := (sysvmq_inst s1)\<lparr>rx_buffer := BLive (replicate 8192 0), sv_is_terminated := False\<rparr>\<rparr>"
  note P = proc_okD [OF s1(2)]
  have "mbx_rep k s ([0 \<mapsto> []](1 \<mapsto> []))"
    by (rule mbx_rep_cong [OF P(1)]) (use mbx_repD(2) [OF P(1)] in \<open>simp_all add: s_def\<close>)
  moreover have "alloc_state 1 s"
    using P(9,10,12,13) core_cfg_mboxes(1) [OF core_okD(2) [OF P(2)]] mbx_repD(4) [OF P(1), of 1 0] s1(3)
    by (simp add: alloc_state_def s_def)
  ultimately show thesis
    using s0(1,4,5) s1(3-6) by (intro that [of k s]) (simp_all add: s_def mbx_id_def api_ok_def)
qed

definition remote_message :: bytes where
  "remote_message = blit OFF_RECEIVER (enc32 0x100001) (new_message 8 7)"

lemma remote_message_facts:
  "wf_msg remote_message" "\<not> inrx remote_message" "length remote_message = 25"
  "fld OFF_RECEIVER remote_message = 0x100001" "fld OFF_SIZE remote_message = 8"
  using fld_new_message [of 8 7]
  by (simp_all add: remote_message_def wf_msg_blit_header wf_new_message inrx_def fld_blit_other)

definition sending_proc :: proc where
  "sending_proc = alloc_example\<lparr>sys := [(0, EOTHER)],
     sysvmq_inst := sysvmq_instance0\<lparr>sv_is_initialized := True, sv_itccoord_mask := ITC_COORD_MASK,
       sv_itccoord_shift := 20,
       sysvmq_cl := replicate 255 \<lparr>cl_mbox_id_in_itccoord = 0x100000, cl_sysvmq_id = 77\<rparr>\<rparr>,
     msgs := \<lparr>cells = [0 \<mapsto> remote_message], fresh = 1, malloc_results = []\<rparr>\<rparr>"

lemma sending_proc_facts:
  "sv_cfg sending_proc" "alloc_state 0 sending_proc" "rcs sending_proc 0 = BLive 0" "mallocs sending_proc = []"
  "sysvmq_cl (sysvmq_inst sending_proc) ! 1 = \<lparr>cl_mbox_id_in_itccoord = 0x100000, cl_sysvmq_id = 77\<rparr>"
  "cells (msgs sending_proc) 0 = Some remote_message"
  "sys sending_proc = replicate 0 (-1, EINTR) @ [(0, EOTHER)]" "mq_sent sending_proc = []"
  using alloc_example_state
  by (auto simp: sv_cfg_def sending_proc_def alloc_state_def alloc_example_def proc0_def heap_ok_def)

theorem message_crosses_processes_witness:
  "\<exists>k a' block s s' p bs'. sysvmq_send 0 0 0x100001 sending_proc = Inr a' \<and> mq_sent a' = [(77, block)] \<and>
     rx_round 1 False (s\<lparr>sys := [(int (length block), EOTHER)], rx_data := [block]\<rparr>) = Inr (Some False, s') \<and>
     core_ok s' k [0 \<mapsto> [], 1 \<mapsto> [p]] \<and> cells (msgs s') p = Some bs' \<and>
     drop OFF_SIZE bs' = drop OFF_SIZE remote_message \<and> fld OFF_SENDER bs' = 0x100000"
proof -
  obtain s k where s: "mbx_rep k s [0 \<mapsto> [], 1 \<mapsto> []]" "alloc_state 1 s" "malloc_results (msgs s) = []"
      "my_threadlocal_mbox s 1 = Some 0" "mbx_id 1 s = 0x100001" "mbx_id 0 s = 0x100000"
      "rx_buffer (sysvmq_inst s) = BLive (replicate 8192 0)"
      "\<not> sv_is_terminated (sysvmq_inst s)" "max_mallocsize s = ITC_MAX_MSGSIZE"
    by (rule receiving_proc)
  note f = sending_proc_facts and m = remote_message_facts
  have i: "proc_index (mbx_id 1 s) = 1" using s(5) by (simp add: proc_index_def)
  have "\<exists>a' block s' bs'. sysvmq_send 0 0 (mbx_id 1 s) sending_proc = Inr a' \<and> cells (msgs a') 0 = None \<and>
          mq_sent a' = mq_sent sending_proc @ [(77, block)] \<and>
          rx_round 1 False (s\<lparr>sys := [(int (length block), EOTHER)], rx_data := [block]\<rparr>) = Inr (Some False, s') \<and>
          core_ok s' k ([0 \<mapsto> [], 1 \<mapsto> []](1 \<mapsto> [] @ [fresh (msgs s)])) \<and> cells (msgs s') (fresh (msgs s)) = Some bs' \<and>
          wf_msg bs' \<and> drop OFF_SIZE bs' = drop OFF_SIZE remote_message \<and>
          fld OFF_RECEIVER bs' = mbx_id 1 s \<and> fld OFF_SENDER bs' = mbx_id 0 s"
    using message_crosses_processes [OF f(1-4) _ _ _ _ f(6) m(1,2) _ _ _ f(7) s(1-4) _ _ s(7) _ s(8),
        where j = 1 and xs = "[]" and rpt = False and e' = EOTHER and rest = "[]"]
      f(5) i m(3-5) s(5,9) by simp
  then show ?thesis unfolding f(8) s(5,6) append_Nil fun_upd_upd by blast
qed

end
