(* ===== verification/Itc_Coord_System.thy ===== *)
theory Itc_Coord_System
  imports Itc_Coord_Registry Itc_Remote
begin

text \<open>
  The coordinator as a whole: how it starts, how it takes in a process and loses it again, the states
  that its main loop reaches, and what it does to its memory when processes come, go and take away each
  other's names. Together with \<open>Itc_Lsock\<close>, the handshake of a process and the coordinator.
\<close>

unbundle bit_operations_syntax

section \<open>A process is taken in\<close>

text \<open>A request as a process sends it, and the outcomes of the calls up to its reception.\<close>

definition request_arrives :: "int \<Rightarrow> u32 \<Rightarrow> proc \<Rightarrow> bool" where
  "request_arrives sd pid p \<longleftrightarrow>
     0 \<le> sd \<and> (\<exists>e e'. sys p = [(sd, e), (int LCQ_SIZE, e')]) \<and>
     rx_data p = [enc32 ITC_LOCATE_COORD_REQUEST @ enc32 pid] \<and> mallocs p = []"

lemma read_request_ok:
  assumes "request_arrives sd pid p"
  shows "\<exists>q. read_request (c\<lparr>co_proc := p\<lparr>sys := tl (sys p)\<rparr>\<rparr>) = Inr (Inr (sint pid), c\<lparr>co_proc := q\<rparr>) \<and> sys q = [] \<and> mallocs q = []"
proof -
  obtain e e' where p: "sys p = [(sd, e), (8, e')]" "rx_data p = [enc32 0x90000501 @ enc32 pid]" "mallocs p = []"
    using assms by (auto simp: request_arrives_def)
  have "get32 0 (enc32 a @ enc32 b) = Inr a" "get32 4 (enc32 a @ enc32 b) = Inr b" for a b
    by (simp_all add: get32_def get_bytes_def slice_def)
  then show ?thesis
    using p by (auto simp: read_request_def recv_call_def Let_def)
qed

lemma open_slot_ok:
  assumes "i < length (processes c)" and "sys (co_proc c) = []"
  shows "open_slot i pid c = Inr (True, c\<lparr>processes := (processes c)[i := (processes c ! i)
           \<lparr>ip_pid := pid, ip_sockfd := 0, ip_sockaddr := lsocket_name (mbox_id_in_itccoord (processes c ! i)),
             ip_state := PROC_LISTENING\<rparr>]\<rparr>)"
  using assms by (simp add: open_slot_def proc_upd_def co_sys_def)

lemma send_locate_reply_ok:
  assumes "i < length (processes c)" and "sys (co_proc c) = []" and "mallocs (co_proc c) = []"
  shows "send_locate_reply sd (Some i) c =
           Inr (True, c\<lparr>co_sent := co_sent c @ [(sd, locate_coord_reply (mbox_id_in_itccoord (processes c ! i)) (co_mbox_id c))]\<rparr>)"
  using assms by (simp add: send_locate_reply_def co_malloc_def co_sys_def proc_at_def)

lemma locate_request_ok:
  assumes s: "slots_ok c (i # fs) us" and p: "request_arrives sd pid p"
  shows "\<exists>c'. handle_locate_coord_request (c\<lparr>co_proc := p\<rparr>) = Inr (True, c') \<and> slots_ok c' fs (us @ [i]) \<and>
           co_sent c' = co_sent c @ [(sd, locate_coord_reply (push_bit ITC_COORD_SHIFT (of_nat i)) (co_mbox_id c))] \<and>
           (\<exists>pr. processes c' = (processes c)[i := pr] \<and> ip_state pr = PROC_LISTENING \<and> ip_pid pr = sint pid \<and> ip_sockfd pr = 0 \<and>
              list_mboxes_tree pr = list_mboxes_tree (processes c ! i)) \<and>
           mbox_tree c' = mbox_tree c \<and> mbox_infos c' = mbox_infos c \<and> co_mbox_id c' = co_mbox_id c"
proof -
  let ?c0 = "c\<lparr>co_proc := p\<rparr>"
  have s0: "slots_ok ?c0 (i # fs) us" by (rule slots_ok_view [OF _ s]) (simp add: slots_view_def)
  obtain e e' where sp: "sys p = [(sd, e), (8, e')]" "mallocs p = []" "0 \<le> sd" using p by (auto simp: request_arrives_def)
  obtain q where q: "read_request (c\<lparr>co_proc := p\<lparr>sys := tl (sys p)\<rparr>\<rparr>) = Inr (Inr (sint pid), c\<lparr>co_proc := q\<rparr>)" "sys q = []" "mallocs q = []"
    using read_request_ok [OF p] by blast
  let ?c1 = "c\<lparr>co_proc := q\<rparr>"
  obtain ps qs where l: "lists_ok c ps (i # fs) qs us" using s by (auto simp: slots_ok_def)
  then have l1: "lists_ok ?c1 ps (i # fs) qs us" using lists_ok_cong [of ?c1 c] by simp
  obtain a b h where f: "free_deq ?c1 = Inr (Some i, with_lists a b h ?c1)" "lists_ok (with_lists a b h ?c1) (tl ps) fs qs us"
    using free_deq_ok [OF l1] by blast
  let ?d = "(with_lists a b h ?c1)\<lparr>freelist_count := freelist_count c - 1\<rparr>"
  have ld: "lists_ok ?d (tl ps) fs qs us" using f(2) lists_ok_cong [of ?d "with_lists a b h ?c1"] by simp
  have i: "i \<notin> set (fs @ us)" "2 \<le> i" "i < 255" using l by (auto simp: lists_ok_def)
  obtain a' b' h' where u: "used_q (\<lambda>rc q h. q_enqueue rc (Some i) q h) ?d = Inr (with_lists a' b' h' ?d)"
    using used_enq_ok [OF ld i] by blast
  let ?e = "with_lists a' b' h' ?d"
  have rc: "co_rc c = BLive 0" by (rule slots_ok_mem(5) [OF s])
  have P: "length (processes c) = 255" "mbox_id_in_itccoord (processes c ! i) = push_bit 20 (of_nat i)"
    using s i by (simp_all add: slots_ok_def procs_ok_def)
  define pr where "pr = (processes c ! i)\<lparr>ip_pid := sint pid, ip_sockfd := 0, ip_sockaddr := lsocket_name (push_bit 20 (of_nat i)),
             ip_state := PROC_LISTENING\<rparr>"
  have o: "open_slot i (sint pid) ?e = Inr (True, ?e\<lparr>processes := (processes c)[i := pr]\<rparr>)"
    using open_slot_ok [of i ?e "sint pid"] P i(3) q(2) by (simp add: pr_def)
  define c' where "c' = ?e\<lparr>processes := (processes c)[i := pr],
      co_sent := co_sent c @ [(sd, locate_coord_reply (push_bit 20 (of_nat i)) (co_mbox_id c))]\<rparr>"
  have "send_locate_reply sd (Some i) (?e\<lparr>processes := (processes c)[i := pr]\<rparr>) = Inr (True, c')"
    using send_locate_reply_ok [of i "?e\<lparr>processes := (processes c)[i := pr]\<rparr>" sd] P i(3) q(2,3)
    by (simp add: c'_def pr_def)
  then have e: "handle_locate_coord_request ?c0 = Inr (True, c')"
    using sp q(1) f(1) u rc o by (simp add: handle_locate_coord_request_def co_sys_def co_malloc_def)
  have "slots_ok c' (i # fs) us \<or> (\<exists>j fs'. i # fs = j # fs' \<and> slots_ok c' fs' (us @ [j]))"
    by (rule locate_request_inv [OF s0 e])
  moreover have "\<not> slots_ok c' (i # fs) us"
  proof
    assume "slots_ok c' (i # fs) us"
    then have "idle (processes c' ! i)" by (simp add: slots_ok_def procs_ok_def)
    then show False using P(1) i(3) by (simp add: c'_def idle_def pr_def)
  qed
  ultimately have "slots_ok c' fs (us @ [i])" by blast
  then show ?thesis using e by (auto simp: c'_def pr_def)
qed

lemma connect_ok:
  assumes i: "i < length (processes c)" and sys: "sys (co_proc c) = []"
  shows "connect_to_process i c = Inr (True, c\<lparr>processes := (processes c)[i := (processes c ! i)\<lparr>ip_sockfd := 0, ip_state := PROC_CONNECTED\<rparr>],
           co_sent := co_sent c @ [(0, ascii ''ack'' @ [0])]\<rparr>)"
  using assms by (simp add: connect_to_process_def proc_at_def proc_upd_def co_sys_def)


text \<open>
  With no slot left, the queue's result code ends the coordinator: the reply without an identity,
  which the code prepares for this case, is never sent.
\<close>

lemma full_coordinator_exits:
  assumes s: "slots_ok c [] us" and p: "request_arrives sd pid p"
  shows "\<exists>c'. handle_locate_coord_request (c\<lparr>co_proc := p\<rparr>) = Inr (False, c') \<and> co_sent c' = co_sent c"
proof -
  obtain e e' where sp: "sys p = [(sd, e), (8, e')]" "mallocs p = []" "0 \<le> sd" using p by (auto simp: request_arrives_def)
  obtain q where q: "read_request (c\<lparr>co_proc := p\<lparr>sys := tl (sys p)\<rparr>\<rparr>) = Inr (Inr (sint pid), c\<lparr>co_proc := q\<rparr>)"
    using read_request_ok [OF p] by blast
  obtain ps qs where "lists_ok c ps [] qs us" using s by (auto simp: slots_ok_def)
  then have "lists_ok (c\<lparr>co_proc := q\<rparr>) ps [] qs us" using lists_ok_cong [of "c\<lparr>co_proc := q\<rparr>" c] by simp
  from free_deq_empty [OF this] show ?thesis
    using sp q by (simp add: handle_locate_coord_request_def co_sys_def co_malloc_def)
qed

text \<open>A mailbox identifier whose process part is 255 passes the check and leads behind the last slot.\<close>

lemma find_process_off_by_one:
  assumes "length (processes c) = MAX_SUPPORTED_PROCESSES"
  shows "handle_add_mbox 0xFF00001 name c = Inl OutOfBounds"
  using assms by (simp add: handle_add_mbox_def find_process_def proc_at_def)

section \<open>The rounds of the coordinator\<close>

text \<open>
  The states the coordinator reaches: in between its rounds the outside world may change in any way
  (messages arrive in its mailbox, processes connect, calls succeed or fail).
\<close>

inductive coord_reach :: "itccoord \<Rightarrow> itccoord \<Rightarrow> bool" for c0 where
  coord_begin: "coord_reach c0 c0"
| coord_world: "coord_reach c0 c \<Longrightarrow> coord_reach c0 (c\<lparr>co_proc := p\<rparr>)"
| coord_next: "coord_reach c0 c \<Longrightarrow> coord_round ready evs zc c = Inr (Some zc', c') \<Longrightarrow> coord_reach c0 c'"

lemma coord_reach_slots:
  assumes "coord_reach c0 c" and "slots_ok c0 fs us"
  shows "\<exists>fs us. slots_ok c fs us"
  using assms
proof induction
  case (coord_world c p)
  then obtain fs us where "slots_ok c fs us" by blast
  then have "slots_ok (c\<lparr>co_proc := p\<rparr>) fs us" by (rule slots_ok_view [rotated]) (simp add: slots_view_def)
  then show ?case by blast
next
  case (coord_next c ready evs zc zc' c')
  then show ?case using coord_round_inv by blast
qed blast

section \<open>The start of the coordinator\<close>

lemma coord_start_ok:
  "\<exists>c. coord_start (itccoord0 pid [(-1, ENOENT)]) = Inr (True, c) \<and> slots_ok c all_slots [] \<and> reg_ok c [] (\<lambda>_. []) {} \<and>
       (\<exists>k. mbx_rep k (co_proc c) [0 \<mapsto> [], 1 \<mapsto> []]) \<and> my_threadlocal_mbox (co_proc c) 0 = Some 1 \<and>
       co_mbox_id c = 0x100001"
proof -
  obtain s0 k where s0: "itc_init 0 2 True ITC_FLAGS_I_AM_ITC_COORD (proc0 pid []) = Inr (True, s0)" "api_ok k s0"
      "proc_ok k s0 [0 \<mapsto> []] [1, 2]" "my_threadlocal_mbox s0 = [1 \<mapsto> 0]"
      "ii_my_mbox_id_in_itccoord (itc_inst s0) = push_bit ITC_COORD_SHIFT 1"
  proof -
    have "[1..<Suc (nat 2)] = [1, 2]" by (simp add: upt_rec numeral_2_eq_2)
    then show thesis using itc_init_ok [of 2 pid] that by auto
  qed
  have nm: "is_cstr ITC_COORD_MBOX_NAME" "length ITC_COORD_MBOX_NAME < ITC_MAX_NAME_LENGTH"
    by (simp_all add: ITC_COORD_MBOX_NAME_def ascii_def is_cstr_def)
  obtain s1 where s1: "itc_create_mailbox 0 ITC_COORD_MBOX_NAME 0 s0 = Inr (mbx_id 1 s0, s1)" "proc_ok k s1 ([0 \<mapsto> []](1 \<mapsto> [])) [2]"
      "my_threadlocal_mbox s1 = [1 \<mapsto> 0, 0 \<mapsto> 1]"
    using itc_create_mailbox_spec [OF s0(3) _ api_alloc_state(2) [OF s0(2)] nm, of 0 0] s0(4) by auto
  have id: "mbx_id 1 s0 = 0x100001" using s0(5) by (simp add: mbx_id_def)
  obtain fd s2 where s2: "itc_get_fd 0 s1 = Inr (fd, s2)" "mbx_rep k s2 ([0 \<mapsto> []](1 \<mapsto> []))" "keeps 0 s1 s2"
    using itc_get_fd_spec [OF s1(2), of 0 1] s1(3) by auto
  have q2: "sys s2 = []" "mallocs s2 = []" "my_threadlocal_mbox s2 0 = Some 1"
    using mbx_repD(2) [OF s2(2)] s2(3) proc_okD(8) [OF s1(2)] s1(3) by (auto simp: keeps_def same_rest_def)
  define d where "d = (itccoord0 pid [(-1, ENOENT)])\<lparr>co_rc := BLive 0, co_proc := s2, co_mbox_id := 0x100001, co_mbox_fd := fd\<rparr>"
  have dP: "length (processes d) = 255" "processes d ! j = itc_process0" if "j < 255" for j
    using that by (simp_all add: d_def itccoord0_def)
  have d: "co_rc d = BLive 0" "mallocs (co_proc d) = []" "sys (co_proc d) = []" "co_nodes d = empty_heap []"
      "freelist_count d = 0" "length (processes d) = 255"
    using q2 by (simp_all add: d_def itccoord0_def)
  obtain c where c: "start_slots d = Inr (True, c)" "slots_ok c all_slots []" "mbox_tree c = mbox_tree d"
      "mbox_infos c = mbox_infos d" "co_proc c = co_proc d" "co_mbox_id c = co_mbox_id d" "\<forall>j < 255. list_mboxes_tree (processes c ! j) = BNull"
    using start_slots_ok [OF d(1-4,6) dP(2) d(5)] by blast
  let ?c = "c\<lparr>co_sockfd := 0\<rparr>"
  have "coord_listen c = (True, ?c)" using c(5) q2(1) by (simp add: coord_listen_def co_sys_def d_def Let_def)
  moreover have "(proc0 pid [(-1, ENOENT)])\<lparr>sys := []\<rparr> = proc0 pid []" by (simp add: proc0_def)
  moreover have "mallocs (proc0 pid l) = []" for l by (simp add: proc0_def)
  moreover have "sys (proc0 pid l) = l" for l by (simp add: proc0_def)
  ultimately have "coord_start (itccoord0 pid [(-1, ENOENT)]) = Inr (True, ?c)"
    using s0(1) s1(1) s2(1) c(1) id
    by (simp add: coord_start_def setup_rc_def co_malloc_def is_itccoord_running_def create_itccoord_dir_def make_dir_def
        co_sys_def co_itc_def itccoord0_def d_def Let_def del: MAX_SUPPORTED_PROCESSES_def)
  moreover have "slots_ok ?c all_slots []" by (rule slots_ok_view [OF _ c(2)]) (simp add: slots_view_def)
  moreover have "reg_ok ?c [] (\<lambda>_. []) {}"
    using c(3,4,7) slots_ok_mem c(2)
    by (auto simp: reg_ok_def d_def itccoord0_def mk_tree_def infos_ok_def empty_heap_def heap_ok_def slots_ok_def procs_ok_def)
  ultimately show ?thesis using c(5,6) s2(2) q2(3) by (auto simp: d_def)
qed


section \<open>States for the examples\<close>

text \<open>A coordinator with one process in slot 2 and no free slot left.\<close>

definition busy_slot :: "process_state \<Rightarrow> itc_process" where
  "busy_slot st = (new_slot 2)\<lparr>ip_state := st, ip_pid := 77, ip_sockfd := 5\<rparr>"

definition busy_coord0 :: "process_state \<Rightarrow> itccoord" where
  "busy_coord0 st = (itccoord0 7 [])\<lparr>co_rc := BLive 0, free_list := BLive empty_queue, used_list := BLive empty_queue,
     processes := map (\<lambda>i. if i = 0 then itc_process0\<lparr>ip_state := PROC_INVALID\<rparr>
       else if i = 1 then (new_slot 1)\<lparr>ip_state := PROC_CONNECTED\<rparr>
       else if i = 2 then busy_slot st else new_slot i) [0..<MAX_SUPPORTED_PROCESSES]\<rparr>"

lemma busy_processes:
  shows "length (processes (busy_coord0 st)) = 255" "processes (busy_coord0 st) ! 0 = itc_process0\<lparr>ip_state := PROC_INVALID\<rparr>"
    "processes (busy_coord0 st) ! 1 = (new_slot 1)\<lparr>ip_state := PROC_CONNECTED\<rparr>" "processes (busy_coord0 st) ! 2 = busy_slot st"
    "2 < i \<Longrightarrow> i < 255 \<Longrightarrow> processes (busy_coord0 st) ! i = new_slot i"
    "i < 255 \<Longrightarrow> list_mboxes_tree (processes (busy_coord0 st) ! i) = BNull"
proof -
  show "length (processes (busy_coord0 st)) = 255" by (simp add: busy_coord0_def)
  have p: "processes (busy_coord0 st) ! k = (if k = 0 then itc_process0\<lparr>ip_state := PROC_INVALID\<rparr>
       else if k = 1 then (new_slot 1)\<lparr>ip_state := PROC_CONNECTED\<rparr>
       else if k = 2 then busy_slot st else new_slot k)" if "k < 255" for k
    using that by (simp add: busy_coord0_def del: upt_rec_numeral)
  show "processes (busy_coord0 st) ! 0 = itc_process0\<lparr>ip_state := PROC_INVALID\<rparr>"
    "processes (busy_coord0 st) ! 1 = (new_slot 1)\<lparr>ip_state := PROC_CONNECTED\<rparr>" "processes (busy_coord0 st) ! 2 = busy_slot st"
    using p [of 0] p [of 1] p [of 2] by simp_all
  show "processes (busy_coord0 st) ! i = new_slot i" if "2 < i" "i < 255" using that p by simp
  show "list_mboxes_tree (processes (busy_coord0 st) ! i) = BNull" if "i < 255"
    using that p by (simp add: busy_slot_def new_slot_def itc_process0_def)
qed

lemma busy_coord:
  assumes "st = PROC_LISTENING \<or> st = PROC_CONNECTED"
  obtains c where "slots_ok c [] [2]" "reg_ok c [] (\<lambda>_. []) {}" "registered c = (\<lambda>_. None)" "co_proc c = proc0 7 []"
    "processes c = processes (busy_coord0 st)"
proof -
  let ?b = "busy_coord0 st"
  have f: "free_list ?b = BLive empty_queue" "used_list ?b = BLive empty_queue" "co_rc ?b = BLive 0" "co_nodes ?b = empty_heap []"
      "mbox_tree ?b = BNull" "mbox_infos ?b = empty_heap []" "co_proc ?b = proc0 7 []" "freelist_count ?b = 0"
    by (simp_all add: busy_coord0_def itccoord0_def del: MAX_SUPPORTED_PROCESSES_def)
  have e: "heap_ok (empty_heap [])" by (simp add: empty_heap_def heap_ok_def)
  have "lists_ok ?b [] [] [] []" using f e by (simp add: lists_ok_def qrep_empty)
  from used_enq_ok [OF this, of 2] obtain qf q h qs where u: "lists_ok (with_lists qf q h ?b) [] [] qs [2]" by auto
  let ?c = "with_lists qf q h ?b"
  have ids: "mbox_id_in_itccoord (processes ?b ! i) = push_bit 20 (of_nat i)" if "0 < i" "i < 255" for i
  proof -
    have "i = 1 \<or> i = 2 \<or> 2 < i" using that by linarith
    then show ?thesis using that busy_processes [where st = st] by (elim disjE) (simp_all add: busy_slot_def new_slot_def)
  qed
  have "procs_ok (processes ?b) [] [2]"
    using busy_processes assms ids by (auto simp: procs_ok_def active_def busy_slot_def)
  then have "slots_ok ?c [] [2]" using u f(8) by (auto simp: slots_ok_def)
  moreover have "reg_ok ?c [] (\<lambda>_. []) {}"
    using f(5,6) e busy_processes(1,6) by (simp add: reg_ok_def mk_tree_def infos_ok_def)
  moreover have "registered ?c = (\<lambda>_. None)" using f(5) by (simp add: registered_def fun_eq_iff tfind_def tree_nodes_def)
  ultimately show thesis using f(7) by (intro that [of ?c]) simp_all
qed

text \<open>The process in slot 2 has a mailbox.\<close>

lemma named_coord:
  obtains c T L where "slots_ok c [] [2]" "reg_ok c T L {}" "registered c = [[65] \<mapsto> 0x200001]" "co_proc c = proc0 7 []"
    "requester c 0x100001 = Some 1"
proof -
  obtain c where c: "slots_ok c [] [2]" "reg_ok c [] (\<lambda>_. []) {}" "registered c = (\<lambda>_. None)" "co_proc c = proc0 7 []"
      "processes c = processes (busy_coord0 PROC_CONNECTED)"
    using busy_coord [of PROC_CONNECTED] by blast
  have fp: "find_process 0x200001 = Some 2" "find_process 0x100001 = Some 1" by (simp_all add: find_process_def)
  have rq: "requester c 0x200001 = Some 2" "requester c 0x100001 = Some 1"
    using busy_processes c(5) fp by (simp_all add: requester_def busy_slot_def new_slot_def itc_process0_def)
  obtain c' m k where c': "handle_add_mbox 0x200001 [65] c = Inr c'" "reg_ok c' ([] @ [m]) ((\<lambda>_. [])(k := [] @ [m])) {}"
      "registered c' = (registered c)([65] \<mapsto> 0x200001)" "requester c' = requester c"
    using add_new_ok [OF c(2), of "0x200001" "[65]"] rq(1) c(3) by (auto simp: is_cstr_def)
  have 1: "slots_ok c' [] [2]" by (rule slots_ok_view [OF handle_add_mbox_view [OF c'(1)] c(1)])
  have 2: "co_proc c' = proc0 7 []"
    using c'(1) c(4) by (auto simp: handle_add_mbox_def outcome_simps proc_upd_def Let_def split: if_splits option.splits)
  have 3: "registered c' = [[65] \<mapsto> 0x200001]" "requester c' 0x100001 = Some 1" using c'(3,4) c(3) rq(2) by simp_all
  show thesis by (rule that [OF 1 c'(2) 3(1) 2 3(2)])
qed

section \<open>A record that is released too early\<close>

text \<open>The walk over a process's tree, when one of its records was released before.\<close>

lemma delete_counterparts_dangling:
  assumes "mbox_tree c = mk_tree S" and "infos_ok (mbox_infos c) S" and "m \<in> set ms" and "cells (mbox_infos c) m = None"
    and "\<And>x. x \<in> set ms \<Longrightarrow> x \<noteq> m \<Longrightarrow> cells (mbox_infos c) x \<noteq> None \<and> is_cstr (info_name (mbox_infos c) x)"
  shows "delete_counterparts ms c = Inl UseAfterFree"
  using assms
proof (induction ms arbitrary: c S)
  case (Cons x ms)
  show ?case
  proof (cases "x = m")
    case True
    then show ?thesis using Cons.prems(4) by (simp add: hread_def)
  next
    case False
    let ?h = "mbox_infos c"
    have x: "cells ?h x \<noteq> None" "is_cstr (info_name ?h x)" using Cons.prems(5) False by auto
    obtain mi where mi: "hread (Some x) ?h = Inr mi" "mi_mbox_name mi = info_name ?h x" using hread_info [OF x(1)] by blast
    define S' where "S' = (case find (\<lambda>y. info_name ?h y = info_name ?h x) S of None \<Rightarrow> S | Some y \<Rightarrow> remove1 y S)"
    have "set S' \<subseteq> set S" by (auto simp: S'_def split: option.splits dest: set_mp [OF set_remove1_subset])
    then have "infos_ok ?h S'" by (rule infos_ok_subset [OF Cons.prems(2)])
    then have "delete_counterparts ms (c\<lparr>mbox_tree := mk_tree S'\<rparr>) = Inl UseAfterFree"
      using Cons.IH [of "c\<lparr>mbox_tree := mk_tree S'\<rparr>" S'] Cons.prems False by simp
    then show ?thesis using mi tdelete_mk [OF Cons.prems(2) x(2)] Cons.prems(1) by (simp add: S'_def)
  qed
qed simp

text \<open>Removing a name on behalf of process \<open>k\<close> when its mailbox belongs to process \<open>i\<close>.\<close>

lemma remove_foreign:
  assumes r: "reg_ok c T L D" and i: "i < 255"
    and j: "registered c name = Some j" "find_process j = Some i" "requester c j' = Some k" "k \<noteq> i"
  shows "\<exists>c' m. handle_remove_mbox j' name c = Inr c' \<and> m \<in> set (L i) \<and> co_proc c' = co_proc c \<and>
      list_mboxes_tree (processes c' ! i) = mk_tree (L i) \<and> length (processes c') = 255 \<and>
      mbox_tree c' = mk_tree (filter (\<lambda>x. x \<notin> {m}) T) \<and> infos_ok (mbox_infos c') (filter (\<lambda>x. x \<notin> {m}) T) \<and>
      cells (mbox_infos c') m = None \<and> set (L i) \<subseteq> set T \<and> registered c' name = None"
proof -
  obtain K: "find_process j' = Some k" "k < 255" "ip_state (processes c ! k) = PROC_CONNECTED"
      "list_mboxes_tree (processes c ! k) = mk_tree (L k)"
    using requesterE [OF r, of j'] j(3) by auto
  note R = reg_okD [OF r]
  let ?h = "mbox_infos c"
  obtain m where m: "m \<in> set T" "info_name ?h m = name" "info_id ?h m = j" using registered_iff [OF r] j(1) by blast
  have lm: "cells ?h m \<noteq> None" and n: "is_cstr name" using R(4) m(1,2) by (auto simp: infos_ok_def)
  have Lk: "set (L k) \<subseteq> set T" and Li: "set (L i) \<subseteq> set T" "m \<in> set (L i)" "i \<notin> D"
    using R(11) [OF K(2)] R(11,12) [OF i] m j(2) by auto
  have tf: "tfind name (mbox_tree c) ?h = Inr (Some m)"
    using tfind_mk [OF R(4) n] find_the [OF R(3) m(1)] m(2) R(1) by simp
  let ?T = "filter (\<lambda>x. x \<notin> {m}) T" and ?h' = "?h\<lparr>cells := \<lambda>x. if x \<in> {m} then None else cells ?h x\<rparr>"
  have t1: "tdelete name (mbox_tree c) ?h = Inr (mk_tree ?T)"
    using tdelete_mk [OF R(4) n] find_remove [OF R(3) m(1) R(2) subset_refl] m(2) R(1) by simp
  have t2: "tdelete name (mk_tree (L k)) ?h = Inr (mk_tree (filter (\<lambda>x. x \<notin> {m}) (L k)))"
    using tdelete_mk [OF infos_ok_subset [OF R(4) Lk] n] find_remove [OF R(3) m(1) R(10) [OF K(2)] Lk] m(2) by simp
  define c' where "c' = c\<lparr>mbox_infos := ?h', mbox_tree := mk_tree ?T,
      processes := (processes c)[k := (processes c ! k)\<lparr>list_mboxes_tree := mk_tree (filter (\<lambda>x. x \<notin> {m}) (L k))\<rparr>]\<rparr>"
  have a: "handle_remove_mbox j' name c = Inr c'"
    using K R(7) tf t1 t2 hfree_info [OF lm] by (simp add: handle_remove_mbox_def proc_at_def proc_upd_def c'_def)
  have ok: "infos_ok ?h' ?T" using R(4) info_gone [of _ "{m}" ?h] by (auto simp: infos_ok_def)
  have "info_name ?h' x \<noteq> name" if "x \<in> set ?T" for x
    using that info_gone(1) [of x "{m}" ?h] R(3) m(1,2) by (auto simp: inj_on_def)
  then have "find (\<lambda>x. info_name ?h' x = name) ?T = None" unfolding find_None_iff by blast
  then have "registered c' name = None" using tfind_mk [OF ok n] n by (simp add: registered_def c'_def)
  moreover have "list_mboxes_tree (processes c' ! i) = mk_tree (L i)" using R(9) [OF i] Li(3) j(4) by (simp add: c'_def)
  ultimately show ?thesis using a ok Li(1,2) R(7) by (intro exI [of _ c'] exI [of _ m]) (simp add: c'_def)
qed

section \<open>Properties\<close>

lemma find_process_slot:
  assumes "i < 255"
  shows "find_process (push_bit 20 (of_nat i)) = Some i"
proof -
  have "push_bit 20 (of_nat i) = (of_nat (i * 2 ^ 20) :: u32)" by (simp add: push_bit_eq_mult)
  then have "unat (push_bit 20 (of_nat i) :: u32) = i * 2 ^ 20"
    using assms by (simp only: unat_of_nat) (simp add: take_bit_nat_eq_self)
  then have "proc_index (push_bit 20 (of_nat i)) = i" by (simp add: proc_index_def)
  then show ?thesis using assms proc_index_word [of "push_bit 20 (of_nat i)"] by (simp add: find_process_def)
qed

text \<open>The mailboxes of the process in slot \<open>i\<close> lead back to the slot.\<close>

lemma find_process_mailbox:
  assumes "i < 255" and "k < 65536"
  shows "find_process (push_bit 20 (of_nat i) OR of_nat k) = Some i"
proof -
  let ?my = "push_bit 20 (of_nat i) :: u32"
  have m: "(0xFFF00000 :: u32) = NOT (mask 20)" by (simp add: mask_eq_exp_minus_1)
  have "?my AND 0xFFF00000 = ?my" unfolding m by (rule bit_word_eqI) (auto simp: bit_simps)
  moreover from this have "(?my OR of_nat k) AND 0xFFF00000 = ?my" by (rule low_bits_or(2) [OF _ assms(2)])
  ultimately show ?thesis using find_process_slot [OF assms(1)] by (simp add: find_process_def)
qed

text \<open>
  C15. A process is taken in. The coordinator receives the request of a process and answers it with
  the identity of a slot that was free; the process's \<open>lsock_locate_coord\<close>, given the bytes that the
  coordinator has sent, takes over that identity, the mask and the coordinator's mailbox. The mailbox
  identifiers that the process will form lead the coordinator back to the slot, which waits for the
  process with the given process number.
\<close>

theorem new_process_is_admitted:
  assumes "slots_ok c (i # fs) us" and "request_arrives sd pid p"
    and "rcs s t = BLive 0" and "mallocs s = []" and "0 \<le> fd"
    and "sys s = [(fd, e1), (0, e2), (int LCQ_SIZE, e3), (int LCR_SIZE, e4), (0, e5)]"
  shows "\<exists>c' reply s' my. handle_locate_coord_request (c\<lparr>co_proc := p\<rparr>) = Inr (True, c') \<and> slots_ok c' fs (us @ [i]) \<and>
           ip_state (processes c' ! i) = PROC_LISTENING \<and> ip_pid (processes c' ! i) = sint pid \<and>
           co_sent c' = co_sent c @ [(sd, reply)] \<and> lsock_locate_coord t (s\<lparr>rx_data := [reply]\<rparr>) = Inr (True, s') \<and>
           is_coord_running (lsock_inst s') \<and>
           itc_inst s' = (itc_inst s)\<lparr>ii_my_mbox_id_in_itccoord := my, ii_itccoord_mask := ITC_COORD_MASK,
                                      ii_itccoord_mbox_id := co_mbox_id c\<rparr> \<and>
           (\<forall>k < 65536. find_process (my OR of_nat k) = Some i)"
proof -
  let ?my = "push_bit ITC_COORD_SHIFT (of_nat i) :: u32"
  obtain c' pr where c': "handle_locate_coord_request (c\<lparr>co_proc := p\<rparr>) = Inr (True, c')" "slots_ok c' fs (us @ [i])"
      "co_sent c' = co_sent c @ [(sd, locate_coord_reply ?my (co_mbox_id c))]" "processes c' = (processes c)[i := pr]"
      "ip_state pr = PROC_LISTENING" "ip_pid pr = sint pid"
    using locate_request_ok [OF assms(1,2)] by blast
  have i: "2 \<le> i" "i < 255" "i < length (processes c)"
    using assms(1) by (auto simp: slots_ok_def lists_ok_def procs_ok_def)
  have "find_process ITC_NO_MBOX_ID = None" by (simp add: find_process_def)
  then have "?my \<noteq> ITC_NO_MBOX_ID" using find_process_slot [OF i(2)] by auto
  moreover have "locate_coord_reply ?my (co_mbox_id c) = locate_reply ITC_LOCATE_COORD_REPLY ?my ITC_COORD_MASK (co_mbox_id c)"
    by (simp add: locate_coord_reply_def locate_reply_def)
  ultimately obtain s' where "lsock_locate_coord t (s\<lparr>rx_data := [locate_coord_reply ?my (co_mbox_id c)]\<rparr>) = Inr (True, s')"
      "is_coord_running (lsock_inst s')"
      "itc_inst s' = (itc_inst s)\<lparr>ii_my_mbox_id_in_itccoord := ?my, ii_itccoord_mask := ITC_COORD_MASK,
                                  ii_itccoord_mbox_id := co_mbox_id c\<rparr>"
    using locate_coord_reply [of "s\<lparr>rx_data := [locate_coord_reply ?my (co_mbox_id c)]\<rparr>" t fd e1 e2 e3 e4 e5
        ITC_LOCATE_COORD_REPLY ?my ITC_COORD_MASK "co_mbox_id c"] assms(3-6)
    by auto
  then show ?thesis using c' find_process_mailbox [OF i(2)] i(3) by auto
qed

theorem new_process_is_admitted_witness:
  "\<exists>c0 c1 s1. coord_start (itccoord0 7 [(-1, ENOENT)]) = Inr (True, c0) \<and>
     handle_locate_coord_request (c0\<lparr>co_proc := (proc0 7 [(3, EOTHER), (8, EOTHER)])
       \<lparr>rx_data := [enc32 ITC_LOCATE_COORD_REQUEST @ enc32 99]\<rparr>\<rparr>) = Inr (True, c1) \<and>
     lsock_locate_coord 0 ((proc0 99 [(4, EOTHER), (0, EOTHER), (8, EOTHER), (16, EOTHER), (0, EOTHER)])
       \<lparr>rcs := (\<lambda>_. BLive 0), rx_data := [snd (last (co_sent c1))]\<rparr>) = Inr (True, s1) \<and>
     find_process (ii_my_mbox_id_in_itccoord (itc_inst s1)) = Some 2"
proof -
  obtain c0 where c0: "coord_start (itccoord0 7 [(-1, ENOENT)]) = Inr (True, c0)" "slots_ok c0 all_slots []"
    using coord_start_ok [of 7] by blast
  obtain fs where a: "all_slots = 2 # fs" using upt_conv_Cons [of 2 255] by (simp add: all_slots_def del: upt_rec_numeral)
  let ?p = "(proc0 7 [(3, EOTHER), (8, EOTHER)])\<lparr>rx_data := [enc32 ITC_LOCATE_COORD_REQUEST @ enc32 99]\<rparr>"
  let ?s = "(proc0 99 [(4, EOTHER), (0, EOTHER), (8, EOTHER), (16, EOTHER), (0, EOTHER)])\<lparr>rcs := (\<lambda>_. BLive 0)\<rparr>"
  have "request_arrives 3 99 ?p" by (simp add: request_arrives_def proc0_def)
  moreover have "rcs ?s 0 = BLive 0" "mallocs ?s = []"
      "sys ?s = [(4, EOTHER), (0, EOTHER), (int LCQ_SIZE, EOTHER), (int LCR_SIZE, EOTHER), (0, EOTHER)]"
    by (simp_all add: proc0_def)
  ultimately obtain c1 reply s1 my where r: "handle_locate_coord_request (c0\<lparr>co_proc := ?p\<rparr>) = Inr (True, c1)"
      "co_sent c1 = co_sent c0 @ [(3, reply)]" "lsock_locate_coord 0 (?s\<lparr>rx_data := [reply]\<rparr>) = Inr (True, s1)"
      "itc_inst s1 = (itc_inst ?s)\<lparr>ii_my_mbox_id_in_itccoord := my, ii_itccoord_mask := ITC_COORD_MASK,
                                   ii_itccoord_mbox_id := co_mbox_id c0\<rparr>"
      "\<forall>k < 65536. find_process (my OR of_nat k) = Some 2"
    using new_process_is_admitted [OF c0(2) [unfolded a], of 3 99 ?p ?s 0 4 EOTHER EOTHER EOTHER EOTHER EOTHER] by auto
  have "find_process my = Some 2" using r(5) [rule_format, of 0] by simp
  then show ?thesis using c0(1) r(1-4) by (intro exI [of _ c0] exI [of _ c1] exI [of _ s1]) simp
qed

text \<open>
  C5. From the start of the coordinator on, in every state that its main loop reaches, whatever
  happens in the outside world between and during the rounds: no slot is in the list of free slots
  and in the list of used ones, or in one of them twice; the counter of free slots is exact; a free
  slot has no process and no socket; and a used one waits for its process or is connected to it.
\<close>

theorem slots_stay_apart:
  assumes "coord_start (itccoord0 pid [(-1, ENOENT)]) = Inr (True, c0)" and "coord_reach c0 c"
  shows "\<exists>fs us. slots_ok c fs us \<and> distinct (fs @ us) \<and> set (fs @ us) \<subseteq> {2..<MAX_SUPPORTED_PROCESSES} \<and>
           freelist_count c = of_nat (length fs) \<and> (\<forall>i \<in> set fs. idle (processes c ! i)) \<and>
           (\<forall>i \<in> set us. active (processes c ! i))"
proof -
  have "slots_ok c0 all_slots []" using coord_start_ok [of pid] assms(1) by auto
  then obtain fs us where s: "slots_ok c fs us" using coord_reach_slots [OF assms(2)] by blast
  then show ?thesis by (intro exI [of _ fs] exI [of _ us]) (auto simp: slots_ok_def lists_ok_def procs_ok_def)
qed

theorem slots_stay_apart_witness:
  "\<exists>c0 c fs us. coord_start (itccoord0 7 [(-1, ENOENT)]) = Inr (True, c0) \<and> coord_round [] [] 0 c0 = Inr (Some 1, c) \<and>
     slots_ok c fs us \<and> distinct (fs @ us)"
proof -
  obtain c0 k where c0: "coord_start (itccoord0 7 [(-1, ENOENT)]) = Inr (True, c0)" "slots_ok c0 all_slots []"
      "mbx_rep k (co_proc c0) [0 \<mapsto> [], 1 \<mapsto> []]"
    using coord_start_ok [of 7] by blast
  obtain uq where uq: "used_list c0 = BLive uq" "q_head uq = None"
    using c0(2) by (auto simp: slots_ok_def lists_ok_def qrep_def)
  have "sys (co_proc c0) = []" by (rule mbx_repD(2) [OF c0(3)])
  then have r: "coord_round [] [] 0 c0 = Inr (Some 1, c0)" using uq by (simp add: coord_round_def serve_ready_def co_sys_def)
  from slots_stay_apart [OF c0(1) coord_next [OF coord_begin r]] show ?thesis using c0(1) r by blast
qed

text \<open>
  C4. The requests that processes send about their mailboxes. Any sequence of them in which
  processes remove only their own names is carried out without a fault, and what the coordinator then
  knows is what a registry of names knows after the same requests: the first mailbox to take a name
  keeps it until it is removed.
\<close>

theorem requests_refine_registry:
  assumes "coord_registry_ok c" and "registry_legal (requester c) rs (registered c)"
  shows "\<exists>c'. run_requests handle_add_mbox handle_remove_mbox rs c = Inr c' \<and> coord_registry_ok c' \<and>
           registered c' = fold registry_step rs (registered c)"
  by (rule coord.run_refines [OF assms])

theorem requests_refine_registry_witness:
  "\<exists>c c'. registered c = [[65] \<mapsto> 0x200001] \<and>
     run_requests handle_add_mbox handle_remove_mbox [Add 0x100001 [66], Add 0x100002 [66], Remove 0x100001 [66], Add 0x100003 [67]] c = Inr c' \<and>
     registered c' = [[65] \<mapsto> 0x200001, [67] \<mapsto> 0x100003]"
proof -
  obtain c T L where c: "reg_ok c T L {}" "registered c = [[65] \<mapsto> 0x200001]" "requester c 0x100001 = Some 1"
    using named_coord by metis
  have fp: "find_process 0x100001 = Some 1" "find_process 0x100002 = Some 1" "find_process 0x100003 = Some 1"
    by (simp_all add: find_process_def)
  have rq: "requester c 0x100001 \<noteq> None" "requester c 0x100002 \<noteq> None" "requester c 0x100003 \<noteq> None"
    using c(3) fp by (simp_all add: requester_def split: if_splits)
  have "coord_registry_ok c" using c(1) by (auto simp: coord_registry_ok_def)
  moreover let ?rs = "[Add 0x100001 [66], Add 0x100002 [66], Remove 0x100001 [66], Add 0x100003 [67]]"
  have "registry_legal (requester c) ?rs (registered c)" using c(2) rq by (auto simp: is_cstr_def)
  ultimately obtain c' where "run_requests handle_add_mbox handle_remove_mbox ?rs c = Inr c'"
      "registered c' = fold registry_step ?rs (registered c)"
    using requests_refine_registry by blast
  moreover have "fold registry_step ?rs (registered c) = [[65] \<mapsto> 0x200001, [67] \<mapsto> 0x100003]"
    using c(2) by (auto simp: fun_eq_iff)
  ultimately show ?thesis using c(2) by metis
qed

text \<open>
  C16. A process that goes away: its slot is moved to the free ones, its names and no others are
  forgotten.
\<close>

theorem disconnect_forgets_process:
  assumes "slots_ok c fs us" and "coord_registry_ok c" and "i \<in> set us"
    and "list_mboxes_tree (processes c ! i) \<noteq> BFreed" and "sys (co_proc c) = []"
  shows "\<exists>c'. disconnect_from_process i c = Inr (True, c') \<and> slots_ok c' (fs @ [i]) (remove1 i us) \<and>
           coord_registry_ok c' \<and> registered c' = without_process i (registered c)"
proof -
  obtain T L D where r: "reg_ok c T L D" using assms(2) by (auto simp: coord_registry_ok_def)
  have "i \<notin> D" using reg_okD(9) [OF r slots_ok_mem(2) [OF assms(1,3)]] assms(4) by auto
  then show ?thesis using disconnect_ok [OF assms(1) r assms(3) _ assms(5)] by (auto simp: coord_registry_ok_def)
qed

lemma named_tree: "reg_ok c T L {} \<Longrightarrow> i < 255 \<Longrightarrow> list_mboxes_tree (processes c ! i) \<noteq> BFreed"
  using reg_okD(9) by fastforce

theorem disconnect_forgets_process_witness:
  "\<exists>c c'. registered c = [[65] \<mapsto> 0x200001] \<and> disconnect_from_process 2 c = Inr (True, c') \<and> slots_ok c' [2] [] \<and>
     registered c' = (\<lambda>_. None)"
proof -
  obtain c T L where c: "slots_ok c [] [2]" "reg_ok c T L {}" "registered c = [[65] \<mapsto> 0x200001]" "co_proc c = proc0 7 []"
    using named_coord by metis
  have "without_process 2 [[65] \<mapsto> 0x200001] = (\<lambda>_. None)" by (auto simp: without_process_def find_process_def)
  then show ?thesis
    using disconnect_forgets_process [OF c(1) _ _ named_tree [OF c(2)], of 2] c by (auto simp: coord_registry_ok_def proc0_def)
qed

text \<open>
  C36. A disconnected slot keeps the pointer to the tree of names that was destroyed. With no other
  slot free, the next process gets it; the coordinator admits and connects the process, and uses the
  released tree as soon as the process reports a mailbox.
\<close>

theorem slot_reuse_is_fatal:
  assumes "slots_ok c [] us" and "coord_registry_ok c" and "i \<in> set us" and "list_mboxes_tree (processes c ! i) \<noteq> BFreed"
    and "sys (co_proc c) = []" and "registered c name = Some j" and "find_process j = Some i"
    and "request_arrives sd pid p" and "sys q = []"
    and "find_process new = Some i" and "is_cstr nm" and "registered c nm = None"
  shows "\<exists>c1 c2 c3. disconnect_from_process i c = Inr (True, c1) \<and> registered c1 name = None \<and>
           handle_locate_coord_request (c1\<lparr>co_proc := p\<rparr>) = Inr (True, c2) \<and>
           connect_to_process i (c2\<lparr>co_proc := q\<rparr>) = Inr (True, c3) \<and> ip_state (processes c3 ! i) = PROC_CONNECTED \<and>
           handle_add_mbox new nm c3 = Inl UseAfterFree"
proof -
  obtain T L D where r: "reg_ok c T L D" using assms(2) by (auto simp: coord_registry_ok_def)
  note R = reg_okD [OF r]
  have i: "i < 255" "i \<notin> D" using slots_ok_mem(2) [OF assms(1,3)] R(9) assms(4) by auto
  obtain m where "m \<in> set T" "info_id (mbox_infos c) m = j" using registered_iff [OF r] assms(6) by blast
  then have Li: "L i \<noteq> []" using R(11) [OF i(1)] assms(7) by fastforce
  obtain c1 T1 L1 where c1: "disconnect_from_process i c = Inr (True, c1)" "slots_ok c1 [i] (remove1 i us)"
      "reg_ok c1 T1 L1 (insert i D)" "registered c1 = without_process i (registered c)"
    using disconnect_ok [OF assms(1) r assms(3) i(2) assms(5)] Li by auto
  obtain c2 pr where c2: "handle_locate_coord_request (c1\<lparr>co_proc := p\<rparr>) = Inr (True, c2)"
      "processes c2 = (processes c1)[i := pr]" "list_mboxes_tree pr = list_mboxes_tree (processes c1 ! i)"
      "mbox_tree c2 = mbox_tree c1" "mbox_infos c2 = mbox_infos c1"
    using locate_request_ok [OF c1(2) assms(8)] by blast
  note R1 = reg_okD [OF c1(3)]
  have len: "length (processes c1) = 255" by (rule R1(7))
  define c3 where "c3 = c2\<lparr>co_proc := q, processes := (processes c2)[i := pr\<lparr>ip_sockfd := 0, ip_state := PROC_CONNECTED\<rparr>],
           co_sent := co_sent c2 @ [(0, ascii ''ack'' @ [0])]\<rparr>"
  have k3: "connect_to_process i (c2\<lparr>co_proc := q\<rparr>) = Inr (True, c3)"
    using connect_ok [of i "c2\<lparr>co_proc := q\<rparr>"] i(1) len assms(9) c2(2) by (simp add: c3_def)
  have freed: "list_mboxes_tree (processes c3 ! i) = BFreed" "ip_state (processes c3 ! i) = PROC_CONNECTED"
      "length (processes c3) = 255" "mbox_tree c3 = mk_tree T1" "mbox_infos c3 = mbox_infos c1"
    using R1(1) R1(9) [OF i(1)] c2 len i(1) by (simp_all add: c3_def)
  let ?h = "mbox_infos c1" and ?mi = "\<lparr>mi_mbox_id = new, mi_mbox_name = nm\<rparr>"
  define h' where "h' = ?h\<lparr>cells := (cells ?h)(fresh ?h \<mapsto> ?mi), fresh := Suc (fresh ?h)\<rparr>"
  note old = info_old(1,2,3) [OF R1(5,4), where v = ?mi and f = "Suc (fresh ?h)", folded h'_def]
  have "registered c1 nm = None" using c1(4) assms(12) by (simp add: without_process_def)
  then have nn: "info_name h' x \<noteq> nm" if "x \<in> set T1" for x
    using registered_iff [OF c1(3), of nm] that old(1) by fastforce
  have "find (\<lambda>x. info_name h' x = nm) T1 = None" using nn by (simp add: find_None_iff)
  moreover have ok': "infos_ok h' T1" using R1(4) old by (simp add: infos_ok_def)
  ultimately have tf: "tfind nm (mk_tree T1) h' = Inr None" using tfind_mk [OF ok' assms(11)] by simp
  have fr: "cells h' (fresh ?h) = Some ?mi" "info_name h' (fresh ?h) = nm" by (simp_all add: h'_def info_name_def)
  have "tsearch (fresh ?h) (mk_tree T1) h' = Inr (mk_tree (T1 @ [fresh ?h]))"
  proof (rule tsearch_mk)
    show "infos_ok h' (fresh ?h # T1)" using ok' fr assms(11) by (simp add: infos_ok_def)
    show "info_name h' (fresh ?h) \<notin> info_name h' ` set T1" using nn fr(2) by (metis imageE)
  qed
  moreover have "hmalloc ?mi ?h = (Some (fresh ?h), h')" using hmalloc_info [OF R1(6)] by (simp add: h'_def)
  ultimately have "handle_add_mbox new nm c3 = Inl UseAfterFree"
    using assms(10) freed i(1) tf by (simp add: handle_add_mbox_def proc_at_def Let_def tsearch_def tree_nodes_def)
  moreover have "registered c1 name = None" using c1(4) assms(6,7) by (simp add: without_process_def)
  ultimately show ?thesis using c1(1) c2(1) k3 freed(2) by blast
qed


theorem slot_reuse_is_fatal_witness:
  "\<exists>c c1 c2 c3 p. registered c = [[65] \<mapsto> 0x200001] \<and> disconnect_from_process 2 c = Inr (True, c1) \<and>
     registered c1 [65] = None \<and> handle_locate_coord_request (c1\<lparr>co_proc := p\<rparr>) = Inr (True, c2) \<and>
     connect_to_process 2 (c2\<lparr>co_proc := proc0 7 []\<rparr>) = Inr (True, c3) \<and> ip_state (processes c3 ! 2) = PROC_CONNECTED \<and>
     handle_add_mbox 0x200002 [66] c3 = Inl UseAfterFree"
proof -
  obtain c T L where c: "slots_ok c [] [2]" "reg_ok c T L {}" "registered c = [[65] \<mapsto> 0x200001]" "co_proc c = proc0 7 []"
    using named_coord by metis
  let ?p = "(proc0 7 [(3, EOTHER), (8, EOTHER)])\<lparr>rx_data := [enc32 ITC_LOCATE_COORD_REQUEST @ enc32 99]\<rparr>"
  have "request_arrives 3 99 ?p" by (simp add: request_arrives_def proc0_def)
  moreover have "find_process 0x200001 = Some 2" "find_process 0x200002 = Some 2" by (simp_all add: find_process_def)
  moreover have "registered c [65] = Some 0x200001" "registered c [66] = None" "is_cstr [66]"
    using c(3) by (simp_all add: is_cstr_def)
  moreover have "sys (proc0 7 []) = []" by (simp add: proc0_def)
  moreover have "coord_registry_ok c" using c(2) by (auto simp: coord_registry_ok_def)
  ultimately show ?thesis
    using slot_reuse_is_fatal [OF c(1) _ _ named_tree [OF c(2)], of 2 "[65]" "0x200001" 3 99 ?p "proc0 7 []" "0x200002" "[66]"] c(3,4)
    by auto
qed

text \<open>
  C37. Any connected process can have the name of another process's mailbox removed. The record is
  then released while the tree of its owner still points to it, and the disconnection of the owner
  reads it.
\<close>

theorem foreign_removal_is_fatal:
  assumes "slots_ok c fs us" and "coord_registry_ok c" and "i \<in> set us" and "sys (co_proc c) = []"
    and "registered c name = Some j" and "find_process j = Some i" and "requester c j' = Some k" and "k \<noteq> i"
  shows "\<exists>c'. handle_remove_mbox j' name c = Inr c' \<and> registered c' name = None \<and>
           disconnect_from_process i c' = Inl UseAfterFree"
proof -
  obtain T L D where r: "reg_ok c T L D" using assms(2) by (auto simp: coord_registry_ok_def)
  obtain c' m where c': "handle_remove_mbox j' name c = Inr c'" "m \<in> set (L i)" "co_proc c' = co_proc c"
      "list_mboxes_tree (processes c' ! i) = mk_tree (L i)" "length (processes c') = 255"
      "mbox_tree c' = mk_tree (filter (\<lambda>x. x \<notin> {m}) T)" "infos_ok (mbox_infos c') (filter (\<lambda>x. x \<notin> {m}) T)"
      "cells (mbox_infos c') m = None" "set (L i) \<subseteq> set T" "registered c' name = None"
    using remove_foreign [OF r slots_ok_mem(2) [OF assms(1,3)] assms(5-8)] by blast
  have "slots_ok c' fs us" by (rule slots_ok_view [OF handle_remove_mbox_view [OF c'(1)] assms(1)])
  then obtain ps qs where l: "lists_ok c' ps fs qs us" by (auto simp: slots_ok_def)
  obtain d where d: "processes d = (processes c')[i := closed_slot (processes c' ! i)]" "mbox_tree d = mbox_tree c'"
      "mbox_infos d = mbox_infos c'" "disconnect_from_process i c' = bindE (release_slot i d) (\<lambda>c. Inr (True, c))"
    using disconnect_begins [OF l assms(3) c'(5)] assms(4) c'(3) by metis
  have "delete_counterparts (L i) d = Inl UseAfterFree"
    by (rule delete_counterparts_dangling [of d "filter (\<lambda>x. x \<notin> {m}) T" m]) (use c' d in \<open>auto simp: infos_ok_def\<close>)
  then have "release_slot i d = Inl UseAfterFree"
    using d(1) c'(4,5) slots_ok_mem(2) [OF assms(1,3)] by (simp add: release_slot_def proc_at_def closed_slot_def)
  then show ?thesis using c'(1,10) d(4) by simp
qed

theorem foreign_removal_is_fatal_witness:
  "\<exists>c c'. registered c = [[65] \<mapsto> 0x200001] \<and> handle_remove_mbox 0x100001 [65] c = Inr c' \<and>
     registered c' [65] = None \<and> disconnect_from_process 2 c' = Inl UseAfterFree"
proof -
  obtain c T L where c: "slots_ok c [] [2]" "reg_ok c T L {}" "registered c = [[65] \<mapsto> 0x200001]" "co_proc c = proc0 7 []"
      "requester c 0x100001 = Some 1"
    using named_coord by metis
  moreover have "find_process 0x200001 = Some 2" by (simp add: find_process_def)
  ultimately show ?thesis
    using foreign_removal_is_fatal [OF c(1), of 2 "[65]" "0x200001" "0x100001" 1]
    by (auto simp: coord_registry_ok_def proc0_def)
qed

text \<open>
  C38. A process that gives up its connection while the coordinator is about to accept it: the
  coordinator disconnects the slot, which releases the node of the list that the main loop stands on,
  and reads the next node from it.
\<close>

theorem aborted_connection_is_fatal:
  assumes "slots_ok c fs (i # us)" and "coord_registry_ok c" and "list_mboxes_tree (processes c ! i) \<noteq> BFreed"
    and "ip_state (processes c ! i) = PROC_LISTENING" and "ip_sockfd (processes c ! i) \<in> set rd"
    and "ip_sockfd (processes c ! i) \<noteq> -1" and "sys (co_proc c) = [(-1, ECONNABORTED)]"
  shows "serve_ready rd evs zc c = Inl UseAfterFree"
proof -
  obtain ps qs where l: "lists_ok c ps fs qs (i # us)" using assms(1) by (auto simp: slots_ok_def)
  then obtain uq p n where u: "used_list c = BLive uq" "q_head uq = Some p" "cells (co_nodes c) p = Some n"
      "node_data n = Some i" "p \<in> set qs"
    by (elim lists_okE) (cases qs; auto simp: qrep_def dlist_def)
  have i: "i < length (processes c)" using slots_ok_mem(3) [OF assms(1)] by simp
  obtain T L D where r: "reg_ok c T L D" using assms(2) by (auto simp: coord_registry_ok_def)
  let ?c = "c\<lparr>co_proc := (co_proc c)\<lparr>sys := []\<rparr>\<rparr>"
  have s': "slots_ok ?c fs (i # us)" by (rule slots_ok_view [OF _ assms(1)]) (simp add: slots_view_def)
  have r': "reg_ok ?c T L D" by (rule reg_ok_cong [OF r]) simp_all
  have "i \<notin> D" using reg_okD(7,9) [OF r] i assms(3) by auto
  then obtain c' where c': "disconnect_from_process i ?c = Inr (True, c')" using disconnect_ok [OF s' r'] by auto
  have l': "lists_ok ?c ps fs qs (i # us)" using l lists_ok_cong [of ?c c] by simp
  have "cells (co_nodes c') p = None" by (rule disconnect_inv(2) [OF s' l' _ c' u(5)]) (use u in auto)
  moreover have "connect_to_process i c = Inr (True, c')"
    using c' i assms(7) by (simp add: connect_to_process_def proc_at_def co_sys_def)
  ultimately show ?thesis
    using u assms(4-6) i by (simp add: serve_ready_def proc_at_def hread_def)
qed

theorem aborted_connection_is_fatal_witness:
  "\<exists>c. slots_ok c [] [2] \<and> sys (co_proc c) = [(-1, ECONNABORTED)] \<and> serve_ready [5] [] 0 c = Inl UseAfterFree"
proof -
  obtain c where c: "slots_ok c [] [2]" "reg_ok c [] (\<lambda>_. []) {}" "processes c = processes (busy_coord0 PROC_LISTENING)"
    using busy_coord [of PROC_LISTENING] by metis
  let ?c = "c\<lparr>co_proc := proc0 7 [(-1, ECONNABORTED)]\<rparr>"
  have "slots_ok ?c [] [2]" by (rule slots_ok_view [OF _ c(1)]) (simp add: slots_view_def)
  moreover have r: "reg_ok ?c [] (\<lambda>_. []) {}" by (rule reg_ok_cong [OF c(2)]) simp_all
  moreover have "sys (co_proc ?c) = [(-1, ECONNABORTED)]" by (simp add: proc0_def)
  moreover have "processes ?c ! 2 = busy_slot PROC_LISTENING" using c(3) busy_processes(4) by simp
  ultimately show ?thesis
    using aborted_connection_is_fatal [of ?c "[]" 2 "[]" "[5]" "[]" 0] named_tree [OF r, of 2]
    by (intro exI [of _ ?c]) (auto simp: coord_registry_ok_def busy_slot_def)
qed

end
