(* ===== verification/Itc_Text.thy ===== *)
theory Itc_Text
  imports Itc_Message
begin

text \<open>
  What the gateway uses of the C library to print and scan text: decimal numbers, \<open>inet_ntoa\<close>, and
  \<open>sscanf\<close> for the directives that occur in its formats.
\<close>

unbundle bit_operations_syntax

section \<open>Printing\<close>

fun dec :: "nat \<Rightarrow> cstr" where
  "dec n = (if n < 10 then [48 + of_nat n] else dec (n div 10) @ [48 + of_nat (n mod 10)])"

declare dec.simps [simp del]

text \<open>The four bytes of an address are in the order in which they lie in memory.\<close>

definition inet_ntoa :: "u32 \<Rightarrow> cstr" where
  "inet_ntoa a =
     (case map (\<lambda>b. dec (unat b)) (enc32 a) of
        [p, q, r, s] \<Rightarrow> p @ [46] @ q @ [46] @ r @ [46] @ s
      | _ \<Rightarrow> [])"

text \<open>\<open>snprintf\<close> writes at most \<open>n - 1\<close> characters and the end of the string.\<close>

definition snprintf :: "nat \<Rightarrow> cstr \<Rightarrow> cstr" where
  "snprintf n text = take (n - 1) text"

section \<open>Scanning\<close>

text \<open>
  A format is a list of directives: a character that has to match, white space, which matches any
  amount of it, a non-empty string up to a given character (\<open>%[^c]\<close>), and a short unsigned decimal
  number (\<open>%hu\<close>). The result lists the variables that were assigned before the first mismatch.
\<close>

datatype scan_item = Lit u8 | Blank | Until u8 | Hu

datatype scan_val = Str cstr | Num u16

definition is_space :: "u8 \<Rightarrow> bool" where
  "is_space b \<longleftrightarrow> b = 32 \<or> (9 \<le> b \<and> b \<le> 13)"

definition is_digit :: "u8 \<Rightarrow> bool" where
  "is_digit b \<longleftrightarrow> 48 \<le> b \<and> b \<le> 57"

definition dec_val :: "cstr \<Rightarrow> nat" where
  "dec_val ds = fold (\<lambda>d v. 10 * v + (unat d - 48)) ds 0"

text \<open>The number is converted like by \<open>strtoul\<close> and then cut off to 16 bits.\<close>

definition hu_val :: "bool \<Rightarrow> nat \<Rightarrow> u16" where
  "hu_val neg v =
     (if 2 ^ 64 \<le> v then of_nat (2 ^ 64 - 1) else if neg then - of_nat v else of_nat v)"

definition scan_hu :: "bytes \<Rightarrow> (u16 \<times> bytes) option" where
  "scan_hu s =
     (let s = dropWhile is_space s;
          neg = (s \<noteq> [] \<and> hd s = 45);
          s = (if s \<noteq> [] \<and> (hd s = 43 \<or> hd s = 45) then tl s else s);
          ds = takeWhile is_digit s
      in if ds = [] then None else Some (hu_val neg (dec_val ds), dropWhile is_digit s))"

fun sscanf :: "bytes \<Rightarrow> scan_item list \<Rightarrow> scan_val list" where
  "sscanf s [] = []"
| "sscanf s (Blank # f) = sscanf (dropWhile is_space s) f"
| "sscanf [] (Lit c # f) = []"
| "sscanf (b # s) (Lit c # f) = (if b = c then sscanf s f else [])"
| "sscanf s (Until c # f) =
     (let w = takeWhile (\<lambda>b. b \<noteq> c) s in
      if w = [] then [] else Str w # sscanf (dropWhile (\<lambda>b. b \<noteq> c) s) f)"
| "sscanf s (Hu # f) = (case scan_hu s of None \<Rightarrow> [] | Some (n, s) \<Rightarrow> Num n # sscanf s f)"

definition lits :: "string \<Rightarrow> scan_item list" where
  "lits s = map (\<lambda>c. if is_space c then Blank else Lit c) (ascii s)"

section \<open>What was printed is scanned\<close>

lemma dec_digit: "n < 10 \<Longrightarrow> is_digit (48 + of_nat n) \<and> unat (48 + of_nat n :: u8) = 48 + n"
proof -
  assume "n < 10"
  then have "n \<in> {0, 1, 2, 3, 4, 5, 6, 7, 8, 9}" by auto
  then show ?thesis by (auto simp: is_digit_def)
qed

lemma dec_ne [simp]: "dec n \<noteq> []"
  by (subst dec.simps) simp

lemma dec_digits: "b \<in> set (dec n) \<Longrightarrow> is_digit b"
proof (induction n rule: dec.induct)
  case (1 n)
  show ?case
  proof (cases "n < 10")
    case True
    then show ?thesis using "1.prems" dec_digit [of n] by (simp add: dec.simps [of n])
  next
    case False
    then show ?thesis using 1 dec_digit [of "n mod 10"] by (auto simp: dec.simps [of n])
  qed
qed

lemma dec_val_dec [simp]: "dec_val (dec n) = n"
proof (induction n rule: dec.induct)
  case (1 n)
  show ?case
  proof (cases "n < 10")
    case True
    then show ?thesis using dec_digit [of n] by (simp add: dec.simps [of n] dec_val_def)
  next
    case False
    then have "dec_val (dec n) = 10 * dec_val (dec (n div 10)) + n mod 10"
      using dec_digit [of "n mod 10"] by (simp add: dec.simps [of n] dec_val_def)
    then show ?thesis using 1 False by simp
  qed
qed

lemma digit_facts: "is_digit b \<Longrightarrow> \<not> is_space b \<and> b \<noteq> 43 \<and> b \<noteq> 45 \<and> b \<noteq> 46 \<and> b \<noteq> 58 \<and> b \<noteq> 0"
  by (auto simp: is_digit_def is_space_def word_le_nat_alt)

lemma scan_hu_dec:
  assumes "s = [] \<or> \<not> is_digit (hd s)"
  shows "scan_hu (dec (unat w) @ s) = Some (w, s)"
proof -
  obtain d ds where d: "dec (unat w) = d # ds" by (cases "dec (unat w)") auto
  have dd: "is_digit d" using dec_digits [of d "unat w"] d by simp
  have tw: "takeWhile is_digit (dec (unat w) @ s) = dec (unat w)" "dropWhile is_digit (dec (unat w) @ s) = s"
    using assms dec_digits by (cases s; simp add: takeWhile_append2 dropWhile_append2)+
  have "unat w < 2 ^ 64" using unsigned_less [where ?'a = nat and w = w] by simp
  then have "hu_val False (dec_val (dec (unat w))) = w" by (simp add: hu_val_def)
  then show ?thesis using tw digit_facts [OF dd] d by (simp add: scan_hu_def Let_def)
qed

lemma inet_ntoa_chars: "b \<in> set (inet_ntoa a) \<Longrightarrow> is_digit b \<or> b = 46"
  using dec_digits by (auto simp: inet_ntoa_def enc32_def)

lemma inet_ntoa_ne [simp]: "inet_ntoa a \<noteq> []"
  by (simp add: inet_ntoa_def enc32_def)

lemma length_dec: "n < 10 ^ k \<Longrightarrow> 0 < k \<Longrightarrow> length (dec n) \<le> k"
proof (induction n arbitrary: k rule: dec.induct)
  case (1 n)
  show ?case
  proof (cases "n < 10")
    case True
    then show ?thesis using "1.prems" by (simp add: dec.simps [of n])
  next
    case False
    then obtain j where k: "k = Suc j" "0 < j" using "1.prems" by (cases k; cases "k - 1") auto
    then have "n div 10 < 10 ^ j" using "1.prems"(1) by (simp add: div_less_iff_less_mult mult.commute)
    then show ?thesis using 1 False k by (simp add: dec.simps [of n])
  qed
qed

lemma length_inet_ntoa: "length (inet_ntoa a) \<le> 15"
proof -
  have "length (dec (unat (b :: u8))) \<le> 3" for b
    using unsigned_less [where ?'a = nat and w = b] by (intro length_dec) simp_all
  then have "length (dec (unat (ucast a :: u8))) \<le> 3" "length (dec (unat (ucast (drop_bit 8 a) :: u8))) \<le> 3"
    "length (dec (unat (ucast (drop_bit 16 a) :: u8))) \<le> 3" "length (dec (unat (ucast (drop_bit 24 a) :: u8))) \<le> 3"
    by blast+
  then show ?thesis by (simp add: inet_ntoa_def enc32_def)
qed

end
