(* ===== verification/Itc_Tree.thy ===== *)
theory Itc_Tree
  imports Itc_Prelude "HOL-Library.Tree"
begin

text \<open>
  The search trees of the C library (\<open>tsearch\<close>, \<open>tfind\<close>, \<open>tdelete\<close>), which the gateway and the transport
  over POSIX message queues use. A node is a number: the index or the address of what it points to.
  Only the order of a tree is fixed, not its shape: the functions below add a node as a leaf and remove
  one by its successor, where an implementation may also rebalance.
\<close>

section \<open>Operations\<close>

text \<open>The comparison gets a node and answers for the key that is searched.\<close>

fun tree_lookup :: "(nat \<Rightarrow> int) \<Rightarrow> nat tree \<Rightarrow> nat option" where
  "tree_lookup cmp Leaf = None"
| "tree_lookup cmp (Node l j r) =
     (if cmp j = 0 then Some j else if cmp j < 0 then tree_lookup cmp l else tree_lookup cmp r)"

fun tree_insert :: "(nat \<Rightarrow> int) \<Rightarrow> nat \<Rightarrow> nat tree \<Rightarrow> nat tree" where
  "tree_insert cmp i Leaf = Node Leaf i Leaf"
| "tree_insert cmp i (Node l j r) =
     (if cmp j = 0 then Node l j r else if cmp j < 0 then Node (tree_insert cmp i l) j r
      else Node l j (tree_insert cmp i r))"

fun split_least :: "nat \<Rightarrow> nat tree \<Rightarrow> nat tree \<Rightarrow> nat \<times> nat tree" where
  "split_least j Leaf r = (j, r)"
| "split_least j (Node l i r') r = (case split_least i l r' of (m, t) \<Rightarrow> (m, Node t j r))"

fun tree_remove :: "(nat \<Rightarrow> int) \<Rightarrow> nat tree \<Rightarrow> nat tree" where
  "tree_remove cmp Leaf = Leaf"
| "tree_remove cmp (Node l j r) =
     (if cmp j < 0 then Node (tree_remove cmp l) j r
      else if 0 < cmp j then Node l j (tree_remove cmp r)
      else case r of
        Leaf \<Rightarrow> l
      | Node rl i rr \<Rightarrow> (case split_least i rl rr of (m, t) \<Rightarrow> Node l m t))"

section \<open>Lemmas\<close>

text \<open>
  \<open>key\<close> is what a tree is ordered by, and the comparison agrees with it on the nodes of the tree for the
  searched key \<open>x\<close>.
\<close>

definition agrees :: "(nat \<Rightarrow> int) \<Rightarrow> 'a::linorder \<Rightarrow> (nat \<Rightarrow> 'a) \<Rightarrow> nat tree \<Rightarrow> bool" where
  "agrees cmp x key t \<longleftrightarrow> (\<forall>j \<in> set_tree t. (cmp j < 0 \<longleftrightarrow> x < key j) \<and> (cmp j = 0 \<longleftrightarrow> x = key j))"

lemma agrees_Node [simp]:
  "agrees cmp x key (Node l j r) \<longleftrightarrow>
     (cmp j < 0 \<longleftrightarrow> x < key j) \<and> (cmp j = 0 \<longleftrightarrow> x = key j) \<and> agrees cmp x key l \<and> agrees cmp x key r"
  unfolding agrees_def by (simp only: tree.set ball_Un ball_simps) blast

abbreviation keyed :: "(nat \<Rightarrow> 'a::linorder) \<Rightarrow> nat tree \<Rightarrow> bool" where
  "keyed key \<equiv> bst_wrt (\<lambda>i j. key i < key j)"

lemma tree_lookup_iff:
  assumes "keyed key t" and "agrees cmp x key t"
  shows "tree_lookup cmp t = Some i \<longleftrightarrow> i \<in> set_tree t \<and> key i = x"
proof -
  have "tree_lookup cmp t = Some i \<longleftrightarrow> i \<in> set_tree t \<and> key i = x" if "keyed key t" "agrees cmp x key t" for t
    using that
  proof (induction t)
    case (Node l j r)
    have l: "\<forall>k \<in> set_tree l. key k < key j" and r: "\<forall>k \<in> set_tree r. key j < key k" using Node.prems(1) by auto
    have IH: "tree_lookup cmp l = Some i \<longleftrightarrow> i \<in> set_tree l \<and> key i = x"
        "tree_lookup cmp r = Some i \<longleftrightarrow> i \<in> set_tree r \<and> key i = x"
      using Node by simp_all
    have c: "cmp j < 0 \<longleftrightarrow> x < key j" "cmp j = 0 \<longleftrightarrow> x = key j" using Node.prems(2) by simp_all
    consider "x = key j" | "x < key j" | "key j < x" by (cases x "key j" rule: linorder_cases) auto
    then show ?case
    proof cases
      case 1
      then have "i \<notin> set_tree l \<or> key i \<noteq> x" "i \<notin> set_tree r \<or> key i \<noteq> x" using l r by auto
      then show ?thesis using 1 c by auto
    next
      case 2
      then have "i \<notin> set_tree r \<or> key i \<noteq> x" "key j \<noteq> x" "cmp j \<noteq> 0" using r c by auto
      then show ?thesis using IH(1) c 2 by auto
    next
      case 3
      then have "i \<notin> set_tree l \<or> key i \<noteq> x" "key j \<noteq> x" "\<not> cmp j < 0" "cmp j \<noteq> 0" using l c by auto
      then show ?thesis using IH(2) by auto
    qed
  qed simp
  then show ?thesis using assms by blast
qed

lemma tree_lookup_in: "tree_lookup cmp t = Some i \<Longrightarrow> i \<in> set_tree t \<and> cmp i = 0"
  by (induction t) (auto split: if_splits)

lemma tree_insert_ok:
  assumes "keyed key t" and "agrees cmp (key i) key t" and "key i \<notin> key ` set_tree t"
  shows "set_tree (tree_insert cmp i t) = insert i (set_tree t)" "keyed key (tree_insert cmp i t)"
proof -
  have "set_tree (tree_insert cmp i t) = insert i (set_tree t) \<and> keyed key (tree_insert cmp i t)"
    using assms
  proof (induction t)
    case (Node l j r)
    then have "set_tree (tree_insert cmp i l) = insert i (set_tree l) \<and> keyed key (tree_insert cmp i l)"
        "set_tree (tree_insert cmp i r) = insert i (set_tree r) \<and> keyed key (tree_insert cmp i r)"
      by (simp_all add: image_Un)
    then show ?case using Node.prems by (cases "key i < key j") auto
  qed simp
  then show "set_tree (tree_insert cmp i t) = insert i (set_tree t)" "keyed key (tree_insert cmp i t)" by blast+
qed

lemma split_least_ok:
  assumes "split_least j l r = (m, t)" and "keyed key (Node l j r)"
  shows "insert m (set_tree t) = set_tree (Node l j r) \<and> (\<forall>i \<in> set_tree t. key m < key i) \<and> keyed key t"
  using assms
proof (induction j l r arbitrary: m t rule: split_least.induct)
  case (2 j l i r' r)
  then obtain t' where t': "split_least i l r' = (m, t')" "t = Node t' j r" by (auto split: prod.splits)
  have "insert m (set_tree t') = set_tree (Node l i r') \<and> (\<forall>i \<in> set_tree t'. key m < key i) \<and> keyed key t'"
    using 2(1) [OF t'(1)] 2(3) by simp
  moreover from this have "key m < key j" using 2(3) by auto
  ultimately show ?case using t'(2) 2(3) by (auto intro: order.strict_trans)
qed auto

lemma tree_remove_ok:
  assumes "keyed key t" and "agrees cmp x key t"
  shows "set_tree (tree_remove cmp t) = {i \<in> set_tree t. key i \<noteq> x}" "keyed key (tree_remove cmp t)"
proof -
  have "set_tree (tree_remove cmp t) = {i \<in> set_tree t. key i \<noteq> x} \<and> keyed key (tree_remove cmp t)"
    using assms
  proof (induction t)
    case (Node l j r)
    have l: "\<forall>i \<in> set_tree l. key i < key j" and r: "\<forall>i \<in> set_tree r. key j < key i" and k: "keyed key l" "keyed key r"
      using Node.prems(1) by auto
    have IH: "set_tree (tree_remove cmp l) = {i \<in> set_tree l. key i \<noteq> x}" "keyed key (tree_remove cmp l)"
        "set_tree (tree_remove cmp r) = {i \<in> set_tree r. key i \<noteq> x}" "keyed key (tree_remove cmp r)"
      using Node by simp_all
    consider "x < key j" | "key j < x" | "x = key j" by (cases x "key j" rule: linorder_cases) auto
    then show ?case
    proof cases
      case 1
      then have "tree_remove cmp (Node l j r) = Node (tree_remove cmp l) j r" using Node.prems(2) by auto
      then show ?thesis using IH(1,2) 1 l r k by auto
    next
      case 2
      then have "tree_remove cmp (Node l j r) = Node l j (tree_remove cmp r)" using Node.prems(2) by auto
      then show ?thesis using IH(3,4) 2 l r k by auto
    next
      case 3
      then have c: "cmp j = 0" using Node.prems(2) by simp
      show ?thesis
      proof (cases r)
        case Leaf
        then show ?thesis using c l k 3 by auto
      next
        case r': (Node rl i rr)
        obtain m t where s: "split_least i rl rr = (m, t)" by fastforce
        then have m: "insert m (set_tree t) = set_tree r" "\<forall>i \<in> set_tree t. key m < key i" "keyed key t"
          using split_least_ok [OF s] k(2) r' by auto
        have "tree_remove cmp (Node l j r) = Node l m t" using c r' s by simp
        moreover have "key j < key m" using m(1) r by auto
        then have "\<forall>i \<in> set_tree l. key i < key m" using l by (auto intro: order.strict_trans)
        moreover have "\<forall>i \<in> set_tree l \<union> set_tree r. key i \<noteq> x" using l r 3 by fastforce
        then have "set_tree (Node l m t) = {i \<in> set_tree (Node l j r). key i \<noteq> x}" using m(1) 3 by auto
        ultimately show ?thesis using m(2,3) k(1) by simp
      qed
    qed
  qed simp
  then show "set_tree (tree_remove cmp t) = {i \<in> set_tree t. key i \<noteq> x}" "keyed key (tree_remove cmp t)" by blast+
qed

text \<open>Searching by another key than the one that orders the tree\<close>

lemma keyed_both:
  assumes "keyed key t" and "keyed ord t" and "i \<in> set_tree t" and "j \<in> set_tree t" and "key i < key j"
  shows "ord i < ord j"
  using assms
proof (induction t)
  case (Node l k r)
  have l: "key m < key k \<and> ord m < ord k" if "m \<in> set_tree l" for m using Node.prems(1,2) that by auto
  have r: "key k < key m \<and> ord k < ord m" if "m \<in> set_tree r" for m using Node.prems(1,2) that by auto
  have IH: "i \<in> set_tree l \<Longrightarrow> j \<in> set_tree l \<Longrightarrow> ord i < ord j" "i \<in> set_tree r \<Longrightarrow> j \<in> set_tree r \<Longrightarrow> ord i < ord j"
    using Node by auto
  consider "i \<in> set_tree l" | "i = k" | "i \<in> set_tree r" using Node.prems(3) by auto
  then show ?case
  proof cases
    case 1
    then show ?thesis using IH(1) l [of i] r [of j] Node.prems(4) by (auto intro: order.strict_trans)
  next
    case 2
    then show ?thesis using l [of j] r [of j] Node.prems(4,5) by auto
  next
    case 3
    then have "j \<in> set_tree r" using r [of i] l [of j] Node.prems(4,5) by auto
    then show ?thesis using IH(2) 3 by simp
  qed
qed simp

lemma found_keyed:
  assumes "keyed key t" and "inj_on ord (set_tree t)" and "\<forall>i \<in> set_tree t. agrees (cmp i) (ord i) ord t"
    and "\<forall>i \<in> set_tree t. tree_lookup (cmp i) t = Some i"
  shows "keyed ord t"
  using assms
proof (induction t)
  case (Node l k r)
  have side: "i \<in> set_tree l \<Longrightarrow> key i < key k" "i \<in> set_tree r \<Longrightarrow> key k < key i" for i using Node.prems(1) by auto
  have lt: "ord i < ord k \<and> tree_lookup (cmp i) l = Some i" if i: "i \<in> set_tree l" for i
  proof -
    have "i \<notin> set_tree r" "i \<noteq> k" using side i by (blast dest: order.asym order.strict_implies_not_eq)+
    moreover have "tree_lookup (cmp i) (Node l k r) = Some i" using Node.prems(4) i by simp
    ultimately have "cmp i k < 0" "tree_lookup (cmp i) l = Some i"
      using tree_lookup_in [of "cmp i" r i] by (auto split: if_splits)
    then show ?thesis using Node.prems(3) i by simp
  qed
  have gt: "ord k < ord i \<and> tree_lookup (cmp i) r = Some i" if i: "i \<in> set_tree r" for i
  proof -
    have "i \<notin> set_tree l" "i \<noteq> k" using side i by (blast dest: order.asym order.strict_implies_not_eq)+
    moreover have "tree_lookup (cmp i) (Node l k r) = Some i" using Node.prems(4) i by simp
    ultimately have "\<not> cmp i k < 0" "cmp i k \<noteq> 0" "tree_lookup (cmp i) r = Some i"
      using tree_lookup_in [of "cmp i" l i] by (auto split: if_splits)
    then show ?thesis using Node.prems(3) i by auto
  qed
  have "inj_on ord (set_tree l)" "inj_on ord (set_tree r)" using Node.prems(2) by (auto intro: inj_on_subset)
  then have "keyed ord l" "keyed ord r" using Node.IH Node.prems(1,3) lt gt by simp_all
  then show ?case using lt gt by simp
qed simp

text \<open>Whatever the shape of the tree: all nodes are found exactly if the two orders agree.\<close>

lemma all_found_iff:
  assumes "keyed key t" and "inj_on ord (set_tree t)" and "\<forall>i \<in> set_tree t. agrees (cmp i) (ord i) ord t"
  shows "(\<forall>i \<in> set_tree t. tree_lookup (cmp i) t = Some i) \<longleftrightarrow>
    (\<forall>i \<in> set_tree t. \<forall>j \<in> set_tree t. key i < key j \<longrightarrow> ord i < ord j)"
proof
  assume "\<forall>i \<in> set_tree t. tree_lookup (cmp i) t = Some i"
  then show "\<forall>i \<in> set_tree t. \<forall>j \<in> set_tree t. key i < key j \<longrightarrow> ord i < ord j"
    using keyed_both [OF assms(1) found_keyed [OF assms]] by blast
next
  assume le: "\<forall>i \<in> set_tree t. \<forall>j \<in> set_tree t. key i < key j \<longrightarrow> ord i < ord j"
  have "keyed ord t" using assms(1) le
  proof (induction t)
    case (Node l k r)
    have "keyed ord l" "keyed ord r" using Node by simp_all
    then show ?case using Node.prems by auto
  qed simp
  then show "\<forall>i \<in> set_tree t. tree_lookup (cmp i) t = Some i" using tree_lookup_iff assms(3) by blast
qed

end
