(* ===== verification/Itc_Gw.thy ===== *)
theory Itc_Gw
  imports Itc_Init Itc_Text Itc_Tree
begin

text \<open>
  \<open>sw/gateway/itc_gw.c\<close> and \<open>itc_gw_proto.h\<close>: the gateway between hosts. Its main thread announces the
  host by broadcasts and collects the addresses of other hosts; the client thread connects to them and
  sends messages and questions about mailboxes out; the server thread accepts connections and passes on
  what arrives.

  A peer is represented by its index in one of the three arrays. The peers in use are also in a search
  tree of the C library (\<open>Itc_Tree\<close>).
\<close>

unbundle bit_operations_syntax

section \<open>Constants\<close>

definition ITC_GATEWAY_MBOX_TCP_SER_NAME :: cstr where
  "ITC_GATEWAY_MBOX_TCP_SER_NAME = ascii ''itcgw_tcpserver_mailbox''"
definition ITC_GATEWAY_TCP_LISTENING_PORT :: u16 where [simp]: "ITC_GATEWAY_TCP_LISTENING_PORT = 22222"
definition ITC_GATEWAY_BROADCAST_INTERVAL :: int where [simp]: "ITC_GATEWAY_BROADCAST_INTERVAL = 10"
definition ITC_GATEWAY_NO_ADDR_STRING :: cstr where "ITC_GATEWAY_NO_ADDR_STRING = ascii ''NO_ADDR''"
definition ITC_GATEWAY_MAX_PEERS :: nat where [simp]: "ITC_GATEWAY_MAX_PEERS = 255"

definition ITCGW_UDP_ADD_PEER :: u32 where [simp]: "ITCGW_UDP_ADD_PEER = 0x101"
definition ITCGW_UDP_RMV_PEER :: u32 where [simp]: "ITCGW_UDP_RMV_PEER = 0x102"
definition ITCGW_ITC_DATA_FWD :: u32 where [simp]: "ITCGW_ITC_DATA_FWD = 0x103"
definition ITCGW_LOCATE_MBOX_REQUEST :: u32 where [simp]: "ITCGW_LOCATE_MBOX_REQUEST = 0x104"
definition ITCGW_LOCATE_MBOX_REPLY :: u32 where [simp]: "ITCGW_LOCATE_MBOX_REPLY = 0x105"
definition ITCGW_STATUS_OK :: u32 where [simp]: "ITCGW_STATUS_OK = 0"

text \<open>Offsets in the messages between the gateway's threads, \<open>itcgw_udp_add_peer\<close> and \<open>itcgw_udp_rmv_peer\<close>\<close>

definition UAP_ADDR :: nat where [simp]: "UAP_ADDR = 4"
definition UAP_NAMESPACE :: nat where [simp]: "UAP_NAMESPACE = 29"
definition URP_ADDR :: nat where [simp]: "URP_ADDR = 4"

text \<open>\<open>struct itcgw_header\<close> and the parts that follow it on a connection\<close>

definition GWH_MSGNO :: nat where [simp]: "GWH_MSGNO = 12"
definition GWH_PAYLOADLEN :: nat where [simp]: "GWH_PAYLOADLEN = 16"
definition GWH_SIZE :: nat where [simp]: "GWH_SIZE = 20"
definition GDF_PAYLOAD_LENGTH :: nat where [simp]: "GDF_PAYLOAD_LENGTH = 4"
definition GDF_PAYLOAD :: nat where [simp]: "GDF_PAYLOAD = 8"
definition GLQ_NAME :: nat where [simp]: "GLQ_NAME = 4"
definition GLR_MBOX_ID :: nat where [simp]: "GLR_MBOX_ID = 4"
definition GLR_SIZE :: nat where [simp]: "GLR_SIZE = 8"

text \<open>The numbers of the threads that the gateway starts.\<close>

definition GW_SERVER_THREAD :: nat where [simp]: "GW_SERVER_THREAD = 2"
definition GW_CLIENT_THREAD :: nat where [simp]: "GW_CLIENT_THREAD = 3"

section \<open>State\<close>

record tcp_peer_info =
  tp_addr :: cstr
  tp_fd :: int
  tp_namespace :: cstr

text \<open>
  \<open>struct itcgw_instance\<close>, the main thread's \<open>rc\<close>, and the world: \<open>gw_proc\<close> is the gateway as a user of the
  library, \<open>gw_in\<close> what arrives on a connection, in the portions in which it is delivered (an error or
  bytes, and the end of the connection after the last), \<open>gw_accepts\<close> the addresses of those who connect,
  \<open>gw_eth0\<close> the address of the network interface. \<open>gw_udp_sent\<close>, \<open>gw_tcp_sent\<close> and \<open>gw_connects\<close> record
  what was broadcast, sent and connected to.
\<close>

record itcgw =
  gw_namespace :: cstr
  gw_itccoord_mbox_id :: itc_mbox_id
  udp_fd :: int
  udp_broadcast_timer_fd :: int
  udp_broadcast_timer :: "int \<times> int"
  udp_broadcast_msg :: cstr
  udp_peers :: "cstr list"
  udp_tree :: "nat tree"
  udp_mbox_fd :: int
  udp_mbox_id :: itc_mbox_id
  tcp_server_fd :: int
  tcp_server_addr :: u32
  tcp_server_mbox_fd :: int
  tcp_server_mbox_id :: itc_mbox_id
  tcp_server_peers :: "tcp_peer_info list"
  tcp_server_tree :: "nat tree"
  tcp_client_mbox_fd :: int
  tcp_client_mbox_id :: itc_mbox_id
  tcp_client_peers :: "tcp_peer_info list"
  tcp_client_tree :: "nat tree"
  gw_rc :: "u32 block"
  gw_proc :: proc
  gw_in :: "int \<Rightarrow> (errno + bytes) list"
  gw_accepts :: "u32 list"
  gw_eth0 :: u32
  gw_udp_sent :: "cstr list"
  gw_tcp_sent :: "(int \<times> bytes) list"
  gw_connects :: "(cstr \<times> u16) list"

definition itcgw0 :: "cstr \<Rightarrow> u32 \<Rightarrow> proc \<Rightarrow> itcgw" where
  "itcgw0 ns eth0 p = \<lparr>gw_namespace = ns, gw_itccoord_mbox_id = 0, udp_fd = 0, udp_broadcast_timer_fd = 0,
     udp_broadcast_timer = (0, 0), udp_broadcast_msg = [], udp_peers = replicate ITC_GATEWAY_MAX_PEERS [],
     udp_tree = Leaf, udp_mbox_fd = 0, udp_mbox_id = 0, tcp_server_fd = 0, tcp_server_addr = 0,
     tcp_server_mbox_fd = 0, tcp_server_mbox_id = 0,
     tcp_server_peers = replicate ITC_GATEWAY_MAX_PEERS \<lparr>tp_addr = [], tp_fd = 0, tp_namespace = []\<rparr>,
     tcp_server_tree = Leaf, tcp_client_mbox_fd = 0, tcp_client_mbox_id = 0,
     tcp_client_peers = replicate ITC_GATEWAY_MAX_PEERS \<lparr>tp_addr = [], tp_fd = 0, tp_namespace = []\<rparr>,
     tcp_client_tree = Leaf, gw_rc = BNull, gw_proc = p, gw_in = (\<lambda>_. []), gw_accepts = [], gw_eth0 = eth0,
     gw_udp_sent = [], gw_tcp_sent = [], gw_connects = []\<rparr>"

section \<open>Access to the state\<close>

definition gw_sys :: "itcgw \<Rightarrow> sysret \<times> itcgw" where
  "gw_sys g = (case sys_next (gw_proc g) of (r, p) \<Rightarrow> (r, g\<lparr>gw_proc := p\<rparr>))"

definition gw_malloc :: "itcgw \<Rightarrow> bool \<times> itcgw" where
  "gw_malloc g = (case malloc_ok (gw_proc g) of (ok, p) \<Rightarrow> (ok, g\<lparr>gw_proc := p\<rparr>))"

definition gw_itc :: "(proc \<Rightarrow> ('a \<times> proc) outcome) \<Rightarrow> itcgw \<Rightarrow> ('a \<times> itcgw) outcome" where
  "gw_itc f g = bindE (f (gw_proc g)) (\<lambda>(r, p). Inr (r, g\<lparr>gw_proc := p\<rparr>))"

definition gw_put :: "(proc \<Rightarrow> proc outcome) \<Rightarrow> itcgw \<Rightarrow> itcgw outcome" where
  "gw_put f g = bindE (f (gw_proc g)) (\<lambda>p. Inr (g\<lparr>gw_proc := p\<rparr>))"

text \<open>\<open>htonl\<close> and \<open>ntohl\<close>: numbers travel in network order.\<close>

definition be32 :: "u32 \<Rightarrow> bytes" where
  "be32 w = rev (enc32 w)"

definition get_be32 :: "nat \<Rightarrow> bytes \<Rightarrow> u32 outcome" where
  "get_be32 off bs = bindE (get_bytes off 4 bs) (\<lambda>d. Inr (dec32 (rev d)))"

definition gw_header :: "int \<Rightarrow> u32 \<Rightarrow> u32 \<Rightarrow> u32 \<Rightarrow> bytes" where
  "gw_header pid receiver msgno payloadLen =
     be32 (word_of_int pid) @ be32 receiver @ be32 15 @ be32 msgno @ be32 payloadLen"

text \<open>A string that is copied into an array of \<open>ITC_MAX_NAME_LENGTH\<close> characters.\<close>

definition name_fits :: "cstr \<Rightarrow> bool" where
  "name_fits s \<longleftrightarrow> length s < ITC_MAX_NAME_LENGTH"

section \<open>The comparison functions of the search trees\<close>

definition compare_addr_udp_tree :: "cstr \<Rightarrow> cstr list \<Rightarrow> nat \<Rightarrow> int" where
  "compare_addr_udp_tree addr ps j = strcmp addr (ps ! j)"

definition compare_peer_udp_tree :: "nat \<Rightarrow> cstr list \<Rightarrow> nat \<Rightarrow> int" where
  "compare_peer_udp_tree i ps j = strcmp (ps ! i) (ps ! j)"

definition compare_addr_tcp_tree :: "cstr \<Rightarrow> tcp_peer_info list \<Rightarrow> nat \<Rightarrow> int" where
  "compare_addr_tcp_tree addr ps j = strcmp addr (tp_addr (ps ! j))"

definition compare_peer_tcp_tree :: "nat \<Rightarrow> tcp_peer_info list \<Rightarrow> nat \<Rightarrow> int" where
  "compare_peer_tcp_tree i ps j = strcmp (tp_addr (ps ! i)) (tp_addr (ps ! j))"

definition compare_sockfd_tcp_tree :: "int \<Rightarrow> tcp_peer_info list \<Rightarrow> nat \<Rightarrow> int" where
  "compare_sockfd_tcp_tree sockfd ps j =
     (if sockfd = tp_fd (ps ! j) then 0 else if tp_fd (ps ! j) < sockfd then 1 else -1)"

definition compare_namespace_tcp_tree :: "cstr \<Rightarrow> tcp_peer_info list \<Rightarrow> nat \<Rightarrow> int" where
  "compare_namespace_tcp_tree ns ps j = strcmp ns (tp_namespace (ps ! j))"

section \<open>Receiving on a connection\<close>

text \<open>\<open>recv\<close> with room for \<open>n\<close> bytes: \<open>-1\<close> for an error, \<open>0\<close> at the end of the connection.\<close>

definition recv_some :: "int \<Rightarrow> nat \<Rightarrow> itcgw \<Rightarrow> int \<times> bytes \<times> itcgw" where
  "recv_some sockfd n g =
     (case gw_in g sockfd of
        [] \<Rightarrow> (0, [], g)
      | Inl e # ds \<Rightarrow> (-1, [], g\<lparr>gw_in := (gw_in g)(sockfd := ds)\<rparr>)
      | Inr d # ds \<Rightarrow>
          (int (length (take n d)), take n d,
           g\<lparr>gw_in := (gw_in g)(sockfd := if length d \<le> n then ds else Inr (drop n d) # ds)\<rparr>))"

function recv_data :: "int \<Rightarrow> nat \<Rightarrow> itcgw \<Rightarrow> int \<times> bytes \<times> itcgw" where
  "recv_data sockfd n g =
     (case recv_some sockfd n g of (len, d, g) \<Rightarrow>
      if len \<le> 0 then (len, [], g)
      else if n \<le> nat len then (len, d, g)
      else case recv_data sockfd (n - nat len) g of (len', d', g) \<Rightarrow>
        if len' \<le> 0 then (len', [], g) else (len + len', d @ d', g))"
  by auto
termination by (relation "measure (\<lambda>(sockfd, n, g). n)") auto

declare recv_data.simps [simp del]

text \<open>The payload that a header announces, into an array on the stack of that size.\<close>

definition recv_payload :: "int \<Rightarrow> u32 \<Rightarrow> itcgw \<Rightarrow> (int \<times> bytes \<times> itcgw) outcome" where
  "recv_payload sockfd payloadLen g =
     (if 2 ^ 31 \<le> unat payloadLen then Inl Undefined else Inr (recv_data sockfd (unat payloadLen) g))"

section \<open>Announcing the host\<close>

definition greeting :: "cstr \<Rightarrow> u32 \<Rightarrow> u16 \<Rightarrow> cstr" where
  "greeting ns ip port =
     ascii ''Broadcast Message: ITCGW from host <'' @ ns @ ascii ''> listening on tcp://'' @ inet_ntoa ip @
     ascii '':'' @ dec (unat port) @ ascii ''/''"

definition greeting_format :: "scan_item list" where
  "greeting_format =
     lits ''Broadcast Message: ITCGW from host <'' @ [Until 62] @ lits ''> listening on tcp://'' @ [Until 58] @
     lits '':'' @ [Hu] @ lits ''/''"

definition peer_addr :: "cstr \<Rightarrow> u16 \<Rightarrow> cstr" where
  "peer_addr ip port = ascii ''tcp://'' @ ip @ ascii '':'' @ dec (unat port) @ ascii ''/''"

definition create_broadcast_message :: "itcgw \<Rightarrow> itcgw" where
  "create_broadcast_message g =
     g\<lparr>udp_broadcast_msg :=
         snprintf (ITC_MAX_NAME_LENGTH * 2) (greeting (gw_namespace g) (tcp_server_addr g) ITC_GATEWAY_TCP_LISTENING_PORT)\<rparr>"

definition send_broadcast :: "itcgw \<Rightarrow> bool \<times> itcgw" where
  "send_broadcast g =
     (case gw_sys g of ((res, _), g) \<Rightarrow>
      if res < 0 then (False, g) else (True, g\<lparr>gw_udp_sent := gw_udp_sent g @ [udp_broadcast_msg g]\<rparr>))"

text \<open>\<open>expired\<close> is whether no time remains on the timer, \<open>now\<close> the current time.\<close>

definition check_broadcast_timer :: "bool \<Rightarrow> int \<times> int \<Rightarrow> int \<Rightarrow> itcgw \<Rightarrow> bool \<times> itcgw" where
  "check_broadcast_timer expired now interval g =
     (case gw_sys g of ((gettime, _), g) \<Rightarrow>
      if gettime < 0 then (False, g)
      else if \<not> expired then (True, g)
      else case gw_sys g of ((settime, _), g) \<Rightarrow>
      if settime < 0 then (False, g)
      else send_broadcast (g\<lparr>udp_broadcast_timer := (fst now + interval, snd now)\<rparr>))"

text \<open>
  What a broadcast of another host says, from the bytes that \<open>recvfrom\<close> has put into the buffer. The
  strings are scanned into arrays of fixed size, and all variables are used without a check that they
  were assigned.
\<close>

definition read_greeting :: "bytes \<Rightarrow> (cstr \<times> cstr \<times> u16) outcome" where
  "read_greeting d =
     (if ITC_GATEWAY_ETH_PACKET_SIZE \<le> length d then Inl OutOfBounds
      else case sscanf (takeWhile (\<lambda>b. b \<noteq> 0) d) greeting_format of
        [Str ns, Str tcp_ip, Num tcp_port] \<Rightarrow>
          if \<not> name_fits ns \<or> 25 \<le> length tcp_ip then Inl OutOfBounds else Inr (ns, tcp_ip, tcp_port)
      | _ \<Rightarrow> Inl Undefined)"

text \<open>The message to the client thread about a new peer.\<close>

definition notify_add_peer :: "cstr \<Rightarrow> cstr \<Rightarrow> itcgw \<Rightarrow> (bool \<times> itcgw) outcome" where
  "notify_add_peer addr ns g =
     bindE (gw_itc (itc_alloc 0 (of_nat (UAP_NAMESPACE + length ns + 1)) ITCGW_UDP_ADD_PEER) g) (\<lambda>(req, g).
     bindE (gw_put (usr_put UAP_ADDR (addr @ [0]) req) g) (\<lambda>g.
     bindE (gw_put (usr_put UAP_NAMESPACE (ns @ [0]) req) g) (\<lambda>g.
     bindE (gw_itc (itc_send 0 req (tcp_client_mbox_id g) ITC_MY_MBOX_ID None []) g) (\<lambda>(sent, g).
     if \<not> sent then bindE (gw_itc (itc_free 0 req) g) (\<lambda>(freed, g). Inr (False, g)) else Inr (True, g)))))"

definition handle_receive_broadcast_msg :: "itcgw \<Rightarrow> (bool \<times> itcgw) outcome" where
  "handle_receive_broadcast_msg g =
     (case recv_call (gw_proc g) of ((res, _), d, p) \<Rightarrow>
      let g = g\<lparr>gw_proc := p\<rparr> in
      if res < 0 then Inr (False, g)
      else
        bindE (read_greeting d) (\<lambda>(ns, tcp_ip, tcp_port).
        let m_addr = snprintf 40 (peer_addr tcp_ip tcp_port) in
        if tree_lookup (compare_addr_udp_tree m_addr (udp_peers g)) (udp_tree g) \<noteq> None then Inr (True, g)
        else case find (\<lambda>i. strcmp (udp_peers g ! i) ITC_GATEWAY_NO_ADDR_STRING = 0) [0..<ITC_GATEWAY_MAX_PEERS] of
          None \<Rightarrow> Inr (False, g)
        | Some i \<Rightarrow>
            let g = g\<lparr>udp_peers := (udp_peers g)[i := m_addr]\<rparr>;
                g = g\<lparr>udp_tree := tree_insert (compare_peer_udp_tree i (udp_peers g)) i (udp_tree g)\<rparr>
            in bindE (notify_add_peer m_addr ns g) (\<lambda>(ok, g).
               Inr (if ok then send_broadcast g else (False, g)))))"

text \<open>The address of the peer is overwritten before the tree is searched for it.\<close>

definition handle_udp_rmv_peer :: "cstr \<Rightarrow> itcgw \<Rightarrow> bool \<times> itcgw" where
  "handle_udp_rmv_peer addr g =
     (case tree_lookup (compare_addr_udp_tree addr (udp_peers g)) (udp_tree g) of
        None \<Rightarrow> (False, g)
      | Some i \<Rightarrow>
          let g = g\<lparr>udp_peers := (udp_peers g)[i := ITC_GATEWAY_NO_ADDR_STRING]\<rparr>
          in (True, g\<lparr>udp_tree := tree_remove (compare_peer_udp_tree i (udp_peers g)) (udp_tree g)\<rparr>))"

definition handle_udp_get_namespace_request :: "itc_mbox_id \<Rightarrow> itcgw \<Rightarrow> (bool \<times> itcgw) outcome" where
  "handle_udp_get_namespace_request mbox_id g =
     bindE (gw_itc (itc_alloc 0 (of_nat (GNR_NAMESPACE + length (gw_namespace g) + 1)) ITC_GET_NAMESPACE_REPLY) g)
       (\<lambda>(rep, g).
     bindE (gw_put (usr_put GNR_NAMESPACE (gw_namespace g @ [0]) rep) g) (\<lambda>g.
     bindE (gw_itc (itc_send 0 rep mbox_id ITC_MY_MBOX_ID None []) g) (\<lambda>(sent, g).
     if \<not> sent then bindE (gw_itc (itc_free 0 rep) g) (\<lambda>(freed, g). Inr (False, g)) else Inr (True, g))))"

definition handle_receive_itcmsg_at_udp :: "itcgw \<Rightarrow> (bool \<times> itcgw) outcome" where
  "handle_receive_itcmsg_at_udp g =
     bindE (gw_itc (itc_receive 0 ITC_NO_WAIT []) g) (\<lambda>(msg, g).
     if msg = None then Inr (False, g)
     else
       bindE (usr_get32 0 msg (gw_proc g)) (\<lambda>msgno.
       bindE
         (if msgno = ITCGW_UDP_RMV_PEER then
            bindE (usr_cstr URP_ADDR msg (gw_proc g)) (\<lambda>addr. Inr (snd (handle_udp_rmv_peer addr g)))
          else if msgno = ITC_GET_NAMESPACE_REQUEST then
            bindE (usr_get32 GNQ_MBOX_ID msg (gw_proc g)) (\<lambda>mbox_id.
            bindE (handle_udp_get_namespace_request mbox_id g) (\<lambda>(ok, g). Inr g))
          else Inr g) (\<lambda>g.
       bindE (gw_itc (itc_free 0 msg) g) (\<lambda>(freed, g). Inr (True, g)))))"

section \<open>The server thread\<close>

definition handle_accept_new_connection :: "itcgw \<Rightarrow> bool \<times> itcgw" where
  "handle_accept_new_connection g =
     (case gw_sys g of ((new_fd, errno), g) \<Rightarrow>
      if new_fd < 0 then (errno = EINTR, g)
      else
        let ip = (case gw_accepts g of [] \<Rightarrow> 0 | a # _ \<Rightarrow> a);
            g = g\<lparr>gw_accepts := tl (gw_accepts g)\<rparr>;
            addr = snprintf 30 (peer_addr (inet_ntoa ip) ITC_GATEWAY_TCP_LISTENING_PORT);
            ps = tcp_server_peers g
        in if tree_lookup (compare_addr_tcp_tree addr ps) (tcp_server_tree g) \<noteq> None then (True, g)
           else case find (\<lambda>i. tp_fd (ps ! i) = -1) [0..<ITC_GATEWAY_MAX_PEERS] of
             None \<Rightarrow> (False, g)
           | Some i \<Rightarrow>
               let ps = ps[i := (ps ! i)\<lparr>tp_addr := addr, tp_fd := new_fd\<rparr>]
               in (True, g\<lparr>tcp_server_peers := ps,
                           tcp_server_tree := tree_insert (compare_peer_tcp_tree i ps) i (tcp_server_tree g)\<rparr>))"

text \<open>What removing a peer does to an array and its tree: the tree is searched by the descriptor.\<close>

definition drop_peer :: "int \<Rightarrow> tcp_peer_info list \<Rightarrow> nat tree \<Rightarrow> (nat \<times> tcp_peer_info list \<times> nat tree) option" where
  "drop_peer sockfd ps t =
     (case tree_lookup (compare_sockfd_tcp_tree sockfd ps) t of
        None \<Rightarrow> None
      | Some i \<Rightarrow>
          let ps = ps[i := (ps ! i)\<lparr>tp_fd := -1\<rparr>]
          in Some (i, ps, tree_remove (compare_addr_tcp_tree (tp_addr (ps ! i)) ps) t))"

definition delete_tcp_peer_resource :: "int \<Rightarrow> itcgw \<Rightarrow> (bool \<times> itcgw) outcome" where
  "delete_tcp_peer_resource sockfd g =
     (case drop_peer sockfd (tcp_server_peers g) (tcp_server_tree g) of
        None \<Rightarrow> Inr (False, g)
      | Some (i, ps, t) \<Rightarrow>
          (case gw_sys g of (close, g) \<Rightarrow>
           let addr = tp_addr (ps ! i); g = g\<lparr>tcp_server_peers := ps, tcp_server_tree := t\<rparr> in
           bindE (gw_itc (itc_alloc GW_SERVER_THREAD (of_nat (URP_ADDR + length addr + 1)) ITCGW_UDP_RMV_PEER) g)
             (\<lambda>(req, g).
           bindE (gw_put (usr_put URP_ADDR (addr @ [0]) req) g) (\<lambda>g.
           bindE (gw_itc (itc_send GW_SERVER_THREAD req (udp_mbox_id g) ITC_MY_MBOX_ID None []) g) (\<lambda>(sent, g).
           if \<not> sent then bindE (gw_itc (itc_free GW_SERVER_THREAD req) g) (\<lambda>(freed, g). Inr (False, g))
           else Inr (True, g\<lparr>tcp_server_peers := (tcp_server_peers g)
                               [i := (tcp_server_peers g ! i)\<lparr>tp_addr := ITC_GATEWAY_NO_ADDR_STRING\<rparr>]\<rparr>))))))"

text \<open>
  A message from another host: its block, without the end marker, is copied over a new message of the
  same size, and sent to the mailbox that its header names.
\<close>

definition handle_receive_data_fwd :: "int \<Rightarrow> u32 \<Rightarrow> itcgw \<Rightarrow> (bool \<times> itcgw) outcome" where
  "handle_receive_data_fwd sockfd payloadLen g =
     bindE (recv_payload sockfd payloadLen g) (\<lambda>(len, d, g).
     if len \<le> 0 then Inr (False, g)
     else
       bindE (get_be32 0 d) (\<lambda>errorcode.
       bindE (get_be32 GDF_PAYLOAD_LENGTH d) (\<lambda>payload_length.
       bindE (get32 (GDF_PAYLOAD + OFF_SIZE) d) (\<lambda>sz.
       bindE (get32 (GDF_PAYLOAD + OFF_MSGNO) d) (\<lambda>msgno.
       bindE (gw_itc (itc_alloc GW_SERVER_THREAD (ucast sz) msgno) g) (\<lambda>(msg, g).
       bindE (get_bytes GDF_PAYLOAD (unat payload_length) d) (\<lambda>payload.
       bindE (hread msg (msgs (gw_proc g))) (\<lambda>bs.
       bindE (put_bytes 0 payload bs) (\<lambda>bs.
       bindE (gw_put (\<lambda>s. bindE (hupd msg (\<lambda>_. bs) (msgs s)) (\<lambda>mh. Inr (s\<lparr>msgs := mh\<rparr>))) g) (\<lambda>g.
       bindE (msg_get OFF_RECEIVER msg (msgs (gw_proc g))) (\<lambda>receiver.
       gw_itc (itc_send GW_SERVER_THREAD msg receiver ITC_MY_MBOX_ID None []) g)))))))))))"

definition gw_send_locate_mbox_reply :: "int \<Rightarrow> itc_mbox_id \<Rightarrow> itcgw \<Rightarrow> bool \<times> itcgw" where
  "gw_send_locate_mbox_reply sockfd mbox_id g =
     (case gw_malloc g of (rep, g) \<Rightarrow>
      if \<not> rep then (False, g)
      else case gw_sys g of ((res, _), g) \<Rightarrow>
      if res < 0 then (False, g)
      else (True, g\<lparr>gw_tcp_sent := gw_tcp_sent g @
              [(sockfd, gw_header (cur_pid (gw_proc g)) 111 ITCGW_LOCATE_MBOX_REPLY (of_nat GLR_SIZE) @
                        be32 ITCGW_STATUS_OK @ be32 mbox_id)]\<rparr>))"

text \<open>\<open>evs\<close> are the wake-ups while the coordinator is asked for the mailbox.\<close>

definition handle_receive_locate_mbox :: "wakeup list \<Rightarrow> int \<Rightarrow> u32 \<Rightarrow> itcgw \<Rightarrow> (bool \<times> itcgw) outcome" where
  "handle_receive_locate_mbox evs sockfd payloadLen g =
     bindE (recv_payload sockfd payloadLen g) (\<lambda>(len, d, g).
     if len \<le> 0 then Inr (False, g)
     else
       bindE (get_be32 0 d) (\<lambda>errorcode.
       bindE (cstr_at GLQ_NAME d) (\<lambda>mboxname.
       bindE (itc_locate_sync GW_SERVER_THREAD 1000 mboxname True evs (gw_proc g)) (\<lambda>(mbox_id, ext, p).
       let g = g\<lparr>gw_proc := p\<rparr> in
       if mbox_id = ITC_NO_MBOX_ID then Inr (False, g)
       else Inr (gw_send_locate_mbox_reply sockfd mbox_id g)))))"

definition handle_receive_tcp_packet_at_server :: "wakeup list \<Rightarrow> int \<Rightarrow> itcgw \<Rightarrow> (bool \<times> itcgw) outcome" where
  "handle_receive_tcp_packet_at_server evs sockfd g =
     (case recv_data sockfd GWH_SIZE g of (len, d, g) \<Rightarrow>
      if len = 0 then bindE (delete_tcp_peer_resource sockfd g) (\<lambda>(ok, g). Inr (True, g))
      else if len < 0 then Inr (False, g)
      else
        bindE (get_be32 GWH_MSGNO d) (\<lambda>msgno.
        bindE (get_be32 GWH_PAYLOADLEN d) (\<lambda>payloadLen.
        if msgno = ITCGW_ITC_DATA_FWD then
          bindE (handle_receive_data_fwd sockfd payloadLen g) (\<lambda>(ok, g). Inr (True, g))
        else if msgno = ITCGW_LOCATE_MBOX_REQUEST then
          bindE (handle_receive_locate_mbox evs sockfd payloadLen g) (\<lambda>(ok, g). Inr (True, g))
        else Inr (True, g))))"

text \<open>
  The loops of the two threads over their peers. \<open>rd\<close> are the descriptors that \<open>select\<close> has reported; the
  result is \<open>False\<close> when the thread ends.
\<close>

fun serve_server_peers :: "wakeup list \<Rightarrow> int list \<Rightarrow> nat list \<Rightarrow> itcgw \<Rightarrow> (bool \<times> itcgw) outcome" where
  "serve_server_peers evs rd [] g = Inr (True, g)"
| "serve_server_peers evs rd (i # is) g =
     (let fd = tp_fd (tcp_server_peers g ! i) in
      if fd \<noteq> -1 \<and> fd \<in> set rd then
        bindE (handle_receive_tcp_packet_at_server evs fd g) (\<lambda>(ok, g).
        if ok then serve_server_peers evs rd is g else Inr (False, g))
      else serve_server_peers evs rd is g)"

definition peer_fds :: "tcp_peer_info list \<Rightarrow> int list" where
  "peer_fds ps = filter (\<lambda>fd. fd \<noteq> -1) (map tp_fd ps)"

definition server_round :: "int list \<Rightarrow> wakeup list \<Rightarrow> itcgw \<Rightarrow> (bool \<times> itcgw) outcome" where
  "server_round ready evs g =
     (let rd = filter (\<lambda>fd. fd \<in> set ready) (tcp_server_fd g # peer_fds (tcp_server_peers g)) in
      case gw_sys g of ((select, _), g) \<Rightarrow>
      if select < 0 then Inr (False, g)
      else case (if tcp_server_fd g \<in> set rd then handle_accept_new_connection g else (True, g)) of (ok, g) \<Rightarrow>
      if \<not> ok then Inr (False, g) else serve_server_peers evs rd [0..<ITC_GATEWAY_MAX_PEERS] g)"

section \<open>The client thread\<close>

definition addr_format :: "scan_item list" where
  "addr_format = lits ''tcp://'' @ [Until 58] @ lits '':'' @ [Hu] @ lits ''/''"

definition handle_tcp_client_add_peer :: "cstr \<Rightarrow> cstr \<Rightarrow> itcgw \<Rightarrow> (bool \<times> itcgw) outcome" where
  "handle_tcp_client_add_peer addr ns g =
     (let ps = tcp_client_peers g; vals = sscanf addr addr_format in
      if tree_lookup (compare_addr_tcp_tree addr ps) (tcp_client_tree g) \<noteq> None then Inr (False, g)
      else if \<exists>tcp_ip \<in> set vals. case tcp_ip of Str s \<Rightarrow> 25 \<le> length s | Num _ \<Rightarrow> False then Inl OutOfBounds
      else case gw_sys g of ((new_fd, _), g) \<Rightarrow>
      if new_fd < 0 then Inr (False, g)
      else case vals of
        [Str tcp_ip, Num tcp_port] \<Rightarrow>
          (case gw_sys (g\<lparr>gw_connects := gw_connects g @ [(tcp_ip, tcp_port)]\<rparr>) of ((connect, _), g) \<Rightarrow>
           if connect < 0 then (case gw_sys g of (close, g) \<Rightarrow> Inr (False, g))
           else case find (\<lambda>i. tp_fd (ps ! i) = -1) [0..<ITC_GATEWAY_MAX_PEERS] of
             None \<Rightarrow> Inr (False, g)
           | Some i \<Rightarrow>
               if \<not> name_fits addr \<or> \<not> name_fits ns then Inl OutOfBounds
               else
                 let ps = ps[i := \<lparr>tp_addr = addr, tp_fd = new_fd, tp_namespace = ns\<rparr>]
                 in Inr (True, g\<lparr>tcp_client_peers := ps,
                                 tcp_client_tree := tree_insert (compare_peer_tcp_tree i ps) i (tcp_client_tree g)\<rparr>))
      | _ \<Rightarrow> Inl Undefined)"

definition handle_tcp_client_rmv_peer :: "int \<Rightarrow> itcgw \<Rightarrow> bool \<times> itcgw" where
  "handle_tcp_client_rmv_peer sockfd g =
     (case drop_peer sockfd (tcp_client_peers g) (tcp_client_tree g) of
        None \<Rightarrow> (False, g)
      | Some (i, ps, t) \<Rightarrow>
          (case gw_sys g of (close, g) \<Rightarrow>
           (True, g\<lparr>tcp_client_peers := ps[i := (ps ! i)\<lparr>tp_addr := ITC_GATEWAY_NO_ADDR_STRING\<rparr>],
                    tcp_client_tree := t\<rparr>)))"

text \<open>
  A message for another host. The peer is searched by its namespace in the tree that is ordered by
  addresses.
\<close>

definition handle_fwd_data_out :: "ptr \<Rightarrow> itcgw \<Rightarrow> (bool \<times> itcgw) outcome" where
  "handle_fwd_data_out msg g =
     bindE (usr_get32 FWD_LENGTH msg (gw_proc g)) (\<lambda>len.
     case gw_malloc g of (rep, g) \<Rightarrow>
     if \<not> rep then Inr (False, g)
     else
       bindE (hread msg (msgs (gw_proc g))) (\<lambda>bs.
       bindE (get_bytes (OFF_MSGNO + FWD_PAYLOAD) (unat len) bs) (\<lambda>payload.
       bindE (usr_cstr FWD_NAMESPACE msg (gw_proc g)) (\<lambda>ns.
       case tree_lookup (compare_namespace_tcp_tree ns (tcp_client_peers g)) (tcp_client_tree g) of
         None \<Rightarrow> Inr (True, g)
       | Some i \<Rightarrow>
           (case gw_sys g of ((res, _), g) \<Rightarrow>
            if res < 0 then Inr (False, g)
            else Inr (True, g\<lparr>gw_tcp_sent := gw_tcp_sent g @
              [(tp_fd (tcp_client_peers g ! i),
                gw_header (cur_pid (gw_proc g)) 222 ITCGW_ITC_DATA_FWD (of_nat GDF_PAYLOAD + len) @
                be32 ITCGW_STATUS_OK @ be32 len @ payload)]\<rparr>))))))"

fun ask_peers :: "bytes \<Rightarrow> nat list \<Rightarrow> itcgw \<Rightarrow> nat \<times> itcgw" where
  "ask_peers packet [] g = (0, g)"
| "ask_peers packet (i # is) g =
     (let fd = tp_fd (tcp_client_peers g ! i) in
      if fd = -1 then ask_peers packet is g
      else case gw_sys g of ((res, _), g) \<Rightarrow>
        if res < 0 then ask_peers packet is g
        else case ask_peers packet is (g\<lparr>gw_tcp_sent := gw_tcp_sent g @ [(fd, packet)]\<rparr>) of
          (n, g) \<Rightarrow> (Suc n, g))"

text \<open>The answer to the coordinator's question about a mailbox.\<close>

definition reply_to_coord :: "itc_mbox_id \<Rightarrow> cstr \<Rightarrow> itcgw \<Rightarrow> (bool \<times> itcgw) outcome" where
  "reply_to_coord mbox_id ns g =
     bindE (gw_itc (itc_alloc GW_CLIENT_THREAD (of_nat (LGR_NAMESPACE + length ns + 1)) ITC_LOCATE_MBOX_FROM_ITCGWS_REPLY) g)
       (\<lambda>(msg, g).
     bindE (gw_put (usr_put32 LGR_MBOX_ID mbox_id msg) g) (\<lambda>g.
     bindE (gw_put (usr_put LGR_NAMESPACE (ns @ [0]) msg) g) (\<lambda>g.
     bindE (gw_itc (itc_send GW_CLIENT_THREAD msg (gw_itccoord_mbox_id g) ITC_MY_MBOX_ID None []) g) (\<lambda>(sent, g).
     if \<not> sent then bindE (gw_itc (itc_free GW_CLIENT_THREAD msg) g) (\<lambda>(freed, g). Inr (False, g))
     else Inr (True, g)))))"

definition handle_locate_mbox_request :: "ptr \<Rightarrow> itcgw \<Rightarrow> (bool \<times> itcgw) outcome" where
  "handle_locate_mbox_request msg g =
     bindE (usr_cstr LGQ_NAME msg (gw_proc g)) (\<lambda>mboxname.
     case gw_malloc g of (rep, g) \<Rightarrow>
     if \<not> rep then Inr (False, g)
     else case ask_peers (gw_header (cur_pid (gw_proc g)) 111 ITCGW_LOCATE_MBOX_REQUEST
                            (of_nat (GLQ_NAME + length mboxname + 1)) @ be32 ITCGW_STATUS_OK @ mboxname @ [0])
            [0..<ITC_GATEWAY_MAX_PEERS] g of (count, g) \<Rightarrow>
       if count = 0 then reply_to_coord ITC_NO_MBOX_ID [] g else Inr (True, g))"

definition handle_receive_locate_mbox_reply :: "int \<Rightarrow> u32 \<Rightarrow> itcgw \<Rightarrow> (bool \<times> itcgw) outcome" where
  "handle_receive_locate_mbox_reply sockfd payloadLen g =
     bindE (recv_payload sockfd payloadLen g) (\<lambda>(len, d, g).
     if len \<le> 0 then Inr (False, g)
     else
       bindE (get_be32 0 d) (\<lambda>errorcode.
       bindE (get_be32 GLR_MBOX_ID d) (\<lambda>mbox_id.
       case tree_lookup (compare_sockfd_tcp_tree sockfd (tcp_client_peers g)) (tcp_client_tree g) of
         None \<Rightarrow> Inr (False, g)
       | Some i \<Rightarrow> reply_to_coord mbox_id (tp_namespace (tcp_client_peers g ! i)) g)))"

definition handle_receive_tcp_packet_at_client :: "int \<Rightarrow> itcgw \<Rightarrow> (bool \<times> itcgw) outcome" where
  "handle_receive_tcp_packet_at_client sockfd g =
     (case recv_data sockfd GWH_SIZE g of (len, d, g) \<Rightarrow>
      if len = 0 then Inr (True, snd (handle_tcp_client_rmv_peer sockfd g))
      else if len < 0 then Inr (False, g)
      else
        bindE (get_be32 GWH_MSGNO d) (\<lambda>msgno.
        bindE (get_be32 GWH_PAYLOADLEN d) (\<lambda>payloadLen.
        if msgno = ITCGW_LOCATE_MBOX_REPLY then
          bindE (handle_receive_locate_mbox_reply sockfd payloadLen g) (\<lambda>(ok, g). Inr (True, g))
        else Inr (True, g))))"

definition handle_receive_itcmsg_at_client :: "itcgw \<Rightarrow> (bool \<times> itcgw) outcome" where
  "handle_receive_itcmsg_at_client g =
     bindE (gw_itc (itc_receive GW_CLIENT_THREAD ITC_NO_WAIT []) g) (\<lambda>(msg, g).
     if msg = None then Inr (False, g)
     else
       bindE (usr_get32 0 msg (gw_proc g)) (\<lambda>msgno.
       bindE
         (if msgno = ITCGW_UDP_ADD_PEER then
            bindE (usr_cstr UAP_ADDR msg (gw_proc g)) (\<lambda>addr.
            bindE (usr_cstr UAP_NAMESPACE msg (gw_proc g)) (\<lambda>ns.
            bindE (handle_tcp_client_add_peer addr ns g) (\<lambda>(ok, g). Inr g)))
          else if msgno = ITC_FWD_DATA_TO_ITCGWS then
            bindE (handle_fwd_data_out msg g) (\<lambda>(ok, g). Inr g)
          else if msgno = ITC_LOCATE_MBOX_FROM_ITCGWS_REQUEST then
            bindE (usr_get32 LGQ_COORD_MBOX_ID msg (gw_proc g)) (\<lambda>coord.
            bindE (handle_locate_mbox_request msg (g\<lparr>gw_itccoord_mbox_id := coord\<rparr>)) (\<lambda>(ok, g). Inr g))
          else Inr g) (\<lambda>g.
       bindE (gw_itc (itc_free GW_CLIENT_THREAD msg) g) (\<lambda>(freed, g). Inr (True, g)))))"

fun serve_client_peers :: "int list \<Rightarrow> nat list \<Rightarrow> itcgw \<Rightarrow> (bool \<times> itcgw) outcome" where
  "serve_client_peers rd [] g = Inr (True, g)"
| "serve_client_peers rd (i # is) g =
     (let fd = tp_fd (tcp_client_peers g ! i) in
      if fd \<noteq> -1 \<and> fd \<in> set rd then
        bindE (handle_receive_tcp_packet_at_client fd g) (\<lambda>(ok, g).
        if ok then serve_client_peers rd is g else Inr (False, g))
      else serve_client_peers rd is g)"

definition client_round :: "int list \<Rightarrow> itcgw \<Rightarrow> (bool \<times> itcgw) outcome" where
  "client_round ready g =
     (let rd = filter (\<lambda>fd. fd \<in> set ready) (tcp_client_mbox_fd g # peer_fds (tcp_client_peers g)) in
      case gw_sys g of ((select, _), g) \<Rightarrow>
      if select < 0 then Inr (False, g)
      else
        bindE (if tcp_client_mbox_fd g \<in> set rd then handle_receive_itcmsg_at_client g else Inr (True, g)) (\<lambda>(ok, g).
        if \<not> ok then Inr (False, g) else serve_client_peers rd [0..<ITC_GATEWAY_MAX_PEERS] g))"

section \<open>Start, main loop and exit\<close>

definition gw_setup_rc :: "itcgw \<Rightarrow> (bool \<times> itcgw) outcome" where
  "gw_setup_rc g =
     (if gw_rc g = BNull then
        (case gw_malloc g of (ok, g) \<Rightarrow> Inr (ok, if ok then g\<lparr>gw_rc := BLive ITC_OK\<rparr> else g))
      else bindE (bwrite (\<lambda>_. ITC_OK) (gw_rc g)) (\<lambda>rc. Inr (True, g\<lparr>gw_rc := rc\<rparr>)))"

definition setup_udp_mailbox :: "itcgw \<Rightarrow> (bool \<times> itcgw) outcome" where
  "setup_udp_mailbox g =
     bindE (gw_itc (itc_init 0 4 True 0) g) (\<lambda>(ok, g).
     if \<not> ok then Inr (False, g)
     else
       bindE (gw_itc (itc_create_mailbox 0 ITC_GATEWAY_MBOX_UDP_NAME ITC_NO_NAMESPACE) g) (\<lambda>(mbox_id, g).
       let g = g\<lparr>udp_mbox_id := mbox_id\<rparr> in
       if mbox_id = ITC_NO_MBOX_ID then bindE (gw_itc (itc_exit 0) g) (\<lambda>(exited, g). Inr (False, g))
       else bindE (gw_itc (itc_get_fd 0) g) (\<lambda>(fd, g). Inr (True, g\<lparr>udp_mbox_fd := fd\<rparr>))))"

text \<open>A number of calls on a new socket, which is closed when one of them fails.\<close>

fun socket_calls :: "nat \<Rightarrow> itcgw \<Rightarrow> bool \<times> itcgw" where
  "socket_calls 0 g = (True, g)"
| "socket_calls (Suc n) g =
     (case gw_sys g of ((res, _), g) \<Rightarrow>
      if res < 0 then (case gw_sys g of (close, g) \<Rightarrow> (False, g)) else socket_calls n g)"

definition setup_udp_server :: "itcgw \<Rightarrow> bool \<times> itcgw" where
  "setup_udp_server g =
     (case gw_sys g of ((fd, _), g) \<Rightarrow>
      let g = g\<lparr>udp_fd := fd\<rparr> in
      if fd < 0 then (False, g) else socket_calls 3 g)"

definition setup_udp_peer :: "itcgw \<Rightarrow> itcgw" where
  "setup_udp_peer g = g\<lparr>udp_peers := map (\<lambda>_. ITC_GATEWAY_NO_ADDR_STRING) (udp_peers g)\<rparr>"

definition setup_broadcast_timer :: "itcgw \<Rightarrow> bool \<times> itcgw" where
  "setup_broadcast_timer g =
     (case gw_sys g of ((fd, _), g) \<Rightarrow> (\<not> fd < 0, g\<lparr>udp_broadcast_timer_fd := fd\<rparr>))"

text \<open>The address of the interface is indeterminate when \<open>ioctl\<close> fails, and used nevertheless.\<close>

definition get_ip_address_from_network_interface :: "itcgw \<Rightarrow> (u32 \<times> itcgw) outcome" where
  "get_ip_address_from_network_interface g =
     (case gw_sys g of ((ioctl, _), g) \<Rightarrow> if ioctl < 0 then Inl Undefined else Inr (gw_eth0 g, g))"

definition setup_tcp_server :: "itcgw \<Rightarrow> (bool \<times> itcgw) outcome" where
  "setup_tcp_server g =
     (case gw_sys g of ((tcpfd, _), g) \<Rightarrow>
      if tcpfd < 0 then Inr (False, g)
      else case socket_calls 1 g of (ok, g) \<Rightarrow>
      if \<not> ok then Inr (False, g)
      else
        bindE (get_ip_address_from_network_interface g) (\<lambda>(ip, g).
        case socket_calls 2 (g\<lparr>tcp_server_addr := ip\<rparr>) of (ok, g) \<Rightarrow>
        Inr (ok, if ok then g\<lparr>tcp_server_fd := tcpfd\<rparr> else g)))"

text \<open>The keys and mutexes of the two threads.\<close>

definition setup_tcp_threads :: "itcgw \<Rightarrow> bool \<times> itcgw" where
  "setup_tcp_threads g =
     (case gw_sys g of ((key1, _), g) \<Rightarrow> if key1 \<noteq> 0 then (False, g)
      else case gw_sys g of ((mtx1, _), g) \<Rightarrow> if mtx1 \<noteq> 0 then (False, g)
      else case gw_sys g of ((key2, _), g) \<Rightarrow> if key2 \<noteq> 0 then (False, g)
      else case gw_sys g of ((mtx2, _), g) \<Rightarrow> (mtx2 = 0, g))"

definition no_peers :: "tcp_peer_info list \<Rightarrow> tcp_peer_info list" where
  "no_peers ps = map (\<lambda>p. p\<lparr>tp_fd := -1, tp_addr := ITC_GATEWAY_NO_ADDR_STRING\<rparr>) ps"

definition setup_tcp_server_mailbox :: "itcgw \<Rightarrow> (bool \<times> itcgw) outcome" where
  "setup_tcp_server_mailbox g =
     bindE (gw_itc (itc_create_mailbox GW_SERVER_THREAD ITC_GATEWAY_MBOX_TCP_SER_NAME ITC_NO_NAMESPACE) g) (\<lambda>(mbox_id, g).
     let g = g\<lparr>tcp_server_mbox_id := mbox_id\<rparr> in
     if mbox_id = ITC_NO_MBOX_ID then Inr (False, g)
     else bindE (gw_itc (itc_get_fd GW_SERVER_THREAD) g) (\<lambda>(fd, g). Inr (True, g\<lparr>tcp_server_mbox_fd := fd\<rparr>)))"

definition setup_tcp_server_peer :: "itcgw \<Rightarrow> itcgw" where
  "setup_tcp_server_peer g = g\<lparr>tcp_server_peers := no_peers (tcp_server_peers g)\<rparr>"

definition setup_tcp_client_mailbox :: "itcgw \<Rightarrow> (bool \<times> itcgw) outcome" where
  "setup_tcp_client_mailbox g =
     bindE (gw_itc (itc_create_mailbox GW_CLIENT_THREAD ITC_GATEWAY_MBOX_TCP_CLI_NAME ITC_NO_NAMESPACE) g) (\<lambda>(mbox_id, g).
     let g = g\<lparr>tcp_client_mbox_id := mbox_id\<rparr> in
     if mbox_id = ITC_NO_MBOX_ID then Inr (False, g)
     else bindE (gw_itc (itc_get_fd GW_CLIENT_THREAD) g) (\<lambda>(fd, g). Inr (True, g\<lparr>tcp_client_mbox_fd := fd\<rparr>)))"

definition setup_tcp_client_peer :: "itcgw \<Rightarrow> itcgw" where
  "setup_tcp_client_peer g = g\<lparr>tcp_client_peers := no_peers (tcp_client_peers g)\<rparr>"

text \<open>
  The start of a thread: the main thread locks a mutex twice, and the new thread releases it when its
  own preparation has succeeded. A thread that gives up before leaves the main thread waiting.
\<close>

definition thread_boot ::
  "(itcgw \<Rightarrow> (bool \<times> itcgw) outcome) \<Rightarrow> (itcgw \<Rightarrow> itcgw) \<Rightarrow> itcgw \<Rightarrow> (bool \<times> itcgw) outcome" where
  "thread_boot mailbox peers g =
     (case gw_sys g of ((prctl, _), g) \<Rightarrow>
      if prctl = -1 then Inr (False, g)
      else
        bindE (mailbox g) (\<lambda>(ok, g).
        if \<not> ok then Inr (False, g)
        else case gw_sys (peers g) of ((setspecific, _), g) \<Rightarrow> Inr (setspecific = 0, g)))"

definition start_thread ::
  "(itcgw \<Rightarrow> (bool \<times> itcgw) outcome) \<Rightarrow> (itcgw \<Rightarrow> itcgw) \<Rightarrow> itcgw \<Rightarrow> (bool \<times> itcgw) outcome" where
  "start_thread mailbox peers g =
     (case gw_sys g of ((create, _), g) \<Rightarrow>
      if create \<noteq> 0 then Inr (False, g)
      else bindE (thread_boot mailbox peers g) (\<lambda>(up, g). if up then Inr (True, g) else Inl Blocked))"

definition start_tcp_server_thread :: "itcgw \<Rightarrow> (bool \<times> itcgw) outcome" where
  "start_tcp_server_thread = start_thread setup_tcp_server_mailbox setup_tcp_server_peer"

definition start_tcp_client_thread :: "itcgw \<Rightarrow> (bool \<times> itcgw) outcome" where
  "start_tcp_client_thread = start_thread setup_tcp_client_mailbox setup_tcp_client_peer"

definition itcgws_config :: "itcgw \<Rightarrow> (bool \<times> itcgw) outcome" where
  "itcgws_config g =
     bindE (gw_setup_rc g) (\<lambda>(ok, g). if \<not> ok then Inr (False, g) else
     bindE (setup_udp_mailbox g) (\<lambda>(ok, g). if \<not> ok then Inr (False, g) else
     case setup_udp_server g of (ok, g) \<Rightarrow> if \<not> ok then Inr (False, g) else
     case setup_broadcast_timer (setup_udp_peer g) of (ok, g) \<Rightarrow> if \<not> ok then Inr (False, g) else
     bindE (setup_tcp_server g) (\<lambda>(ok, g). if \<not> ok then Inr (False, g) else
     case setup_tcp_threads (create_broadcast_message g) of (ok, g) \<Rightarrow> if \<not> ok then Inr (False, g) else
     bindE (start_tcp_server_thread g) (\<lambda>(ok, g). if \<not> ok then Inr (False, g) else
     start_tcp_client_thread g))))"

definition udp_round :: "bool \<Rightarrow> int \<times> int \<Rightarrow> int list \<Rightarrow> itcgw \<Rightarrow> (bool \<times> itcgw) outcome" where
  "udp_round expired now ready g =
     (case check_broadcast_timer expired now ITC_GATEWAY_BROADCAST_INTERVAL g of (checked, g) \<Rightarrow>
      let rd = filter (\<lambda>fd. fd \<in> set ready) [udp_fd g, udp_broadcast_timer_fd g, udp_mbox_fd g] in
      case gw_sys g of ((select, _), g) \<Rightarrow>
      if select < 0 then Inr (False, g)
      else
        bindE (if udp_fd g \<in> set rd then handle_receive_broadcast_msg g else Inr (True, g)) (\<lambda>(ok, g).
        if \<not> ok then Inr (False, g)
        else if udp_mbox_fd g \<in> set rd then handle_receive_itcmsg_at_udp g else Inr (True, g)))"

text \<open>
  The exit handler. Cancelling a thread runs the destructor that deletes its mailbox. The trees are
  destroyed, but not the peers in them, which are in the arrays.
\<close>

definition cancel_thread :: "nat \<Rightarrow> itcgw \<Rightarrow> itcgw outcome" where
  "cancel_thread t g =
     (case gw_sys g of ((cancel, _), g) \<Rightarrow>
      bindE
        (if cancel \<noteq> 0 then Inr g
         else case destruct_data (gw_proc g) t of
           None \<Rightarrow> Inr g
         | Some mbox \<Rightarrow> gw_put (mailbox_destructor_at_thread_exit t mbox) g) (\<lambda>g.
      case gw_sys g of (join, g) \<Rightarrow> Inr g))"

definition itcgw_exit_handler :: "itcgw \<Rightarrow> itcgw outcome" where
  "itcgw_exit_handler g =
     (case gw_sys g of (close1, g) \<Rightarrow>
      case gw_sys g of (close2, g) \<Rightarrow>
      case gw_sys g of (close3, g) \<Rightarrow>
      bindE
        (if udp_mbox_id g \<noteq> ITC_NO_MBOX_ID
         then bindE (gw_itc (itc_delete_mailbox 0 (udp_mbox_id g)) g) (\<lambda>(deleted, g). Inr g) else Inr g) (\<lambda>g.
      bindE (cancel_thread GW_SERVER_THREAD g) (\<lambda>g.
      bindE (cancel_thread GW_CLIENT_THREAD g) (\<lambda>g.
      bindE (gw_itc (itc_exit 0) g) (\<lambda>(exited, g).
      bindE (bfree (gw_rc g)) (\<lambda>rc. Inr (g\<lparr>gw_rc := rc\<rparr>)))))))"

end
