(* ===== verification/Itc_Gw_Peers.thy ===== *)
theory Itc_Gw_Peers
  imports Itc_Gw "HOL-Library.List_Lexorder"
begin

text \<open>
  The peers of the gateway: the invariant of the two tables of connections with their search trees, and
  that every handler keeps it.
\<close>

unbundle bit_operations_syntax

section \<open>The order of strings\<close>

definition skey :: "cstr \<Rightarrow> nat list" where
  "skey s = map unat s"

lemma skey_inj: "skey a = skey b \<longleftrightarrow> a = b"
proof -
  have "inj (unat :: u8 \<Rightarrow> nat)" by (auto intro: injI unsigned_word_eqI)
  then show ?thesis by (simp add: skey_def inj_map_eq_map)
qed

lemma strcmp_skey:
  assumes "is_cstr a" and "is_cstr b"
  shows "strcmp a b < 0 \<longleftrightarrow> skey a < skey b" "strcmp a b = 0 \<longleftrightarrow> a = b"
proof -
  have pos: "b \<noteq> 0 \<Longrightarrow> 0 < uint b" for b :: u8 by (simp add: order_less_le unsigned_eq_0_iff)
  have "(strcmp a b < 0 \<longleftrightarrow> skey a < skey b) \<and> (strcmp a b = 0 \<longleftrightarrow> a = b)"
    using assms
  proof (induction a b rule: strcmp.induct)
    case (2 b bs)
    then show ?case using pos [of b] by (auto simp: is_cstr_def skey_def)
  next
    case (3 a as)
    then show ?case using pos [of a] by (auto simp: is_cstr_def skey_def)
  next
    case (4 a as b bs)
    have "uint a < uint b \<longleftrightarrow> unat a < unat b"
      by (simp flip: nat_uint_eq) (metis order.strict_trans1 unsigned_greater_eq)
    moreover have "uint a = uint b \<longleftrightarrow> a = b" "unat a = unat b \<longleftrightarrow> a = b" by (auto intro: unsigned_word_eqI)
    ultimately show ?case using 4 by (auto simp: skey_def is_cstr_def)
  qed (simp add: skey_def)
  then show "strcmp a b < 0 \<longleftrightarrow> skey a < skey b" "strcmp a b = 0 \<longleftrightarrow> a = b" by blast+
qed

section \<open>Tables of peers\<close>

text \<open>
  An array of peers with a tree: the tree holds the slots in use, ordered by the addresses of the peers.
\<close>

definition table_ok :: "('p \<Rightarrow> cstr) \<Rightarrow> ('p \<Rightarrow> bool) \<Rightarrow> 'p list \<Rightarrow> nat tree \<Rightarrow> bool" where
  "table_ok key free ps t \<longleftrightarrow>
     length ps = ITC_GATEWAY_MAX_PEERS \<and> set_tree t = {i. i < length ps \<and> \<not> free (ps ! i)} \<and>
     keyed (\<lambda>i. skey (key (ps ! i))) t \<and> (\<forall>p \<in> set ps. is_cstr (key p))"

lemma keyed_cong:
  assumes "\<And>i. i \<in> set_tree t \<Longrightarrow> key i = key' i"
  shows "keyed key t \<longleftrightarrow> keyed key' t"
  using assms
proof (induction t)
  case (Node l k r)
  then have "keyed key l \<longleftrightarrow> keyed key' l" "keyed key r \<longleftrightarrow> keyed key' r" by simp_all
  moreover have "key k = key' k" "\<forall>i \<in> set_tree l. key i = key' i" "\<forall>i \<in> set_tree r. key i = key' i"
    using Node.prems by simp_all
  ultimately show ?case by (simp cong: ball_cong)
qed simp

lemma keyed_inj: "keyed key t \<Longrightarrow> inj_on key (set_tree t)"
proof (induction t)
  case (Node l k r)
  have lk: "key i < key k" if "i \<in> set_tree l" for i using Node.prems that by auto
  have kr: "key k < key i" if "i \<in> set_tree r" for i using Node.prems that by auto
  have "key i \<noteq> key k" if "i \<in> set_tree l \<union> set_tree r" for i
    using that lk [of i] kr [of i] by (auto dest: order.strict_implies_not_eq)
  moreover have "key i \<noteq> key j" if "i \<in> set_tree l" "j \<in> set_tree r" for i j
    using order.strict_trans [OF lk [OF that(1)] kr [OF that(2)]] by (rule order.strict_implies_not_eq)
  moreover have "inj_on key (set_tree l)" "inj_on key (set_tree r)" using Node by auto
  ultimately have "inj_on key (insert k (set_tree l \<union> set_tree r))"
    unfolding inj_on_def by (metis Un_iff insert_iff)
  then show ?case by simp
qed simp

text \<open>
  What the arrays share: a comparison of a searched address with the address of a peer. The locale
  gives lookup, entering and leaving.
\<close>

locale peer_table =
  fixes key :: "'p \<Rightarrow> cstr" and free :: "'p \<Rightarrow> bool" and cmp_addr :: "cstr \<Rightarrow> 'p list \<Rightarrow> nat \<Rightarrow> int"
  assumes cmp: "cmp_addr a ps j = strcmp a (key (ps ! j))"
begin

lemma agrees_addr:
  assumes "is_cstr a" and "\<forall>i \<in> set_tree t. is_cstr (key (ps ! i))"
  shows "agrees (cmp_addr a ps) (skey a) (\<lambda>i. skey (key (ps ! i))) t"
  using assms strcmp_skey by (auto simp: agrees_def cmp skey_inj)

lemma table_cstr: "table_ok key free ps t \<Longrightarrow> \<forall>i \<in> set_tree t. is_cstr (key (ps ! i))"
  by (auto simp: table_ok_def)

lemma lookup:
  assumes "table_ok key free ps t" and "is_cstr a"
  shows "tree_lookup (cmp_addr a ps) t = Some i \<longleftrightarrow> i < length ps \<and> \<not> free (ps ! i) \<and> key (ps ! i) = a"
proof -
  have "keyed (\<lambda>i. skey (key (ps ! i))) t" "set_tree t = {i. i < length ps \<and> \<not> free (ps ! i)}"
    using assms(1) by (simp_all add: table_ok_def)
  then show ?thesis
    using tree_lookup_iff [OF _ agrees_addr [OF assms(2) table_cstr [OF assms(1)]]] by (simp add: skey_inj)
qed

lemma unknown:
  assumes "table_ok key free ps t" and "is_cstr a"
  shows "tree_lookup (cmp_addr a ps) t = None \<longleftrightarrow> (\<forall>i < length ps. \<not> free (ps ! i) \<longrightarrow> key (ps ! i) \<noteq> a)"
  using lookup [OF assms] by (metis not_None_eq)

lemma enter:
  assumes ok: "table_ok key free ps t" and i: "i < length ps" "free (ps ! i)" and p: "\<not> free p" "is_cstr (key p)"
    and new: "tree_lookup (cmp_addr (key p) ps) t = None"
  shows "table_ok key free (ps[i := p]) (tree_insert (cmp_addr (key p) (ps[i := p])) i t)"
proof -
  let ?ps = "ps[i := p]" and ?k = "\<lambda>j. skey (key (ps[i := p] ! j))"
  have set: "set_tree t = {j. j < length ps \<and> \<not> free (ps ! j)}" "length ps = ITC_GATEWAY_MAX_PEERS"
      "keyed (\<lambda>j. skey (key (ps ! j))) t" "\<forall>q \<in> set ps. is_cstr (key q)"
    using ok by (simp_all add: table_ok_def)
  have i': "i \<notin> set_tree t" using set(1) i(2) by simp
  then have old: "\<And>j. j \<in> set_tree t \<Longrightarrow> ?ps ! j = ps ! j" by (metis nth_list_update_neq)
  have k: "keyed ?k t" using set(3) old keyed_cong [of t ?k "\<lambda>j. skey (key (ps ! j))"] by simp
  have cs: "\<forall>j \<in> set_tree t. is_cstr (key (?ps ! j))" using table_cstr [OF ok] old by simp
  have ki: "?k i = skey (key p)" using i(1) by simp
  have "agrees (cmp_addr (key p) ?ps) (?k i) ?k t" using agrees_addr [OF p(2) cs] ki by simp
  moreover have "?k i \<notin> ?k ` set_tree t"
    using unknown [OF ok p(2)] new set(1) old ki by (auto simp: skey_inj)
  ultimately have "set_tree (tree_insert (cmp_addr (key p) ?ps) i t) = insert i (set_tree t)"
      "keyed ?k (tree_insert (cmp_addr (key p) ?ps) i t)"
    using tree_insert_ok [OF k, of "cmp_addr (key p) ?ps" i] by blast+
  moreover have "insert i (set_tree t) = {j. j < length ?ps \<and> \<not> free (?ps ! j)}"
    using set(1) i p(1) by (auto simp: nth_list_update)
  moreover have "\<forall>q \<in> set ?ps. is_cstr (key q)" using set(4) p(2) set_update_subset_insert by fastforce
  ultimately show ?thesis using set(2) by (simp add: table_ok_def)
qed

lemma leave:
  assumes ok: "table_ok key free ps t" and i: "i \<in> set_tree t" and p: "free p" "key p = key (ps ! i)"
  shows "table_ok key free (ps[i := p]) (tree_remove (cmp_addr (key p) (ps[i := p])) t)"
proof -
  let ?ps = "ps[i := p]" and ?k = "\<lambda>j. skey (key (ps[i := p] ! j))"
  have set: "set_tree t = {j. j < length ps \<and> \<not> free (ps ! j)}" "length ps = ITC_GATEWAY_MAX_PEERS"
      "keyed (\<lambda>j. skey (key (ps ! j))) t" "\<forall>q \<in> set ps. is_cstr (key q)"
    using ok by (simp_all add: table_ok_def)
  have il: "i < length ps" using i set(1) by simp
  have same: "key (?ps ! j) = key (ps ! j)" for j using p(2) il by (cases "j = i") simp_all
  have cs: "\<forall>j \<in> set_tree t. is_cstr (key (?ps ! j))" using table_cstr [OF ok] same by simp
  have ci: "is_cstr (key p)" using p(2) set(4) il by simp
  have rm: "set_tree (tree_remove (cmp_addr (key p) ?ps) t) = {j \<in> set_tree t. ?k j \<noteq> skey (key p)}"
      "keyed ?k (tree_remove (cmp_addr (key p) ?ps) t)"
    using tree_remove_ok [OF _ agrees_addr [OF ci cs]] set(3) same by simp_all
  have "?k j \<noteq> skey (key p) \<longleftrightarrow> j \<noteq> i" if "j \<in> set_tree t" for j
    using keyed_inj [OF set(3)] i that same p(2) by (auto simp: inj_on_def)
  then have "{j \<in> set_tree t. ?k j \<noteq> skey (key p)} = set_tree t - {i}" by blast
  also have "\<dots> = {j. j < length ?ps \<and> \<not> free (?ps ! j)}" using set(1) p(1) il by (auto simp: nth_list_update)
  finally have "set_tree (tree_remove (cmp_addr (key p) ?ps) t) = {j. j < length ?ps \<and> \<not> free (?ps ! j)}"
    using rm(1) by simp
  moreover have "\<forall>q \<in> set ?ps. is_cstr (key q)" using set(4) ci set_update_subset_insert by fastforce
  ultimately show ?thesis using rm(2) set(2) by (simp add: table_ok_def)
qed

lemma change_free_slot:
  assumes "table_ok key free ps t" and "free (ps ! i)" and "free p" and "is_cstr (key p)"
  shows "table_ok key free (ps[i := p]) t"
proof (cases "i < length ps")
  case True
  have set: "set_tree t = {j. j < length ps \<and> \<not> free (ps ! j)}" "length ps = ITC_GATEWAY_MAX_PEERS"
      "keyed (\<lambda>j. skey (key (ps ! j))) t" "\<forall>q \<in> set ps. is_cstr (key q)"
    using assms(1) by (simp_all add: table_ok_def)
  have "i \<notin> set_tree t" using set(1) assms(2) by simp
  then have old: "\<And>j. j \<in> set_tree t \<Longrightarrow> ps[i := p] ! j = ps ! j" by (metis nth_list_update_neq)
  then have "keyed (\<lambda>j. skey (key (ps[i := p] ! j))) t"
    using set(3) keyed_cong [of t "\<lambda>j. skey (key (ps[i := p] ! j))" "\<lambda>j. skey (key (ps ! j))"] by simp
  moreover have "\<And>j. free (ps[i := p] ! j) \<longleftrightarrow> free (ps ! j)" using assms(2,3) True by (metis nth_list_update_eq nth_list_update_neq)
  then have "set_tree t = {j. j < length ps \<and> \<not> free (ps[i := p] ! j)}" using set(1) by simp
  moreover have "\<forall>q \<in> set (ps[i := p]). is_cstr (key q)" using set(4) assms(4) set_update_subset_insert by fastforce
  ultimately show ?thesis using set(2) by (simp add: table_ok_def)
next
  case False
  then have "ps[i := p] = ps" by (simp add: list_update_beyond)
  then show ?thesis using assms(1) by simp
qed

end

interpretation tcp: peer_table tp_addr "\<lambda>p. tp_fd p = -1" compare_addr_tcp_tree
  by unfold_locales (simp add: compare_addr_tcp_tree_def)

interpretation udp: peer_table "\<lambda>a. a" "\<lambda>a. strcmp a ITC_GATEWAY_NO_ADDR_STRING = 0"
  compare_addr_udp_tree
  by unfold_locales (simp add: compare_addr_udp_tree_def)

section \<open>What the operations leave alone\<close>

named_theorems gw_frame \<open>how an operation changes the state of the gateway\<close>

lemma gw_sys_frame [gw_frame]: "gw_sys g = (r, g') \<Longrightarrow> \<exists>p. g' = g\<lparr>gw_proc := p\<rparr>"
  by (auto simp: gw_sys_def split: prod.splits)

lemma gw_malloc_frame [gw_frame]: "gw_malloc g = (ok, g') \<Longrightarrow> \<exists>p. g' = g\<lparr>gw_proc := p\<rparr>"
  by (auto simp: gw_malloc_def split: prod.splits)

lemma gw_itc_frame [gw_frame]: "gw_itc f g = Inr (r, g') \<Longrightarrow> \<exists>p. g' = g\<lparr>gw_proc := p\<rparr>"
  by (auto simp: gw_itc_def outcome_simps)

lemma gw_put_frame [gw_frame]: "gw_put f g = Inr g' \<Longrightarrow> \<exists>p. g' = g\<lparr>gw_proc := p\<rparr>"
  by (auto simp: gw_put_def outcome_simps)

lemma recv_some_frame [gw_frame]: "recv_some fd n g = (len, d, g') \<Longrightarrow> \<exists>i. g' = g\<lparr>gw_in := i\<rparr>"
proof -
  assume "recv_some fd n g = (len, d, g')"
  then have "g' = g\<lparr>gw_in := gw_in g'\<rparr>" by (auto simp: recv_some_def split: list.splits sum.splits)
  then show ?thesis by blast
qed

lemma recv_data_frame [gw_frame]: "recv_data fd n g = (len, d, g') \<Longrightarrow> \<exists>i. g' = g\<lparr>gw_in := i\<rparr>"
proof (induction fd n g arbitrary: len d g' rule: recv_data.induct)
  case (1 fd n g)
  obtain len1 d1 g1 where s: "recv_some fd n g = (len1, d1, g1)" by (cases "recv_some fd n g") auto
  then obtain i where g1: "g1 = g\<lparr>gw_in := i\<rparr>" using recv_some_frame by blast
  show ?case
  proof (cases "len1 \<le> 0 \<or> n \<le> nat len1")
    case True
    then show ?thesis using 1(2) s g1 by (auto simp: recv_data.simps [of fd n g] split: if_splits)
  next
    case False
    obtain len2 d2 g2 where r: "recv_data fd (n - nat len1) g1 = (len2, d2, g2)"
      by (cases "recv_data fd (n - nat len1) g1") auto
    then obtain i' where "g2 = g1\<lparr>gw_in := i'\<rparr>" using 1(1) [OF s [symmetric]] False by auto
    then show ?thesis using 1(2) s g1 r False by (auto simp: recv_data.simps [of fd n g] split: if_splits)
  qed
qed

lemma recv_payload_frame [gw_frame]: "recv_payload fd n g = Inr (len, d, g') \<Longrightarrow> \<exists>i. g' = g\<lparr>gw_in := i\<rparr>"
  by (auto simp: recv_payload_def dest!: recv_data_frame split: if_splits)

lemma notify_add_peer_frame [gw_frame]:
  "notify_add_peer addr ns g = Inr (ok, g') \<Longrightarrow> \<exists>p. g' = g\<lparr>gw_proc := p\<rparr>"
  by (auto simp: notify_add_peer_def outcome_simps dest!: gw_frame split: if_splits)

lemma handle_udp_get_namespace_request_frame [gw_frame]:
  "handle_udp_get_namespace_request m g = Inr (ok, g') \<Longrightarrow> \<exists>p. g' = g\<lparr>gw_proc := p\<rparr>"
  by (auto simp: handle_udp_get_namespace_request_def outcome_simps dest!: gw_frame split: if_splits)

lemma reply_to_coord_frame [gw_frame]: "reply_to_coord m ns g = Inr (ok, g') \<Longrightarrow> \<exists>p. g' = g\<lparr>gw_proc := p\<rparr>"
  by (auto simp: reply_to_coord_def outcome_simps dest!: gw_frame split: if_splits)

text \<open>Operations that do more, but do not touch a table.\<close>

definition same_peers :: "itcgw \<Rightarrow> itcgw \<Rightarrow> bool" where
  "same_peers g g' \<longleftrightarrow>
     udp_peers g' = udp_peers g \<and> udp_tree g' = udp_tree g \<and>
     tcp_server_peers g' = tcp_server_peers g \<and> tcp_server_tree g' = tcp_server_tree g \<and>
     tcp_client_peers g' = tcp_client_peers g \<and> tcp_client_tree g' = tcp_client_tree g"

lemma same_peers_refl [simp]: "same_peers g g"
  by (simp add: same_peers_def)

lemma handle_receive_data_fwd_same: "handle_receive_data_fwd fd n g = Inr (ok, g') \<Longrightarrow> same_peers g g'"
  by (auto simp: handle_receive_data_fwd_def same_peers_def outcome_simps dest!: gw_frame split: if_splits)

lemma gw_send_locate_mbox_reply_same: "gw_send_locate_mbox_reply fd m g = (ok, g') \<Longrightarrow> same_peers g g'"
  by (auto simp: gw_send_locate_mbox_reply_def same_peers_def dest!: gw_frame split: prod.splits if_splits)

lemma ask_peers_same: "ask_peers packet is g = (n, g') \<Longrightarrow> same_peers g g'"
proof (induction packet "is" g arbitrary: n g' rule: ask_peers.induct)
  case (2 packet i "is" g)
  obtain res e g1 where s: "gw_sys g = ((res, e), g1)" by (metis prod.exhaust)
  then obtain p where g1: "g1 = g\<lparr>gw_proc := p\<rparr>" using gw_sys_frame by blast
  let ?fd = "tp_fd (tcp_client_peers g ! i)"
  obtain n2 g2 where a: "ask_peers packet is (g1\<lparr>gw_tcp_sent := gw_tcp_sent g1 @ [(?fd, packet)]\<rparr>) = (n2, g2)"
    by (metis prod.exhaust)
  consider "?fd = -1" | "?fd \<noteq> -1" "res < 0" | "?fd \<noteq> -1" "\<not> res < 0" by blast
  then show ?case
  proof cases
    case 1
    then show ?thesis using 2(1) 2(4) by (simp add: Let_def)
  next
    case 2
    then have "ask_peers packet is g1 = (n, g')" using \<open>ask_peers packet (i # is) g = (n, g')\<close> s by (simp add: Let_def)
    then have "same_peers g1 g'" using "2.IH"(2) [OF refl _ s [symmetric] refl] 2 by simp
    then show ?thesis using g1 by (simp add: same_peers_def)
  next
    case 3
    then have "g' = g2" using \<open>ask_peers packet (i # is) g = (n, g')\<close> s a by (simp add: Let_def)
    moreover have "same_peers (g1\<lparr>gw_tcp_sent := gw_tcp_sent g1 @ [(?fd, packet)]\<rparr>) g2"
      using "2.IH"(3) [OF refl _ s [symmetric] refl] 3 a by simp
    ultimately show ?thesis using g1 by (simp add: same_peers_def)
  qed
qed simp

section \<open>The tables of the two threads\<close>

abbreviation tcp_table_ok :: "tcp_peer_info list \<Rightarrow> nat tree \<Rightarrow> bool" where
  "tcp_table_ok \<equiv> table_ok tp_addr (\<lambda>p. tp_fd p = -1)"

definition tcp_ok :: "itcgw \<Rightarrow> bool" where
  "tcp_ok g \<longleftrightarrow> tcp_table_ok (tcp_server_peers g) (tcp_server_tree g) \<and>
     tcp_table_ok (tcp_client_peers g) (tcp_client_tree g)"

lemma same_peers_tcp_ok: "same_peers g g' \<Longrightarrow> tcp_ok g' \<longleftrightarrow> tcp_ok g"
  by (simp add: same_peers_def tcp_ok_def)

lemma compare_peer_tcp: "compare_peer_tcp_tree i ps = compare_addr_tcp_tree (tp_addr (ps ! i)) ps"
  by (simp add: fun_eq_iff compare_peer_tcp_tree_def compare_addr_tcp_tree_def)

lemma is_cstr_snprintf [simp]: "is_cstr s \<Longrightarrow> is_cstr (snprintf n s)"
  by (auto simp: is_cstr_def snprintf_def dest: in_set_takeD)

lemma is_cstr_dec [simp]: "is_cstr (dec n)"
  using dec_digits digit_facts by (auto simp: is_cstr_def)

lemma is_cstr_inet_ntoa [simp]: "is_cstr (inet_ntoa a)"
  using inet_ntoa_chars [of 0 a] digit_facts by (auto simp: is_cstr_def)

lemma is_cstr_peer_addr [simp]: "is_cstr ip \<Longrightarrow> is_cstr (peer_addr ip port)"
  using is_cstr_dec [of "unat port"] by (auto simp: peer_addr_def is_cstr_def ascii_def)

lemma is_cstr_no_addr [simp]: "is_cstr ITC_GATEWAY_NO_ADDR_STRING"
  by (simp add: ITC_GATEWAY_NO_ADDR_STRING_def is_cstr_def ascii_def)

lemma usr_cstr_is_cstr: "usr_cstr off msg p = Inr s \<Longrightarrow> is_cstr s"
  by (auto simp: usr_cstr_def cstr_at_def is_cstr_def outcome_simps split: if_splits dest: set_takeWhileD)

lemma find_free_slot:
  assumes "find (\<lambda>i. P (ps ! i)) [0..<ITC_GATEWAY_MAX_PEERS] = Some i" and "length ps = ITC_GATEWAY_MAX_PEERS"
  shows "i < length ps \<and> P (ps ! i)"
  using assms by (auto simp: find_Some_iff simp del: upt_rec_numeral ITC_GATEWAY_MAX_PEERS_def)

lemma drop_peer_ok:
  assumes "tcp_table_ok ps t" and "drop_peer fd ps t = Some (i, ps', t')"
  shows "tcp_table_ok ps' t'" "i \<in> set_tree t" "tp_fd (ps ! i) = fd" "ps' = ps[i := (ps ! i)\<lparr>tp_fd := -1\<rparr>]"
    "i < length ps"
proof -
  let ?p = "(ps ! i)\<lparr>tp_fd := -1\<rparr>"
  have l: "tree_lookup (compare_sockfd_tcp_tree fd ps) t = Some i" and ps': "ps' = ps[i := ?p]"
    and t': "t' = tree_remove (compare_addr_tcp_tree (tp_addr (ps' ! i)) ps') t"
    using assms(2) by (auto simp: drop_peer_def Let_def split: option.splits)
  show i: "i \<in> set_tree t" and "tp_fd (ps ! i) = fd"
    using tree_lookup_in [OF l] by (auto simp: compare_sockfd_tcp_tree_def split: if_splits)
  show il: "i < length ps" using i assms(1) by (simp add: table_ok_def)
  show "ps' = ps[i := ?p]" by (rule ps')
  have "t' = tree_remove (compare_addr_tcp_tree (tp_addr ?p) (ps[i := ?p])) t" using t' ps' il by simp
  then show "tcp_table_ok ps' t'" using tcp.leave [OF assms(1) i, of ?p] ps' by simp
qed

text \<open>Each operation keeps the tables in order.\<close>

lemma handle_accept_new_connection_ok:
  assumes "tcp_ok g" and "handle_accept_new_connection g = (ok, g')"
  shows "tcp_ok g'"
proof -
  obtain new_fd errno g1 where s: "gw_sys g = ((new_fd, errno), g1)" by (metis prod.exhaust)
  then obtain p where g1: "g1 = g\<lparr>gw_proc := p\<rparr>" using gw_sys_frame by blast
  define ip where "ip = (case gw_accepts g of [] \<Rightarrow> 0 | a # _ \<Rightarrow> a)"
  define addr where "addr = snprintf 30 (peer_addr (inet_ntoa ip) ITC_GATEWAY_TCP_LISTENING_PORT)"
  let ?ps = "tcp_server_peers g" and ?t = "tcp_server_tree g"
  have ok: "tcp_table_ok ?ps ?t" using assms(1) by (simp add: tcp_ok_def)
  have a: "is_cstr addr" by (simp add: addr_def)
  show ?thesis
  proof (cases "new_fd < 0 \<or> tree_lookup (compare_addr_tcp_tree addr ?ps) ?t \<noteq> None \<or>
      find (\<lambda>i. tp_fd (?ps ! i) = -1) [0..<ITC_GATEWAY_MAX_PEERS] = None")
    case True
    then have "same_peers g g'" using assms(2) s g1
      unfolding handle_accept_new_connection_def
      by (auto simp: Let_def same_peers_def ip_def [symmetric] addr_def [symmetric]
            simp del: upt_rec_numeral ITC_GATEWAY_MAX_PEERS_def ITC_GATEWAY_TCP_LISTENING_PORT_def split: if_splits)
    then show ?thesis using assms(1) same_peers_tcp_ok by simp
  next
    case False
    then obtain i where i: "find (\<lambda>i. tp_fd (?ps ! i) = -1) [0..<ITC_GATEWAY_MAX_PEERS] = Some i" by blast
    then have il: "i < length ?ps" "tp_fd (?ps ! i) = -1"
      using find_free_slot [OF i] ok by (simp_all add: table_ok_def)
    let ?p = "(?ps ! i)\<lparr>tp_addr := addr, tp_fd := new_fd\<rparr>"
    have g': "tcp_server_peers g' = ?ps[i := ?p]"
      "tcp_server_tree g' = tree_insert (compare_peer_tcp_tree i (?ps[i := ?p])) i ?t"
      "tcp_client_peers g' = tcp_client_peers g" "tcp_client_tree g' = tcp_client_tree g"
      using assms(2) s g1 False i unfolding handle_accept_new_connection_def
      by (auto simp: Let_def ip_def [symmetric] addr_def [symmetric]
            simp del: upt_rec_numeral ITC_GATEWAY_MAX_PEERS_def ITC_GATEWAY_TCP_LISTENING_PORT_def)
    have "tcp_table_ok (?ps[i := ?p]) (tree_insert (compare_addr_tcp_tree addr (?ps[i := ?p])) i ?t)"
      using tcp.enter [OF ok il, of ?p] False a by simp
    then show ?thesis using g' il(1) assms(1) by (simp add: tcp_ok_def compare_peer_tcp)
  qed
qed

lemma delete_tcp_peer_resource_ok:
  assumes "tcp_ok g" and "delete_tcp_peer_resource fd g = Inr (ok, g')"
  shows "tcp_ok g'"
proof (cases "drop_peer fd (tcp_server_peers g) (tcp_server_tree g)")
  case None
  then show ?thesis using assms by (simp add: delete_tcp_peer_resource_def)
next
  case (Some r)
  obtain i ps t where r: "r = (i, ps, t)" by (metis prod.exhaust)
  have tab: "tcp_table_ok (tcp_server_peers g) (tcp_server_tree g)" using assms(1) by (simp add: tcp_ok_def)
  note d = drop_peer_ok [OF tab Some [unfolded r]]
  let ?p = "(ps ! i)\<lparr>tp_addr := ITC_GATEWAY_NO_ADDR_STRING\<rparr>"
  have "tcp_server_tree g' = t \<and> tcp_client_peers g' = tcp_client_peers g \<and> tcp_client_tree g' = tcp_client_tree g \<and>
      (tcp_server_peers g' = ps \<or> tcp_server_peers g' = ps[i := ?p])"
    using assms(2) Some r
    by (auto simp: delete_tcp_peer_resource_def Let_def outcome_simps dest!: gw_frame split: if_splits)
  moreover have "tcp_table_ok (ps[i := ?p]) t"
    using tcp.change_free_slot [OF d(1), of i ?p] d(4,5) by simp
  ultimately show ?thesis using assms(1) d(1) by (auto simp: tcp_ok_def)
qed

lemma handle_tcp_client_rmv_peer_ok:
  assumes "tcp_ok g" and "handle_tcp_client_rmv_peer fd g = (ok, g')"
  shows "tcp_ok g'"
proof (cases "drop_peer fd (tcp_client_peers g) (tcp_client_tree g)")
  case None
  then show ?thesis using assms by (simp add: handle_tcp_client_rmv_peer_def)
next
  case (Some r)
  obtain i ps t where r: "r = (i, ps, t)" by (metis prod.exhaust)
  have tab: "tcp_table_ok (tcp_client_peers g) (tcp_client_tree g)" using assms(1) by (simp add: tcp_ok_def)
  note d = drop_peer_ok [OF tab Some [unfolded r]]
  let ?p = "(ps ! i)\<lparr>tp_addr := ITC_GATEWAY_NO_ADDR_STRING\<rparr>"
  have "tcp_client_tree g' = t \<and> tcp_server_peers g' = tcp_server_peers g \<and> tcp_server_tree g' = tcp_server_tree g \<and>
      tcp_client_peers g' = ps[i := ?p]"
    using assms(2) Some r by (auto simp: handle_tcp_client_rmv_peer_def outcome_simps dest!: gw_frame)
  moreover have "tcp_table_ok (ps[i := ?p]) t"
    using tcp.change_free_slot [OF d(1), of i ?p] d(4,5) by simp
  ultimately show ?thesis using assms(1) by (auto simp: tcp_ok_def)
qed

lemma handle_tcp_client_add_peer_spec:
  assumes "handle_tcp_client_add_peer addr ns g = Inr (ok, g')"
  shows "same_peers g g' \<or>
    (\<exists>i fd. tree_lookup (compare_addr_tcp_tree addr (tcp_client_peers g)) (tcp_client_tree g) = None \<and>
       find (\<lambda>i. tp_fd (tcp_client_peers g ! i) = -1) [0..<ITC_GATEWAY_MAX_PEERS] = Some i \<and> 0 \<le> fd \<and>
       tcp_server_peers g' = tcp_server_peers g \<and> tcp_server_tree g' = tcp_server_tree g \<and>
       tcp_client_peers g' = (tcp_client_peers g)[i := \<lparr>tp_addr = addr, tp_fd = fd, tp_namespace = ns\<rparr>] \<and>
       tcp_client_tree g' = tree_insert (compare_peer_tcp_tree i (tcp_client_peers g')) i (tcp_client_tree g))"
proof -
  let ?vals = "sscanf addr addr_format" and ?ps = "tcp_client_peers g"
  obtain new_fd e1 g1 where s1: "gw_sys g = ((new_fd, e1), g1)" by (metis prod.exhaust)
  then obtain p1 where g1: "g1 = g\<lparr>gw_proc := p1\<rparr>" using gw_sys_frame by blast
  show ?thesis
  proof (cases "tree_lookup (compare_addr_tcp_tree addr ?ps) (tcp_client_tree g) \<noteq> None \<or> new_fd < 0")
    case True
    then have "g' = g \<or> g' = g1" using assms s1
      by (auto simp: handle_tcp_client_add_peer_def Let_def split: if_splits)
    then show ?thesis using g1 by (auto simp: same_peers_def)
  next
    case False
    then obtain ip port where v: "?vals = [Str ip, Num port]" using assms s1
      by (auto simp: handle_tcp_client_add_peer_def Let_def split: if_splits list.splits scan_val.splits)
    obtain conn e2 g2 where s2: "gw_sys (g1\<lparr>gw_connects := gw_connects g1 @ [(ip, port)]\<rparr>) = ((conn, e2), g2)"
      by (metis prod.exhaust)
    then obtain p2 where g2: "g2 = g1\<lparr>gw_connects := gw_connects g1 @ [(ip, port)], gw_proc := p2\<rparr>"
      using gw_sys_frame by blast
    obtain close g3 where s3: "gw_sys g2 = (close, g3)" by (metis prod.exhaust)
    then obtain p3 where g3: "g3 = g2\<lparr>gw_proc := p3\<rparr>" using gw_sys_frame by blast
    show ?thesis
    proof (cases "conn < 0 \<or> find (\<lambda>i. tp_fd (?ps ! i) = -1) [0..<ITC_GATEWAY_MAX_PEERS] = None")
      case True
      then have "g' = g3 \<or> g' = g2" using assms False v s1 s2 s3
        by (auto simp: handle_tcp_client_add_peer_def Let_def simp del: upt_rec_numeral ITC_GATEWAY_MAX_PEERS_def
            split: if_splits)
      then show ?thesis using g1 g2 g3 by (auto simp: same_peers_def)
    next
      case inner: False
      then obtain i where i: "find (\<lambda>i. tp_fd (?ps ! i) = -1) [0..<ITC_GATEWAY_MAX_PEERS] = Some i" by blast
      let ?ps' = "?ps[i := \<lparr>tp_addr = addr, tp_fd = new_fd, tp_namespace = ns\<rparr>]"
      have "g' = g2\<lparr>tcp_client_peers := ?ps',
          tcp_client_tree := tree_insert (compare_peer_tcp_tree i ?ps') i (tcp_client_tree g2)\<rparr>"
        using assms False inner i v s1 s2
        by (simp add: handle_tcp_client_add_peer_def Let_def
            del: upt_rec_numeral ITC_GATEWAY_MAX_PEERS_def split: if_splits)
      then show ?thesis using False i g1 g2 by (intro disjI2 exI [of _ i] exI [of _ new_fd]) simp
    qed
  qed
qed

lemma handle_tcp_client_add_peer_ok:
  assumes "tcp_ok g" and "is_cstr addr" and r: "handle_tcp_client_add_peer addr ns g = Inr (ok, g')"
  shows "tcp_ok g'"
proof -
  let ?ps = "tcp_client_peers g" and ?t = "tcp_client_tree g"
  consider "same_peers g g'"
    | i fd where "tree_lookup (compare_addr_tcp_tree addr ?ps) ?t = None" "0 \<le> fd"
        "find (\<lambda>i. tp_fd (?ps ! i) = -1) [0..<ITC_GATEWAY_MAX_PEERS] = Some i"
        "tcp_server_peers g' = tcp_server_peers g" "tcp_server_tree g' = tcp_server_tree g"
        "tcp_client_peers g' = ?ps[i := \<lparr>tp_addr = addr, tp_fd = fd, tp_namespace = ns\<rparr>]"
        "tcp_client_tree g' = tree_insert (compare_peer_tcp_tree i (tcp_client_peers g')) i ?t"
    using handle_tcp_client_add_peer_spec [OF r] by blast
  then show ?thesis
  proof cases
    case 1
    then show ?thesis using assms(1) same_peers_tcp_ok by simp
  next
    case (2 i fd)
    have tab: "tcp_table_ok ?ps ?t" using assms(1) by (simp add: tcp_ok_def)
    then have il: "i < length ?ps" "tp_fd (?ps ! i) = -1"
      using find_free_slot [OF 2(3)] by (simp_all add: table_ok_def)
    show ?thesis
      using tcp.enter [OF tab il, of "\<lparr>tp_addr = addr, tp_fd = fd, tp_namespace = ns\<rparr>"] 2 il(1) assms(1,2)
      by (simp add: tcp_ok_def compare_peer_tcp)
  qed
qed

lemma tcp_ok_proc [simp]:
  "tcp_ok (g\<lparr>gw_proc := p\<rparr>) = tcp_ok g" "tcp_ok (g\<lparr>gw_in := i\<rparr>) = tcp_ok g"
  "tcp_ok (g\<lparr>gw_accepts := a\<rparr>) = tcp_ok g" "tcp_ok (g\<lparr>gw_itccoord_mbox_id := m\<rparr>) = tcp_ok g"
  "tcp_ok (g\<lparr>udp_peers := u\<rparr>) = tcp_ok g" "tcp_ok (g\<lparr>udp_tree := t\<rparr>) = tcp_ok g"
  "tcp_ok (g\<lparr>gw_udp_sent := x\<rparr>) = tcp_ok g" "tcp_ok (g\<lparr>udp_broadcast_timer := y\<rparr>) = tcp_ok g"
  "tcp_ok (g\<lparr>gw_tcp_sent := z\<rparr>) = tcp_ok g"
  by (simp_all add: tcp_ok_def)

lemma same_peers_upd [simp]:
  "same_peers g (g\<lparr>gw_proc := p\<rparr>)" "same_peers g (g\<lparr>gw_in := i\<rparr>)" "same_peers g (g\<lparr>gw_in := i, gw_proc := p\<rparr>)"
  "same_peers g (g\<lparr>gw_proc := p, gw_tcp_sent := x\<rparr>)"
  by (simp_all add: same_peers_def)

lemma same_peers_trans: "same_peers g g1 \<Longrightarrow> same_peers g1 g2 \<Longrightarrow> same_peers g g2"
  by (simp add: same_peers_def)

lemma recv_payload_same: "recv_payload fd n g = Inr (len, d, g') \<Longrightarrow> same_peers g g'"
  using recv_payload_frame by fastforce

lemma reply_to_coord_same: "reply_to_coord m ns g = Inr (ok, g') \<Longrightarrow> same_peers g g'"
  using reply_to_coord_frame by fastforce

lemma handle_receive_locate_mbox_same:
  assumes r: "handle_receive_locate_mbox evs fd n g = Inr (ok, g')"
  shows "same_peers g g'"
proof -
  obtain len d g1 where p: "recv_payload fd n g = Inr (len, d, g1)"
    using r by (auto simp: handle_receive_locate_mbox_def outcome_simps)
  have "g' = g1 \<or> (\<exists>p. g' = g1\<lparr>gw_proc := p\<rparr>) \<or> (\<exists>p m. gw_send_locate_mbox_reply fd m (g1\<lparr>gw_proc := p\<rparr>) = (ok, g'))"
    using r p by (auto simp: handle_receive_locate_mbox_def outcome_simps Let_def split: if_splits)
  then have "same_peers g1 g'" using gw_send_locate_mbox_reply_same same_peers_trans same_peers_upd(1) same_peers_refl by metis
  then show ?thesis using recv_payload_same [OF p] same_peers_trans by blast
qed

lemma handle_receive_locate_mbox_reply_same:
  assumes r: "handle_receive_locate_mbox_reply fd n g = Inr (ok, g')"
  shows "same_peers g g'"
proof -
  obtain len d g1 where p: "recv_payload fd n g = Inr (len, d, g1)"
    using r by (auto simp: handle_receive_locate_mbox_reply_def outcome_simps)
  have "g' = g1 \<or> (\<exists>m ns. reply_to_coord m ns g1 = Inr (ok, g'))"
    using r p by (auto simp: handle_receive_locate_mbox_reply_def outcome_simps split: if_splits option.splits)
  then have "same_peers g1 g'" using reply_to_coord_same same_peers_refl by blast
  then show ?thesis using recv_payload_same [OF p] same_peers_trans by blast
qed

lemma handle_fwd_data_out_same: "handle_fwd_data_out msg g = Inr (ok, g') \<Longrightarrow> same_peers g g'"
  by (auto simp: handle_fwd_data_out_def outcome_simps same_peers_def
      dest!: gw_malloc_frame gw_sys_frame split: if_splits option.splits)

lemma handle_locate_mbox_request_same:
  assumes r: "handle_locate_mbox_request msg g = Inr (ok, g')"
  shows "same_peers g g'"
proof -
  obtain rep g1 where m: "gw_malloc g = (rep, g1)" by (metis prod.exhaust)
  then have g1: "same_peers g g1" using gw_malloc_frame by fastforce
  have "g' = g1 \<or> (\<exists>packet is n g2. ask_peers packet is g1 = (n, g2) \<and>
      (g' = g2 \<or> (\<exists>m ns. reply_to_coord m ns g2 = Inr (ok, g'))))"
    using r m by (auto simp: handle_locate_mbox_request_def outcome_simps simp del: upt_rec_numeral ITC_GATEWAY_MAX_PEERS_def
        split: if_splits)
  then show ?thesis using g1 ask_peers_same reply_to_coord_same same_peers_trans same_peers_refl by metis
qed

lemma handle_receive_tcp_packet_at_server_ok:
  assumes "tcp_ok g" and r: "handle_receive_tcp_packet_at_server evs fd g = Inr (ok, g')"
  shows "tcp_ok g'"
proof -
  obtain len d g1 where d: "recv_data fd GWH_SIZE g = (len, d, g1)" by (metis prod.exhaust)
  then obtain i where "g1 = g\<lparr>gw_in := i\<rparr>" using recv_data_frame by blast
  then have g1: "tcp_ok g1" using assms(1) by simp
  show ?thesis
  proof (cases "len = 0")
    case True
    then show ?thesis using r d g1 delete_tcp_peer_resource_ok
      by (auto simp: handle_receive_tcp_packet_at_server_def outcome_simps simp del: GWH_SIZE_def)
  next
    case False
    then have "same_peers g1 g'" using r d
      by (auto simp: handle_receive_tcp_packet_at_server_def outcome_simps simp del: GWH_SIZE_def
          dest: handle_receive_data_fwd_same handle_receive_locate_mbox_same split: if_splits)
    then show ?thesis using g1 same_peers_tcp_ok by simp
  qed
qed

lemma handle_receive_tcp_packet_at_client_ok:
  assumes "tcp_ok g" and r: "handle_receive_tcp_packet_at_client fd g = Inr (ok, g')"
  shows "tcp_ok g'"
proof -
  obtain len d g1 where d: "recv_data fd GWH_SIZE g = (len, d, g1)" by (metis prod.exhaust)
  then obtain i where "g1 = g\<lparr>gw_in := i\<rparr>" using recv_data_frame by blast
  then have g1: "tcp_ok g1" using assms(1) by simp
  show ?thesis
  proof (cases "len = 0")
    case True
    then have "g' = snd (handle_tcp_client_rmv_peer fd g1)" using r d
      by (simp add: handle_receive_tcp_packet_at_client_def del: GWH_SIZE_def)
    then show ?thesis using handle_tcp_client_rmv_peer_ok [OF g1, of fd] by (metis prod.collapse)
  next
    case False
    then have "same_peers g1 g'" using r d
      by (auto simp: handle_receive_tcp_packet_at_client_def outcome_simps simp del: GWH_SIZE_def
          dest: handle_receive_locate_mbox_reply_same split: if_splits)
    then show ?thesis using g1 same_peers_tcp_ok by simp
  qed
qed

lemma serve_server_peers_ok:
  "tcp_ok g \<Longrightarrow> serve_server_peers evs rd is g = Inr (ok, g') \<Longrightarrow> tcp_ok g'"
proof (induction "is" arbitrary: g)
  case (Cons i "is")
  let ?fd = "tp_fd (tcp_server_peers g ! i)"
  show ?case
  proof (cases "?fd \<noteq> -1 \<and> ?fd \<in> set rd")
    case True
    then obtain ok1 g1 where h: "handle_receive_tcp_packet_at_server evs ?fd g = Inr (ok1, g1)"
      using Cons.prems(2) by (auto simp: Let_def outcome_simps)
    then have "tcp_ok g1" using handle_receive_tcp_packet_at_server_ok Cons.prems(1) by blast
    then show ?thesis using Cons.IH [of g1] Cons.prems(2) h True by (simp add: Let_def split: if_splits)
  next
    case False
    then show ?thesis using Cons.IH [of g] Cons.prems by (simp only: serve_server_peers.simps Let_def if_False)
  qed
qed simp

lemma serve_client_peers_ok:
  "tcp_ok g \<Longrightarrow> serve_client_peers rd is g = Inr (ok, g') \<Longrightarrow> tcp_ok g'"
proof (induction "is" arbitrary: g)
  case (Cons i "is")
  let ?fd = "tp_fd (tcp_client_peers g ! i)"
  show ?case
  proof (cases "?fd \<noteq> -1 \<and> ?fd \<in> set rd")
    case True
    then obtain ok1 g1 where h: "handle_receive_tcp_packet_at_client ?fd g = Inr (ok1, g1)"
      using Cons.prems(2) by (auto simp: Let_def outcome_simps)
    then have "tcp_ok g1" using handle_receive_tcp_packet_at_client_ok Cons.prems(1) by blast
    then show ?thesis using Cons.IH [of g1] Cons.prems(2) h True by (simp add: Let_def split: if_splits)
  next
    case False
    then show ?thesis using Cons.IH [of g] Cons.prems by (simp only: serve_client_peers.simps Let_def if_False)
  qed
qed simp

lemma handle_receive_itcmsg_at_client_ok:
  assumes "tcp_ok g" and r: "handle_receive_itcmsg_at_client g = Inr (ok, g')"
  shows "tcp_ok g'"
proof -
  obtain msg g1 where m: "gw_itc (itc_receive GW_CLIENT_THREAD ITC_NO_WAIT []) g = Inr (msg, g1)"
    using r by (auto simp: handle_receive_itcmsg_at_client_def outcome_simps)
  then have g1: "tcp_ok g1" using assms(1) by (auto dest!: gw_itc_frame)
  have add: "tcp_ok g2" if "handle_tcp_client_add_peer addr ns g1 = Inr (b, g2)" "usr_cstr UAP_ADDR msg (gw_proc g1) = Inr addr"
    for addr ns b g2 using handle_tcp_client_add_peer_ok [OF g1 usr_cstr_is_cstr that(1)] that(2) by blast
  have fwd: "tcp_ok g2" if "handle_fwd_data_out msg g1 = Inr (b, g2)" for b g2
    using handle_fwd_data_out_same [OF that] g1 same_peers_tcp_ok by simp
  have req: "tcp_ok g2" if "handle_locate_mbox_request msg (g1\<lparr>gw_itccoord_mbox_id := c\<rparr>) = Inr (b, g2)" for b c g2
    using handle_locate_mbox_request_same [OF that] g1 same_peers_tcp_ok tcp_ok_proc by metis
  show ?thesis
    using r m g1 add fwd req unfolding handle_receive_itcmsg_at_client_def
    by (auto simp: outcome_simps simp del: UAP_ADDR_def dest!: gw_itc_frame split: if_splits)
qed

end
