(* ===== verification/Itc_Gw_Run.thy ===== *)
theory Itc_Gw_Run
  imports Itc_Gw_Peers
begin

text \<open>
  The running gateway: what its three threads do, in any order, and the properties of its tables of
  peers in every state that it can reach.
\<close>

unbundle bit_operations_syntax

section \<open>The main thread leaves the connections alone\<close>

lemma send_broadcast_ok: "send_broadcast g = (ok, g') \<Longrightarrow> tcp_ok g' \<longleftrightarrow> tcp_ok g"
  by (auto simp: send_broadcast_def dest!: gw_sys_frame split: prod.splits if_splits)

lemma check_broadcast_timer_ok:
  assumes "check_broadcast_timer expired now interval g = (ok, g')"
  shows "tcp_ok g' \<longleftrightarrow> tcp_ok g"
proof -
  obtain r1 e1 g1 where 1: "gw_sys g = ((r1, e1), g1)" by (metis prod.exhaust)
  obtain r2 e2 g2 where 2: "gw_sys g1 = ((r2, e2), g2)" by (metis prod.exhaust)
  have "tcp_ok g1 = tcp_ok g" "tcp_ok g2 = tcp_ok g1" using 1 2 gw_sys_frame tcp_ok_proc(1) by metis+
  moreover have "g' = g1 \<or> g' = g2 \<or>
      (\<exists>ok. send_broadcast (g2\<lparr>udp_broadcast_timer := (fst now + interval, snd now)\<rparr>) = (ok, g'))"
    using assms 1 2 by (auto simp: check_broadcast_timer_def split: if_splits)
  ultimately show ?thesis using send_broadcast_ok tcp_ok_proc(8) by metis
qed

lemma handle_receive_broadcast_msg_ok:
  assumes "tcp_ok g" and r: "handle_receive_broadcast_msg g = Inr (ok, g')"
  shows "tcp_ok g'"
proof -
  obtain res e d p where c: "recv_call (gw_proc g) = ((res, e), d, p)" by (metis prod.exhaust)
  let ?g1 = "g\<lparr>gw_proc := p\<rparr>"
  have "g' = ?g1 \<or> (\<exists>u t addr ns ok2 g2. notify_add_peer addr ns (?g1\<lparr>udp_peers := u, udp_tree := t\<rparr>) = Inr (ok2, g2) \<and>
      (g' = g2 \<or> (\<exists>b. send_broadcast g2 = (b, g'))))"
    using r c unfolding handle_receive_broadcast_msg_def
    by (auto simp: Let_def outcome_simps simp del: upt_rec_numeral ITC_GATEWAY_MAX_PEERS_def split: if_splits option.splits)
      blast+
  then show ?thesis using assms(1) send_broadcast_ok by (auto dest!: notify_add_peer_frame)
qed

lemma handle_udp_rmv_peer_ok: "tcp_ok (snd (handle_udp_rmv_peer addr g)) \<longleftrightarrow> tcp_ok g"
  by (simp add: handle_udp_rmv_peer_def Let_def split: option.splits)

lemma handle_receive_itcmsg_at_udp_ok:
  assumes "tcp_ok g" and r: "handle_receive_itcmsg_at_udp g = Inr (ok, g')"
  shows "tcp_ok g'"
proof -
  obtain msg g1 where m: "gw_itc (itc_receive 0 ITC_NO_WAIT []) g = Inr (msg, g1)"
    using r by (auto simp: handle_receive_itcmsg_at_udp_def outcome_simps)
  then have g1: "tcp_ok g1" using assms(1) by (auto dest!: gw_itc_frame)
  have nsr: "tcp_ok g2" if "handle_udp_get_namespace_request i g1 = Inr (b, g2)" for i b g2
    using handle_udp_get_namespace_request_frame [OF that] g1 by auto
  show ?thesis
  proof (cases "msg = None")
    case True
    then show ?thesis using r m g1 by (simp add: handle_receive_itcmsg_at_udp_def)
  next
    case False
    let ?act = "\<lambda>msgno.
         if msgno = ITCGW_UDP_RMV_PEER then
            bindE (usr_cstr URP_ADDR msg (gw_proc g1)) (\<lambda>addr. Inr (snd (handle_udp_rmv_peer addr g1)))
          else if msgno = ITC_GET_NAMESPACE_REQUEST then
            bindE (usr_get32 GNQ_MBOX_ID msg (gw_proc g1)) (\<lambda>mbox_id.
            bindE (handle_udp_get_namespace_request mbox_id g1) (\<lambda>(ok, g). Inr g))
          else Inr g1"
    have "bindE (usr_get32 0 msg (gw_proc g1)) (\<lambda>msgno. bindE (?act msgno) (\<lambda>g.
        bindE (gw_itc (itc_free 0 msg) g) (\<lambda>(freed, g). Inr (True, g)))) = Inr (ok, g')"
      using r m False by (simp only: handle_receive_itcmsg_at_udp_def bindE.simps prod.case if_False)
    then obtain msgno g2 freed where act: "?act msgno = Inr g2" and free: "gw_itc (itc_free 0 msg) g2 = Inr (freed, g')"
      by (simp only: outcome_simps) blast
    have "g2 = g1 \<or> (\<exists>addr. g2 = snd (handle_udp_rmv_peer addr g1)) \<or>
        (\<exists>i b. handle_udp_get_namespace_request i g1 = Inr (b, g2))"
    proof (cases "msgno = ITCGW_UDP_RMV_PEER")
      case True
      then have "bindE (usr_cstr URP_ADDR msg (gw_proc g1)) (\<lambda>addr. Inr (snd (handle_udp_rmv_peer addr g1))) = Inr g2"
        using act by (simp only: if_True simp_thms)
      then show ?thesis unfolding outcome_simps by blast
    next
      case not_rmv: False
      show ?thesis
      proof (cases "msgno = ITC_GET_NAMESPACE_REQUEST")
        case True
        then have "bindE (usr_get32 GNQ_MBOX_ID msg (gw_proc g1)) (\<lambda>mbox_id.
            bindE (handle_udp_get_namespace_request mbox_id g1) (\<lambda>(ok, g). Inr g)) = Inr g2"
          using act not_rmv by (simp only: if_True if_False simp_thms)
        then show ?thesis unfolding outcome_simps by blast
      next
        case False
        then show ?thesis using act not_rmv by (simp only: if_False sum.inject) blast
      qed
    qed
    then have "tcp_ok g2" using g1 nsr by (auto simp: handle_udp_rmv_peer_ok)
    then show ?thesis using free by (auto dest!: gw_itc_frame)
  qed
qed

section \<open>Rounds of the three threads\<close>

lemma udp_round_ok:
  assumes "tcp_ok g" and r: "udp_round expired now ready g = Inr (ok, g')"
  shows "tcp_ok g'"
proof -
  obtain b g1 where 1: "check_broadcast_timer expired now ITC_GATEWAY_BROADCAST_INTERVAL g = (b, g1)" by (metis prod.exhaust)
  then have "tcp_ok g1" using check_broadcast_timer_ok assms(1) by blast
  moreover obtain res e g2 where 2: "gw_sys g1 = ((res, e), g2)" by (metis prod.exhaust)
  ultimately have g2: "tcp_ok g2" using gw_sys_frame tcp_ok_proc(1) by metis
  let ?rd = "filter (\<lambda>fd. fd \<in> set ready) [udp_fd g1, udp_broadcast_timer_fd g1, udp_mbox_fd g1]"
  show ?thesis
  proof (cases "res < 0")
    case True
    then show ?thesis using r 1 2 g2 by (simp add: udp_round_def Let_def del: ITC_GATEWAY_BROADCAST_INTERVAL_def)
  next
    case False
    then obtain b3 g3 where 3: "(if udp_fd g2 \<in> set ?rd then handle_receive_broadcast_msg g2 else Inr (True, g2)) = Inr (b3, g3)"
      and r3: "(if \<not> b3 then Inr (False, g3)
        else if udp_mbox_fd g3 \<in> set ?rd then handle_receive_itcmsg_at_udp g3 else Inr (True, g3)) = Inr (ok, g')"
      using r unfolding udp_round_def Let_def
      by (simp only: 1 2 prod.case if_False outcome_simps) blast
    have g3: "tcp_ok g3" using 3 g2 handle_receive_broadcast_msg_ok by (simp only: split: if_splits) auto
    then show ?thesis using r3 handle_receive_itcmsg_at_udp_ok by (cases b3) (simp_all only: simp_thms if_True if_False split: if_splits, auto)
  qed
qed

lemma server_round_ok:
  assumes "tcp_ok g" and r: "server_round ready evs g = Inr (ok, g')"
  shows "tcp_ok g'"
proof -
  obtain res e g1 where 1: "gw_sys g = ((res, e), g1)" by (metis prod.exhaust)
  then have g1: "tcp_ok g1" using gw_sys_frame tcp_ok_proc(1) assms(1) by metis
  let ?rd = "filter (\<lambda>fd. fd \<in> set ready) (tcp_server_fd g # peer_fds (tcp_server_peers g))"
  obtain b g2 where 2: "(if tcp_server_fd g1 \<in> set ?rd then handle_accept_new_connection g1 else (True, g1)) = (b, g2)"
    by (metis prod.exhaust)
  then have g2: "tcp_ok g2" using g1 handle_accept_new_connection_ok by (auto split: if_splits)
  have "(if res < 0 then Inr (False, g1) else if \<not> b then Inr (False, g2)
      else serve_server_peers evs ?rd [0..<ITC_GATEWAY_MAX_PEERS] g2) = Inr (ok, g')"
    using r by (simp only: server_round_def Let_def 1 prod.case 2)
  then have "g' = g1 \<or> g' = g2 \<or> serve_server_peers evs ?rd [0..<ITC_GATEWAY_MAX_PEERS] g2 = Inr (ok, g')"
    by (cases "res < 0"; cases b) (simp_all del: upt_rec_numeral ITC_GATEWAY_MAX_PEERS_def)
  then show ?thesis using g1 g2 serve_server_peers_ok by blast
qed

lemma client_round_ok:
  assumes "tcp_ok g" and r: "client_round ready g = Inr (ok, g')"
  shows "tcp_ok g'"
proof -
  obtain res e g1 where 1: "gw_sys g = ((res, e), g1)" by (metis prod.exhaust)
  then have g1: "tcp_ok g1" using gw_sys_frame tcp_ok_proc(1) assms(1) by metis
  let ?rd = "filter (\<lambda>fd. fd \<in> set ready) (tcp_client_mbox_fd g # peer_fds (tcp_client_peers g))"
  show ?thesis
  proof (cases "res < 0")
    case True
    then show ?thesis using r 1 g1 by (simp add: client_round_def Let_def del: upt_rec_numeral ITC_GATEWAY_MAX_PEERS_def)
  next
    case False
    then obtain b g2 where 2: "(if tcp_client_mbox_fd g1 \<in> set ?rd then handle_receive_itcmsg_at_client g1 else Inr (True, g1)) = Inr (b, g2)"
      and r2: "(if \<not> b then Inr (False, g2) else serve_client_peers ?rd [0..<ITC_GATEWAY_MAX_PEERS] g2) = Inr (ok, g')"
      using r 1 unfolding client_round_def Let_def
      by (simp only: 1 prod.case if_False outcome_simps) blast
    have "tcp_ok g2" using 2 g1 handle_receive_itcmsg_at_client_ok by (simp split: if_splits)
    then show ?thesis using r2 serve_client_peers_ok by (cases b) (simp_all del: upt_rec_numeral ITC_GATEWAY_MAX_PEERS_def)
  qed
qed

section \<open>Start\<close>

text \<open>How the steps of the start change the tables of the connections.\<close>

lemma no_peers_ok: "length ps = ITC_GATEWAY_MAX_PEERS \<Longrightarrow> tcp_table_ok (no_peers ps) Leaf"
  by (auto simp: table_ok_def no_peers_def nth_map)

definition same_tcp :: "itcgw \<Rightarrow> itcgw \<Rightarrow> bool" where
  "same_tcp g g' \<longleftrightarrow>
     tcp_server_peers g' = tcp_server_peers g \<and> tcp_server_tree g' = tcp_server_tree g \<and>
     tcp_client_peers g' = tcp_client_peers g \<and> tcp_client_tree g' = tcp_client_tree g"

lemma same_tcp_trans: "same_tcp g g1 \<Longrightarrow> same_tcp g1 g2 \<Longrightarrow> same_tcp g g2"
  by (simp add: same_tcp_def)

lemma same_tcp_sys: "gw_sys g = (r, g') \<Longrightarrow> same_tcp g g'"
  by (auto simp: same_tcp_def dest!: gw_sys_frame)

lemma same_tcp_itc: "gw_itc f g = Inr (r, g') \<Longrightarrow> same_tcp g g'"
  by (auto simp: same_tcp_def dest!: gw_itc_frame)

lemma socket_calls_tcp: "socket_calls n g = (ok, g') \<Longrightarrow> same_tcp g g'"
proof (induction n g arbitrary: ok g' rule: socket_calls.induct)
  case (2 n g)
  obtain res e g1 where 1: "gw_sys g = ((res, e), g1)" by (metis prod.exhaust)
  obtain c g2 where 3: "gw_sys g1 = (c, g2)" by (metis prod.exhaust)
  show ?case
  proof (cases "res < 0")
    case True
    then have "g' = g2" using 2(2) 1 3 by simp
    then show ?thesis using same_tcp_trans [OF same_tcp_sys [OF 1] same_tcp_sys [OF 3]] by simp
  next
    case False
    then have "socket_calls n g1 = (ok, g')" using 2(2) 1 by simp
    then show ?thesis using 2(1) [OF 1 [symmetric] refl False] same_tcp_trans [OF same_tcp_sys [OF 1]] by blast
  qed
qed (simp add: same_tcp_def)

lemma gw_setup_rc_tcp: "gw_setup_rc g = Inr (ok, g') \<Longrightarrow> same_tcp g g'"
  by (auto simp: gw_setup_rc_def same_tcp_def outcome_simps dest!: gw_malloc_frame split: if_splits prod.splits)

lemma bind_pair_Inr:
  "bindE m (\<lambda>(a, g). Inr (b a, h a g)) = Inr (ok, g') \<Longrightarrow> \<exists>a g. m = Inr (a, g) \<and> g' = h a g"
  by (auto simp: outcome_simps)

lemma setup_udp_mailbox_tcp:
  assumes r: "setup_udp_mailbox g = Inr (ok, g')"
  shows "same_tcp g g'"
proof -
  obtain b g1 where 1: "gw_itc (itc_init 0 4 True 0) g = Inr (b, g1)"
    using r unfolding setup_udp_mailbox_def outcome_simps by blast
  have s1: "same_tcp g g1" using same_tcp_itc [OF 1] .
  show ?thesis
  proof (cases b)
    case False
    then have "g' = g1" using r unfolding setup_udp_mailbox_def by (simp only: 1 bindE.simps prod.case simp_thms if_True) simp
    then show ?thesis using s1 by simp
  next
    case True
    obtain i g2 where 2: "gw_itc (itc_create_mailbox 0 ITC_GATEWAY_MBOX_UDP_NAME ITC_NO_NAMESPACE) g1 = Inr (i, g2)"
      and r2: "(if i = ITC_NO_MBOX_ID then bindE (gw_itc (itc_exit 0) (g2\<lparr>udp_mbox_id := i\<rparr>)) (\<lambda>(exited, g). Inr (False, g))
        else bindE (gw_itc (itc_get_fd 0) (g2\<lparr>udp_mbox_id := i\<rparr>)) (\<lambda>(fd, g). Inr (True, g\<lparr>udp_mbox_fd := fd\<rparr>))) = Inr (ok, g')"
      using r True unfolding setup_udp_mailbox_def Let_def
      by (simp only: 1 bindE.simps prod.case simp_thms if_False outcome_simps) blast
    obtain g3 where g3: "same_tcp (g2\<lparr>udp_mbox_id := i\<rparr>) g3" and g': "g' = g3 \<or> (\<exists>fd. g' = g3\<lparr>udp_mbox_fd := fd\<rparr>)"
    proof (cases "i = ITC_NO_MBOX_ID")
      case True
      then have "bindE (gw_itc (itc_exit 0) (g2\<lparr>udp_mbox_id := i\<rparr>)) (\<lambda>(exited, g). Inr (False, g)) = Inr (ok, g')"
        using r2 by simp
      from bind_pair_Inr [OF this] obtain e where "gw_itc (itc_exit 0) (g2\<lparr>udp_mbox_id := i\<rparr>) = Inr (e, g')"
        by (elim exE conjE) simp
      from that [OF same_tcp_itc [OF this]] show thesis by simp
    next
      case False
      then have "bindE (gw_itc (itc_get_fd 0) (g2\<lparr>udp_mbox_id := i\<rparr>)) (\<lambda>(fd, g). Inr (True, g\<lparr>udp_mbox_fd := fd\<rparr>)) = Inr (ok, g')"
        using r2 by simp
      from bind_pair_Inr [OF this] obtain fd g3
        where "gw_itc (itc_get_fd 0) (g2\<lparr>udp_mbox_id := i\<rparr>) = Inr (fd, g3)" "g' = g3\<lparr>udp_mbox_fd := fd\<rparr>"
        by (elim exE conjE)
      from that [OF same_tcp_itc [OF this(1)]] this(2) show thesis by blast
    qed
    show ?thesis using s1 same_tcp_itc [OF 2] g3 g' by (auto simp: same_tcp_def)
  qed
qed

lemma setup_udp_server_tcp: "setup_udp_server g = (ok, g') \<Longrightarrow> same_tcp g g'"
proof -
  assume r: "setup_udp_server g = (ok, g')"
  obtain fd e g1 where 1: "gw_sys g = ((fd, e), g1)" by (metis prod.exhaust)
  have "g' = g1\<lparr>udp_fd := fd\<rparr> \<or> socket_calls 3 (g1\<lparr>udp_fd := fd\<rparr>) = (ok, g')"
    using r 1 by (cases "fd < 0") (simp_all add: setup_udp_server_def Let_def del: socket_calls.simps)
  then have "same_tcp (g1\<lparr>udp_fd := fd\<rparr>) g'"
  proof
    assume "g' = g1\<lparr>udp_fd := fd\<rparr>"
    then show ?thesis by (simp add: same_tcp_def)
  qed (rule socket_calls_tcp)
  then show ?thesis using same_tcp_sys [OF 1] by (simp add: same_tcp_def)
qed

lemma setup_tcp_server_tcp:
  assumes r: "setup_tcp_server g = Inr (ok, g')"
  shows "same_tcp g g'"
proof -
  obtain fd e g1 where 1: "gw_sys g = ((fd, e), g1)" by (metis prod.exhaust)
  obtain b g2 where 2: "socket_calls 1 g1 = (b, g2)" by (metis prod.exhaust)
  obtain res e3 g3 where 3: "gw_sys g2 = ((res, e3), g3)" by (metis prod.exhaust)
  obtain b4 g4 where 4: "socket_calls 2 (g3\<lparr>tcp_server_addr := gw_eth0 g3\<rparr>) = (b4, g4)" by (metis prod.exhaust)
  have "g' = g1 \<or> g' = g2 \<or> g' = g4 \<or> g' = g4\<lparr>tcp_server_fd := fd\<rparr>"
  proof (cases "fd < 0 \<or> \<not> b \<or> res < 0")
    case True
    then show ?thesis using r
      by (simp only: setup_tcp_server_def get_ip_address_from_network_interface_def 1 2 3 prod.case) (auto split: if_splits)
  next
    case False
    then show ?thesis using r
      by (simp only: setup_tcp_server_def get_ip_address_from_network_interface_def 1 2 3 4 prod.case if_False bindE.simps
          simp_thms) (auto simp: 4 split: if_splits)
  qed
  moreover have "same_tcp g g1" using same_tcp_sys [OF 1] .
  moreover have "same_tcp g1 g2" using socket_calls_tcp [OF 2] .
  moreover have "same_tcp g2 g3" using same_tcp_sys [OF 3] .
  moreover have "same_tcp g3 g4" using socket_calls_tcp [OF 4] by (simp add: same_tcp_def)
  ultimately show ?thesis by (auto simp: same_tcp_def)
qed

lemma setup_tcp_threads_tcp: "setup_tcp_threads g = (ok, g') \<Longrightarrow> same_tcp g g'"
  by (auto simp: setup_tcp_threads_def same_tcp_def dest!: gw_sys_frame split: prod.splits if_splits)

lemma start_thread_ok:
  assumes r: "start_thread mailbox peers g = Inr (True, g')"
    and mb: "\<And>g ok g'. mailbox g = Inr (ok, g') \<Longrightarrow> same_tcp g g'"
  shows "\<exists>g1 g2. same_tcp g g1 \<and> g2 = peers g1 \<and> same_tcp g2 g'"
proof -
  obtain c e g1 where 1: "gw_sys g = ((c, e), g1)" by (metis prod.exhaust)
  obtain up where boot: "thread_boot mailbox peers g1 = Inr (up, g')" "up"
    using r 1 by (auto simp: start_thread_def outcome_simps split: if_splits)
  obtain q e2 g2 where 2: "gw_sys g1 = ((q, e2), g2)" by (metis prod.exhaust)
  obtain b g3 where 3: "mailbox g2 = Inr (b, g3)" "b"
    using boot 2 by (auto simp: thread_boot_def outcome_simps split: if_splits)
  obtain s e4 where 4: "gw_sys (peers g3) = ((s, e4), g')"
    using boot 2 3 by (auto simp: thread_boot_def outcome_simps split: if_splits prod.splits)
  have "same_tcp g g3" using same_tcp_sys [OF 1] same_tcp_sys [OF 2] mb [OF 3(1)] same_tcp_trans by blast
  then show ?thesis using same_tcp_sys [OF 4] by blast
qed

lemma setup_tcp_server_mailbox_tcp: "setup_tcp_server_mailbox g = Inr (ok, g') \<Longrightarrow> same_tcp g g'"
  unfolding setup_tcp_server_mailbox_def Let_def
  by (auto simp: outcome_simps same_tcp_def simp del: GW_SERVER_THREAD_def dest!: gw_itc_frame split: if_splits)

lemma setup_tcp_client_mailbox_tcp: "setup_tcp_client_mailbox g = Inr (ok, g') \<Longrightarrow> same_tcp g g'"
  unfolding setup_tcp_client_mailbox_def Let_def
  by (auto simp: outcome_simps same_tcp_def simp del: GW_CLIENT_THREAD_def dest!: gw_itc_frame split: if_splits)

definition peers_set_up :: "itcgw \<Rightarrow> bool" where
  "peers_set_up g \<longleftrightarrow>
     tcp_server_peers g = no_peers (tcp_server_peers g) \<and> length (tcp_server_peers g) = ITC_GATEWAY_MAX_PEERS \<and>
     tcp_client_peers g = no_peers (tcp_client_peers g) \<and> length (tcp_client_peers g) = ITC_GATEWAY_MAX_PEERS \<and>
     tcp_server_tree g = Leaf \<and> tcp_client_tree g = Leaf"

lemma no_peers_idem: "no_peers (no_peers ps) = no_peers ps"
  by (simp add: no_peers_def)

lemma next_setup_step:
  "bindE m (\<lambda>(ok, g). if \<not> ok then Inr (False, g) else f g) = Inr (True, g') \<Longrightarrow>
     \<exists>g1. m = Inr (True, g1) \<and> f g1 = Inr (True, g')"
  "(case r of (ok, g) \<Rightarrow> if \<not> ok then Inr (False, g) else f g) = Inr (True, g') \<Longrightarrow>
     \<exists>g1. r = (True, g1) \<and> f g1 = Inr (True, g')"
  by (auto simp: outcome_simps split: if_splits)

lemma itcgws_config_peers:
  assumes "itcgws_config (itcgw0 ns eth0 p) = Inr (True, g)"
  shows "peers_set_up g"
proof -
  let ?g0 = "itcgw0 ns eth0 p"
  obtain g1 g2 g3 g4 g5 g6 g7 where 1: "gw_setup_rc ?g0 = Inr (True, g1)"
    and 2: "setup_udp_mailbox g1 = Inr (True, g2)" and 3: "setup_udp_server g2 = (True, g3)"
    and 4: "setup_broadcast_timer (setup_udp_peer g3) = (True, g4)" and 5: "setup_tcp_server g4 = Inr (True, g5)"
    and 6: "setup_tcp_threads (create_broadcast_message g5) = (True, g6)"
    and 7: "start_tcp_server_thread g6 = Inr (True, g7)" and 8: "start_tcp_client_thread g7 = Inr (True, g)"
    using assms unfolding itcgws_config_def by (auto dest!: next_setup_step)
  have "same_tcp ?g0 g1" "same_tcp g1 g2" "same_tcp g2 g3"
    using gw_setup_rc_tcp [OF 1] setup_udp_mailbox_tcp [OF 2] setup_udp_server_tcp [OF 3] .
  moreover have "same_tcp g3 g4" using 4
    by (auto simp: setup_broadcast_timer_def setup_udp_peer_def same_tcp_def dest!: gw_sys_frame split: prod.splits)
  moreover have "same_tcp g4 g5" using setup_tcp_server_tcp [OF 5] .
  moreover have "same_tcp g5 g6" using setup_tcp_threads_tcp [OF 6] by (simp add: same_tcp_def create_broadcast_message_def)
  ultimately have s6: "same_tcp ?g0 g6" using same_tcp_trans by blast
  obtain a b where a: "same_tcp g6 a" "b = setup_tcp_server_peer a" "same_tcp b g7"
    using start_thread_ok [OF 7 [unfolded start_tcp_server_thread_def]] setup_tcp_server_mailbox_tcp by metis
  obtain c d where c: "same_tcp g7 c" "d = setup_tcp_client_peer c" "same_tcp d g"
    using start_thread_ok [OF 8 [unfolded start_tcp_client_thread_def]] setup_tcp_client_mailbox_tcp by metis
  have "tcp_server_peers g = no_peers (tcp_server_peers ?g0)" "tcp_server_tree g = Leaf"
    "tcp_client_peers g = no_peers (tcp_client_peers ?g0)" "tcp_client_tree g = Leaf"
    using s6 a c by (simp_all add: same_tcp_def setup_tcp_server_peer_def setup_tcp_client_peer_def itcgw0_def)
  then show ?thesis by (simp add: peers_set_up_def no_peers_idem itcgw0_def) (simp add: no_peers_def)
qed

section \<open>Reachable states\<close>

text \<open>
  The rounds of the three threads in any order. Between them messages, packets and connections arrive,
  and other threads of the library run. The tables of a thread are used by no other thread.
\<close>

inductive gw_reachable :: "itcgw \<Rightarrow> bool" where
  start: "peers_set_up g \<Longrightarrow> gw_reachable g"
| world: "gw_reachable g \<Longrightarrow> gw_reachable (g\<lparr>gw_proc := p, gw_in := i, gw_accepts := a\<rparr>)"
| udp: "gw_reachable g \<Longrightarrow> udp_round expired now ready g = Inr (ok, g') \<Longrightarrow> gw_reachable g'"
| server: "gw_reachable g \<Longrightarrow> server_round ready evs g = Inr (ok, g') \<Longrightarrow> gw_reachable g'"
| client: "gw_reachable g \<Longrightarrow> client_round ready g = Inr (ok, g') \<Longrightarrow> gw_reachable g'"

lemma config_reachable: "itcgws_config (itcgw0 ns eth0 p) = Inr (True, g) \<Longrightarrow> gw_reachable g"
  by (rule gw_reachable.start) (rule itcgws_config_peers)

lemma reachable_tcp_ok: "gw_reachable g \<Longrightarrow> tcp_ok g"
proof (induction rule: gw_reachable.induct)
  case (start g)
  have "tcp_table_ok (tcp_server_peers g) Leaf" "tcp_table_ok (tcp_client_peers g) Leaf"
    using start no_peers_ok unfolding peers_set_up_def by metis+
  then show ?case using start unfolding peers_set_up_def tcp_ok_def by metis
next
  case (world g p i a)
  then show ?case by (simp add: tcp_ok_def)
qed (rule udp_round_ok server_round_ok client_round_ok; assumption)+

text \<open>Who is connected to the server, by address.\<close>

definition connected :: "tcp_peer_info list \<Rightarrow> nat set" where
  "connected ps = {i. i < length ps \<and> tp_fd (ps ! i) \<noteq> -1}"

definition fd_of :: "tcp_peer_info list \<Rightarrow> nat tree \<Rightarrow> cstr \<Rightarrow> int option" where
  "fd_of ps t addr = map_option (\<lambda>i. tp_fd (ps ! i)) (tree_lookup (compare_addr_tcp_tree addr ps) t)"

lemma table_set: "tcp_table_ok ps t \<Longrightarrow> set_tree t = connected ps"
  by (simp add: table_ok_def connected_def)

lemma fd_of_eq:
  assumes "tcp_table_ok ps t" and "is_cstr a"
  shows "fd_of ps t a = Some fd \<longleftrightarrow> (\<exists>i \<in> connected ps. tp_addr (ps ! i) = a \<and> tp_fd (ps ! i) = fd)"
  using tcp.lookup [OF assms] by (auto simp: fd_of_def connected_def)

text \<open>
  C13. In every state that the running gateway reaches, the search by address in the tables of
  connections is exact: it finds a slot if and only if the slot is in use for that address.
\<close>

theorem search_by_address_is_exact:
  assumes "gw_reachable g" and "is_cstr addr"
  shows "(tree_lookup (compare_addr_tcp_tree addr (tcp_server_peers g)) (tcp_server_tree g) = Some i \<longleftrightarrow>
      i < ITC_GATEWAY_MAX_PEERS \<and> tp_fd (tcp_server_peers g ! i) \<noteq> -1 \<and> tp_addr (tcp_server_peers g ! i) = addr) \<and>
    (tree_lookup (compare_addr_tcp_tree addr (tcp_client_peers g)) (tcp_client_tree g) = Some i \<longleftrightarrow>
      i < ITC_GATEWAY_MAX_PEERS \<and> tp_fd (tcp_client_peers g ! i) \<noteq> -1 \<and> tp_addr (tcp_client_peers g ! i) = addr)"
  using reachable_tcp_ok [OF assms(1)] tcp.lookup [OF _ assms(2)] by (simp_all add: tcp_ok_def table_ok_def)

lemma free_slot_found:
  assumes "i < ITC_GATEWAY_MAX_PEERS" and "P i"
  shows "\<exists>j. find P [0..<ITC_GATEWAY_MAX_PEERS] = Some j \<and> j < ITC_GATEWAY_MAX_PEERS \<and> P j"
proof (cases "find P [0..<ITC_GATEWAY_MAX_PEERS]")
  case None
  then show ?thesis using assms by (simp add: find_None_iff del: upt_rec_numeral ITC_GATEWAY_MAX_PEERS_def)
next
  case (Some j)
  then show ?thesis
    using find_Some_iff [of P "[0..<ITC_GATEWAY_MAX_PEERS]" j]
    by (auto simp del: upt_rec_numeral ITC_GATEWAY_MAX_PEERS_def)
qed

definition accept_addr :: "u32 \<Rightarrow> cstr" where
  "accept_addr ip = snprintf 30 (peer_addr (inet_ntoa ip) ITC_GATEWAY_TCP_LISTENING_PORT)"

lemma accept_addr_cstr [simp]: "is_cstr (accept_addr ip)"
  by (simp add: accept_addr_def)

lemma accept_enters:
  assumes ok: "tcp_ok g" and s: "gw_sys g = ((fd, e), g1)" "0 \<le> fd" and a: "gw_accepts g = ip # rest"
    and new: "fd_of (tcp_server_peers g) (tcp_server_tree g) (accept_addr ip) = None"
    and free: "i < ITC_GATEWAY_MAX_PEERS" "tp_fd (tcp_server_peers g ! i) = -1"
  shows "\<exists>j g'. j < length (tcp_server_peers g) \<and> tp_fd (tcp_server_peers g ! j) = -1 \<and>
    handle_accept_new_connection g = (True, g') \<and>
    tcp_server_peers g' = (tcp_server_peers g)[j := (tcp_server_peers g ! j)\<lparr>tp_addr := accept_addr ip, tp_fd := fd\<rparr>] \<and>
    tcp_client_peers g' = tcp_client_peers g \<and> tcp_client_tree g' = tcp_client_tree g \<and>
    gw_in g' = gw_in g \<and> tcp_server_fd g' = tcp_server_fd g"
proof -
  let ?ps = "tcp_server_peers g"
  obtain p where g1: "g1 = g\<lparr>gw_proc := p\<rparr>" using gw_sys_frame [OF s(1)] by blast
  obtain j where j: "find (\<lambda>i. tp_fd (?ps ! i) = -1) [0..<ITC_GATEWAY_MAX_PEERS] = Some j"
      "j < ITC_GATEWAY_MAX_PEERS" "tp_fd (?ps ! j) = -1"
    using free_slot_found [of i "\<lambda>i. tp_fd (?ps ! i) = -1"] free by blast
  let ?ps' = "?ps[j := (?ps ! j)\<lparr>tp_addr := accept_addr ip, tp_fd := fd\<rparr>]"
  have "tree_lookup (compare_addr_tcp_tree (accept_addr ip) ?ps) (tcp_server_tree g) = None"
    using new by (simp add: fd_of_def)
  then have "handle_accept_new_connection g = (True, g1\<lparr>gw_accepts := rest, tcp_server_peers := ?ps',
      tcp_server_tree := tree_insert (compare_peer_tcp_tree j ?ps') j (tcp_server_tree g)\<rparr>)"
    unfolding handle_accept_new_connection_def accept_addr_def
    using s j(1) a g1
    by (simp add: Let_def del: upt_rec_numeral ITC_GATEWAY_MAX_PEERS_def ITC_GATEWAY_TCP_LISTENING_PORT_def)
  moreover have "length ?ps = ITC_GATEWAY_MAX_PEERS" using ok by (simp add: tcp_ok_def table_ok_def)
  ultimately show ?thesis using j g1 by auto
qed

text \<open>
  A connection from a host that is not yet connected: the server then finds the new descriptor under
  the address of the host, and everything else as before.
\<close>

theorem connection_is_recorded:
  assumes "gw_reachable g" and "gw_sys g = ((fd, e), g1)" and "0 \<le> fd" and "gw_accepts g = ip # rest"
    and "fd_of (tcp_server_peers g) (tcp_server_tree g) (accept_addr ip) = None"
    and "i < ITC_GATEWAY_MAX_PEERS" and "tp_fd (tcp_server_peers g ! i) = -1"
  shows "\<exists>g'. handle_accept_new_connection g = (True, g') \<and>
    (\<forall>a. is_cstr a \<longrightarrow>
       fd_of (tcp_server_peers g') (tcp_server_tree g') a =
         ((fd_of (tcp_server_peers g) (tcp_server_tree g))(accept_addr ip \<mapsto> fd)) a) \<and>
    tcp_client_peers g' = tcp_client_peers g \<and> tcp_client_tree g' = tcp_client_tree g"
proof -
  let ?ps = "tcp_server_peers g" and ?t = "tcp_server_tree g" and ?a = "accept_addr ip"
  have ok: "tcp_ok g" by (rule reachable_tcp_ok [OF assms(1)])
  obtain j g' where j: "j < length ?ps" "tp_fd (?ps ! j) = -1" and g': "handle_accept_new_connection g = (True, g')"
      "tcp_server_peers g' = ?ps[j := (?ps ! j)\<lparr>tp_addr := ?a, tp_fd := fd\<rparr>]"
      "tcp_client_peers g' = tcp_client_peers g" "tcp_client_tree g' = tcp_client_tree g"
    using accept_enters [OF ok assms(2-7)] by blast
  let ?ps' = "tcp_server_peers g'"
  have tab: "tcp_table_ok ?ps ?t" "tcp_table_ok ?ps' (tcp_server_tree g')"
    using ok handle_accept_new_connection_ok [OF ok g'(1)] by (simp_all add: tcp_ok_def)
  have at: "?ps' ! k = (if k = j then (?ps ! j)\<lparr>tp_addr := ?a, tp_fd := fd\<rparr> else ?ps ! k)" for k
    using g'(2) j(1) by (simp add: nth_list_update)
  have "connected ?ps' = insert j (connected ?ps)"
    using at j(1) assms(3) arg_cong [OF g'(2), of length] by (auto simp: connected_def split: if_splits)
  moreover have notj: "j \<notin> connected ?ps" using j(2) by (simp add: connected_def)
  moreover have other: "\<forall>k \<in> connected ?ps. tp_addr (?ps ! k) \<noteq> ?a"
    using fd_of_eq [OF tab(1) accept_addr_cstr, of ip] assms(5) by auto
  moreover have "\<forall>k \<in> connected ?ps. ?ps' ! k = ?ps ! k" using notj at by metis
  moreover have "tp_addr (?ps' ! j) = ?a" "tp_fd (?ps' ! j) = fd" using at by simp_all
  ultimately have in': "(\<exists>k \<in> connected ?ps'. tp_addr (?ps' ! k) = a \<and> tp_fd (?ps' ! k) = n) \<longleftrightarrow>
      ?a = a \<and> fd = n \<or> (\<exists>k \<in> connected ?ps. tp_addr (?ps ! k) = a \<and> tp_fd (?ps ! k) = n)" for a n
    by simp
  have "fd_of ?ps' (tcp_server_tree g') a = Some n \<longleftrightarrow> ((fd_of ?ps ?t)(?a \<mapsto> fd)) a = Some n"
    if "is_cstr a" for a n
    using fd_of_eq [OF tab(1) that] fd_of_eq [OF tab(2) that] in' other by (cases "a = ?a") auto
  then have "fd_of ?ps' (tcp_server_tree g') a = ((fd_of ?ps ?t)(?a \<mapsto> fd)) a" if "is_cstr a" for a
    using that by (metis option.exhaust)
  then show ?thesis using g' by blast
qed

text \<open>The peers that are connected are found by another key exactly if it orders them like the addresses.\<close>

lemma found_iff_ordered:
  fixes ord :: "nat \<Rightarrow> 'a::linorder"
  assumes tab: "tcp_table_ok ps t" and inj: "inj_on ord (connected ps)"
    and cmp: "\<forall>i \<in> connected ps. \<forall>j \<in> connected ps. (cmp i j < 0 \<longleftrightarrow> ord i < ord j) \<and> (cmp i j = 0 \<longleftrightarrow> ord i = ord j)"
  shows "(\<forall>i \<in> connected ps. tree_lookup (cmp i) t = Some i) \<longleftrightarrow>
    (\<forall>i \<in> connected ps. \<forall>j \<in> connected ps. skey (tp_addr (ps ! i)) < skey (tp_addr (ps ! j)) \<longrightarrow> ord i < ord j)"
  using all_found_iff [of "\<lambda>i. skey (tp_addr (ps ! i))" t ord cmp] assms table_set [OF tab]
  by (simp add: agrees_def table_ok_def)

section \<open>Searching by descriptor and by namespace\<close>

lemma compare_sockfd: 
  "(compare_sockfd_tcp_tree fd ps j < 0 \<longleftrightarrow> fd < tp_fd (ps ! j)) \<and> (compare_sockfd_tcp_tree fd ps j = 0 \<longleftrightarrow> fd = tp_fd (ps ! j))"
  by (auto simp: compare_sockfd_tcp_tree_def)

lemma fds_found_iff_ordered:
  assumes "tcp_table_ok ps t" and "inj_on (\<lambda>i. tp_fd (ps ! i)) (connected ps)"
  shows "(\<forall>i \<in> connected ps. tree_lookup (compare_sockfd_tcp_tree (tp_fd (ps ! i)) ps) t = Some i) \<longleftrightarrow>
    (\<forall>i \<in> connected ps. \<forall>j \<in> connected ps. skey (tp_addr (ps ! i)) < skey (tp_addr (ps ! j)) \<longrightarrow> tp_fd (ps ! i) < tp_fd (ps ! j))"
  by (rule found_iff_ordered [OF assms]) (simp add: compare_sockfd)

lemma fd_found: 
  assumes "tcp_table_ok ps t" and "inj_on (\<lambda>i. tp_fd (ps ! i)) (connected ps)" and "i \<in> connected ps"
    and "tree_lookup (compare_sockfd_tcp_tree (tp_fd (ps ! i)) ps) t = Some k"
  shows "k = i"
proof -
  have "k \<in> connected ps" "tp_fd (ps ! k) = tp_fd (ps ! i)"
    using tree_lookup_in [OF assms(4)] table_set [OF assms(1)] compare_sockfd by auto
  then show ?thesis using assms(2,3) by (auto dest: inj_onD)
qed

text \<open>
  C32. The client finds every connected host by its namespace if and only if the namespaces are in the
  same order as the addresses, whatever the shape of the tree, since the tree is ordered by addresses.
\<close>

theorem namespaces_found_iff_ordered:
  assumes "tcp_ok g" and "ps = tcp_client_peers g" and "inj_on (\<lambda>i. tp_namespace (ps ! i)) (connected ps)"
    and "\<forall>i \<in> connected ps. is_cstr (tp_namespace (ps ! i))"
  shows "(\<forall>i \<in> connected ps. tree_lookup (compare_namespace_tcp_tree (tp_namespace (ps ! i)) ps) (tcp_client_tree g) = Some i) \<longleftrightarrow>
    (\<forall>i \<in> connected ps. \<forall>j \<in> connected ps. skey (tp_addr (ps ! i)) < skey (tp_addr (ps ! j)) \<longrightarrow>
       skey (tp_namespace (ps ! i)) < skey (tp_namespace (ps ! j)))"
proof (rule found_iff_ordered [where ord = "\<lambda>i. skey (tp_namespace (ps ! i))"])
  show "tcp_table_ok ps (tcp_client_tree g)" using assms(1,2) by (simp add: tcp_ok_def)
  show "inj_on (\<lambda>i. skey (tp_namespace (ps ! i))) (connected ps)" using assms(3) by (simp add: inj_on_def skey_inj)
qed (use strcmp_skey assms(4) in \<open>simp add: compare_namespace_tcp_tree_def skey_inj\<close>)

lemma namespace_found_in:
  assumes "tcp_table_ok ps t" and "i \<in> connected ps" and "inj_on (\<lambda>i. tp_namespace (ps ! i)) (connected ps)"
    and "\<forall>i \<in> connected ps. is_cstr (tp_namespace (ps ! i))"
    and "tree_lookup (compare_namespace_tcp_tree (tp_namespace (ps ! i)) ps) t = Some k"
  shows "k = i"
proof -
  have k: "k \<in> connected ps" "compare_namespace_tcp_tree (tp_namespace (ps ! i)) ps k = 0"
    using tree_lookup_in [OF assms(5)] table_set [OF assms(1)] by auto
  then have "tp_namespace (ps ! i) = tp_namespace (ps ! k)"
    using strcmp_skey(2) assms(2,4) by (simp add: compare_namespace_tcp_tree_def)
  then show ?thesis using assms(2,3) k(1) by (auto dest: inj_onD)
qed

text \<open>
  C33. Of two connected hosts whose namespaces are in the opposite order of their addresses, messages for
  the namespace of one host are never sent, and \<open>handle_fwd_data_out\<close> reports success.
\<close>

theorem messages_to_a_namespace_are_lost:
  assumes "tcp_ok g" and "ps = tcp_client_peers g" and "inj_on (\<lambda>i. tp_namespace (ps ! i)) (connected ps)"
    and "\<forall>i \<in> connected ps. is_cstr (tp_namespace (ps ! i))"
    and "i \<in> connected ps" and "j \<in> connected ps" and "skey (tp_addr (ps ! i)) < skey (tp_addr (ps ! j))"
    and "skey (tp_namespace (ps ! j)) < skey (tp_namespace (ps ! i))"
  shows "\<exists>k \<in> connected ps. \<forall>msg ok g'.
    usr_cstr FWD_NAMESPACE msg (gw_proc g) = Inr (tp_namespace (ps ! k)) \<longrightarrow>
    handle_fwd_data_out msg g = Inr (ok, g') \<longrightarrow> gw_tcp_sent g' = gw_tcp_sent g \<and> (ok \<longleftrightarrow> fst (gw_malloc g))"
proof -
  have tab: "tcp_table_ok ps (tcp_client_tree g)" using assms(1,2) by (simp add: tcp_ok_def)
  have "\<not> (\<forall>i \<in> connected ps. tree_lookup (compare_namespace_tcp_tree (tp_namespace (ps ! i)) ps) (tcp_client_tree g) = Some i)"
  proof (subst found_iff_ordered [where ord = "\<lambda>i. skey (tp_namespace (ps ! i))", OF tab])
    show "inj_on (\<lambda>i. skey (tp_namespace (ps ! i))) (connected ps)" using assms(3) by (simp add: inj_on_def skey_inj)
  next
    show "\<not> (\<forall>i \<in> connected ps. \<forall>j \<in> connected ps. skey (tp_addr (ps ! i)) < skey (tp_addr (ps ! j)) \<longrightarrow>
       skey (tp_namespace (ps ! i)) < skey (tp_namespace (ps ! j)))"
      using assms(5-8) by (meson order.asym)
  qed (use strcmp_skey assms(4) in \<open>simp add: compare_namespace_tcp_tree_def skey_inj\<close>)
  then obtain k where k: "k \<in> connected ps"
      "tree_lookup (compare_namespace_tcp_tree (tp_namespace (ps ! k)) ps) (tcp_client_tree g) = None"
    using namespace_found_in [OF tab _ assms(3,4)] by (metis option.exhaust)
  have "gw_tcp_sent g' = gw_tcp_sent g \<and> (ok \<longleftrightarrow> fst (gw_malloc g))"
    if ns: "usr_cstr FWD_NAMESPACE msg (gw_proc g) = Inr (tp_namespace (ps ! k))"
      and r: "handle_fwd_data_out msg g = Inr (ok, g')" for msg ok g'
  proof -
    obtain rep g1 where m: "gw_malloc g = (rep, g1)" by (metis prod.exhaust)
    have same: "msgs (gw_proc g1) = msgs (gw_proc g)" "gw_tcp_sent g1 = gw_tcp_sent g"
        "tcp_client_peers g1 = ps" "tcp_client_tree g1 = tcp_client_tree g"
      using m assms(2) by (auto simp: gw_malloc_def malloc_ok_def split: prod.splits list.splits)
    then have "usr_cstr FWD_NAMESPACE msg (gw_proc g1) = Inr (tp_namespace (ps ! k))" using ns by (simp add: usr_cstr_def)
    then show ?thesis using r m k(2) same by (auto simp: handle_fwd_data_out_def outcome_simps split: if_splits)
  qed
  then show ?thesis using k(1) by blast
qed

text \<open>
  If the connections of two hosts have ended and their descriptors are in the opposite order of their
  addresses, then a round of the server does not notice the end of some connection: the handler leaves
  the gateway exactly as it was, with the connection still in use, so that this repeats for ever.
\<close>

theorem end_of_connection_is_missed:
  assumes "gw_reachable g" and "ps = tcp_server_peers g" and "inj_on (\<lambda>i. tp_fd (ps ! i)) (connected ps)"
    and "i \<in> connected ps" and "j \<in> connected ps" and "skey (tp_addr (ps ! i)) < skey (tp_addr (ps ! j))"
    and "tp_fd (ps ! j) < tp_fd (ps ! i)" and "\<forall>k \<in> connected ps. gw_in g (tp_fd (ps ! k)) = []"
  shows "\<exists>k \<in> connected ps. \<forall>evs. handle_receive_tcp_packet_at_server evs (tp_fd (ps ! k)) g = Inr (True, g)"
proof -
  have tab: "tcp_table_ok ps (tcp_server_tree g)" using reachable_tcp_ok [OF assms(1)] assms(2) by (simp add: tcp_ok_def)
  have "\<not> (\<forall>i \<in> connected ps. tree_lookup (compare_sockfd_tcp_tree (tp_fd (ps ! i)) ps) (tcp_server_tree g) = Some i)"
    unfolding fds_found_iff_ordered [OF tab assms(3)] using assms(4-7) by (meson order.asym)
  then obtain k where k: "k \<in> connected ps"
      "tree_lookup (compare_sockfd_tcp_tree (tp_fd (ps ! k)) ps) (tcp_server_tree g) = None"
    using fd_found [OF tab assms(3)] by (metis option.exhaust)
  have "recv_data (tp_fd (ps ! k)) GWH_SIZE g = (0, [], g)"
    using assms(8) k(1) by (simp add: recv_data.simps recv_some_def)
  moreover have "drop_peer (tp_fd (ps ! k)) ps (tcp_server_tree g) = None" using k(2) by (simp add: drop_peer_def)
  ultimately have "handle_receive_tcp_packet_at_server evs (tp_fd (ps ! k)) g = Inr (True, g)" for evs
    using assms(2) by (simp add: handle_receive_tcp_packet_at_server_def delete_tcp_peer_resource_def)
  then show ?thesis using k(1) by blast
qed

section \<open>The peers that were heard of\<close>

abbreviation udp_table_ok :: "cstr list \<Rightarrow> nat tree \<Rightarrow> bool" where
  "udp_table_ok \<equiv> table_ok (\<lambda>a. a) (\<lambda>a. strcmp a ITC_GATEWAY_NO_ADDR_STRING = 0)"

text \<open>The nodes that are reached by going left from the root.\<close>

fun left_spine :: "nat tree \<Rightarrow> nat list" where
  "left_spine Leaf = []"
| "left_spine (Node l j r) = j # left_spine l"

lemma left_spine_subset: "set (left_spine t) \<subseteq> set_tree t"
  by (induction t) auto

lemma tree_remove_beside: "\<forall>j \<in> set (left_spine t). cmp j < 0 \<Longrightarrow> tree_remove cmp t = t"
  by (induction t) auto

lemma split_least_set: "split_least j l r = (m, t) \<Longrightarrow> insert m (set_tree t) = set_tree (Node l j r)"
proof (induction j l r arbitrary: m t rule: split_least.induct)
  case (2 j l i r' r)
  then obtain t' where "split_least i l r' = (m, t')" "t = Node t' j r" by (auto split: prod.splits)
  then show ?case using 2(1) [of m t'] by auto
qed auto

lemma tree_remove_on_spine:
  assumes "keyed key t" and "i \<in> set (left_spine t)" and "\<forall>j \<in> set (left_spine t). j \<noteq> i \<longrightarrow> cmp j < 0" and "cmp i = 0"
  shows "i \<notin> set_tree (tree_remove cmp t)"
  using assms
proof (induction t)
  case (Node l k r)
  have side: "key j < key k" if "j \<in> set_tree l" for j using Node.prems(1) that by auto
  have side': "key k < key j" if "j \<in> set_tree r" for j using Node.prems(1) that by auto
  show ?case
  proof (cases "k = i")
    case True
    then have "i \<notin> set_tree l" "i \<notin> set_tree r" using side [of i] side' [of i] by auto
    then show ?thesis using Node.prems(4) True by (auto split: tree.splits prod.splits dest: split_least_set)
  next
    case False
    then have il: "i \<in> set (left_spine l)" "cmp k < 0" using Node.prems(2,3) by auto
    then have "i \<notin> set_tree (tree_remove cmp l)" using Node.IH(1) Node.prems by auto
    moreover have "i \<in> set_tree l" using il(1) left_spine_subset by auto
    then have "i \<notin> set_tree r" using side [of i] side' [of i] by (auto dest: order.asym)
    ultimately show ?thesis using il(2) False by simp
  qed
qed simp

lemma strcmp_append: "strcmp (s @ a) (s @ b) = strcmp a b"
  by (induction s) simp_all

lemma no_addr_less: "strcmp ITC_GATEWAY_NO_ADDR_STRING (ascii ''tcp://'' @ rest) < 0"
  by (simp add: ITC_GATEWAY_NO_ADDR_STRING_def ascii_def)

text \<open>
  A host that leaves is found by its address and its slot is marked as free; but since the address in
  the slot is overwritten before the tree is searched for it, the slot stays in the tree unless it lies
  on the left spine of the tree.
\<close>

theorem removed_peer_stays_in_tree:
  assumes "udp_table_ok (udp_peers g) (udp_tree g)" and "i \<in> set_tree (udp_tree g)"
    and "\<forall>j \<in> set_tree (udp_tree g). \<exists>rest. udp_peers g ! j = ascii ''tcp://'' @ rest"
  shows "\<exists>g'. handle_udp_rmv_peer (udp_peers g ! i) g = (True, g') \<and>
    udp_peers g' = (udp_peers g)[i := ITC_GATEWAY_NO_ADDR_STRING] \<and>
    (i \<in> set_tree (udp_tree g') \<longleftrightarrow> i \<notin> set (left_spine (udp_tree g)))"
proof -
  let ?ps = "udp_peers g" and ?t = "udp_tree g"
  define g' where "g' = g\<lparr>udp_peers := ?ps[i := ITC_GATEWAY_NO_ADDR_STRING]\<rparr>"
  let ?cmp = "compare_peer_udp_tree i (udp_peers g')"
  have t: "set_tree ?t = {j. j < length ?ps \<and> strcmp (?ps ! j) ITC_GATEWAY_NO_ADDR_STRING \<noteq> 0}"
      "keyed (\<lambda>j. skey (?ps ! j)) ?t" "\<forall>a \<in> set ?ps. is_cstr a"
    using assms(1) by (simp_all add: table_ok_def)
  have i: "i < length ?ps" "strcmp (?ps ! i) ITC_GATEWAY_NO_ADDR_STRING \<noteq> 0" using assms(2) t(1) by simp_all
  have "tree_lookup (compare_addr_udp_tree (?ps ! i) ?ps) ?t = Some i"
    using udp.lookup [OF assms(1), of "?ps ! i" i] i t(3) by simp
  then have r: "handle_udp_rmv_peer (?ps ! i) g = (True, g'\<lparr>udp_tree := tree_remove ?cmp ?t\<rparr>)"
    by (simp add: handle_udp_rmv_peer_def g'_def Let_def)
  have less: "?cmp j < 0" if j: "j \<in> set_tree ?t" "j \<noteq> i" for j
  proof -
    obtain rest where "?ps ! j = ascii ''tcp://'' @ rest" using assms(3) j(1) by blast
    then show ?thesis using no_addr_less [of rest] i(1) j(2) by (simp add: compare_peer_udp_tree_def g'_def)
  qed
  have "i \<in> set_tree (tree_remove ?cmp ?t) \<longleftrightarrow> i \<notin> set (left_spine ?t)"
  proof
    assume "i \<notin> set (left_spine ?t)"
    then have "tree_remove ?cmp ?t = ?t" using less left_spine_subset by (intro tree_remove_beside) blast
    then show "i \<in> set_tree (tree_remove ?cmp ?t)" using assms(2) by simp
  next
    have "?cmp i = 0" by (simp add: compare_peer_udp_tree_def)
    moreover assume "i \<in> set_tree (tree_remove ?cmp ?t)"
    ultimately show "i \<notin> set (left_spine ?t)"
      using tree_remove_on_spine [OF t(2), of i ?cmp] less left_spine_subset by blast
  qed
  then show ?thesis using r by (auto simp: g'_def)
qed

section \<open>Examples\<close>

text \<open>Two hosts connect to the server, first the one with the larger address.\<close>

definition gw_up :: itcgw where
  "gw_up = setup_tcp_client_peer (setup_tcp_server_peer (itcgw0 (ascii ''A'') 0 (proc0 1 [])))"

lemma gw_up_reachable: "gw_reachable gw_up"
  by (rule gw_reachable.start)
    (simp add: peers_set_up_def gw_up_def setup_tcp_client_peer_def setup_tcp_server_peer_def itcgw0_def no_peers_idem,
      simp add: no_peers_def)

lemma gw_up_slot: "i < ITC_GATEWAY_MAX_PEERS \<Longrightarrow> tp_fd (tcp_server_peers gw_up ! i) = -1"
  by (simp add: gw_up_def setup_tcp_client_peer_def setup_tcp_server_peer_def itcgw0_def no_peers_def)

lemma gw_up_facts: "gw_in gw_up = (\<lambda>_. [])" "tcp_server_fd gw_up = 0"
  by (simp_all add: gw_up_def setup_tcp_client_peer_def setup_tcp_server_peer_def itcgw0_def)

lemma serve_server_peers_idle:
  "\<forall>i \<in> set is. tp_fd (tcp_server_peers g ! i) \<notin> set rd \<Longrightarrow> serve_server_peers evs rd is g = Inr (True, g)"
  by (induction "is") (simp_all add: Let_def)

lemma connect_step:
  assumes g: "gw_reachable g" and fds: "\<forall>i < ITC_GATEWAY_MAX_PEERS. tp_fd (tcp_server_peers g ! i) \<noteq> tcp_server_fd g"
    and fd: "0 \<le> fd" "fd \<noteq> tcp_server_fd g"
    and new: "fd_of (tcp_server_peers g) (tcp_server_tree g) (accept_addr ip) = None"
    and free: "i < ITC_GATEWAY_MAX_PEERS" "tp_fd (tcp_server_peers g ! i) = -1"
  shows "\<exists>j g'. gw_reachable g' \<and> j < ITC_GATEWAY_MAX_PEERS \<and> tp_fd (tcp_server_peers g ! j) = -1 \<and>
    tcp_server_peers g' = (tcp_server_peers g)[j := (tcp_server_peers g ! j)\<lparr>tp_addr := accept_addr ip, tp_fd := fd\<rparr>] \<and>
    gw_in g' = gw_in g \<and> tcp_server_fd g' = tcp_server_fd g"
proof -
  let ?p = "\<lambda>calls. (gw_proc g)\<lparr>sys := calls\<rparr>" and ?ps = "tcp_server_peers g"
  define g0 where "g0 = g\<lparr>gw_proc := ?p [(0, EOTHER), (fd, EOTHER)], gw_in := gw_in g, gw_accepts := [ip]\<rparr>"
  define g1 where "g1 = g\<lparr>gw_proc := ?p [(fd, EOTHER)], gw_in := gw_in g, gw_accepts := [ip]\<rparr>"
  have r0: "gw_reachable g0" unfolding g0_def by (rule gw_reachable.world [OF g])
  have r1: "gw_reachable g1" unfolding g1_def by (rule gw_reachable.world [OF g])
  have select: "gw_sys g0 = ((0, EOTHER), g1)" by (simp add: g0_def g1_def gw_sys_def sys_next_def)
  have accept: "gw_sys g1 = ((fd, EOTHER), g1\<lparr>gw_proc := ?p []\<rparr>)" by (simp add: g1_def gw_sys_def sys_next_def)
  have same: "tcp_server_peers g1 = ?ps" "tcp_server_tree g1 = tcp_server_tree g" "tcp_server_fd g1 = tcp_server_fd g"
      "gw_in g1 = gw_in g" "tcp_server_peers g0 = ?ps" "tcp_server_fd g0 = tcp_server_fd g" "gw_accepts g1 = [ip]"
    by (simp_all add: g0_def g1_def)
  obtain j g' where j: "j < length ?ps" "tp_fd (?ps ! j) = -1" and h: "handle_accept_new_connection g1 = (True, g')"
      and g': "tcp_server_peers g' = ?ps[j := (?ps ! j)\<lparr>tp_addr := accept_addr ip, tp_fd := fd\<rparr>]"
      "gw_in g' = gw_in g" "tcp_server_fd g' = tcp_server_fd g"
    using accept_enters [OF reachable_tcp_ok [OF r1] accept fd(1), of ip "[]" i] new free same by auto
  let ?ready = "[tcp_server_fd g]"
  let ?rd = "filter (\<lambda>n. n \<in> set ?ready) (tcp_server_fd g0 # peer_fds (tcp_server_peers g0))"
  have rd: "set ?rd = {tcp_server_fd g}" using same by auto
  have len: "length ?ps = ITC_GATEWAY_MAX_PEERS" using reachable_tcp_ok [OF g] by (simp add: tcp_ok_def table_ok_def)
  have "tp_fd (tcp_server_peers g' ! k) \<noteq> tcp_server_fd g" if "k < ITC_GATEWAY_MAX_PEERS" for k
    using that fds fd(2) g'(1) j(1) by (simp add: nth_list_update)
  then have idle: "serve_server_peers [] ?rd [0..<ITC_GATEWAY_MAX_PEERS] g' = Inr (True, g')"
    by (intro serve_server_peers_idle) (use rd in \<open>simp del: ITC_GATEWAY_MAX_PEERS_def upt_rec_numeral\<close>)
  have "tcp_server_fd g1 \<in> set ?rd" using rd same(3) by simp
  then have "server_round ?ready [] g0 = Inr (True, g')"
    unfolding server_round_def Let_def select using h idle
    by (simp del: ITC_GATEWAY_MAX_PEERS_def upt_rec_numeral set_filter set_simps filter.simps)
  then have "gw_reachable g'" by (rule gw_reachable.server [OF r0])
  then show ?thesis using j g' len by auto
qed

lemma example_addresses:
  "accept_addr 1 = ascii ''tcp://1.0.0.0:22222/''" "accept_addr 2 = ascii ''tcp://2.0.0.0:22222/''"
  by (simp_all add: accept_addr_def snprintf_def peer_addr_def inet_ntoa_def enc32_def dec.simps ascii_def)

lemma example_order: "skey (accept_addr 1) < skey (accept_addr 2)"
  by (simp add: example_addresses skey_def ascii_def)

lemma two_connections:
  "\<exists>g i j. gw_reachable g \<and> i < ITC_GATEWAY_MAX_PEERS \<and> j < ITC_GATEWAY_MAX_PEERS \<and> connected (tcp_server_peers g) = {i, j} \<and>
     tp_fd (tcp_server_peers g ! i) = 6 \<and> tp_addr (tcp_server_peers g ! i) = accept_addr 1 \<and>
     tp_fd (tcp_server_peers g ! j) = 5 \<and> tp_addr (tcp_server_peers g ! j) = accept_addr 2 \<and> gw_in g = (\<lambda>_. [])"
proof -
  have len: "length (tcp_server_peers g) = ITC_GATEWAY_MAX_PEERS" if "gw_reachable g" for g
    using reachable_tcp_ok [OF that] by (simp add: tcp_ok_def table_ok_def)
  have none: "fd_of (tcp_server_peers g) (tcp_server_tree g) (accept_addr ip) = None"
    if "gw_reachable g" "\<forall>k \<in> connected (tcp_server_peers g). tp_addr (tcp_server_peers g ! k) \<noteq> accept_addr ip" for g ip
    using fd_of_eq [OF _ accept_addr_cstr, of "tcp_server_peers g" "tcp_server_tree g" ip] reachable_tcp_ok [OF that(1)] that(2)
    by (metis not_None_eq tcp_ok_def)
  have "connected (tcp_server_peers gw_up) = {}" using gw_up_slot len [OF gw_up_reachable] by (auto simp: connected_def)
  then have n0: "fd_of (tcp_server_peers gw_up) (tcp_server_tree gw_up) (accept_addr 2) = None"
    by (intro none [OF gw_up_reachable]) simp
  obtain j g1 where g1: "gw_reachable g1" "j < ITC_GATEWAY_MAX_PEERS"
      "tcp_server_peers g1 = (tcp_server_peers gw_up)[j := (tcp_server_peers gw_up ! j)\<lparr>tp_addr := accept_addr 2, tp_fd := 5\<rparr>]"
      "gw_in g1 = (\<lambda>_. [])" "tcp_server_fd g1 = 0"
    using connect_step [OF gw_up_reachable _ _ _ n0, of 5 0] gw_up_slot gw_up_facts by auto
  let ?p1 = "tcp_server_peers g1"
  have at1: "?p1 ! k = (if k = j then (tcp_server_peers gw_up ! j)\<lparr>tp_addr := accept_addr 2, tp_fd := 5\<rparr> else tcp_server_peers gw_up ! k)" for k
    using g1(2,3) len [OF gw_up_reachable] by (simp add: nth_list_update)
  have con1: "connected ?p1 = {j}" using at1 gw_up_slot g1(2) len [OF g1(1)] by (auto simp: connected_def split: if_splits)
  have n1: "fd_of ?p1 (tcp_server_tree g1) (accept_addr 1) = None"
    using con1 at1 example_order by (intro none [OF g1(1)]) auto
  obtain m where m: "m < ITC_GATEWAY_MAX_PEERS" "m \<noteq> j" using that [of "if j = 0 then 1 else 0"] by (auto split: if_splits)
  have fds1: "\<forall>k < ITC_GATEWAY_MAX_PEERS. tp_fd (?p1 ! k) \<noteq> tcp_server_fd g1"
    and slot: "tp_fd (?p1 ! m) = -1"
    using at1 gw_up_slot m g1(5) by simp_all
  have fd6: "(0::int) \<le> 6" "6 \<noteq> tcp_server_fd g1" using g1(5) by simp_all
  obtain i g2 where g2: "gw_reachable g2" "i < ITC_GATEWAY_MAX_PEERS" "tp_fd (?p1 ! i) = -1"
      "tcp_server_peers g2 = ?p1[i := (?p1 ! i)\<lparr>tp_addr := accept_addr 1, tp_fd := 6\<rparr>]" "gw_in g2 = (\<lambda>_. [])"
    using connect_step [OF g1(1) fds1 fd6 n1 m(1) slot] unfolding g1(4) by blast
  let ?p2 = "tcp_server_peers g2"
  have ij: "i \<noteq> j" using g2(3) at1 [of j] by auto
  have at2: "?p2 ! k = (if k = i then (?p1 ! i)\<lparr>tp_addr := accept_addr 1, tp_fd := 6\<rparr> else ?p1 ! k)" for k
    using g2(2,4) len [OF g1(1)] by (simp add: nth_list_update)
  have "connected ?p2 = insert i (connected ?p1)"
    using at2 g2(2,3) len [OF g1(1)] len [OF g2(1)] by (auto simp: connected_def split: if_splits)
  then show ?thesis using g2(1,2,5) g1(2) con1 at1 at2 ij by (intro exI [of _ g2] exI [of _ i] exI [of _ j]) auto
qed

text \<open>The client with two connected peers whose namespaces are in the opposite order of their addresses.\<close>

definition gw_two_clients :: itcgw where
  "gw_two_clients = gw_up\<lparr>
     tcp_client_peers := (tcp_client_peers gw_up)
       [0 := \<lparr>tp_addr = accept_addr 1, tp_fd = 5, tp_namespace = ascii ''Z''\<rparr>,
        1 := \<lparr>tp_addr = accept_addr 2, tp_fd = 6, tp_namespace = ascii ''B''\<rparr>],
     tcp_client_tree := Node Leaf 0 (Node Leaf 1 Leaf)\<rparr>"

lemma gw_two_clients_peers:
  defines "ps \<equiv> tcp_client_peers gw_two_clients"
  shows "length ps = ITC_GATEWAY_MAX_PEERS" "connected ps = {0, 1}"
    "ps ! 0 = \<lparr>tp_addr = accept_addr 1, tp_fd = 5, tp_namespace = ascii ''Z''\<rparr>"
    "ps ! 1 = \<lparr>tp_addr = accept_addr 2, tp_fd = 6, tp_namespace = ascii ''B''\<rparr>" "tcp_ok gw_two_clients"
proof -
  have up: "tcp_ok gw_up" by (rule reachable_tcp_ok [OF gw_up_reachable])
  let ?qs = "tcp_client_peers gw_up"
  have len: "length ?qs = ITC_GATEWAY_MAX_PEERS" using up by (simp add: tcp_ok_def table_ok_def)
  have free: "tp_fd (?qs ! k) = -1" if "k < ITC_GATEWAY_MAX_PEERS" for k
    using that by (simp add: gw_up_def setup_tcp_client_peer_def setup_tcp_server_peer_def itcgw0_def no_peers_def)
  have at: "ps ! k = (if k = 1 then \<lparr>tp_addr = accept_addr 2, tp_fd = 6, tp_namespace = ascii ''B''\<rparr>
      else if k = 0 then \<lparr>tp_addr = accept_addr 1, tp_fd = 5, tp_namespace = ascii ''Z''\<rparr> else ?qs ! k)" for k
    using len by (simp add: ps_def gw_two_clients_def nth_list_update)
  show l: "length ps = ITC_GATEWAY_MAX_PEERS" using len by (simp add: ps_def gw_two_clients_def)
  show con: "connected ps = {0, 1}" using at free l by (auto simp: connected_def split: if_splits)
  show "ps ! 0 = \<lparr>tp_addr = accept_addr 1, tp_fd = 5, tp_namespace = ascii ''Z''\<rparr>"
    "ps ! 1 = \<lparr>tp_addr = accept_addr 2, tp_fd = 6, tp_namespace = ascii ''B''\<rparr>" using at by simp_all
  have "is_cstr (tp_addr p)" if p: "p \<in> set ps" for p
  proof -
    obtain k where "k < length ps" "p = ps ! k" using p unfolding in_set_conv_nth by blast
    moreover have "is_cstr (tp_addr (?qs ! k))" if "k < length ?qs" for k
      using up that by (simp add: tcp_ok_def table_ok_def)
    ultimately show ?thesis using at l len by simp
  qed
  then have "tcp_table_ok ps (Node Leaf 0 (Node Leaf 1 Leaf))"
    unfolding table_ok_def
  proof (intro conjI)
    show "set_tree (Node Leaf 0 (Node Leaf 1 Leaf)) = {i. i < length ps \<and> \<not> tp_fd (ps ! i) = -1}"
      using con by (auto simp: connected_def)
    show "keyed (\<lambda>i. skey (tp_addr (ps ! i))) (Node Leaf 0 (Node Leaf 1 Leaf))"
      using at example_order by simp
  qed (use l in auto)
  then show "tcp_ok gw_two_clients" using up by (simp add: tcp_ok_def gw_two_clients_def ps_def)
qed

theorem search_by_address_is_exact_witness:
  "\<exists>g i. gw_reachable g \<and> tree_lookup (compare_addr_tcp_tree (accept_addr 1) (tcp_server_peers g)) (tcp_server_tree g) = Some i \<and>
     tp_fd (tcp_server_peers g ! i) = 6"
proof -
  obtain g i j where g: "gw_reachable g" "i < ITC_GATEWAY_MAX_PEERS" "tp_fd (tcp_server_peers g ! i) = 6"
      "tp_addr (tcp_server_peers g ! i) = accept_addr 1"
    using two_connections by metis
  then show ?thesis
    using search_by_address_is_exact [OF g(1) accept_addr_cstr [of 1], of i] by (intro exI [of _ g] exI [of _ i]) simp
qed

theorem connection_is_recorded_witness:
  "\<exists>g g'. gw_reachable g \<and> handle_accept_new_connection g = (True, g') \<and>
     fd_of (tcp_server_peers g') (tcp_server_tree g') (accept_addr 1) = Some 5"
proof -
  let ?g = "gw_up\<lparr>gw_proc := (gw_proc gw_up)\<lparr>sys := [(5, EOTHER)]\<rparr>, gw_in := gw_in gw_up, gw_accepts := [1]\<rparr>"
  have r: "gw_reachable ?g" by (rule gw_reachable.world [OF gw_up_reachable])
  have "connected (tcp_server_peers gw_up) = {}"
    using gw_up_slot reachable_tcp_ok [OF gw_up_reachable] by (auto simp: connected_def tcp_ok_def table_ok_def)
  moreover have "tcp_table_ok (tcp_server_peers gw_up) (tcp_server_tree gw_up)"
    using reachable_tcp_ok [OF gw_up_reachable] by (simp add: tcp_ok_def)
  ultimately have "fd_of (tcp_server_peers gw_up) (tcp_server_tree gw_up) (accept_addr 1) = None"
    using fd_of_eq [OF _ accept_addr_cstr, of _ _ 1] by (metis empty_iff not_None_eq)
  moreover have "gw_sys ?g = ((5, EOTHER), ?g\<lparr>gw_proc := (gw_proc gw_up)\<lparr>sys := []\<rparr>\<rparr>)" by (simp add: gw_sys_def sys_next_def)
  ultimately obtain g' where "handle_accept_new_connection ?g = (True, g')"
      "\<forall>a. is_cstr a \<longrightarrow> fd_of (tcp_server_peers g') (tcp_server_tree g') a =
         ((fd_of (tcp_server_peers ?g) (tcp_server_tree ?g))(accept_addr 1 \<mapsto> 5)) a"
    using connection_is_recorded [OF r, of 5 EOTHER _ 1 "[]" 0] gw_up_slot [of 0] by auto
  then show ?thesis using r by (intro exI [of _ ?g] exI [of _ g']) simp
qed

theorem namespaces_found_iff_ordered_witness:
  "\<not> (\<forall>i \<in> {0, 1}. tree_lookup (compare_namespace_tcp_tree (tp_namespace (tcp_client_peers gw_two_clients ! i))
        (tcp_client_peers gw_two_clients)) (tcp_client_tree gw_two_clients) = Some i)"
proof -
  note p = gw_two_clients_peers
  have "inj_on (\<lambda>i. tp_namespace (tcp_client_peers gw_two_clients ! i)) {0, 1}"
      "\<forall>i \<in> {0, 1}. is_cstr (tp_namespace (tcp_client_peers gw_two_clients ! i))"
    using p(3,4) by (simp_all add: ascii_def is_cstr_def)
  then show ?thesis
    using namespaces_found_iff_ordered [OF p(5) refl] p(2-4) example_order by (simp add: skey_def ascii_def)
qed

theorem messages_to_a_namespace_are_lost_witness:
  "\<exists>k \<in> {0, 1}. \<forall>msg ok g'.
    usr_cstr FWD_NAMESPACE msg (gw_proc gw_two_clients) = Inr (tp_namespace (tcp_client_peers gw_two_clients ! k)) \<longrightarrow>
    handle_fwd_data_out msg gw_two_clients = Inr (ok, g') \<longrightarrow>
    gw_tcp_sent g' = gw_tcp_sent gw_two_clients \<and> (ok \<longleftrightarrow> fst (gw_malloc gw_two_clients))"
proof -
  note p = gw_two_clients_peers
  have n: "inj_on (\<lambda>i. tp_namespace (tcp_client_peers gw_two_clients ! i)) (connected (tcp_client_peers gw_two_clients))"
      "\<forall>i \<in> connected (tcp_client_peers gw_two_clients). is_cstr (tp_namespace (tcp_client_peers gw_two_clients ! i))"
    unfolding p(2) using p(3,4) by (simp_all add: ascii_def is_cstr_def)
  have o: "0 \<in> connected (tcp_client_peers gw_two_clients)" "1 \<in> connected (tcp_client_peers gw_two_clients)"
      "skey (tp_addr (tcp_client_peers gw_two_clients ! 0)) < skey (tp_addr (tcp_client_peers gw_two_clients ! 1))"
      "skey (tp_namespace (tcp_client_peers gw_two_clients ! 1)) < skey (tp_namespace (tcp_client_peers gw_two_clients ! 0))"
    using p(2-4) example_order by (simp_all add: skey_def ascii_def)
  show ?thesis using messages_to_a_namespace_are_lost [OF p(5) refl n o] unfolding p(2) .
qed

theorem end_of_connection_is_missed_witness:
  "\<exists>g fd. gw_reachable g \<and> fd \<in> {5, 6} \<and> handle_receive_tcp_packet_at_server [] fd g = Inr (True, g)"
proof -
  obtain g i j where g: "gw_reachable g" "connected (tcp_server_peers g) = {i, j}"
      "tp_fd (tcp_server_peers g ! i) = 6" "tp_addr (tcp_server_peers g ! i) = accept_addr 1"
      "tp_fd (tcp_server_peers g ! j) = 5" "tp_addr (tcp_server_peers g ! j) = accept_addr 2" "gw_in g = (\<lambda>_. [])"
    using two_connections by metis
  have "inj_on (\<lambda>i. tp_fd (tcp_server_peers g ! i)) (connected (tcp_server_peers g))" unfolding g(2) using g(3,5) by auto
  then have "\<exists>k \<in> {i, j}. \<forall>evs. handle_receive_tcp_packet_at_server evs (tp_fd (tcp_server_peers g ! k)) g = Inr (True, g)"
    using end_of_connection_is_missed [OF g(1) refl, of i j] g example_order by simp
  then show ?thesis using g(1,3,5) by auto
qed

text \<open>Two hosts were heard of; the one in the right subtree leaves.\<close>

definition gw_two_heard :: itcgw where
  "gw_two_heard = gw_up\<lparr>
     udp_peers := accept_addr 1 # accept_addr 2 # replicate (ITC_GATEWAY_MAX_PEERS - 2) ITC_GATEWAY_NO_ADDR_STRING,
     udp_tree := Node Leaf 0 (Node Leaf 1 Leaf)\<rparr>"

theorem removed_peer_stays_in_tree_witness:
  "\<exists>g'. handle_udp_rmv_peer (accept_addr 2) gw_two_heard = (True, g') \<and>
     udp_peers g' ! 1 = ITC_GATEWAY_NO_ADDR_STRING \<and> 1 \<in> set_tree (udp_tree g')"
proof -
  let ?r = "replicate (ITC_GATEWAY_MAX_PEERS - 2) ITC_GATEWAY_NO_ADDR_STRING"
  have used: "strcmp (accept_addr 1) ITC_GATEWAY_NO_ADDR_STRING \<noteq> 0" "strcmp (accept_addr 2) ITC_GATEWAY_NO_ADDR_STRING \<noteq> 0"
    by (simp_all add: example_addresses ITC_GATEWAY_NO_ADDR_STRING_def ascii_def)
  have "k < length (accept_addr 1 # accept_addr 2 # ?r) \<and>
      strcmp ((accept_addr 1 # accept_addr 2 # ?r) ! k) ITC_GATEWAY_NO_ADDR_STRING \<noteq> 0 \<longleftrightarrow> k = 0 \<or> k = 1" for k
    using used by (cases k; cases "k - 1") (auto simp: nth_Cons')
  then have set: "{k. k < length (accept_addr 1 # accept_addr 2 # ?r) \<and>
      strcmp ((accept_addr 1 # accept_addr 2 # ?r) ! k) ITC_GATEWAY_NO_ADDR_STRING \<noteq> 0} = {0, 1}" by auto
  have up: "udp_peers gw_two_heard = accept_addr 1 # accept_addr 2 # ?r" "udp_tree gw_two_heard = Node Leaf 0 (Node Leaf 1 Leaf)"
    by (simp_all add: gw_two_heard_def del: ITC_GATEWAY_MAX_PEERS_def)
  have ok: "udp_table_ok (udp_peers gw_two_heard) (udp_tree gw_two_heard)"
    unfolding table_ok_def
  proof (intro conjI)
    show "set_tree (udp_tree gw_two_heard) =
        {k. k < length (udp_peers gw_two_heard) \<and> \<not> strcmp (udp_peers gw_two_heard ! k) ITC_GATEWAY_NO_ADDR_STRING = 0}"
      unfolding up set by auto
  qed (use example_order in \<open>auto simp: gw_two_heard_def set_replicate_conv_if split: if_splits\<close>)
  have "\<forall>j \<in> set_tree (udp_tree gw_two_heard). \<exists>rest. udp_peers gw_two_heard ! j = ascii ''tcp://'' @ rest"
    by (auto simp: gw_two_heard_def example_addresses ascii_def)
  then have "\<exists>g'. handle_udp_rmv_peer (udp_peers gw_two_heard ! 1) gw_two_heard = (True, g') \<and>
      udp_peers g' = (udp_peers gw_two_heard)[1 := ITC_GATEWAY_NO_ADDR_STRING] \<and>
      (1 \<in> set_tree (udp_tree g') \<longleftrightarrow> 1 \<notin> set (left_spine (udp_tree gw_two_heard)))"
    by (intro removed_peer_stays_in_tree [OF ok]) (simp_all add: gw_two_heard_def)
  then show ?thesis by (auto simp: gw_two_heard_def)
qed

end
