(* ===== verification/Itc_Gw_Net.thy ===== *)
theory Itc_Gw_Net
  imports Itc_Gw_Run
begin

text \<open>
  What travels between hosts: data on a connection in any segmentation, messages that one gateway
  packs and another unpacks, questions about mailboxes and their answers, and the announcements.
\<close>

unbundle bit_operations_syntax

section \<open>Receiving in portions\<close>

text \<open>
  A connection that delivers the non-empty portions \<open>ds\<close>, and later \<open>tail\<close>.
\<close>

definition delivers :: "int \<Rightarrow> bytes list \<Rightarrow> (errno + bytes) list \<Rightarrow> itcgw \<Rightarrow> bool" where
  "delivers fd ds tail g \<longleftrightarrow> gw_in g fd = map Inr ds @ tail \<and> [] \<notin> set ds"

lemma recv_data_delivers:
  assumes "delivers fd ds tail g" and "0 < n" and "n \<le> length (concat ds)"
  shows "\<exists>ds' i. recv_data fd n g = (int n, take n (concat ds), g\<lparr>gw_in := i\<rparr>) \<and>
    concat ds' = drop n (concat ds) \<and> delivers fd ds' tail (g\<lparr>gw_in := i\<rparr>)"
  using assms
proof (induction ds arbitrary: n g)
  case (Cons d ds)
  have d: "d \<noteq> []" "gw_in g fd = Inr d # (map Inr ds @ tail)" "[] \<notin> set ds"
    using Cons.prems(1) by (auto simp: delivers_def)
  show ?case
  proof (cases "n < length d")
    case True
    then have "recv_data fd n g = (int n, take n d, g\<lparr>gw_in := (gw_in g)(fd := Inr (drop n d) # (map Inr ds @ tail))\<rparr>)"
      using Cons.prems(2) d(2) by (simp add: recv_data.simps recv_some_def min_def)
    moreover have "delivers fd (drop n d # ds) tail (g\<lparr>gw_in := (gw_in g)(fd := Inr (drop n d) # (map Inr ds @ tail))\<rparr>)"
      using True d(3) by (simp add: delivers_def)
    ultimately show ?thesis using True by (intro exI [of _ "drop n d # ds"]) auto
  next
    case False
    let ?g = "g\<lparr>gw_in := (gw_in g)(fd := map Inr ds @ tail)\<rparr>"
    have s: "recv_some fd n g = (int (length d), d, ?g)" using d(2) False by (simp add: recv_some_def)
    have del: "delivers fd ds tail ?g" using d(3) by (simp add: delivers_def)
    show ?thesis
    proof (cases "n = length d")
      case True
      then have "recv_data fd n g = (int n, d, ?g)" using s d(1) by (simp add: recv_data.simps)
      then show ?thesis using True del by (intro exI [of _ ds]) auto
    next
      case long: False
      then have "0 < n - length d" "n - length d \<le> length (concat ds)" using False Cons.prems(3) by simp_all
      then obtain ds' i where r: "recv_data fd (n - length d) ?g =
            (int (n - length d), take (n - length d) (concat ds), ?g\<lparr>gw_in := i\<rparr>)"
          "concat ds' = drop (n - length d) (concat ds)" "delivers fd ds' tail (?g\<lparr>gw_in := i\<rparr>)"
        using Cons.IH [OF del] by blast
      have "recv_data fd n g = (int n, take n (concat (d # ds)), g\<lparr>gw_in := i\<rparr>)"
        using s r(1) d(1) False long by (subst recv_data.simps) (simp add: of_nat_diff)
      then show ?thesis using r(2,3) False by (intro exI [of _ ds']) (auto simp: delivers_def)
    qed
  qed
qed simp

section \<open>Numbers in network order\<close>

lemma length_be32 [simp]: "length (be32 w) = 4"
  by (simp add: be32_def)

lemma get_be32_at: "length pre = off \<Longrightarrow> get_be32 off (pre @ be32 w @ post) = Inr w"
  by (simp add: get_be32_def get_bytes_def slice_def be32_def)

lemma length_gw_header [simp]: "length (gw_header pid r k n) = GWH_SIZE"
  by (simp add: gw_header_def)

lemma gw_header_fields:
  "get_be32 GWH_MSGNO (gw_header pid r k n) = Inr k" "get_be32 GWH_PAYLOADLEN (gw_header pid r k n) = Inr n"
  using get_be32_at [of "be32 (word_of_int pid) @ be32 r @ be32 15" 12 k "be32 n"]
    get_be32_at [of "be32 (word_of_int pid) @ be32 r @ be32 15 @ be32 k" 16 n "[]"]
  by (simp_all add: gw_header_def)

text \<open>The header and the payload of a packet, out of a connection that delivers them.\<close>

lemma recv_packet:
  assumes del: "delivers fd ds tail g" and ds: "concat ds = gw_header pid r k (of_nat (length d)) @ d @ rest"
    and d: "d \<noteq> []" "length d < 2 ^ 31"
  shows "\<exists>i ds' i'. recv_data fd GWH_SIZE g = (20, gw_header pid r k (of_nat (length d)), g\<lparr>gw_in := i\<rparr>) \<and>
    recv_payload fd (of_nat (length d)) (g\<lparr>gw_in := i\<rparr>) = Inr (int (length d), d, g\<lparr>gw_in := i'\<rparr>) \<and>
    concat ds' = rest \<and> delivers fd ds' tail (g\<lparr>gw_in := i'\<rparr>)"
proof -
  let ?h = "gw_header pid r k (of_nat (length d))"
  have "0 < GWH_SIZE" "GWH_SIZE \<le> length (concat ds)" using ds length_gw_header [of pid r k "of_nat (length d)"] by simp_all
  then obtain ds1 i where 1: "recv_data fd GWH_SIZE g = (int GWH_SIZE, take GWH_SIZE (concat ds), g\<lparr>gw_in := i\<rparr>)"
      "concat ds1 = drop GWH_SIZE (concat ds)" "delivers fd ds1 tail (g\<lparr>gw_in := i\<rparr>)"
    using recv_data_delivers [OF del] by blast
  have h: "take GWH_SIZE (concat ds) = ?h" "concat ds1 = d @ rest"
    using ds 1(2) length_gw_header [of pid r k "of_nat (length d)"] by simp_all
  have "0 < length d" "length d \<le> length (concat ds1)" using d(1) h(2) by simp_all
  then obtain ds2 i' where 2: "recv_data fd (length d) (g\<lparr>gw_in := i\<rparr>) =
        (int (length d), take (length d) (concat ds1), (g\<lparr>gw_in := i\<rparr>)\<lparr>gw_in := i'\<rparr>)"
      "concat ds2 = drop (length d) (concat ds1)" "delivers fd ds2 tail ((g\<lparr>gw_in := i\<rparr>)\<lparr>gw_in := i'\<rparr>)"
    using recv_data_delivers [OF 1(3)] by blast
  have "unat (of_nat (length d) :: u32) = length d" using d(2) by (simp add: unat_of_nat take_bit_nat_eq_self)
  then have "recv_payload fd (of_nat (length d)) (g\<lparr>gw_in := i\<rparr>) = Inr (int (length d), d, g\<lparr>gw_in := i'\<rparr>)"
    using 2(1) h(2) d(2) by (simp add: recv_payload_def)
  then show ?thesis using 1(1) h 2(2,3) by (intro exI [of _ i] exI [of _ ds2] exI [of _ i']) simp
qed

section \<open>A message on its way to another host\<close>

definition fwd_packet :: "int \<Rightarrow> bytes \<Rightarrow> bytes" where
  "fwd_packet pid payload =
     gw_header pid 222 ITCGW_ITC_DATA_FWD (of_nat (GDF_PAYLOAD + length payload)) @
     be32 ITCGW_STATUS_OK @ be32 (of_nat (length payload)) @ payload"

text \<open>The message \<open>rq\<close> asks the gateway to forward \<open>payload\<close> to the namespace \<open>ns\<close>.\<close>

definition forwards :: "bytes \<Rightarrow> cstr \<Rightarrow> bytes \<Rightarrow> bool" where
  "forwards rq ns payload \<longleftrightarrow>
     OFF_MSGNO + FWD_PAYLOAD + length payload \<le> length rq \<and>
     fld (OFF_MSGNO + FWD_LENGTH) rq = of_nat (length payload) \<and>
     slice (OFF_MSGNO + FWD_PAYLOAD) (length payload) rq = payload \<and>
     cstr_at (OFF_MSGNO + FWD_NAMESPACE) rq = Inr ns"

lemma handle_fwd_data_out_sends:
  assumes rq: "cells (msgs (gw_proc g)) m = Some rq" "forwards rq ns payload" "length payload < 2 ^ 31"
    and calls: "gw_malloc g = (True, g1)" "gw_sys g1 = ((res, e), g2)" "0 \<le> res"
    and peer: "tree_lookup (compare_namespace_tcp_tree ns (tcp_client_peers g)) (tcp_client_tree g) = Some i"
  shows "handle_fwd_data_out (Some m) g = Inr (True, g2\<lparr>gw_tcp_sent := gw_tcp_sent g @
    [(tp_fd (tcp_client_peers g ! i), fwd_packet (cur_pid (gw_proc g2)) payload)]\<rparr>)"
proof -
  have g1: "msgs (gw_proc g1) = msgs (gw_proc g)" "gw_tcp_sent g1 = gw_tcp_sent g"
      "tcp_client_peers g1 = tcp_client_peers g" "tcp_client_tree g1 = tcp_client_tree g"
    using calls(1) by (auto simp: gw_malloc_def malloc_ok_def split: prod.splits list.splits)
  obtain p where g2: "g2 = g1\<lparr>gw_proc := p\<rparr>" using gw_sys_frame [OF calls(2)] by blast
  have len: "unat (of_nat (length payload) :: u32) = length payload"
    using rq(3) by (simp add: unat_of_nat take_bit_nat_eq_self)
  have f: "usr_get32 FWD_LENGTH (Some m) (gw_proc g) = Inr (of_nat (length payload))"
      "get_bytes (OFF_MSGNO + FWD_PAYLOAD) (length payload) rq = Inr payload"
      "usr_cstr FWD_NAMESPACE (Some m) (gw_proc g1) = Inr ns" "hread (Some m) (msgs (gw_proc g1)) = Inr rq"
    using rq(1,2) g1(1)
    by (simp_all add: forwards_def usr_get32_def msg_get_def hread_def get_bytes_def usr_cstr_def)
  show ?thesis
    using f calls peer g1 g2 len
    by (simp add: handle_fwd_data_out_def fwd_packet_def del: OFF_MSGNO_def FWD_PAYLOAD_def FWD_NAMESPACE_def FWD_LENGTH_def)
qed

text \<open>The other side: the new message of the server gets the whole block of the original.\<close>

lemma block_without_marker:
  assumes "wf_msg bs"
  shows "blit 0 (butlast bs) (new_message (unat (fld OFF_SIZE bs)) k) = bs"
proof -
  let ?n = "unat (fld OFF_SIZE bs)"
  have l: "length bs = ?n + 17" "20 < length bs" using assms by (simp_all add: wf_msg_def)
  have e: "bs ! (length bs - 1) = ENDPOINT" using assms unfolding wf_msg_def by blast
  let ?pre = "enc32 0 @ enc32 ITC_NO_MBOX_ID @ enc32 ITC_NO_MBOX_ID @ enc32 (of_nat ?n) @ enc32 k @ replicate (?n - 4) 0"
  have "length (butlast bs) = length ?pre" using l by simp
  then have "blit 0 (butlast bs) ([] @ ?pre @ [ENDPOINT]) = [] @ butlast bs @ [ENDPOINT]" by (intro blit_mid) simp_all
  then have "blit 0 (butlast bs) (new_message ?n k) = butlast bs @ [ENDPOINT]" by (simp add: new_message_def)
  moreover have "bs \<noteq> []" using l(2) by auto
  ultimately show ?thesis using e by (metis append_butlast_last_id last_conv_nth)
qed

lemma handle_receive_data_fwd_delivers:
  assumes bs: "wf_msg bs" "length bs < 2 ^ 31"
    and r: "recv_payload fd n g = Inr (len, be32 ITCGW_STATUS_OK @ be32 (of_nat (length (butlast bs))) @ butlast bs, g1)"
      "0 < len"
    and st: "alloc_state GW_SERVER_THREAD (gw_proc g1)" "length bs \<le> nat (max_mallocsize (gw_proc g1))"
      "can_alloc (msgs (gw_proc g1))"
  shows "\<exists>p. cells (msgs p) (fresh (msgs (gw_proc g1))) = Some bs \<and>
    handle_receive_data_fwd fd n g =
      gw_itc (itc_send GW_SERVER_THREAD (Some (fresh (msgs (gw_proc g1)))) (fld OFF_RECEIVER bs) ITC_MY_MBOX_ID None [])
        (g1\<lparr>gw_proc := p\<rparr>)"
proof -
  let ?pay = "butlast bs" and ?n = "unat (fld OFF_SIZE bs)" and ?s = "gw_proc g1"
  define d where "d = be32 ITCGW_STATUS_OK @ be32 (of_nat (length ?pay)) @ ?pay"
  have l: "length bs = ?n + 17" "20 < length bs" using bs(1) by (simp_all add: wf_msg_def)
  have mx: "max 4 ?n = ?n" using l by simp
  have f: "get_be32 0 d = Inr ITCGW_STATUS_OK" "get_be32 GDF_PAYLOAD_LENGTH d = Inr (of_nat (length ?pay))"
    using get_be32_at [of "[]" 0] get_be32_at [of "be32 ITCGW_STATUS_OK" 4] by (simp_all add: d_def)
  have sl: "slice (GDF_PAYLOAD + off) k d = slice off k bs" if "off + k < length bs" for off k
    using that by (simp add: d_def slice_def take_butlast butlast_conv_take drop_take min_def)
  have get: "get32 (GDF_PAYLOAD + off) d = Inr (fld off bs)" if "off + 4 < length bs" for off
  proof -
    have "GDF_PAYLOAD + off + 4 \<le> length d" using that by (simp add: d_def)
    then show ?thesis using sl [OF that] by (simp only: get32_in fld_def)
  qed
  have sz: "get32 (GDF_PAYLOAD + OFF_SIZE) d = Inr (fld OFF_SIZE bs)" "get32 (GDF_PAYLOAD + OFF_MSGNO) d = Inr (fld OFF_MSGNO bs)"
    using get [of OFF_SIZE] get [of OFF_MSGNO] l by simp_all
  have "unat (of_nat (length ?pay) :: u32) = length ?pay"
    using bs(2) by (simp add: unat_of_nat take_bit_nat_eq_self)
  then have pay: "get_bytes GDF_PAYLOAD (unat (of_nat (length ?pay) :: u32)) d = Inr ?pay"
    by (simp add: d_def get_bytes_def slice_def)
  let ?a = "fresh (msgs ?s)" and ?new = "new_message ?n (fld OFF_MSGNO bs)"
  define p1 where "p1 = ?s\<lparr>rcs := (rcs ?s)(GW_SERVER_THREAD := BLive ITC_OK),
      msgs := (msgs ?s)\<lparr>cells := (cells (msgs ?s))(?a \<mapsto> ?new), fresh := Suc ?a,
                       malloc_results := tl (malloc_results (msgs ?s))\<rparr>\<rparr>"
  define p2 where "p2 = p1\<lparr>msgs := (msgs p1)\<lparr>cells := (cells (msgs p1))(?a \<mapsto> bs)\<rparr>\<rparr>"
  have "(ucast (fld OFF_SIZE bs) :: u64) = of_nat ?n" by simp
  moreover have "max 4 ?n + 17 \<le> nat (max_mallocsize ?s)" using st(2) l mx by simp
  ultimately have alloc: "gw_itc (itc_alloc GW_SERVER_THREAD (ucast (fld OFF_SIZE bs)) (fld OFF_MSGNO bs)) g1 =
      Inr (Some ?a, g1\<lparr>gw_proc := p1\<rparr>)"
    using itc_alloc_ok [OF st(1) _ st(3), of ?n "fld OFF_MSGNO bs"] mx by (simp add: gw_itc_def p1_def)
  have "length ?new = length bs" using l mx by simp
  then have put: "put_bytes 0 ?pay ?new = Inr bs"
    using block_without_marker [OF bs(1)] by (simp add: put_bytes_def)
  have c: "cells (msgs p1) ?a = Some ?new" "cells (msgs p2) ?a = Some bs" by (simp_all add: p1_def p2_def)
  have upd: "gw_put (\<lambda>s. bindE (hupd (Some ?a) (\<lambda>_. bs) (msgs s)) (\<lambda>mh. Inr (s\<lparr>msgs := mh\<rparr>))) (g1\<lparr>gw_proc := p1\<rparr>) =
      Inr (g1\<lparr>gw_proc := p2\<rparr>)"
    using c(1) by (simp add: gw_put_def p2_def)
  have rcv: "msg_get OFF_RECEIVER (Some ?a) (msgs p2) = Inr (fld OFF_RECEIVER bs)"
    using c(2) l by (simp add: msg_get_def hread_def)
  have "handle_receive_data_fwd fd n g =
      gw_itc (itc_send GW_SERVER_THREAD (Some ?a) (fld OFF_RECEIVER bs) ITC_MY_MBOX_ID None []) (g1\<lparr>gw_proc := p2\<rparr>)"
    unfolding handle_receive_data_fwd_def r(1) d_def [symmetric]
    using r(2) f sz alloc pay put c(1) upd rcv by (simp add: hread_def del: GW_SERVER_THREAD_def GDF_PAYLOAD_def OFF_SIZE_def OFF_MSGNO_def OFF_RECEIVER_def GDF_PAYLOAD_LENGTH_def)
  then show ?thesis using c(2) by blast
qed

text \<open>
  C3. A message for another host: the gateway sends one packet to the connection of the peer with that
  namespace; in whatever portions the packet arrives there, the server hands \<open>itc_send\<close> a message whose
  block is the original one byte for byte, for the mailbox that the original names, and the rest of the
  connection is untouched.
\<close>

theorem message_crosses_hosts:
  assumes "cells (msgs (gw_proc g)) m = Some rq" and "forwards rq ns (butlast bs)" and "wf_msg bs"
    and "length bs \<le> ITC_GATEWAY_ETH_PACKET_SIZE"
    and "gw_malloc g = (True, g1)" and "gw_sys g1 = ((res, e), g2)" and "0 \<le> res"
    and "tree_lookup (compare_namespace_tcp_tree ns (tcp_client_peers g)) (tcp_client_tree g) = Some i"
    and "delivers fd ds tail h" and "concat ds = fwd_packet (cur_pid (gw_proc g2)) (butlast bs) @ rest"
    and "alloc_state GW_SERVER_THREAD (gw_proc h)" and "length bs \<le> nat (max_mallocsize (gw_proc h))"
    and "can_alloc (msgs (gw_proc h))"
  shows "\<exists>g' h' a ds'.
    handle_fwd_data_out (Some m) g = Inr (True, g') \<and>
    gw_tcp_sent g' = gw_tcp_sent g @ [(tp_fd (tcp_client_peers g ! i), fwd_packet (cur_pid (gw_proc g2)) (butlast bs))] \<and>
    handle_receive_tcp_packet_at_server evs fd h =
      bindE (gw_itc (itc_send GW_SERVER_THREAD (Some a) (fld OFF_RECEIVER bs) ITC_MY_MBOX_ID None []) h')
        (\<lambda>(ok, h''). Inr (True, h'')) \<and>
    cells (msgs (gw_proc h')) a = Some bs \<and> concat ds' = rest \<and> delivers fd ds' tail h'"
proof -
  let ?pay = "butlast bs"
  define d where "d = be32 ITCGW_STATUS_OK @ be32 (of_nat (length ?pay)) @ ?pay"
  have l: "length bs < 2 ^ 31" "length d < 2 ^ 31" "length d = GDF_PAYLOAD + length ?pay"
    using assms(4) by (simp_all add: d_def)
  have ne: "d \<noteq> []" using l(3) by auto
  have sent: "handle_fwd_data_out (Some m) g = Inr (True, g2\<lparr>gw_tcp_sent := gw_tcp_sent g @
      [(tp_fd (tcp_client_peers g ! i), fwd_packet (cur_pid (gw_proc g2)) ?pay)]\<rparr>)"
    using l(1) by (intro handle_fwd_data_out_sends [OF assms(1,2) _ assms(5-8)]) simp
  have "concat ds = gw_header (cur_pid (gw_proc g2)) 222 ITCGW_ITC_DATA_FWD (of_nat (length d)) @ d @ rest"
    using assms(10) l(3) by (simp add: fwd_packet_def d_def)
  from recv_packet [OF assms(9) this ne l(2)] obtain j ds' j' where
      hd: "recv_data fd GWH_SIZE h = (20, gw_header (cur_pid (gw_proc g2)) 222 ITCGW_ITC_DATA_FWD (of_nat (length d)), h\<lparr>gw_in := j\<rparr>)"
      and body: "recv_payload fd (of_nat (length d)) (h\<lparr>gw_in := j\<rparr>) = Inr (int (length d), d, h\<lparr>gw_in := j'\<rparr>)"
      and ds': "concat ds' = rest" "delivers fd ds' tail (h\<lparr>gw_in := j'\<rparr>)"
    by blast
  have "0 < int (length d)" using ne by simp
  from handle_receive_data_fwd_delivers [OF assms(3) l(1) body [unfolded d_def] this [unfolded d_def]] assms(11-13)
  obtain p where p: "cells (msgs p) (fresh (msgs (gw_proc h))) = Some bs"
      "handle_receive_data_fwd fd (of_nat (length d)) (h\<lparr>gw_in := j\<rparr>) =
        gw_itc (itc_send GW_SERVER_THREAD (Some (fresh (msgs (gw_proc h)))) (fld OFF_RECEIVER bs) ITC_MY_MBOX_ID None [])
          (h\<lparr>gw_in := j', gw_proc := p\<rparr>)"
    unfolding d_def by auto
  have "handle_receive_tcp_packet_at_server evs fd h =
      bindE (handle_receive_data_fwd fd (of_nat (length d)) (h\<lparr>gw_in := j\<rparr>)) (\<lambda>(ok, g). Inr (True, g))"
    unfolding handle_receive_tcp_packet_at_server_def hd using gw_header_fields
    by (simp del: GWH_MSGNO_def GWH_PAYLOADLEN_def)
  moreover have "delivers fd ds' tail (h\<lparr>gw_in := j', gw_proc := p\<rparr>)" using ds'(2) by (simp add: delivers_def)
  ultimately show ?thesis
    using sent p ds'(1) by (intro exI [of _ "g2\<lparr>gw_tcp_sent := gw_tcp_sent g @
      [(tp_fd (tcp_client_peers g ! i), fwd_packet (cur_pid (gw_proc g2)) ?pay)]\<rparr>"]
      exI [of _ "h\<lparr>gw_in := j', gw_proc := p\<rparr>"] exI [of _ "fresh (msgs (gw_proc h))"] exI [of _ ds']) simp
qed

section \<open>A question about a mailbox on its way to another host\<close>

definition locate_question :: "int \<Rightarrow> cstr \<Rightarrow> bytes" where
  "locate_question pid name =
     gw_header pid 111 ITCGW_LOCATE_MBOX_REQUEST (of_nat (GLQ_NAME + length name + 1)) @
     be32 ITCGW_STATUS_OK @ name @ [0]"

definition locate_answer :: "int \<Rightarrow> itc_mbox_id \<Rightarrow> bytes" where
  "locate_answer pid mbox_id =
     gw_header pid 111 ITCGW_LOCATE_MBOX_REPLY (of_nat GLR_SIZE) @ be32 ITCGW_STATUS_OK @ be32 mbox_id"

text \<open>Who is asked: every connected peer, in the order of the table.\<close>

lemma ask_peers_all:
  assumes "sys (gw_proc g) = replicate n (0, EOTHER) @ calls" and "length (filter (\<lambda>i. tp_fd (tcp_client_peers g ! i) \<noteq> -1) is) = n"
  shows "ask_peers packet is g =
    (n, g\<lparr>gw_proc := (gw_proc g)\<lparr>sys := calls\<rparr>,
         gw_tcp_sent := gw_tcp_sent g @ map (\<lambda>i. (tp_fd (tcp_client_peers g ! i), packet))
                          (filter (\<lambda>i. tp_fd (tcp_client_peers g ! i) \<noteq> -1) is)\<rparr>)"
  using assms
proof (induction "is" arbitrary: g n)
  case (Cons i "is")
  show ?case
  proof (cases "tp_fd (tcp_client_peers g ! i) = -1")
    case True
    then show ?thesis using Cons.IH [of g n] Cons.prems by (simp add: Let_def)
  next
    case False
    then obtain k where k: "n = Suc k" using Cons.prems(2) by (cases n) auto
    let ?g = "g\<lparr>gw_proc := (gw_proc g)\<lparr>sys := replicate k (0, EOTHER) @ calls\<rparr>,
        gw_tcp_sent := gw_tcp_sent g @ [(tp_fd (tcp_client_peers g ! i), packet)]\<rparr>"
    have "gw_sys g = ((0, EOTHER), g\<lparr>gw_proc := (gw_proc g)\<lparr>sys := replicate k (0, EOTHER) @ calls\<rparr>\<rparr>)"
      using Cons.prems(1) k by (simp add: gw_sys_def sys_next_def)
    then show ?thesis using Cons.IH [of ?g k] Cons.prems(2) False k by (simp add: Let_def)
  qed
qed simp

lemma handle_receive_locate_mbox_answers:
  assumes name: "is_cstr name"
    and r: "recv_payload fd n g = Inr (len, be32 ITCGW_STATUS_OK @ name @ [0], g1)" "0 < len"
    and loc: "itc_locate_sync GW_SERVER_THREAD 1000 name True evs (gw_proc g1) = Inr (mbox_id, ext, p)" "mbox_id \<noteq> ITC_NO_MBOX_ID"
    and calls: "gw_malloc (g1\<lparr>gw_proc := p\<rparr>) = (True, g2)" "gw_sys g2 = ((res, e), g3)" "0 \<le> res"
  shows "handle_receive_locate_mbox evs fd n g =
    Inr (True, g3\<lparr>gw_tcp_sent := gw_tcp_sent g1 @ [(fd, locate_answer (cur_pid (gw_proc g3)) mbox_id)]\<rparr>)"
proof -
  let ?d = "be32 ITCGW_STATUS_OK @ name @ [0]"
  have "get_be32 0 ?d = Inr ITCGW_STATUS_OK" using get_be32_at [of "[]" 0] by simp
  moreover have "takeWhile (\<lambda>b. b \<noteq> 0) (name @ [0]) = name"
    using name by (subst takeWhile_append2) (auto simp: is_cstr_def)
  then have "cstr_at GLQ_NAME ?d = Inr name" by (simp add: cstr_at_def)
  moreover have "gw_tcp_sent g3 = gw_tcp_sent g1"
    using gw_malloc_frame [OF calls(1)] gw_sys_frame [OF calls(2)] by auto
  ultimately show ?thesis unfolding handle_receive_locate_mbox_def r(1)
    using r(2) loc calls
    by (simp add: gw_send_locate_mbox_reply_def locate_answer_def del: GW_SERVER_THREAD_def GLQ_NAME_def)
qed

lemma handle_receive_locate_mbox_reply_passes_on:
  assumes r: "recv_payload fd n g = Inr (len, be32 ITCGW_STATUS_OK @ be32 mbox_id, g1)" "0 < len"
    and i: "tree_lookup (compare_sockfd_tcp_tree fd (tcp_client_peers g1)) (tcp_client_tree g1) = Some i"
  shows "handle_receive_locate_mbox_reply fd n g = reply_to_coord mbox_id (tp_namespace (tcp_client_peers g1 ! i)) g1"
proof -
  let ?d = "be32 ITCGW_STATUS_OK @ be32 mbox_id"
  have "get_be32 0 ?d = Inr ITCGW_STATUS_OK" "get_be32 GLR_MBOX_ID ?d = Inr mbox_id"
    using get_be32_at [of "[]" 0] get_be32_at [of "be32 ITCGW_STATUS_OK" 4 mbox_id "[]"] by simp_all
  then show ?thesis unfolding handle_receive_locate_mbox_reply_def r(1) using r(2) i by simp
qed

text \<open>
  C14. A question about a mailbox that arrives in any portions is answered with what the coordinator of
  that host knows; and the answer, arriving in any portions at the host that asked, is passed on to its
  coordinator with the namespace of the host it came from.
\<close>

theorem location_crosses_hosts:
  assumes "is_cstr name" and "length name < ITC_MAX_NAME_LENGTH"
    and "delivers fd ds tail h" and "concat ds = locate_question pid name @ rest"
    and "itc_locate_sync GW_SERVER_THREAD 1000 name True evs (gw_proc h) = Inr (mbox_id, ext, p)"
    and "mbox_id \<noteq> ITC_NO_MBOX_ID" and "mallocs p = []" and "sys p = (res, e) # calls" and "0 \<le> res"
    and "delivers cfd ds2 tail2 c" and "concat ds2 = locate_answer pid2 mbox_id @ rest2"
    and "tree_lookup (compare_sockfd_tcp_tree cfd (tcp_client_peers c)) (tcp_client_tree c) = Some i"
  shows "(\<exists>h'. handle_receive_tcp_packet_at_server evs fd h = Inr (True, h') \<and>
      gw_tcp_sent h' = gw_tcp_sent h @ [(fd, locate_answer (cur_pid p) mbox_id)]) \<and>
    (\<exists>j. handle_receive_tcp_packet_at_client cfd c =
      bindE (reply_to_coord mbox_id (tp_namespace (tcp_client_peers c ! i)) (c\<lparr>gw_in := j\<rparr>)) (\<lambda>(ok, c). Inr (True, c)))"
proof -
  let ?q = "be32 ITCGW_STATUS_OK @ name @ [0]" and ?a = "be32 ITCGW_STATUS_OK @ be32 mbox_id"
  have q: "length ?q = GLQ_NAME + length name + 1" "length ?q < 2 ^ 31" "?q \<noteq> []" using assms(2) by simp_all
  have "concat ds = gw_header pid 111 ITCGW_LOCATE_MBOX_REQUEST (of_nat (length ?q)) @ ?q @ rest"
    using assms(4) unfolding locate_question_def q(1) by simp
  from recv_packet [OF assms(3) this q(3,2)] obtain x x' where
      qh: "recv_data fd GWH_SIZE h = (20, gw_header pid 111 ITCGW_LOCATE_MBOX_REQUEST (of_nat (length ?q)), h\<lparr>gw_in := x\<rparr>)"
      and qb: "recv_payload fd (of_nat (length ?q)) (h\<lparr>gw_in := x\<rparr>) = Inr (int (length ?q), ?q, h\<lparr>gw_in := x'\<rparr>)"
    by blast
  let ?h = "h\<lparr>gw_in := x'\<rparr>"
  have len: "0 < int (length ?q)" using q(3) by simp
  have loc: "itc_locate_sync GW_SERVER_THREAD 1000 name True evs (gw_proc ?h) = Inr (mbox_id, ext, p)"
    using assms(5) by simp
  have mal: "gw_malloc (?h\<lparr>gw_proc := p\<rparr>) = (True, ?h\<lparr>gw_proc := p\<rparr>)"
    using assms(7) by (simp add: gw_malloc_def malloc_ok_def)
  have sys: "gw_sys (?h\<lparr>gw_proc := p\<rparr>) = ((res, e), ?h\<lparr>gw_proc := p\<lparr>sys := calls\<rparr>\<rparr>)"
    using assms(8) by (simp add: gw_sys_def sys_next_def)
  have "handle_receive_locate_mbox evs fd (of_nat (length ?q)) (h\<lparr>gw_in := x\<rparr>) =
      Inr (True, ?h\<lparr>gw_proc := p\<lparr>sys := calls\<rparr>, gw_tcp_sent := gw_tcp_sent ?h @
        [(fd, locate_answer (cur_pid (gw_proc (?h\<lparr>gw_proc := p\<lparr>sys := calls\<rparr>\<rparr>))) mbox_id)]\<rparr>)"
    by (rule handle_receive_locate_mbox_answers [OF assms(1) qb len loc assms(6) mal sys assms(9)])
  then have server: "handle_receive_tcp_packet_at_server evs fd h =
      Inr (True, ?h\<lparr>gw_proc := p\<lparr>sys := calls\<rparr>, gw_tcp_sent := gw_tcp_sent h @ [(fd, locate_answer (cur_pid p) mbox_id)]\<rparr>)"
    unfolding handle_receive_tcp_packet_at_server_def qh using gw_header_fields
    by (simp del: GWH_MSGNO_def GWH_PAYLOADLEN_def)
  have a: "length ?a = GLR_SIZE" "length ?a < 2 ^ 31" by simp_all
  then have ne: "?a \<noteq> []" by (metis GLR_SIZE_def list.size(3) zero_neq_numeral)
  have "concat ds2 = gw_header pid2 111 ITCGW_LOCATE_MBOX_REPLY (of_nat (length ?a)) @ ?a @ rest2"
    using assms(11) unfolding locate_answer_def a(1) by simp
  from recv_packet [OF assms(10) this ne a(2)] obtain y y' where
      ah: "recv_data cfd GWH_SIZE c = (20, gw_header pid2 111 ITCGW_LOCATE_MBOX_REPLY (of_nat (length ?a)), c\<lparr>gw_in := y\<rparr>)"
      and ab: "recv_payload cfd (of_nat (length ?a)) (c\<lparr>gw_in := y\<rparr>) = Inr (int (length ?a), ?a, c\<lparr>gw_in := y'\<rparr>)"
    by blast
  have "0 < int (length ?a)" using ne by simp
  then have "handle_receive_locate_mbox_reply cfd (of_nat (length ?a)) (c\<lparr>gw_in := y\<rparr>) =
      reply_to_coord mbox_id (tp_namespace (tcp_client_peers c ! i)) (c\<lparr>gw_in := y'\<rparr>)"
    using handle_receive_locate_mbox_reply_passes_on [OF ab] assms(12) by simp
  then have "handle_receive_tcp_packet_at_client cfd c =
      bindE (reply_to_coord mbox_id (tp_namespace (tcp_client_peers c ! i)) (c\<lparr>gw_in := y'\<rparr>)) (\<lambda>(ok, c). Inr (True, c))"
    unfolding handle_receive_tcp_packet_at_client_def ah using gw_header_fields
    by (simp del: GWH_MSGNO_def GWH_PAYLOADLEN_def)
  then show ?thesis using server by auto
qed

section \<open>Announcements\<close>

lemma sscanf_until:
  assumes "c \<notin> set w" and "w \<noteq> []" and "s = [] \<or> hd s = c"
  shows "sscanf (w @ s) (Until c # f) = Str w # sscanf s f"
proof -
  have "takeWhile (\<lambda>b. b \<noteq> c) s = []" "dropWhile (\<lambda>b. b \<noteq> c) s = s" using assms(3) by (cases s; simp)+
  moreover have "takeWhile (\<lambda>b. b \<noteq> c) (w @ s) = w @ takeWhile (\<lambda>b. b \<noteq> c) s"
      "dropWhile (\<lambda>b. b \<noteq> c) (w @ s) = dropWhile (\<lambda>b. b \<noteq> c) s"
    using assms(1) by (auto intro!: takeWhile_append2 dropWhile_append2)
  moreover obtain a x where "w = a # x" using assms(2) by (cases w) auto
  ultimately show ?thesis by (auto simp: Let_def)
qed

lemma sscanf_hu: "s = [] \<or> \<not> is_digit (hd s) \<Longrightarrow> sscanf (dec (unat w) @ s) (Hu # f) = Num w # sscanf s f"
  using scan_hu_dec [of s w] by (cases "dec (unat w) @ s") simp_all

lemma inet_ntoa_no_colon: "58 \<notin> set (inet_ntoa ip)"
  using inet_ntoa_chars [of 58 ip] digit_facts [of 58] by auto

lemma scan_endpoint:
  "sscanf (inet_ntoa ip @ ascii '':'' @ dec (unat port) @ ascii ''/'') ([Until 58] @ lits '':'' @ [Hu] @ lits ''/'') =
     [Str (inet_ntoa ip), Num port]"
proof -
  have "sscanf (inet_ntoa ip @ (58 # dec (unat port) @ [47])) (Until 58 # Lit 58 # Hu # [Lit 47]) =
      Str (inet_ntoa ip) # sscanf (58 # dec (unat port) @ [47]) (Lit 58 # Hu # [Lit 47])"
    by (rule sscanf_until) (use inet_ntoa_no_colon in simp_all)
  also have "sscanf (58 # dec (unat port) @ [47]) (Lit 58 # Hu # [Lit 47]) = [Num port]"
    using sscanf_hu [of "[47]" port "[Lit 47]"] by (simp add: is_digit_def)
  finally show ?thesis by (simp add: lits_def ascii_def is_space_def)
qed

lemma scan_peer_addr: "sscanf (peer_addr (inet_ntoa ip) port) addr_format = [Str (inet_ntoa ip), Num port]"
  using scan_endpoint [of ip port] unfolding peer_addr_def addr_format_def
  by (simp add: lits_def ascii_def is_space_def)

lemma scan_greeting:
  assumes "62 \<notin> set ns" and "ns \<noteq> []"
  shows "sscanf (greeting ns ip port) greeting_format = [Str ns, Str (inet_ntoa ip), Num port]"
proof -
  have "sscanf (ns @ (ascii ''> listening on tcp://'' @ inet_ntoa ip @ ascii '':'' @ dec (unat port) @ ascii ''/''))
      (Until 62 # lits ''> listening on tcp://'' @ [Until 58] @ lits '':'' @ [Hu] @ lits ''/'') =
    Str ns # sscanf (ascii ''> listening on tcp://'' @ inet_ntoa ip @ ascii '':'' @ dec (unat port) @ ascii ''/'')
      (lits ''> listening on tcp://'' @ [Until 58] @ lits '':'' @ [Hu] @ lits ''/'')"
    by (rule sscanf_until [OF assms]) (simp add: ascii_def)
  also have "sscanf (ascii ''> listening on tcp://'' @ inet_ntoa ip @ ascii '':'' @ dec (unat port) @ ascii ''/'')
      (lits ''> listening on tcp://'' @ [Until 58] @ lits '':'' @ [Hu] @ lits ''/'') = [Str (inet_ntoa ip), Num port]"
    using scan_endpoint [of ip port] by (simp add: lits_def ascii_def is_space_def)
  finally show ?thesis unfolding greeting_def greeting_format_def by (simp add: lits_def ascii_def is_space_def)
qed

lemma length_peer_addr: "length (peer_addr (inet_ntoa ip) port) \<le> 28"
proof -
  have "unat port < 10 ^ 5" using unsigned_less [where ?'a = nat and w = port] by simp
  then have "length (dec (unat port)) \<le> 5" by (rule length_dec) simp
  then show ?thesis using length_inet_ntoa [of ip] by (simp add: peer_addr_def ascii_def)
qed

lemma length_greeting: "length (greeting ns ip port) \<le> length ns + 80"
proof -
  have "unat port < 10 ^ 5" using unsigned_less [where ?'a = nat and w = port] by simp
  then have "length (dec (unat port)) \<le> 5" by (rule length_dec) simp
  then show ?thesis using length_inet_ntoa [of ip] by (simp add: greeting_def ascii_def)
qed

lemma is_cstr_greeting: "is_cstr ns \<Longrightarrow> is_cstr (greeting ns ip port)"
  using is_cstr_inet_ntoa [of ip] is_cstr_dec [of "unat port"] by (auto simp: greeting_def is_cstr_def ascii_def)

text \<open>
  C34. What a gateway announces, another gateway understands: the namespace, the address and the port of
  the announcement; and the address that it derives is the one under which connections are recorded,
  from which the client reads the same address and port again.
\<close>

theorem announcement_is_understood:
  assumes "is_cstr (gw_namespace g)" and "gw_namespace g \<noteq> []" and "62 \<notin> set (gw_namespace g)" and "name_fits (gw_namespace g)"
  shows "read_greeting (udp_broadcast_msg (create_broadcast_message g)) =
      Inr (gw_namespace g, inet_ntoa (tcp_server_addr g), ITC_GATEWAY_TCP_LISTENING_PORT) \<and>
    snprintf 40 (peer_addr (inet_ntoa (tcp_server_addr g)) ITC_GATEWAY_TCP_LISTENING_PORT) = accept_addr (tcp_server_addr g) \<and>
    sscanf (accept_addr (tcp_server_addr g)) addr_format =
      [Str (inet_ntoa (tcp_server_addr g)), Num ITC_GATEWAY_TCP_LISTENING_PORT]"
proof -
  let ?ns = "gw_namespace g" and ?ip = "tcp_server_addr g" and ?port = "ITC_GATEWAY_TCP_LISTENING_PORT"
  let ?m = "greeting ?ns ?ip ?port"
  have l: "length ?m < 335" using assms(4) length_greeting [of ?ns ?ip ?port] by (simp add: name_fits_def)
  then have m: "udp_broadcast_msg (create_broadcast_message g) = ?m"
    by (simp add: create_broadcast_message_def snprintf_def del: ITC_GATEWAY_TCP_LISTENING_PORT_def)
  have tw: "takeWhile (\<lambda>b. b \<noteq> 0) ?m = ?m"
    using is_cstr_greeting [OF assms(1)] by (auto simp: is_cstr_def takeWhile_eq_all_conv)
  have r: "read_greeting ?m = Inr (?ns, inet_ntoa ?ip, ?port)"
    using l assms(4) length_inet_ntoa [of ?ip]
    by (simp add: read_greeting_def tw scan_greeting [OF assms(3,2)] del: ITC_GATEWAY_TCP_LISTENING_PORT_def takeWhile_eq_all_conv)
  have a: "snprintf n (peer_addr (inet_ntoa ?ip) ?port) = peer_addr (inet_ntoa ?ip) ?port" if "28 < n" for n
    using length_peer_addr [of ?ip ?port] that by (simp add: snprintf_def)
  show ?thesis using m r a [of 30] a [of 40] scan_peer_addr [of ?ip ?port] by (simp add: accept_addr_def)
qed

text \<open>
  The room for an address in the message to the client thread is too small for long ones: they run into
  the namespace behind, which is copied later.
\<close>

lemma address_runs_into_namespace:
  assumes "cells (msgs s) m = Some bs" and "is_cstr addr" and "is_cstr ns" and "UAP_NAMESPACE - UAP_ADDR \<le> length addr"
    and "usr_put UAP_ADDR (addr @ [0]) (Some m) s = Inr s1" and "usr_put UAP_NAMESPACE (ns @ [0]) (Some m) s1 = Inr s2"
  shows "usr_cstr UAP_ADDR (Some m) s2 = Inr (take (UAP_NAMESPACE - UAP_ADDR) addr @ ns)"
proof -
  have 1: "20 + length addr + 1 \<le> length bs" "s1 = s\<lparr>msgs := (msgs s)\<lparr>cells := (cells (msgs s))(m \<mapsto> blit 20 (addr @ [0]) bs)\<rparr>\<rparr>"
    using assms(1,5) by (auto simp: usr_put_def put_bytes_def outcome_simps split: if_splits)
  let ?b1 = "blit 20 (addr @ [0]) bs"
  have l1: "length ?b1 = length bs" using 1(1) by simp
  have 2: "45 + length ns + 1 \<le> length bs" "cells (msgs s2) m = Some (blit 45 (ns @ [0]) ?b1)"
    using assms(6) 1 l1 by (auto simp: usr_put_def put_bytes_def outcome_simps split: if_splits)
  have "drop 20 (take 45 ?b1) = take 25 addr"
    using 1(1) assms(4) by (simp add: blit_def take_Cons' drop_take)
  moreover have "drop 20 (blit 45 (ns @ [0]) ?b1) = drop 20 (take 45 ?b1) @ (ns @ [0]) @ drop (45 + length ns + 1) ?b1"
    using 2(1) l1 by (simp add: blit_def)
  ultimately have "drop 20 (blit 45 (ns @ [0]) ?b1) = (take 25 addr @ ns) @ 0 # drop (45 + length ns + 1) ?b1" by simp
  moreover have "0 \<notin> set (take 25 addr @ ns)" using assms(2,3) by (auto simp: is_cstr_def dest: in_set_takeD)
  then have "takeWhile (\<lambda>b. b \<noteq> 0) ((take 25 addr @ ns) @ 0 # x) = take 25 addr @ ns" for x
    by (subst takeWhile_append2) auto
  ultimately have "cstr_at 20 (blit 45 (ns @ [0]) ?b1) = Inr (take 25 addr @ ns)" by (simp add: cstr_at_def)
  then show ?thesis using 2(2) by (simp add: usr_cstr_def)
qed

text \<open>
  C35. A host whose dotted address has 15 characters is never connected: the client thread reads an
  address whose port is cut off to 222 and which runs into the namespace.
\<close>

theorem long_address_gets_wrong_port:
  assumes "length (inet_ntoa ip) = 15" and "is_cstr ns" and "ns = [] \<or> \<not> is_digit (hd ns)"
    and "cells (msgs s) m = Some bs"
    and "usr_put UAP_ADDR (accept_addr ip @ [0]) (Some m) s = Inr s1" and "usr_put UAP_NAMESPACE (ns @ [0]) (Some m) s1 = Inr s2"
  shows "\<exists>addr. usr_cstr UAP_ADDR (Some m) s2 = Inr addr \<and> addr \<noteq> accept_addr ip \<and>
    sscanf addr addr_format = [Str (inet_ntoa ip), Num 222]"
proof -
  have d: "dec 22222 = [50, 50, 50, 50, 50]" "dec 222 = [50, 50, 50]" by (simp_all add: dec.simps)
  have a: "accept_addr ip = ascii ''tcp://'' @ inet_ntoa ip @ [58, 50, 50, 50, 50, 50, 47]"
    using assms(1) by (simp add: accept_addr_def snprintf_def peer_addr_def d ascii_def)
  then have t: "take 25 (accept_addr ip) = ascii ''tcp://'' @ inet_ntoa ip @ [58, 50, 50, 50]" "length (accept_addr ip) = 28"
    using assms(1) by (simp_all add: ascii_def)
  let ?x = "take 25 (accept_addr ip) @ ns"
  have "usr_cstr UAP_ADDR (Some m) s2 = Inr (take (UAP_NAMESPACE - UAP_ADDR) (accept_addr ip) @ ns)"
    by (rule address_runs_into_namespace [OF assms(4) accept_addr_cstr assms(2) _ assms(5,6)]) (use t(2) in simp)
  then have r: "usr_cstr UAP_ADDR (Some m) s2 = Inr ?x" by simp
  have "sscanf (inet_ntoa ip @ (58 # [50, 50, 50] @ ns)) (Until 58 # Lit 58 # Hu # [Lit 47]) =
      Str (inet_ntoa ip) # sscanf (58 # [50, 50, 50] @ ns) (Lit 58 # Hu # [Lit 47])"
    by (rule sscanf_until) (use inet_ntoa_no_colon in simp_all)
  also have "sscanf (58 # [50, 50, 50] @ ns) (Lit 58 # Hu # [Lit 47]) = [Num 222]"
    using sscanf_hu [OF assms(3), of 222 "[Lit 47]"] d(2) by (cases ns) simp_all
  finally have "sscanf ?x addr_format = [Str (inet_ntoa ip), Num 222]"
    unfolding t(1) addr_format_def by (simp add: lits_def ascii_def is_space_def)
  moreover have "?x \<noteq> accept_addr ip"
  proof
    assume "?x = accept_addr ip"
    then have "(ascii ''tcp://'' @ inet_ntoa ip @ [58, 50, 50, 50]) @ ns = accept_addr ip" unfolding t(1) .
    then have "ns = [50, 50, 47]" unfolding a by simp
    then show False using assms(3) by (simp add: is_digit_def)
  qed
  ultimately show ?thesis using r by blast
qed

section \<open>Examples\<close>

text \<open>A message without data for the host \<open>Z\<close>, as it reaches the gateway.\<close>

definition net_message :: bytes where
  "net_message = new_message 4 7"

definition net_request :: bytes where
  "net_request = replicate 20 0 @ (90 # 0 # replicate 254 0) @ enc32 20 @ butlast net_message"

definition net_packet :: bytes where
  "net_packet = fwd_packet 1 (butlast net_message)"

lemma net_message_facts: "wf_msg net_message" "length net_message = 21"
  by (simp_all add: net_message_def wf_new_message)

lemma forwards_layout:
  assumes "length z = 20" and "length y = 254" and "length payload < 2 ^ 32"
  shows "forwards (z @ (90 # 0 # y) @ enc32 (of_nat (length payload)) @ payload) [90] payload"
proof -
  let ?rq = "z @ (90 # 0 # y) @ enc32 (of_nat (length payload)) @ payload"
  have "slice 276 4 ?rq = enc32 (of_nat (length payload))" "slice 280 (length payload) ?rq = payload"
    using assms by (simp_all add: slice_def)
  moreover have "cstr_at 20 ?rq = Inr [90]" using assms(1) by (simp add: cstr_at_def)
  ultimately show ?thesis using assms(1,2) by (simp add: forwards_def fld_def)
qed

definition net_sender :: itcgw where
  "net_sender = gw_two_clients\<lparr>gw_proc := (proc0 1 [(0, EOTHER)])\<lparr>msgs := \<lparr>cells = [0 \<mapsto> net_request], fresh = 1,
     malloc_results = []\<rparr>\<rparr>\<rparr>"

definition net_receiver :: "bytes list \<Rightarrow> itcgw" where
  "net_receiver ds = gw_up\<lparr>gw_proc := alloc_example, gw_in := (\<lambda>_. map Inr ds)\<rparr>"

theorem message_crosses_hosts_witness:
  "\<exists>g' h' a. handle_fwd_data_out (Some 0) net_sender = Inr (True, g') \<and>
     gw_tcp_sent g' = gw_tcp_sent net_sender @ [(5, net_packet)] \<and>
     handle_receive_tcp_packet_at_server [] 9 (net_receiver [take 7 net_packet, drop 7 net_packet]) =
       bindE (gw_itc (itc_send GW_SERVER_THREAD (Some a) ITC_NO_MBOX_ID ITC_MY_MBOX_ID None []) h') (\<lambda>(ok, h''). Inr (True, h'')) \<and>
     cells (msgs (gw_proc h')) a = Some net_message"
proof -
  let ?g = net_sender and ?h = "net_receiver [take 7 net_packet, drop 7 net_packet]"
  have c: "cells (msgs (gw_proc ?g)) 0 = Some net_request" by (simp add: net_sender_def)
  let ?g2 = "?g\<lparr>gw_proc := (gw_proc ?g)\<lparr>sys := []\<rparr>\<rparr>"
  have fw: "forwards net_request [90] (butlast net_message)"
    using forwards_layout [of "replicate 20 0" "replicate 254 0" "butlast net_message"] net_message_facts(2)
    by (simp only: net_request_def length_replicate length_butlast) simp
  have len: "length net_message \<le> ITC_GATEWAY_ETH_PACKET_SIZE" by (simp add: net_message_facts)
  have mal: "gw_malloc ?g = (True, ?g)" by (simp add: gw_malloc_def malloc_ok_def net_sender_def proc0_def)
  have sys: "gw_sys ?g = ((0, EOTHER), ?g2)" by (simp add: gw_sys_def sys_next_def net_sender_def proc0_def)
  have pid: "cur_pid (gw_proc ?g2) = 1" by (simp add: net_sender_def proc0_def)
  have peers: "tp_fd (tcp_client_peers ?g ! 0) = 5" using gw_two_clients_peers(3) by (simp add: net_sender_def)
  have lk: "tree_lookup (compare_namespace_tcp_tree [90] (tcp_client_peers ?g)) (tcp_client_tree ?g) = Some 0"
    using gw_two_clients_peers(3) by (simp add: net_sender_def gw_two_clients_def compare_namespace_tcp_tree_def ascii_def)
  have "length net_packet = 48" using net_message_facts(2) length_gw_header by (simp add: net_packet_def fwd_packet_def)
  then have del: "delivers 9 [take 7 net_packet, drop 7 net_packet] [] ?h" by (auto simp: delivers_def net_receiver_def)
  have cat: "concat [take 7 net_packet, drop 7 net_packet] = fwd_packet (cur_pid (gw_proc ?g2)) (butlast net_message) @ []"
    unfolding pid net_packet_def by simp
  have st: "alloc_state GW_SERVER_THREAD (gw_proc ?h)"
    using alloc_example_state by (simp add: alloc_state_def net_receiver_def alloc_example_def)
  have mx: "length net_message \<le> nat (max_mallocsize (gw_proc ?h))" "can_alloc (msgs (gw_proc ?h))"
    by (simp_all add: net_message_facts net_receiver_def alloc_example_def proc0_def)
  have to: "fld OFF_RECEIVER net_message = ITC_NO_MBOX_ID" by (simp add: net_message_def fld_new_message)
  show ?thesis
    using message_crosses_hosts [OF c fw net_message_facts(1) len mal sys _ lk del cat st mx, of "[]"]
    unfolding peers pid to net_packet_def [symmetric] by blast
qed

theorem announcement_is_understood_witness:
  "read_greeting (udp_broadcast_msg (create_broadcast_message gw_up)) = Inr (ascii ''A'', inet_ntoa 0, 22222)"
proof -
  have "gw_namespace gw_up = ascii ''A''" "tcp_server_addr gw_up = 0"
    by (simp_all add: gw_up_def setup_tcp_client_peer_def setup_tcp_server_peer_def itcgw0_def)
  then show ?thesis using announcement_is_understood [of gw_up] by (simp add: ascii_def is_cstr_def name_fits_def)
qed

text \<open>The host 100.100.100.100.\<close>

definition long_ip :: u32 where "long_ip = 0x64646464"

theorem long_address_gets_wrong_port_witness:
  "\<exists>s1 s2 addr. usr_put UAP_ADDR (accept_addr long_ip @ [0]) (Some 0)
        (alloc_example\<lparr>msgs := \<lparr>cells = [0 \<mapsto> replicate 80 0], fresh = 1, malloc_results = []\<rparr>\<rparr>) = Inr s1 \<and>
     usr_put UAP_NAMESPACE [66, 0] (Some 0) s1 = Inr s2 \<and> usr_cstr UAP_ADDR (Some 0) s2 = Inr addr \<and>
     sscanf addr addr_format = [Str (inet_ntoa long_ip), Num 222]"
proof -
  let ?s = "alloc_example\<lparr>msgs := \<lparr>cells = [0 \<mapsto> replicate 80 0], fresh = 1, malloc_results = []\<rparr>\<rparr>"
  have ip: "length (inet_ntoa long_ip) = 15" by (simp add: long_ip_def inet_ntoa_def enc32_def dec.simps)
  have l: "length (accept_addr long_ip) \<le> 28" using length_peer_addr [of long_ip 22222] by (simp add: accept_addr_def snprintf_def)
  obtain s1 where s1: "usr_put UAP_ADDR (accept_addr long_ip @ [0]) (Some 0) ?s = Inr s1"
      "cells (msgs s1) 0 = Some (blit 20 (accept_addr long_ip @ [0]) (replicate 80 0))"
    using l by (simp add: usr_put_def put_bytes_def hread_def)
  obtain s2 where s2: "usr_put UAP_NAMESPACE ([66] @ [0]) (Some 0) s1 = Inr s2"
    using s1(2) l by (simp add: usr_put_def put_bytes_def hread_def)
  have c: "cells (msgs ?s) 0 = Some (replicate 80 0)" by simp
  have ns: "is_cstr [66]" "[66] = [] \<or> \<not> is_digit (hd [66])" by (simp_all add: is_cstr_def is_digit_def)
  show ?thesis using long_address_gets_wrong_port [OF ip ns c s1(1) s2] s1(1) s2 by auto
qed

text \<open>A host that knows the mailbox \<open>A\<close>.\<close>

definition locating_proc :: proc where
  "locating_proc = (proc0 1 [(0, EOTHER)])\<lparr>my_threadlocal_mbox := (\<lambda>_. Some 0),
     itc_inst := itc_instance0\<lparr>local_locating_mbox_tree := [0],
       mboxes := BLive [itc_mailbox0\<lparr>mb_id := 0x100001, mb_name := [65]\<rparr>]\<rparr>\<rparr>"

theorem location_crosses_hosts_witness:
  "\<exists>h h' j. handle_receive_tcp_packet_at_server [] 9 h = Inr (True, h') \<and>
     gw_tcp_sent h' = gw_tcp_sent h @ [(9, locate_answer 1 0x100001)] \<and>
     handle_receive_tcp_packet_at_client 5 (gw_two_clients\<lparr>gw_in := (\<lambda>_. [Inr (locate_answer 1 0x100001)])\<rparr>) =
       bindE (reply_to_coord 0x100001 (ascii ''Z'') (gw_two_clients\<lparr>gw_in := j\<rparr>)) (\<lambda>(ok, c). Inr (True, c))"
proof -
  let ?q = "locate_question 1 [65]" and ?a = "locate_answer 1 0x100001"
  let ?h = "gw_up\<lparr>gw_proc := locating_proc, gw_in := (\<lambda>_. [Inr (take 3 ?q), Inr (drop 3 ?q)])\<rparr>"
    and ?c = "gw_two_clients\<lparr>gw_in := (\<lambda>_. [Inr ?a])\<rparr>"
  have nm: "is_cstr [65]" "length [65::u8] < ITC_MAX_NAME_LENGTH" by (simp_all add: is_cstr_def)
  have lq: "length ?q = 26" "?a \<noteq> []" using length_gw_header by (auto simp: locate_question_def locate_answer_def be32_def enc32_def)
  then have dq: "delivers 9 [take 3 ?q, drop 3 ?q] [] ?h" by (auto simp: delivers_def)
  have cq: "concat [take 3 ?q, drop 3 ?q] = ?q @ []" by simp
  have da: "delivers 5 [?a] [] ?c" using lq(2) by (simp add: delivers_def)
  have ca: "concat [?a] = ?a @ []" by simp
  have loc: "itc_locate_sync GW_SERVER_THREAD 1000 [65] True [] (gw_proc ?h) = Inr (0x100001, None, locating_proc)"
    by (simp add: itc_locate_sync_def locating_proc_def locate_local_mbox_def mbox_at_def proc0_def)
  have p: "mallocs locating_proc = []" "sys locating_proc = (0, EOTHER) # []" "cur_pid locating_proc = 1"
    by (simp_all add: locating_proc_def proc0_def)
  have lk: "tree_lookup (compare_sockfd_tcp_tree 5 (tcp_client_peers ?c)) (tcp_client_tree ?c) = Some 0"
    using gw_two_clients_peers(3) by (simp add: gw_two_clients_def compare_sockfd_tcp_tree_def)
  have id: "(0x100001 :: u32) \<noteq> ITC_NO_MBOX_ID" by simp
  have ns: "tp_namespace (tcp_client_peers ?c ! 0) = ascii ''Z''" using gw_two_clients_peers(3) by simp
  obtain h' j where h': "handle_receive_tcp_packet_at_server [] 9 ?h = Inr (True, h')"
      "gw_tcp_sent h' = gw_tcp_sent ?h @ [(9, ?a)]"
      and c: "handle_receive_tcp_packet_at_client 5 ?c =
        bindE (reply_to_coord 0x100001 (ascii ''Z'') (?c\<lparr>gw_in := j\<rparr>)) (\<lambda>(ok, c). Inr (True, c))"
    using location_crosses_hosts [OF nm dq cq loc id p(1,2) _ da ca lk] unfolding p(3) ns by blast
  have "?c\<lparr>gw_in := j\<rparr> = gw_two_clients\<lparr>gw_in := j\<rparr>" by simp
  then show ?thesis using h' c by (intro exI [of _ ?h] exI [of _ h'] exI [of _ j]) simp
qed

end
