(* ===== verification/Itc_Shm.thy ===== *)
theory Itc_Shm
  imports Itc_Alloc Itc_Fifo
begin

text \<open>
  The message queue in shared memory of \<open>sw/itc/src/transporters/itc_sysvshm.c\<close>: one segment of
  \<open>SYSVSHM_STATIC_ALLOC_PAGES\<close> pages with a header and six pools of slots of a fixed size. A message
  is put into the first free slot of the smallest pool that it fits in; the slots in use are linked
  into one list across the pools. The layout of the segment in bytes, the search for a slot, the
  two halves of the list (the sender appends, the receiver removes the first slot), and that they
  implement a first-in first-out queue.
\<close>

unbundle bit_operations_syntax

section \<open>Data\<close>

definition SYSVSHM_PAGE_SIZE :: nat where [simp]: "SYSVSHM_PAGE_SIZE = 4096"
definition SYSVSHM_SLOT_HEADER_SIZE :: nat where [simp]: "SYSVSHM_SLOT_HEADER_SIZE = 32"
definition MAX_SYSVSHM_SLOTS :: nat where [simp]: "MAX_SYSVSHM_SLOTS = 70"
definition SYSVSHM_STATIC_ALLOC_PAGES :: nat where [simp]: "SYSVSHM_STATIC_ALLOC_PAGES = 25"

text \<open>\<open>sysvshm_pool_type_e\<close>.\<close>

definition POOL_96 :: nat where [simp]: "POOL_96 = 0"
definition POOL_480 :: nat where [simp]: "POOL_480 = 1"
definition POOL_992 :: nat where [simp]: "POOL_992 = 2"
definition POOL_2016 :: nat where [simp]: "POOL_2016 = 3"
definition POOL_4064 :: nat where [simp]: "POOL_4064 = 4"
definition POOL_16352 :: nat where [simp]: "POOL_16352 = 5"
definition POOL_UNLIMIT :: nat where [simp]: "POOL_UNLIMIT = 6"
definition NUM_POOLS :: nat where [simp]: "NUM_POOLS = 7"

record pool_slot =
  whichpool :: int
  whichslot :: int

text \<open>
  A slot: \<open>struct sysvshm_slot_info_t\<close>, and the bytes from \<open>SYSVSHM_SLOT_HEADER_SIZE\<close> to the end of
  the slot.
\<close>

record slot_info =
  next_slot :: pool_slot
  pool_type :: u8
  is_in_use :: bool
  slot_data :: bytes

text \<open>
  The segment: \<open>struct sysvshm_metadata_t\<close> and the pools behind it. \<open>slot_unlimit\<close> is a header
  inside the metadata; its \<open>slot_data\<close> are the unused bytes up to the first pool.
\<close>

record shm_metadata =
  num_pages :: u16
  num_unlimit_pages :: u16
  sh_head :: pool_slot
  sh_tail :: pool_slot
  slot_unlimit :: slot_info
  pools :: "slot_info list list"

definition no_slot :: pool_slot where
  "no_slot = \<lparr>whichpool = -1, whichslot = -1\<rparr>"

definition slot_ref :: "nat \<Rightarrow> nat \<Rightarrow> pool_slot" where
  "slot_ref p i = \<lparr>whichpool = int p, whichslot = int i\<rparr>"

section \<open>Layout\<close>

text \<open>
  The tables that \<open>sysvshm_init\<close> fills in. The metadata takes 32 bytes, \<open>slot_unlimit\<close> starts at
  byte 20 of it.
\<close>

definition SIZEOF_METADATA :: nat where [simp]: "SIZEOF_METADATA = 32"
definition OFFSETOF_SLOT_UNLIMIT :: nat where [simp]: "OFFSETOF_SLOT_UNLIMIT = 20"

definition num_slots :: "nat list" where
  "num_slots = [SYSVSHM_PAGE_SIZE div 128 - (SIZEOF_METADATA div 128 + 1), 16, 8, 8, 4, 3, 1]"

definition slot_sizes :: "int list" where
  "slot_sizes = [128, 512, 1024, 2048, 4096, 16384, -1]"

definition pool_offset :: "nat list" where
  "pool_offset = [(SIZEOF_METADATA div 128 + 1) * 128, SYSVSHM_PAGE_SIZE, 3 * SYSVSHM_PAGE_SIZE,
     5 * SYSVSHM_PAGE_SIZE, 9 * SYSVSHM_PAGE_SIZE, 13 * SYSVSHM_PAGE_SIZE, OFFSETOF_SLOT_UNLIMIT]"

text \<open>The address of a slot, as the code computes it from the start of the segment.\<close>

definition slot_address :: "nat \<Rightarrow> nat \<Rightarrow> int" where
  "slot_address p i = int (pool_offset ! p) + slot_sizes ! p * int i"

text \<open>A segment as the kernel creates it, filled with zeros.\<close>

definition zero_slot :: "nat \<Rightarrow> slot_info" where
  "zero_slot n = \<lparr>next_slot = \<lparr>whichpool = 0, whichslot = 0\<rparr>, pool_type = 0, is_in_use = False,
     slot_data = replicate n 0\<rparr>"

definition data_size :: "nat \<Rightarrow> nat" where
  "data_size p = nat (slot_sizes ! p) - SYSVSHM_SLOT_HEADER_SIZE"

definition shm_zero :: shm_metadata where
  "shm_zero = \<lparr>num_pages = 0, num_unlimit_pages = 0, sh_head = \<lparr>whichpool = 0, whichslot = 0\<rparr>,
     sh_tail = \<lparr>whichpool = 0, whichslot = 0\<rparr>,
     slot_unlimit = zero_slot (pool_offset ! POOL_96 - OFFSETOF_SLOT_UNLIMIT - SYSVSHM_SLOT_HEADER_SIZE),
     pools = map (\<lambda>p. replicate (num_slots ! p) (zero_slot (data_size p))) [POOL_96..<POOL_UNLIMIT]\<rparr>"

section \<open>Access\<close>

definition slot_at :: "pool_slot \<Rightarrow> shm_metadata \<Rightarrow> slot_info outcome" where
  "slot_at r md =
     (let p = nat (whichpool r); i = nat (whichslot r) in
      if whichpool r < 0 \<or> whichslot r < 0 then Inl OutOfBounds
      else if p = POOL_UNLIMIT \<and> i = 0 then Inr (slot_unlimit md)
      else if p < length (pools md) \<and> i < length (pools md ! p) then Inr (pools md ! p ! i)
      else Inl OutOfBounds)"

definition slot_upd :: "pool_slot \<Rightarrow> (slot_info \<Rightarrow> slot_info) \<Rightarrow> shm_metadata \<Rightarrow> shm_metadata outcome" where
  "slot_upd r f md =
     (let p = nat (whichpool r); i = nat (whichslot r) in
      if whichpool r < 0 \<or> whichslot r < 0 then Inl OutOfBounds
      else if p = POOL_UNLIMIT \<and> i = 0 then Inr (md\<lparr>slot_unlimit := f (slot_unlimit md)\<rparr>)
      else if p < length (pools md) \<and> i < length (pools md ! p)
      then Inr (md\<lparr>pools := (pools md)[p := (pools md ! p)[i := f (pools md ! p ! i)]]\<rparr>)
      else Inl OutOfBounds)"

text \<open>The slots of a pool, in the order in which a free one is searched.\<close>

definition pool_slots :: "nat \<Rightarrow> shm_metadata \<Rightarrow> slot_info list" where
  "pool_slots p md = (if p = POOL_UNLIMIT then [slot_unlimit md] else pools md ! p)"

section \<open>Operations\<close>

definition init_slot :: "nat \<Rightarrow> slot_info \<Rightarrow> slot_info" where
  "init_slot p sl = sl\<lparr>pool_type := of_nat p, is_in_use := False, next_slot := no_slot\<rparr>"

definition init_sysvshm_mempool :: "shm_metadata \<Rightarrow> shm_metadata" where
  "init_sysvshm_mempool md =
     md\<lparr>sh_head := no_slot, sh_tail := no_slot, num_pages := of_nat SYSVSHM_STATIC_ALLOC_PAGES,
        num_unlimit_pages := 0,
        pools := map2 (\<lambda>p. map (init_slot p)) [POOL_96..<POOL_UNLIMIT] (pools md)\<rparr>"

text \<open>
  The smallest pool that holds a message of the given size with its header, its end marker and the
  slot's header; \<open>NUM_POOLS\<close> when there is none. The sum is computed in 32 bits.
\<close>

fun pool_loop :: "u32 \<Rightarrow> int list \<Rightarrow> nat \<Rightarrow> nat" where
  "pool_loop msize [] p = p"
| "pool_loop msize (sz # szs) p =
     (if 0 < sz \<and> msize + of_nat ITC_HEADER_SIZE + 1 + 32 \<le> of_int sz then p
      else pool_loop msize szs (Suc p))"

definition which_pool :: "u32 \<Rightarrow> nat" where
  "which_pool msize = pool_loop msize slot_sizes 0"

text \<open>The first free slot from index \<open>k\<close> on; the number of slots when there is none.\<close>

fun free_slot :: "nat \<Rightarrow> slot_info list \<Rightarrow> nat" where
  "free_slot k [] = k"
| "free_slot k (sl # sls) =
     (if \<not> is_in_use sl \<and> next_slot sl = no_slot then k else free_slot (Suc k) sls)"

text \<open>The sender links the slot behind the last one.\<close>

definition link_slot :: "pool_slot \<Rightarrow> shm_metadata \<Rightarrow> shm_metadata outcome" where
  "link_slot r md =
     (if sh_tail md = no_slot then Inr (md\<lparr>sh_head := r, sh_tail := r\<rparr>)
      else bindE (slot_upd (sh_tail md) (\<lambda>sl. sl\<lparr>next_slot := r\<rparr>) md) (\<lambda>md.
           Inr (md\<lparr>sh_tail := r\<rparr>)))"

text \<open>Writing behind the end of a slot would overwrite the slots that follow.\<close>

definition write_slot :: "pool_slot \<Rightarrow> bytes \<Rightarrow> shm_metadata \<Rightarrow> shm_metadata outcome" where
  "write_slot r b md =
     bindE (slot_at r md) (\<lambda>sl.
     bindE (put_bytes 0 b (slot_data sl)) (\<lambda>d.
     slot_upd r (\<lambda>sl. sl\<lparr>slot_data := d\<rparr>) md))"

text \<open>The sender's critical section for a slot inside the segment; \<open>False\<close>: the pool is full.\<close>

definition enqueue_block :: "nat \<Rightarrow> bytes \<Rightarrow> shm_metadata \<Rightarrow> (bool \<times> shm_metadata) outcome" where
  "enqueue_block p b md =
     (let i = free_slot 0 (pool_slots p md) in
      if i = num_slots ! p then Inr (False, md)
      else
        bindE (link_slot (slot_ref p i) md) (\<lambda>md.
        bindE (slot_upd (slot_ref p i) (\<lambda>sl. sl\<lparr>is_in_use := True\<rparr>) md) (\<lambda>md.
        bindE (write_slot (slot_ref p i) b md) (\<lambda>md.
        Inr (True, md)))))"

text \<open>The receiver takes the first slot out of the list and frees it.\<close>

definition remove_head :: "shm_metadata \<Rightarrow> shm_metadata outcome" where
  "remove_head md =
     (let r = sh_head md in
      bindE (slot_at r md) (\<lambda>sl.
      let md = (if sh_head md = sh_tail md then md\<lparr>sh_head := no_slot, sh_tail := no_slot\<rparr>
                else md\<lparr>sh_head := next_slot sl\<rparr>)
      in slot_upd r (\<lambda>sl. sl\<lparr>is_in_use := False, next_slot := no_slot\<rparr>) md))"

section \<open>The layout is sound\<close>

lemma upt_0_6: "[0..<6] = [0, 1, 2, 3, 4, 5 :: nat]"
  by (simp add: upt_rec)

lemma less_6_cases: "p < 6 \<Longrightarrow> p = 0 \<or> p = 1 \<or> p = 2 \<or> p = 3 \<or> p = 4 \<or> p = (5 :: nat)"
  by auto

definition valid_slot :: "nat \<times> nat \<Rightarrow> bool" where
  "valid_slot k \<longleftrightarrow> fst k < POOL_UNLIMIT \<and> snd k < num_slots ! fst k"

lemma slot_inside:
  "valid_slot (p, i) \<Longrightarrow> int SIZEOF_METADATA \<le> slot_address p i \<and>
     slot_address p i + slot_sizes ! p \<le> int (SYSVSHM_STATIC_ALLOC_PAGES * SYSVSHM_PAGE_SIZE)"
  by (auto simp: valid_slot_def slot_address_def slot_sizes_def pool_offset_def num_slots_def
      dest!: less_6_cases)

lemma slots_disjoint:
  "valid_slot (p, i) \<Longrightarrow> valid_slot (q, j) \<Longrightarrow> (p, i) \<noteq> (q, j) \<Longrightarrow>
     slot_address p i + slot_sizes ! p \<le> slot_address q j \<or> slot_address q j + slot_sizes ! q \<le> slot_address p i"
  by (auto simp: valid_slot_def slot_address_def slot_sizes_def pool_offset_def num_slots_def
      dest!: less_6_cases)

section \<open>The slots of a segment\<close>

definition slot_info_at :: "shm_metadata \<Rightarrow> nat \<times> nat \<Rightarrow> slot_info" where
  "slot_info_at md k = pools md ! fst k ! snd k"

definition ref :: "nat \<times> nat \<Rightarrow> pool_slot" where
  "ref k = slot_ref (fst k) (snd k)"

definition set_slot :: "nat \<times> nat \<Rightarrow> (slot_info \<Rightarrow> slot_info) \<Rightarrow> shm_metadata \<Rightarrow> shm_metadata" where
  "set_slot k f md = md\<lparr>pools := (pools md)[fst k := (pools md ! fst k)[snd k := f (slot_info_at md k)]]\<rparr>"

definition shm_shape :: "shm_metadata \<Rightarrow> bool" where
  "shm_shape md \<longleftrightarrow> map length (pools md) = map (\<lambda>p. num_slots ! p) [0..<6] \<and>
     (\<forall>k. valid_slot k \<longrightarrow> length (slot_data (slot_info_at md k)) = data_size (fst k))"

lemma shape_len:
  assumes "shm_shape md" and "p < 6"
  shows "length (pools md) = 6" "length (pools md ! p) = num_slots ! p"
proof -
  have m: "map length (pools md) = map (\<lambda>p. num_slots ! p) [0..<6]" using assms(1) by (simp add: shm_shape_def)
  show l: "length (pools md) = 6" using arg_cong [OF m, of length] by simp
  have "map length (pools md) ! p = map (\<lambda>p. num_slots ! p) [0..<6] ! p" using m by simp
  then show "length (pools md ! p) = num_slots ! p" using l assms(2) by simp
qed

lemma ref_simps [simp]:
  "ref k \<noteq> no_slot" "no_slot \<noteq> ref k" "ref k = ref k' \<longleftrightarrow> k = k'"
  "ref (p, i) = slot_ref p i" "whichpool (ref k) = int (fst k)" "whichslot (ref k) = int (snd k)"
  by (auto simp: ref_def slot_ref_def no_slot_def prod_eq_iff)

lemma slot_at_ref [simp]:
  "shm_shape md \<Longrightarrow> valid_slot k \<Longrightarrow> slot_at (ref k) md = Inr (slot_info_at md k)"
  using shape_len [of md "fst k"] by (auto simp: slot_at_def valid_slot_def slot_info_at_def Let_def)

lemma slot_upd_ref [simp]:
  "shm_shape md \<Longrightarrow> valid_slot k \<Longrightarrow> slot_upd (ref k) f md = Inr (set_slot k f md)"
  using shape_len [of md "fst k"]
  by (auto simp: slot_upd_def valid_slot_def slot_info_at_def set_slot_def Let_def)

lemma slot_info_at_set:
  "shm_shape md \<Longrightarrow> valid_slot k \<Longrightarrow>
     slot_info_at (set_slot k f md) k' = (if k' = k then f (slot_info_at md k) else slot_info_at md k')"
  using shape_len [of md "fst k"]
  by (cases "fst k' = fst k"; cases "snd k' = snd k")
    (auto simp: slot_info_at_def set_slot_def valid_slot_def prod_eq_iff)

lemma shape_set:
  assumes "shm_shape md" and "valid_slot k"
    and "length (slot_data (f (slot_info_at md k))) = length (slot_data (slot_info_at md k))"
  shows "shm_shape (set_slot k f md)"
proof -
  have "map length (pools (set_slot k f md)) = map length (pools md)"
    by (simp add: set_slot_def map_update)
       (metis assms(2) length_list_update list_update_id map_update)
  then show ?thesis
    using assms by (auto simp: shm_shape_def slot_info_at_set)
qed

lemma set_slot_fields [simp]:
  "sh_head (set_slot k f md) = sh_head md" "sh_tail (set_slot k f md) = sh_tail md"
  "num_unlimit_pages (set_slot k f md) = num_unlimit_pages md" "num_pages (set_slot k f md) = num_pages md"
  "slot_unlimit (set_slot k f md) = slot_unlimit md"
  by (simp_all add: set_slot_def)

lemma shape_head [simp]:
  "shm_shape (md\<lparr>sh_head := h\<rparr>) = shm_shape md" "shm_shape (md\<lparr>sh_tail := t\<rparr>) = shm_shape md"
  by (simp_all add: shm_shape_def slot_info_at_def)

lemma slot_info_at_head [simp]:
  "slot_info_at (md\<lparr>sh_head := h\<rparr>) = slot_info_at md" "slot_info_at (md\<lparr>sh_tail := t\<rparr>) = slot_info_at md"
  by (simp_all add: slot_info_at_def fun_eq_iff)

section \<open>The list of slots in use\<close>

text \<open>
  \<open>shm_list md ks\<close>: the slots in use are exactly those of \<open>ks\<close>, linked in this order from the head
  to the tail, and every other slot is free.
\<close>

definition shm_list :: "shm_metadata \<Rightarrow> (nat \<times> nat) list \<Rightarrow> bool" where
  "shm_list md ks \<longleftrightarrow>
     shm_shape md \<and> distinct ks \<and> (\<forall>k \<in> set ks. valid_slot k) \<and>
     sh_head md = (if ks = [] then no_slot else ref (hd ks)) \<and>
     sh_tail md = (if ks = [] then no_slot else ref (last ks)) \<and>
     (\<forall>j < length ks. is_in_use (slot_info_at md (ks ! j)) \<and>
        next_slot (slot_info_at md (ks ! j)) = (if Suc j < length ks then ref (ks ! Suc j) else no_slot)) \<and>
     (\<forall>k. valid_slot k \<longrightarrow> k \<notin> set ks \<longrightarrow>
        \<not> is_in_use (slot_info_at md k) \<and> next_slot (slot_info_at md k) = no_slot) \<and>
     (\<forall>k. valid_slot k \<longrightarrow> pool_type (slot_info_at md k) = of_nat (fst k))"

lemma shm_listD:
  assumes "shm_list md ks"
  shows "shm_shape md" "distinct ks" "\<And>k. k \<in> set ks \<Longrightarrow> valid_slot k"
    "sh_head md = (if ks = [] then no_slot else ref (hd ks))"
    "sh_tail md = (if ks = [] then no_slot else ref (last ks))"
    "\<And>j. j < length ks \<Longrightarrow> is_in_use (slot_info_at md (ks ! j)) \<and>
       next_slot (slot_info_at md (ks ! j)) = (if Suc j < length ks then ref (ks ! Suc j) else no_slot)"
    "\<And>k. valid_slot k \<Longrightarrow> k \<notin> set ks \<Longrightarrow>
       \<not> is_in_use (slot_info_at md k) \<and> next_slot (slot_info_at md k) = no_slot"
    "\<And>k. valid_slot k \<Longrightarrow> pool_type (slot_info_at md k) = of_nat (fst k)"
  using assms by (simp_all add: shm_list_def del: split_paired_All)

lemma shm_list_in_use:
  "shm_list md ks \<Longrightarrow> valid_slot k \<Longrightarrow> is_in_use (slot_info_at md k) \<longleftrightarrow> k \<in> set ks"
  using shm_listD(6,7) by (metis in_set_conv_nth)

text \<open>The search for a free slot.\<close>

definition slot_free :: "slot_info \<Rightarrow> bool" where
  "slot_free sl \<longleftrightarrow> \<not> is_in_use sl \<and> next_slot sl = no_slot"

lemma free_slot_spec:
  "k \<le> free_slot k sls \<and> free_slot k sls \<le> k + length sls \<and>
   (free_slot k sls < k + length sls \<longrightarrow> slot_free (sls ! (free_slot k sls - k))) \<and>
   (free_slot k sls = k + length sls \<longrightarrow> (\<forall>sl \<in> set sls. \<not> slot_free sl))"
proof (induction sls arbitrary: k)
  case (Cons sl sls)
  show ?case
  proof (cases "slot_free sl")
    case True
    then show ?thesis by (simp add: slot_free_def)
  next
    case False
    have "k < free_slot (Suc k) sls" using Cons [of "Suc k"] by simp
    then show ?thesis using Cons [of "Suc k"] False by (auto simp: slot_free_def nth_Cons')
  qed
qed simp

lemma shm_list_free:
  assumes "shm_list md ks" and "valid_slot k"
  shows "slot_free (slot_info_at md k) \<longleftrightarrow> k \<notin> set ks"
  using shm_listD(7) [OF assms] shm_list_in_use [OF assms] by (auto simp: slot_free_def)

lemma free_slot_index:
  assumes "shm_list md ks" and "p < 6" and "valid_slot (p, i0)" and "(p, i0) \<notin> set ks"
  shows "valid_slot (p, free_slot 0 (pool_slots p md))" "(p, free_slot 0 (pool_slots p md)) \<notin> set ks"
proof -
  let ?i = "free_slot 0 (pool_slots p md)"
  have len: "length (pool_slots p md) = num_slots ! p"
    using shape_len [OF shm_listD(1) [OF assms(1)] assms(2)] assms(2) by (simp add: pool_slots_def)
  have nth: "pool_slots p md ! i = slot_info_at md (p, i)" for i
    using assms(2) by (simp add: pool_slots_def slot_info_at_def)
  have "slot_free (pool_slots p md ! i0)"
    using shm_list_free [OF assms(1,3)] assms(4) by (simp add: nth)
  then have "?i \<noteq> num_slots ! p"
    using free_slot_spec [of 0 "pool_slots p md"] assms(3) len by (auto simp: valid_slot_def)
  then have lt: "?i < num_slots ! p" and f: "slot_free (slot_info_at md (p, ?i))"
    using free_slot_spec [of 0 "pool_slots p md"] len by (auto simp: nth)
  show v: "valid_slot (p, ?i)" using lt assms(2) by (simp add: valid_slot_def)
  show "(p, ?i) \<notin> set ks" using shm_list_free [OF assms(1) v] f by simp
qed

lemma enqueue_full:
  assumes "shm_list md ks" and "p < 6" and "\<forall>i. valid_slot (p, i) \<longrightarrow> (p, i) \<in> set ks"
  shows "enqueue_block p b md = Inr (False, md)"
proof -
  have len: "length (pool_slots p md) = num_slots ! p"
    using shape_len [OF shm_listD(1) [OF assms(1)] assms(2)] assms(2) by (simp add: pool_slots_def)
  have "\<not> slot_free (slot_info_at md (p, i))" if "i < num_slots ! p" for i
    using shm_list_free [OF assms(1), of "(p, i)"] assms(2,3) that by (auto simp: valid_slot_def)
  then have "free_slot 0 (pool_slots p md) = num_slots ! p"
    using free_slot_spec [of 0 "pool_slots p md"] len assms(2)
    by (force simp: pool_slots_def slot_info_at_def)
  then show ?thesis by (simp add: enqueue_block_def Let_def)
qed

text \<open>Appending a free slot, and taking the first one away.\<close>

lemma link_slot_list:
  assumes "shm_list md ks" and "valid_slot k" and "k \<notin> set ks" 
    and d: "length d = length (slot_data (slot_info_at md k))"
  shows "\<exists>md'. link_slot (ref k) md = Inr md' \<and> shm_shape md' \<and>
     shm_list (set_slot k (\<lambda>sl. sl\<lparr>is_in_use := True, slot_data := d\<rparr>) md') (ks @ [k]) \<and>
     (\<forall>k'. slot_data (slot_info_at md' k') = slot_data (slot_info_at md k')) \<and>
     num_unlimit_pages md' = num_unlimit_pages md \<and> slot_unlimit md' = slot_unlimit md \<and>
     num_pages md' = num_pages md"
proof (cases "ks = []")
  case True
  let ?md = "md\<lparr>sh_head := ref k, sh_tail := ref k\<rparr>"
  note l = shm_listD [OF assms(1)]
  have "link_slot (ref k) md = Inr ?md" using l(5) True by (simp add: link_slot_def)
  moreover have "shm_list (set_slot k (\<lambda>sl. sl\<lparr>is_in_use := True, slot_data := d\<rparr>) ?md) [k]"
    using l(1) l(7,8) assms True by (auto simp: shm_list_def slot_info_at_set shape_set)
  ultimately show ?thesis using l(1) True by auto
next
  case False
  note l = shm_listD [OF assms(1)]
  let ?t = "last ks" and ?f = "\<lambda>sl. sl\<lparr>is_in_use := True, slot_data := d\<rparr>"
  define md1 where "md1 = set_slot ?t (\<lambda>sl. sl\<lparr>next_slot := ref k\<rparr>) md"
  let ?md = "md1\<lparr>sh_tail := ref k\<rparr>"
  have t: "valid_slot ?t" "?t \<noteq> k" "?t \<in> set ks" using l(3) False assms(3) last_in_set by auto
  have s1: "shm_shape md1" using l(1) t(1) by (simp add: md1_def shape_set)
  have at: "slot_info_at md1 k' = (if k' = ?t then (slot_info_at md ?t)\<lparr>next_slot := ref k\<rparr> else slot_info_at md k')" for k'
    using l(1) t(1) by (simp add: md1_def slot_info_at_set)
  have lk: "link_slot (ref k) md = Inr ?md"
    using l(1,5) t(1) False by (simp add: link_slot_def md1_def)
  have at': "slot_info_at (set_slot k ?f ?md) k' = (if k' = k then ?f (slot_info_at md k) else slot_info_at md1 k')" for k'
    using slot_info_at_set [of ?md k ?f k'] s1 assms(2) t(2) at by simp
  have sh: "shm_shape (set_slot k ?f ?md)"
    using s1 assms(2) d at t(2) by (intro shape_set) simp_all
  have nt: "j < length ks \<Longrightarrow> ks ! j = ?t \<longleftrightarrow> Suc j = length ks" for j
    using l(2) False by (auto simp: last_conv_nth nth_eq_iff_index_eq)
  have nk: "j < length ks \<Longrightarrow> ks ! j \<noteq> k" for j using assms(3) by auto
  have "shm_list (set_slot k ?f ?md) (ks @ [k])"
    unfolding shm_list_def
  proof (intro conjI allI impI)
    fix j assume j: "j < length (ks @ [k])"
    show "is_in_use (slot_info_at (set_slot k ?f ?md) ((ks @ [k]) ! j))"
      using j l(6) [of j] nk [of j] by (auto simp: at' at nth_append less_Suc_eq)
    show "next_slot (slot_info_at (set_slot k ?f ?md) ((ks @ [k]) ! j)) =
      (if Suc j < length (ks @ [k]) then ref ((ks @ [k]) ! Suc j) else no_slot)"
      using j l(6) [of j] l(7) [OF assms(2,3)] nk [of j] nt [of j]
      by (auto simp: at' at nth_append less_Suc_eq)
  next
    fix k' assume "valid_slot k'" "k' \<notin> set (ks @ [k])"
    then show "\<not> is_in_use (slot_info_at (set_slot k ?f ?md) k')"
      "next_slot (slot_info_at (set_slot k ?f ?md) k') = no_slot"
      using l(7) t(3) by (auto simp: at' at)
  next
    fix k' assume "valid_slot k'"
    then show "pool_type (slot_info_at (set_slot k ?f ?md) k') = of_nat (fst k')"
      using l(8) assms(2) t(1) by (simp add: at' at)
  qed (use sh l(2-5) assms(2,3) False in \<open>auto simp: md1_def\<close>)
  then show ?thesis using lk s1 at by (auto simp: md1_def)
qed

lemma enqueue_block_ok:
  assumes "shm_list md ks" and "p < 6" and "valid_slot (p, i0)" and "(p, i0) \<notin> set ks"
    and "length b \<le> data_size p"
  shows "\<exists>i md'. enqueue_block p b md = Inr (True, md') \<and> shm_list md' (ks @ [(p, i)]) \<and> (p, i) \<notin> set ks \<and>
     take (length b) (slot_data (slot_info_at md' (p, i))) = b \<and>
     (\<forall>k. k \<noteq> (p, i) \<longrightarrow> slot_data (slot_info_at md' k) = slot_data (slot_info_at md k)) \<and>
     num_unlimit_pages md' = num_unlimit_pages md \<and> slot_unlimit md' = slot_unlimit md \<and>
     num_pages md' = num_pages md"
proof -
  define i where "i = free_slot 0 (pool_slots p md)"
  let ?k = "(p, i)"
  have k: "valid_slot ?k" "?k \<notin> set ks" using free_slot_index [OF assms(1-4)] by (simp_all add: i_def)
  have len: "length (slot_data (slot_info_at md ?k)) = data_size p"
    using shm_listD(1) [OF assms(1)] k(1) by (auto simp: shm_shape_def)
  define d where "d = blit 0 b (slot_data (slot_info_at md ?k))"
  have d: "length d = length (slot_data (slot_info_at md ?k))" "take (length b) d = b"
    using assms(5) len by (simp_all add: d_def) (simp add: blit_def)
  obtain md1 where md1: "link_slot (ref ?k) md = Inr md1" "shm_shape md1"
    "shm_list (set_slot ?k (\<lambda>sl. sl\<lparr>is_in_use := True, slot_data := d\<rparr>) md1) (ks @ [?k])"
    "\<forall>k'. slot_data (slot_info_at md1 k') = slot_data (slot_info_at md k')"
    "num_unlimit_pages md1 = num_unlimit_pages md" "slot_unlimit md1 = slot_unlimit md" "num_pages md1 = num_pages md"
    using link_slot_list [OF assms(1) k d(1)] by blast
  define md2 where "md2 = set_slot ?k (\<lambda>sl. sl\<lparr>is_in_use := True\<rparr>) md1"
  have s2: "shm_shape md2" using md1(2) k(1) by (simp add: md2_def shape_set)
  have at2: "slot_info_at md2 ?k = (slot_info_at md1 ?k)\<lparr>is_in_use := True\<rparr>"
    using md1(2) k(1) by (simp add: md2_def slot_info_at_set)
  have put: "put_bytes 0 b (slot_data (slot_info_at md2 ?k)) = Inr d"
    using assms(5) len md1(4) at2 by (simp add: put_bytes_def d_def)
  have eq: "set_slot ?k (\<lambda>sl. sl\<lparr>slot_data := d\<rparr>) md2 =
      set_slot ?k (\<lambda>sl. sl\<lparr>is_in_use := True, slot_data := d\<rparr>) md1" (is "_ = ?md")
    using shape_len [OF md1(2), of p] assms(2) k(1)
    by (simp add: md2_def set_slot_def slot_info_at_def valid_slot_def)
  have ne: "i \<noteq> num_slots ! p" using k(1) by (simp add: valid_slot_def)
  have "enqueue_block p b md = Inr (True, ?md)"
    using md1(1,2) k(1) s2 put eq ne
    by (simp add: enqueue_block_def Let_def i_def [symmetric] write_slot_def ref_simps(4) [symmetric]
        md2_def [symmetric] del: ref_simps(4))
  moreover have "slot_data (slot_info_at ?md k') = (if k' = ?k then d else slot_data (slot_info_at md k'))" for k'
    using md1(2,4) k(1) by (simp add: slot_info_at_set del: split_paired_All)
  ultimately show ?thesis
    using md1 k(2) d(2) by (intro exI [of _ i] exI [of _ ?md]) simp
qed

lemma remove_head_ok:
  assumes "shm_list md (k # ks)"
  shows "\<exists>md'. remove_head md = Inr md' \<and> shm_list md' ks \<and>
     (\<forall>k'. slot_data (slot_info_at md' k') = slot_data (slot_info_at md k')) \<and>
     num_unlimit_pages md' = num_unlimit_pages md \<and> slot_unlimit md' = slot_unlimit md \<and>
     num_pages md' = num_pages md"
proof -
  note l = shm_listD [OF assms]
  let ?f = "\<lambda>sl. sl\<lparr>is_in_use := False, next_slot := no_slot\<rparr>"
  have k: "valid_slot k" using l(3) by simp
  define md1 where "md1 = (if ks = [] then md\<lparr>sh_head := no_slot, sh_tail := no_slot\<rparr> else md\<lparr>sh_head := ref (hd ks)\<rparr>)"
  have s1: "shm_shape md1" "slot_info_at md1 = slot_info_at md" using l(1) by (simp_all add: md1_def)
  have nx: "next_slot (slot_info_at md k) = (if ks = [] then no_slot else ref (hd ks))"
    using l(6) [of 0] by (cases ks) simp_all
  have ht: "sh_head md = sh_tail md \<longleftrightarrow> ks = []"
    using l(2,4,5) by (cases ks rule: rev_cases) auto
  have r: "remove_head md = Inr (set_slot k ?f md1)"
    using l(1,4) k nx ht s1 by (auto simp: remove_head_def Let_def md1_def)
  have at: "slot_info_at (set_slot k ?f md1) k' = (if k' = k then ?f (slot_info_at md k) else slot_info_at md k')" for k'
    using slot_info_at_set [OF s1(1) k] s1(2) by simp
  have "shm_list (set_slot k ?f md1) ks"
    unfolding shm_list_def
  proof (intro conjI allI impI)
    fix j assume j: "j < length ks"
    then have "ks ! j \<noteq> k" using l(2) by auto
    then show "is_in_use (slot_info_at (set_slot k ?f md1) (ks ! j))"
      "next_slot (slot_info_at (set_slot k ?f md1) (ks ! j)) = (if Suc j < length ks then ref (ks ! Suc j) else no_slot)"
      using l(6) [of "Suc j"] j by (simp_all add: at)
  next
    fix k' assume "valid_slot k'" "k' \<notin> set ks"
    then show "\<not> is_in_use (slot_info_at (set_slot k ?f md1) k')"
      "next_slot (slot_info_at (set_slot k ?f md1) k') = no_slot"
      using l(7) by (auto simp: at)
  next
    fix k' assume "valid_slot k'"
    then show "pool_type (slot_info_at (set_slot k ?f md1) k') = of_nat (fst k')" using l(8) k by (simp add: at)
  qed (use l(2-5) shape_set [OF s1(1) k] in \<open>auto simp: md1_def\<close>)
  then show ?thesis using r at by (auto simp: md1_def)
qed

section \<open>The segment as a first-in first-out queue\<close>

text \<open>Which messages the pools hold, and the pool that is chosen for one.\<close>

definition fits_pools :: "bytes \<Rightarrow> bool" where
  "fits_pools b \<longleftrightarrow> wf_msg b \<and> length b + SYSVSHM_SLOT_HEADER_SIZE \<le> 16384"

lemma pool_test:
  assumes "unat sz + 49 < 2 ^ 32" and "0 < n" and "n < 2 ^ 32"
  shows "sz + of_nat ITC_HEADER_SIZE + 1 + 32 \<le> (of_int (int n) :: u32) \<longleftrightarrow> unat sz + 49 \<le> n"
proof -
  have a: "sz + of_nat ITC_HEADER_SIZE + 1 + 32 = sz + 49" by (simp add: add.assoc)
  have "unat (sz + 49) = unat sz + 49" using assms(1) by (simp add: unat_word_ariths)
  moreover have "unat (of_int (int n) :: u32) = n" using assms(3) by (simp add: unat_of_nat_small)
  ultimately show ?thesis unfolding a by (simp add: word_le_nat_alt)
qed

lemma which_pool_cases:
  assumes "unat sz + 49 < 2 ^ 32"
  shows "which_pool sz =
    (if unat sz + 49 \<le> 128 then 0 else if unat sz + 49 \<le> 512 then 1 else if unat sz + 49 \<le> 1024 then 2
     else if unat sz + 49 \<le> 2048 then 3 else if unat sz + 49 \<le> 4096 then 4
     else if unat sz + 49 \<le> 16384 then 5 else NUM_POOLS)"
  using pool_test [OF assms, of 128] pool_test [OF assms, of 512] pool_test [OF assms, of 1024]
    pool_test [OF assms, of 2048] pool_test [OF assms, of 4096] pool_test [OF assms, of 16384]
  by (simp add: which_pool_def slot_sizes_def)

lemma which_pool_fits:
  assumes "fits_pools b"
  shows "which_pool (fld OFF_SIZE b) < 6" "length b \<le> data_size (which_pool (fld OFF_SIZE b))"
proof -
  have l: "length b = unat (fld OFF_SIZE b) + 17" "unat (fld OFF_SIZE b) + 49 \<le> 16384"
    using assms by (simp_all add: fits_pools_def wf_msg_def)
  then have "unat (fld OFF_SIZE b) + 49 < 2 ^ 32" by simp
  note w = which_pool_cases [OF this]
  show "which_pool (fld OFF_SIZE b) < 6" "length b \<le> data_size (which_pool (fld OFF_SIZE b))"
    using l w by (simp_all add: data_size_def slot_sizes_def)
qed

text \<open>
  The two ends of the queue as a sender and the receiver use them inside their critical sections.
  A sender that finds its pool full leaves the critical section locked.
\<close>

definition shm_put :: "bytes \<Rightarrow> shm_metadata \<Rightarrow> shm_metadata outcome" where
  "shm_put b md =
     bindE (get32 OFF_SIZE b) (\<lambda>sz.
     bindE (enqueue_block (which_pool sz) b md) (\<lambda>(ok, md). if ok then Inr md else Inl Blocked))"

definition block_in :: "bytes \<Rightarrow> bytes outcome" where
  "block_in d = bindE (get32 OFF_SIZE d) (\<lambda>sz. get_bytes 0 (unat (sz + of_nat ITC_HEADER_SIZE + 1)) d)"

definition shm_take :: "shm_metadata \<Rightarrow> (bytes option \<times> shm_metadata) outcome" where
  "shm_take md =
     (if whichpool (sh_head md) \<noteq> -1 \<and> whichslot (sh_head md) \<noteq> -1 then
        bindE (slot_at (sh_head md) md) (\<lambda>sl.
        bindE (block_in (slot_data sl)) (\<lambda>b.
        bindE (remove_head md) (\<lambda>md. Inr (Some b, md))))
      else Inr (None, md))"

definition holds :: "shm_metadata \<Rightarrow> nat \<times> nat \<Rightarrow> bytes \<Rightarrow> bool" where
  "holds md k b \<longleftrightarrow> fits_pools b \<and> take (length b) (slot_data (slot_info_at md k)) = b"

definition shm_content :: "shm_metadata \<Rightarrow> bytes list \<Rightarrow> bool" where
  "shm_content md bs \<longleftrightarrow> (\<exists>ks. shm_list md ks \<and> list_all2 (holds md) ks bs)"

definition slots_used :: "nat \<Rightarrow> shm_metadata \<Rightarrow> nat set" where
  "slots_used p md = {i. i < num_slots ! p \<and> is_in_use (slot_info_at md (p, i))}"

definition shm_room :: "nat \<Rightarrow> shm_metadata \<Rightarrow> bool" where
  "shm_room n md \<longleftrightarrow> (\<forall>p < 6. n + card (slots_used p md) \<le> num_slots ! p)"

lemma slots_used_list: "shm_list md ks \<Longrightarrow> p < 6 \<Longrightarrow> slots_used p md = {i. (p, i) \<in> set ks}"
  using shm_list_in_use [of md ks] shm_listD(3) [of md ks] by (fastforce simp: slots_used_def valid_slot_def)

lemma finite_slots_used [simp]: "finite (slots_used p md)"
  by (simp add: slots_used_def)

lemma block_in_holds:
  assumes "holds md k b"
  shows "block_in (slot_data (slot_info_at md k)) = Inr b"
proof -
  let ?d = "slot_data (slot_info_at md k)"
  have b: "wf_msg b" "length b < 2 ^ 31" "take (length b) ?d = b"
    using assms by (simp_all add: holds_def fits_pools_def)
  obtain r where r: "?d = b @ r" using b(3) by (metis append_take_drop_id)
  have "slice 12 4 (b @ r) = slice 12 4 b"
    using wf_msg_length [OF b(1)] by (simp add: slice_def)
  then have "fld OFF_SIZE ?d = fld OFF_SIZE b" by (simp add: fld_def r)
  moreover have "unat (fld OFF_SIZE b + 17) = length b"
    using b(1,2) by (simp add: wf_msg_def unat_word_ariths)
  ultimately show ?thesis
    using wf_msg_length [OF b(1)]
    by (simp add: block_in_def add.assoc get_bytes_def slice_def r)
qed

lemma room_slot:
  assumes "shm_room (Suc n) md" and "shm_list md ks" and "p < 6"
  shows "\<exists>i. valid_slot (p, i) \<and> (p, i) \<notin> set ks"
proof (rule ccontr)
  assume "\<not> ?thesis"
  then have "slots_used p md = {i. i < num_slots ! p}"
    using shm_list_in_use [OF assms(2)] assms(3) by (auto simp: slots_used_def valid_slot_def)
  then show False using assms(1,3) by (auto simp: shm_room_def)
qed

lemma shm_put_ok:
  assumes "shm_list md ks" and "list_all2 (holds md) ks bs" and "fits_pools b"
    and "valid_slot (which_pool (fld OFF_SIZE b), i0)" and "(which_pool (fld OFF_SIZE b), i0) \<notin> set ks"
  shows "\<exists>k md'. enqueue_block (which_pool (fld OFF_SIZE b)) b md = Inr (True, md') \<and> shm_list md' (ks @ [k]) \<and>
     list_all2 (holds md') (ks @ [k]) (bs @ [b]) \<and> num_unlimit_pages md' = num_unlimit_pages md \<and>
     fst k = which_pool (fld OFF_SIZE b)"
proof -
  let ?p = "which_pool (fld OFF_SIZE b)"
  note w = which_pool_fits [OF assms(3)]
  obtain i md' where e: "enqueue_block ?p b md = Inr (True, md')" "shm_list md' (ks @ [(?p, i)])" "(?p, i) \<notin> set ks"
    "take (length b) (slot_data (slot_info_at md' (?p, i))) = b"
    "\<forall>k. k \<noteq> (?p, i) \<longrightarrow> slot_data (slot_info_at md' k) = slot_data (slot_info_at md k)"
    "num_unlimit_pages md' = num_unlimit_pages md"
    using enqueue_block_ok [OF assms(1) w(1) assms(4,5) w(2)] by blast
  have same: "holds md' k x = holds md k x" if "k \<in> set ks" for k x
    using e(3,5) that by (metis holds_def)
  have "list_all2 (holds md') ks bs"
    using assms(2) same by (auto simp: list_all2_conv_all_nth)
  then show ?thesis
    using e(1,2,4,6) assms(3)
    by (intro exI [of _ "(?p, i)"] exI [of _ md']) (simp add: list_all2_appendI holds_def)
qed

lemma get32_size: "fits_pools b \<Longrightarrow> get32 OFF_SIZE b = Inr (fld OFF_SIZE b)"
  using wf_msg_length [of b] by (simp add: fits_pools_def)

interpretation shm: fifo shm_put shm_take shm_content shm_room "\<lambda>_. fits_pools"
proof (unfold_locales, goal_cases)
  case (1 md bs n b)
  then obtain ks where ks: "shm_list md ks" "list_all2 (holds md) ks bs" by (auto simp: shm_content_def)
  let ?p = "which_pool (fld OFF_SIZE b)"
  note w = which_pool_fits [OF 1(3)]
  obtain i0 where i0: "valid_slot (?p, i0)" "(?p, i0) \<notin> set ks" using room_slot [OF 1(2) ks(1) w(1)] by blast
  obtain k md' where e: "enqueue_block ?p b md = Inr (True, md')" "shm_list md' (ks @ [k])"
    "list_all2 (holds md') (ks @ [k]) (bs @ [b])"
    using shm_put_ok [OF ks 1(3) i0] by blast
  have c: "card (slots_used p md') \<le> Suc (card (slots_used p md))" if "p < 6" for p
  proof -
    have "slots_used p md' \<subseteq> insert (snd k) (slots_used p md)"
      using slots_used_list [OF e(2) that] slots_used_list [OF ks(1) that] by (cases k) auto
    then have "card (slots_used p md') \<le> card (insert (snd k) (slots_used p md))" by (simp add: card_mono)
    also have "\<dots> \<le> Suc (card (slots_used p md))" by (simp add: card_insert_if)
    finally show ?thesis .
  qed
  have "shm_room n md'"
    unfolding shm_room_def
  proof (intro allI impI)
    fix p :: nat assume p: "p < 6"
    then have "Suc n + card (slots_used p md) \<le> num_slots ! p" using 1(2) by (simp add: shm_room_def)
    then show "n + card (slots_used p md') \<le> num_slots ! p" using c [OF p] by linarith
  qed
  then show ?case
    using e get32_size [OF 1(3)] by (auto simp: shm_put_def shm_content_def)
next
  case (2 md b bs n)
  then obtain k ks where ks: "shm_list md (k # ks)" "holds md k b" "list_all2 (holds md) ks bs"
    by (auto simp: shm_content_def list_all2_Cons2)
  obtain md' where r: "remove_head md = Inr md'" "shm_list md' ks"
    "\<forall>k'. slot_data (slot_info_at md' k') = slot_data (slot_info_at md k')"
    using remove_head_ok [OF ks(1)] by blast
  note l = shm_listD [OF ks(1)]
  have "holds md' = holds md" using r(3) by (simp add: holds_def fun_eq_iff)
  then have "shm_content md' bs" using r(2) ks(3) by (auto simp: shm_content_def)
  moreover have "slots_used p md' \<subseteq> slots_used p md" if "p < 6" for p
    using slots_used_list [OF r(2) that] slots_used_list [OF ks(1) that] by auto
  then have "shm_room n md'" using 2(2) unfolding shm_room_def
    by (meson add_left_mono card_mono finite_slots_used le_trans)
  ultimately show ?case
    using l(1,3,4) r(1) block_in_holds [OF ks(2)] by (simp add: shm_take_def)
next
  case (3 md n)
  then have "sh_head md = no_slot" by (auto simp: shm_content_def dest: shm_listD(4))
  then show ?case using 3 by (simp add: shm_take_def no_slot_def)
qed

text \<open>A segment fresh from the kernel has the shape of the pools, and is empty when it is set up.\<close>

lemma shape_zero: "shm_shape shm_zero"
  by (auto simp: shm_shape_def shm_zero_def valid_slot_def slot_info_at_def zero_slot_def upt_0_6 num_slots_def
      dest!: less_6_cases)

lemma init_mempool_list:
  assumes "shm_shape md"
  shows "shm_list (init_sysvshm_mempool md) []"
proof -
  have len: "length (pools md) = 6" using shape_len [OF assms, of 0] by simp
  have at: "slot_info_at (init_sysvshm_mempool md) k = init_slot (fst k) (slot_info_at md k)" if "valid_slot k" for k
    using that len shape_len(2) [OF assms, of "fst k"]
    by (simp add: slot_info_at_def init_sysvshm_mempool_def valid_slot_def)
  have "map length (pools (init_sysvshm_mempool md)) = map length (pools md)"
    using len by (simp add: init_sysvshm_mempool_def list_eq_iff_nth_eq)
  then have "shm_shape (init_sysvshm_mempool md)"
    using assms at by (auto simp: shm_shape_def init_slot_def)
  then show ?thesis
    using at by (simp add: shm_list_def init_slot_def) (simp add: init_sysvshm_mempool_def)
qed

section \<open>Properties\<close>

text \<open>
  C21. The layout of the shared segment: in the addresses that the code computes from its tables of
  offsets and sizes, every slot of every pool lies behind the metadata and inside the pages of the
  segment, and no two slots overlap. There are exactly \<open>MAX_SYSVSHM_SLOTS\<close> of them.
\<close>

theorem shm_layout_sound:
  assumes "valid_slot (p, i)" and "valid_slot (q, j)" and "(p, i) \<noteq> (q, j)"
  shows "int SIZEOF_METADATA \<le> slot_address p i \<and>
     slot_address p i + slot_sizes ! p \<le> int (SYSVSHM_STATIC_ALLOC_PAGES * SYSVSHM_PAGE_SIZE) \<and>
     (slot_address p i + slot_sizes ! p \<le> slot_address q j \<or> slot_address q j + slot_sizes ! q \<le> slot_address p i) \<and>
     sum_list (take 6 num_slots) = MAX_SYSVSHM_SLOTS"
  using slot_inside [OF assms(1)] slots_disjoint [OF assms] by (simp add: num_slots_def)

theorem shm_layout_sound_witness:
  "slot_address 0 30 + 128 \<le> slot_address 1 0"
proof -
  have "valid_slot (0, 30)" "valid_slot (1, 0)" by (simp_all add: valid_slot_def num_slots_def)
  from shm_layout_sound [OF this] show ?thesis
    by (simp add: slot_address_def pool_offset_def slot_sizes_def)
qed

text \<open>
  C12. The slots of the six pools, linked across the pools, implement a first-in first-out queue:
  whatever sequence of messages of whatever sizes is put in and taken out, the receiver gets what the
  abstract queue answers, as long as the pools have room for the messages put in.
\<close>

theorem shm_queue_is_fifo:
  assumes "shm_content md bs" and "shm_room (n_enqs ops) md" and "\<forall>b \<in> enq_args ops. fits_pools b"
  shows "\<exists>md'. run_ops shm_put shm_take ops md = Inr (fst (spec_run ops bs), md') \<and>
           shm_content md' (snd (spec_run ops bs))"
  by (rule shm.run_refines_spec [OF assms])

lemma fits_new_message: "4 \<le> n \<Longrightarrow> n \<le> 16335 \<Longrightarrow> fits_pools (new_message n x)"
  by (simp add: fits_pools_def wf_new_message)

lemma empty_segment:
  "shm_content (init_sysvshm_mempool shm_zero) []" "shm_room 3 (init_sysvshm_mempool shm_zero)"
proof -
  have l: "shm_list (init_sysvshm_mempool shm_zero) []" by (rule init_mempool_list [OF shape_zero])
  then show "shm_content (init_sysvshm_mempool shm_zero) []" unfolding shm_content_def by auto
  have "slots_used p (init_sysvshm_mempool shm_zero) = {}" if "p < 6" for p
    using slots_used_list [OF l that] by simp
  then show "shm_room 3 (init_sysvshm_mempool shm_zero)"
    by (auto simp: shm_room_def num_slots_def dest: less_6_cases)
qed

theorem shm_queue_is_fifo_witness:
  "\<exists>md'. run_ops shm_put shm_take
      [Enq (new_message 8 7), Enq (new_message 1000 9), Deq, Enq (new_message 8 11), Deq, Deq, Deq]
      (init_sysvshm_mempool shm_zero) =
    Inr ([Some (new_message 8 7), Some (new_message 1000 9), Some (new_message 8 11), None], md') \<and> shm_content md' []"
  using shm_queue_is_fifo [OF empty_segment(1), of
      "[Enq (new_message 8 7), Enq (new_message 1000 9), Deq, Enq (new_message 8 11), Deq, Deq, Deq]"]
    empty_segment(2) fits_new_message
  by (simp add: numeral_3_eq_3)

end
