(* ===== verification/Itc_Sysvshm.thy ===== *)
theory Itc_Sysvshm
  imports Itc_Shm Itc_Sysvmq_Rx
begin

text \<open>
  \<open>sw/itc/src/transporters/itc_sysvshm.c\<close>: the transport over System V shared memory. Every process
  owns one segment with a queue of messages (\<open>Itc_Shm\<close>) and three semaphores; a sender attaches
  itself to the segment of the addressed process, appends the message there and wakes the receiving
  thread, which passes the messages on to the local mailboxes. Larger messages go through a second
  segment that exists only while they are on their way.

  The file replaces \<open>itc_sysvmq.c\<close> when the framework is built with \<open>UT_SYSVSHM_PLUGIN\<close>; the
  operations of \<open>itc.c\<close> that the receiving thread calls are those of \<open>Itc_Core\<close>.
\<close>

unbundle bit_operations_syntax

section \<open>Data\<close>

text \<open>
  What the kernel holds: the segments with queues, the segments for large messages and the
  semaphores, by their identifiers. Removing the identifier of a segment does not take it away from
  the processes that are attached.
\<close>

record sysv_ipc =
  shm_segs :: "int \<Rightarrow> shm_metadata option"
  large_segs :: "int \<Rightarrow> bytes option"
  sems :: "int \<Rightarrow> nat option"

text \<open>A pointer that \<open>shmat\<close> returned: \<open>NULL\<close> before, \<open>(void *) -1\<close> after a failure.\<close>

datatype shm_ptr = ShmNull | ShmFailed | ShmAt int

record sysvshm_contactlist =
  sc_mbox_id_in_itccoord :: itc_mbox_id
  sysvshm_id :: int
  sc_metadata :: shm_ptr
  m_sem_mutex :: int
  m_sem_notify :: int
  m_sem_slot :: int
  unlimit_sysvshm_id :: int
  unlimit_shm_ptr :: shm_ptr

definition no_contact :: sysvshm_contactlist where
  "no_contact = \<lparr>sc_mbox_id_in_itccoord = 0, sysvshm_id = 0, sc_metadata = ShmNull, m_sem_mutex = 0,
     m_sem_notify = 0, m_sem_slot = 0, unlimit_sysvshm_id = 0, unlimit_shm_ptr = ShmNull\<rparr>"

record sysvshm_instance =
  sh_my_mbox_id_in_itccoord :: itc_mbox_id
  sh_itccoord_mask :: itc_mbox_id
  sh_itccoord_shift :: nat
  my_shmid :: int
  my_shm_ptr :: shm_ptr
  my_unlimit_shmid :: int
  my_unlimit_shm_ptr :: shm_ptr
  my_sem_mutex :: int
  my_sem_notify :: int
  my_sem_slot :: int
  sh_is_initialized :: bool
  sh_is_terminated :: bool
  sh_my_mbox_id :: itc_mbox_id
  sysvshm_cl :: "sysvshm_contactlist list"

definition sysvshm_instance0 :: sysvshm_instance where
  "sysvshm_instance0 = \<lparr>sh_my_mbox_id_in_itccoord = 0, sh_itccoord_mask = 0, sh_itccoord_shift = 0,
     my_shmid = 0, my_shm_ptr = ShmNull, my_unlimit_shmid = 0, my_unlimit_shm_ptr = ShmNull,
     my_sem_mutex = 0, my_sem_notify = 0, my_sem_slot = 0, sh_is_initialized = False,
     sh_is_terminated = False, sh_my_mbox_id = 0, sysvshm_cl = replicate MAX_SUPPORTED_PROCESSES no_contact\<rparr>"

text \<open>A process with the variables of this file, and the kernel.\<close>

record shm_state =
  sh_proc :: proc
  sysvshm_inst :: sysvshm_instance
  ipc :: sysv_ipc

abbreviation sh_set :: "(sysvshm_instance \<Rightarrow> sysvshm_instance) \<Rightarrow> shm_state \<Rightarrow> shm_state" where
  "sh_set f s \<equiv> s\<lparr>sysvshm_inst := f (sysvshm_inst s)\<rparr>"

definition SYSVSHM_RX_THREAD :: nat where [simp]: "SYSVSHM_RX_THREAD = 4"
definition SYSVSHM_THREAD_MTX :: nat where [simp]: "SYSVSHM_THREAD_MTX = 1"

section \<open>Operations of the process and the kernel\<close>

definition sh_sys :: "shm_state \<Rightarrow> sysret \<times> shm_state" where
  "sh_sys s = (case sys_next (sh_proc s) of (r, p) \<Rightarrow> (r, s\<lparr>sh_proc := p\<rparr>))"

definition sh_put :: "(proc \<Rightarrow> proc outcome) \<Rightarrow> shm_state \<Rightarrow> shm_state outcome" where
  "sh_put f s = bindE (f (sh_proc s)) (\<lambda>p. Inr (s\<lparr>sh_proc := p\<rparr>))"

definition sh_itc :: "(proc \<Rightarrow> ('a \<times> proc) outcome) \<Rightarrow> shm_state \<Rightarrow> ('a \<times> shm_state) outcome" where
  "sh_itc f s = bindE (f (sh_proc s)) (\<lambda>(a, p). Inr (a, s\<lparr>sh_proc := p\<rparr>))"

text \<open>A failing system call: a bit in the result code, and the value \<open>False\<close>.\<close>

definition sh_fail :: "nat \<Rightarrow> shm_state \<Rightarrow> (bool \<times> shm_state) outcome" where
  "sh_fail t s = bindE (sh_put (rc_or t ITC_SYSCALL_ERROR) s) (\<lambda>s. Inr (False, s))"

text \<open>
  \<open>ftok\<close>; \<open>semget\<close> with \<open>IPC_CREAT | IPC_EXCL\<close>, which makes a semaphore with the value 0; \<open>SETVAL\<close>;
  \<open>shmget\<close> with \<open>IPC_CREAT | IPC_EXCL\<close>, which makes a segment of zeros.
\<close>

definition ftok :: "shm_state \<Rightarrow> int \<times> shm_state" where
  "ftok s = (case sh_sys s of ((key, _), s) \<Rightarrow> (key, s))"

definition sem_create :: "shm_state \<Rightarrow> int \<times> shm_state" where
  "sem_create s = (case sh_sys s of ((r, _), s) \<Rightarrow>
     (r, if r = -1 then s else s\<lparr>ipc := (ipc s)\<lparr>sems := (sems (ipc s))(r \<mapsto> 0)\<rparr>\<rparr>))"

definition sem_setval :: "int \<Rightarrow> nat \<Rightarrow> shm_state \<Rightarrow> bool \<times> shm_state" where
  "sem_setval i v s = (case sh_sys s of ((r, _), s) \<Rightarrow>
     if r = -1 then (False, s) else (True, s\<lparr>ipc := (ipc s)\<lparr>sems := (sems (ipc s))(i \<mapsto> v)\<rparr>\<rparr>))"

definition sem_rmid :: "int \<Rightarrow> shm_state \<Rightarrow> bool \<times> shm_state" where
  "sem_rmid i s = (case sh_sys s of ((r, _), s) \<Rightarrow>
     if r = -1 then (False, s) else (True, s\<lparr>ipc := (ipc s)\<lparr>sems := (sems (ipc s))(i := None)\<rparr>\<rparr>))"

definition shm_create :: "shm_state \<Rightarrow> int \<times> shm_state" where
  "shm_create s = (case sh_sys s of ((r, _), s) \<Rightarrow>
     (r, if r = -1 then s else s\<lparr>ipc := (ipc s)\<lparr>shm_segs := (shm_segs (ipc s))(r \<mapsto> shm_zero)\<rparr>\<rparr>))"

text \<open>
  \<open>semop\<close> with one operation. Waiting for a semaphore whose value is 0 blocks; an operation on a
  semaphore that does not exist fails. The result is whether the call succeeded, and \<open>errno\<close>.
\<close>

definition sem_wait :: "int \<Rightarrow> shm_state \<Rightarrow> ((bool \<times> errno) \<times> shm_state) outcome" where
  "sem_wait i s = (case sh_sys s of ((r, e), s) \<Rightarrow>
     if r = -1 then Inr ((False, e), s)
     else case sems (ipc s) i of
            None \<Rightarrow> Inr ((False, EINVAL), s)
          | Some 0 \<Rightarrow> Inl Blocked
          | Some (Suc n) \<Rightarrow> Inr ((True, e), s\<lparr>ipc := (ipc s)\<lparr>sems := (sems (ipc s))(i \<mapsto> n)\<rparr>\<rparr>))"

definition sem_post :: "int \<Rightarrow> shm_state \<Rightarrow> bool \<times> shm_state" where
  "sem_post i s = (case sh_sys s of ((r, _), s) \<Rightarrow>
     if r = -1 then (False, s)
     else case sems (ipc s) i of
            None \<Rightarrow> (False, s)
          | Some n \<Rightarrow> (True, s\<lparr>ipc := (ipc s)\<lparr>sems := (sems (ipc s))(i \<mapsto> Suc n)\<rparr>\<rparr>))"

text \<open>Access to an attached segment.\<close>

definition seg_get :: "shm_ptr \<Rightarrow> shm_state \<Rightarrow> shm_metadata outcome" where
  "seg_get p s = (case p of
     ShmNull \<Rightarrow> Inl NullDeref
   | ShmFailed \<Rightarrow> Inl OutOfBounds
   | ShmAt i \<Rightarrow> (case shm_segs (ipc s) i of None \<Rightarrow> Inl UseAfterFree | Some md \<Rightarrow> Inr md))"

definition seg_upd ::
  "shm_ptr \<Rightarrow> (shm_metadata \<Rightarrow> ('a \<times> shm_metadata) outcome) \<Rightarrow> shm_state \<Rightarrow> ('a \<times> shm_state) outcome" where
  "seg_upd p f s =
     bindE (seg_get p s) (\<lambda>md.
     bindE (f md) (\<lambda>(a, md).
     Inr (a, case p of ShmAt i \<Rightarrow> s\<lparr>ipc := (ipc s)\<lparr>shm_segs := (shm_segs (ipc s))(i \<mapsto> md)\<rparr>\<rparr> | _ \<Rightarrow> s)))"

definition large_get :: "shm_ptr \<Rightarrow> shm_state \<Rightarrow> bytes outcome" where
  "large_get p s = (case p of
     ShmNull \<Rightarrow> Inl NullDeref
   | ShmFailed \<Rightarrow> Inl OutOfBounds
   | ShmAt i \<Rightarrow> (case large_segs (ipc s) i of None \<Rightarrow> Inl UseAfterFree | Some b \<Rightarrow> Inr b))"

definition large_put :: "shm_ptr \<Rightarrow> bytes \<Rightarrow> shm_state \<Rightarrow> shm_state outcome" where
  "large_put p d s =
     bindE (large_get p s) (\<lambda>b.
     bindE (put_bytes 0 d b) (\<lambda>b.
     Inr (case p of ShmAt i \<Rightarrow> s\<lparr>ipc := (ipc s)\<lparr>large_segs := (large_segs (ipc s))(i \<mapsto> b)\<rparr>\<rparr> | _ \<Rightarrow> s)))"

text \<open>
  \<open>shmget\<close> for a large message with \<open>IPC_CREAT\<close>: the existing segment of the key when there is one
  and it is large enough, otherwise a new one of zeros. Removing it when nobody is attached releases it.
\<close>

definition large_create :: "nat \<Rightarrow> shm_state \<Rightarrow> int \<times> shm_state" where
  "large_create n s = (case sh_sys s of ((r, _), s) \<Rightarrow>
     if r = -1 then (-1, s)
     else case large_segs (ipc s) r of
            Some b \<Rightarrow> (if n \<le> length b then r else -1, s)
          | None \<Rightarrow> (r, s\<lparr>ipc := (ipc s)\<lparr>large_segs := (large_segs (ipc s))(r \<mapsto> replicate n 0)\<rparr>\<rparr>))"

definition large_rmid :: "int \<Rightarrow> shm_state \<Rightarrow> shm_state" where
  "large_rmid i s = (case sh_sys s of ((r, _), s) \<Rightarrow>
     if r = -1 then s else s\<lparr>ipc := (ipc s)\<lparr>large_segs := (large_segs (ipc s))(i := None)\<rparr>\<rparr>)"

text \<open>\<open>shmat\<close>.\<close>

definition shm_attach :: "int \<Rightarrow> shm_state \<Rightarrow> shm_ptr \<times> shm_state" where
  "shm_attach i s = (case sh_sys s of ((r, _), s) \<Rightarrow> (if r = -1 then ShmFailed else ShmAt i, s))"

section \<open>The table of contacts\<close>

definition scl_at :: "nat \<Rightarrow> shm_state \<Rightarrow> sysvshm_contactlist outcome" where
  "scl_at i s = (let cls = sysvshm_cl (sysvshm_inst s) in
     if i < length cls then Inr (cls ! i) else Inl OutOfBounds)"

definition scl_upd :: "nat \<Rightarrow> (sysvshm_contactlist \<Rightarrow> sysvshm_contactlist) \<Rightarrow> shm_state \<Rightarrow> shm_state outcome" where
  "scl_upd i f s = (let cls = sysvshm_cl (sysvshm_inst s) in
     if i < length cls then Inr (sh_set (\<lambda>v. v\<lparr>sysvshm_cl := cls[i := f (cls ! i)]\<rparr>) s) else Inl OutOfBounds)"

definition sh_find_cl :: "nat \<Rightarrow> itc_mbox_id \<Rightarrow> shm_state \<Rightarrow> (nat option \<times> shm_state) outcome" where
  "sh_find_cl t mbox_id s =
     (let pid = drop_bit (sh_itccoord_shift (sysvshm_inst s)) (mbox_id AND sh_itccoord_mask (sysvshm_inst s)) in
      if pid = 0 \<or> of_nat MAX_SUPPORTED_PROCESSES \<le> pid
      then bindE (sh_put (rc_or t ITC_INVALID_ARGUMENTS) s) (\<lambda>s. Inr (None, s))
      else Inr (Some (unat pid), s))"

text \<open>
  The four objects of the other process are looked up one after the other; each failure ends the
  operation. The boolean of the inner steps says whether to go on.
\<close>

definition sem_lookup :: "nat \<Rightarrow> shm_state \<Rightarrow> (int option \<times> shm_state) outcome" where
  "sem_lookup t s =
     (case ftok s of (key, s) \<Rightarrow>
      if key = -1 then bindE (sh_fail t s) (\<lambda>(_, s). Inr (None, s))
      else case sh_sys s of ((sem, _), s) \<Rightarrow>
      if sem = -1 then bindE (sh_fail t s) (\<lambda>(_, s). Inr (None, s))
      else Inr (Some sem, s))"

definition add_sysvshm_cl :: "nat \<Rightarrow> nat \<Rightarrow> itc_mbox_id \<Rightarrow> shm_state \<Rightarrow> shm_state outcome" where
  "add_sysvshm_cl t cl mbox_id s =
     (case ftok s of (key, s) \<Rightarrow>
      if key = -1 then sh_put (rc_or t ITC_SYSCALL_ERROR) s
      else case sh_sys s of ((shmid, _), s) \<Rightarrow>
      if shmid = -1 then sh_put (rc_or t ITC_SYSCALL_ERROR) s
      else case shm_attach shmid s of (shm_ptr, s) \<Rightarrow>
      if shm_ptr = ShmFailed then sh_put (rc_or t ITC_SYSCALL_ERROR) s
      else
        bindE (sem_lookup t s) (\<lambda>(sem_mutex, s). case sem_mutex of None \<Rightarrow> Inr s | Some mutex \<Rightarrow>
        bindE (sem_lookup t s) (\<lambda>(sem_notify, s). case sem_notify of None \<Rightarrow> Inr s | Some notify \<Rightarrow>
        bindE (sem_lookup t s) (\<lambda>(sem_slot, s). case sem_slot of None \<Rightarrow> Inr s | Some slot \<Rightarrow>
        scl_upd cl (\<lambda>_. \<lparr>sc_mbox_id_in_itccoord = mbox_id AND sh_itccoord_mask (sysvshm_inst s),
          sysvshm_id = shmid, sc_metadata = shm_ptr, m_sem_mutex = mutex, m_sem_notify = notify,
          m_sem_slot = slot, unlimit_sysvshm_id = -1, unlimit_shm_ptr = ShmNull\<rparr>) s))))"

definition remove_sysvshm_cl :: "nat \<Rightarrow> itc_mbox_id \<Rightarrow> shm_state \<Rightarrow> shm_state outcome" where
  "remove_sysvshm_cl t mbox_id s =
     bindE (sh_find_cl t mbox_id s) (\<lambda>(cl, s).
     case cl of None \<Rightarrow> Inl NullDeref | Some i \<Rightarrow> scl_upd i (\<lambda>_. no_contact) s)"

definition get_sysvshm_cl :: "nat \<Rightarrow> itc_mbox_id \<Rightarrow> shm_state \<Rightarrow> (nat option \<times> shm_state) outcome" where
  "get_sysvshm_cl t mbox_id s =
     bindE (sh_find_cl t mbox_id s) (\<lambda>(cl, s).
     case cl of None \<Rightarrow> Inr (None, s)
     | Some i \<Rightarrow>
         bindE (scl_at i s) (\<lambda>c.
         if sc_mbox_id_in_itccoord c = 0
         then bindE (add_sysvshm_cl t i mbox_id s) (\<lambda>s. Inr (Some i, s))
         else Inr (Some i, s)))"

fun release_contacts :: "nat list \<Rightarrow> shm_state \<Rightarrow> shm_state outcome" where
  "release_contacts [] s = Inr s"
| "release_contacts (i # is) s =
     bindE (scl_at i s) (\<lambda>c.
     if sc_mbox_id_in_itccoord c = 0 then release_contacts is s
     else
       case sh_sys s of (shmdt, s) \<Rightarrow>
       bindE (scl_upd i (\<lambda>_. no_contact) s) (\<lambda>s. release_contacts is s))"

definition release_sysvshm_contactlist :: "shm_state \<Rightarrow> shm_state outcome" where
  "release_sysvshm_contactlist s = release_contacts [0..<MAX_SUPPORTED_PROCESSES] s"

section \<open>Setting up and down\<close>

definition make_folder :: "shm_state \<Rightarrow> bool \<times> shm_state" where
  "make_folder s = (case sh_sys s of ((r, e), s) \<Rightarrow> (\<not> (r < 0 \<and> e \<noteq> EEXIST), s))"

text \<open>\<open>fopen\<close>, \<open>chmod\<close> whose failure is ignored, \<open>fclose\<close>.\<close>

definition touch_file :: "shm_state \<Rightarrow> bool \<times> shm_state" where
  "touch_file s =
     (case sh_sys s of ((fopen, _), s) \<Rightarrow>
      if fopen < 0 then (False, s)
      else case sh_sys s of (chmod, s) \<Rightarrow>
           case sh_sys s of ((fclose, _), s) \<Rightarrow> (fclose = 0, s))"

fun touch_files :: "nat \<Rightarrow> shm_state \<Rightarrow> bool \<times> shm_state" where
  "touch_files 0 s = (True, s)"
| "touch_files (Suc n) s =
     (case touch_file s of (ok, s) \<Rightarrow> if ok then touch_files n s else (False, s))"

definition shm_generate_msqfile :: "nat \<Rightarrow> shm_state \<Rightarrow> shm_state outcome" where
  "shm_generate_msqfile t s =
     (case make_folder s of (base, s) \<Rightarrow>
      if \<not> base then sh_put (rc_or t ITC_SYSCALL_ERROR) s
      else case make_folder s of (folder, s) \<Rightarrow>
      if \<not> folder then sh_put (rc_or t ITC_SYSCALL_ERROR) s
      else case sh_sys s of (chmod, s) \<Rightarrow>
      case touch_files 5 s of (ok, s) \<Rightarrow>
      if ok then Inr s else sh_put (rc_or t ITC_SYSCALL_ERROR) s)"

definition init_sysvshm_semaphores :: "nat \<Rightarrow> shm_state \<Rightarrow> shm_state outcome" where
  "init_sysvshm_semaphores t s =
     (case ftok s of (key, s) \<Rightarrow>
      if key = -1 then sh_put (rc_or t ITC_SYSCALL_ERROR) s
      else case sem_create s of (mutex, s) \<Rightarrow>
      let s = sh_set (\<lambda>v. v\<lparr>my_sem_mutex := mutex\<rparr>) s in
      if mutex = -1 then sh_put (rc_or t ITC_SYSCALL_ERROR) s
      else case ftok s of (key, s) \<Rightarrow>
      if key = -1 then sh_put (rc_or t ITC_SYSCALL_ERROR) s
      else case sem_create s of (notify, s) \<Rightarrow>
      let s = sh_set (\<lambda>v. v\<lparr>my_sem_notify := notify\<rparr>) s in
      if notify = -1 then sh_put (rc_or t ITC_SYSCALL_ERROR) s
      else case sem_setval notify 0 s of (ok, s) \<Rightarrow>
      if \<not> ok then sh_put (rc_or t ITC_SYSCALL_ERROR) s
      else case ftok s of (key, s) \<Rightarrow>
      if key = -1 then sh_put (rc_or t ITC_SYSCALL_ERROR) s
      else case sem_create s of (slot, s) \<Rightarrow>
      let s = sh_set (\<lambda>v. v\<lparr>my_sem_slot := slot\<rparr>) s in
      if slot = -1 then sh_put (rc_or t ITC_SYSCALL_ERROR) s
      else case sem_setval slot MAX_SYSVSHM_SLOTS s of (ok, s) \<Rightarrow>
      if \<not> ok then sh_put (rc_or t ITC_SYSCALL_ERROR) s
      else Inr s)"

definition init_sysvshm :: "nat \<Rightarrow> shm_state \<Rightarrow> shm_state outcome" where
  "init_sysvshm t s =
     (case ftok s of (key, s) \<Rightarrow>
      if key = -1 then sh_put (rc_or t ITC_SYSCALL_ERROR) s
      else case shm_create s of (shmid, s) \<Rightarrow>
      let s = sh_set (\<lambda>v. v\<lparr>my_shmid := shmid\<rparr>) s in
      if shmid = -1 then sh_put (rc_or t ITC_SYSCALL_ERROR) s
      else case shm_attach shmid s of (p, s) \<Rightarrow>
      let s = sh_set (\<lambda>v. v\<lparr>my_shm_ptr := p\<rparr>) s in
      if p = ShmFailed then sh_put (rc_or t ITC_SYSCALL_ERROR) s
      else case sem_setval (my_sem_mutex (sysvshm_inst s)) 0 s of (ok, s) \<Rightarrow>
      if \<not> ok then sh_put (rc_or t ITC_SYSCALL_ERROR) s
      else
        bindE (seg_upd p (\<lambda>md. Inr ((), init_sysvshm_mempool md)) s) (\<lambda>(_, s).
        case sem_setval (my_sem_mutex (sysvshm_inst s)) 1 s of (ok, s) \<Rightarrow>
        if \<not> ok then sh_put (rc_or t ITC_SYSCALL_ERROR) s
        else Inr s))"

definition remove_sysvshm :: "shm_state \<Rightarrow> shm_state" where
  "remove_sysvshm s =
     (case sh_sys s of (shmdt, s) \<Rightarrow>
      if my_shmid (sysvshm_inst s) \<noteq> -1 then (case sh_sys s of (rmid, s) \<Rightarrow> s) else s)"

definition remove_sysvshm_semaphores :: "shm_state \<Rightarrow> shm_state" where
  "remove_sysvshm_semaphores s =
     (case sem_rmid (my_sem_mutex (sysvshm_inst s)) s of (ok, s) \<Rightarrow>
      if \<not> ok then s
      else case sem_rmid (my_sem_notify (sysvshm_inst s)) s of (ok, s) \<Rightarrow>
      if \<not> ok then s
      else case sem_rmid (my_sem_slot (sysvshm_inst s)) s of (ok, s) \<Rightarrow> s)"

definition init_sysvshm_rx_thread :: "nat \<Rightarrow> shm_state \<Rightarrow> shm_state outcome" where
  "init_sysvshm_rx_thread t s =
     (case sh_sys s of ((key_create, _), s) \<Rightarrow>
      if key_create \<noteq> 0 then sh_put (rc_or t ITC_SYSCALL_ERROR) (remove_sysvshm s)
      else case sh_sys s of ((mutex_init, _), s) \<Rightarrow>
      if mutex_init \<noteq> 0 then sh_put (rc_or t ITC_SYSCALL_ERROR) (remove_sysvshm s)
      else
        sh_put (add_itcthread t SYSVSHM_RX_THREAD False (Some SYSVSHM_THREAD_MTX))
          (s\<lparr>sh_proc := start_mtx_unlock (Some SYSVSHM_THREAD_MTX) (sh_proc s)\<rparr>))"

definition release_sysvshm_resources :: "nat \<Rightarrow> shm_state \<Rightarrow> shm_state outcome" where
  "release_sysvshm_resources t s =
     bindE (release_sysvshm_contactlist (remove_sysvshm_semaphores (remove_sysvshm s))) (\<lambda>s.
     case sh_sys s of ((key_delete, _), s) \<Rightarrow>
     if key_delete \<noteq> 0 then sh_put (rc_or t ITC_SYSCALL_ERROR) s
     else case sh_sys s of ((mutex_destroy, _), s) \<Rightarrow>
     if mutex_destroy \<noteq> 0 then sh_put (rc_or t ITC_SYSCALL_ERROR) s
     else Inr (s\<lparr>sysvshm_inst := sysvshm_instance0\<rparr>))"

text \<open>
  With \<open>ITC_FLAGS_FORCE_REINIT\<close> the pointer \<open>rc\<close>, and not its flags, is compared with \<open>ITC_OK\<close>: the
  function returns after it has released the resources. The three steps of the initialisation are
  made whatever the earlier ones have answered.
\<close>

definition sysvshm_init ::
  "nat \<Rightarrow> itc_mbox_id \<Rightarrow> itc_mbox_id \<Rightarrow> u32 \<Rightarrow> u32 \<Rightarrow> shm_state \<Rightarrow> shm_state outcome" where
  "sysvshm_init t my_mbox_id_in_itccoord itccoord_mask nr flags s =
     (if sh_is_initialized (sysvshm_inst s) then
        (if flags AND ITC_FLAGS_FORCE_REINIT \<noteq> 0 then release_sysvshm_resources t s
         else sh_put (rc_or t ITC_ALREADY_INIT) s)
      else
        bindE (shm_generate_msqfile t s) (\<lambda>s.
        bindE (rc_get t (sh_proc s)) (\<lambda>rc.
        if rc \<noteq> ITC_OK then Inr s
        else
          bindE (shift_loop 33 itccoord_mask 0) (\<lambda>shift.
          let s = sh_set (\<lambda>v. v\<lparr>my_shmid := -1, sh_itccoord_mask := itccoord_mask,
                    sh_itccoord_shift := shift, sh_my_mbox_id_in_itccoord := my_mbox_id_in_itccoord\<rparr>) s in
          bindE (init_sysvshm_semaphores t s) (\<lambda>s.
          bindE (init_sysvshm t s) (\<lambda>s.
          bindE (init_sysvshm_rx_thread t s) (\<lambda>s.
          Inr (sh_set (\<lambda>v. v\<lparr>sh_is_initialized := True\<rparr>) s))))))))"

definition sysvshm_exit :: "nat \<Rightarrow> shm_state \<Rightarrow> shm_state outcome" where
  "sysvshm_exit t s =
     (if \<not> sh_is_initialized (sysvshm_inst s) then sh_put (rc_or t ITC_NOT_INIT_YET) s
      else release_sysvshm_resources t s)"

section \<open>Sending\<close>

text \<open>
  The pool of a message and, when it is too large for the pools, the number of its pages: a 16-bit
  number, computed from the size without the header of a slot.
\<close>

definition choose_pool :: "u32 \<Rightarrow> nat \<times> u16" where
  "choose_pool msize =
     (if which_pool msize = NUM_POOLS
      then (POOL_UNLIMIT, ucast ((msize + of_nat ITC_HEADER_SIZE + 1) div of_nat SYSVSHM_PAGE_SIZE + 1))
      else (which_pool msize, 0))"

definition is_large :: "nat \<Rightarrow> u16 \<Rightarrow> bool" where
  "is_large p pages \<longleftrightarrow> p = POOL_UNLIMIT \<and> slot_sizes ! POOL_16352 div int SYSVSHM_PAGE_SIZE < uint pages"

text \<open>
  Waiting for one of the receiver's semaphores. When it was removed meanwhile the contact is looked
  up again, and if that succeeds the operation goes on without having waited.
\<close>

definition wait_contact ::
  "(sysvshm_contactlist \<Rightarrow> int) \<Rightarrow> nat \<Rightarrow> nat \<Rightarrow> itc_mbox_id \<Rightarrow> shm_state \<Rightarrow> (bool \<times> shm_state) outcome" where
  "wait_contact sem t cl to s =
     bindE (scl_at cl s) (\<lambda>c.
     bindE (sem_wait (sem c) s) (\<lambda>((ok, errno), s).
     if ok then Inr (True, s)
     else if errno \<noteq> EIDRM then sh_fail t s
     else
       bindE (remove_sysvshm_cl t to s) (\<lambda>s.
       bindE (add_sysvshm_cl t cl to s) (\<lambda>s.
       bindE (scl_at cl s) (\<lambda>c.
       Inr (sc_mbox_id_in_itccoord c \<noteq> 0, s))))))"

text \<open>
  The second segment, for one large message to a process. Its failures are recorded, but do not end
  the operation of the caller.
\<close>

definition init_unilimit_sysvshm :: "nat \<Rightarrow> u16 \<Rightarrow> nat \<Rightarrow> shm_state \<Rightarrow> shm_state outcome" where
  "init_unilimit_sysvshm t num_pgs cl s =
     (case ftok s of (key, s) \<Rightarrow>
      if key = -1 then sh_put (rc_or t ITC_SYSCALL_ERROR) s
      else case large_create ((SYSVSHM_STATIC_ALLOC_PAGES + unat num_pgs) * SYSVSHM_PAGE_SIZE) s of (shmid, s) \<Rightarrow>
      bindE (scl_upd cl (\<lambda>c. c\<lparr>unlimit_sysvshm_id := shmid\<rparr>) s) (\<lambda>s.
      if shmid = -1 then sh_put (rc_or t ITC_SYSCALL_ERROR) s
      else case shm_attach shmid s of (p, s) \<Rightarrow>
      bindE (scl_upd cl (\<lambda>c. c\<lparr>unlimit_shm_ptr := p\<rparr>) s) (\<lambda>s.
      if p = ShmFailed then sh_put (rc_or t ITC_SYSCALL_ERROR) s
      else Inr s)))"

text \<open>The header that stands for a large message in the queue.\<close>

definition enqueue_large :: "u16 \<Rightarrow> shm_metadata \<Rightarrow> (unit \<times> shm_metadata) outcome" where
  "enqueue_large pages md =
     (let md = md\<lparr>num_unlimit_pages := pages, num_pages := of_nat SYSVSHM_STATIC_ALLOC_PAGES + pages,
                  slot_unlimit := (slot_unlimit md)\<lparr>next_slot := no_slot, pool_type := of_nat POOL_UNLIMIT\<rparr>\<rparr> in
      bindE (link_slot (slot_ref POOL_UNLIMIT 0) md) (\<lambda>md.
      Inr ((), md\<lparr>slot_unlimit := (slot_unlimit md)\<lparr>is_in_use := True\<rparr>\<rparr>)))"

text \<open>
  The critical section. \<open>False\<close>: the pool is full, the caller returns at once and keeps the mutex.
\<close>

definition insert_message :: "nat \<Rightarrow> nat \<Rightarrow> nat \<Rightarrow> u16 \<Rightarrow> bytes \<Rightarrow> shm_state \<Rightarrow> (bool \<times> shm_state) outcome" where
  "insert_message t cl p pages b s =
     (if is_large p pages then
        bindE (init_unilimit_sysvshm t pages cl s) (\<lambda>s.
        bindE (scl_at cl s) (\<lambda>c.
        bindE (seg_upd (sc_metadata c) (enqueue_large pages) s) (\<lambda>(_, s).
        bindE (large_put (unlimit_shm_ptr c) b s) (\<lambda>s.
        case sh_sys s of (shmdt, s) \<Rightarrow>
        bindE (scl_upd cl (\<lambda>c. c\<lparr>unlimit_sysvshm_id := 0, unlimit_shm_ptr := ShmNull\<rparr>) s) (\<lambda>s.
        Inr (True, s))))))
      else
        bindE (scl_at cl s) (\<lambda>c.
        seg_upd (sc_metadata c) (enqueue_block p b) s))"

definition post_contact ::
  "(sysvshm_contactlist \<Rightarrow> int) \<Rightarrow> nat \<Rightarrow> nat \<Rightarrow> shm_state \<Rightarrow> (bool \<times> shm_state) outcome" where
  "post_contact sem t cl s =
     bindE (scl_at cl s) (\<lambda>c.
     case sem_post (sem c) s of (ok, s) \<Rightarrow> if ok then Inr (True, s) else sh_fail t s)"

definition sysvshm_send :: "nat \<Rightarrow> nat \<Rightarrow> itc_mbox_id \<Rightarrow> shm_state \<Rightarrow> shm_state outcome" where
  "sysvshm_send t message to s =
     (if \<not> sh_is_initialized (sysvshm_inst s) then sh_put (rc_or t ITC_NOT_INIT_YET) s
      else
        bindE (msg_get OFF_SIZE (Some message) (msgs (sh_proc s))) (\<lambda>msize.
        case choose_pool msize of (p, pages) \<Rightarrow>
        bindE (get_sysvshm_cl t to s) (\<lambda>(cl, s).
        bindE (case cl of None \<Rightarrow> Inr 0
               | Some i \<Rightarrow> bindE (scl_at i s) (\<lambda>c. Inr (sc_mbox_id_in_itccoord c))) (\<lambda>contact.
        case (if contact = 0 then None else cl) of
          None \<Rightarrow> sh_put (rc_upd t (\<lambda>f. (f AND NOT ITC_SYSCALL_ERROR) OR ITC_QUEUE_NULL)) s
        | Some i \<Rightarrow>
            bindE (wait_contact m_sem_slot t i to s) (\<lambda>(go, s). if \<not> go then Inr s else
            bindE (wait_contact m_sem_mutex t i to s) (\<lambda>(go, s). if \<not> go then Inr s else
            bindE (hread (Some message) (msgs (sh_proc s))) (\<lambda>bs.
            bindE (get_bytes 0 (unat (msize + of_nat ITC_HEADER_SIZE + 1)) bs) (\<lambda>b.
            bindE (insert_message t i p pages b s) (\<lambda>(go, s). if \<not> go then Inr s else
            bindE (post_contact m_sem_mutex t i s) (\<lambda>(go, s). if \<not> go then Inr s else
            bindE (post_contact m_sem_notify t i s) (\<lambda>(go, s). if \<not> go then Inr s else
            bindE (sh_itc (itc_free t (Some message)) s) (\<lambda>(freed, s).
            Inr s))))))))))))"

section \<open>Receiving\<close>

text \<open>A message in shared memory becomes one of the process, and goes to the local mailbox.\<close>

definition handle_received_message :: "nat \<Rightarrow> bytes \<Rightarrow> proc \<Rightarrow> proc outcome" where
  "handle_received_message t block s =
     bindE (get32 OFF_SIZE block) (\<lambda>sz.
     bindE (get_bytes (OFF_MSGNO + unat sz) 1 block) (\<lambda>endpoint.
     if endpoint \<noteq> [ENDPOINT] then Inr s
     else
       bindE (itc_alloc t (ucast sz) 0 s) (\<lambda>(msg, s).
       bindE (msg_get OFF_FLAGS msg (msgs s)) (\<lambda>flags.
       bindE (get_bytes 0 (unat (sz + of_nat ITC_HEADER_SIZE + 1)) block) (\<lambda>rxmsg.
       bindE (hread msg (msgs s)) (\<lambda>bs.
       bindE (put_bytes 0 rxmsg bs) (\<lambda>bs.
       bindE (hupd msg (\<lambda>_. bs) (msgs s)) (\<lambda>mh.
       bindE (msg_put OFF_FLAGS (ucast (ucast flags :: u16)) msg mh) (\<lambda>mh.
       bindE (msg_get OFF_RECEIVER msg mh) (\<lambda>receiver.
       bindE (itc_send_host t msg receiver ITC_MY_MBOX_ID (s\<lparr>msgs := mh\<rparr>)) (\<lambda>(sent, s).
       Inr s)))))))))))"

definition sysvshm_rx_boot :: "nat \<Rightarrow> shm_state \<Rightarrow> shm_state outcome" where
  "sysvshm_rx_boot t s =
     (case sh_sys s of ((prctl, _), s) \<Rightarrow>
      if prctl = -1 then Inr s
      else
        bindE (sh_itc (itc_create_mailbox t
                 (ascii ''itc_rx_sysvshm_0x'' @ hex32 (sh_my_mbox_id_in_itccoord (sysvshm_inst s)))
                 ITC_NO_NAMESPACE) s) (\<lambda>(mbox_id, s).
        let s = sh_set (\<lambda>v. v\<lparr>sh_my_mbox_id := mbox_id\<rparr>) s in
        case sh_sys s of ((setspecific, _), s) \<Rightarrow>
        if setspecific \<noteq> 0 then Inr s
        else Inr (s\<lparr>sh_proc := start_mtx_unlock (Some SYSVSHM_THREAD_MTX) (sh_proc s)\<rparr>)))"

definition get_my_unlimit_shm :: "u16 \<Rightarrow> shm_state \<Rightarrow> shm_state" where
  "get_my_unlimit_shm num_pgs s =
     (case ftok s of (key, s) \<Rightarrow>
      if key = -1 then s
      else case sh_sys s of ((shmid, _), s) \<Rightarrow>
      let s = sh_set (\<lambda>v. v\<lparr>my_unlimit_shmid := shmid\<rparr>) s in
      if shmid = -1 then s
      else case shm_attach shmid s of (p, s) \<Rightarrow> sh_set (\<lambda>v. v\<lparr>my_unlimit_shm_ptr := p\<rparr>) s)"

text \<open>The part between taking and releasing the mutex, when the queue is not empty.\<close>

definition receive_head :: "nat \<Rightarrow> shm_state \<Rightarrow> shm_state outcome" where
  "receive_head t s =
     bindE (seg_get (my_shm_ptr (sysvshm_inst s)) s) (\<lambda>md.
     let large = (whichpool (sh_head md) = int POOL_UNLIMIT \<and> 0 < num_unlimit_pages md);
         s = (if large \<and> my_unlimit_shmid (sysvshm_inst s) = 0 \<and> my_unlimit_shm_ptr (sysvshm_inst s) = ShmNull
              then get_my_unlimit_shm (num_unlimit_pages md) s else s)
     in
     bindE (slot_at (sh_head md) md) (\<lambda>slot.
     bindE (if \<not> is_in_use slot \<or> of_nat POOL_UNLIMIT < pool_type slot then Inr s
            else if large then
              bindE (large_get (my_unlimit_shm_ptr (sysvshm_inst s)) s) (\<lambda>b. sh_put (handle_received_message t b) s)
            else sh_put (handle_received_message t (slot_data slot)) s) (\<lambda>s.
     bindE (seg_upd (my_shm_ptr (sysvshm_inst s)) (\<lambda>md. bindE (remove_head md) (\<lambda>md. Inr ((), md))) s) (\<lambda>(_, s).
     if large then
       case sh_sys s of (shmdt, s) \<Rightarrow>
       let s = sh_set (\<lambda>v. v\<lparr>my_unlimit_shmid := 0, my_unlimit_shm_ptr := ShmNull\<rparr>)
                 (large_rmid (my_unlimit_shmid (sysvshm_inst s)) s) in
       bindE (seg_upd (my_shm_ptr (sysvshm_inst s))
                (\<lambda>md. Inr ((), md\<lparr>num_unlimit_pages := 0, num_pages := of_nat SYSVSHM_STATIC_ALLOC_PAGES\<rparr>)) s)
             (\<lambda>(_, s). Inr s)
     else Inr s))))"

text \<open>One round of the endless loop; \<open>False\<close>: the loop ends.\<close>

definition sysvshm_rx_round :: "nat \<Rightarrow> shm_state \<Rightarrow> (bool \<times> shm_state) outcome" where
  "sysvshm_rx_round t s =
     (if sh_is_terminated (sysvshm_inst s) then Inr (False, s)
      else
        bindE (sem_wait (my_sem_notify (sysvshm_inst s)) s) (\<lambda>((ok, _), s). if \<not> ok then Inr (False, s) else
        bindE (sem_wait (my_sem_mutex (sysvshm_inst s)) s) (\<lambda>((ok, _), s). if \<not> ok then Inr (False, s) else
        bindE (seg_get (my_shm_ptr (sysvshm_inst s)) s) (\<lambda>md.
        bindE (if whichpool (sh_head md) \<noteq> -1 \<and> whichslot (sh_head md) \<noteq> -1 then receive_head t s else Inr s) (\<lambda>s.
        case sem_post (my_sem_mutex (sysvshm_inst s)) s of (ok, s) \<Rightarrow> if \<not> ok then Inr (False, s) else
        case sem_post (my_sem_slot (sysvshm_inst s)) s of (ok, s) \<Rightarrow> Inr (ok, s))))))"

fun sysvshm_rx_rounds :: "nat \<Rightarrow> nat \<Rightarrow> shm_state \<Rightarrow> shm_state outcome" where
  "sysvshm_rx_rounds t 0 s = Inr s"
| "sysvshm_rx_rounds t (Suc n) s =
     bindE (sysvshm_rx_round t s) (\<lambda>(go, s). if go then sysvshm_rx_rounds t n s else Inr s)"

definition sysvshm_rxthread_destructor :: "shm_state \<Rightarrow> shm_state" where
  "sysvshm_rxthread_destructor s =
     (if my_shmid (sysvshm_inst s) \<noteq> -1 then
        (case sh_sys (sh_set (\<lambda>v. v\<lparr>sh_is_terminated := True\<rparr>) s) of (rmid, s) \<Rightarrow>
         sh_set (\<lambda>v. v\<lparr>my_shmid := -1\<rparr>) s)
      else s)"

end
