(* ===== verification/Itc_Sysvshm_Run.thy ===== *)
theory Itc_Sysvshm_Run
  imports Itc_Sysvshm Itc_Remote
begin

text \<open>
  What the transport over shared memory does from one process to another: messages that fit the
  pools arrive in order, unchanged; what happens when a pool is full, with messages between the
  largest pool and the large ones, with two large messages at a time, and after a reconnection.
\<close>

unbundle bit_operations_syntax

section \<open>Lemmas\<close>

definition sh_cfg :: "shm_state \<Rightarrow> bool" where
  "sh_cfg s \<longleftrightarrow> sh_is_initialized (sysvshm_inst s) \<and> sh_itccoord_mask (sysvshm_inst s) = ITC_COORD_MASK \<and>
     sh_itccoord_shift (sysvshm_inst s) = ITC_COORD_SHIFT \<and>
     length (sysvshm_cl (sysvshm_inst s)) = MAX_SUPPORTED_PROCESSES"

lemma sh_sys_Nil [simp]: "sys (sh_proc s) = [] \<Longrightarrow> sh_sys s = ((0, EOTHER), s)"
  by (simp add: sh_sys_def)

lemma sh_sys_Cons [simp]:
  "sys (sh_proc s) = r # rs \<Longrightarrow> sh_sys s = (r, s\<lparr>sh_proc := (sh_proc s)\<lparr>sys := rs\<rparr>\<rparr>)"
  by (simp add: sh_sys_def)

lemma sh_find_cl_eq:
  assumes "sh_cfg s" and "rcs (sh_proc s) t = BLive w" and "0 < proc_index i" and "proc_index i < 255"
  shows "sh_find_cl t i s = Inr (Some (proc_index i), s)"
proof -
  define pid where "pid = drop_bit 20 (i AND 0xFFF00000 :: u32)"
  have u: "unat pid = proc_index i" unfolding pid_def by (rule proc_index_word)
  have "pid \<noteq> 0" "\<not> 255 \<le> pid" using u assms(3,4) by (auto simp: word_le_nat_alt)
  then show ?thesis
    using assms(1) u by (simp add: sh_find_cl_def sh_cfg_def Let_def pid_def [symmetric] pid_def [simplified, symmetric])
qed

text \<open>
  A sender with an established contact: the segment of the other process with its list, and the
  three semaphores. The mutex is free.
\<close>

definition sh_contact :: "itc_mbox_id \<Rightarrow> sysvshm_contactlist \<Rightarrow> int \<Rightarrow> shm_metadata \<Rightarrow> nat \<Rightarrow> nat \<Rightarrow> shm_state \<Rightarrow> bool" where
  "sh_contact to c g md a n s \<longleftrightarrow>
     sh_cfg s \<and> 0 < proc_index to \<and> proc_index to < 255 \<and>
     sysvshm_cl (sysvshm_inst s) ! proc_index to = c \<and> sc_mbox_id_in_itccoord c \<noteq> 0 \<and>
     sc_metadata c = ShmAt g \<and> shm_segs (ipc s) g = Some md \<and>
     distinct [m_sem_slot c, m_sem_mutex c, m_sem_notify c] \<and>
     sems (ipc s) (m_sem_slot c) = Some a \<and> sems (ipc s) (m_sem_mutex c) = Some 1 \<and>
     sems (ipc s) (m_sem_notify c) = Some n"

definition sh_sender :: "nat \<Rightarrow> nat \<Rightarrow> bytes \<Rightarrow> shm_state \<Rightarrow> bool" where
  "sh_sender t m bs s \<longleftrightarrow> alloc_state t (sh_proc s) \<and> rcs (sh_proc s) t = BLive 0 \<and>
     cells (msgs (sh_proc s)) m = Some bs \<and> wf_msg bs \<and> \<not> inrx bs \<and> length bs < 2 ^ 31"

definition ipc_step :: "sysvshm_contactlist \<Rightarrow> int \<Rightarrow> shm_metadata \<Rightarrow> nat \<Rightarrow> nat \<Rightarrow> nat \<Rightarrow> sysv_ipc \<Rightarrow> sysv_ipc" where
  "ipc_step c g md a x n k = k\<lparr>shm_segs := (shm_segs k)(g \<mapsto> md),
     sems := (sems k)(m_sem_slot c \<mapsto> a, m_sem_mutex c \<mapsto> x, m_sem_notify c \<mapsto> n)\<rparr>"

lemma scl_at_contact: "sh_contact to c g md a n s \<Longrightarrow> scl_at (proc_index to) s = Inr c"
  by (simp add: sh_contact_def scl_at_def sh_cfg_def Let_def)

lemma get_contact:
  assumes "sh_contact to c g md a n s" and "rcs (sh_proc s) t = BLive w"
  shows "get_sysvshm_cl t to s = Inr (Some (proc_index to), s)"
  using sh_find_cl_eq [of s t w to] scl_at_contact [OF assms(1)] assms
  by (simp add: get_sysvshm_cl_def sh_contact_def)

lemma scl_at_ipc [simp]: "scl_at i (s\<lparr>ipc := k\<rparr>) = scl_at i s"
  by (simp add: scl_at_def)

lemma wait_contact_ok:
  assumes "scl_at i s = Inr c" and "sys (sh_proc s) = []" and "sems (ipc s) (f c) = Some (Suc v)"
  shows "wait_contact f t i to s = Inr (True, s\<lparr>ipc := (ipc s)\<lparr>sems := (sems (ipc s))(f c \<mapsto> v)\<rparr>\<rparr>)"
  using assms by (simp add: wait_contact_def sem_wait_def)

lemma wait_contact_blocked:
  assumes "scl_at i s = Inr c" and "sys (sh_proc s) = []" and "sems (ipc s) (f c) = Some 0"
  shows "wait_contact f t i to s = Inl Blocked"
  using assms by (simp add: wait_contact_def sem_wait_def)

lemma post_contact_ok:
  assumes "scl_at i s = Inr c" and "sys (sh_proc s) = []" and "sems (ipc s) (f c) = Some v"
  shows "post_contact f t i s = Inr (True, s\<lparr>ipc := (ipc s)\<lparr>sems := (sems (ipc s))(f c \<mapsto> Suc v)\<rparr>\<rparr>)"
  using assms by (simp add: post_contact_def sem_post_def)

lemma sysvshm_send_static:
  assumes con: "sh_contact to c g md (Suc a) n s" and snd: "sh_sender t m bs s" and sys: "sys (sh_proc s) = []"
    and pool: "choose_pool (fld OFF_SIZE bs) = (p, pages)" "\<not> is_large p pages"
  shows "sysvshm_send t m to s =
    bindE (enqueue_block p bs md) (\<lambda>(ok, md'). if \<not> ok
      then Inr (s\<lparr>ipc := ipc_step c g md' a 0 n (ipc s)\<rparr>)
      else Inr (s\<lparr>ipc := ipc_step c g md' a 1 (Suc n) (ipc s),
                  sh_proc := (sh_proc s)\<lparr>rcs := (rcs (sh_proc s))(t := BLive ITC_OK),
                    msgs := (msgs (sh_proc s))\<lparr>cells := (cells (msgs (sh_proc s)))(m := None)\<rparr>\<rparr>\<rparr>))"
proof -
  let ?i = "proc_index to"
  have S: "alloc_state t (sh_proc s)" "rcs (sh_proc s) t = BLive 0" "cells (msgs (sh_proc s)) m = Some bs" "wf_msg bs"
    "\<not> inrx bs" "length bs < 2 ^ 31" using snd by (simp_all add: sh_sender_def)
  note w = wf_msg_whole [OF S(4,6)]
  have C: "sh_is_initialized (sysvshm_inst s)" "sc_mbox_id_in_itccoord c \<noteq> 0" "sc_metadata c = ShmAt g"
    "shm_segs (ipc s) g = Some md" "m_sem_slot c \<noteq> m_sem_mutex c" "m_sem_slot c \<noteq> m_sem_notify c"
    "m_sem_mutex c \<noteq> m_sem_notify c" "sems (ipc s) (m_sem_slot c) = Some (Suc a)"
    "sems (ipc s) (m_sem_mutex c) = Some (Suc 0)" "sems (ipc s) (m_sem_notify c) = Some n"
    using con by (simp_all add: sh_contact_def sh_cfg_def)
  note at = scl_at_contact [OF con]
  define k1 where "k1 = (ipc s)\<lparr>sems := (sems (ipc s))(m_sem_slot c \<mapsto> a)\<rparr>"
  define k2 where "k2 = k1\<lparr>sems := (sems k1)(m_sem_mutex c \<mapsto> 0)\<rparr>"
  have w1: "wait_contact m_sem_slot t ?i to s = Inr (True, s\<lparr>ipc := k1\<rparr>)"
    using wait_contact_ok [OF at sys, of m_sem_slot a] C(8) by (simp add: k1_def)
  have w2: "wait_contact m_sem_mutex t ?i to (s\<lparr>ipc := k1\<rparr>) = Inr (True, s\<lparr>ipc := k2\<rparr>)"
    using wait_contact_ok [of ?i "s\<lparr>ipc := k1\<rparr>" c m_sem_mutex 0] at sys C(5,9) by (simp add: k1_def k2_def)
  have g: "msg_get OFF_SIZE (Some m) (msgs (sh_proc s)) = Inr (fld OFF_SIZE bs)"
    using S(3) wf_msg_length [OF S(4)] by simp
  have ins: "insert_message t ?i p pages bs (s\<lparr>ipc := k2\<rparr>) =
     bindE (enqueue_block p bs md) (\<lambda>(ok, md'). Inr (ok, s\<lparr>ipc := k2\<lparr>shm_segs := (shm_segs k2)(g \<mapsto> md')\<rparr>\<rparr>))"
    using pool(2) at C(3,4)
    by (cases "enqueue_block p bs md") (auto simp: insert_message_def seg_upd_def seg_get_def k1_def k2_def)
  have start: "sysvshm_send t m to s =
     bindE (insert_message t ?i p pages bs (s\<lparr>ipc := k2\<rparr>)) (\<lambda>(go, s). if \<not> go then Inr s else
            bindE (post_contact m_sem_mutex t ?i s) (\<lambda>(go, s). if \<not> go then Inr s else
            bindE (post_contact m_sem_notify t ?i s) (\<lambda>(go, s). if \<not> go then Inr s else
            bindE (sh_itc (itc_free t (Some m)) s) (\<lambda>(freed, s). Inr s))))"
    using C(1,2) at g pool(1) get_contact [OF con S(2)] w1 w2 w S(3)
    by (simp add: sysvshm_send_def del: OFF_SIZE_def)
  show ?thesis
  proof (cases "enqueue_block p bs md")
    case (Inl e)
    then show ?thesis by (simp add: start ins)
  next
    case (Inr r)
    obtain ok md' where r: "r = (ok, md')" by (cases r)
    define k3 where "k3 = k2\<lparr>shm_segs := (shm_segs k2)(g \<mapsto> md')\<rparr>"
    define k4 where "k4 = k3\<lparr>sems := (sems k3)(m_sem_mutex c \<mapsto> 1)\<rparr>"
    define k5 where "k5 = k4\<lparr>sems := (sems k4)(m_sem_notify c \<mapsto> Suc n)\<rparr>"
    have p1: "post_contact m_sem_mutex t ?i (s\<lparr>ipc := k3\<rparr>) = Inr (True, s\<lparr>ipc := k4\<rparr>)"
      using post_contact_ok [of ?i "s\<lparr>ipc := k3\<rparr>" c m_sem_mutex 0] at sys by (simp add: k3_def k2_def k4_def)
    have p2: "post_contact m_sem_notify t ?i (s\<lparr>ipc := k4\<rparr>) = Inr (True, s\<lparr>ipc := k5\<rparr>)"
      using post_contact_ok [of ?i "s\<lparr>ipc := k4\<rparr>" c m_sem_notify n] at sys C(6,7,10)
      by (simp add: k1_def k3_def k2_def k4_def k5_def)
    have f: "itc_free t (Some m) (sh_proc s) = Inr (True, (sh_proc s)\<lparr>rcs := (rcs (sh_proc s))(t := BLive ITC_OK),
        msgs := (msgs (sh_proc s))\<lparr>cells := (cells (msgs (sh_proc s)))(m := None)\<rparr>\<rparr>)"
      using itc_free_ok [OF S(1,3,4,5)] by simp
    have k3: "k3 = ipc_step c g md' a 0 n (ipc s)" and k5: "k5 = ipc_step c g md' a 1 (Suc n) (ipc s)"
      using C(5-7,10) by (auto simp: k1_def k2_def k3_def k4_def k5_def ipc_step_def fun_upd_twist fun_upd_idem)
    show ?thesis
    proof (cases ok)
      case True
      then show ?thesis using p1 p2 f k5 by (simp add: start ins Inr r k3_def [symmetric] sh_itc_def)
    next
      case False
      then show ?thesis using k3 by (simp add: start ins Inr r k3_def [symmetric])
    qed
  qed
qed

section \<open>The receiving thread\<close>

text \<open>The receiving threads of the two transports treat a message in the same way.\<close>

lemma handle_received_as_sysvmq:
  "handle_received_message t block s = forward_sysvmq_msg t (replicate 8 0 @ block) s"
proof -
  have a: "get32 (MTYPE_SIZE + OFF_SIZE) (replicate 8 0 @ block) = get32 OFF_SIZE block"
    unfolding get32_def by (subst get_bytes_shift) simp_all
  have b: "get_bytes (MTYPE_SIZE + OFF_MSGNO + n) j (replicate 8 0 @ block) = get_bytes (OFF_MSGNO + n) j block" for n j
    unfolding add.assoc by (rule get_bytes_shift) simp
  have c: "get_bytes MTYPE_SIZE j (replicate 8 0 @ block) = get_bytes 0 j block" for j
    by (rule get_bytes_shift0) simp
  show ?thesis unfolding handle_received_message_def forward_sysvmq_msg_def a b c ..
qed

text \<open>The receiver: its segment with the queue, and its semaphores; nobody is in the critical section.\<close>

definition sh_receiver :: "int \<Rightarrow> shm_metadata \<Rightarrow> nat \<Rightarrow> nat \<Rightarrow> shm_state \<Rightarrow> bool" where
  "sh_receiver g md a n r \<longleftrightarrow>
     \<not> sh_is_terminated (sysvshm_inst r) \<and> my_shm_ptr (sysvshm_inst r) = ShmAt g \<and>
     shm_segs (ipc r) g = Some md \<and>
     distinct [my_sem_slot (sysvshm_inst r), my_sem_mutex (sysvshm_inst r), my_sem_notify (sysvshm_inst r)] \<and>
     sems (ipc r) (my_sem_slot (sysvshm_inst r)) = Some a \<and>
     sems (ipc r) (my_sem_mutex (sysvshm_inst r)) = Some 1 \<and>
     sems (ipc r) (my_sem_notify (sysvshm_inst r)) = Some n"

lemma sysvshm_rx_round_step:
  assumes rc: "sh_receiver g md a (Suc n) r" and sys: "sys (sh_proc r) = []"
    and l: "shm_list md (k # ks)"
    and hm: "handle_received_message t (slot_data (slot_info_at md k)) (sh_proc r) = Inr p'" and sys': "sys p' = []"
  shows "\<exists>r' md'. sysvshm_rx_round t r = Inr (True, r') \<and> sh_receiver g md' (Suc a) n r' \<and> sh_proc r' = p' \<and>
     shm_list md' ks \<and> (\<forall>bs. list_all2 (holds md) ks bs \<longrightarrow> list_all2 (holds md') ks bs) \<and>
     sysvshm_inst r' = sysvshm_inst r"
proof -
  let ?v = "sysvshm_inst r"
  let ?N = "my_sem_notify ?v" and ?M = "my_sem_mutex ?v" and ?S = "my_sem_slot ?v"
  have R: "\<not> sh_is_terminated ?v" "my_shm_ptr ?v = ShmAt g" "shm_segs (ipc r) g = Some md"
    "?S \<noteq> ?M" "?S \<noteq> ?N" "?M \<noteq> ?N" "sems (ipc r) ?S = Some a" "sems (ipc r) ?M = Some (Suc 0)"
    "sems (ipc r) ?N = Some (Suc n)"
    using rc by (simp_all add: sh_receiver_def)
  note L = shm_listD [OF l]
  have k: "valid_slot k" "fst k < 6" using L(3) [of k] by (auto simp: valid_slot_def)
  define slot where "slot = slot_info_at md k"
  have fine: "is_in_use slot" "\<not> 6 < pool_type slot"
    using L(6) [of 0] L(8) [OF k(1)] k(2) by (auto simp: slot_def word_less_nat_alt unat_of_nat_small)
  obtain md' where m: "remove_head md = Inr md'" "shm_list md' ks"
    "\<forall>k'. slot_data (slot_info_at md' k') = slot_data (slot_info_at md k')"
    using remove_head_ok [OF l] by blast
  define r1 where "r1 = r\<lparr>ipc := (ipc r)\<lparr>sems := (sems (ipc r))(?N \<mapsto> n, ?M \<mapsto> 0)\<rparr>\<rparr>"
  define r2 where "r2 = r1\<lparr>sh_proc := p', ipc := (ipc r1)\<lparr>shm_segs := (shm_segs (ipc r1))(g \<mapsto> md')\<rparr>\<rparr>"
  define r3 where "r3 = r2\<lparr>ipc := (ipc r2)\<lparr>sems := (sems (ipc r2))(?M \<mapsto> 1, ?S \<mapsto> Suc a)\<rparr>\<rparr>"
  have hd: "sh_head md = ref k" using L(4) by simp
  have rec: "receive_head t r1 = Inr r2"
    using R(2,3) hd k slot_at_ref [OF L(1) k(1)] fine hm m(1)
    by (simp add: receive_head_def seg_get_def seg_upd_def r1_def r2_def slot_def [symmetric] sh_put_def)
  have "sysvshm_rx_round t r = Inr (True, r3)"
    using R sys sys' hd rec
    by (simp add: sysvshm_rx_round_def sem_wait_def seg_get_def r1_def [symmetric])
       (simp add: sem_post_def r1_def r2_def r3_def)
  moreover have "sh_receiver g md' (Suc a) n r3"
    using R by (simp add: sh_receiver_def r1_def r2_def r3_def)
  moreover have "holds md' = holds md" using m(3) by (simp add: holds_def fun_eq_iff)
  ultimately show ?thesis using m(2) by (intro exI [of _ r3] exI [of _ md']) (simp add: r1_def r2_def r3_def)
qed

section \<open>Messages that fit the pools\<close>

lemma choose_pool_fits:
  assumes "fits_pools b"
  shows "choose_pool (fld OFF_SIZE b) = (which_pool (fld OFF_SIZE b), 0)" "\<not> is_large (which_pool (fld OFF_SIZE b)) 0"
  using which_pool_fits(1) [OF assms] by (auto simp: choose_pool_def is_large_def)

lemma ipc_step_contact:
  assumes "sh_contact to c g md (Suc a) n s" and "x = 1"
  shows "sh_contact to c g md' a n' (s\<lparr>ipc := ipc_step c g md' a x n' (ipc s), sh_proc := p\<rparr>)"
  using assms by (auto simp: sh_contact_def sh_cfg_def ipc_step_def)

lemma slot_left:
  assumes "shm_list md ks" and "p < 6" and "card (slots_used p md) < num_slots ! p"
  obtains i where "valid_slot (p, i)" "(p, i) \<notin> set ks"
proof -
  have "slots_used p md \<noteq> {i. i < num_slots ! p}" using assms(3) by (metis card_Collect_less_nat less_irrefl)
  then obtain i where "i < num_slots ! p" "\<not> is_in_use (slot_info_at md (p, i))"
    unfolding slots_used_def by blast
  then show thesis using that [of i] assms(2) shm_list_in_use [OF assms(1), of "(p, i)"] by (simp add: valid_slot_def)
qed

lemma empty_room:
  assumes "shm_list md []" and "p < 6"
  shows "card (slots_used p md) < num_slots ! p"
proof -
  have "slots_used p md = {}" using slots_used_list [OF assms] by simp
  then show ?thesis using less_6_cases [OF assms(2)] by (elim disjE) (simp_all add: num_slots_def)
qed

lemma sysvshm_send_ok:
  assumes con: "sh_contact to c g md (Suc a) n s" and snd: "sh_sender t m bs s" and sys: "sys (sh_proc s) = []"
    and fit: "fits_pools bs" and q: "shm_list md ks" "list_all2 (holds md) ks qs"
    and room: "card (slots_used (which_pool (fld OFF_SIZE bs)) md) < num_slots ! which_pool (fld OFF_SIZE bs)"
  shows "\<exists>s' md' k. sysvshm_send t m to s = Inr s' \<and> sh_contact to c g md' a (Suc n) s' \<and>
     shm_list md' (ks @ [k]) \<and> list_all2 (holds md') (ks @ [k]) (qs @ [bs]) \<and>
     sh_proc s' = (sh_proc s)\<lparr>rcs := (rcs (sh_proc s))(t := BLive ITC_OK),
       msgs := (msgs (sh_proc s))\<lparr>cells := (cells (msgs (sh_proc s)))(m := None)\<rparr>\<rparr>"
proof -
  let ?p = "which_pool (fld OFF_SIZE bs)"
  obtain i where i: "valid_slot (?p, i)" "(?p, i) \<notin> set ks"
    using slot_left [OF q(1) which_pool_fits(1) [OF fit] room] .
  obtain k md' where e: "enqueue_block ?p bs md = Inr (True, md')" "shm_list md' (ks @ [k])"
    "list_all2 (holds md') (ks @ [k]) (qs @ [bs])"
    using shm_put_ok [OF q fit i] by blast
  note st = sysvshm_send_static [OF con snd sys choose_pool_fits [OF fit]]
  let ?pr = "(sh_proc s)\<lparr>rcs := (rcs (sh_proc s))(t := BLive ITC_OK),
       msgs := (msgs (sh_proc s))\<lparr>cells := (cells (msgs (sh_proc s)))(m := None)\<rparr>\<rparr>"
  have "sysvshm_send t m to s = Inr (s\<lparr>ipc := ipc_step c g md' a 1 (Suc n) (ipc s), sh_proc := ?pr\<rparr>)"
    unfolding st e(1) by simp
  moreover have "sh_contact to c g md' a (Suc n) (s\<lparr>ipc := ipc_step c g md' a 1 (Suc n) (ipc s), sh_proc := ?pr\<rparr>)"
    by (rule ipc_step_contact [OF con]) simp
  ultimately show ?thesis
    by (rule_tac x = "s\<lparr>ipc := ipc_step c g md' a 1 (Suc n) (ipc s), sh_proc := ?pr\<rparr>" in exI,
        rule_tac x = md' in exI, rule_tac x = k in exI) (simp add: e(2,3))
qed

text \<open>
  A message over shared memory appends exactly its block to the queue in the other process's
  segment, behind the messages that wait there; the sender's copy is released, one slot semaphore
  is taken, one notification is posted, and the mutex is free again.
\<close>

theorem sysvshm_send_appends:
  assumes "sh_contact to c g md (Suc a) n s" and "sh_sender t m bs s" and "sys (sh_proc s) = []"
    and "fits_pools bs" and "shm_content md qs"
    and "card (slots_used (which_pool (fld OFF_SIZE bs)) md) < num_slots ! which_pool (fld OFF_SIZE bs)"
  shows "\<exists>s' md'. sysvshm_send t m to s = Inr s' \<and> sh_contact to c g md' a (Suc n) s' \<and>
     shm_content md' (qs @ [bs]) \<and> rcs (sh_proc s') t = BLive ITC_OK \<and>
     cells (msgs (sh_proc s')) = (cells (msgs (sh_proc s)))(m := None)"
proof -
  obtain ks where "shm_list md ks" "list_all2 (holds md) ks qs" using assms(5) by (auto simp: shm_content_def)
  from sysvshm_send_ok [OF assms(1-4) this assms(6)] show ?thesis unfolding shm_content_def by fastforce
qed

lemma handle_delivers:
  assumes "mbx_rep k s Q" and "alloc_state t s" and "malloc_results (msgs s) = []"
    and "my_threadlocal_mbox s t = Some i" and "Q j = Some xs" and "i \<noteq> j"
    and "wf_msg b" and "fld OFF_RECEIVER b = mbx_id j s" and "length b \<le> nat (max_mallocsize s)"
  shows "\<exists>s' b'. handle_received_message t (b @ post) s = Inr s' \<and> core_ok s' k (Q(j \<mapsto> xs @ [fresh (msgs s)])) \<and>
           cells (msgs s') (fresh (msgs s)) = Some b' \<and> sys s' = [] \<and>
           wf_msg b' \<and> drop OFF_SIZE b' = drop OFF_SIZE b \<and> fld OFF_RECEIVER b' = mbx_id j s \<and>
           fld OFF_SENDER b' = mbx_id i s"
proof -
  let ?b = "blit OFF_FLAGS (enc32 0) b"
  let ?st = "stamp (mbx_id i s) (mbx_id j s) ?b"
  obtain s' where s': "forward_sysvmq_msg t (replicate 8 0 @ b @ post) s = Inr s'"
      "core_ok s' k (Q(j \<mapsto> xs @ [fresh (msgs s)]))" "cells (msgs s') (fresh (msgs s)) = Some (set_inrx ?st)" "sys s' = []"
    using forward_delivers [OF assms, of "replicate 8 0" post] by auto
  have l: "21 \<le> length b" by (rule wf_msg_length [OF assms(7)])
  have b: "wf_msg ?b" using assms(7) l by (simp add: wf_msg_blit_header)
  note sp = stamp_props [OF b, of "mbx_id i s" "mbx_id j s"]
  have "wf_msg (set_inrx ?st)" "drop OFF_SIZE (set_inrx ?st) = drop OFF_SIZE b"
      "fld OFF_RECEIVER (set_inrx ?st) = mbx_id j s" "fld OFF_SENDER (set_inrx ?st) = mbx_id i s"
    using sp drop_stamp [OF b] l wf_msg_length [OF sp(1)] by (simp_all add: set_inrx_def wf_msg_blit_header drop_blit fld_blit_other)
  then show ?thesis using s' by (auto simp: handle_received_as_sysvmq)
qed

text \<open>
  C10. A message crosses from one process to another over shared memory. The sender's call puts it
  into the segment of the process that owns the addressed mailbox, and one round of that process's
  receiving thread appends exactly one message to the mailbox: size, number, data and end marker are
  what was sent. Afterwards the segment is empty again and its semaphores are what they were.
\<close>

theorem message_crosses_shared_memory:
  assumes "sh_contact (mbx_id j (sh_proc r)) c g md (Suc a) 0 s" and "sh_sender ts m bs s" and "sys (sh_proc s) = []"
    and "fits_pools bs" and "shm_content md []"
    and "\<not> sh_is_terminated (sysvshm_inst r)" and "my_shm_ptr (sysvshm_inst r) = ShmAt g"
    and "my_sem_slot (sysvshm_inst r) = m_sem_slot c" and "my_sem_mutex (sysvshm_inst r) = m_sem_mutex c"
    and "my_sem_notify (sysvshm_inst r) = m_sem_notify c"
    and "mbx_rep k (sh_proc r) Q" and "alloc_state t (sh_proc r)" and "malloc_results (msgs (sh_proc r)) = []"
    and "my_threadlocal_mbox (sh_proc r) t = Some i" and "Q j = Some xs" and "i \<noteq> j"
    and "fld OFF_RECEIVER bs = mbx_id j (sh_proc r)" and "length bs \<le> nat (max_mallocsize (sh_proc r))"
  shows "\<exists>s' r' md' b'. sysvshm_send ts m (mbx_id j (sh_proc r)) s = Inr s' \<and> cells (msgs (sh_proc s')) m = None \<and>
     sysvshm_rx_round t (r\<lparr>ipc := ipc s'\<rparr>) = Inr (True, r') \<and>
     core_ok (sh_proc r') k (Q(j \<mapsto> xs @ [fresh (msgs (sh_proc r))])) \<and>
     cells (msgs (sh_proc r')) (fresh (msgs (sh_proc r))) = Some b' \<and> wf_msg b' \<and>
     drop OFF_SIZE b' = drop OFF_SIZE bs \<and> fld OFF_RECEIVER b' = mbx_id j (sh_proc r) \<and>
     fld OFF_SENDER b' = mbx_id i (sh_proc r) \<and>
     sh_receiver g md' (Suc a) 0 r' \<and> shm_content md' []"
proof -
  let ?to = "mbx_id j (sh_proc r)"
  have e: "shm_list md []" using assms(5) by (auto simp: shm_content_def)
  note room = empty_room [OF e which_pool_fits(1) [OF assms(4)]]
  from sysvshm_send_ok [OF assms(1-4) e _ room, of "[]"]
  obtain s' md1 k1 where s': "sysvshm_send ts m ?to s = Inr s'" "sh_contact ?to c g md1 a (Suc 0) s'"
    "shm_list md1 [k1]" "list_all2 (holds md1) [k1] [bs]" "cells (msgs (sh_proc s')) m = None" by auto
  let ?r = "r\<lparr>ipc := ipc s'\<rparr>"
  have rc: "sh_receiver g md1 a (Suc 0) ?r" using s'(2) assms(6-10) by (simp add: sh_receiver_def sh_contact_def)
  obtain post where d: "slot_data (slot_info_at md1 k1) = bs @ post"
  proof -
    have "take (length bs) (slot_data (slot_info_at md1 k1)) = bs" using s'(4) by (simp add: holds_def)
    then show thesis using that [of "drop (length bs) (slot_data (slot_info_at md1 k1))"] append_take_drop_id by metis
  qed
  have wb: "wf_msg bs" using assms(4) by (simp add: fits_pools_def)
  obtain p' b' where h: "handle_received_message t (bs @ post) (sh_proc r) = Inr p'" "core_ok p' k (Q(j \<mapsto> xs @ [fresh (msgs (sh_proc r))]))"
      "cells (msgs p') (fresh (msgs (sh_proc r))) = Some b'" "sys p' = []"
      "wf_msg b'" "drop OFF_SIZE b' = drop OFF_SIZE bs" "fld OFF_RECEIVER b' = ?to" "fld OFF_SENDER b' = mbx_id i (sh_proc r)"
    using handle_delivers [OF assms(11-16) wb assms(17,18), of post] by blast
  have "sys (sh_proc ?r) = []" using mbx_repD(2) [OF assms(11)] by simp
  from sysvshm_rx_round_step [OF rc this s'(3) _ h(4), of t] h(1) d
  obtain r' md' where r': "sysvshm_rx_round t ?r = Inr (True, r')" "sh_receiver g md' (Suc a) 0 r'" "sh_proc r' = p'"
    "shm_list md' []" by auto
  have "shm_content md' []" using r'(4) unfolding shm_content_def by auto
  then show ?thesis
    by (rule_tac x = s' in exI, rule_tac x = r' in exI, rule_tac x = md' in exI, rule_tac x = b' in exI)
      (simp add: s'(1,5) r' h del: OFF_SIZE_def OFF_RECEIVER_def OFF_SENDER_def)
qed

section \<open>When a pool is full\<close>

lemma send_locked_blocks:
  assumes "sh_cfg s" and "0 < proc_index to" and "proc_index to < 255" and "rcs (sh_proc s) t = BLive w"
    and "sys (sh_proc s) = []" and "sysvshm_cl (sysvshm_inst s) ! proc_index to = c" and "sc_mbox_id_in_itccoord c \<noteq> 0"
    and "sems (ipc s) (m_sem_slot c) = Some a" and "sems (ipc s) (m_sem_mutex c) = Some 0"
    and "m_sem_slot c \<noteq> m_sem_mutex c" and "cells (msgs (sh_proc s)) m = Some bs" and "wf_msg bs"
  shows "sysvshm_send t m to s = Inl Blocked"
proof -
  let ?i = "proc_index to"
  have at: "scl_at ?i s = Inr c" using assms(1,3,6) by (simp add: scl_at_def sh_cfg_def Let_def)
  have get: "get_sysvshm_cl t to s = Inr (Some ?i, s)"
    using sh_find_cl_eq [OF assms(1,4,2,3)] at assms(7) by (simp add: get_sysvshm_cl_def)
  have g: "msg_get OFF_SIZE (Some m) (msgs (sh_proc s)) = Inr (fld OFF_SIZE bs)"
    using assms(11) wf_msg_length [OF assms(12)] by simp
  obtain p pages where cp: "choose_pool (fld OFF_SIZE bs) = (p, pages)" by (cases "choose_pool (fld OFF_SIZE bs)")
  have i: "sh_is_initialized (sysvshm_inst s)" using assms(1) by (simp add: sh_cfg_def)
  show ?thesis
  proof (cases a)
    case 0
    then have "wait_contact m_sem_slot t ?i to s = Inl Blocked"
      using wait_contact_blocked [of ?i s c m_sem_slot] at assms(5,8) by simp
    then show ?thesis using i at get g cp assms(7) by (simp add: sysvshm_send_def del: OFF_SIZE_def)
  next
    case (Suc b)
    let ?s = "s\<lparr>ipc := (ipc s)\<lparr>sems := (sems (ipc s))(m_sem_slot c \<mapsto> b)\<rparr>\<rparr>"
    have "wait_contact m_sem_slot t ?i to s = Inr (True, ?s)"
      using wait_contact_ok [of ?i s c m_sem_slot b] at assms(5,8) Suc by simp
    moreover have "wait_contact m_sem_mutex t ?i to ?s = Inl Blocked"
      using wait_contact_blocked [of ?i ?s c m_sem_mutex] at assms(5,9,10) by simp
    ultimately show ?thesis using i at get g cp assms(7) by (simp add: sysvshm_send_def del: OFF_SIZE_def)
  qed
qed

lemma rx_round_locked_blocks:
  assumes "\<not> sh_is_terminated (sysvshm_inst r)" and "sys (sh_proc r) = []"
    and "sems (ipc r) (my_sem_mutex (sysvshm_inst r)) = Some 0"
    and "sems (ipc r) (my_sem_notify (sysvshm_inst r)) = Some n"
    and "my_sem_notify (sysvshm_inst r) \<noteq> my_sem_mutex (sysvshm_inst r)"
  shows "sysvshm_rx_round t r = Inl Blocked"
  using assms by (cases n) (simp_all add: sysvshm_rx_round_def sem_wait_def)

lemma refused_keeps_mutex:
  assumes con: "sh_contact to c g md (Suc a) n s" and snd: "sh_sender t m bs s" and sys: "sys (sh_proc s) = []"
    and pool: "choose_pool (fld OFF_SIZE bs) = (p, pages)" "\<not> is_large p pages"
    and full: "enqueue_block p bs md = Inr (False, md)"
    and r: "\<not> sh_is_terminated (sysvshm_inst r)" "sys (sh_proc r) = []"
      "my_sem_mutex (sysvshm_inst r) = m_sem_mutex c" "my_sem_notify (sysvshm_inst r) = m_sem_notify c"
  shows "\<exists>s'. sysvshm_send t m to s = Inr s' \<and> sh_proc s' = sh_proc s \<and> shm_segs (ipc s') g = Some md \<and>
     sysvshm_send t m to s' = Inl Blocked \<and> sysvshm_rx_round t' (r\<lparr>ipc := ipc s'\<rparr>) = Inl Blocked"
proof -
  let ?s = "s\<lparr>ipc := ipc_step c g md a 0 n (ipc s)\<rparr>"
  have st: "sysvshm_send t m to s = Inr ?s"
    unfolding sysvshm_send_static [OF con snd sys pool] full by simp
  have ne: "m_sem_slot c \<noteq> m_sem_mutex c" "m_sem_slot c \<noteq> m_sem_notify c" "m_sem_mutex c \<noteq> m_sem_notify c"
    and C: "sh_cfg s" "0 < proc_index to" "proc_index to < 255" "sysvshm_cl (sysvshm_inst s) ! proc_index to = c"
      "sc_mbox_id_in_itccoord c \<noteq> 0"
    using con by (simp_all add: sh_contact_def)
  have "sysvshm_send t m to ?s = Inl Blocked"
    by (rule send_locked_blocks [where w = 0 and c = c and a = a and bs = bs])
      (use C ne snd sys in \<open>auto simp: sh_cfg_def sh_sender_def ipc_step_def\<close>)
  moreover have "sysvshm_rx_round t' (r\<lparr>ipc := ipc ?s\<rparr>) = Inl Blocked"
    by (rule rx_round_locked_blocks [where n = n]) (use r ne in \<open>simp_all add: ipc_step_def\<close>)
  ultimately show ?thesis using st by (auto simp: ipc_step_def)
qed


section \<open>Between the largest pool and the large messages\<close>

text \<open>
  The number of pages is computed without the header of the slot, the choice of the pool with it: for
  31 sizes neither a pool nor the second segment is used, but the header in the metadata.
\<close>

lemma choose_pool_gap:
  assumes "16336 \<le> unat sz" and "unat sz \<le> 16366"
  shows "choose_pool sz = (POOL_UNLIMIT, 4)" "\<not> is_large POOL_UNLIMIT 4"
proof -
  have b: "unat sz + 49 < 2 ^ 32" using assms(2) by simp
  have w: "which_pool sz = NUM_POOLS" using which_pool_cases [OF b] assms(1) by simp
  have "unat (sz + 17) = unat sz + 17" using assms(2) by (simp add: unat_word_ariths)
  then have "unat ((sz + 17) div 4096) = 3" using assms by (simp add: unat_div)
  then have "(sz + 17) div 4096 = 3" by (simp add: word_unat_eq_iff)
  then show "choose_pool sz = (POOL_UNLIMIT, 4)" using w by (simp add: choose_pool_def add.assoc)
  show "\<not> is_large POOL_UNLIMIT 4" by (simp add: is_large_def slot_sizes_def)
qed

text \<open>
  C25. A message of 16336 to 16366 bytes is never delivered. As long as no larger message has been
  sent, the sender finds no slot and leaves with the mutex taken, as when a pool is full; afterwards
  it writes the message behind the header inside the metadata, which has room for 76 bytes, over the
  slots of the pools.
\<close>

theorem medium_message_is_never_delivered:
  assumes "sh_contact to c g md (Suc a) n s" and "sh_sender t m bs s" and "sys (sh_proc s) = []"
    and "16336 \<le> unat (fld OFF_SIZE bs)" and "unat (fld OFF_SIZE bs) \<le> 16366" and "shm_list md ks"
    and "length (slot_data (slot_unlimit md)) = 76"
    and "\<not> sh_is_terminated (sysvshm_inst r)" and "sys (sh_proc r) = []"
    and "my_sem_mutex (sysvshm_inst r) = m_sem_mutex c" and "my_sem_notify (sysvshm_inst r) = m_sem_notify c"
  shows "if slot_free (slot_unlimit md) then sysvshm_send t m to s = Inl OutOfBounds
     else \<exists>s'. sysvshm_send t m to s = Inr s' \<and> sh_proc s' = sh_proc s \<and> shm_segs (ipc s') g = Some md \<and>
       sysvshm_send t m to s' = Inl Blocked \<and> sysvshm_rx_round t' (r\<lparr>ipc := ipc s'\<rparr>) = Inl Blocked"
proof (cases "slot_free (slot_unlimit md)")
  case False
  then have "enqueue_block POOL_UNLIMIT bs md = Inr (False, md)"
    by (auto simp: enqueue_block_def pool_slots_def slot_free_def num_slots_def)
  from refused_keeps_mutex [OF assms(1-3) choose_pool_gap [OF assms(4,5)] this assms(8-11)] False show ?thesis by simp
next
  case True
  note L = shm_listD [OF assms(6)]
  have len: "length bs = unat (fld OFF_SIZE bs) + 17" using assms(2) by (simp add: sh_sender_def wf_msg_def)
  have "\<exists>md'. link_slot (slot_ref POOL_UNLIMIT 0) md = Inr md' \<and> slot_unlimit md' = slot_unlimit md"
  proof (cases "ks = []")
    case True
    then show ?thesis using L(5) by (simp add: link_slot_def)
  next
    case False
    then show ?thesis using L(1,5) L(3) [of "last ks"] by (simp add: link_slot_def)
  qed
  then obtain md' where md': "link_slot (slot_ref POOL_UNLIMIT 0) md = Inr md'" "slot_unlimit md' = slot_unlimit md"
    by blast
  have "enqueue_block POOL_UNLIMIT bs md = Inl OutOfBounds"
    using True md' len assms(4,7)
    by (simp add: enqueue_block_def pool_slots_def slot_free_def num_slots_def slot_upd_def slot_at_def
        write_slot_def put_bytes_def slot_ref_def)
  then have "sysvshm_send t m to s = Inl OutOfBounds"
    using sysvshm_send_static [OF assms(1-3) choose_pool_gap [OF assms(4,5)]] by simp
  then show ?thesis using True by simp
qed

section \<open>Two large messages\<close>

lemma scl_updates:
  assumes "scl_at i s = Inr c"
  shows "scl_upd i f s = Inr (sh_set (\<lambda>v. v\<lparr>sysvshm_cl := (sysvshm_cl v)[i := f c]\<rparr>) s)"
    and "i < length (sysvshm_cl (sysvshm_inst s))" "sysvshm_cl (sysvshm_inst s) ! i = c"
  using assms by (auto simp: scl_at_def scl_upd_def Let_def split: if_splits)

text \<open>The segment for large messages when it exists and is large enough, or does not exist.\<close>

lemma insert_large:
  assumes at: "scl_at i s = Inr c" and seg: "sc_metadata c = ShmAt g" "shm_segs (ipc s) g = Some md"
    and sys: "sys (sh_proc s) = []" and lg: "is_large p pages"
    and base: "large_segs (ipc s) 0 = Some base \<and> (25 + unat pages) * 4096 \<le> length base \<or>
       large_segs (ipc s) 0 = None \<and> base = replicate ((25 + unat pages) * 4096) 0"
    and len: "length bs \<le> length base" and enq: "enqueue_large pages md = Inr ((), md')"
  shows "insert_message t i p pages bs s = Inr (True, s\<lparr>
     sysvshm_inst := (sysvshm_inst s)\<lparr>sysvshm_cl := (sysvshm_cl (sysvshm_inst s))
        [i := c\<lparr>unlimit_sysvshm_id := 0, unlimit_shm_ptr := ShmNull\<rparr>]\<rparr>,
     ipc := (ipc s)\<lparr>shm_segs := (shm_segs (ipc s))(g \<mapsto> md'),
                    large_segs := (large_segs (ipc s))(0 \<mapsto> blit 0 bs base)\<rparr>\<rparr>)"
proof -
  let ?cl = "sysvshm_cl (sysvshm_inst s)"
  note u = scl_updates [OF at]
  define k1 where "k1 = (ipc s)\<lparr>large_segs := (large_segs (ipc s))(0 \<mapsto> base)\<rparr>"
  define s1 where "s1 = s\<lparr>ipc := k1\<rparr>"
  define c2 where "c2 = c\<lparr>unlimit_sysvshm_id := 0, unlimit_shm_ptr := ShmAt 0\<rparr>"
  define s2 where "s2 = s1\<lparr>sysvshm_inst := (sysvshm_inst s)\<lparr>sysvshm_cl := ?cl[i := c2]\<rparr>\<rparr>"
  have lc: "large_create ((SYSVSHM_STATIC_ALLOC_PAGES + unat pages) * SYSVSHM_PAGE_SIZE) s = (0, s1)"
    using sys base
  proof (elim disjE conjE)
    assume "large_segs (ipc s) 0 = Some base" "(25 + unat pages) * 4096 \<le> length base"
    then show ?thesis using sys by (simp add: large_create_def s1_def k1_def fun_upd_idem)
  next
    assume "large_segs (ipc s) 0 = None" "base = replicate ((25 + unat pages) * 4096) 0"
    then show ?thesis using sys by (simp add: large_create_def s1_def k1_def)
  qed
  have init: "init_unilimit_sysvshm t pages i s = Inr s2"
    using sys u(2,3) lc
    by (simp add: init_unilimit_sysvshm_def ftok_def lc [simplified] scl_upd_def Let_def shm_attach_def
        s1_def s2_def c2_def)
  have a2: "scl_at i s2 = Inr c2" using u(2) by (simp add: scl_at_def s2_def s1_def Let_def)
  have "large_segs k1 0 = Some base" "shm_segs k1 = shm_segs (ipc s)" by (simp_all add: k1_def)
  then show ?thesis
    using lg init a2 seg sys len enq u(2)
    by (simp add: insert_message_def seg_upd_def seg_get_def large_put_def large_get_def put_bytes_def
        scl_upd_def Let_def c2_def s2_def s1_def) (simp add: k1_def)
qed

lemma insert_large_fails:
  assumes at: "scl_at i s = Inr c" and seg: "sc_metadata c = ShmAt g" "shm_segs (ipc s) g = Some md"
    and sys: "sys (sh_proc s) = []" and lg: "is_large p pages" and rc: "rcs (sh_proc s) t = BLive w"
    and base: "large_segs (ipc s) 0 = Some base" "length base < (25 + unat pages) * 4096"
    and enq: "enqueue_large pages md = Inr ((), md')" and null: "unlimit_shm_ptr c = ShmNull"
  shows "insert_message t i p pages bs s = Inl NullDeref"
proof -
  note u = scl_updates(2,3) [OF at]
  have lc: "large_create ((SYSVSHM_STATIC_ALLOC_PAGES + unat pages) * SYSVSHM_PAGE_SIZE) s = (-1, s)"
    using sys base by (simp add: large_create_def)
  show ?thesis
    using lg seg sys rc u enq null
    by (simp add: insert_message_def init_unilimit_sysvshm_def ftok_def lc [simplified] scl_upd_def scl_at_def Let_def
        sh_put_def seg_upd_def seg_get_def large_put_def large_get_def)
qed

definition large_in_queue :: "shm_metadata \<Rightarrow> bool" where
  "large_in_queue md \<longleftrightarrow> sh_head md = slot_ref POOL_UNLIMIT 0 \<and> sh_tail md = slot_ref POOL_UNLIMIT 0"

lemma enqueue_large_empty:
  assumes "sh_tail md = no_slot"
  shows "\<exists>md'. enqueue_large pages md = Inr ((), md') \<and> large_in_queue md'"
  using assms by (simp add: enqueue_large_def link_slot_def large_in_queue_def Let_def)

lemma enqueue_large_again:
  assumes "large_in_queue md"
  shows "\<exists>md'. enqueue_large pages md = Inr ((), md') \<and> large_in_queue md'"
  using assms
  by (simp add: enqueue_large_def link_slot_def large_in_queue_def Let_def slot_upd_def slot_ref_def no_slot_def)

lemma remove_large:
  assumes "large_in_queue md"
  shows "\<exists>md'. remove_head md = Inr md' \<and> sh_head md' = no_slot"
  using assms by (simp add: remove_head_def large_in_queue_def Let_def slot_at_def slot_upd_def slot_ref_def)

text \<open>
  C26. There is room for one large message at a time, but nothing keeps a second sender from coming.
  When it sends a large message before the receiver has taken the first one, and its message needs
  no more pages, it overwrites the first; the queue holds one message, and is empty when that is
  removed. When it needs more pages the second segment cannot be had, and the sender, which does
  not look at the failure, writes to a null pointer.
\<close>

theorem second_large_message_is_fatal:
  assumes "scl_at i s = Inr c" and "sc_metadata c = ShmAt g" and "shm_segs (ipc s) g = Some md"
    and "sys (sh_proc s) = []" and "rcs (sh_proc s) t = BLive w" and "shm_list md []"
    and "is_large p pages1" and "is_large p pages2" and "large_segs (ipc s) 0 = None"
    and "length bs1 \<le> (25 + unat pages1) * 4096" and "length bs2 \<le> (25 + unat pages2) * 4096"
  shows "\<exists>s1. insert_message t i p pages1 bs1 s = Inr (True, s1) \<and>
     (if unat pages2 \<le> unat pages1
      then \<exists>s2 md2 md3 b. insert_message t i p pages2 bs2 s1 = Inr (True, s2) \<and> large_segs (ipc s2) 0 = Some b \<and>
             take (length bs2) b = bs2 \<and> shm_segs (ipc s2) g = Some md2 \<and> remove_head md2 = Inr md3 \<and>
             sh_head md3 = no_slot
      else insert_message t i p pages2 bs2 s1 = Inl NullDeref)"
proof -
  let ?b1 = "replicate ((25 + unat pages1) * 4096) 0 :: bytes"
  have tl: "sh_tail md = no_slot" using shm_listD(5) [OF assms(6)] by simp
  obtain md1 where md1: "enqueue_large pages1 md = Inr ((), md1)" "large_in_queue md1"
    using enqueue_large_empty [OF tl] by blast
  define c1 where "c1 = c\<lparr>unlimit_sysvshm_id := 0, unlimit_shm_ptr := ShmNull\<rparr>"
  define s1 where "s1 = s\<lparr>sysvshm_inst := (sysvshm_inst s)\<lparr>sysvshm_cl := (sysvshm_cl (sysvshm_inst s))[i := c1]\<rparr>,
     ipc := (ipc s)\<lparr>shm_segs := (shm_segs (ipc s))(g \<mapsto> md1),
                    large_segs := (large_segs (ipc s))(0 \<mapsto> blit 0 bs1 ?b1)\<rparr>\<rparr>"
  have i1: "insert_message t i p pages1 bs1 s = Inr (True, s1)"
    unfolding s1_def c1_def
    by (rule insert_large [OF assms(1-4,7) _ _ md1(1)]) (use assms(9,10) in simp_all)
  note u = scl_updates(2,3) [OF assms(1)]
  have at1: "scl_at i s1 = Inr c1" using u by (simp add: scl_at_def s1_def Let_def)
  have S: "sc_metadata c1 = ShmAt g" "shm_segs (ipc s1) g = Some md1" "sys (sh_proc s1) = []"
    "large_segs (ipc s1) 0 = Some (blit 0 bs1 ?b1)" "rcs (sh_proc s1) t = BLive w"
    using assms(2,4,5) by (simp_all add: s1_def c1_def)
  have len: "length (blit 0 bs1 ?b1) = (25 + unat pages1) * 4096" using assms(10) by simp
  show ?thesis
  proof (cases "unat pages2 \<le> unat pages1")
    case True
    obtain md2 where md2: "enqueue_large pages2 md1 = Inr ((), md2)" "large_in_queue md2"
      using enqueue_large_again [OF md1(2)] by blast
    obtain md3 where md3: "remove_head md2 = Inr md3" "sh_head md3 = no_slot"
      using remove_large [OF md2(2)] by blast
    have fit: "length bs2 \<le> length (blit 0 bs1 ?b1)" "(25 + unat pages2) * 4096 \<le> length (blit 0 bs1 ?b1)"
      unfolding len using assms(11) True by simp_all
    from insert_large [OF at1 S(1-3) assms(8) _ fit(1) md2(1), of t] S(4) fit(2)
    obtain s2 where s2: "insert_message t i p pages2 bs2 s1 = Inr (True, s2)" "shm_segs (ipc s2) g = Some md2"
      "large_segs (ipc s2) 0 = Some (blit 0 bs2 (blit 0 bs1 ?b1))" by simp
    have "take (length bs2) (blit 0 bs2 (blit 0 bs1 ?b1)) = bs2" by (simp add: blit_def)
    then show ?thesis using i1 s2 md3 True by auto
  next
    case False
    obtain md2 where md2: "enqueue_large pages2 md1 = Inr ((), md2)"
      using enqueue_large_again [OF md1(2)] by blast
    have "insert_message t i p pages2 bs2 s1 = Inl NullDeref"
      by (rule insert_large_fails [OF at1 S(1-3) assms(8) S(5,4) _ md2])
        (use len False in \<open>simp_all add: c1_def del: length_blit\<close>)
    then show ?thesis using i1 False by auto
  qed
qed

section \<open>After a reconnection\<close>

text \<open>
  C31. When the mutex of the receiver was removed while the sender waited for it (the process has
  restarted), the sender looks up the new objects and goes on into the critical section as if it
  held the new mutex. It does not: the value stays what it is, and the release afterwards raises it
  by one, so that two processes can be in the critical section from then on.
\<close>

theorem reconnected_sender_has_no_mutex:
  assumes "sh_cfg s" and "0 < proc_index to" and "proc_index to < 255" and "rcs (sh_proc s) t = BLive w"
    and "sys (sh_proc s) = (-1, EIDRM) # map (\<lambda>r. (r, EOTHER)) [key, shmid, 0, key, mutex, key, notify, key, slot]"
    and "-1 \<notin> set [key, shmid, mutex, notify, slot]" and "to AND ITC_COORD_MASK \<noteq> 0"
    and "sems (ipc s) mutex = Some v"
  shows "\<exists>s' s''. wait_contact m_sem_mutex t (proc_index to) to s = Inr (True, s') \<and> sems (ipc s') = sems (ipc s) \<and>
     post_contact m_sem_mutex t (proc_index to) s' = Inr (True, s'') \<and> sems (ipc s'') mutex = Some (Suc v)"
proof -
  let ?i = "proc_index to"
  have len: "length (sysvshm_cl (sysvshm_inst s)) = 255" "sh_itccoord_mask (sysvshm_inst s) = ITC_COORD_MASK"
    using assms(1) by (simp_all add: sh_cfg_def)
  define s1 where "s1 = s\<lparr>sh_proc := (sh_proc s)\<lparr>sys := tl (sys (sh_proc s))\<rparr>\<rparr>"
  have f: "sh_find_cl t to s1 = Inr (Some ?i, s1)"
    by (rule sh_find_cl_eq [where w = w]) (use assms in \<open>simp_all add: sh_cfg_def s1_def\<close>)
  define s2 where "s2 = sh_set (\<lambda>v. v\<lparr>sysvshm_cl := (sysvshm_cl v)[?i := no_contact]\<rparr>) s1"
  have rm: "remove_sysvshm_cl t to s1 = Inr s2"
    using f len assms(3) by (simp add: remove_sysvshm_cl_def scl_upd_def Let_def s1_def s2_def)
  define c where "c = \<lparr>sc_mbox_id_in_itccoord = to AND ITC_COORD_MASK, sysvshm_id = shmid, sc_metadata = ShmAt shmid,
     m_sem_mutex = mutex, m_sem_notify = notify, m_sem_slot = slot, unlimit_sysvshm_id = -1, unlimit_shm_ptr = ShmNull\<rparr>"
  define s3 where "s3 = s\<lparr>sh_proc := (sh_proc s)\<lparr>sys := []\<rparr>,
     sysvshm_inst := (sysvshm_inst s)\<lparr>sysvshm_cl := (sysvshm_cl (sysvshm_inst s))[?i := c]\<rparr>\<rparr>"
  have add: "add_sysvshm_cl t ?i to s2 = Inr s3"
    using assms(5,6) len assms(3)
    by (simp add: add_sysvshm_cl_def ftok_def shm_attach_def sem_lookup_def scl_upd_def Let_def s1_def s2_def s3_def c_def)
  have at: "scl_at ?i s = Inr (sysvshm_cl (sysvshm_inst s) ! ?i)" "scl_at ?i s3 = Inr c"
    using len assms(3) by (simp_all add: scl_at_def Let_def s3_def)
  have "wait_contact m_sem_mutex t ?i to s = Inr (True, s3)"
    using at assms(5,7) rm add by (simp add: wait_contact_def sem_wait_def s1_def c_def)
  moreover have "post_contact m_sem_mutex t ?i s3 =
      Inr (True, s3\<lparr>ipc := (ipc s3)\<lparr>sems := (sems (ipc s3))(mutex \<mapsto> Suc v)\<rparr>\<rparr>)"
    using post_contact_ok [of ?i s3 c m_sem_mutex v] at(2) assms(8) by (simp add: s3_def c_def)
  ultimately show ?thesis by (auto simp: s3_def)
qed

section \<open>Setting up\<close>

lemma shm_generate_ok:
  "sys (sh_proc s) = replicate 18 (0, EOTHER) @ rest \<Longrightarrow>
     shm_generate_msqfile t s = Inr (s\<lparr>sh_proc := (sh_proc s)\<lparr>sys := rest\<rparr>\<rparr>)"
  by (simp add: shm_generate_msqfile_def make_folder_def touch_file_def numeral_eq_Suc)

lemma init_semaphores_ok:
  assumes "sys (sh_proc s) = map (\<lambda>r. (r, EOTHER)) [0, mu, 0, no, 0, 0, sl, 0] @ rest" and "-1 \<notin> {mu, no, sl}"
  shows "init_sysvshm_semaphores t s = Inr (s\<lparr>sh_proc := (sh_proc s)\<lparr>sys := rest\<rparr>,
     sysvshm_inst := (sysvshm_inst s)\<lparr>my_sem_mutex := mu, my_sem_notify := no, my_sem_slot := sl\<rparr>,
     ipc := (ipc s)\<lparr>sems := (sems (ipc s))(mu \<mapsto> 0, no \<mapsto> 0, no \<mapsto> 0, sl \<mapsto> 0, sl \<mapsto> 70)\<rparr>\<rparr>)"
  using assms by (simp add: init_sysvshm_semaphores_def ftok_def sem_create_def sem_setval_def Let_def)

lemma init_sysvshm_ok:
  assumes "sys (sh_proc s) = map (\<lambda>r. (r, EOTHER)) [0, g, 0, 0, 0] @ rest" and "g \<noteq> -1"
    and "my_sem_mutex (sysvshm_inst s) = mu"
  shows "init_sysvshm t s = Inr (s\<lparr>sh_proc := (sh_proc s)\<lparr>sys := rest\<rparr>,
     sysvshm_inst := (sysvshm_inst s)\<lparr>my_shmid := g, my_shm_ptr := ShmAt g\<rparr>,
     ipc := (ipc s)\<lparr>sems := (sems (ipc s))(mu \<mapsto> 0, mu \<mapsto> 1),
                    shm_segs := (shm_segs (ipc s))(g \<mapsto> init_sysvshm_mempool shm_zero)\<rparr>\<rparr>)"
  using assms
  by (simp add: init_sysvshm_def ftok_def shm_create_def shm_attach_def sem_setval_def seg_upd_def seg_get_def Let_def)

lemma init_rx_thread_ok:
  assumes "sys (sh_proc s) = [(0, EOTHER), (0, EOTHER)]" and "can_alloc (th_heap (thrman_inst (sh_proc s)))"
  shows "\<exists>p. init_sysvshm_rx_thread t s = Inr (s\<lparr>sh_proc := p\<rparr>) \<and> rcs p = rcs (sh_proc s) \<and> sys p = []"
  using assms
  by (simp add: init_sysvshm_rx_thread_def sh_put_def add_itcthread_def start_mtx_unlock_def)
    (intro exI, rule conjI, rule refl, simp)

text \<open>
  C22. When its system calls succeed, \<open>sysvshm_init\<close> leaves a segment with an empty queue in which
  every pool has room for three messages, a free mutex, no notification, and slot semaphores for
  exactly the slots that there are: the state in which messages can be received.
\<close>

theorem sysvshm_init_ready:
  assumes "\<not> sh_is_initialized (sysvshm_inst s)" and "\<not> sh_is_terminated (sysvshm_inst s)"
    and "length (sysvshm_cl (sysvshm_inst s)) = MAX_SUPPORTED_PROCESSES"
    and "rcs (sh_proc s) t = BLive ITC_OK" and "can_alloc (th_heap (thrman_inst (sh_proc s)))"
    and "sys (sh_proc s) = replicate 18 (0, EOTHER) @
       map (\<lambda>r. (r, EOTHER)) [0, mu, 0, no, 0, 0, sl, 0, 0, g, 0, 0, 0, 0, 0]"
    and "-1 \<notin> {mu, no, sl, g}" and "distinct [mu, no, sl]"
  shows "\<exists>s' md. sysvshm_init t my ITC_COORD_MASK nr flags s = Inr s' \<and> rcs (sh_proc s') t = BLive ITC_OK \<and>
     sh_cfg s' \<and> sh_receiver g md MAX_SYSVSHM_SLOTS 0 s' \<and> shm_content md [] \<and> shm_room 3 md"
proof -
  define s1 where "s1 = s\<lparr>sh_proc := (sh_proc s)\<lparr>sys := map (\<lambda>r. (r, EOTHER)) [0, mu, 0, no, 0, 0, sl, 0, 0, g, 0, 0, 0, 0, 0]\<rparr>,
     sysvshm_inst := (sysvshm_inst s)\<lparr>my_shmid := -1, sh_itccoord_mask := ITC_COORD_MASK,
       sh_itccoord_shift := ITC_COORD_SHIFT, sh_my_mbox_id_in_itccoord := my\<rparr>\<rparr>"
  define s2 where "s2 = s1\<lparr>sh_proc := (sh_proc s1)\<lparr>sys := map (\<lambda>r. (r, EOTHER)) [0, g, 0, 0, 0, 0, 0]\<rparr>,
     sysvshm_inst := (sysvshm_inst s1)\<lparr>my_sem_mutex := mu, my_sem_notify := no, my_sem_slot := sl\<rparr>,
     ipc := (ipc s1)\<lparr>sems := (sems (ipc s1))(mu \<mapsto> 0, no \<mapsto> 0, no \<mapsto> 0, sl \<mapsto> 0, sl \<mapsto> 70)\<rparr>\<rparr>"
  define s3 where "s3 = s2\<lparr>sh_proc := (sh_proc s2)\<lparr>sys := [(0, EOTHER), (0, EOTHER)]\<rparr>,
     sysvshm_inst := (sysvshm_inst s2)\<lparr>my_shmid := g, my_shm_ptr := ShmAt g\<rparr>,
     ipc := (ipc s2)\<lparr>sems := (sems (ipc s2))(mu \<mapsto> 0, mu \<mapsto> 1),
                    shm_segs := (shm_segs (ipc s2))(g \<mapsto> init_sysvshm_mempool shm_zero)\<rparr>\<rparr>"
  have a: "init_sysvshm_semaphores t s1 = Inr s2"
    unfolding s2_def by (rule init_semaphores_ok) (use assms(7) in \<open>simp_all add: s1_def\<close>)
  have b: "init_sysvshm t s2 = Inr s3"
    unfolding s3_def by (rule init_sysvshm_ok) (use assms(7) in \<open>simp_all add: s2_def\<close>)
  obtain p where p: "init_sysvshm_rx_thread t s3 = Inr (s3\<lparr>sh_proc := p\<rparr>)" "rcs p = rcs (sh_proc s3)"
    using init_rx_thread_ok [of s3 t] assms(5) by (auto simp: s3_def s2_def s1_def)
  let ?s = "sh_set (\<lambda>v. v\<lparr>sh_is_initialized := True\<rparr>) (s3\<lparr>sh_proc := p\<rparr>)"
  have "sysvshm_init t my ITC_COORD_MASK nr flags s = Inr ?s"
    using assms(1,4) shm_generate_ok [OF assms(6)] shift_loop_coord a b p(1)
    by (simp add: sysvshm_init_def s1_def del: shift_loop.simps ITC_COORD_MASK_def ITC_COORD_SHIFT_def)
  moreover have "sh_cfg ?s" using assms(3) by (simp add: sh_cfg_def s3_def s2_def s1_def)
  moreover have "sh_receiver g (init_sysvshm_mempool shm_zero) 70 0 ?s"
    using assms(2,8) by (auto simp: sh_receiver_def s3_def s2_def s1_def)
  moreover have "rcs p t = BLive ITC_OK" using p(2) assms(4) by (simp add: s3_def s2_def s1_def)
  ultimately show ?thesis using empty_segment by auto
qed

section \<open>Witnesses\<close>

definition shm_contact_example :: sysvshm_contactlist where
  "shm_contact_example = no_contact\<lparr>sc_mbox_id_in_itccoord := 0x100000, sc_metadata := ShmAt 5,
     m_sem_mutex := 1, m_sem_notify := 2, m_sem_slot := 3\<rparr>"

definition shm_example :: "shm_metadata \<Rightarrow> bytes \<Rightarrow> sysret list \<Rightarrow> shm_state" where
  "shm_example md b script = \<lparr>sh_proc = alloc_example\<lparr>sys := script,
       msgs := \<lparr>cells = [0 \<mapsto> b], fresh = 1, malloc_results = []\<rparr>\<rparr>,
     sysvshm_inst = sysvshm_instance0\<lparr>sh_is_initialized := True, sh_itccoord_mask := ITC_COORD_MASK,
       sh_itccoord_shift := ITC_COORD_SHIFT, my_shm_ptr := ShmAt 5, my_sem_mutex := 1, my_sem_notify := 2,
       my_sem_slot := 3, sysvshm_cl := replicate 255 shm_contact_example\<rparr>,
     ipc = \<lparr>shm_segs = [5 \<mapsto> md], large_segs = (\<lambda>_. None), sems = [1 \<mapsto> 1, 2 \<mapsto> 0, 3 \<mapsto> 70]\<rparr>\<rparr>"

lemma shm_example_contact:
  "proc_index to = 1 \<Longrightarrow> sh_contact to shm_contact_example 5 md (Suc 69) 0 (shm_example md b script)"
  by (simp add: sh_contact_def sh_cfg_def shm_example_def shm_contact_example_def)

lemma shm_example_sender:
  "wf_msg b \<Longrightarrow> \<not> inrx b \<Longrightarrow> length b < 2 ^ 31 \<Longrightarrow> sh_sender 0 0 b (shm_example md b script)"
  using alloc_example_state
  by (auto simp: sh_sender_def shm_example_def alloc_state_def alloc_example_def proc0_def heap_ok_def)

lemma new_message_facts:
  assumes "4 \<le> n" and "n < 2 ^ 30"
  shows "wf_msg (new_message n x)" "\<not> inrx (new_message n x)" "length (new_message n x) < 2 ^ 31"
    "unat (fld OFF_SIZE (new_message n x)) = n"
  using assms fld_new_message [of n x] by (simp_all add: wf_new_message inrx_def unat_of_nat_small)

theorem sysvshm_send_appends_witness:
  "\<exists>s' md'. sysvshm_send 0 0 0x100001 (shm_example (init_sysvshm_mempool shm_zero) (new_message 8 7) []) = Inr s' \<and>
     sh_contact 0x100001 shm_contact_example 5 md' 69 1 s' \<and> shm_content md' [new_message 8 7]"
proof -
  have i: "proc_index 0x100001 = 1" by (simp add: proc_index_def)
  have n: "(4::nat) \<le> 8" "(8::nat) < 2 ^ 30" by simp_all
  note m = new_message_facts [OF n, of 7]
  have sys: "sys (sh_proc (shm_example (init_sysvshm_mempool shm_zero) (new_message 8 7) [])) = []"
    by (simp add: shm_example_def)
  have fit: "fits_pools (new_message 8 7)" by (rule fits_new_message) simp_all
  note room = empty_room [OF init_mempool_list [OF shape_zero] which_pool_fits(1) [OF fit]]
  from sysvshm_send_appends [OF shm_example_contact [OF i] shm_example_sender [OF m(1-3)] sys fit empty_segment(1) room]
  show ?thesis by (simp add: One_nat_def [symmetric] del: One_nat_def) blast
qed

theorem message_crosses_shared_memory_witness:
  "\<exists>k p s' r r' b'. sysvshm_send 0 0 0x100001 (shm_example (init_sysvshm_mempool shm_zero) remote_message []) = Inr s' \<and>
     sysvshm_rx_round 1 (r\<lparr>ipc := ipc s'\<rparr>) = Inr (True, r') \<and> core_ok (sh_proc r') k [0 \<mapsto> [], 1 \<mapsto> [p]] \<and>
     cells (msgs (sh_proc r')) p = Some b' \<and> drop OFF_SIZE b' = drop OFF_SIZE remote_message"
proof -
  obtain q k where q: "mbx_rep k q [0 \<mapsto> [], 1 \<mapsto> []]" "alloc_state 1 q" "malloc_results (msgs q) = []"
      "my_threadlocal_mbox q 1 = Some 0" "mbx_id 1 q = 0x100001" "max_mallocsize q = ITC_MAX_MSGSIZE"
    by (rule receiving_proc)
  let ?s = "shm_example (init_sysvshm_mempool shm_zero) remote_message []"
  define r where "r = ?s\<lparr>sh_proc := q\<rparr>"
  have i: "proc_index (mbx_id 1 (sh_proc r)) = 1" using q(5) by (simp add: proc_index_def r_def)
  note m = remote_message_facts
  have fit: "fits_pools remote_message" using m(1,3) by (simp add: fits_pools_def)
  have len: "length remote_message < 2 ^ 31" using m(3) by simp
  have r: "sys (sh_proc ?s) = []" "\<not> sh_is_terminated (sysvshm_inst r)" "my_shm_ptr (sysvshm_inst r) = ShmAt 5"
    "my_sem_slot (sysvshm_inst r) = m_sem_slot shm_contact_example"
    "my_sem_mutex (sysvshm_inst r) = m_sem_mutex shm_contact_example"
    "my_sem_notify (sysvshm_inst r) = m_sem_notify shm_contact_example"
    by (simp_all add: r_def shm_example_def shm_contact_example_def sysvshm_instance0_def)
  have p: "sh_proc r = q" by (simp add: r_def)
  have b: "fld OFF_RECEIVER remote_message = mbx_id 1 (sh_proc r)"
    "length remote_message \<le> nat (max_mallocsize (sh_proc r))" using m q(5,6) by (simp_all add: p)
  from message_crosses_shared_memory [OF shm_example_contact [OF i] shm_example_sender [OF m(1,2) len] r(1) fit
      empty_segment(1) r(2-6) q(1-4) [folded p] _ _ b, of "[]"]
  obtain s' r' md' b' where
    "sysvshm_send 0 0 (mbx_id 1 (sh_proc r)) ?s = Inr s'" "sysvshm_rx_round 1 (r\<lparr>ipc := ipc s'\<rparr>) = Inr (True, r')"
    "core_ok (sh_proc r') k ([0 \<mapsto> [], 1 \<mapsto> []](1 \<mapsto> [] @ [fresh (msgs (sh_proc r))]))"
    "cells (msgs (sh_proc r')) (fresh (msgs (sh_proc r))) = Some b'" "drop OFF_SIZE b' = drop OFF_SIZE remote_message"
    by auto
  then show ?thesis unfolding p q(5) append_Nil fun_upd_upd by blast
qed

text \<open>A segment whose largest pool is full.\<close>

lemma full_pool_exists: "\<exists>md ks. shm_list md ks \<and> (\<forall>i < num_slots ! 5. (5, i) \<in> set ks)"
proof -
  have "\<exists>md ks. shm_list md ks \<and> fst ` set ks \<subseteq> {5} \<and> length ks = n" if "n \<le> 3" for n
    using that
  proof (induction n)
    case 0
    have "shm_list (init_sysvshm_mempool shm_zero) []" by (rule init_mempool_list [OF shape_zero])
    then show ?case by (intro exI [of _ "init_sysvshm_mempool shm_zero"] exI [of _ "[]"]) simp
  next
    case (Suc n)
    have "n \<le> 3" using Suc.prems by simp
    then obtain md ks where l: "shm_list md ks" "fst ` set ks \<subseteq> {5}" "length ks = n" using Suc.IH by blast
    have "card (set ks) < card ((\<lambda>i. (5::nat, i)) ` {0, 1, 2::nat})"
      using l(3) shm_listD(2) [OF l(1)] Suc.prems by (simp add: distinct_card card_image inj_on_def)
    then have "\<not> (\<lambda>i. (5, i)) ` {0, 1, 2} \<subseteq> set ks"
      using card_mono [of "set ks" "(\<lambda>i. (5::nat, i)) ` {0, 1, 2::nat}"] by (auto simp del: image_insert)
    then obtain i where i: "i \<in> {0, 1, 2::nat}" "(5, i) \<notin> set ks" by blast
    have v: "valid_slot (5, i)" using i(1) by (auto simp: valid_slot_def num_slots_def)
    obtain j md' where "shm_list md' (ks @ [(5, j)])"
    proof -
      have "(5::nat) < 6" "length [0 :: u8] \<le> data_size 5" by (simp_all add: data_size_def slot_sizes_def)
      from enqueue_block_ok [OF l(1) this(1) v i(2) this(2)] show thesis using that by blast
    qed
    then show ?case using l(2,3) by (intro exI [of _ md'] exI [of _ "ks @ [(5, j)]"]) auto
  qed
  from this [of 3] obtain md ks where l: "shm_list md ks" "fst ` set ks \<subseteq> {5}" "length ks = 3" by blast
  have sub: "set ks \<subseteq> (\<lambda>i. (5, i)) ` {0, 1, 2}"
  proof
    fix k assume k: "k \<in> set ks"
    then have "fst k = 5" "snd k < 3" using l(2) shm_listD(3) [OF l(1) k] by (auto simp: valid_slot_def num_slots_def)
    then have "k = (5, snd k)" "snd k \<in> {0, 1, 2}" by (auto simp: prod_eq_iff)
    then show "k \<in> (\<lambda>i. (5, i)) ` {0, 1, 2}" by (metis imageI)
  qed
  have "card (set ks) = 3" using l(3) shm_listD(2) [OF l(1)] by (simp add: distinct_card)
  then have "set ks = (\<lambda>i. (5, i)) ` {0, 1, 2}"
    by (intro card_subset_eq [OF _ sub]) (simp_all add: card_image inj_on_def)
  moreover have "i \<in> {0, 1, 2}" if "i < 3" for i :: nat using that by auto
  ultimately have "(5, i) \<in> set ks" if "i < 3" for i using that by (metis imageI)
  then show ?thesis using l(1) by (intro exI [of _ md] exI [of _ ks]) (simp add: num_slots_def)
qed


theorem medium_message_is_never_delivered_witness:
  "\<exists>s'. sysvshm_send 0 0 0x100001 (shm_example (init_sysvshm_mempool shm_zero) (new_message 16350 7) []) = Inr s' \<and>
     sysvshm_send 0 0 0x100001 s' = Inl Blocked"
proof -
  let ?b = "new_message 16350 7" and ?md = "init_sysvshm_mempool shm_zero"
  let ?s = "shm_example ?md ?b []"
  have i: "proc_index 0x100001 = 1" by (simp add: proc_index_def)
  have n: "(4::nat) \<le> 16350" "(16350::nat) < 2 ^ 30" by simp_all
  note m = new_message_facts [OF n, of 7]
  have sz: "16336 \<le> unat (fld OFF_SIZE ?b)" "unat (fld OFF_SIZE ?b) \<le> 16366" unfolding m(4) by simp_all
  have md: "shm_list ?md []" by (rule init_mempool_list [OF shape_zero])
  have u: "length (slot_data (slot_unlimit ?md)) = 76" "\<not> slot_free (slot_unlimit ?md)"
    by (simp_all add: init_sysvshm_mempool_def shm_zero_def zero_slot_def slot_free_def no_slot_def pool_offset_def)
  have r: "sys (sh_proc ?s) = []" "\<not> sh_is_terminated (sysvshm_inst ?s)"
    "my_sem_mutex (sysvshm_inst ?s) = m_sem_mutex shm_contact_example"
    "my_sem_notify (sysvshm_inst ?s) = m_sem_notify shm_contact_example"
    by (simp_all add: shm_example_def shm_contact_example_def sysvshm_instance0_def)
  from medium_message_is_never_delivered [OF shm_example_contact [OF i] shm_example_sender [OF m(1-3)] r(1) sz md u(1) r(2) r(1) r(3,4), of 1]
  show ?thesis using u(2) by auto
qed

theorem second_large_message_is_fatal_witness:
  "\<exists>s1 s2. insert_message 0 1 POOL_UNLIMIT 6 [1, 2, 3] (shm_example (init_sysvshm_mempool shm_zero) [] []) = Inr (True, s1) \<and>
     insert_message 0 1 POOL_UNLIMIT 5 [4, 5] s1 = Inr (True, s2) \<and>
     (\<exists>b. large_segs (ipc s2) 0 = Some b \<and> take (length [4, 5 :: u8]) b = [4, 5])"
proof -
  let ?md = "init_sysvshm_mempool shm_zero"
  let ?s = "shm_example ?md [] []"
  have a: "scl_at 1 ?s = Inr shm_contact_example" "sc_metadata shm_contact_example = ShmAt 5"
    "shm_segs (ipc ?s) 5 = Some ?md" "sys (sh_proc ?s) = []" "rcs (sh_proc ?s) 0 = BLive 0"
    "large_segs (ipc ?s) 0 = None"
    by (simp_all add: scl_at_def shm_example_def shm_contact_example_def alloc_example_def)
  have l: "is_large POOL_UNLIMIT 6" "is_large POOL_UNLIMIT 5" by (simp_all add: is_large_def slot_sizes_def)
  have "length [1, 2, 3 :: u8] \<le> (25 + unat (6 :: u16)) * 4096" "length [4, 5 :: u8] \<le> (25 + unat (5 :: u16)) * 4096"
    by simp_all
  from second_large_message_is_fatal [OF a(1-5) init_mempool_list [OF shape_zero] l a(6) this]
  show ?thesis by auto
qed

theorem reconnected_sender_has_no_mutex_witness:
  "\<exists>s' s''. wait_contact m_sem_mutex 0 1 0x100001
      (shm_example (init_sysvshm_mempool shm_zero) []
        ((-1, EIDRM) # map (\<lambda>r. (r, EOTHER)) [8, 5, 0, 8, 1, 8, 2, 8, 3])) = Inr (True, s') \<and>
     post_contact m_sem_mutex 0 1 s' = Inr (True, s'') \<and> sems (ipc s'') 1 = Some (Suc 1)"
proof -
  let ?l = "(-1, EIDRM) # map (\<lambda>r. (r, EOTHER)) [8, 5, 0, 8, 1, 8, 2, 8, 3] :: sysret list"
  let ?s = "shm_example (init_sysvshm_mempool shm_zero) [] ?l"
  have i: "proc_index 0x100001 = 1" by (simp add: proc_index_def)
  have s: "sh_cfg ?s" "rcs (sh_proc ?s) 0 = BLive 0" "sys (sh_proc ?s) = ?l" "sems (ipc ?s) 1 = Some 1"
    by (simp_all add: sh_cfg_def shm_example_def alloc_example_def)
  from reconnected_sender_has_no_mutex [OF s(1) _ _ s(2,3) _ _ s(4), of "0x100001"] i
  show ?thesis by auto
qed

theorem sysvshm_init_ready_witness:
  "\<exists>s' md. sysvshm_init 0 0x100000 ITC_COORD_MASK 5 0 \<lparr>sh_proc = alloc_example\<lparr>sys := replicate 18 (0, EOTHER) @
       map (\<lambda>r. (r, EOTHER)) [0, 1, 0, 2, 0, 0, 3, 0, 0, 9, 0, 0, 0, 0, 0]\<rparr>, sysvshm_inst = sysvshm_instance0,
       ipc = \<lparr>shm_segs = (\<lambda>_. None), large_segs = (\<lambda>_. None), sems = (\<lambda>_. None)\<rparr>\<rparr> = Inr s' \<and>
     sh_receiver 9 md 70 0 s' \<and> shm_content md []"
proof -
  let ?l = "replicate 18 (0, EOTHER) @ map (\<lambda>r. (r, EOTHER)) [0, 1, 0, 2, 0, 0, 3, 0, 0, 9, 0, 0, 0, 0, 0 :: int]"
  let ?s = "\<lparr>sh_proc = alloc_example\<lparr>sys := ?l\<rparr>, sysvshm_inst = sysvshm_instance0,
       ipc = \<lparr>shm_segs = (\<lambda>_. None), large_segs = (\<lambda>_. None), sems = (\<lambda>_. None)\<rparr>\<rparr>"
  have s: "\<not> sh_is_initialized (sysvshm_inst ?s)" "\<not> sh_is_terminated (sysvshm_inst ?s)"
    "length (sysvshm_cl (sysvshm_inst ?s)) = MAX_SUPPORTED_PROCESSES" "rcs (sh_proc ?s) 0 = BLive ITC_OK"
    "can_alloc (th_heap (thrman_inst (sh_proc ?s)))" "sys (sh_proc ?s) = ?l"
    by (simp_all add: sysvshm_instance0_def alloc_example_def proc0_def thrman0_def)
  have "-1 \<notin> {1, 2, 3, 9 :: int}" "distinct [1, 2, 3 :: int]" by simp_all
  from sysvshm_init_ready [OF s this, of "0x100000" 5 0] show ?thesis by auto
qed

end

