(* ===== verification/Itc_Posixmq.thy ===== *)
theory Itc_Posixmq
  imports Itc_Sysvmq_Rx Itc_Tree
begin

text \<open>
  \<open>sw/itc/src/transporters/itc_posixmq.c\<close>: the transport over POSIX message queues, which takes the
  place of \<open>itc_sysvmq.c\<close> when the framework is built with \<open>UT_POSIXMQ_PLUGIN\<close>. A process has one
  queue; when a message arrives in the empty queue, the kernel starts a thread that reads all messages.
  They are not put into the mailboxes but into a search tree, from which each mailbox takes what is
  addressed to it.
\<close>

unbundle bit_operations_syntax

section \<open>Data\<close>

definition MAX_NUM_MESSAGES_ALLOWED_IN_TREE :: u32 where [simp]: "MAX_NUM_MESSAGES_ALLOWED_IN_TREE = 100"

record posixmq_contactlist =
  pc_mbox_id_in_itccoord :: itc_mbox_id
  posix_mqd :: int

text \<open>
  The nodes of the two trees are the addresses of messages and the indices of mailboxes; the mutexes,
  which are of the default type, are represented by whether they are taken.
\<close>

record posixmq_instance =
  pm_itccoord_mask :: itc_mbox_id
  pm_itccoord_shift :: nat
  my_posix_mqd :: int
  my_posixmq_name :: cstr
  pm_is_initialized :: bool
  pm_max_msgsize :: int
  pm_rx_buffer :: "bytes block"
  itc_message_buffer_mtx :: bool
  itc_message_buffer_tree :: "nat tree"
  num_messages :: u32
  m_active_mbox_tree :: "nat tree"
  m_active_mbox_tree_mtx :: bool
  posixmq_cl :: "posixmq_contactlist list"

definition pm_no_contact :: posixmq_contactlist where
  "pm_no_contact = \<lparr>pc_mbox_id_in_itccoord = 0, posix_mqd = 0\<rparr>"

definition posixmq_instance0 :: posixmq_instance where
  "posixmq_instance0 = \<lparr>pm_itccoord_mask = 0, pm_itccoord_shift = 0, my_posix_mqd = 0, my_posixmq_name = [],
     pm_is_initialized = False, pm_max_msgsize = 0, pm_rx_buffer = BNull, itc_message_buffer_mtx = False,
     itc_message_buffer_tree = Leaf, num_messages = 0, m_active_mbox_tree = Leaf,
     m_active_mbox_tree_mtx = False, posixmq_cl = replicate MAX_SUPPORTED_PROCESSES pm_no_contact\<rparr>"

record pm_state =
  pm_proc :: proc
  posixmq_inst :: posixmq_instance

abbreviation pm_set :: "(posixmq_instance \<Rightarrow> posixmq_instance) \<Rightarrow> pm_state \<Rightarrow> pm_state" where
  "pm_set f s \<equiv> s\<lparr>posixmq_inst := f (posixmq_inst s)\<rparr>"

definition pm_sys :: "pm_state \<Rightarrow> sysret \<times> pm_state" where
  "pm_sys s = (case sys_next (pm_proc s) of (r, p) \<Rightarrow> (r, s\<lparr>pm_proc := p\<rparr>))"

definition pm_put :: "(proc \<Rightarrow> proc outcome) \<Rightarrow> pm_state \<Rightarrow> pm_state outcome" where
  "pm_put f s = bindE (f (pm_proc s)) (\<lambda>p. Inr (s\<lparr>pm_proc := p\<rparr>))"

definition pm_itc :: "(proc \<Rightarrow> ('a \<times> proc) outcome) \<Rightarrow> pm_state \<Rightarrow> ('a \<times> pm_state) outcome" where
  "pm_itc f s = bindE (f (pm_proc s)) (\<lambda>(a, p). Inr (a, s\<lparr>pm_proc := p\<rparr>))"

text \<open>Taking a mutex of the default type that is taken already waits for its release.\<close>

definition lock_mbox_tree :: "pm_state \<Rightarrow> pm_state outcome" where
  "lock_mbox_tree s = (if m_active_mbox_tree_mtx (posixmq_inst s) then Inl Blocked
     else Inr (pm_set (\<lambda>v. v\<lparr>m_active_mbox_tree_mtx := True\<rparr>) s))"

definition unlock_mbox_tree :: "pm_state \<Rightarrow> pm_state" where
  "unlock_mbox_tree s = pm_set (\<lambda>v. v\<lparr>m_active_mbox_tree_mtx := False\<rparr>) s"

definition lock_message_tree :: "pm_state \<Rightarrow> pm_state outcome" where
  "lock_message_tree s = (if itc_message_buffer_mtx (posixmq_inst s) then Inl Blocked
     else Inr (pm_set (\<lambda>v. v\<lparr>itc_message_buffer_mtx := True\<rparr>) s))"

definition unlock_message_tree :: "pm_state \<Rightarrow> pm_state" where
  "unlock_message_tree s = pm_set (\<lambda>v. v\<lparr>itc_message_buffer_mtx := False\<rparr>) s"

section \<open>The comparison functions\<close>

definition compare_ids :: "u32 \<Rightarrow> u32 \<Rightarrow> int" where
  "compare_ids a b = (if a = b then 0 else if b < a then 1 else -1)"

definition receiver_of :: "mheap \<Rightarrow> nat \<Rightarrow> itc_mbox_id" where
  "receiver_of mh j = (case cells mh j of Some bs \<Rightarrow> fld OFF_RECEIVER bs | None \<Rightarrow> 0)"

definition mbox_id_of :: "proc \<Rightarrow> nat \<Rightarrow> itc_mbox_id" where
  "mbox_id_of s j = (case mboxes (itc_inst s) of BLive ms \<Rightarrow> mb_id (ms ! j) | _ \<Rightarrow> 0)"

definition compare_mboxid_in_itcmessage_tree :: "itc_mbox_id \<Rightarrow> mheap \<Rightarrow> nat \<Rightarrow> int" where
  "compare_mboxid_in_itcmessage_tree mboxid mh j = compare_ids mboxid (receiver_of mh j)"

definition compare_msg_in_itcmessage_tree :: "nat \<Rightarrow> nat \<Rightarrow> int" where
  "compare_msg_in_itcmessage_tree pa pb = (if pa = pb then 0 else if pb < pa then 1 else -1)"

definition compare_mboxid_in_itcmailbox_tree :: "itc_mbox_id \<Rightarrow> proc \<Rightarrow> nat \<Rightarrow> int" where
  "compare_mboxid_in_itcmailbox_tree mboxid s j = compare_ids mboxid (mbox_id_of s j)"

definition compare_mbox_in_itcmailbox_tree :: "nat \<Rightarrow> proc \<Rightarrow> nat \<Rightarrow> int" where
  "compare_mbox_in_itcmailbox_tree i s j = compare_ids (mbox_id_of s i) (mbox_id_of s j)"

section \<open>The table of contacts\<close>

definition pm_cl_at :: "nat \<Rightarrow> pm_state \<Rightarrow> posixmq_contactlist outcome" where
  "pm_cl_at i s = (let cls = posixmq_cl (posixmq_inst s) in
     if i < length cls then Inr (cls ! i) else Inl OutOfBounds)"

definition pm_cl_set :: "nat \<Rightarrow> posixmq_contactlist \<Rightarrow> pm_state \<Rightarrow> pm_state outcome" where
  "pm_cl_set i c s = (let cls = posixmq_cl (posixmq_inst s) in
     if i < length cls then Inr (pm_set (\<lambda>v. v\<lparr>posixmq_cl := cls[i := c]\<rparr>) s) else Inl OutOfBounds)"

definition pm_find_cl :: "nat \<Rightarrow> itc_mbox_id \<Rightarrow> pm_state \<Rightarrow> (nat option \<times> pm_state) outcome" where
  "pm_find_cl t mbox_id s =
     (let pid = drop_bit (pm_itccoord_shift (posixmq_inst s)) (mbox_id AND pm_itccoord_mask (posixmq_inst s)) in
      if pid = 0 \<or> of_nat MAX_SUPPORTED_PROCESSES \<le> pid
      then bindE (pm_put (rc_or t ITC_INVALID_ARGUMENTS) s) (\<lambda>s. Inr (None, s))
      else Inr (Some (unat pid), s))"

text \<open>\<open>mq_open\<close> of the queue that is named after the process.\<close>

definition get_posix_mqd :: "nat \<Rightarrow> itc_mbox_id \<Rightarrow> pm_state \<Rightarrow> (int \<times> pm_state) outcome" where
  "get_posix_mqd t mbox_id s =
     (case pm_sys s of ((msqd, _), s) \<Rightarrow>
      if msqd = -1 then bindE (pm_put (rc_or t ITC_SYSCALL_ERROR) s) (\<lambda>s. Inr (-1, s))
      else Inr (msqd, s))"

definition add_posixmq_cl :: "nat \<Rightarrow> nat \<Rightarrow> itc_mbox_id \<Rightarrow> pm_state \<Rightarrow> pm_state outcome" where
  "add_posixmq_cl t cl mbox_id s =
     bindE (get_posix_mqd t mbox_id s) (\<lambda>(msqd, s).
     if msqd \<noteq> -1 then
       pm_cl_set cl \<lparr>pc_mbox_id_in_itccoord = mbox_id AND pm_itccoord_mask (posixmq_inst s), posix_mqd = msqd\<rparr> s
     else Inr s)"

definition get_posixmq_cl :: "nat \<Rightarrow> itc_mbox_id \<Rightarrow> pm_state \<Rightarrow> (nat option \<times> pm_state) outcome" where
  "get_posixmq_cl t mbox_id s =
     bindE (pm_find_cl t mbox_id s) (\<lambda>(cl, s).
     case cl of None \<Rightarrow> Inr (None, s)
     | Some i \<Rightarrow>
         bindE (pm_cl_at i s) (\<lambda>c.
         if pc_mbox_id_in_itccoord c = 0
         then bindE (add_posixmq_cl t i mbox_id s) (\<lambda>s. Inr (Some i, s))
         else Inr (Some i, s)))"

fun pm_release_contacts :: "nat list \<Rightarrow> pm_state \<Rightarrow> pm_state outcome" where
  "pm_release_contacts [] s = Inr s"
| "pm_release_contacts (i # is) s =
     bindE (pm_cl_at i s) (\<lambda>c.
     if pc_mbox_id_in_itccoord c = 0 then pm_release_contacts is s
     else
       case pm_sys s of (mq_close, s) \<Rightarrow>
       bindE (pm_cl_set i pm_no_contact s) (\<lambda>s. pm_release_contacts is s))"

definition release_posixmq_contactlist :: "pm_state \<Rightarrow> pm_state outcome" where
  "release_posixmq_contactlist s = pm_release_contacts [0..<MAX_SUPPORTED_PROCESSES] s"

section \<open>Setting up and down\<close>

text \<open>
  The largest message: what the kernel says about the own queue, when there is one. Before the first
  initialisation its descriptor is 0, not -1. The outcome of \<open>mq_getattr\<close> is the size, or -1.
\<close>

definition posixmq_maxmsgsize :: "pm_state \<Rightarrow> int \<times> pm_state" where
  "posixmq_maxmsgsize s =
     (case (if my_posix_mqd (posixmq_inst s) \<noteq> -1 then pm_sys s else ((-1, EOTHER), s)) of
        ((attr, _), s) \<Rightarrow>
          let n = (if attr \<noteq> -1 then attr else 8192)
          in (n, pm_set (\<lambda>v. v\<lparr>pm_max_msgsize := n\<rparr>) s))"

definition remove_posixmq :: "pm_state \<Rightarrow> pm_state" where
  "remove_posixmq s = (case pm_sys s of (mq_close, s) \<Rightarrow> case pm_sys s of (mq_unlink, s) \<Rightarrow> s)"

definition register_notification :: "pm_state \<Rightarrow> pm_state" where
  "register_notification s = (case pm_sys s of (mq_notify, s) \<Rightarrow> s)"

text \<open>
  \<open>tdestroy\<close> hands every node of the tree to this function: the address of a message. It takes the
  address of a pointer for granted instead, reads the first eight bytes of the message (its flags and
  its receiver) as the address of the message, and releases that.
\<close>

definition free_itc_message_in_tree :: "nat \<Rightarrow> pm_state \<Rightarrow> pm_state outcome" where
  "free_itc_message_in_tree tree_node_data s =
     bindE (hread (Some tree_node_data) (msgs (pm_proc s))) (\<lambda>bs.
     bindE (get_bytes 0 8 bs) (\<lambda>address. Inl Undefined))"

fun tdestroy_messages :: "nat list \<Rightarrow> pm_state \<Rightarrow> pm_state outcome" where
  "tdestroy_messages [] s = Inr s"
| "tdestroy_messages (m # ms) s = bindE (free_itc_message_in_tree m s) (\<lambda>s. tdestroy_messages ms s)"

definition release_posixmq_resources :: "nat \<Rightarrow> pm_state \<Rightarrow> pm_state outcome" where
  "release_posixmq_resources t s =
     (let s = (if my_posix_mqd (posixmq_inst s) \<noteq> -1 then remove_posixmq s else s) in
      bindE (bfree (pm_rx_buffer (posixmq_inst s))) (\<lambda>buf.
      bindE (release_posixmq_contactlist (pm_set (\<lambda>v. v\<lparr>pm_rx_buffer := buf\<rparr>) s)) (\<lambda>s.
      case pm_sys s of (mutex_destroy1, s) \<Rightarrow>
      case pm_sys s of (mutex_destroy2, s) \<Rightarrow>
      bindE (tdestroy_messages (inorder (itc_message_buffer_tree (posixmq_inst s))) s) (\<lambda>s.
      Inr (s\<lparr>posixmq_inst := posixmq_instance0\<rparr>)))))"

definition posixmq_init ::
  "nat \<Rightarrow> itc_mbox_id \<Rightarrow> itc_mbox_id \<Rightarrow> u32 \<Rightarrow> u32 \<Rightarrow> pm_state \<Rightarrow> pm_state outcome" where
  "posixmq_init t my_mbox_id_in_itccoord itccoord_mask nr flags s =
     (if pm_is_initialized (posixmq_inst s) then
        (if flags AND ITC_FLAGS_FORCE_REINIT \<noteq> 0 then release_posixmq_resources t s
         else pm_put (rc_or t ITC_ALREADY_INIT) s)
      else
        bindE (shift_loop 33 itccoord_mask 0) (\<lambda>shift.
        let s = pm_set (\<lambda>v. v\<lparr>num_messages := 0, pm_itccoord_mask := itccoord_mask, pm_itccoord_shift := shift,
                  my_posixmq_name := ascii ''/itc_posixmq_0x'' @ hex32 my_mbox_id_in_itccoord\<rparr>) s in
        case posixmq_maxmsgsize s of (mq_msgsize, s) \<Rightarrow>
        case pm_sys s of ((mqd, _), s) \<Rightarrow>
        let s = pm_set (\<lambda>v. v\<lparr>my_posix_mqd := mqd\<rparr>) s in
        if mqd = -1 then pm_put (rc_or t ITC_SYSCALL_ERROR) s
        else case pm_sys s of ((chmod, _), s) \<Rightarrow>
        if chmod < 0 then pm_put (rc_or t ITC_SYSCALL_ERROR) (remove_posixmq s)
        else case malloc_ok (pm_proc s) of (buf, p) \<Rightarrow>
        let s = pm_set (\<lambda>v. v\<lparr>pm_rx_buffer := (if buf then BLive (replicate (nat (pm_max_msgsize v)) 0) else BNull)\<rparr>)
                  (s\<lparr>pm_proc := p\<rparr>) in
        if \<not> buf then pm_put (rc_or t ITC_SYSCALL_ERROR) (remove_posixmq s)
        else case pm_sys s of ((mutex_init1, _), s) \<Rightarrow>
        if mutex_init1 \<noteq> 0 then pm_put (rc_or t ITC_SYSCALL_ERROR) (remove_posixmq s)
        else case pm_sys s of ((mutex_init2, _), s) \<Rightarrow>
        if mutex_init2 \<noteq> 0 then pm_put (rc_or t ITC_SYSCALL_ERROR) (remove_posixmq s)
        else
          Inr (pm_set (\<lambda>v. v\<lparr>pm_is_initialized := True\<rparr>)
            (register_notification
              (pm_set (\<lambda>v. v\<lparr>itc_message_buffer_mtx := False, m_active_mbox_tree_mtx := False\<rparr>) s)))))"

definition posixmq_exit :: "nat \<Rightarrow> pm_state \<Rightarrow> pm_state outcome" where
  "posixmq_exit t s =
     (if \<not> pm_is_initialized (posixmq_inst s) then pm_put (rc_or t ITC_NOT_INIT_YET) s
      else release_posixmq_resources t s)"

section \<open>The mailboxes of the process\<close>

text \<open>Both operations return with the mutex taken when they find the tree not as they expect it.\<close>

definition posixmq_create_mbox :: "nat \<Rightarrow> pm_state \<Rightarrow> pm_state outcome" where
  "posixmq_create_mbox mailbox s =
     bindE (lock_mbox_tree s) (\<lambda>s.
     let tree = m_active_mbox_tree (posixmq_inst s); p = pm_proc s in
     if tree_lookup (compare_mboxid_in_itcmailbox_tree (mbox_id_of p mailbox) p) tree \<noteq> None then Inr s
     else Inr (unlock_mbox_tree
            (pm_set (\<lambda>v. v\<lparr>m_active_mbox_tree := tree_insert (compare_mbox_in_itcmailbox_tree mailbox p) mailbox tree\<rparr>) s)))"

definition posixmq_delete_mbox :: "nat \<Rightarrow> pm_state \<Rightarrow> pm_state outcome" where
  "posixmq_delete_mbox mailbox s =
     bindE (lock_mbox_tree s) (\<lambda>s.
     let tree = m_active_mbox_tree (posixmq_inst s); p = pm_proc s in
     if tree_lookup (compare_mboxid_in_itcmailbox_tree (mbox_id_of p mailbox) p) tree = None then Inr s
     else Inr (unlock_mbox_tree
            (pm_set (\<lambda>v. v\<lparr>m_active_mbox_tree := tree_remove (compare_mbox_in_itcmailbox_tree mailbox p) tree\<rparr>) s)))"

section \<open>Sending\<close>

text \<open>
  The loop around \<open>mq_send\<close>. When the retries are used up an error is recorded, but the loop goes on:
  it ends with a success only. Beyond the end of the list of outcomes the call succeeds, so that the
  fuel is never used up.
\<close>

fun mq_send_loop :: "nat \<Rightarrow> nat \<Rightarrow> int \<Rightarrow> int \<Rightarrow> bytes \<Rightarrow> pm_state \<Rightarrow> pm_state outcome" where
  "mq_send_loop 0 t num_retries mqd b s = Inl Diverges"
| "mq_send_loop (Suc n) t num_retries mqd b s =
     (case pm_sys s of ((ret, errno), s) \<Rightarrow>
      if ret \<noteq> -1 then Inr (s\<lparr>pm_proc := (pm_proc s)\<lparr>mq_sent := mq_sent (pm_proc s) @ [(mqd, b)]\<rparr>\<rparr>)
      else if errno = EINTR \<or> errno = EAGAIN \<or> 0 < num_retries then mq_send_loop n t (num_retries - 1) mqd b s
      else bindE (pm_put (rc_or t ITC_SYSCALL_ERROR) s) (\<lambda>s. mq_send_loop n t num_retries mqd b s))"

definition posixmq_send :: "nat \<Rightarrow> nat \<Rightarrow> itc_mbox_id \<Rightarrow> pm_state \<Rightarrow> pm_state outcome" where
  "posixmq_send t message to s =
     (if \<not> pm_is_initialized (posixmq_inst s) then pm_put (rc_or t ITC_NOT_INIT_YET) s
      else
        bindE (get_posixmq_cl t to s) (\<lambda>(cl, s).
        bindE (case cl of None \<Rightarrow> Inr pm_no_contact | Some i \<Rightarrow> pm_cl_at i s) (\<lambda>c.
        if pc_mbox_id_in_itccoord c = 0
        then pm_put (rc_upd t (\<lambda>f. (f AND NOT ITC_SYSCALL_ERROR) OR ITC_QUEUE_NULL)) s
        else
          bindE (msg_get OFF_SIZE (Some message) (msgs (pm_proc s))) (\<lambda>msize.
          bindE (hread (Some message) (msgs (pm_proc s))) (\<lambda>bs.
          bindE (get_bytes 0 (unat (msize + of_nat ITC_HEADER_SIZE + 1)) bs) (\<lambda>b.
          bindE (mq_send_loop (Suc (length (sys (pm_proc s)))) t 100 (posix_mqd c) b s) (\<lambda>s.
          bindE (pm_itc (itc_free t (Some message)) s) (\<lambda>(freed, s).
          Inr s))))))))"

section \<open>Receiving\<close>

definition posixmq_receive :: "nat \<Rightarrow> pm_state \<Rightarrow> (ptr \<times> pm_state) outcome" where
  "posixmq_receive my_mbox s =
     bindE (lock_message_tree s) (\<lambda>s.
     let tree = itc_message_buffer_tree (posixmq_inst s);
         cmp = compare_mboxid_in_itcmessage_tree (mbox_id_of (pm_proc s) my_mbox) (msgs (pm_proc s))
     in
     case tree_lookup cmp tree of
       Some m \<Rightarrow>
         Inr (Some m, unlock_message_tree
           (pm_set (\<lambda>v. v\<lparr>num_messages := num_messages v - 1, itc_message_buffer_tree := tree_remove cmp tree\<rparr>) s))
     | None \<Rightarrow> Inr (None, unlock_message_tree s))"

definition notify_receiver_about_msg_arrival :: "nat \<Rightarrow> nat \<Rightarrow> proc \<Rightarrow> proc outcome" where
  "notify_receiver_about_msg_arrival t j s =
     bindE (mutex_lock t j s) (\<lambda>s.
     bindE (mbox_at j s) (\<lambda>m.
     if \<not> p_rxq_info m then Inl NullDeref
     else
       bindE
         (if is_fd_created m \<and> rxq_len m = 0 then
            (case sys_next s of ((write, _), s) \<Rightarrow>
             if write < 0 then Inr s else mbox_upd j (\<lambda>m. m\<lparr>evfd_count := Suc (evfd_count m)\<rparr>) s)
          else Inr s) (\<lambda>s.
       bindE (mbox_upd j (\<lambda>m. m\<lparr>rxq_len := rxq_len m + 1\<rparr>) s) (\<lambda>s.
       mutex_unlock t j s))))"

text \<open>What was read becomes a message of the process, and a node of the tree of messages.\<close>

definition process_received_message :: "nat \<Rightarrow> bytes \<Rightarrow> int \<Rightarrow> pm_state \<Rightarrow> pm_state outcome" where
  "process_received_message t buf num s =
     (if num \<le> int ITC_HEADER_SIZE then Inr s
      else
        bindE (get32 OFF_SIZE buf) (\<lambda>sz.
        bindE (get_bytes (OFF_MSGNO + unat sz) 1 buf) (\<lambda>endpoint.
        if endpoint \<noteq> [ENDPOINT] then Inr s
        else
          bindE (pm_itc (itc_alloc t (ucast sz) 0) s) (\<lambda>(msg, s).
          bindE (msg_get OFF_FLAGS msg (msgs (pm_proc s))) (\<lambda>flags.
          bindE (get_bytes 0 (unat (sz + of_nat ITC_HEADER_SIZE + 1)) buf) (\<lambda>rxmsg.
          bindE (hread msg (msgs (pm_proc s))) (\<lambda>bs.
          bindE (put_bytes 0 rxmsg bs) (\<lambda>bs.
          bindE (hupd msg (\<lambda>_. bs) (msgs (pm_proc s))) (\<lambda>mh.
          bindE (msg_put OFF_FLAGS (ucast (ucast flags :: u16)) msg mh) (\<lambda>mh.
          let s = s\<lparr>pm_proc := (pm_proc s)\<lparr>msgs := mh\<rparr>\<rparr> in
          if MAX_NUM_MESSAGES_ALLOWED_IN_TREE < num_messages (posixmq_inst s)
          then bindE (pm_itc (itc_free t msg) s) (\<lambda>(freed, s). Inr s)
          else
            (case msg of None \<Rightarrow> Inl NullDeref | Some m \<Rightarrow>
            bindE (lock_message_tree s) (\<lambda>s.
            let s = unlock_message_tree (pm_set (\<lambda>v. v\<lparr>num_messages := num_messages v + 1, itc_message_buffer_tree :=
                      tree_insert (compare_msg_in_itcmessage_tree m) m (itc_message_buffer_tree v)\<rparr>) s) in
            bindE (lock_mbox_tree s) (\<lambda>s.
            case tree_lookup (compare_mboxid_in_itcmailbox_tree (receiver_of mh m) (pm_proc s))
                   (m_active_mbox_tree (posixmq_inst s)) of
              None \<Rightarrow> Inr (unlock_mbox_tree s)
            | Some j \<Rightarrow>
                bindE (pm_put (notify_receiver_about_msg_arrival t j) s) (\<lambda>s. Inr (unlock_mbox_tree s)))))))))))))))"

text \<open>\<open>mq_receive\<close> without waiting: when no more outcomes are given the queue is empty.\<close>

definition mq_receive :: "pm_state \<Rightarrow> sysret \<times> bytes \<times> pm_state" where
  "mq_receive s =
     (if sys (pm_proc s) = [] then ((-1, EAGAIN), [], s)
      else case recv_call (pm_proc s) of (r, d, p) \<Rightarrow> (r, d, s\<lparr>pm_proc := p\<rparr>))"

text \<open>
  The loop of the thread that the kernel starts. It retries after any error while it has retries left,
  also when the queue is empty; after an error other than these two it returns without asking for a
  notification again. Each round uses up an outcome or a retry.
\<close>

fun pm_rx_loop :: "nat \<Rightarrow> nat \<Rightarrow> int \<Rightarrow> pm_state \<Rightarrow> pm_state outcome" where
  "pm_rx_loop 0 t num_retries s = Inl Diverges"
| "pm_rx_loop (Suc n) t num_retries s =
     bindE (bread (pm_rx_buffer (posixmq_inst s))) (\<lambda>buf.
     case mq_receive s of ((num, errno), d, s) \<Rightarrow>
     if num < 0 then
       (if errno = EINTR \<or> 0 < num_retries then pm_rx_loop n t (num_retries - 1) s
        else if errno = EAGAIN then Inr (register_notification s)
        else Inr s)
     else
       bindE (put_bytes 0 d buf) (\<lambda>buf.
       bindE (process_received_message t buf num (pm_set (\<lambda>v. v\<lparr>pm_rx_buffer := BLive buf\<rparr>) s)) (\<lambda>s.
       pm_rx_loop n t num_retries s)))"

definition posix_msq_rx_thread_func :: "nat \<Rightarrow> pm_state \<Rightarrow> pm_state outcome" where
  "posix_msq_rx_thread_func t s = pm_rx_loop (length (sys (pm_proc s)) + 102) t 100 s"

end
