(* ===== verification/Itc_Posixmq_Run.thy ===== *)
theory Itc_Posixmq_Run
  imports Itc_Posixmq Itc_Remote
begin

text \<open>
  What the transport over POSIX message queues does with messages: they arrive once, a single one is
  delivered, and with several in the tree some are never found; what happens when a mailbox is
  registered twice, and at the exit.
\<close>

unbundle bit_operations_syntax

section \<open>Lemmas\<close>

lemma compare_ids_sign: "compare_ids a b < 0 \<longleftrightarrow> a < b" "compare_ids a b = 0 \<longleftrightarrow> a = b"
  by (auto simp: compare_ids_def)

lemma pm_sys_Nil [simp]: "sys (pm_proc s) = [] \<Longrightarrow> pm_sys s = ((0, EOTHER), s)"
  by (simp add: pm_sys_def)

lemma pm_sys_Cons [simp]:
  "sys (pm_proc s) = r # rs \<Longrightarrow> pm_sys s = (r, s\<lparr>pm_proc := (pm_proc s)\<lparr>sys := rs\<rparr>\<rparr>)"
  by (simp add: pm_sys_def)

definition pm_cfg :: "pm_state \<Rightarrow> bool" where
  "pm_cfg s \<longleftrightarrow> pm_is_initialized (posixmq_inst s) \<and> pm_itccoord_mask (posixmq_inst s) = ITC_COORD_MASK \<and>
     pm_itccoord_shift (posixmq_inst s) = ITC_COORD_SHIFT \<and>
     length (posixmq_cl (posixmq_inst s)) = MAX_SUPPORTED_PROCESSES"

lemma pm_find_cl_eq:
  assumes "pm_cfg s" and "0 < proc_index i" and "proc_index i < 255"
  shows "pm_find_cl t i s = Inr (Some (proc_index i), s)"
proof -
  define pid where "pid = drop_bit 20 (i AND 0xFFF00000 :: u32)"
  have u: "unat pid = proc_index i" unfolding pid_def by (rule proc_index_word)
  have "pid \<noteq> 0" "\<not> 255 \<le> pid" using u assms(2,3) by (auto simp: word_le_nat_alt)
  then show ?thesis
    using assms(1) u by (simp add: pm_find_cl_def pm_cfg_def Let_def pid_def [symmetric] pid_def [simplified, symmetric])
qed

section \<open>Sending\<close>

text \<open>The loop survives any failures, also those after the last retry.\<close>

lemma mq_send_loop_ok:
  assumes "sys (pm_proc s) = map (\<lambda>e. (-1, e)) es @ (0, e0) # rest" and "length es < n" and "rcs (pm_proc s) t = BLive w"
  shows "\<exists>w'. mq_send_loop n t k mqd b s = Inr (s\<lparr>pm_proc := (pm_proc s)\<lparr>sys := rest,
     rcs := (rcs (pm_proc s))(t := BLive w'), mq_sent := mq_sent (pm_proc s) @ [(mqd, b)]\<rparr>\<rparr>)"
  using assms
proof (induction es arbitrary: n k s w)
  case Nil
  then obtain n' where "n = Suc n'" by (cases n) auto
  then show ?case using Nil by (intro exI [of _ w]) (simp add: fun_upd_idem)
next
  case (Cons e es)
  then obtain n' where n: "n = Suc n'" by (cases n) auto
  define s1 where "s1 = s\<lparr>pm_proc := (pm_proc s)\<lparr>sys := map (\<lambda>e. (-1, e)) es @ (0, e0) # rest\<rparr>\<rparr>"
  have ps: "pm_sys s = ((-1, e), s1)" using Cons.prems(1) by (simp add: s1_def)
  show ?case
  proof (cases "e = EINTR \<or> e = EAGAIN \<or> 0 < k")
    case True
    then have step: "mq_send_loop n t k mqd b s = mq_send_loop n' t (k - 1) mqd b s1" using n ps by simp
    show ?thesis
      using Cons.IH [of s1 n' w "k - 1"] Cons.prems n unfolding step by (simp add: s1_def)
  next
    case False
    define s2 where "s2 = s1\<lparr>pm_proc := (pm_proc s1)\<lparr>rcs := (rcs (pm_proc s1))(t := BLive (w OR ITC_SYSCALL_ERROR))\<rparr>\<rparr>"
    have step: "mq_send_loop n t k mqd b s = mq_send_loop n' t k mqd b s2"
      using False n ps Cons.prems(3) by (simp add: pm_put_def s1_def s2_def)
    show ?thesis
      using Cons.IH [of s2 n' "w OR ITC_SYSCALL_ERROR" k] Cons.prems n unfolding step by (simp add: s1_def s2_def fun_upd_def cong: if_cong)
  qed
qed

text \<open>
  C30. Over an established contact a message is handed to the POSIX queue of the other process exactly
  once, after any number of failures of any kind: the loop has no way out but success. The recorded
  errors are wiped out by the release of the message, so that the caller sees none.
\<close>

theorem posixmq_send_never_gives_up:
  assumes "pm_cfg s" and "0 < proc_index to" and "proc_index to < 255"
    and "posixmq_cl (posixmq_inst s) ! proc_index to = c" and "pc_mbox_id_in_itccoord c \<noteq> 0"
    and "alloc_state t (pm_proc s)" and "rcs (pm_proc s) t = BLive 0" and "cells (msgs (pm_proc s)) m = Some bs"
    and "wf_msg bs" and "\<not> inrx bs" and "length bs < 2 ^ 31"
    and "sys (pm_proc s) = map (\<lambda>e. (-1, e)) es @ (0, e0) # rest"
  shows "\<exists>s'. posixmq_send t m to s = Inr s' \<and> mq_sent (pm_proc s') = mq_sent (pm_proc s) @ [(posix_mqd c, bs)] \<and>
     sys (pm_proc s') = rest \<and> rcs (pm_proc s') t = BLive ITC_OK \<and>
     cells (msgs (pm_proc s')) = (cells (msgs (pm_proc s)))(m := None)"
proof -
  let ?i = "proc_index to"
  have at: "pm_cl_at ?i s = Inr c" using assms(1,3,4) by (simp add: pm_cl_at_def pm_cfg_def Let_def)
  have get: "get_posixmq_cl t to s = Inr (Some ?i, s)"
    using pm_find_cl_eq [OF assms(1-3)] at assms(5) by (simp add: get_posixmq_cl_def)
  note w = wf_msg_whole [OF assms(9,11)]
  have g: "msg_get OFF_SIZE (Some m) (msgs (pm_proc s)) = Inr (fld OFF_SIZE bs)"
    using assms(8) wf_msg_length [OF assms(9)] by simp
  have "length es < Suc (length (sys (pm_proc s)))" using assms(12) by simp
  from mq_send_loop_ok [OF assms(12) this assms(7), of 100 "posix_mqd c" bs]
  obtain w' where loop: "mq_send_loop (Suc (length (sys (pm_proc s)))) t 100 (posix_mqd c) bs s =
    Inr (s\<lparr>pm_proc := (pm_proc s)\<lparr>sys := rest, rcs := (rcs (pm_proc s))(t := BLive w'),
      mq_sent := mq_sent (pm_proc s) @ [(posix_mqd c, bs)]\<rparr>\<rparr>)" (is "_ = Inr (s\<lparr>pm_proc := ?p\<rparr>)") by blast
  have "alloc_state t ?p" using assms(6) by (auto simp: alloc_state_def)
  then have f: "itc_free t (Some m) ?p = Inr (True, ?p\<lparr>rcs := (rcs ?p)(t := BLive ITC_OK),
      msgs := (msgs ?p)\<lparr>cells := (cells (msgs ?p))(m := None)\<rparr>\<rparr>)"
    using itc_free_ok assms(8-10) by simp
  have i: "pm_is_initialized (posixmq_inst s)" using assms(1) by (simp add: pm_cfg_def)
  have "posixmq_send t m to s = Inr (s\<lparr>pm_proc := ?p\<lparr>rcs := (rcs ?p)(t := BLive ITC_OK),
      msgs := (msgs ?p)\<lparr>cells := (cells (msgs ?p))(m := None)\<rparr>\<rparr>\<rparr>)"
    using i at get assms(5,8) g w loop f
    by (simp add: posixmq_send_def pm_itc_def del: OFF_SIZE_def mq_send_loop.simps)
  then show ?thesis by simp
qed

section \<open>Messages in the tree\<close>

text \<open>
  C29. The tree of messages is ordered by their addresses, but searched by their receivers. When the
  waiting messages are for different mailboxes and two of them have addresses and receivers in
  opposite orders, there is a message that its mailbox does not get: every attempt to receive it
  answers that there is none, and leaves it where it is. Whatever the shape of the tree, all
  messages are found if and only if there are no two such messages.
\<close>

theorem buffered_message_is_missed:
  assumes "tree = itc_message_buffer_tree (posixmq_inst s)" and "keyed (\<lambda>m. m) tree"
    and "mh = msgs (pm_proc s)" and "inj_on (receiver_of mh) (set_tree tree)"
    and "\<not> itc_message_buffer_mtx (posixmq_inst s)"
    and "m1 \<in> set_tree tree" and "m2 \<in> set_tree tree" and "m1 < m2" and "receiver_of mh m2 < receiver_of mh m1"
  shows "\<exists>m \<in> set_tree tree. \<forall>j. mbox_id_of (pm_proc s) j = receiver_of mh m \<longrightarrow> posixmq_receive j s = Inr (None, s)"
proof -
  let ?cmp = "\<lambda>m. compare_mboxid_in_itcmessage_tree (receiver_of mh m) mh"
  have ag: "\<forall>m \<in> set_tree tree. agrees (?cmp m) (receiver_of mh m) (receiver_of mh) tree"
    by (simp add: agrees_def compare_mboxid_in_itcmessage_tree_def compare_ids_sign)
  have "\<not> (\<forall>m \<in> set_tree tree. tree_lookup (?cmp m) tree = Some m)"
    using all_found_iff [OF assms(2,4) ag] assms(6-9) by (meson order.asym)
  then obtain m where m: "m \<in> set_tree tree" "tree_lookup (?cmp m) tree \<noteq> Some m" by blast
  have none: "tree_lookup (?cmp m) tree = None"
  proof (rule ccontr)
    assume "tree_lookup (?cmp m) tree \<noteq> None"
    then obtain k where k: "tree_lookup (?cmp m) tree = Some k" by blast
    then have "k \<in> set_tree tree" "receiver_of mh m = receiver_of mh k"
      using tree_lookup_in [OF k] by (simp_all add: compare_mboxid_in_itcmessage_tree_def compare_ids_sign)
    then have "k = m" using assms(4) m(1) by (auto dest: inj_onD)
    then show False using k m(2) by simp
  qed
  have "posixmq_receive j s = Inr (None, s)" if "mbox_id_of (pm_proc s) j = receiver_of mh m" for j
    using that none assms(1,3,5) by (simp add: posixmq_receive_def lock_message_tree_def unlock_message_tree_def Let_def)
  then show ?thesis using m(1) by blast
qed


section \<open>Registering a mailbox twice\<close>

text \<open>
  Registering a mailbox that is registered already, and removing one that is not, return with the
  mutex of the tree taken: nothing is reported, and the next operation on any mailbox, as well as the
  thread that passes arriving messages on, waits for ever.
\<close>

theorem second_registration_stops_everything:
  assumes "\<not> m_active_mbox_tree_mtx (posixmq_inst s)"
  shows "\<exists>s'. (if tree_lookup (compare_mboxid_in_itcmailbox_tree (mbox_id_of (pm_proc s) j) (pm_proc s))
                 (m_active_mbox_tree (posixmq_inst s)) \<noteq> None
              then posixmq_create_mbox j s else posixmq_delete_mbox j s) = Inr s' \<and> pm_proc s' = pm_proc s \<and>
     (\<forall>i. posixmq_create_mbox i s' = Inl Blocked \<and> posixmq_delete_mbox i s' = Inl Blocked)"
  using assms by (auto simp: posixmq_create_mbox_def posixmq_delete_mbox_def lock_mbox_tree_def Let_def)

section \<open>The exit\<close>

lemma release_contacts_ok:
  assumes "length (posixmq_cl (posixmq_inst s)) = MAX_SUPPORTED_PROCESSES" and "\<forall>i \<in> set is. i < MAX_SUPPORTED_PROCESSES"
  shows "\<exists>s'. pm_release_contacts is s = Inr s' \<and>
     itc_message_buffer_tree (posixmq_inst s') = itc_message_buffer_tree (posixmq_inst s) \<and>
     msgs (pm_proc s') = msgs (pm_proc s)"
  using assms
proof (induction "is" arbitrary: s)
  case (Cons i js)
  obtain r s1 where r: "pm_sys s = (r, s1)" "posixmq_inst s1 = posixmq_inst s" "msgs (pm_proc s1) = msgs (pm_proc s)"
    by (cases "sys (pm_proc s)") auto
  define s2 where "s2 = pm_set (\<lambda>v. v\<lparr>posixmq_cl := (posixmq_cl v)[i := pm_no_contact]\<rparr>) s1"
  have "pm_release_contacts (i # js) s = pm_release_contacts js (if pc_mbox_id_in_itccoord (posixmq_cl (posixmq_inst s) ! i) = 0 then s else s2)"
    using Cons.prems r by (simp add: pm_cl_at_def pm_cl_set_def Let_def s2_def)
  then show ?case using Cons.IH [of s] Cons.IH [of s2] Cons.prems r(2,3) by (simp add: s2_def split: if_splits)
qed auto

text \<open>
  Leaving while messages wait in the tree is fatal: the function that releases a message gets its
  address, but takes the first bytes of the message for the address of another one.
\<close>

theorem exit_with_waiting_messages_is_fatal:
  assumes "pm_is_initialized (posixmq_inst s)" and "length (posixmq_cl (posixmq_inst s)) = MAX_SUPPORTED_PROCESSES"
    and "pm_rx_buffer (posixmq_inst s) = BLive buf" and "itc_message_buffer_tree (posixmq_inst s) \<noteq> Leaf"
    and "\<forall>m \<in> set_tree (itc_message_buffer_tree (posixmq_inst s)). \<exists>b. cells (msgs (pm_proc s)) m = Some b \<and> wf_msg b"
  shows "posixmq_exit t s = Inl Undefined"
proof -
  define s1 where "s1 = (if my_posix_mqd (posixmq_inst s) \<noteq> -1 then remove_posixmq s else s)"
  have s1: "posixmq_inst s1 = posixmq_inst s" "msgs (pm_proc s1) = msgs (pm_proc s)"
    by (auto simp: s1_def remove_posixmq_def pm_sys_def sys_next_def split: prod.splits)
  define s2 where "s2 = s1\<lparr>posixmq_inst := (posixmq_inst s)\<lparr>pm_rx_buffer := BFreed\<rparr>\<rparr>"
  obtain s3 where s3: "release_posixmq_contactlist s2 = Inr s3"
    "itc_message_buffer_tree (posixmq_inst s3) = itc_message_buffer_tree (posixmq_inst s)" "msgs (pm_proc s3) = msgs (pm_proc s)"
    using release_contacts_ok [of s2 "[0..<MAX_SUPPORTED_PROCESSES]"] assms(2) s1
    by (auto simp: release_posixmq_contactlist_def s2_def)
  obtain r4 s4 where s4: "pm_sys s3 = (r4, s4)" "posixmq_inst s4 = posixmq_inst s3" "msgs (pm_proc s4) = msgs (pm_proc s3)"
    by (cases "sys (pm_proc s3)") auto
  obtain r5 s5 where s5: "pm_sys s4 = (r5, s5)" "posixmq_inst s5 = posixmq_inst s4" "msgs (pm_proc s5) = msgs (pm_proc s4)"
    by (cases "sys (pm_proc s4)") auto
  obtain m ms where m: "inorder (itc_message_buffer_tree (posixmq_inst s)) = m # ms"
    using assms(4) by (cases "inorder (itc_message_buffer_tree (posixmq_inst s))") auto
  then have "m \<in> set_tree (itc_message_buffer_tree (posixmq_inst s))" by (metis list.set_intros(1) set_inorder)
  then obtain b where b: "cells (msgs (pm_proc s)) m = Some b" "21 \<le> length b" using assms(5) wf_msg_length by blast
  have "tdestroy_messages (m # ms) s5 = Inl Undefined"
    using b s3(3) s4(3) s5(3) by (simp add: free_itc_message_in_tree_def get_bytes_def)
  then show ?thesis
    using assms(1,3) s1 s3(1,2) s4(1,2) s5(1,2) m
    by (simp add: posixmq_exit_def release_posixmq_resources_def Let_def s1_def [symmetric] s2_def [symmetric])
qed

section \<open>Witnesses\<close>

definition pm_example :: "posixmq_instance \<Rightarrow> (nat \<Rightarrow> bytes option) \<Rightarrow> sysret list \<Rightarrow> pm_state" where
  "pm_example v c script = \<lparr>pm_proc = alloc_example\<lparr>sys := script, msgs := \<lparr>cells = c, fresh = 3, malloc_results = []\<rparr>,
       itc_inst := itc_instance0\<lparr>mboxes := BLive [itc_mailbox0\<lparr>mb_id := 0x100000, p_rxq_info := True\<rparr>,
         itc_mailbox0\<lparr>mb_id := 0x100001, p_rxq_info := True\<rparr>]\<rparr>\<rparr>,
     posixmq_inst = v\<lparr>pm_is_initialized := True, pm_itccoord_mask := ITC_COORD_MASK, pm_itccoord_shift := ITC_COORD_SHIFT,
       pm_rx_buffer := BLive (replicate 8192 0), posixmq_cl := replicate 255 \<lparr>pc_mbox_id_in_itccoord = 0x200000, posix_mqd = 77\<rparr>\<rparr>\<rparr>"

definition message_to :: "itc_mbox_id \<Rightarrow> bytes" where
  "message_to to = blit OFF_RECEIVER (enc32 to) (new_message 8 7)"

lemma message_to_facts:
  "wf_msg (message_to to)" "\<not> inrx (message_to to)" "length (message_to to) = 25" "fld OFF_RECEIVER (message_to to) = to"
  using fld_new_message [of 8 7]
  by (simp_all add: message_to_def wf_msg_blit_header wf_new_message inrx_def fld_blit_other)

theorem posixmq_send_never_gives_up_witness:
  "\<exists>s'. posixmq_send 0 0 0x200005
      (pm_example posixmq_instance0 [0 \<mapsto> message_to 0x200005] (replicate 200 (-1, EOTHER) @ [(0, EOTHER)])) = Inr s' \<and>
     mq_sent (pm_proc s') = [(77, message_to 0x200005)] \<and> rcs (pm_proc s') 0 = BLive ITC_OK"
proof -
  let ?s = "pm_example posixmq_instance0 [0 \<mapsto> message_to 0x200005] (replicate 200 (-1, EOTHER) @ [(0, EOTHER)])"
  note m = message_to_facts [of "0x200005"]
  have i: "proc_index 0x200005 = 2" by (simp add: proc_index_def)
  have s: "pm_cfg ?s" "posixmq_cl (posixmq_inst ?s) ! 2 = \<lparr>pc_mbox_id_in_itccoord = 0x200000, posix_mqd = 77\<rparr>"
    "alloc_state 0 (pm_proc ?s)" "rcs (pm_proc ?s) 0 = BLive 0" "cells (msgs (pm_proc ?s)) 0 = Some (message_to 0x200005)"
    "sys (pm_proc ?s) = map (\<lambda>e. (-1, e)) (replicate 200 EOTHER) @ (0, EOTHER) # []" "mq_sent (pm_proc ?s) = []"
    using alloc_example_state
    by (auto simp: pm_cfg_def pm_example_def alloc_state_def alloc_example_def proc0_def heap_ok_def map_replicate)
  have n: "length (message_to 0x200005) < 2 ^ 31" using m(3) by simp
  from posixmq_send_never_gives_up [OF s(1) _ _ _ _ s(3-5) m(1,2) n s(6), of "0x200005"] i s(2,7)
  show ?thesis by auto
qed

definition pm_two_messages :: pm_state where
  "pm_two_messages = pm_example (posixmq_instance0\<lparr>itc_message_buffer_tree := Node Leaf 1 (Node Leaf 2 Leaf), num_messages := 2\<rparr>)
     [1 \<mapsto> message_to 0x100001, 2 \<mapsto> message_to 0x100000] []"

lemma pm_two_messages_facts:
  "itc_message_buffer_tree (posixmq_inst pm_two_messages) = Node Leaf 1 (Node Leaf 2 Leaf)"
  "receiver_of (msgs (pm_proc pm_two_messages)) 1 = 0x100001" "receiver_of (msgs (pm_proc pm_two_messages)) 2 = 0x100000"
  "mbox_id_of (pm_proc pm_two_messages) 0 = 0x100000" "mbox_id_of (pm_proc pm_two_messages) 1 = 0x100001"
  "\<not> itc_message_buffer_mtx (posixmq_inst pm_two_messages)"
  using message_to_facts(4)
  by (simp_all add: pm_two_messages_def pm_example_def receiver_of_def mbox_id_of_def posixmq_instance0_def)

theorem buffered_message_is_missed_witness:
  "posixmq_receive 0 pm_two_messages = Inr (None, pm_two_messages) \<or>
   posixmq_receive 1 pm_two_messages = Inr (None, pm_two_messages)"
proof -
  note f = pm_two_messages_facts
  let ?t = "Node Leaf 1 (Node Leaf 2 Leaf) :: nat tree" and ?r = "receiver_of (msgs (pm_proc pm_two_messages))"
  have k: "keyed (\<lambda>m. m) ?t" "inj_on ?r (set_tree ?t)" "1 \<in> set_tree ?t" "2 \<in> set_tree ?t" "(1::nat) < 2"
    "?r 2 < ?r 1"
    using f(2,3) by (auto simp: inj_on_def)
  from buffered_message_is_missed [OF f(1) [symmetric] k(1) refl k(2) f(6) k(3-6)]
  obtain m where m: "m \<in> set_tree ?t"
    "\<And>j. mbox_id_of (pm_proc pm_two_messages) j = ?r m \<Longrightarrow> posixmq_receive j pm_two_messages = Inr (None, pm_two_messages)"
    by blast
  have "m = 1 \<or> m = 2" using m(1) by auto
  then show ?thesis using m(2) [of 0] m(2) [of 1] f(2-5) by auto
qed


theorem second_registration_stops_everything_witness:
  "\<exists>s'. posixmq_create_mbox 1 (pm_example (posixmq_instance0\<lparr>m_active_mbox_tree := Node Leaf 1 Leaf\<rparr>) Map.empty []) = Inr s' \<and>
    posixmq_delete_mbox 1 s' = Inl Blocked"
proof -
  let ?s = "pm_example (posixmq_instance0\<lparr>m_active_mbox_tree := Node Leaf 1 Leaf\<rparr>) Map.empty []"
  have "\<not> m_active_mbox_tree_mtx (posixmq_inst ?s)"
    "tree_lookup (compare_mboxid_in_itcmailbox_tree (mbox_id_of (pm_proc ?s) 1) (pm_proc ?s))
        (m_active_mbox_tree (posixmq_inst ?s)) \<noteq> None"
    by (simp_all add: pm_example_def posixmq_instance0_def compare_mboxid_in_itcmailbox_tree_def compare_ids_def)
  from second_registration_stops_everything [OF this(1), of 1] this(2) show ?thesis by auto
qed

theorem exit_with_waiting_messages_is_fatal_witness:
  "posixmq_exit 0 pm_two_messages = Inl Undefined"
proof -
  note f = pm_two_messages_facts
  have s: "pm_is_initialized (posixmq_inst pm_two_messages)"
    "length (posixmq_cl (posixmq_inst pm_two_messages)) = MAX_SUPPORTED_PROCESSES"
    "pm_rx_buffer (posixmq_inst pm_two_messages) = BLive (replicate 8192 0)"
    by (simp_all add: pm_two_messages_def pm_example_def)
  have t: "itc_message_buffer_tree (posixmq_inst pm_two_messages) \<noteq> Leaf"
    "\<forall>m \<in> set_tree (itc_message_buffer_tree (posixmq_inst pm_two_messages)).
       \<exists>b. cells (msgs (pm_proc pm_two_messages)) m = Some b \<and> wf_msg b"
    using message_to_facts(1) by (auto simp: f(1)) (auto simp: pm_two_messages_def pm_example_def)
  show ?thesis by (rule exit_with_waiting_messages_is_fatal [OF s t])
qed

end

