(* ===== verification/Itc_Posixshm.thy ===== *)
theory Itc_Posixshm
  imports Itc_Sysvshm
begin

text \<open>
  \<open>sw/itc/src/transporters/itc_posixshm.c\<close>: the transport over POSIX shared memory, which takes the
  place of \<open>itc_sysvmq.c\<close> when the framework is built with \<open>UT_POSIXSHM_PLUGIN\<close>. The header of the
  shared object and the pools of slots are those of \<open>itc_sysvshm.c\<close>, down to the text of the code, so
  that the definitions of \<open>Itc_Shm\<close> serve both. Large messages differ: the object itself is enlarged by
  the pages that the message needs, and a process sees them only while it has mapped that many pages.
  Here \<open>slot_unlimit\<close> stands for the slot on the pages behind the static ones.
\<close>

unbundle bit_operations_syntax

section \<open>Data\<close>

definition POSIXSHM_STATIC_ALLOC_PAGES :: nat where [simp]: "POSIXSHM_STATIC_ALLOC_PAGES = 25"
definition MAX_POSIXSHM_SLOTS :: nat where [simp]: "MAX_POSIXSHM_SLOTS = 70"

text \<open>
  What the kernel holds. The names of the shared objects and the semaphores are made from the
  identifier of the process; unlinking a name leaves the object to those that have it open.
\<close>

datatype sem_kind = SemMutex | SemNotify | SemSlot

record shm_object =
  ob_md :: shm_metadata
  ob_pages :: nat

record px_ipc =
  shm_names :: "itc_mbox_id \<Rightarrow> nat option"
  sem_names :: "sem_kind \<times> itc_mbox_id \<Rightarrow> nat option"
  shm_objs :: "nat \<Rightarrow> shm_object option"
  sem_objs :: "nat \<Rightarrow> nat option"
  px_fresh :: nat

text \<open>
  A mapping knows its object and how many pages it shows. \<open>SEM_FAILED\<close> is the null pointer. A
  descriptor is represented by the object behind it, and \<open>None\<close> is one that is not open; a name that was
  not written yet, the empty string, is \<open>None\<close> as well.
\<close>

datatype map_ptr = MapNull | MapFailed | MapGone | MapAt nat nat
datatype sem_ptr = SemNull | SemClosed | SemAt nat

record posixshm_contactlist =
  px_mbox_id_in_itccoord :: itc_mbox_id
  posixshm_id :: "nat option"
  px_metadata :: map_ptr
  px_sem_mutex :: sem_ptr
  px_sem_notify :: sem_ptr
  px_sem_slot :: sem_ptr

definition px_no_contact :: posixshm_contactlist where
  "px_no_contact = \<lparr>px_mbox_id_in_itccoord = 0, posixshm_id = None, px_metadata = MapNull,
     px_sem_mutex = SemNull, px_sem_notify = SemNull, px_sem_slot = SemNull\<rparr>"

record posixshm_instance =
  px_my_mbox_id_in_itccoord :: itc_mbox_id
  px_itccoord_mask :: itc_mbox_id
  px_itccoord_shift :: nat
  px_my_shmid :: "nat option"
  my_posixshm_name :: "itc_mbox_id option"
  px_my_shm_ptr :: map_ptr
  px_my_sem_mutex :: sem_ptr
  px_my_sem_notify :: sem_ptr
  px_my_sem_slot :: sem_ptr
  my_sem_names :: "sem_kind \<Rightarrow> itc_mbox_id option"
  px_is_initialized :: bool
  px_is_terminated :: bool
  px_my_mbox_id :: itc_mbox_id
  posixshm_cl :: "posixshm_contactlist list"

definition posixshm_instance0 :: posixshm_instance where
  "posixshm_instance0 = \<lparr>px_my_mbox_id_in_itccoord = 0, px_itccoord_mask = 0, px_itccoord_shift = 0,
     px_my_shmid = None, my_posixshm_name = None, px_my_shm_ptr = MapNull, px_my_sem_mutex = SemNull, px_my_sem_notify = SemNull,
     px_my_sem_slot = SemNull, my_sem_names = (\<lambda>_. None), px_is_initialized = False, px_is_terminated = False, px_my_mbox_id = 0,
     posixshm_cl = replicate MAX_SUPPORTED_PROCESSES px_no_contact\<rparr>"

record px_state =
  px_proc :: proc
  posixshm_inst :: posixshm_instance
  px_kernel :: px_ipc

abbreviation px_set :: "(posixshm_instance \<Rightarrow> posixshm_instance) \<Rightarrow> px_state \<Rightarrow> px_state" where
  "px_set f s \<equiv> s\<lparr>posixshm_inst := f (posixshm_inst s)\<rparr>"

definition POSIXSHM_RX_THREAD :: nat where [simp]: "POSIXSHM_RX_THREAD = 5"
definition POSIXSHM_THREAD_MTX :: nat where [simp]: "POSIXSHM_THREAD_MTX = 2"

section \<open>Operations of the process and the kernel\<close>

definition px_sys :: "px_state \<Rightarrow> sysret \<times> px_state" where
  "px_sys s = (case sys_next (px_proc s) of (r, p) \<Rightarrow> (r, s\<lparr>px_proc := p\<rparr>))"

text \<open>A call that is only asked whether it failed.\<close>

definition px_ok :: "px_state \<Rightarrow> bool \<times> px_state" where
  "px_ok s = (case px_sys s of ((r, _), s) \<Rightarrow> (\<not> r < 0, s))"

definition px_put :: "(proc \<Rightarrow> proc outcome) \<Rightarrow> px_state \<Rightarrow> px_state outcome" where
  "px_put f s = bindE (f (px_proc s)) (\<lambda>p. Inr (s\<lparr>px_proc := p\<rparr>))"

definition px_itc :: "(proc \<Rightarrow> ('a \<times> proc) outcome) \<Rightarrow> px_state \<Rightarrow> ('a \<times> px_state) outcome" where
  "px_itc f s = bindE (f (px_proc s)) (\<lambda>(a, p). Inr (a, s\<lparr>px_proc := p\<rparr>))"

definition px_fail :: "nat \<Rightarrow> px_state \<Rightarrow> (bool \<times> px_state) outcome" where
  "px_fail t s = bindE (px_put (rc_or t ITC_SYSCALL_ERROR) s) (\<lambda>s. Inr (False, s))"

text \<open>
  \<open>sem_open\<close> with \<open>O_CREAT | O_EXCL\<close> and with neither; \<open>sem_unlink\<close>; \<open>shm_open\<close> in the same two ways.
  A new shared object has no pages yet.
\<close>

definition sem_open_new :: "sem_kind \<times> itc_mbox_id \<Rightarrow> nat \<Rightarrow> px_state \<Rightarrow> sem_ptr \<times> px_state" where
  "sem_open_new name v s = (case px_ok s of (ok, s) \<Rightarrow>
     let k = px_kernel s in
     if \<not> ok \<or> sem_names k name \<noteq> None then (SemNull, s)
     else (SemAt (px_fresh k), s\<lparr>px_kernel := k\<lparr>sem_names := (sem_names k)(name \<mapsto> px_fresh k),
             sem_objs := (sem_objs k)(px_fresh k \<mapsto> v), px_fresh := Suc (px_fresh k)\<rparr>\<rparr>))"

definition sem_open_old :: "sem_kind \<times> itc_mbox_id \<Rightarrow> px_state \<Rightarrow> sem_ptr \<times> px_state" where
  "sem_open_old name s = (case px_ok s of (ok, s) \<Rightarrow>
     (if \<not> ok then SemNull else case sem_names (px_kernel s) name of None \<Rightarrow> SemNull | Some i \<Rightarrow> SemAt i, s))"

definition sem_unlink :: "sem_kind \<Rightarrow> px_state \<Rightarrow> px_state" where
  "sem_unlink kind s = (case px_ok s of (ok, s) \<Rightarrow>
     case (if ok then my_sem_names (posixshm_inst s) kind else None) of
       None \<Rightarrow> s
     | Some i \<Rightarrow> s\<lparr>px_kernel := (px_kernel s)\<lparr>sem_names := (sem_names (px_kernel s))((kind, i) := None)\<rparr>\<rparr>)"

text \<open>\<open>sem_close\<close> fails for a pointer that is none of an open semaphore.\<close>

definition sem_close :: "sem_ptr \<Rightarrow> px_state \<Rightarrow> sem_ptr \<times> px_state" where
  "sem_close p s = (case px_ok s of (ok, s) \<Rightarrow>
     (case p of SemAt i \<Rightarrow> if ok then SemClosed else p | _ \<Rightarrow> p, s))"

definition shm_open_new :: "itc_mbox_id \<Rightarrow> px_state \<Rightarrow> nat option \<times> px_state" where
  "shm_open_new name s = (case px_ok s of (ok, s) \<Rightarrow>
     let k = px_kernel s in
     if \<not> ok \<or> shm_names k name \<noteq> None then (None, s)
     else (Some (px_fresh k), s\<lparr>px_kernel := k\<lparr>shm_names := (shm_names k)(name \<mapsto> px_fresh k),
             shm_objs := (shm_objs k)(px_fresh k \<mapsto> \<lparr>ob_md = shm_zero, ob_pages = 0\<rparr>), px_fresh := Suc (px_fresh k)\<rparr>\<rparr>))"

definition shm_open_old :: "itc_mbox_id \<Rightarrow> px_state \<Rightarrow> nat option \<times> px_state" where
  "shm_open_old name s = (case px_ok s of (ok, s) \<Rightarrow> (if ok then shm_names (px_kernel s) name else None, s))"

text \<open>
  \<open>ftruncate\<close>: pages that are added are zero, pages behind the new end are lost.
\<close>

definition resize :: "nat \<Rightarrow> shm_object \<Rightarrow> shm_object" where
  "resize pages ob =
     (let n = (pages - POSIXSHM_STATIC_ALLOC_PAGES) * SYSVSHM_PAGE_SIZE - SYSVSHM_SLOT_HEADER_SIZE;
          old = (if POSIXSHM_STATIC_ALLOC_PAGES < ob_pages ob then slot_unlimit (ob_md ob) else zero_slot 0);
          data = take n (slot_data old @ replicate n 0)
      in \<lparr>ob_md = (ob_md ob)\<lparr>slot_unlimit := old\<lparr>slot_data := data\<rparr>\<rparr>, ob_pages = pages\<rparr>)"

definition ftruncate :: "nat option \<Rightarrow> nat \<Rightarrow> px_state \<Rightarrow> bool \<times> px_state" where
  "ftruncate fd pages s = (case px_ok s of (ok, s) \<Rightarrow>
     case (if ok then fd else None) of
       None \<Rightarrow> (False, s)
     | Some i \<Rightarrow> (case shm_objs (px_kernel s) i of
           None \<Rightarrow> (False, s)
         | Some ob \<Rightarrow> (True, s\<lparr>px_kernel := (px_kernel s)\<lparr>shm_objs := (shm_objs (px_kernel s))(i \<mapsto> resize pages ob)\<rparr>\<rparr>)))"

definition mmap :: "nat option \<Rightarrow> nat \<Rightarrow> px_state \<Rightarrow> map_ptr \<times> px_state" where
  "mmap fd pages s = (case px_ok s of (ok, s) \<Rightarrow>
     (if \<not> ok then MapFailed else case fd of None \<Rightarrow> MapFailed | Some i \<Rightarrow> MapAt i pages, s))"

definition px_sem_wait :: "sem_ptr \<Rightarrow> px_state \<Rightarrow> (bool \<times> px_state) outcome" where
  "px_sem_wait p s = (case p of
     SemNull \<Rightarrow> Inl NullDeref
   | SemClosed \<Rightarrow> Inl UseAfterFree
   | SemAt i \<Rightarrow> (case px_ok s of (ok, s) \<Rightarrow>
       if \<not> ok then Inr (False, s)
       else case sem_objs (px_kernel s) i of
              None \<Rightarrow> Inr (False, s)
            | Some 0 \<Rightarrow> Inl Blocked
            | Some (Suc n) \<Rightarrow> Inr (True, s\<lparr>px_kernel := (px_kernel s)\<lparr>sem_objs := (sem_objs (px_kernel s))(i \<mapsto> n)\<rparr>\<rparr>)))"

definition px_sem_post :: "sem_ptr \<Rightarrow> px_state \<Rightarrow> (bool \<times> px_state) outcome" where
  "px_sem_post p s = (case p of
     SemNull \<Rightarrow> Inl NullDeref
   | SemClosed \<Rightarrow> Inl UseAfterFree
   | SemAt i \<Rightarrow> (case px_ok s of (ok, s) \<Rightarrow>
       if \<not> ok then Inr (False, s)
       else case sem_objs (px_kernel s) i of
              None \<Rightarrow> Inr (False, s)
            | Some n \<Rightarrow> Inr (True, s\<lparr>px_kernel := (px_kernel s)\<lparr>sem_objs := (sem_objs (px_kernel s))(i \<mapsto> Suc n)\<rparr>\<rparr>)))"

text \<open>
  Access through a mapping to the slots of a list of references, besides the header and the pools: the
  slot of the large message exists only when both the object and the mapping go beyond the static pages.
\<close>

definition map_get :: "map_ptr \<Rightarrow> pool_slot list \<Rightarrow> px_state \<Rightarrow> shm_metadata outcome" where
  "map_get p rs s = (case p of
     MapNull \<Rightarrow> Inl NullDeref
   | MapFailed \<Rightarrow> Inl OutOfBounds
   | MapGone \<Rightarrow> Inl UseAfterFree
   | MapAt i pages \<Rightarrow> (case shm_objs (px_kernel s) i of
       None \<Rightarrow> Inl UseAfterFree
     | Some ob \<Rightarrow>
         if (\<exists>r \<in> set rs. whichpool r = int POOL_UNLIMIT) \<and>
            (pages \<le> POSIXSHM_STATIC_ALLOC_PAGES \<or> ob_pages ob \<le> POSIXSHM_STATIC_ALLOC_PAGES)
         then Inl OutOfBounds else Inr (ob_md ob)))"

definition map_upd ::
  "map_ptr \<Rightarrow> pool_slot list \<Rightarrow> (shm_metadata \<Rightarrow> ('a \<times> shm_metadata) outcome) \<Rightarrow> px_state \<Rightarrow> ('a \<times> px_state) outcome" where
  "map_upd p rs f s =
     bindE (map_get p rs s) (\<lambda>md.
     bindE (f md) (\<lambda>(a, md).
     Inr (a, case p of
        MapAt i _ \<Rightarrow> s\<lparr>px_kernel := (px_kernel s)\<lparr>shm_objs :=
            (shm_objs (px_kernel s))(i := map_option (\<lambda>ob. ob\<lparr>ob_md := md\<rparr>) (shm_objs (px_kernel s) i))\<rparr>\<rparr>
      | _ \<Rightarrow> s)))"

section \<open>The table of contacts\<close>

definition px_cl_at :: "nat \<Rightarrow> px_state \<Rightarrow> posixshm_contactlist outcome" where
  "px_cl_at i s = (let cls = posixshm_cl (posixshm_inst s) in
     if i < length cls then Inr (cls ! i) else Inl OutOfBounds)"

definition px_cl_upd :: "nat \<Rightarrow> (posixshm_contactlist \<Rightarrow> posixshm_contactlist) \<Rightarrow> px_state \<Rightarrow> px_state outcome" where
  "px_cl_upd i f s = (let cls = posixshm_cl (posixshm_inst s) in
     if i < length cls then Inr (px_set (\<lambda>v. v\<lparr>posixshm_cl := cls[i := f (cls ! i)]\<rparr>) s) else Inl OutOfBounds)"

definition px_find_cl :: "nat \<Rightarrow> itc_mbox_id \<Rightarrow> px_state \<Rightarrow> (nat option \<times> px_state) outcome" where
  "px_find_cl t mbox_id s =
     (let pid = drop_bit (px_itccoord_shift (posixshm_inst s)) (mbox_id AND px_itccoord_mask (posixshm_inst s)) in
      if pid = 0 \<or> of_nat MAX_SUPPORTED_PROCESSES \<le> pid
      then bindE (px_put (rc_or t ITC_INVALID_ARGUMENTS) s) (\<lambda>s. Inr (None, s))
      else Inr (Some (unat pid), s))"

text \<open>The semaphores that are open when a later one is missing are closed again, which nobody sees.\<close>

definition add_posixshm_cl :: "nat \<Rightarrow> nat \<Rightarrow> itc_mbox_id \<Rightarrow> px_state \<Rightarrow> px_state outcome" where
  "add_posixshm_cl t cl mbox_id s =
     (let owner = mbox_id AND px_itccoord_mask (posixshm_inst s) in
      case shm_open_old owner s of (shmid, s) \<Rightarrow>
      if shmid = None then px_put (rc_or t ITC_SYSCALL_ERROR) s
      else case sem_open_old (SemMutex, owner) s of (mutex, s) \<Rightarrow>
      if mutex = SemNull then px_put (rc_or t ITC_SYSCALL_ERROR) s
      else case sem_open_old (SemNotify, owner) s of (notify, s) \<Rightarrow>
      if notify = SemNull then (case px_ok s of (_, s) \<Rightarrow> px_put (rc_or t ITC_SYSCALL_ERROR) s)
      else case sem_open_old (SemSlot, owner) s of (slot, s) \<Rightarrow>
      if slot = SemNull then
        (case px_ok s of (_, s) \<Rightarrow> case px_ok s of (_, s) \<Rightarrow> px_put (rc_or t ITC_SYSCALL_ERROR) s)
      else case mmap shmid POSIXSHM_STATIC_ALLOC_PAGES s of (p, s) \<Rightarrow>
        px_cl_upd cl (\<lambda>_. \<lparr>px_mbox_id_in_itccoord = owner, posixshm_id = shmid, px_metadata = p,
          px_sem_mutex = mutex, px_sem_notify = notify, px_sem_slot = slot\<rparr>) s)"

definition get_posixshm_cl :: "nat \<Rightarrow> itc_mbox_id \<Rightarrow> px_state \<Rightarrow> (nat option \<times> px_state) outcome" where
  "get_posixshm_cl t mbox_id s =
     bindE (px_find_cl t mbox_id s) (\<lambda>(cl, s).
     case cl of None \<Rightarrow> Inr (None, s)
     | Some i \<Rightarrow>
         bindE (px_cl_at i s) (\<lambda>c.
         if px_mbox_id_in_itccoord c = 0
         then bindE (add_posixshm_cl t i mbox_id s) (\<lambda>s. Inr (Some i, s))
         else Inr (Some i, s)))"

text \<open>The loop ends early when \<open>munmap\<close> fails.\<close>

fun px_release_contacts :: "nat list \<Rightarrow> px_state \<Rightarrow> px_state outcome" where
  "px_release_contacts [] s = Inr s"
| "px_release_contacts (i # is) s =
     bindE (px_cl_at i s) (\<lambda>c.
     if px_mbox_id_in_itccoord c = 0 then px_release_contacts is s
     else
       case px_sys s of ((munmap, _), s) \<Rightarrow>
       if munmap = -1 then Inr s
       else
         case px_sys s of (close, s) \<Rightarrow> case px_sys s of (c1, s) \<Rightarrow> case px_sys s of (c2, s) \<Rightarrow> case px_sys s of (c3, s) \<Rightarrow>
         bindE (px_cl_upd i (\<lambda>_. px_no_contact) s) (\<lambda>s. px_release_contacts is s))"

definition release_posixshm_contactlist :: "px_state \<Rightarrow> px_state outcome" where
  "release_posixshm_contactlist s = px_release_contacts [0..<MAX_SUPPORTED_PROCESSES] s"

section \<open>Setting up and down\<close>

definition remove_posixshm :: "px_state \<Rightarrow> px_state" where
  "remove_posixshm s =
     (case px_ok s of (close, s) \<Rightarrow>
      case px_ok s of (unlink, s) \<Rightarrow>
      let s = px_set (\<lambda>v. v\<lparr>px_my_shmid := None\<rparr>) s in
      case (if unlink then my_posixshm_name (posixshm_inst s) else None) of
        None \<Rightarrow> s
      | Some i \<Rightarrow> s\<lparr>px_kernel := (px_kernel s)\<lparr>shm_names := (shm_names (px_kernel s))(i := None)\<rparr>\<rparr>)"

definition remove_posixshm_semaphores :: "px_state \<Rightarrow> px_state" where
  "remove_posixshm_semaphores s =
     (case sem_close (px_my_sem_mutex (posixshm_inst s)) s of (mutex, s) \<Rightarrow>
      let s = sem_unlink SemMutex (px_set (\<lambda>v. v\<lparr>px_my_sem_mutex := mutex\<rparr>) s) in
      case sem_close (px_my_sem_notify (posixshm_inst s)) s of (notify, s) \<Rightarrow>
      let s = sem_unlink SemNotify (px_set (\<lambda>v. v\<lparr>px_my_sem_notify := notify\<rparr>) s) in
      case sem_close (px_my_sem_slot (posixshm_inst s)) s of (slot, s) \<Rightarrow>
      sem_unlink SemSlot (px_set (\<lambda>v. v\<lparr>px_my_sem_slot := slot\<rparr>) s))"

text \<open>
  One semaphore with its name and the permissions of its file. When it cannot be opened the code
  removes the semaphores for the second and the third one only.
\<close>

definition init_semaphore ::
  "nat \<Rightarrow> sem_kind \<Rightarrow> (sem_ptr \<Rightarrow> posixshm_instance \<Rightarrow> posixshm_instance) \<Rightarrow> nat \<Rightarrow> px_state \<Rightarrow> (bool \<times> px_state) outcome" where
  "init_semaphore t kind store v s =
     (let my = px_my_mbox_id_in_itccoord (posixshm_inst s);
          s = px_set (\<lambda>v. v\<lparr>my_sem_names := (my_sem_names v)(kind \<mapsto> my)\<rparr>) s in
      case sem_open_new (kind, my) v s of (sem, s) \<Rightarrow>
      let s = px_set (store sem) s in
      if sem = SemNull then px_fail t (if kind = SemMutex then s else remove_posixshm_semaphores s)
      else case px_ok s of (chmod, s) \<Rightarrow>
      if \<not> chmod then px_fail t (remove_posixshm_semaphores s)
      else Inr (True, s))"

definition init_posixshm_semaphores :: "nat \<Rightarrow> px_state \<Rightarrow> px_state outcome" where
  "init_posixshm_semaphores t s =
     bindE (init_semaphore t SemMutex (\<lambda>p v. v\<lparr>px_my_sem_mutex := p\<rparr>) 0 s) (\<lambda>(ok, s). if \<not> ok then Inr s else
     bindE (init_semaphore t SemNotify (\<lambda>p v. v\<lparr>px_my_sem_notify := p\<rparr>) 0 s) (\<lambda>(ok, s). if \<not> ok then Inr s else
     bindE (init_semaphore t SemSlot (\<lambda>p v. v\<lparr>px_my_sem_slot := p\<rparr>) MAX_POSIXSHM_SLOTS s) (\<lambda>(ok, s). Inr s)))"

definition init_posixshm_mempool :: "shm_metadata \<Rightarrow> shm_metadata" where
  "init_posixshm_mempool md = init_sysvshm_mempool md"

definition init_posixshm :: "nat \<Rightarrow> px_state \<Rightarrow> px_state outcome" where
  "init_posixshm t s =
     (let my = px_my_mbox_id_in_itccoord (posixshm_inst s);
          s = px_set (\<lambda>v. v\<lparr>my_posixshm_name := Some my\<rparr>) s in
      case shm_open_new my s of (shmid, s) \<Rightarrow>
      let s = px_set (\<lambda>v. v\<lparr>px_my_shmid := shmid\<rparr>) s in
      if shmid = None then
        bindE (px_put (rc_or t ITC_SYSCALL_ERROR) s) (\<lambda>s. Inr (remove_posixshm_semaphores s))
      else case px_ok s of (fchmod, s) \<Rightarrow>
      if \<not> fchmod then px_put (rc_or t ITC_SYSCALL_ERROR) (remove_posixshm_semaphores (remove_posixshm s))
      else case ftruncate shmid POSIXSHM_STATIC_ALLOC_PAGES s of (ok, s) \<Rightarrow>
      if \<not> ok then px_put (rc_or t ITC_SYSCALL_ERROR) (remove_posixshm_semaphores (remove_posixshm s))
      else case mmap shmid POSIXSHM_STATIC_ALLOC_PAGES s of (p, s) \<Rightarrow>
        bindE (map_upd p [] (\<lambda>md. Inr ((), init_posixshm_mempool md)) (px_set (\<lambda>v. v\<lparr>px_my_shm_ptr := p\<rparr>) s)) (\<lambda>(_, s).
        bindE (px_sem_post (px_my_sem_mutex (posixshm_inst s)) s) (\<lambda>(_, s).
        Inr s)))"

definition init_posixshm_rx_thread :: "nat \<Rightarrow> px_state \<Rightarrow> px_state outcome" where
  "init_posixshm_rx_thread t s =
     (case px_sys s of ((key_create, _), s) \<Rightarrow>
      if key_create \<noteq> 0 then px_put (rc_or t ITC_SYSCALL_ERROR) (remove_posixshm s)
      else case px_sys s of ((mutex_init, _), s) \<Rightarrow>
      if mutex_init \<noteq> 0 then px_put (rc_or t ITC_SYSCALL_ERROR) (remove_posixshm s)
      else
        px_put (add_itcthread t POSIXSHM_RX_THREAD False (Some POSIXSHM_THREAD_MTX))
          (s\<lparr>px_proc := start_mtx_unlock (Some POSIXSHM_THREAD_MTX) (px_proc s)\<rparr>))"

definition release_posixshm_resources :: "nat \<Rightarrow> px_state \<Rightarrow> px_state outcome" where
  "release_posixshm_resources t s =
     bindE (release_posixshm_contactlist (remove_posixshm_semaphores (remove_posixshm s))) (\<lambda>s.
     case px_sys s of ((key_delete, _), s) \<Rightarrow>
     if key_delete \<noteq> 0 then px_put (rc_or t ITC_SYSCALL_ERROR) s
     else case px_sys s of ((mutex_destroy, _), s) \<Rightarrow>
     if mutex_destroy \<noteq> 0 then px_put (rc_or t ITC_SYSCALL_ERROR) s
     else Inr (s\<lparr>posixshm_inst := posixshm_instance0\<rparr>))"

text \<open>As in \<open>sysvshm_init\<close>, the steps are made whatever the earlier ones have answered.\<close>

definition posixshm_init ::
  "nat \<Rightarrow> itc_mbox_id \<Rightarrow> itc_mbox_id \<Rightarrow> u32 \<Rightarrow> u32 \<Rightarrow> px_state \<Rightarrow> px_state outcome" where
  "posixshm_init t my_mbox_id_in_itccoord itccoord_mask nr flags s =
     (if px_is_initialized (posixshm_inst s) then
        (if flags AND ITC_FLAGS_FORCE_REINIT \<noteq> 0 then release_posixshm_resources t s
         else px_put (rc_or t ITC_ALREADY_INIT) s)
      else
        bindE (shift_loop 33 itccoord_mask 0) (\<lambda>shift.
        let s = px_set (\<lambda>v. v\<lparr>px_itccoord_mask := itccoord_mask, px_itccoord_shift := shift,
                  px_my_mbox_id_in_itccoord := my_mbox_id_in_itccoord\<rparr>) s in
        bindE (init_posixshm_semaphores t s) (\<lambda>s.
        bindE (init_posixshm t s) (\<lambda>s.
        bindE (init_posixshm_rx_thread t s) (\<lambda>s.
        Inr (px_set (\<lambda>v. v\<lparr>px_is_initialized := True\<rparr>) s))))))"

definition posixshm_exit :: "nat \<Rightarrow> px_state \<Rightarrow> px_state outcome" where
  "posixshm_exit t s =
     (if \<not> px_is_initialized (posixshm_inst s) then px_put (rc_or t ITC_NOT_INIT_YET) s
      else release_posixshm_resources t s)"

section \<open>Sending\<close>

text \<open>Here the pages of a large message count the header of its slot.\<close>

definition px_choose_pool :: "u32 \<Rightarrow> nat \<times> u16" where
  "px_choose_pool msize =
     (if which_pool msize = NUM_POOLS
      then (POOL_UNLIMIT, ucast ((msize + of_nat ITC_HEADER_SIZE + 1 + 32) div of_nat SYSVSHM_PAGE_SIZE + 1))
      else (which_pool msize, 0))"

definition px_wait_contact ::
  "(posixshm_contactlist \<Rightarrow> sem_ptr) \<Rightarrow> nat \<Rightarrow> nat \<Rightarrow> px_state \<Rightarrow> (bool \<times> px_state) outcome" where
  "px_wait_contact sem t cl s =
     bindE (px_cl_at cl s) (\<lambda>c.
     bindE (px_sem_wait (sem c) s) (\<lambda>(ok, s). if ok then Inr (True, s) else px_fail t s))"

definition px_post_contact ::
  "(posixshm_contactlist \<Rightarrow> sem_ptr) \<Rightarrow> nat \<Rightarrow> nat \<Rightarrow> px_state \<Rightarrow> (bool \<times> px_state) outcome" where
  "px_post_contact sem t cl s =
     bindE (px_cl_at cl s) (\<lambda>c.
     bindE (px_sem_post (sem c) s) (\<lambda>(ok, s). if ok then Inr (True, s) else px_fail t s))"

text \<open>
  The mapping of the object of a contact is given up and made anew with another number of pages;
  between the two the size of the object may be changed.
\<close>

definition px_unmap_contact :: "nat \<Rightarrow> px_state \<Rightarrow> (bool \<times> px_state) outcome" where
  "px_unmap_contact cl s =
     (case px_ok s of (munmap, s) \<Rightarrow>
      if \<not> munmap then Inr (False, s)
      else bindE (px_cl_upd cl (\<lambda>c. c\<lparr>px_metadata := MapGone\<rparr>) s) (\<lambda>s. Inr (True, s)))"

definition px_map_contact :: "nat \<Rightarrow> nat \<Rightarrow> px_state \<Rightarrow> px_state outcome" where
  "px_map_contact cl pages s =
     bindE (px_cl_at cl s) (\<lambda>c.
     case mmap (posixshm_id c) pages s of (p, s) \<Rightarrow> px_cl_upd cl (\<lambda>c. c\<lparr>px_metadata := p\<rparr>) s)"

definition px_enqueue_large :: "u16 \<Rightarrow> bytes \<Rightarrow> shm_metadata \<Rightarrow> (bool \<times> shm_metadata) outcome" where
  "px_enqueue_large pages b md =
     bindE (enqueue_large pages md) (\<lambda>(_, md).
     bindE (write_slot (slot_ref POOL_UNLIMIT 0) b md) (\<lambda>md. Inr (True, md)))"

text \<open>
  The critical section. \<open>False\<close>: the caller returns at once and keeps the mutex. A slot for a small
  message is linked behind the last one, which may be the large one.
\<close>

definition px_insert_message :: "nat \<Rightarrow> nat \<Rightarrow> nat \<Rightarrow> u16 \<Rightarrow> bytes \<Rightarrow> px_state \<Rightarrow> (bool \<times> px_state) outcome" where
  "px_insert_message t cl p pages b s =
     (if is_large p pages then
        bindE (px_unmap_contact cl s) (\<lambda>(go, s). if \<not> go then Inr (False, s) else
        bindE (px_cl_at cl s) (\<lambda>c.
        case ftruncate (posixshm_id c) (POSIXSHM_STATIC_ALLOC_PAGES + unat pages) s of (ok, s) \<Rightarrow>
        if \<not> ok then px_fail t s else
        bindE (px_map_contact cl (POSIXSHM_STATIC_ALLOC_PAGES + unat pages) s) (\<lambda>s.
        bindE (px_cl_at cl s) (\<lambda>c.
        map_upd (px_metadata c) [slot_ref POOL_UNLIMIT 0] (px_enqueue_large pages b) s))))
      else
        bindE (px_cl_at cl s) (\<lambda>c.
        bindE (map_get (px_metadata c) [slot_ref p 0] s) (\<lambda>md.
        map_upd (px_metadata c) (if free_slot 0 (pool_slots p md) = num_slots ! p then [] else [sh_tail md])
          (enqueue_block p b) s)))"

text \<open>After a large message the sender goes back to the static pages.\<close>

definition px_shrink :: "nat \<Rightarrow> nat \<Rightarrow> u16 \<Rightarrow> px_state \<Rightarrow> (bool \<times> px_state) outcome" where
  "px_shrink cl p pages s =
     (if is_large p pages then
        bindE (px_unmap_contact cl s) (\<lambda>(go, s). if \<not> go then Inr (False, s) else
        bindE (px_map_contact cl POSIXSHM_STATIC_ALLOC_PAGES s) (\<lambda>s. Inr (True, s)))
      else Inr (True, s))"

definition posixshm_send :: "nat \<Rightarrow> nat \<Rightarrow> itc_mbox_id \<Rightarrow> px_state \<Rightarrow> px_state outcome" where
  "posixshm_send t message to s =
     (if \<not> px_is_initialized (posixshm_inst s) then px_put (rc_or t ITC_NOT_INIT_YET) s
      else
        bindE (msg_get OFF_SIZE (Some message) (msgs (px_proc s))) (\<lambda>msize.
        case px_choose_pool msize of (p, pages) \<Rightarrow>
        bindE (get_posixshm_cl t to s) (\<lambda>(cl, s).
        bindE (case cl of None \<Rightarrow> Inr 0
               | Some i \<Rightarrow> bindE (px_cl_at i s) (\<lambda>c. Inr (px_mbox_id_in_itccoord c))) (\<lambda>contact.
        case (if contact = 0 then None else cl) of
          None \<Rightarrow> px_put (rc_upd t (\<lambda>f. (f AND NOT ITC_SYSCALL_ERROR) OR ITC_QUEUE_NULL)) s
        | Some i \<Rightarrow>
            bindE (px_wait_contact px_sem_slot t i s) (\<lambda>(go, s). if \<not> go then Inr s else
            bindE (px_wait_contact px_sem_mutex t i s) (\<lambda>(go, s). if \<not> go then Inr s else
            bindE (hread (Some message) (msgs (px_proc s))) (\<lambda>bs.
            bindE (get_bytes 0 (unat (msize + of_nat ITC_HEADER_SIZE + 1)) bs) (\<lambda>b.
            bindE (px_insert_message t i p pages b s) (\<lambda>(go, s). if \<not> go then Inr s else
            bindE (px_post_contact px_sem_mutex t i s) (\<lambda>(go, s). if \<not> go then Inr s else
            bindE (px_post_contact px_sem_notify t i s) (\<lambda>(go, s). if \<not> go then Inr s else
            bindE (px_shrink i p pages s) (\<lambda>(go, s). if \<not> go then Inr s else
            bindE (px_itc (itc_free t (Some message)) s) (\<lambda>(freed, s).
            Inr s)))))))))))))"

section \<open>Receiving\<close>

definition px_handle_received_message :: "nat \<Rightarrow> slot_info \<Rightarrow> proc \<Rightarrow> proc outcome" where
  "px_handle_received_message t slot s =
     (if \<not> is_in_use slot \<or> of_nat POOL_UNLIMIT < pool_type slot then Inr s
      else handle_received_message t (slot_data slot) s)"

definition posixshm_rx_boot :: "nat \<Rightarrow> px_state \<Rightarrow> px_state outcome" where
  "posixshm_rx_boot t s =
     (case px_sys s of ((prctl, _), s) \<Rightarrow>
      if prctl = -1 then Inr s
      else
        bindE (px_itc (itc_create_mailbox t
                 (ascii ''itc_rx_posixshm_0x'' @ hex32 (px_my_mbox_id_in_itccoord (posixshm_inst s)))
                 ITC_NO_NAMESPACE) s) (\<lambda>(mbox_id, s).
        let s = px_set (\<lambda>v. v\<lparr>px_my_mbox_id := mbox_id\<rparr>) s in
        case px_sys s of ((setspecific, _), s) \<Rightarrow>
        if setspecific \<noteq> 0 then Inr s
        else Inr (s\<lparr>px_proc := start_mtx_unlock (Some POSIXSHM_THREAD_MTX) (px_proc s)\<rparr>)))"

text \<open>
  The part of the loop for a queue that is not empty; \<open>False\<close>: the loop ends, with the mutex taken.
\<close>

definition px_receive_head :: "nat \<Rightarrow> px_state \<Rightarrow> (bool \<times> px_state) outcome" where
  "px_receive_head t s =
     bindE (map_get (px_my_shm_ptr (posixshm_inst s)) [] s) (\<lambda>md.
     let large = (whichpool (sh_head md) = int POOL_UNLIMIT \<and> 0 < num_unlimit_pages md);
         pages = POSIXSHM_STATIC_ALLOC_PAGES + unat (num_unlimit_pages md)
     in
     case (if large then px_ok s else (True, s)) of (munmap, s) \<Rightarrow>
     if \<not> munmap then Inr (False, s) else
     case (if large then mmap (px_my_shmid (posixshm_inst s)) pages s
           else (px_my_shm_ptr (posixshm_inst s), s)) of (p, s) \<Rightarrow>
     let s = px_set (\<lambda>v. v\<lparr>px_my_shm_ptr := p\<rparr>) s in
     bindE (map_get p [sh_head md] s) (\<lambda>md.
     bindE (slot_at (sh_head md) md) (\<lambda>slot.
     bindE (px_put (px_handle_received_message t slot) s) (\<lambda>s.
     bindE (map_upd p [sh_head md] (\<lambda>md. bindE (remove_head md) (\<lambda>md. Inr ((), md))) s) (\<lambda>(_, s).
     if large then
       case px_ok s of (munmap, s) \<Rightarrow>
       if \<not> munmap then Inr (False, s) else
       case ftruncate (px_my_shmid (posixshm_inst s)) POSIXSHM_STATIC_ALLOC_PAGES
              (px_set (\<lambda>v. v\<lparr>px_my_shm_ptr := MapGone\<rparr>) s) of (ok, s) \<Rightarrow>
       if \<not> ok then Inr (False, s) else
       case mmap (px_my_shmid (posixshm_inst s)) POSIXSHM_STATIC_ALLOC_PAGES s of (p, s) \<Rightarrow>
       bindE (map_upd p [] (\<lambda>md. Inr ((), md\<lparr>num_unlimit_pages := 0, num_pages := of_nat POSIXSHM_STATIC_ALLOC_PAGES\<rparr>))
                (px_set (\<lambda>v. v\<lparr>px_my_shm_ptr := p\<rparr>) s)) (\<lambda>(_, s).
       Inr (True, s))
     else Inr (True, s))))))"

definition posixshm_rx_round :: "nat \<Rightarrow> px_state \<Rightarrow> (bool \<times> px_state) outcome" where
  "posixshm_rx_round t s =
     (if px_is_terminated (posixshm_inst s) then Inr (False, s)
      else
        bindE (px_sem_wait (px_my_sem_notify (posixshm_inst s)) s) (\<lambda>(ok, s). if \<not> ok then Inr (False, s) else
        bindE (px_sem_wait (px_my_sem_mutex (posixshm_inst s)) s) (\<lambda>(ok, s). if \<not> ok then Inr (False, s) else
        bindE (map_get (px_my_shm_ptr (posixshm_inst s)) [] s) (\<lambda>md.
        bindE (if whichpool (sh_head md) \<noteq> -1 \<and> whichslot (sh_head md) \<noteq> -1 then px_receive_head t s
               else Inr (True, s)) (\<lambda>(go, s). if \<not> go then Inr (False, s) else
        bindE (px_sem_post (px_my_sem_mutex (posixshm_inst s)) s) (\<lambda>(ok, s). if \<not> ok then Inr (False, s) else
        px_sem_post (px_my_sem_slot (posixshm_inst s)) s))))))"

fun posixshm_rx_rounds :: "nat \<Rightarrow> nat \<Rightarrow> px_state \<Rightarrow> px_state outcome" where
  "posixshm_rx_rounds t 0 s = Inr s"
| "posixshm_rx_rounds t (Suc n) s =
     bindE (posixshm_rx_round t s) (\<lambda>(go, s). if go then posixshm_rx_rounds t n s else Inr s)"

end
