(* ===== verification/Itc_Posixshm_Run.thy ===== *)
theory Itc_Posixshm_Run
  imports Itc_Posixshm Itc_Sysvshm_Run
begin

text \<open>
  The properties of the transport over POSIX shared memory: a message of any size crosses from one
  process to another, what happens to the messages behind a large one, and to a process that finds
  the semaphores of a predecessor.
\<close>

section \<open>Lemmas\<close>

definition px_cfg :: "px_state \<Rightarrow> bool" where
  "px_cfg s \<longleftrightarrow> px_is_initialized (posixshm_inst s) \<and> px_itccoord_mask (posixshm_inst s) = ITC_COORD_MASK \<and>
     px_itccoord_shift (posixshm_inst s) = ITC_COORD_SHIFT \<and>
     length (posixshm_cl (posixshm_inst s)) = MAX_SUPPORTED_PROCESSES"

lemma px_sys_Nil [simp]: "sys (px_proc s) = [] \<Longrightarrow> px_sys s = ((0, EOTHER), s)"
  by (simp add: px_sys_def)

lemma px_ok_Nil [simp]: "sys (px_proc s) = [] \<Longrightarrow> px_ok s = (True, s)"
  by (simp add: px_ok_def)

lemma px_find_cl_eq:
  assumes "px_cfg s" and "0 < proc_index i" and "proc_index i < 255"
  shows "px_find_cl t i s = Inr (Some (proc_index i), s)"
proof -
  define pid where "pid = drop_bit 20 (i AND 0xFFF00000 :: u32)"
  have u: "unat pid = proc_index i" unfolding pid_def by (rule proc_index_word)
  have "pid \<noteq> 0" "\<not> 255 \<le> pid" using u assms(2,3) by (auto simp: word_le_nat_alt)
  then show ?thesis
    using assms(1) u by (simp add: px_find_cl_def px_cfg_def Let_def pid_def [symmetric] pid_def [simplified, symmetric])
qed

text \<open>
  A sender with an established contact: the object \<open>g\<close> of the other process, mapped with its static
  pages, and the semaphores \<open>x\<close> for slots, \<open>y\<close> for the critical section and \<open>z\<close> for notifications.
\<close>

definition px_sems :: "nat \<Rightarrow> nat \<Rightarrow> nat \<Rightarrow> nat \<Rightarrow> nat \<Rightarrow> px_ipc \<Rightarrow> bool" where
  "px_sems x y z a n k \<longleftrightarrow> distinct [x, y, z] \<and>
     sem_objs k x = Some a \<and> sem_objs k y = Some 1 \<and> sem_objs k z = Some n"

definition px_contact :: "itc_mbox_id \<Rightarrow> posixshm_contactlist \<Rightarrow> nat \<Rightarrow> shm_object \<Rightarrow> nat \<Rightarrow> nat \<Rightarrow> nat \<Rightarrow> nat \<Rightarrow> nat \<Rightarrow> px_state \<Rightarrow> bool" where
  "px_contact to c g ob x y z a n s \<longleftrightarrow>
     px_cfg s \<and> 0 < proc_index to \<and> proc_index to < 255 \<and>
     posixshm_cl (posixshm_inst s) ! proc_index to = c \<and> px_mbox_id_in_itccoord c \<noteq> 0 \<and>
     posixshm_id c = Some g \<and> px_metadata c = MapAt g 25 \<and>
     px_sem_slot c = SemAt x \<and> px_sem_mutex c = SemAt y \<and> px_sem_notify c = SemAt z \<and>
     shm_objs (px_kernel s) g = Some ob \<and> px_sems x y z a n (px_kernel s)"

definition px_sender :: "nat \<Rightarrow> nat \<Rightarrow> bytes \<Rightarrow> px_state \<Rightarrow> bool" where
  "px_sender t m bs s \<longleftrightarrow> alloc_state t (px_proc s) \<and> rcs (px_proc s) t = BLive 0 \<and>
     cells (msgs (px_proc s)) m = Some bs \<and> wf_msg bs \<and> \<not> inrx bs \<and> length bs < 2 ^ 31"

definition px_step :: "nat \<Rightarrow> shm_object \<Rightarrow> nat \<Rightarrow> nat \<Rightarrow> nat \<Rightarrow> nat \<Rightarrow> nat \<Rightarrow> nat \<Rightarrow> px_ipc \<Rightarrow> px_ipc" where
  "px_step g ob x y z a b n k = k\<lparr>shm_objs := (shm_objs k)(g \<mapsto> ob), sem_objs := (sem_objs k)(x \<mapsto> a, y \<mapsto> b, z \<mapsto> n)\<rparr>"

lemma px_cl_at_contact: "px_contact to c g ob x y z a n s \<Longrightarrow> px_cl_at (proc_index to) s = Inr c"
  by (simp add: px_contact_def px_cl_at_def px_cfg_def Let_def)

lemma get_px_contact:
  assumes "px_contact to c g ob x y z a n s"
  shows "get_posixshm_cl t to s = Inr (Some (proc_index to), s)"
  using px_find_cl_eq [of s to t] px_cl_at_contact [OF assms] assms
  by (simp add: get_posixshm_cl_def px_contact_def)

lemma px_cl_at_kernel [simp]: "px_cl_at i (s\<lparr>px_kernel := k\<rparr>) = px_cl_at i s"
  by (simp add: px_cl_at_def)

lemma px_cl_updates:
  assumes "px_cl_at i s = Inr c"
  shows "px_cl_upd i f s = Inr (px_set (\<lambda>v. v\<lparr>posixshm_cl := (posixshm_cl v)[i := f c]\<rparr>) s)"
    and "i < length (posixshm_cl (posixshm_inst s))" "posixshm_cl (posixshm_inst s) ! i = c"
  using assms by (auto simp: px_cl_at_def px_cl_upd_def Let_def split: if_splits)

lemma px_wait_ok:
  assumes "px_cl_at i s = Inr c" and "sys (px_proc s) = []" and "f c = SemAt j" and "sem_objs (px_kernel s) j = Some (Suc v)"
  shows "px_wait_contact f t i s = Inr (True, s\<lparr>px_kernel := (px_kernel s)\<lparr>sem_objs := (sem_objs (px_kernel s))(j \<mapsto> v)\<rparr>\<rparr>)"
  using assms by (simp add: px_wait_contact_def px_sem_wait_def)

lemma px_post_ok:
  assumes "px_cl_at i s = Inr c" and "sys (px_proc s) = []" and "f c = SemAt j" and "sem_objs (px_kernel s) j = Some v"
  shows "px_post_contact f t i s = Inr (True, s\<lparr>px_kernel := (px_kernel s)\<lparr>sem_objs := (sem_objs (px_kernel s))(j \<mapsto> Suc v)\<rparr>\<rparr>)"
  using assms by (simp add: px_post_contact_def px_sem_post_def)

section \<open>The sender\<close>

text \<open>Up to the critical section, and after it.\<close>

lemma posixshm_send_enters:
  assumes con: "px_contact to c g ob x y z (Suc a) n s" and snd: "px_sender t m bs s" and sys: "sys (px_proc s) = []"
    and pool: "px_choose_pool (fld OFF_SIZE bs) = (p, pages)"
  shows "posixshm_send t m to s =
     bindE (px_insert_message t (proc_index to) p pages bs
              (s\<lparr>px_kernel := (px_kernel s)\<lparr>sem_objs := (sem_objs (px_kernel s))(x \<mapsto> a, y \<mapsto> 0)\<rparr>\<rparr>)) (\<lambda>(go, s).
     if \<not> go then Inr s else
     bindE (px_post_contact px_sem_mutex t (proc_index to) s) (\<lambda>(go, s). if \<not> go then Inr s else
     bindE (px_post_contact px_sem_notify t (proc_index to) s) (\<lambda>(go, s). if \<not> go then Inr s else
     bindE (px_shrink (proc_index to) p pages s) (\<lambda>(go, s). if \<not> go then Inr s else
     bindE (px_itc (itc_free t (Some m)) s) (\<lambda>(freed, s). Inr s)))))"
proof -
  let ?i = "proc_index to"
  have S: "cells (msgs (px_proc s)) m = Some bs" "wf_msg bs" "length bs < 2 ^ 31" using snd by (simp_all add: px_sender_def)
  note w = wf_msg_whole [OF S(2,3)]
  note at = px_cl_at_contact [OF con]
  have C: "px_is_initialized (posixshm_inst s)" "px_mbox_id_in_itccoord c \<noteq> 0" "px_sem_slot c = SemAt x" "px_sem_mutex c = SemAt y"
    "x \<noteq> y" "sem_objs (px_kernel s) x = Some (Suc a)" "sem_objs (px_kernel s) y = Some (Suc 0)"
    using con by (simp_all add: px_contact_def px_cfg_def px_sems_def)
  define k1 where "k1 = (px_kernel s)\<lparr>sem_objs := (sem_objs (px_kernel s))(x \<mapsto> a)\<rparr>"
  have w1: "px_wait_contact px_sem_slot t ?i s = Inr (True, s\<lparr>px_kernel := k1\<rparr>)"
    using px_wait_ok [OF at sys, of px_sem_slot x a] C(3,6) by (simp add: k1_def)
  have w2: "px_wait_contact px_sem_mutex t ?i (s\<lparr>px_kernel := k1\<rparr>) = Inr (True, s\<lparr>px_kernel := k1\<lparr>sem_objs := (sem_objs k1)(y \<mapsto> 0)\<rparr>\<rparr>)"
    using px_wait_ok [of ?i "s\<lparr>px_kernel := k1\<rparr>" c px_sem_mutex y 0] at sys C(4,5,7) by (simp add: k1_def)
  have g: "msg_get OFF_SIZE (Some m) (msgs (px_proc s)) = Inr (fld OFF_SIZE bs)"
    using S(1) wf_msg_length [OF S(2)] by simp
  show ?thesis
    using C(1,2) at g pool get_px_contact [OF con] w1 w2 w S(1)
    by (simp add: posixshm_send_def k1_def del: OFF_SIZE_def)
qed

text \<open>
  The critical section leaves a new object and, for a large message, the larger mapping, which is
  given up afterwards.
\<close>

definition px_inserted :: "nat \<Rightarrow> posixshm_contactlist \<Rightarrow> nat \<Rightarrow> nat \<Rightarrow> shm_object \<Rightarrow> px_state \<Rightarrow> px_state" where
  "px_inserted i c g pages ob s = s\<lparr>posixshm_inst := (posixshm_inst s)
       \<lparr>posixshm_cl := (posixshm_cl (posixshm_inst s))[i := c\<lparr>px_metadata := MapAt g pages\<rparr>]\<rparr>,
     px_kernel := (px_kernel s)\<lparr>shm_objs := (shm_objs (px_kernel s))(g \<mapsto> ob)\<rparr>\<rparr>"

lemma posixshm_send_leaves:
  assumes con: "px_contact to c g ob x y z (Suc a) n s" and snd: "px_sender t m bs s" and sys: "sys (px_proc s) = []"
    and pool: "px_choose_pool (fld OFF_SIZE bs) = (p, pages)"
    and ins: "px_insert_message t (proc_index to) p pages bs
              (s\<lparr>px_kernel := (px_kernel s)\<lparr>sem_objs := (sem_objs (px_kernel s))(x \<mapsto> a, y \<mapsto> 0)\<rparr>\<rparr>) =
       Inr (True, px_inserted (proc_index to) c g q ob'
              (s\<lparr>px_kernel := (px_kernel s)\<lparr>sem_objs := (sem_objs (px_kernel s))(x \<mapsto> a, y \<mapsto> 0)\<rparr>\<rparr>))"
    and q: "\<not> is_large p pages \<Longrightarrow> q = 25"
  shows "posixshm_send t m to s = Inr (s\<lparr>px_kernel := px_step g ob' x y z a 1 (Suc n) (px_kernel s),
       px_proc := (px_proc s)\<lparr>rcs := (rcs (px_proc s))(t := BLive ITC_OK),
         msgs := (msgs (px_proc s))\<lparr>cells := (cells (msgs (px_proc s)))(m := None)\<rparr>\<rparr>\<rparr>)"
proof -
  let ?i = "proc_index to" and ?cl = "posixshm_cl (posixshm_inst s)" and ?c = "c\<lparr>px_metadata := MapAt g q\<rparr>"
  have S: "alloc_state t (px_proc s)" "cells (msgs (px_proc s)) m = Some bs" "wf_msg bs" "\<not> inrx bs"
    using snd by (simp_all add: px_sender_def)
  have C: "px_metadata c = MapAt g 25" "posixshm_id c = Some g" "px_sem_slot c = SemAt x" "px_sem_mutex c = SemAt y" "px_sem_notify c = SemAt z"
    "x \<noteq> y" "x \<noteq> z" "y \<noteq> z" "sem_objs (px_kernel s) z = Some n"
    using con by (simp_all add: px_contact_def px_sems_def)
  have len: "?i < length ?cl" "?cl ! ?i = c" using con by (simp_all add: px_contact_def px_cfg_def)
  define inst where "inst = (posixshm_inst s)\<lparr>posixshm_cl := ?cl[?i := ?c]\<rparr>"
  define k2 where "k2 = px_step g ob' x y z a 0 n (px_kernel s)"
  define s2 where "s2 = s\<lparr>posixshm_inst := inst, px_kernel := k2\<rparr>"
  have e: "px_inserted ?i c g q ob' (s\<lparr>px_kernel := (px_kernel s)\<lparr>sem_objs := (sem_objs (px_kernel s))(x \<mapsto> a, y \<mapsto> 0)\<rparr>\<rparr>) = s2"
    using C(7-9) by (simp add: px_inserted_def s2_def inst_def k2_def px_step_def fun_upd_twist fun_upd_idem)
  have at: "px_cl_at ?i (s2\<lparr>px_kernel := k\<rparr>) = Inr ?c" for k using len by (simp add: px_cl_at_def s2_def inst_def Let_def)
  have at2: "px_cl_at ?i s2 = Inr ?c" using len by (simp add: px_cl_at_def s2_def inst_def Let_def)
  define k3 where "k3 = px_step g ob' x y z a 1 n (px_kernel s)"
  define k4 where "k4 = px_step g ob' x y z a 1 (Suc n) (px_kernel s)"
  have p1: "px_post_contact px_sem_mutex t ?i s2 = Inr (True, s2\<lparr>px_kernel := k3\<rparr>)"
    using px_post_ok [OF at2, of px_sem_mutex y 0] sys C(4,6-8)
    by (simp add: s2_def k2_def k3_def px_step_def fun_upd_twist)
  have p2: "px_post_contact px_sem_notify t ?i (s2\<lparr>px_kernel := k3\<rparr>) = Inr (True, s2\<lparr>px_kernel := k4\<rparr>)"
    using px_post_ok [OF at, of k3 px_sem_notify z n] sys C(5) by (simp add: s2_def k3_def k4_def px_step_def)
  have undo: "?cl[?i := c] = ?cl" using len(2) by (metis list_update_id)
  have same: "c\<lparr>px_metadata := MapAt g 25\<rparr> = c" using C(1) by (cases c) simp
  have sh: "px_shrink ?i p pages (s2\<lparr>px_kernel := k4\<rparr>) = Inr (True, s\<lparr>px_kernel := k4\<rparr>)"
  proof (cases "is_large p pages")
    case True
    then have "px_shrink ?i p pages (s2\<lparr>px_kernel := k4\<rparr>) = Inr (True, s\<lparr>px_kernel := k4,
        posixshm_inst := (posixshm_inst s)\<lparr>posixshm_cl := ?cl[?i := c\<lparr>px_metadata := MapAt g 25\<rparr>]\<rparr>\<rparr>)"
      using sys C(2) len
      by (simp add: px_shrink_def px_unmap_contact_def px_map_contact_def px_cl_upd_def px_cl_at_def Let_def mmap_def
          s2_def inst_def)
    then show ?thesis unfolding same undo by simp
  next
    case False
    have "inst = posixshm_inst s" unfolding inst_def q [OF False] same undo by simp
    then show ?thesis using False by (simp add: px_shrink_def s2_def)
  qed
  have f: "itc_free t (Some m) (px_proc s) = Inr (True, (px_proc s)\<lparr>rcs := (rcs (px_proc s))(t := BLive ITC_OK),
      msgs := (msgs (px_proc s))\<lparr>cells := (cells (msgs (px_proc s)))(m := None)\<rparr>\<rparr>)"
    using itc_free_ok [OF S] by simp
  show ?thesis
    unfolding posixshm_send_enters [OF con snd sys pool] ins e
    using p1 p2 sh f by (simp add: px_itc_def k4_def)
qed

text \<open>The pool of a message: the largest ones, and only these, get pages of their own.\<close>

definition px_fits :: "bytes \<Rightarrow> bool" where
  "px_fits b \<longleftrightarrow> wf_msg b \<and> length b + 32 < 65535 * 4096"

lemma px_choose_large:
  assumes "px_fits b" and "\<not> fits_pools b"
  shows "\<exists>pages. px_choose_pool (fld OFF_SIZE b) = (POOL_UNLIMIT, pages) \<and> is_large POOL_UNLIMIT pages \<and>
     0 < pages \<and> length b + 32 \<le> unat pages * 4096"
proof -
  let ?sz = "fld OFF_SIZE b"
  have l: "length b = unat ?sz + 17" "unat ?sz + 49 < 65535 * 4096" "16384 < unat ?sz + 49"
    using assms by (auto simp: px_fits_def fits_pools_def wf_msg_def)
  have w: "which_pool ?sz = NUM_POOLS" using which_pool_cases [of ?sz] l by simp
  have e: "?sz + of_nat ITC_HEADER_SIZE + 1 + 32 = ?sz + 49" by (simp add: add.assoc)
  define n where "n = (unat ?sz + 49) div 4096 + 1"
  define pages where "pages = (ucast ((?sz + 49) div of_nat SYSVSHM_PAGE_SIZE + 1) :: u16)"
  have n: "4 < n" "n < 65536" "unat ?sz + 49 \<le> n * 4096" using l by (simp_all add: n_def)
  have "unat (?sz + 49) = unat ?sz + 49" using l(2) by (simp add: unat_word_ariths)
  then have "unat ((?sz + 49) div of_nat SYSVSHM_PAGE_SIZE + 1) = n"
    using n(2) by (simp add: n_def unat_word_ariths unat_div_distrib)
  then have p: "unat pages = n" using n(2) by (simp add: pages_def unsigned_ucast_eq take_bit_nat_eq_self)
  then have "uint pages = int n" by (metis uint_nat)
  moreover have "0 < pages" using p n(1) by (simp add: word_less_nat_alt)
  moreover have "px_choose_pool ?sz = (POOL_UNLIMIT, pages)"
    unfolding px_choose_pool_def pages_def e using w by simp
  ultimately show ?thesis using l(1) n p by (simp add: is_large_def slot_sizes_def)
qed

lemma px_insert_small:
  assumes "px_cl_at i s = Inr c" and "px_metadata c = MapAt g 25" and "shm_objs (px_kernel s) g = Some ob"
    and "p < 6" and "whichpool (sh_tail (ob_md ob)) \<noteq> 6" and "enqueue_block p bs (ob_md ob) = Inr (True, md')"
  shows "px_insert_message t i p pages bs s = Inr (True, px_inserted i c g 25 (ob\<lparr>ob_md := md'\<rparr>) s)"
proof -
  have "\<not> is_large p pages" using assms(4) by (simp add: is_large_def)
  moreover have "c\<lparr>px_metadata := MapAt g 25\<rparr> = c" using assms(2) by (cases c) simp
  then have "(posixshm_cl (posixshm_inst s))[i := c\<lparr>px_metadata := MapAt g 25\<rparr>] = posixshm_cl (posixshm_inst s)"
    using px_cl_updates(3) [OF assms(1)] by (metis list_update_id)
  ultimately show ?thesis
    using assms by (simp add: px_insert_message_def map_get_def map_upd_def slot_ref_def px_inserted_def)
qed

lemma px_insert_large:
  assumes "px_cl_at i s = Inr c" and "posixshm_id c = Some g" and "shm_objs (px_kernel s) g = Some ob"
    and "sys (px_proc s) = []" and "is_large p pages" and "0 < pages"
    and "px_enqueue_large pages bs (ob_md (resize (25 + unat pages) ob)) = Inr (True, md')"
  shows "px_insert_message t i p pages bs s =
     Inr (True, px_inserted i c g (25 + unat pages) \<lparr>ob_md = md', ob_pages = 25 + unat pages\<rparr> s)"
proof -
  have "0 < unat pages" using assms(6) by (simp add: word_less_nat_alt)
  moreover have res: "ob_pages (resize (25 + unat pages) ob) = 25 + unat pages"
    "resize (25 + unat pages) ob\<lparr>ob_md := md'\<rparr> = \<lparr>ob_md = md', ob_pages = 25 + unat pages\<rparr>"
    by (simp_all add: resize_def Let_def)
  ultimately show ?thesis
    using assms px_cl_updates(2,3) [OF assms(1)]
    by (simp add: px_insert_message_def px_unmap_contact_def px_map_contact_def px_cl_upd_def px_cl_at_def Let_def
        ftruncate_def mmap_def map_upd_def map_get_def px_inserted_def res)
qed

text \<open>A large message in an object whose queue was empty.\<close>

definition px_large_in :: "bytes \<Rightarrow> u16 \<Rightarrow> shm_metadata \<Rightarrow> bool" where
  "px_large_in bs pages md \<longleftrightarrow> large_in_queue md \<and> num_unlimit_pages md = pages \<and>
     is_in_use (slot_unlimit md) \<and> pool_type (slot_unlimit md) = 6 \<and> take (length bs) (slot_data (slot_unlimit md)) = bs"

lemma px_enqueue_large_ok:
  assumes "ob_pages ob = 25" and "sh_tail (ob_md ob) = no_slot" and "length bs + 32 \<le> n * 4096" and "n = unat pages"
  shows "\<exists>md'. px_enqueue_large pages bs (ob_md (resize (25 + n) ob)) = Inr (True, md') \<and>
     px_large_in bs pages md' \<and> pools md' = pools (ob_md ob)"
  using assms
  by (simp add: px_enqueue_large_def enqueue_large_def link_slot_def resize_def zero_slot_def Let_def write_slot_def
      slot_at_def slot_upd_def slot_ref_def no_slot_def put_bytes_def px_large_in_def large_in_queue_def blit_def)

section \<open>The receiver\<close>

definition px_receiver :: "nat \<Rightarrow> shm_object \<Rightarrow> nat \<Rightarrow> nat \<Rightarrow> nat \<Rightarrow> nat \<Rightarrow> nat \<Rightarrow> px_state \<Rightarrow> bool" where
  "px_receiver g ob x y z a n r \<longleftrightarrow>
     \<not> px_is_terminated (posixshm_inst r) \<and> px_my_shmid (posixshm_inst r) = Some g \<and>
     px_my_shm_ptr (posixshm_inst r) = MapAt g 25 \<and> px_my_sem_slot (posixshm_inst r) = SemAt x \<and>
     px_my_sem_mutex (posixshm_inst r) = SemAt y \<and> px_my_sem_notify (posixshm_inst r) = SemAt z \<and>
     shm_objs (px_kernel r) g = Some ob \<and> px_sems x y z a n (px_kernel r)"

definition px_received :: "nat \<Rightarrow> shm_object \<Rightarrow> proc \<Rightarrow> px_state \<Rightarrow> px_state" where
  "px_received g ob p r = r\<lparr>px_proc := p,
     posixshm_inst := (posixshm_inst r)\<lparr>px_my_shm_ptr := MapAt g 25\<rparr>,
     px_kernel := (px_kernel r)\<lparr>shm_objs := (shm_objs (px_kernel r))(g \<mapsto> ob)\<rparr>\<rparr>"

lemma posixshm_rx_round_step:
  assumes rc: "px_receiver g ob x y z a (Suc n) r" and sys: "sys (px_proc r) = []" "sys p' = []"
    and hd: "whichpool (sh_head (ob_md ob)) \<noteq> -1" "whichslot (sh_head (ob_md ob)) \<noteq> -1"
    and rec: "px_receive_head t (r\<lparr>px_kernel := (px_kernel r)\<lparr>sem_objs := (sem_objs (px_kernel r))(z \<mapsto> n, y \<mapsto> 0)\<rparr>\<rparr>) =
       Inr (True, px_received g ob' p' (r\<lparr>px_kernel := (px_kernel r)\<lparr>sem_objs := (sem_objs (px_kernel r))(z \<mapsto> n, y \<mapsto> 0)\<rparr>\<rparr>))"
  shows "\<exists>r'. posixshm_rx_round t r = Inr (True, r') \<and> px_receiver g ob' x y z (Suc a) n r' \<and> px_proc r' = p'"
proof -
  have R: "\<not> px_is_terminated (posixshm_inst r)" "px_my_shm_ptr (posixshm_inst r) = MapAt g 25"
    "px_my_shmid (posixshm_inst r) = Some g" "px_my_sem_slot (posixshm_inst r) = SemAt x"
    "px_my_sem_mutex (posixshm_inst r) = SemAt y" "px_my_sem_notify (posixshm_inst r) = SemAt z"
    "shm_objs (px_kernel r) g = Some ob" "x \<noteq> y" "x \<noteq> z" "y \<noteq> z"
    "sem_objs (px_kernel r) x = Some a" "sem_objs (px_kernel r) y = Some (Suc 0)" "sem_objs (px_kernel r) z = Some (Suc n)"
    using rc by (simp_all add: px_receiver_def px_sems_def)
  define r1 where "r1 = r\<lparr>px_kernel := (px_kernel r)\<lparr>sem_objs := (sem_objs (px_kernel r))(z \<mapsto> n, y \<mapsto> 0)\<rparr>\<rparr>"
  define r2 where "r2 = px_received g ob' p' r1"
  define r3 where "r3 = r2\<lparr>px_kernel := (px_kernel r2)\<lparr>sem_objs := (sem_objs (px_kernel r2))(y \<mapsto> 1, x \<mapsto> Suc a)\<rparr>\<rparr>"
  have rec: "px_receive_head t r1 = Inr (True, r2)" using rec by (simp add: r1_def r2_def)
  have "posixshm_rx_round t r = Inr (True, r3)"
    using R sys hd rec
    by (simp add: posixshm_rx_round_def px_sem_wait_def map_get_def r1_def [symmetric])
       (simp add: px_sem_post_def px_received_def r1_def r2_def r3_def)
  moreover have "px_receiver g ob' x y z (Suc a) n r3"
    using R by (simp add: px_receiver_def px_sems_def r1_def r2_def r3_def px_received_def)
  ultimately show ?thesis by (intro exI [of _ r3]) (simp add: r2_def r3_def px_received_def)
qed

lemma px_receive_small:
  assumes at: "px_my_shm_ptr (posixshm_inst r) = MapAt g 25" "shm_objs (px_kernel r) g = Some ob"
    and l: "shm_list (ob_md ob) (k # ks)" and sys: "sys (px_proc r) = []"
    and hm: "handle_received_message t (slot_data (slot_info_at (ob_md ob) k)) (px_proc r) = Inr p'"
  shows "\<exists>md'. px_receive_head t r = Inr (True, px_received g (ob\<lparr>ob_md := md'\<rparr>) p' r) \<and> shm_list md' ks"
proof -
  note L = shm_listD [OF l]
  have k: "valid_slot k" "fst k < 6" using L(3) [of k] by (auto simp: valid_slot_def)
  have fine: "is_in_use (slot_info_at (ob_md ob) k)" "\<not> 6 < pool_type (slot_info_at (ob_md ob) k)"
    using L(6) [of 0] L(8) [OF k(1)] k(2) by (auto simp: word_less_nat_alt unat_of_nat_small)
  obtain md' where m: "remove_head (ob_md ob) = Inr md'" "shm_list md' ks" using remove_head_ok [OF l] by blast
  have hd: "sh_head (ob_md ob) = ref k" using L(4) by simp
  have "px_receive_head t r = Inr (True, px_received g (ob\<lparr>ob_md := md'\<rparr>) p' r)"
    using at hd k slot_at_ref [OF L(1) k(1)] fine hm m(1)
    by (simp add: px_receive_head_def map_get_def map_upd_def px_put_def px_handle_received_message_def px_received_def)
  then show ?thesis using m(2) by blast
qed

lemma shm_list_empty_cong:
  "shm_list md [] \<Longrightarrow> pools md' = pools md \<Longrightarrow> sh_head md' = no_slot \<Longrightarrow> sh_tail md' = no_slot \<Longrightarrow> shm_list md' []"
  by (simp add: shm_list_def shm_shape_def slot_info_at_def)

lemma px_receive_large:
  assumes at: "px_my_shm_ptr (posixshm_inst r) = MapAt g 25" "shm_objs (px_kernel r) g = Some ob" "px_my_shmid (posixshm_inst r) = Some g"
    and l: "px_large_in bs pages (ob_md ob)" "ob_pages ob = 25 + unat pages" "0 < pages"
    and sys: "sys (px_proc r) = []" "sys p' = []"
    and hm: "handle_received_message t (slot_data (slot_unlimit (ob_md ob))) (px_proc r) = Inr p'"
  shows "\<exists>md'. px_receive_head t r = Inr (True, px_received g \<lparr>ob_md = md', ob_pages = 25\<rparr> p' r) \<and>
     pools md' = pools (ob_md ob) \<and> sh_head md' = no_slot \<and> sh_tail md' = no_slot"
proof -
  have p: "0 < unat pages" using l(3) by (simp add: word_less_nat_alt)
  have q: "sh_head (ob_md ob) = slot_ref POOL_UNLIMIT 0" "sh_tail (ob_md ob) = slot_ref POOL_UNLIMIT 0"
    "num_unlimit_pages (ob_md ob) = pages" "is_in_use (slot_unlimit (ob_md ob))" "pool_type (slot_unlimit (ob_md ob)) = 6"
    using l(1) by (simp_all add: px_large_in_def large_in_queue_def)
  show ?thesis
    using at q p l(2,3) sys hm
    by (simp add: px_receive_head_def map_get_def map_upd_def px_put_def px_handle_received_message_def px_received_def
        mmap_def ftruncate_def slot_ref_def slot_at_def slot_upd_def remove_head_def Let_def resize_def)
      (intro exI conjI, rule refl, simp_all)
qed

section \<open>From one process to another\<close>

text \<open>An object that holds exactly one message: in a slot of a pool, or on pages of its own.\<close>

definition px_holds_one :: "bytes \<Rightarrow> shm_object \<Rightarrow> bool" where
  "px_holds_one bs ob \<longleftrightarrow>
     (\<exists>k. shm_list (ob_md ob) [k] \<and> ob_pages ob = 25 \<and> take (length bs) (slot_data (slot_info_at (ob_md ob) k)) = bs) \<or>
     (\<exists>md pages. shm_list md [] \<and> pools (ob_md ob) = pools md \<and> px_large_in bs pages (ob_md ob) \<and>
        ob_pages ob = 25 + unat pages \<and> 0 < pages)"

lemma posixshm_send_ok:
  assumes con: "px_contact to c g ob x y z (Suc a) n s" and snd: "px_sender t m bs s" and sys: "sys (px_proc s) = []"
    and fit: "px_fits bs" and q: "shm_list (ob_md ob) []" "ob_pages ob = 25"
  shows "\<exists>ob'. px_holds_one bs ob' \<and>
     posixshm_send t m to s = Inr (s\<lparr>px_kernel := px_step g ob' x y z a 1 (Suc n) (px_kernel s),
       px_proc := (px_proc s)\<lparr>rcs := (rcs (px_proc s))(t := BLive ITC_OK),
         msgs := (msgs (px_proc s))\<lparr>cells := (cells (msgs (px_proc s)))(m := None)\<rparr>\<rparr>\<rparr>)"
proof -
  let ?s = "s\<lparr>px_kernel := (px_kernel s)\<lparr>sem_objs := (sem_objs (px_kernel s))(x \<mapsto> a, y \<mapsto> 0)\<rparr>\<rparr>"
  have at: "px_cl_at (proc_index to) ?s = Inr c" using px_cl_at_contact [OF con] by simp
  have C: "px_metadata c = MapAt g 25" "posixshm_id c = Some g" "shm_objs (px_kernel ?s) g = Some ob" "sys (px_proc ?s) = []"
    using con sys by (simp_all add: px_contact_def)
  have tl: "sh_tail (ob_md ob) = no_slot" using shm_listD(5) [OF q(1)] by simp
  show ?thesis
  proof (cases "fits_pools bs")
    case True
    let ?p = "which_pool (fld OFF_SIZE bs)"
    note w = which_pool_fits(1) [OF True]
    obtain i where i: "valid_slot (?p, i)" "(?p, i) \<notin> set []" using slot_left [OF q(1) w empty_room [OF q(1) w]] .
    obtain k md' where e: "enqueue_block ?p bs (ob_md ob) = Inr (True, md')" "shm_list md' [k]" "holds md' k bs"
      using shm_put_ok [OF q(1) _ True i, of "[]"] by auto
    have p: "px_choose_pool (fld OFF_SIZE bs) = (?p, 0)" using w by (simp add: px_choose_pool_def)
    have "px_insert_message t (proc_index to) ?p 0 bs ?s = Inr (True, px_inserted (proc_index to) c g 25 (ob\<lparr>ob_md := md'\<rparr>) ?s)"
      by (rule px_insert_small [OF at C(1,3) w _ e(1)]) (simp add: tl no_slot_def)
    note sent = posixshm_send_leaves [OF con snd sys p this]
    have "px_holds_one bs (ob\<lparr>ob_md := md'\<rparr>)"
      unfolding px_holds_one_def by (intro disjI1 exI [of _ k]) (use e(2,3) q(2) in \<open>simp add: holds_def\<close>)
    then show ?thesis using sent by blast
  next
    case False
    obtain pages where pg: "px_choose_pool (fld OFF_SIZE bs) = (POOL_UNLIMIT, pages)" "is_large POOL_UNLIMIT pages"
      "0 < pages" "length bs + 32 \<le> unat pages * 4096"
      using px_choose_large [OF fit False] by blast
    obtain md' where md': "px_enqueue_large pages bs (ob_md (resize (25 + unat pages) ob)) = Inr (True, md')"
      "px_large_in bs pages md'" "pools md' = pools (ob_md ob)"
      using px_enqueue_large_ok [OF q(2) tl pg(4) refl] by blast
    note sent = posixshm_send_leaves [OF con snd sys pg(1) px_insert_large [OF at C(2-4) pg(2,3) md'(1)]]
    have "px_holds_one bs \<lparr>ob_md = md', ob_pages = 25 + unat pages\<rparr>"
      unfolding px_holds_one_def by (intro disjI2 exI [of _ "ob_md ob"] exI [of _ pages]) (use pg(3) md'(2,3) q(1) in simp)
    then show ?thesis using sent pg(2) by blast
  qed
qed

lemma posixshm_receive_ok:
  assumes rc: "px_receiver g ob x y z a (Suc n) r" and sys: "sys (px_proc r) = []" and one: "px_holds_one bs ob"
    and hm: "\<And>post. \<exists>p'. handle_received_message t (bs @ post) (px_proc r) = Inr p' \<and> sys p' = [] \<and> P p'"
  shows "\<exists>r' md'. posixshm_rx_round t r = Inr (True, r') \<and> P (px_proc r') \<and>
     px_receiver g \<lparr>ob_md = md', ob_pages = 25\<rparr> x y z (Suc a) n r' \<and> shm_list md' []"
proof -
  let ?r = "r\<lparr>px_kernel := (px_kernel r)\<lparr>sem_objs := (sem_objs (px_kernel r))(z \<mapsto> n, y \<mapsto> 0)\<rparr>\<rparr>"
  have R: "px_my_shm_ptr (posixshm_inst ?r) = MapAt g 25" "shm_objs (px_kernel ?r) g = Some ob"
    "px_my_shmid (posixshm_inst ?r) = Some g" "sys (px_proc ?r) = []"
    using rc sys by (simp_all add: px_receiver_def)
  have at: "\<exists>p'. handle_received_message t d (px_proc ?r) = Inr p' \<and> sys p' = [] \<and> P p'" if "take (length bs) d = bs" for d
    using hm [of "drop (length bs) d"] append_take_drop_id [of "length bs" d] that by simp
  from one show ?thesis
    unfolding px_holds_one_def
  proof (elim disjE exE conjE)
    fix k assume k: "shm_list (ob_md ob) [k]" "ob_pages ob = 25" "take (length bs) (slot_data (slot_info_at (ob_md ob) k)) = bs"
    obtain p' where p': "handle_received_message t (slot_data (slot_info_at (ob_md ob) k)) (px_proc ?r) = Inr p'"
      "sys p' = []" "P p'" using at [OF k(3)] by blast
    obtain md' where md': "px_receive_head t ?r = Inr (True, px_received g (ob\<lparr>ob_md := md'\<rparr>) p' ?r)" "shm_list md' []"
      using px_receive_small [OF R(1,2) k(1) R(4) p'(1)] by blast
    have hd: "sh_head (ob_md ob) = ref k" using shm_listD(4) [OF k(1)] by simp
    have "ob\<lparr>ob_md := md'\<rparr> = \<lparr>ob_md = md', ob_pages = 25\<rparr>" using k(2) by (cases ob) simp
    with posixshm_rx_round_step [OF rc sys p'(2) _ _ md'(1)] hd p'(3) md'(2) show ?thesis by fastforce
  next
    fix md pages assume l: "shm_list md []" "pools (ob_md ob) = pools md" "px_large_in bs pages (ob_md ob)"
      "ob_pages ob = 25 + unat pages" "0 < pages"
    obtain p' where p': "handle_received_message t (slot_data (slot_unlimit (ob_md ob))) (px_proc ?r) = Inr p'"
      "sys p' = []" "P p'" using at [of "slot_data (slot_unlimit (ob_md ob))"] l(3) by (auto simp: px_large_in_def)
    obtain md' where md': "px_receive_head t ?r = Inr (True, px_received g \<lparr>ob_md = md', ob_pages = 25\<rparr> p' ?r)"
      "pools md' = pools (ob_md ob)" "sh_head md' = no_slot" "sh_tail md' = no_slot"
      using px_receive_large [OF R(1-3) l(3-5) R(4) p'(2,1)] by blast
    have "shm_list md' []" using shm_list_empty_cong [OF l(1)] md'(2-4) l(2) by simp
    moreover have "sh_head (ob_md ob) = slot_ref POOL_UNLIMIT 0" using l(3) by (simp add: px_large_in_def large_in_queue_def)
    ultimately show ?thesis using posixshm_rx_round_step [OF rc sys p'(2) _ _ md'(1)] p'(3) by (fastforce simp: slot_ref_def)
  qed
qed

lemma px_step_contact:
  assumes "px_contact to c g ob x y z (Suc a) n s"
  shows "px_contact to c g ob' x y z a n' (s\<lparr>px_kernel := px_step g ob' x y z a 1 n' k, px_proc := p\<rparr>)"
  using assms by (simp add: px_contact_def px_cfg_def px_sems_def px_step_def)

text \<open>
  C11. A message of any size, from the smallest to one of almost \<open>2 ^ 28\<close> bytes, crosses from one process to
  another over POSIX shared memory: the sender's call puts it into the object of the other process,
  enlarged for the message when the pools cannot hold it, and one round of the receiving thread
  appends exactly one message with its size, number, data and end marker to the addressed mailbox.
  Afterwards the object has its static pages and an empty queue, and the semaphores are what they were.
\<close>

theorem message_crosses_posix_memory:
  assumes "px_contact (mbx_id j (px_proc r)) c g ob x y z (Suc a) 0 s" and "px_sender ts m bs s" and "sys (px_proc s) = []"
    and "px_fits bs" and "shm_list (ob_md ob) []" and "ob_pages ob = 25"
    and "px_receiver g ob x y z (Suc a) 0 r"
    and "mbx_rep k (px_proc r) Q" and "alloc_state t (px_proc r)" and "malloc_results (msgs (px_proc r)) = []"
    and "my_threadlocal_mbox (px_proc r) t = Some i" and "Q j = Some xs" and "i \<noteq> j"
    and "fld OFF_RECEIVER bs = mbx_id j (px_proc r)" and "length bs \<le> nat (max_mallocsize (px_proc r))"
  shows "\<exists>s' r' md' b'. posixshm_send ts m (mbx_id j (px_proc r)) s = Inr s' \<and> cells (msgs (px_proc s')) m = None \<and>
     posixshm_rx_round t (r\<lparr>px_kernel := px_kernel s'\<rparr>) = Inr (True, r') \<and>
     core_ok (px_proc r') k (Q(j \<mapsto> xs @ [fresh (msgs (px_proc r))])) \<and>
     cells (msgs (px_proc r')) (fresh (msgs (px_proc r))) = Some b' \<and> wf_msg b' \<and>
     drop OFF_SIZE b' = drop OFF_SIZE bs \<and> fld OFF_RECEIVER b' = mbx_id j (px_proc r) \<and>
     px_receiver g \<lparr>ob_md = md', ob_pages = 25\<rparr> x y z (Suc a) 0 r' \<and> shm_list md' []"
proof -
  let ?to = "mbx_id j (px_proc r)" and ?p = "fresh (msgs (px_proc r))"
  obtain ob1 where ob1: "px_holds_one bs ob1"
    "posixshm_send ts m ?to s = Inr (s\<lparr>px_kernel := px_step g ob1 x y z a 1 1 (px_kernel s),
       px_proc := (px_proc s)\<lparr>rcs := (rcs (px_proc s))(ts := BLive ITC_OK),
         msgs := (msgs (px_proc s))\<lparr>cells := (cells (msgs (px_proc s)))(m := None)\<rparr>\<rparr>\<rparr>)" (is "_ = Inr ?s")
    using posixshm_send_ok [OF assms(1-6)] by (auto simp: One_nat_def)
  let ?r = "r\<lparr>px_kernel := px_kernel ?s\<rparr>"
  have rc: "px_receiver g ob1 x y z a (Suc 0) ?r"
    using assms(7) by (simp add: px_receiver_def px_sems_def px_step_def)
  define P where "P = (\<lambda>p'. \<exists>b'. core_ok p' k (Q(j \<mapsto> xs @ [?p])) \<and> cells (msgs p') ?p = Some b' \<and> wf_msg b' \<and>
     drop OFF_SIZE b' = drop OFF_SIZE bs \<and> fld OFF_RECEIVER b' = ?to)"
  have wb: "wf_msg bs" using assms(4) by (simp add: px_fits_def)
  have hm: "\<exists>p'. handle_received_message t (bs @ post) (px_proc ?r) = Inr p' \<and> sys p' = [] \<and> P p'" for post
    using handle_delivers [OF assms(8-13) wb assms(14,15), of post] by (auto simp: P_def)
  have "sys (px_proc ?r) = []" using mbx_repD(2) [OF assms(8)] by simp
  from posixshm_receive_ok [OF rc this ob1(1) hm]
  obtain r' md' where r': "posixshm_rx_round t ?r = Inr (True, r')" "P (px_proc r')"
    "px_receiver g \<lparr>ob_md = md', ob_pages = 25\<rparr> x y z (Suc a) 0 r'" "shm_list md' []" by blast
  have "cells (msgs (px_proc ?s)) m = None" by simp
  then show ?thesis using ob1(2) r' unfolding P_def by blast
qed

section \<open>Behind a large message\<close>

lemma holds_one_small_fits:
  assumes "shm_list md [k]" and "take (length bs) (slot_data (slot_info_at md k)) = bs" and "wf_msg bs"
  shows "fits_pools bs"
proof -
  have v: "valid_slot k" using shm_listD(3) [OF assms(1), of k] by simp
  then have "length (slot_data (slot_info_at md k)) = data_size (fst k)"
    using shm_listD(1) [OF assms(1)] by (cases k) (simp add: shm_shape_def)
  moreover have "data_size (fst k) \<le> 16352"
    using v less_6_cases [of "fst k"] by (auto simp: valid_slot_def data_size_def slot_sizes_def)
  moreover have "length bs \<le> length (slot_data (slot_info_at md k))" using arg_cong [OF assms(2), of length] by simp
  ultimately show ?thesis using assms(3) by (simp add: fits_pools_def)
qed

text \<open>
  C27. While a large message waits, sending a small one to the same process is fatal: its slot is to be
  linked behind the large one, whose pages the sender has not mapped. This holds for every sender,
  also for the one of the large message, which gives its larger mapping up before it returns.
\<close>

theorem small_message_behind_large_one_is_fatal:
  assumes "px_contact to c g ob x y z (Suc (Suc a)) n s" and "px_sender t m bs s" and "sys (px_proc s) = []"
    and "px_fits bs" and "\<not> fits_pools bs" and "shm_list (ob_md ob) []" and "ob_pages ob = 25"
    and "px_contact to c2 g ob x y z (Suc (Suc a)) n s2" and "px_sender t2 m2 bs2 s2" and "sys (px_proc s2) = []"
    and "fits_pools bs2"
  shows "\<exists>s'. posixshm_send t m to s = Inr s' \<and>
     posixshm_send t2 m2 to (s2\<lparr>px_kernel := px_kernel s'\<rparr>) = Inl OutOfBounds"
proof -
  let ?p = "which_pool (fld OFF_SIZE bs2)"
  obtain ob1 where ob1: "px_holds_one bs ob1"
    "posixshm_send t m to s = Inr (s\<lparr>px_kernel := px_step g ob1 x y z (Suc a) 1 (Suc n) (px_kernel s),
       px_proc := (px_proc s)\<lparr>rcs := (rcs (px_proc s))(t := BLive ITC_OK),
         msgs := (msgs (px_proc s))\<lparr>cells := (cells (msgs (px_proc s)))(m := None)\<rparr>\<rparr>\<rparr>)" (is "_ = Inr ?s")
    using posixshm_send_ok [OF assms(1-4,6,7)] by blast
  have "wf_msg bs" using assms(4) by (simp add: px_fits_def)
  then obtain md pages where l: "shm_list md []" "pools (ob_md ob1) = pools md" "px_large_in bs pages (ob_md ob1)"
    using ob1(1) holds_one_small_fits assms(5) unfolding px_holds_one_def by blast
  let ?s2 = "s2\<lparr>px_kernel := px_kernel ?s\<rparr>"
  have con: "px_contact to c2 g ob1 x y z (Suc a) (Suc n) ?s2"
    using px_step_contact [OF assms(8), where ob' = ob1 and n' = "Suc n" and k = "px_kernel s" and p = "px_proc s2"] by simp
  have snd: "px_sender t2 m2 bs2 ?s2" "sys (px_proc ?s2) = []" using assms(9,10) by (simp_all add: px_sender_def)
  note w = which_pool_fits(1) [OF assms(11)]
  have pc: "px_choose_pool (fld OFF_SIZE bs2) = (?p, 0)" using w by (simp add: px_choose_pool_def)
  obtain i where i: "valid_slot (?p, i)" "(?p, i) \<notin> set []" using slot_left [OF l(1) w empty_room [OF l(1) w]] .
  have "?p \<noteq> POOL_UNLIMIT" using w by simp
  then have "free_slot 0 (pool_slots ?p (ob_md ob1)) < num_slots ! ?p"
    using free_slot_index(1) [OF l(1) w i] l(2) by (simp add: pool_slots_def valid_slot_def)
  moreover have "whichpool (sh_tail (ob_md ob1)) = 6" using l(3) by (simp add: px_large_in_def large_in_queue_def slot_ref_def)
  moreover have "px_cl_at (proc_index to) ?s2 = Inr c2" by (rule px_cl_at_contact [OF con])
  moreover have "shm_objs (px_kernel ?s2) g = Some ob1" "px_metadata c2 = MapAt g 25" using con by (simp_all add: px_contact_def)
  moreover have "\<not> is_large ?p 0" using w by (simp add: is_large_def)
  ultimately have "posixshm_send t2 m2 to ?s2 = Inl OutOfBounds"
    using w unfolding posixshm_send_enters [OF con snd pc]
    by (simp add: px_insert_message_def map_get_def map_upd_def slot_ref_def)
  then show ?thesis using ob1(2) by auto
qed

section \<open>Setting up\<close>

lemma px_rx_thread_ok:
  assumes "sys (px_proc s) = []" and "can_alloc (th_heap (thrman_inst (px_proc s)))"
  shows "\<exists>p. init_posixshm_rx_thread t s = Inr (s\<lparr>px_proc := p\<rparr>) \<and> rcs p = rcs (px_proc s) \<and> sys p = []"
  using assms
  by (simp add: init_posixshm_rx_thread_def px_put_def add_itcthread_def start_mtx_unlock_def)
    (intro exI, rule conjI, rule refl, simp)


lemma posixshm_init_ready:
  assumes "\<not> px_is_initialized (posixshm_inst s)" and "\<not> px_is_terminated (posixshm_inst s)"
    and "length (posixshm_cl (posixshm_inst s)) = MAX_SUPPORTED_PROCESSES"
    and "rcs (px_proc s) t = BLive ITC_OK" and "sys (px_proc s) = []" and "can_alloc (th_heap (thrman_inst (px_proc s)))"
    and "\<forall>kind. sem_names (px_kernel s) (kind, my) = None" and "shm_names (px_kernel s) my = None"
    and "g = px_fresh (px_kernel s)"
  shows "\<exists>s' md. posixshm_init t my ITC_COORD_MASK nr flags s = Inr s' \<and> rcs (px_proc s') t = BLive ITC_OK \<and>
     px_cfg s' \<and> px_receiver (g + 3) \<lparr>ob_md = md, ob_pages = 25\<rparr> (g + 2) g (g + 1) MAX_POSIXSHM_SLOTS 0 s' \<and> shm_list md []"
proof -
  define s1 where "s1 = px_set (\<lambda>v. v\<lparr>px_itccoord_mask := ITC_COORD_MASK, px_itccoord_shift := ITC_COORD_SHIFT,
                  px_my_mbox_id_in_itccoord := my\<rparr>) s"
  let ?v = "posixshm_inst s1" and ?k = "px_kernel s1"
  define s2 where "s2 = s1\<lparr>posixshm_inst := ?v\<lparr>my_sem_names := (my_sem_names ?v)(SemMutex \<mapsto> my, SemNotify \<mapsto> my, SemSlot \<mapsto> my),
       px_my_sem_mutex := SemAt g, px_my_sem_notify := SemAt (g + 1), px_my_sem_slot := SemAt (g + 2)\<rparr>,
     px_kernel := ?k\<lparr>sem_names := (sem_names ?k)((SemMutex, my) \<mapsto> g, (SemNotify, my) \<mapsto> g + 1, (SemSlot, my) \<mapsto> g + 2),
       sem_objs := (sem_objs ?k)(g \<mapsto> 0, g + 1 \<mapsto> 0, g + 2 \<mapsto> MAX_POSIXSHM_SLOTS), px_fresh := g + 3\<rparr>\<rparr>"
  have a: "init_posixshm_semaphores t s1 = Inr s2"
    using assms(5,7,9)
    by (simp add: init_posixshm_semaphores_def init_semaphore_def sem_open_new_def Let_def s1_def s2_def numeral_eq_Suc)
  define md where "md = init_posixshm_mempool (ob_md (resize 25 \<lparr>ob_md = shm_zero, ob_pages = 0\<rparr>))"
  let ?k = "px_kernel s2"
  define s3 where "s3 = s2\<lparr>posixshm_inst := (posixshm_inst s2)\<lparr>my_posixshm_name := Some my, px_my_shmid := Some (g + 3),
       px_my_shm_ptr := MapAt (g + 3) 25\<rparr>,
     px_kernel := ?k\<lparr>shm_names := (shm_names ?k)(my \<mapsto> g + 3), shm_objs := (shm_objs ?k)(g + 3 \<mapsto> \<lparr>ob_md = md, ob_pages = 25\<rparr>),
       sem_objs := (sem_objs ?k)(g \<mapsto> 1), px_fresh := Suc (g + 3)\<rparr>\<rparr>"
  have b: "init_posixshm t s2 = Inr s3"
    using assms(5,8)
    by (simp add: init_posixshm_def shm_open_new_def Let_def ftruncate_def mmap_def map_upd_def map_get_def px_sem_post_def
        s1_def s2_def s3_def md_def resize_def)
  have th: "can_alloc (th_heap (thrman_inst (px_proc s3)))" "sys (px_proc s3) = []"
    using assms(5,6) by (simp_all add: s3_def s2_def s1_def)
  obtain p where p: "init_posixshm_rx_thread t s3 = Inr (s3\<lparr>px_proc := p\<rparr>)" "rcs p = rcs (px_proc s3)"
    using px_rx_thread_ok [OF th(2,1)] by blast
  let ?s = "px_set (\<lambda>v. v\<lparr>px_is_initialized := True\<rparr>) (s3\<lparr>px_proc := p\<rparr>)"
  have "posixshm_init t my ITC_COORD_MASK nr flags s = Inr ?s"
    using assms(1) shift_loop_coord a b p(1)
    by (simp add: posixshm_init_def s1_def del: shift_loop.simps ITC_COORD_MASK_def ITC_COORD_SHIFT_def)
  moreover have "px_cfg ?s" using assms(3) by (simp add: px_cfg_def s3_def s2_def s1_def)
  moreover have "px_receiver (g + 3) \<lparr>ob_md = md, ob_pages = 25\<rparr> (g + 2) g (g + 1) MAX_POSIXSHM_SLOTS 0 ?s"
    using assms(2) by (simp add: px_receiver_def px_sems_def s3_def s2_def s1_def)
  moreover have "rcs p t = BLive ITC_OK" using p(2) assms(4) by (simp add: s3_def s2_def s1_def)
  moreover have "shm_shape (ob_md (resize 25 \<lparr>ob_md = shm_zero, ob_pages = 0\<rparr>))"
    using shape_zero by (simp add: resize_def shm_shape_def slot_info_at_def Let_def)
  then have "shm_list md []" unfolding md_def init_posixshm_mempool_def by (rule init_mempool_list)
  ultimately show ?thesis by auto
qed

section \<open>Witnesses\<close>

definition px_contact_example :: posixshm_contactlist where
  "px_contact_example = \<lparr>px_mbox_id_in_itccoord = 0x100000, posixshm_id = Some 5, px_metadata = MapAt 5 25,
     px_sem_mutex = SemAt 1, px_sem_notify = SemAt 2, px_sem_slot = SemAt 3\<rparr>"

definition px_empty_object :: shm_object where
  "px_empty_object = \<lparr>ob_md = init_sysvshm_mempool shm_zero, ob_pages = 25\<rparr>"

definition px_example :: "proc \<Rightarrow> px_state" where
  "px_example p = \<lparr>px_proc = p,
     posixshm_inst = posixshm_instance0\<lparr>px_is_initialized := True, px_itccoord_mask := ITC_COORD_MASK,
       px_itccoord_shift := ITC_COORD_SHIFT, px_my_shmid := Some 5, px_my_shm_ptr := MapAt 5 25,
       px_my_sem_mutex := SemAt 1, px_my_sem_notify := SemAt 2, px_my_sem_slot := SemAt 3,
       posixshm_cl := replicate 255 px_contact_example\<rparr>,
     px_kernel = \<lparr>shm_names = (\<lambda>_. None), sem_names = (\<lambda>_. None), shm_objs = [5 \<mapsto> px_empty_object],
       sem_objs = [1 \<mapsto> 1, 2 \<mapsto> 0, 3 \<mapsto> 70], px_fresh = 6\<rparr>\<rparr>"

definition px_sender_example :: "bytes \<Rightarrow> px_state" where
  "px_sender_example b = px_example (alloc_example\<lparr>msgs := \<lparr>cells = [0 \<mapsto> b], fresh = 1, malloc_results = []\<rparr>\<rparr>)"

lemma px_example_contact:
  "proc_index to = 1 \<Longrightarrow> px_contact to px_contact_example 5 px_empty_object 3 1 2 (Suc (Suc 68)) 0 (px_example p)"
  by (simp add: px_contact_def px_cfg_def px_sems_def px_example_def px_contact_example_def)

lemma px_example_receiver: "px_receiver 5 px_empty_object 3 1 2 (Suc (Suc 68)) 0 (px_example p)"
  by (simp add: px_receiver_def px_sems_def px_example_def posixshm_instance0_def)

lemma px_empty_object_facts: "shm_list (ob_md px_empty_object) []" "ob_pages px_empty_object = 25"
  using init_mempool_list [OF shape_zero] by (simp_all add: px_empty_object_def)

lemma px_example_sender:
  assumes "wf_msg b" and "\<not> inrx b" and "length b < 2 ^ 31"
  shows "px_sender 0 0 b (px_sender_example b)" "sys (px_proc (px_sender_example b)) = []"
  using assms alloc_example_state
  by (auto simp: px_sender_def px_sender_example_def px_example_def alloc_state_def alloc_example_def proc0_def heap_ok_def)

definition large_message :: bytes where
  "large_message = blit OFF_RECEIVER (enc32 0x100001) (new_message 20000 7)"

lemma addressed_message_facts:
  assumes "4 \<le> n" and "n < 2 ^ 30"
  shows "wf_msg (blit OFF_RECEIVER (enc32 v) (new_message n x))" "\<not> inrx (blit OFF_RECEIVER (enc32 v) (new_message n x))"
    "length (blit OFF_RECEIVER (enc32 v) (new_message n x)) = n + 17"
    "fld OFF_RECEIVER (blit OFF_RECEIVER (enc32 v) (new_message n x)) = v"
  using new_message_facts [OF assms, of x] fld_new_message [of n x] assms
  by (simp_all add: wf_msg_blit_header inrx_def fld_blit_other)

lemma large_size: "(4::nat) \<le> 20000" "(20000::nat) < 2 ^ 30" "20000 + 17 = (20017 :: nat)"
  by simp_all

lemmas large_message_facts =
  addressed_message_facts [OF large_size(1,2), of "0x100001" 7, folded large_message_def, unfolded large_size(3)]

lemma large_message_fits: "px_fits large_message" "\<not> fits_pools large_message"
  using large_message_facts by (simp_all add: px_fits_def fits_pools_def)

theorem message_crosses_posix_memory_witness:
  "\<exists>k p s' q r' b' md'. posixshm_send 0 0 0x100001 (px_sender_example large_message) = Inr s' \<and>
     posixshm_rx_round 1 (px_example q\<lparr>px_kernel := px_kernel s'\<rparr>) = Inr (True, r') \<and>
     core_ok (px_proc r') k [0 \<mapsto> [], 1 \<mapsto> [p]] \<and> cells (msgs (px_proc r')) p = Some b' \<and>
     drop OFF_SIZE b' = drop OFF_SIZE large_message \<and>
     px_receiver 5 \<lparr>ob_md = md', ob_pages = 25\<rparr> 3 1 2 70 0 r' \<and> shm_list md' []"
proof -
  obtain q k where q: "mbx_rep k q [0 \<mapsto> [], 1 \<mapsto> []]" "alloc_state 1 q" "malloc_results (msgs q) = []"
      "my_threadlocal_mbox q 1 = Some 0" "mbx_id 1 q = 0x100001" "max_mallocsize q = ITC_MAX_MSGSIZE"
    by (rule receiving_proc)
  note m = large_message_facts and e = px_empty_object_facts
  define r where "r = px_example q"
  have p: "px_proc r = q" by (simp add: r_def px_example_def)
  have i: "proc_index (mbx_id 1 (px_proc r)) = 1" using q(5) by (simp add: proc_index_def p)
  have b: "fld OFF_RECEIVER large_message = mbx_id 1 (px_proc r)"
    "length large_message \<le> nat (max_mallocsize (px_proc r))" using m q(5,6) by (simp_all add: p)
  have len: "length large_message < 2 ^ 31" using m(3) by simp
  note s = px_example_sender [OF m(1,2) len]
  have con: "px_contact (mbx_id 1 (px_proc r)) px_contact_example 5 px_empty_object 3 1 2 (Suc (Suc 68)) 0
      (px_sender_example large_message)"
    unfolding px_sender_example_def by (rule px_example_contact [OF i])
  from message_crosses_posix_memory [OF con s large_message_fits(1) e px_example_receiver [of q, folded r_def] q(1-4) [folded p] _ _ b, of "[]"]
  obtain s' r' md' b' where
    "posixshm_send 0 0 (mbx_id 1 (px_proc r)) (px_sender_example large_message) = Inr s'"
    "posixshm_rx_round 1 (r\<lparr>px_kernel := px_kernel s'\<rparr>) = Inr (True, r')"
    "core_ok (px_proc r') k ([0 \<mapsto> [], 1 \<mapsto> []](1 \<mapsto> [] @ [fresh (msgs q)]))"
    "cells (msgs (px_proc r')) (fresh (msgs q)) = Some b'" "drop OFF_SIZE b' = drop OFF_SIZE large_message"
    "px_receiver 5 \<lparr>ob_md = md', ob_pages = 25\<rparr> 3 1 2 (Suc (Suc 68)) 0 r'" "shm_list md' []"
    by (auto simp: p)
  moreover have n: "Suc (Suc 68) = (70 :: nat)" by simp
  ultimately show ?thesis unfolding p unfolding q(5) append_Nil fun_upd_upd n unfolding r_def by blast
qed

theorem small_message_behind_large_one_is_fatal_witness:
  "\<exists>s'. posixshm_send 0 0 0x100001 (px_sender_example large_message) = Inr s' \<and>
     posixshm_send 0 0 0x100001 (px_sender_example remote_message\<lparr>px_kernel := px_kernel s'\<rparr>) = Inl OutOfBounds"
proof -
  have i: "proc_index 0x100001 = 1" by (simp add: proc_index_def)
  note m = large_message_facts and r = remote_message_facts and e = px_empty_object_facts
  have con: "px_contact 0x100001 px_contact_example 5 px_empty_object 3 1 2 (Suc (Suc 68)) 0 (px_sender_example b)" for b
    unfolding px_sender_example_def by (rule px_example_contact [OF i])
  have len: "length large_message < 2 ^ 31" "length remote_message < 2 ^ 31" using m(3) r(3) by simp_all
  have fit: "fits_pools remote_message" using r(1,3) by (simp add: fits_pools_def)
  from small_message_behind_large_one_is_fatal [OF con px_example_sender [OF m(1,2) len(1)] large_message_fits e
      con px_example_sender [OF r(1,2) len(2)] fit] show ?thesis .
qed


end
