(* ===== verification/Spec2Isabelle.thy ===== *)
theory Spec2Isabelle
  imports Itc_Coord_System Itc_Remote Itc_Threads Itc_Gw_Net Itc_Sysvshm_Run Itc_Posixmq_Run Itc_Posixshm_Run
begin

text \<open>
  Verification of itc-framework, a library for communication between the threads of a process,
  between the processes of a host and, through a gateway, between hosts.

  \<^bold>\<open>The program.\<close> A process calls \<open>itc_init\<close> (\<open>sw/itc/src/itc.c\<close>) and gets a table of mailboxes, the
  free ones in a queue (\<open>sw/itc/src/helpers/itc_queue.c\<close>). A thread takes a mailbox with
  \<open>itc_create_mailbox\<close>, allocates messages (\<open>sw/itc/src/allocators/itc_malloc.c\<close>), sends and receives
  them. A message is a block of bytes with a header, the user's data and an end marker. Transports
  carry it: \<open>itc_local.c\<close> hands its pointer to a receive queue of the same process, \<open>itc_sysvmq.c\<close>
  copies it into the System V message queue of another process, whose receiving thread sends it on to
  the mailbox there, and \<open>itc_lsocket.c\<close> connects a process to the coordinator at start. Three other
  transports, \<open>itc_posixmq.c\<close>, \<open>itc_sysvshm.c\<close> and \<open>itc_posixshm.c\<close>, can be built in the place of
  \<open>itc_sysvmq.c\<close>. The framework's own threads are started and stopped by \<open>itc_threadmanager.c\<close>. The coordinator
  (\<open>sw/coord/itccoord.c\<close>) is a process of its own: it gives every process a slot, whose number is the
  upper part of the identifiers of the process's mailboxes, keeps a socket open to each process, and
  knows the names of all mailboxes of the host. The gateway (\<open>sw/gateway/itc_gw.c\<close>) announces its host by
  broadcasts, connects to the hosts it hears of, and carries messages and questions about mailboxes
  between them.

  \<^bold>\<open>How it is modelled.\<close> C data are records, enumerations datatypes, machine integers words of their
  width where the code depends on it. A pointer is an address in a heap of explicitly allocated cells,
  or, for blocks that only one variable refers to, a \<open>block\<close> that is null, live or freed. An operation
  takes the state and returns a value of type \<open>outcome\<close>: the result with the new state, or the reason
  why the C program has no defined continuation (null pointer, use after free, double free, access out
  of bounds, an indeterminate value, a wait that nobody ends, a loop that does not end). What the
  operating system answers is part of the state: lists of the outcomes of the coming system calls,
  allocations and received data; a call beyond the given ones succeeds. Each operation of a thread is
  one step, since the code holds the mutex of the mailbox, of the queue or of the list from its first
  to its last access; mutexes are modelled by their owner, so that a mutex that is never released
  shows up as a wait that nobody ends. Where a receiver waits on a condition variable, the operations of the other threads
  during the wait are a parameter.

  \<^bold>\<open>The theories.\<close>

  \<^item> \<open>Itc_Prelude\<close>, \<open>Itc_Dll\<close>, \<open>Itc_Fifo\<close>: outcomes, heaps and blocks; doubly linked lists in a heap; the
    contract of a queue as the locale \<open>fifo\<close>, from which it follows once that every sequence of
    operations behaves like a list.
  \<^item> \<open>Itc_Types\<close>, \<open>Itc_Message\<close>, \<open>Itc_Proto\<close>, \<open>Itc_Process\<close>: constants and result codes (\<open>itc.h\<close>,
    \<open>itc_impl.h\<close>), the bytes of a message, the layouts of the protocol (\<open>itc_proto.h\<close>), and the state
    of a process with the variables of all its source files.
  \<^item> \<open>Itc_Queue\<close>: \<open>itc_queue.c\<close>. It interprets \<open>fifo\<close>; removal from the middle and destruction are exact.
  \<^item> \<open>Itc_Alloc\<close>: \<open>itc_malloc.c\<close>, \<open>itc_alloc\<close> and \<open>itc_free\<close>, with the sizes as 64-bit words.
  \<^item> \<open>Itc_Local\<close>, \<open>Itc_Local_Table\<close>: \<open>itc_local.c\<close>. The receive queues interpret \<open>fifo\<close>; seen as a
    table of lists, an operation changes one list only.
  \<^item> \<open>Itc_Threads\<close>: \<open>itc_threadmanager.c\<close>; starting and terminating the list of threads.
  \<^item> \<open>Itc_Lsock\<close>, \<open>Itc_Sysvmq\<close>, \<open>Itc_Sysvmq_Rx\<close>: \<open>itc_lsocket.c\<close> and the two sides of \<open>itc_sysvmq.c\<close>.
  \<^item> \<open>Itc_Core\<close>, \<open>Itc_Init\<close>: \<open>itc.c\<close>, all operations that applications call.
  \<^item> \<open>Itc_Core_Inv\<close>, \<open>Itc_Lifecycle\<close>, \<open>Itc_Api\<close>, \<open>Itc_Start\<close>: the invariant that ties the mailboxes, the
    receive queues, the event descriptors, the free queue, the owners and the tree of names together;
    every call preserves it, and \<open>itc_init\<close> establishes it.
  \<^item> \<open>Itc_Mailbox_Spec\<close>, \<open>Itc_Mailboxes\<close>: the abstract mailboxes as the locale \<open>mailboxes\<close>, and its
    interpretation by \<open>itc_send\<close> and \<open>itc_receive\<close>.
  \<^item> \<open>Itc_System\<close>, \<open>Itc_Remote\<close>: the properties of a whole process, and of two processes that are joined
    by a message queue of the kernel.
  \<^item> \<open>Itc_Shm\<close>: the memory that both transports over shared memory use, slots in six pools that are linked
    to one queue across the pools. It interprets \<open>fifo\<close>.
  \<^item> \<open>Itc_Sysvshm\<close>, \<open>Itc_Sysvshm_Run\<close>: \<open>itc_sysvshm.c\<close> over the segments and semaphores of the kernel, and
    what follows for a sender and a receiving thread that share them.
  \<^item> \<open>Itc_Posixshm\<close>, \<open>Itc_Posixshm_Run\<close>: \<open>itc_posixshm.c\<close> in the same way, with shared objects that grow and
    shrink and with the number of pages that each process has mapped.
  \<^item> \<open>Itc_Tree\<close>: the search trees of the C library: searches by the key of their order are exact, and
    searches by another key find everything only if the two orders agree.
  \<^item> \<open>Itc_Posixmq\<close>, \<open>Itc_Posixmq_Run\<close>: \<open>itc_posixmq.c\<close> with its trees of messages and mailboxes, and the thread
    that the kernel starts when a message arrives.
  \<^item> \<open>Itc_Coord\<close>: \<open>itccoord.c\<close>, from its start over the rounds of its main loop to its exit handler.
  \<^item> \<open>Itc_Coord_Slots\<close>: the invariant of the slots, for every part of a round and any behaviour of the
    outside world.
  \<^item> \<open>Itc_Coord_Registry\<close>: the names, as the locale \<open>name_service\<close> that the coordinator's handlers
    interpret: the two kinds of trees implement an abstract registry.
  \<^item> \<open>Itc_Coord_System\<close>: the coordinator as a whole and its handshake with a process.
  \<^item> \<open>Itc_Text\<close>: printing and scanning of text as far as the gateway uses it.
  \<^item> \<open>Itc_Gw\<close>: \<open>itc_gw.c\<close> and \<open>itc_gw_proto.h\<close>, from the set-up over the rounds of the three threads to
    the exit handler. A peer is its index in one of the three arrays; a connection delivers its bytes in
    portions.
  \<^item> \<open>Itc_Gw_Peers\<close>: the contract of an array of peers with its tree as the locale
    \<open>peer_table\<close>, interpreted for the connections and for the hosts that were heard of; every handler
    keeps the tables of the connections in order.
  \<^item> \<open>Itc_Gw_Run\<close>: the reachable states of the gateway and what its searches find in them.
  \<^item> \<open>Itc_Gw_Net\<close>: what travels between hosts: messages, questions and answers, announcements.

  \<^bold>\<open>What is shown.\<close> After \<open>itc_init\<close> no sequence of permitted calls, of whatever threads, faults or
  loses the invariant; runs of sends and receives answer as the abstract mailboxes do, so that each
  mailbox is a first-in first-out channel and messages arrive unchanged; a waiting receiver is served;
  a created mailbox is found under its name until it is deleted. Between processes a message arrives
  exactly once with its data, through a message queue of the kernel as well as through shared memory. The coordinator never confuses its slots, admits a process under an
  identity that leads back to its slot, answers like a registry of names as long as processes remove
  only their own names, and forgets exactly the names of a process that went away. Between hosts a
  message is handed on byte for byte, however its packet is cut into portions; questions are answered
  from the other host; announcements are understood; and a search by address finds exactly the
  connected hosts. Searches by descriptor or namespace find all of them only if these happen to be in
  the order of the addresses. Where the code
  departs from what it means to do, the theorem states what it does: wrapped sizes, a removal that
  leaves a dangling pointer, messages lost or dropped, names that hide a mailbox, the uses of
  released memory in the coordinator, and the ways in which the alternative transports lose messages,
  stop for ever or leave their memory.

  \<^bold>\<open>Loops.\<close> Loops over lists of nodes get one more than the number of cells ever allocated as fuel,
  which a list without a cycle cannot exceed; loops that repeat an interrupted system call get one
  more than the number of given outcomes. Running out is the outcome \<open>Diverges\<close>, and the theorems that
  an operation returns exclude it. The endless loops of the receiving thread and of the coordinator
  are modelled by their rounds.

  \<^bold>\<open>Limits of the properties.\<close> The invariant of a whole process is proved for the process of the
  coordinator, whose mailboxes nobody else has to be told about, with no failing system call; single
  operations are also described for failures. In the trees of the C library the nodes are visited in
  the order of insertion, which finds the same node as any other order because names differ.

  In the search trees of the gateway and of \<open>itc_posixmq.c\<close> the shape matters for what a search by another
  key finds; the theorems about such searches hold for every shape, and the trees themselves are not
  rebalanced. The threads of the gateway interleave by rounds, since no table is used by two of them.

  The memory of the shared-memory transports is a header and its slots, each with its bytes; a write
  behind the end of a slot is a fault. A sender's critical section and a round of the receiving thread
  are single steps, since a semaphore encloses them. The receiving threads of the alternative
  transports hand messages to the model of \<open>itc_send\<close> of the default build, where they stay in the
  process.

  \<^bold>\<open>Not modelled.\<close> Of the coordinator and the gateway, their signal handlers, command line, log file
  and daemon mode; of the coordinator the removal of files at its exit, whose results are ignored; of
  the gateway the constants that only reach the socket calls. Tracing, tests and examples, among which
  are older copies of the coordinator and the gateway.
\<close>

end
